(* ===== verification/Prelude.thy ===== *)
theory Prelude
  imports Main "HOL-Library.Sublist"
begin

section \<open>The JavaScript values the components share\<close>

text \<open>
  What every other theory uses of the language and its standard library. A source string is the
  list of its UTF-8 bytes (type \<^typ>\<open>string\<close>): equality, concatenation, \<open>includes\<close>,
  \<open>startsWith\<close>, \<open>endsWith\<close>, \<open>split\<close> and \<open>replace\<close> of an ASCII separator agree with what
  JavaScript computes on the code units, because UTF-8 is self-synchronizing. The two components
  that read code units by number (the digest and the Base64 codec) work on lists of code units
  instead. Case mapping is the ASCII one. An absent or \<open>undefined\<close> field is \<open>None\<close>.

  The theory also holds the locale \<open>transition_system\<close>: a step function with a guard and an
  invariant, and the lemma that runs of enabled steps keep the invariant.
\<close>

named_theorems js_simps \<open>unfolding rules for the string and option helpers\<close>
named_theorems tree_simps \<open>rules for the recursive tree operations\<close>
named_theorems agent_simps \<open>unfolding rules for the message updates of the agent\<close>

subsection \<open>Falsy and absent values\<close>

definition str_or :: "string \<Rightarrow> string \<Rightarrow> string" where
  \<comment> \<open>\<open>a || b\<close> on strings: the empty string is falsy\<close>
  [js_simps]: "str_or a b = (if a = [] then b else a)"

definition opt_or :: "string option \<Rightarrow> string \<Rightarrow> string" where
  \<comment> \<open>\<open>a || b\<close> where \<open>a\<close> may be absent\<close>
  [js_simps]: "opt_or a b = (case a of None \<Rightarrow> b | Some s \<Rightarrow> str_or s b)"

definition opt_or_opt :: "string option \<Rightarrow> string option \<Rightarrow> string option" where
  \<comment> \<open>\<open>a || b\<close> where both may be absent\<close>
  [js_simps]: "opt_or_opt a b = (case a of None \<Rightarrow> b | Some s \<Rightarrow> if s = [] then b else a)"

definition nullish :: "'a option \<Rightarrow> 'a \<Rightarrow> 'a" where
  \<comment> \<open>\<open>a ?? b\<close>\<close>
  [js_simps]: "nullish a b = (case a of None \<Rightarrow> b | Some x \<Rightarrow> x)"

definition num_or :: "int option \<Rightarrow> int \<Rightarrow> int" where
  \<comment> \<open>\<open>a || b\<close> on numbers: zero is falsy\<close>
  [js_simps]: "num_or a b = (case a of None \<Rightarrow> b | Some n \<Rightarrow> if n = 0 then b else n)"

definition truthy :: "string option \<Rightarrow> bool" where
  [js_simps]: "truthy a = (case a of None \<Rightarrow> False | Some s \<Rightarrow> s \<noteq> [])"

lemma truthy_None [simp]: "\<not> truthy None"
  by (simp add: truthy_def)

lemma truthy_Some [simp]: "truthy (Some s) \<longleftrightarrow> s \<noteq> []"
  by (simp add: truthy_def)

subsection \<open>Searching strings\<close>

definition starts_with :: "string \<Rightarrow> string \<Rightarrow> bool" where
  [js_simps]: "starts_with s p = prefix p s"

definition ends_with :: "string \<Rightarrow> string \<Rightarrow> bool" where
  [js_simps]: "ends_with s p = suffix p s"

definition includes_str :: "string \<Rightarrow> string \<Rightarrow> bool" where
  "includes_str s p = sublist p s"

definition replace_char :: "char \<Rightarrow> string \<Rightarrow> string \<Rightarrow> string" where
  \<comment> \<open>\<open>s.replace(/c/g, r)\<close> for one ASCII character\<close>
  "replace_char c r s = concat (map (\<lambda>x. if x = c then r else [x]) s)"

lemma replace_char_Nil [simp]: "replace_char c r [] = []"
  by (simp add: replace_char_def)

lemma replace_char_Cons [simp]:
  "replace_char c r (x # s) = (if x = c then r else [x]) @ replace_char c r s"
  by (simp add: replace_char_def)

lemma replace_char_append [simp]:
  "replace_char c r (s @ t) = replace_char c r s @ replace_char c r t"
  by (simp add: replace_char_def)

lemma replace_char_absent: "c \<notin> set s \<Longrightarrow> replace_char c r s = s"
  by (induction s) auto

subsection \<open>Joining and splitting\<close>

fun join :: "string \<Rightarrow> string list \<Rightarrow> string" where
  "join sep [] = []"
| "join sep [x] = x"
| "join sep (x # y # zs) = x @ sep @ join sep (y # zs)"

lemma join_Cons: "join sep (x # xs) = (if xs = [] then x else x @ sep @ join sep xs)"
  by (cases xs) simp_all

fun split_acc :: "string \<Rightarrow> string \<Rightarrow> string \<Rightarrow> string list" where
  \<comment> \<open>\<open>split\<close> scans left to right; \<open>acc\<close> is the current part, reversed\<close>
  "split_acc sep acc [] = [rev acc]"
| "split_acc sep acc (c # cs) =
     (if prefix sep (c # cs) then rev acc # split_acc sep [] (drop (length sep - 1) cs)
      else split_acc sep (c # acc) cs)"

definition split_on :: "string \<Rightarrow> string \<Rightarrow> string list" where
  \<comment> \<open>\<open>s.split(sep)\<close> for a non-empty separator\<close>
  "split_on sep s = split_acc sep [] s"

lemma split_acc_nonempty [simp]: "split_acc sep acc s \<noteq> []"
  by (induction sep acc s rule: split_acc.induct) auto

lemma split_on_nonempty [simp]: "split_on sep s \<noteq> []"
  by (simp add: split_on_def)

lemma join_split_acc: "sep \<noteq> [] \<Longrightarrow> join sep (split_acc sep acc s) = rev acc @ s"
proof (induction sep acc s rule: split_acc.induct)
  case (2 sep acc c cs)
  show ?case
  proof (cases "prefix sep (c # cs)")
    case True
    then obtain rest where rest: "c # cs = sep @ rest" by (auto simp: prefix_def)
    with \<open>sep \<noteq> []\<close> have "drop (length sep - 1) cs = rest"
      by (cases sep) auto
    with True have "split_acc sep acc (c # cs) = rev acc # split_acc sep [] rest"
      by simp
    moreover from True "2.IH"(1) "2.prems" \<open>drop (length sep - 1) cs = rest\<close>
    have "join sep (split_acc sep [] rest) = rest" by simp
    ultimately show ?thesis by (simp add: join_Cons rest del: split_acc.simps)
  qed (use 2 in simp)
qed simp

lemma join_split_on: "sep \<noteq> [] \<Longrightarrow> join sep (split_on sep s) = s"
  by (simp add: split_on_def join_split_acc)

lemma split_on_inject: "sep \<noteq> [] \<Longrightarrow> split_on sep s = split_on sep t \<longleftrightarrow> s = t"
  by (metis join_split_on)

lemma split_acc_char: "c \<notin> set x \<Longrightarrow> split_acc [c] acc (x @ r) = split_acc [c] (rev x @ acc) r"
  by (induction x arbitrary: acc) auto

lemma split_on_join:
  "xs \<noteq> [] \<Longrightarrow> (\<And>x. x \<in> set xs \<Longrightarrow> c \<notin> set x) \<Longrightarrow> split_on [c] (join [c] xs) = xs"
proof (induction xs)
  case (Cons x xs)
  have c: "c \<notin> set x" using Cons.prems(2) by simp
  show ?case
  proof (cases xs)
    case Nil
    then show ?thesis using split_acc_char [OF c, of "[]" "[]"] by (simp add: split_on_def)
  next
    case (Cons y ys)
    then have "split_acc [c] [] (join [c] xs) = xs"
      using Cons.IH Cons.prems by (simp add: split_on_def)
    then show ?thesis
      using Cons split_acc_char [OF c, of "[]" "c # join [c] xs"] by (simp add: split_on_def join_Cons)
  qed
qed simp

subsection \<open>White space and case\<close>

definition js_white :: "string list" where
  \<comment> \<open>the white space and line terminators of ECMAScript, as UTF-8\<close>
  "js_white =
    [[CHR 0x09], [CHR 0x0A], [CHR 0x0B], [CHR 0x0C], [CHR 0x0D], [CHR 0x20],
     [CHR 0xC2, CHR 0xA0], [CHR 0xEF, CHR 0xBB, CHR 0xBF], [CHR 0xE1, CHR 0x9A, CHR 0x80],
     [CHR 0xE2, CHR 0x80, CHR 0x80], [CHR 0xE2, CHR 0x80, CHR 0x81],
     [CHR 0xE2, CHR 0x80, CHR 0x82], [CHR 0xE2, CHR 0x80, CHR 0x83],
     [CHR 0xE2, CHR 0x80, CHR 0x84], [CHR 0xE2, CHR 0x80, CHR 0x85],
     [CHR 0xE2, CHR 0x80, CHR 0x86], [CHR 0xE2, CHR 0x80, CHR 0x87],
     [CHR 0xE2, CHR 0x80, CHR 0x88], [CHR 0xE2, CHR 0x80, CHR 0x89],
     [CHR 0xE2, CHR 0x80, CHR 0x8A], [CHR 0xE2, CHR 0x80, CHR 0xA8],
     [CHR 0xE2, CHR 0x80, CHR 0xA9], [CHR 0xE2, CHR 0x80, CHR 0xAF],
     [CHR 0xE2, CHR 0x81, CHR 0x9F], [CHR 0xE3, CHR 0x80, CHR 0x80]]"

fun strip_with :: "string list \<Rightarrow> nat \<Rightarrow> string \<Rightarrow> string" where
  "strip_with ws 0 s = s"
| "strip_with ws (Suc n) s =
     (case find (\<lambda>w. prefix w s) ws of
        None \<Rightarrow> s | Some w \<Rightarrow> strip_with ws n (drop (length w) s))"

definition trim_left :: "string \<Rightarrow> string" where
  "trim_left s = strip_with js_white (length s) s"

definition trim_right :: "string \<Rightarrow> string" where
  "trim_right s = rev (strip_with (map rev js_white) (length s) (rev s))"

definition trim :: "string \<Rightarrow> string" where
  "trim s = trim_right (trim_left s)"

lemma strip_with_suffix: "suffix (strip_with ws n s) s"
proof (induction ws n s rule: strip_with.induct)
  case (2 ws n s)
  then show ?case
    by (auto split: option.splits intro: suffix_order.trans suffix_drop)
qed simp

definition white_bytes :: "char set" where
  "white_bytes = \<Union> (set ` set js_white)"

lemma strip_with_none:
  assumes "\<And>w. w \<in> set ws \<Longrightarrow> \<not> prefix w s"
  shows "strip_with ws n s = s"
proof -
  have "find (\<lambda>w. prefix w s) ws = None" using assms by (simp add: find_None_iff)
  then show ?thesis by (cases n) simp_all
qed

lemma trim_no_white:
  assumes "set s \<inter> white_bytes = {}"
  shows "trim s = s"
proof -
  have no: "\<not> prefix w t" if "w \<noteq> []" "set w \<subseteq> white_bytes" "set t = set s" for w t
    using that assms by (cases w; cases t) auto
  have js: "w \<noteq> [] \<and> set w \<subseteq> white_bytes" if "w \<in> set js_white" for w
    using that unfolding white_bytes_def by (auto simp: js_white_def)
  have "trim_left s = s"
    unfolding trim_left_def by (rule strip_with_none) (use js no in blast)
  moreover have "trim_right s = s"
  proof -
    have "\<not> prefix w (rev s)" if w: "w \<in> set (map rev js_white)" for w
    proof -
      obtain v where v: "w = rev v" "v \<in> set js_white" using w unfolding set_map by blast
      then show ?thesis using js [of v] by (intro no) auto
    qed
    then show ?thesis unfolding trim_right_def by (subst strip_with_none) simp_all
  qed
  ultimately show ?thesis by (simp add: trim_def)
qed

lemma strip_with_done:
  "\<forall>w\<in>set ws. w \<noteq> [] \<Longrightarrow> length s \<le> n \<Longrightarrow> w \<in> set ws \<Longrightarrow> \<not> prefix w (strip_with ws n s)"
proof (induction ws n s rule: strip_with.induct)
  case (2 ws n s)
  show ?case
  proof (cases "find (\<lambda>w. prefix w s) ws")
    case None
    then have "strip_with ws (Suc n) s = s" by simp
    then show ?thesis using None 2(4) unfolding find_None_iff by auto
  next
    case (Some v)
    then have "v \<in> set ws" by (auto simp: find_Some_iff)
    with 2(2,3) have "length (drop (length v) s) \<le> n" by (cases v) auto
    then show ?thesis using 2 Some by simp
  qed
qed auto

lemma white_not_nil: "w \<in> set js_white \<Longrightarrow> w \<noteq> []"
  by (auto simp: js_white_def)

lemma trim_clean:
  assumes "w \<in> set js_white"
  shows "\<not> prefix w (trim s)" "\<not> suffix w (trim s)"
proof -
  let ?t = "strip_with js_white (length s) s"
  let ?u = "strip_with (map rev js_white) (length ?t) (rev ?t)"
  have u: "trim s = rev ?u" by (simp add: trim_def trim_left_def trim_right_def)
  have "\<not> prefix w ?t" by (rule strip_with_done) (use assms white_not_nil in blast)+
  moreover have "prefix (rev ?u) ?t"
    using strip_with_suffix [of "map rev js_white" "length ?t" "rev ?t"] unfolding suffix_to_prefix by simp
  ultimately show "\<not> prefix w (trim s)" unfolding u using prefix_order.trans by blast
  have "\<forall>v\<in>set (map rev js_white). v \<noteq> []" using white_not_nil unfolding set_map by blast
  moreover have "rev w \<in> set (map rev js_white)" using assms unfolding set_map by blast
  ultimately have "\<not> prefix (rev w) ?u" by (intro strip_with_done) (simp_all only: length_rev order_refl)
  then show "\<not> suffix w (trim s)" unfolding u suffix_to_prefix by simp
qed

lemma trim_fixed:
  assumes "\<And>w. w \<in> set js_white \<Longrightarrow> \<not> prefix w s" "\<And>w. w \<in> set js_white \<Longrightarrow> \<not> suffix w s"
  shows "trim s = s"
proof -
  have "trim_left s = s" unfolding trim_left_def by (rule strip_with_none) (rule assms(1))
  moreover have "\<not> prefix w (rev s)" if "w \<in> set (map rev js_white)" for w
    using that assms(2) unfolding set_map by (metis imageE suffix_to_prefix)
  then have "trim_right s = s" unfolding trim_right_def by (subst strip_with_none) simp_all
  ultimately show ?thesis by (simp add: trim_def)
qed

lemma trim_trim [simp]: "trim (trim s) = trim s"
  by (rule trim_fixed) (simp_all add: trim_clean)

lemma set_trim_subset: "set (trim s) \<subseteq> set s"
proof -
  have "set (trim_left s) \<subseteq> set s"
    unfolding trim_left_def by (rule set_mono_suffix) (rule strip_with_suffix)
  moreover have "set (trim_right t) \<subseteq> set t" for t
    using set_mono_suffix [OF strip_with_suffix, of "map rev js_white" "length t" "rev t"]
    by (simp add: trim_right_def)
  ultimately show ?thesis unfolding trim_def by blast
qed

lemma strip_with_decomp: "\<exists>w. s = w @ strip_with ws n s \<and> set w \<subseteq> \<Union> (set ` set ws)"
proof (induction ws n s rule: strip_with.induct)
  case (2 ws n s)
  show ?case
  proof (cases "find (\<lambda>w. prefix w s) ws")
    case (Some w)
    then have w: "w \<in> set ws" "prefix w s" by (auto simp: find_Some_iff)
    from "2.IH" [OF Some] obtain v where
      "drop (length w) s = v @ strip_with ws n (drop (length w) s)" "set v \<subseteq> \<Union> (set ` set ws)"
      by blast
    with w Some show ?thesis by (intro exI [of _ "w @ v"]) (auto simp: prefix_def)
  qed simp
qed simp

lemma set_strip_superset: "set s \<subseteq> set (strip_with ws n s) \<union> \<Union> (set ` set ws)"
proof -
  from strip_with_decomp [of s ws n]
  obtain w where w: "s = w @ strip_with ws n s" "set w \<subseteq> \<Union> (set ` set ws)"
    by (elim exE conjE) (rule that)
  have "set s = set w \<union> set (strip_with ws n s)" by (metis w(1) set_append)
  with w(2) show ?thesis by blast
qed

lemma union_set_rev: "\<Union> (set ` set (map rev ws)) = \<Union> (set ` set ws)"
  by simp

lemma set_strip_both:
  "set s \<subseteq> set (rev (strip_with (map rev ws) m (rev (strip_with ws n s)))) \<union> \<Union> (set ` set ws)"
  using set_strip_superset [of s ws n] set_strip_superset [of "rev (strip_with ws n s)" "map rev ws" m]
  unfolding union_set_rev set_rev by blast

lemma set_trim_superset: "set s \<subseteq> set (trim s) \<union> \<Union> (set ` set js_white)"
  unfolding trim_def trim_right_def trim_left_def by (rule set_strip_both)

lemma trim_Nil [simp]: "trim [] = []"
  by (simp add: trim_def trim_left_def trim_right_def)

definition to_lower_char :: "char \<Rightarrow> char" where
  "to_lower_char c =
     (let n = of_char c :: nat in if 65 \<le> n \<and> n \<le> 90 then char_of (n + 32) else c)"

definition to_upper_char :: "char \<Rightarrow> char" where
  "to_upper_char c =
     (let n = of_char c :: nat in if 97 \<le> n \<and> n \<le> 122 then char_of (n - 32) else c)"

definition to_lower :: "string \<Rightarrow> string" where
  "to_lower s = map to_lower_char s"

definition to_upper :: "string \<Rightarrow> string" where
  "to_upper s = map to_upper_char s"

subsection \<open>Numbers as decimal text\<close>

definition digit_char :: "nat \<Rightarrow> char" where
  "digit_char d = char_of (48 + d)"

fun show_nat :: "nat \<Rightarrow> string" where
  "show_nat n = (if n < 10 then [digit_char n] else show_nat (n div 10) @ [digit_char (n mod 10)])"

declare show_nat.simps [simp del]

definition show_int :: "int \<Rightarrow> string" where
  \<comment> \<open>\<open>String(n)\<close> for an integer below \<open>10^21\<close> in absolute value\<close>
  "show_int n = (if n < 0 then CHR ''-'' # show_nat (nat (- n)) else show_nat (nat n))"

lemma digit_char_code: "d < 10 \<Longrightarrow> of_char (digit_char d) = (48 + d :: nat)"
  by (simp add: digit_char_def)

lemma show_nat_digits: "c \<in> set (show_nat n) \<Longrightarrow> of_char c \<in> {48..57 :: nat}"
proof (induction n rule: show_nat.induct)
  case (1 n)
  show ?case
  proof (cases "n < 10")
    case True
    with "1.prems" show ?thesis by (simp add: show_nat.simps [of n] digit_char_code)
  next
    case False
    have "n mod 10 < 10" by simp
    with False 1 show ?thesis
      by (auto simp: show_nat.simps [of n] digit_char_code)
  qed
qed

definition read_digits :: "string \<Rightarrow> nat" where
  "read_digits s = foldl (\<lambda>n c. 10 * n + (of_char c - 48)) 0 s"

lemma read_show_nat: "read_digits (show_nat n) = n"
proof (induction n rule: show_nat.induct)
  case (1 n)
  then show ?case
    by (cases "n < 10") (simp_all add: show_nat.simps [of n] read_digits_def digit_char_code)
qed

lemma show_nat_inject: "show_nat m = show_nat n \<longleftrightarrow> m = n"
  by (metis read_show_nat)

subsection \<open>Arrays\<close>

fun find_index :: "('a \<Rightarrow> bool) \<Rightarrow> 'a list \<Rightarrow> nat option" where
  \<comment> \<open>\<open>findIndex\<close>, with \<open>None\<close> for \<open>-1\<close>\<close>
  "find_index P [] = None"
| "find_index P (x # xs) = (if P x then Some 0 else map_option Suc (find_index P xs))"

lemma find_index_None: "find_index P xs = None \<longleftrightarrow> (\<forall>x\<in>set xs. \<not> P x)"
  by (induction xs) auto

lemma find_index_SomeD:
  "find_index P xs = Some i \<Longrightarrow> i < length xs \<and> P (xs ! i) \<and> (\<forall>j<i. \<not> P (xs ! j))"
proof (induction xs arbitrary: i)
  case (Cons x xs)
  show ?case
  proof (cases "P x")
    case False
    with Cons.prems obtain k where k: "i = Suc k" "find_index P xs = Some k"
      by auto
    with Cons.IH False show ?thesis by (auto simp: less_Suc_eq_0_disj)
  qed (use Cons.prems in auto)
qed simp

lemma find_index_append:
  "find_index P (xs @ ys) = (case find_index P xs of Some i \<Rightarrow> Some i | None \<Rightarrow> map_option (\<lambda>i. length xs + i) (find_index P ys))"
proof (induction xs)
  case Nil
  show ?case by (cases "find_index P ys") simp_all
next
  case (Cons x xs)
  then show ?case by (cases "find_index P ys") (auto split: option.splits)
qed

lemma find_index_nth_eqI:
  assumes "i < length xs" "P (xs ! i)" "\<And>j. j < i \<Longrightarrow> \<not> P (xs ! j)"
  shows "find_index P xs = Some i"
proof (cases "find_index P xs")
  case None
  with assms(1,2) show ?thesis by (auto simp: find_index_None)
next
  case (Some k)
  from find_index_SomeD [OF this] assms have "k = i"
    by (metis linorder_neqE_nat)
  with Some show ?thesis by simp
qed

definition find_last_index :: "('a \<Rightarrow> bool) \<Rightarrow> 'a list \<Rightarrow> nat option" where
  \<comment> \<open>a loop from \<open>length - 1\<close> down to \<open>0\<close> that stops at the first hit\<close>
  "find_last_index P xs = map_option (\<lambda>i. length xs - 1 - i) (find_index P (rev xs))"

lemma find_last_index_SomeD:
  "find_last_index P xs = Some i \<Longrightarrow>
     i < length xs \<and> P (xs ! i) \<and> (\<forall>j. i < j \<and> j < length xs \<longrightarrow> \<not> P (xs ! j))"
proof -
  assume "find_last_index P xs = Some i"
  then obtain k where k: "find_index P (rev xs) = Some k" "i = length xs - 1 - k"
    by (auto simp: find_last_index_def)
  from find_index_SomeD [OF k(1)] have lt: "k < length xs" and P: "P (rev xs ! k)"
    and before: "\<And>j. j < k \<Longrightarrow> \<not> P (rev xs ! j)" by auto
  have "\<not> P (xs ! j)" if "i < j" "j < length xs" for j
  proof -
    have "length xs - 1 - j < k" using that k(2) by linarith
    from before [OF this] show ?thesis using that by (simp add: rev_nth)
  qed
  with lt P k(2) show ?thesis by (simp add: rev_nth)
qed

lemma find_last_index_None: "find_last_index P xs = None \<longleftrightarrow> (\<forall>x\<in>set xs. \<not> P x)"
  by (simp add: find_last_index_def find_index_None)

definition last_opt :: "'a list \<Rightarrow> 'a option" where
  \<comment> \<open>\<open>xs[xs.length - 1]\<close>\<close>
  "last_opt xs = (if xs = [] then None else Some (last xs))"

lemma last_opt_snoc [simp]: "last_opt (xs @ [x]) = Some x"
  by (simp add: last_opt_def)

lemma last_opt_Nil [simp]: "last_opt [] = None"
  by (simp add: last_opt_def)

lemma last_opt_None [simp]: "last_opt xs = None \<longleftrightarrow> xs = []"
  by (simp add: last_opt_def)

lemma last_opt_SomeD: "last_opt xs = Some x \<Longrightarrow> xs = butlast xs @ [x]"
  by (cases xs rule: rev_cases) (auto simp: last_opt_def)

lemma filter_map_distinct [intro]: "distinct (map f xs) \<Longrightarrow> distinct (map f (filter P xs))"
  by (induction xs) auto

subsection \<open>Text of the user interface\<close>

text \<open>
  \<open>i18n.t(key, options)\<close> is the library \<open>i18next\<close>: a parameter from a key and its named values
  to text.
\<close>

type_synonym translator = "string \<Rightarrow> (string \<times> string) list \<Rightarrow> string"

subsection \<open>Guarded step functions and their invariants\<close>

text \<open>
  The interface between a component's step function and the proofs about its runs: the component
  provides the guard, the step and a predicate every enabled step keeps; the client gets the
  invariant of whole runs.
\<close>

fun run_steps :: "('s \<Rightarrow> 'e \<Rightarrow> bool) \<Rightarrow> ('s \<Rightarrow> 'e \<Rightarrow> 's) \<Rightarrow> 's \<Rightarrow> 'e list \<Rightarrow> 's option" where
  "run_steps en st s [] = Some s"
| "run_steps en st s (e # es) = (if en s e then run_steps en st (st s e) es else None)"

locale transition_system =
  fixes enabled :: "'s \<Rightarrow> 'e \<Rightarrow> bool"
    and step :: "'s \<Rightarrow> 'e \<Rightarrow> 's"
    and inv :: "'s \<Rightarrow> bool"
  assumes inv_step: "inv s \<Longrightarrow> enabled s e \<Longrightarrow> inv (step s e)"
begin

lemma run_inv: "inv s \<Longrightarrow> run_steps enabled step s es = Some t \<Longrightarrow> inv t"
proof (induction es arbitrary: s)
  case (Cons e es)
  then show ?case by (auto split: if_splits intro: inv_step)
qed simp

lemma run_append:
  "run_steps enabled step s (es @ fs) =
     Option.bind (run_steps enabled step s es) (\<lambda>t. run_steps enabled step t fs)"
  by (induction es arbitrary: s) auto

end

lemma run_total: "run_steps (\<lambda>_ _. True) step s es = Some (foldl step s es)"
  by (induction es arbitrary: s) auto

subsection \<open>Simulation\<close>

text \<open>
  An abstract machine that the events of a given kind simulate: the abstraction of what a step makes
  is what the abstract step makes of the abstraction.
\<close>

locale simulation =
  fixes ok :: "'e \<Rightarrow> bool"
    and step :: "'s \<Rightarrow> 'e \<Rightarrow> 's"
    and abstr :: "'s \<Rightarrow> 'a"
    and astep :: "'a \<Rightarrow> 'e \<Rightarrow> 'a"
  assumes sim: "ok e \<Longrightarrow> abstr (step s e) = astep (abstr s) e"
begin

lemma run_sim: "\<forall>e\<in>set es. ok e \<Longrightarrow> abstr (foldl step s es) = foldl astep (abstr s) es"
  by (induction es arbitrary: s) (simp_all add: sim)

end

end
