(* ===== verification/ConnTypes.thy ===== *)
theory ConnTypes
  imports Prelude
begin

section \<open>Connection types and session descriptions\<close>

text \<open>
  The nine connection types of \<open>types.ts\<close>, with the library's \<open>enum\<close> class so that a statement
  about every type is executable, and the session description each type has.
\<close>

subsection \<open>Enumerations\<close>

datatype auth_type = Password | Key

datatype conn_type = Ssh | Redis | Mysql | Mqtt | Mongo | Sqlite | Docker | K8s | Postgres

definition CONN_TYPES :: "conn_type list" where
  "CONN_TYPES = [Ssh, Redis, Mysql, Mqtt, Mongo, Sqlite, Docker, K8s, Postgres]"

datatype docker_endpoint = UnixEp | TcpEp | SshEp

lemma CONN_TYPES_all: "k \<in> set CONN_TYPES"
  by (cases k) (simp_all add: CONN_TYPES_def)

instantiation conn_type :: enum
begin

definition enum_conn_type :: "conn_type list" where
  "enum_conn_type = CONN_TYPES"

definition enum_all_conn_type :: "(conn_type \<Rightarrow> bool) \<Rightarrow> bool" where
  "enum_all_conn_type P \<longleftrightarrow> list_all P CONN_TYPES"

definition enum_ex_conn_type :: "(conn_type \<Rightarrow> bool) \<Rightarrow> bool" where
  "enum_ex_conn_type P \<longleftrightarrow> list_ex P CONN_TYPES"

instance
proof
  show "(UNIV :: conn_type set) = set enum_class.enum"
    using CONN_TYPES_all by (auto simp: enum_conn_type_def)
  show "distinct (enum_class.enum :: conn_type list)"
    by (simp add: enum_conn_type_def CONN_TYPES_def)
  show "enum_class.enum_all P \<longleftrightarrow> Ball UNIV P" for P :: "conn_type \<Rightarrow> bool"
    using CONN_TYPES_all by (auto simp: enum_all_conn_type_def list_all_iff)
  show "enum_class.enum_ex P \<longleftrightarrow> Bex UNIV P" for P :: "conn_type \<Rightarrow> bool"
    using CONN_TYPES_all by (auto simp: enum_ex_conn_type_def list_ex_iff)
qed

end

subsection \<open>Session descriptions\<close>

record ssh_session =
  ssh_id :: string
  ssh_serverId :: string
  ssh_title :: string
  ssh_host :: string
  ssh_port :: int
  ssh_username :: string
  ssh_connected :: bool
  ssh_homeDir :: string

record docker_session =
  dk_id :: string
  dk_serverId :: string
  dk_title :: string
  dk_endpointType :: docker_endpoint
  dk_target :: string
  dk_connected :: bool

record k8s_session =
  k8_id :: string
  k8_serverId :: string
  k8_title :: string
  k8_apiServer :: string
  k8_namespace :: "string option"
  k8_connected :: bool

record redis_session =
  rd_id :: string
  rd_serverId :: string
  rd_title :: string
  rd_host :: string
  rd_port :: int
  rd_connected :: bool
  rd_db :: int
  rd_dbSize :: int
  rd_mode :: "string option"
  rd_breaker :: "string option"
  rd_serialization :: "string option"

record mysql_session =
  my_id :: string
  my_serverId :: string
  my_title :: string
  my_host :: string
  my_port :: int
  my_connected :: bool
  my_database :: string

record postgres_session =
  pg_id :: string
  pg_serverId :: string
  pg_title :: string
  pg_host :: string
  pg_port :: int
  pg_connected :: bool
  pg_database :: string
  pg_schema :: "string option"

record mqtt_session =
  mq_id :: string
  mq_serverId :: string
  mq_title :: string
  mq_host :: string
  mq_port :: int
  mq_username :: string
  mq_clientId :: string
  mq_connected :: bool

record mongo_session =
  mg_id :: string
  mg_serverId :: string
  mg_title :: string
  mg_host :: string
  mg_port :: int
  mg_connected :: bool
  mg_database :: string
  mg_topology :: string
  mg_version :: string

record sqlite_session =
  sq_id :: string
  sq_serverId :: string
  sq_title :: string
  sq_path :: string
  sq_connected :: bool
  sq_size :: int

end
