(* ===== verification/ServerForm.thy ===== *)
theory ServerForm
  imports ConnTypes
begin

section \<open>The connection form\<close>

text \<open>
  The saved connection of \<open>types.ts\<close> (every field of the interface, an optional one as an
  \<open>option\<close>), its default, and the three pure functions of \<open>components/server-forms\<close> the dialog
  is made of: the initial form, the patch of a protocol switch, and the validator. Numbers of the
  form (ports, sizes) are integers. A validation message is what the translator gives for the
  source's key.
\<close>

subsection \<open>Types\<close>

datatype ssl_mode = Disable | Require | VerifyCa | VerifyFull
datatype mongo_auth_mode = Scram | Uri | NoAuth

record server_config =
  cfgId :: string
  cfgName :: string
  cfgGroupId :: "string option"
  cfgHost :: string
  cfgPort :: int
  cfgUsername :: string
  cfgAuthType :: auth_type
  cfgPassword :: string
  cfgPrivateKey :: string
  cfgPassphrase :: string
  cfgRemark :: string
  cfgType :: "conn_type option"
  cfgDb :: "int option"
  redisMode :: "string option"
  redisSentinels :: "string option"
  redisMasterName :: "string option"
  redisClusterNodes :: "string option"
  redisUsername :: "string option"
  redisSerialization :: "string option"
  redisPoolSize :: "int option"
  redisMinIdleConns :: "int option"
  redisMaxIdleConns :: "int option"
  redisPoolTimeout :: "int option"
  redisConnMaxIdleTime :: "int option"
  redisConnMaxLifetime :: "int option"
  redisDialTimeout :: "int option"
  redisReadTimeout :: "int option"
  redisWriteTimeout :: "int option"
  redisMaxRetries :: "int option"
  redisMinRetryBackoff :: "int option"
  redisMaxRetryBackoff :: "int option"
  redisBreakerThreshold :: "int option"
  redisBreakerCooldown :: "int option"
  cfgDatabase :: "string option"
  cfgClientId :: "string option"
  cfgUseTLS :: "bool option"
  mqttProto :: "string option"
  mqttKeepAlive :: "int option"
  mqttConnectTimeout :: "int option"
  mqttCleanSession :: "bool option"
  mqttAutoReconnect :: "bool option"
  mqttReconnectIntvl :: "int option"
  mqttInsecure :: "bool option"
  mqttCACert :: "string option"
  mqttClientCert :: "string option"
  mqttClientKey :: "string option"
  mqttWillTopic :: "string option"
  mqttWillPayload :: "string option"
  mqttWillQos :: "int option"
  mqttWillRetained :: "bool option"
  mysqlMaxOpenConns :: "int option"
  mysqlMaxIdleConns :: "int option"
  mysqlConnMaxLifetime :: "int option"
  mysqlTLS :: "string option"
  mysqlSSLEnabled :: "bool option"
  mysqlSSHEnabled :: "bool option"
  mysqlSSHHost :: "string option"
  mysqlSSHHostPort :: "int option"
  mysqlSSHUser :: "string option"
  mysqlSSHKeyPath :: "string option"
  mysqlSSHKeyData :: "string option"
  mysqlSSHPassphrase :: "string option"
  mysqlSSHProxyLocalPort :: "int option"
  cfgCharset :: "string option"
  cfgSftpHome :: "string option"
  cfgTls :: "bool option"
  postgresDatabase :: "string option"
  postgresSchema :: "string option"
  postgresSSLMode :: "ssl_mode option"
  postgresMaxOpenConns :: "int option"
  postgresMinIdleConns :: "int option"
  postgresConnMaxLifetime :: "int option"
  postgresConnMaxIdleTime :: "int option"
  postgresConnectTimeout :: "int option"
  postgresSSHEnabled :: "bool option"
  postgresSSHHost :: "string option"
  postgresSSHHostPort :: "int option"
  postgresSSHUser :: "string option"
  postgresSSHAuthType :: "auth_type option"
  postgresSSHPassword :: "string option"
  postgresSSHKeyPath :: "string option"
  postgresSSHKeyData :: "string option"
  postgresSSHPassphrase :: "string option"
  mongoUri :: "string option"
  mongoURI :: "string option"
  mongoAuthMode :: "mongo_auth_mode option"
  mongoSrv :: "bool option"
  mongoHosts :: "string option"
  mongoDatabase :: "string option"
  mongoAuthMech :: "string option"
  mongoAuthSource :: "string option"
  mongoReplicaSet :: "string option"
  mongoReadPreference :: "string option"
  mongoTlsEnabled :: "bool option"
  mongoTlsInsecure :: "bool option"
  mongoTlsCaCert :: "string option"
  mongoTlsClientCert :: "string option"
  mongoTlsClientKey :: "string option"
  mongoMaxPoolSize :: "int option"
  mongoMinPoolSize :: "int option"
  mongoMaxConnIdleTime :: "int option"
  mongoConnectTimeout :: "int option"
  mongoServerSelectTimeout :: "int option"
  mongoSocketTimeout :: "int option"
  mongoCompressors :: "string option"
  mongoAppName :: "string option"
  sqlitePath :: "string option"
  dockerEndpointType :: "docker_endpoint option"
  dockerSocketPath :: "string option"
  dockerTlsEnabled :: "bool option"
  dockerTlsInsecure :: "bool option"
  dockerTlsCaCert :: "string option"
  dockerTlsClientCert :: "string option"
  dockerTlsClientKey :: "string option"
  dockerSshHost :: "string option"
  dockerSshPort :: "int option"
  dockerSshUser :: "string option"
  dockerSshAuthType :: "auth_type option"
  dockerSshPassword :: "string option"
  dockerSshKeyPath :: "string option"
  dockerSshKeyData :: "string option"
  dockerSshPassphrase :: "string option"
  k8sAuthMode :: "string option"
  k8sKubeconfigData :: "string option"
  k8sKubeconfigPath :: "string option"
  k8sContext :: "string option"
  k8sApiServer :: "string option"
  k8sAuthType :: "string option"
  k8sBearerToken :: "string option"
  k8sCaData :: "string option"
  k8sCertData :: "string option"
  k8sKeyData :: "string option"
  k8sInsecureSkipTLS :: "bool option"
  k8sNamespace :: "string option"
  k8sSshEnabled :: "bool option"
  k8sSshHost :: "string option"
  k8sSshPort :: "int option"
  k8sSshUser :: "string option"
  k8sSshAuthType :: "auth_type option"
  k8sSshPassword :: "string option"
  k8sSshKeyPath :: "string option"
  k8sSshKeyData :: "string option"
  k8sSshPassphrase :: "string option"
  cfgUpdatedAt :: int

definition emptyServer :: server_config where
  "emptyServer = \<lparr>
     cfgId = '''', cfgName = '''', cfgGroupId = None, cfgHost = '''', cfgPort = 22,
     cfgUsername = ''root'', cfgAuthType = Password, cfgPassword = '''', cfgPrivateKey = '''',
     cfgPassphrase = '''', cfgRemark = '''', cfgType = Some Ssh, cfgDb = Some 0,
     redisMode = Some ''single'', redisSentinels = Some '''',
     redisMasterName = Some ''mymaster'', redisClusterNodes = Some '''',
     redisUsername = Some '''', redisSerialization = Some ''none'', redisPoolSize = Some 10,
     redisMinIdleConns = Some 0, redisMaxIdleConns = Some 10, redisPoolTimeout = None,
     redisConnMaxIdleTime = None, redisConnMaxLifetime = None, redisDialTimeout = Some 5,
     redisReadTimeout = Some 3, redisWriteTimeout = Some 3, redisMaxRetries = Some 3,
     redisMinRetryBackoff = None, redisMaxRetryBackoff = None, redisBreakerThreshold = Some 5,
     redisBreakerCooldown = Some 10, cfgDatabase = None, cfgClientId = None, cfgUseTLS = None,
     mqttProto = Some ''3.1.1'', mqttKeepAlive = Some 30, mqttConnectTimeout = Some 10,
     mqttCleanSession = Some True, mqttAutoReconnect = Some True, mqttReconnectIntvl = Some 5,
     mqttInsecure = Some False, mqttCACert = Some '''', mqttClientCert = Some '''',
     mqttClientKey = Some '''', mqttWillTopic = Some '''', mqttWillPayload = Some '''',
     mqttWillQos = Some 0, mqttWillRetained = Some False, mysqlMaxOpenConns = Some 10,
     mysqlMaxIdleConns = Some 5, mysqlConnMaxLifetime = Some 3600, mysqlTLS = Some '''',
     mysqlSSLEnabled = Some False, mysqlSSHEnabled = Some False, mysqlSSHHost = Some '''',
     mysqlSSHHostPort = Some 22, mysqlSSHUser = Some '''', mysqlSSHKeyPath = Some '''',
     mysqlSSHKeyData = Some '''', mysqlSSHPassphrase = Some '''',
     mysqlSSHProxyLocalPort = Some 13306, cfgCharset = Some ''utf8mb4'', cfgSftpHome = None,
     cfgTls = None, postgresDatabase = None, postgresSchema = None, postgresSSLMode = None,
     postgresMaxOpenConns = None, postgresMinIdleConns = None, postgresConnMaxLifetime = None,
     postgresConnMaxIdleTime = None, postgresConnectTimeout = None, postgresSSHEnabled = None,
     postgresSSHHost = None, postgresSSHHostPort = None, postgresSSHUser = None,
     postgresSSHAuthType = None, postgresSSHPassword = None, postgresSSHKeyPath = None,
     postgresSSHKeyData = None, postgresSSHPassphrase = None, mongoUri = Some '''',
     mongoURI = None, mongoAuthMode = None, mongoSrv = Some False, mongoHosts = Some '''',
     mongoDatabase = Some '''', mongoAuthMech = Some ''SCRAM-SHA-256'',
     mongoAuthSource = Some ''admin'', mongoReplicaSet = Some '''',
     mongoReadPreference = Some ''primary'', mongoTlsEnabled = Some False,
     mongoTlsInsecure = Some False, mongoTlsCaCert = Some '''', mongoTlsClientCert = Some '''',
     mongoTlsClientKey = Some '''', mongoMaxPoolSize = Some 100, mongoMinPoolSize = Some 0,
     mongoMaxConnIdleTime = Some 0, mongoConnectTimeout = Some 10,
     mongoServerSelectTimeout = Some 10, mongoSocketTimeout = None,
     mongoCompressors = Some '''', mongoAppName = Some ''xTerminal'', sqlitePath = None,
     dockerEndpointType = Some UnixEp, dockerSocketPath = Some '''',
     dockerTlsEnabled = Some False, dockerTlsInsecure = Some False, dockerTlsCaCert = Some '''',
     dockerTlsClientCert = Some '''', dockerTlsClientKey = Some '''', dockerSshHost = Some '''',
     dockerSshPort = Some 22, dockerSshUser = Some ''root'', dockerSshAuthType = Some Password,
     dockerSshPassword = Some '''', dockerSshKeyPath = Some '''', dockerSshKeyData = Some '''',
     dockerSshPassphrase = Some '''', k8sAuthMode = None, k8sKubeconfigData = None,
     k8sKubeconfigPath = None, k8sContext = None, k8sApiServer = None, k8sAuthType = None,
     k8sBearerToken = None, k8sCaData = None, k8sCertData = None, k8sKeyData = None,
     k8sInsecureSkipTLS = None, k8sNamespace = None, k8sSshEnabled = None, k8sSshHost = None,
     k8sSshPort = None, k8sSshUser = None, k8sSshAuthType = None, k8sSshPassword = None,
     k8sSshKeyPath = None, k8sSshKeyData = None, k8sSshPassphrase = None, cfgUpdatedAt = 0\<rparr>"

subsection \<open>The default port of each protocol\<close>

fun defaultPortMap :: "conn_type \<Rightarrow> int" where
  "defaultPortMap Ssh = 22"
| "defaultPortMap Redis = 6379"
| "defaultPortMap Mysql = 3306"
| "defaultPortMap Postgres = 5432"
| "defaultPortMap Mqtt = 1883"
| "defaultPortMap Mongo = 27017"
| "defaultPortMap Sqlite = 0"
| "defaultPortMap Docker = 0"
| "defaultPortMap K8s = 6443"

definition js_int_or :: "int \<Rightarrow> int \<Rightarrow> int" where
  \<comment> \<open>\<open>a || b\<close> on a number that is present\<close>
  [js_simps]: "js_int_or a b = (if a = 0 then b else a)"

subsection \<open>Opening the form\<close>

definition form_type :: "server_config \<Rightarrow> server_config" where
  "form_type b = (if cfgType b = None then b\<lparr>cfgType := Some Ssh\<rparr> else b)"

definition form_port :: "server_config \<Rightarrow> server_config" where
  "form_port b =
     (if cfgPort b = 0
      then b\<lparr>cfgPort := js_int_or (defaultPortMap (the (cfgType b))) 22\<rparr> else b)"

definition form_k8s :: "server_config \<Rightarrow> server_config" where
  "form_k8s b =
     (if cfgType b = Some K8s \<and> \<not> truthy (k8sAuthMode b)
      then b\<lparr>k8sAuthMode := Some ''kubeconfig''\<rparr> else b)"

definition form_user :: "server_config \<Rightarrow> server_config" where
  "form_user b =
     (if cfgUsername b = [] \<and> (cfgType b = Some Ssh \<or> cfgType b = Some Mysql)
      then b\<lparr>cfgUsername := ''root''\<rparr> else b)"

definition form_pguser :: "server_config \<Rightarrow> server_config" where
  "form_pguser b =
     (if cfgUsername b = [] \<and> cfgType b = Some Postgres
      then b\<lparr>cfgUsername := ''postgres''\<rparr> else b)"

definition initServerForm :: "server_config option \<Rightarrow> server_config" where
  "initServerForm initial =
     form_pguser (form_user (form_k8s (form_port (form_type
       (case initial of None \<Rightarrow> emptyServer | Some c \<Rightarrow> c)))))"

lemmas form_defs = form_type_def form_port_def form_k8s_def form_user_def form_pguser_def

subsection \<open>Switching the protocol\<close>

record switched_patch =
  pType :: conn_type
  pK8sAuthMode :: "string option"
  pPort :: int
  pUsername :: string

definition is_default_port :: "int \<Rightarrow> bool" where
  "is_default_port p \<longleftrightarrow> p = 0 \<or> p \<in> set (map defaultPortMap CONN_TYPES)"

definition getSwitchedTypePatch :: "conn_type \<Rightarrow> server_config \<Rightarrow> switched_patch" where
  "getSwitchedTypePatch t form =
     \<lparr>pType = t,
      pK8sAuthMode =
        (if t = K8s then Some (opt_or (k8sAuthMode form) ''kubeconfig'') else k8sAuthMode form),
      pPort = (if is_default_port (cfgPort form) then defaultPortMap t else cfgPort form),
      pUsername =
        (if t = Postgres then str_or (cfgUsername form) ''postgres''
         else if t \<in> {Redis, Mqtt, Sqlite, Docker, K8s} then ''''
         else str_or (cfgUsername form) ''root'')\<rparr>"

text \<open>The dialog's \<open>switchType\<close> spreads the patch over the form.\<close>

definition switchType :: "server_config \<Rightarrow> conn_type \<Rightarrow> server_config" where
  "switchType form t =
     (let p = getSwitchedTypePatch t form in
      form\<lparr>cfgType := Some (pType p), k8sAuthMode := pK8sAuthMode p,
           cfgPort := pPort p, cfgUsername := pUsername p\<rparr>)"

subsection \<open>Validation\<close>

definition blank :: "string option \<Rightarrow> bool" where
  \<comment> \<open>\<open>!s?.trim()\<close>\<close>
  "blank s \<longleftrightarrow> (case s of None \<Rightarrow> True | Some t \<Rightarrow> trim t = [])"

definition bad_port :: "int \<Rightarrow> bool" where
  "bad_port p \<longleftrightarrow> p = 0 \<or> p < 1 \<or> p > 65535"

definition validateServerForm :: "translator \<Rightarrow> server_config \<Rightarrow> string option" where
  "validateServerForm tr cfg =
     (if blank (Some (cfgName cfg)) then Some (tr ''server:validate.nameRequired'' [])
      else if cfgType cfg = Some K8s then
        (if \<not> truthy (k8sAuthMode cfg) \<or> k8sAuthMode cfg = Some ''kubeconfig'' then
           (if blank (k8sKubeconfigData cfg) \<and> blank (k8sKubeconfigPath cfg)
            then Some (tr ''server:validate.kubeconfigRequired'' []) else None)
         else if blank (k8sApiServer cfg) \<and> blank (Some (cfgHost cfg))
         then Some (tr ''server:validate.k8sApiServerRequired'' []) else None)
      else if cfgType cfg = Some Sqlite then
        (if blank (sqlitePath cfg) then Some (tr ''server:validate.sqlitePathRequired'' [])
         else None)
      else if cfgType cfg = Some Docker then
        (if dockerEndpointType cfg = Some SshEp then
           (if blank (dockerSshHost cfg) \<and> blank (Some (cfgHost cfg))
            then Some (tr ''server:validate.dockerSshHostRequired'' []) else None)
         else if dockerEndpointType cfg = Some TcpEp then
           (if blank (Some (cfgHost cfg)) then Some (tr ''server:validate.dockerTcpHostRequired'' [])
            else if bad_port (cfgPort cfg) then Some (tr ''server:validate.portInvalid'' [])
            else None)
         else None)
      else if cfgType cfg = Some Mongo \<and> mongoAuthMode cfg = Some Uri then
        (if blank (mongoURI cfg) \<and> blank (mongoUri cfg)
         then Some (tr ''server:validate.mongoUriRequired'' []) else None)
      else if blank (Some (cfgHost cfg)) then Some (tr ''server:validate.hostRequired'' [])
      else if bad_port (cfgPort cfg) then Some (tr ''server:validate.portInvalid'' [])
      else if cfgType cfg = Some Ssh \<and> cfgAuthType cfg = Key then
        (if blank (Some (cfgPrivateKey cfg)) then Some (tr ''server:validate.sshKeyRequired'' [])
         else None)
      else None)"

subsection \<open>Which fields a valid form has\<close>

text \<open>The fields that the validator requires of each protocol, without the order of its questions and its messages.\<close>

definition endpoint_ok :: "server_config \<Rightarrow> bool" where
  "endpoint_ok cfg \<longleftrightarrow>
     (case cfgType cfg of
        Some K8s \<Rightarrow>
          (if opt_or (k8sAuthMode cfg) ''kubeconfig'' = ''kubeconfig''
           then \<not> blank (k8sKubeconfigData cfg) \<or> \<not> blank (k8sKubeconfigPath cfg)
           else \<not> blank (k8sApiServer cfg) \<or> \<not> blank (Some (cfgHost cfg)))
      | Some Sqlite \<Rightarrow> \<not> blank (sqlitePath cfg)
      | Some Docker \<Rightarrow>
          (case dockerEndpointType cfg of
             Some SshEp \<Rightarrow> \<not> blank (dockerSshHost cfg) \<or> \<not> blank (Some (cfgHost cfg))
           | Some TcpEp \<Rightarrow> \<not> blank (Some (cfgHost cfg)) \<and> cfgPort cfg \<in> {1..65535}
           | _ \<Rightarrow> True)
      | Some Mongo \<Rightarrow>
          (if mongoAuthMode cfg = Some Uri
           then \<not> blank (mongoURI cfg) \<or> \<not> blank (mongoUri cfg)
           else \<not> blank (Some (cfgHost cfg)) \<and> cfgPort cfg \<in> {1..65535})
      | Some Ssh \<Rightarrow>
          \<not> blank (Some (cfgHost cfg)) \<and> cfgPort cfg \<in> {1..65535} \<and>
          (cfgAuthType cfg = Key \<longrightarrow> \<not> blank (Some (cfgPrivateKey cfg)))
      | _ \<Rightarrow> \<not> blank (Some (cfgHost cfg)) \<and> cfgPort cfg \<in> {1..65535})"

lemma bad_port_iff [simp]: "bad_port p \<longleftrightarrow> p \<notin> {1..65535}"
  by (auto simp: bad_port_def)

lemma kubeconfig_mode:
  "opt_or m ''kubeconfig'' = ''kubeconfig'' \<longleftrightarrow> \<not> truthy m \<or> m = Some ''kubeconfig''"
  by (cases m) (auto simp: js_simps)

text \<open>A form passes validation exactly when it has a name and the fields required of its protocol.\<close>

theorem validate_iff:
  "validateServerForm tr cfg = None \<longleftrightarrow> \<not> blank (Some (cfgName cfg)) \<and> endpoint_ok cfg"
proof (cases "blank (Some (cfgName cfg))")
  case True
  then show ?thesis by (simp add: validateServerForm_def)
next
  case False
  note named = validateServerForm_def endpoint_ok_def kubeconfig_mode False
  show ?thesis
  proof (cases "cfgType cfg")
    case None
    then show ?thesis by (simp add: named)
  next
    case (Some k)
    show ?thesis
    proof (cases k)
      case Docker
      then show ?thesis using Some
        by (cases "dockerEndpointType cfg")
          (auto simp: named split: docker_endpoint.splits if_splits)
    qed (use Some in \<open>auto simp: named split: if_splits\<close>)
  qed
qed

text \<open>
  What is required is not always what the connector dials. A Redis cluster is dialled at \<open>redisClusterNodes\<close> and sentinels at
  \<open>redisSentinels\<close> (\<open>redis/redis.go\<close>, \<open>buildUniversalOptions\<close>), MongoDB at \<open>mongoHosts\<close> where they are given
  (\<open>mongo/mongo.go\<close>, \<open>buildMongoURI\<close>); but without a host such a form is refused, whatever its other fields hold.
\<close>

theorem hosts_of_a_cluster_are_not_enough:
  assumes "\<not> blank (Some (cfgName cfg))" and "blank (Some (cfgHost cfg))"
    and "cfgType cfg = Some Redis \<or> cfgType cfg = Some Mongo \<and> mongoAuthMode cfg \<noteq> Some Uri"
  shows "validateServerForm tr cfg = Some (tr ''server:validate.hostRequired'' [])"
  using assms(3)
proof
  assume t: "cfgType cfg = Some Redis"
  show ?thesis unfolding validateServerForm_def t using assms(1,2) by (simp only: if_False if_True simp_thms option.inject conn_type.distinct)
next
  assume t: "cfgType cfg = Some Mongo \<and> mongoAuthMode cfg \<noteq> Some Uri"
  show ?thesis unfolding validateServerForm_def t [THEN conjunct1]
    using assms(1,2) t [THEN conjunct2] by (simp only: if_False if_True simp_thms option.inject conn_type.distinct)
qed

subsection \<open>Ports and user names under switching\<close>

lemma default_port_is_default: "is_default_port (defaultPortMap t)"
  using CONN_TYPES_all by (auto simp: is_default_port_def)

lemma switchType_port_default:
  "is_default_port (cfgPort form) \<Longrightarrow> cfgPort (switchType form t) = defaultPortMap t"
  by (simp add: switchType_def getSwitchedTypePatch_def)

lemma switchType_port_custom:
  "\<not> is_default_port (cfgPort form) \<Longrightarrow> cfgPort (switchType form t) = cfgPort form"
  by (simp add: switchType_def getSwitchedTypePatch_def)

lemma switchType_type [simp]: "cfgType (switchType form t) = Some t"
  by (simp add: switchType_def getSwitchedTypePatch_def)

lemma foldl_switch_custom:
  "\<not> is_default_port (cfgPort form) \<Longrightarrow> cfgPort (foldl switchType form ts) = cfgPort form"
  by (induction ts arbitrary: form) (simp_all add: switchType_port_custom)

text \<open>
  After any sequence of protocol switches that ends in \<open>t\<close>, the form is of protocol \<open>t\<close>, and
  its port is the default of \<open>t\<close> if the port was a default one at the start, and the port the user
  typed if it was not: no switch on the way is remembered.
\<close>

theorem switch_path_independent:
  "cfgType (foldl switchType form (ts @ [t])) = Some t \<and>
   cfgPort (foldl switchType form (ts @ [t])) =
     (if is_default_port (cfgPort form) then defaultPortMap t else cfgPort form)"
proof -
  have "is_default_port (cfgPort form) \<Longrightarrow>
      cfgPort (foldl switchType form (ts @ [t])) = defaultPortMap t"
    by (induction ts arbitrary: form)
      (simp_all add: switchType_port_default default_port_is_default)
  moreover have "\<not> is_default_port (cfgPort form) \<Longrightarrow>
      cfgPort (foldl switchType form (ts @ [t])) = cfgPort form"
    by (rule foldl_switch_custom)
  ultimately show ?thesis by simp
qed

lemma form_type_some: "\<exists>k. cfgType (form_type b) = Some k"
  by (cases "cfgType b") (simp_all add: form_type_def)

lemma form_types [simp]:
  "cfgType (form_port b) = cfgType b" "cfgType (form_k8s b) = cfgType b"
  "cfgType (form_user b) = cfgType b" "cfgType (form_pguser b) = cfgType b"
  by (simp_all add: form_port_def form_k8s_def form_user_def form_pguser_def)

lemma form_ports [simp]:
  "cfgPort (form_k8s b) = cfgPort b" "cfgPort (form_user b) = cfgPort b"
  "cfgPort (form_pguser b) = cfgPort b"
  by (simp_all add: form_k8s_def form_user_def form_pguser_def)

lemma form_port_nonzero: "cfgPort (form_port b) \<noteq> 0"
  by (simp add: form_port_def js_int_or_def)

lemma form_k8s_modes [simp]:
  "k8sAuthMode (form_user b) = k8sAuthMode b" "k8sAuthMode (form_pguser b) = k8sAuthMode b"
  by (simp_all add: form_user_def form_pguser_def)

lemma form_k8s_mode: "cfgType b = Some K8s \<Longrightarrow> truthy (k8sAuthMode (form_k8s b))"
  by (simp add: form_k8s_def)

lemma form_users:
  "cfgType b = Some Ssh \<or> cfgType b = Some Mysql \<or> cfgType b = Some Postgres \<Longrightarrow>
     cfgUsername (form_pguser (form_user b)) \<noteq> []"
  by (auto simp: form_user_def form_pguser_def)

lemma form_steps_done:
  assumes "cfgType b = Some k" "cfgPort b \<noteq> 0" "k = K8s \<longrightarrow> truthy (k8sAuthMode b)"
    and "k \<in> {Ssh, Mysql, Postgres} \<longrightarrow> cfgUsername b \<noteq> []"
  shows "initServerForm (Some b) = b"
proof -
  have "form_type b = b" using assms(1) by (simp add: form_type_def)
  moreover have "form_port b = b" using assms(2) by (simp add: form_port_def)
  moreover have "form_k8s b = b"
  proof -
    have "\<not> (cfgType b = Some K8s \<and> \<not> truthy (k8sAuthMode b))" using assms(1,3) by auto
    then show ?thesis unfolding form_k8s_def by (rule if_not_P)
  qed
  moreover have "form_user b = b"
  proof -
    have "\<not> (cfgUsername b = [] \<and> (cfgType b = Some Ssh \<or> cfgType b = Some Mysql))"
      using assms(1,4) by auto
    then show ?thesis unfolding form_user_def by (rule if_not_P)
  qed
  moreover have "form_pguser b = b"
  proof -
    have "\<not> (cfgUsername b = [] \<and> cfgType b = Some Postgres)" using assms(1,4) by auto
    then show ?thesis unfolding form_pguser_def by (rule if_not_P)
  qed
  ultimately show ?thesis by (simp add: initServerForm_def)
qed

text \<open>
  Opening the form on any saved connection (or on none) gives a form with a protocol, a port
  that is not zero, and a user name where the protocol needs one; a form so opened is left alone
  when it is opened again.
\<close>

theorem initServerForm_complete:
  "cfgType (initServerForm i) \<noteq> None \<and> cfgPort (initServerForm i) \<noteq> 0 \<and>
   \<not> (cfgType (initServerForm i) \<in> {Some Ssh, Some Mysql, Some Postgres} \<and>
      cfgUsername (initServerForm i) = []) \<and>
   initServerForm (Some (initServerForm i)) = initServerForm i"
proof -
  let ?r = "initServerForm i"
  obtain b k where r: "?r = form_pguser (form_user (form_k8s (form_port b)))"
    and k: "cfgType b = Some k"
    unfolding initServerForm_def using form_type_some by blast
  have ty: "cfgType ?r = Some k" by (simp add: r k)
  have port: "cfgPort ?r \<noteq> 0" by (simp add: r form_port_nonzero)
  have mode: "k = K8s \<longrightarrow> truthy (k8sAuthMode ?r)" by (simp add: r k form_k8s_mode)
  have user: "k \<in> {Ssh, Mysql, Postgres} \<longrightarrow> cfgUsername ?r \<noteq> []"
    unfolding r by (simp add: form_users k)
  show ?thesis
    using ty port user form_steps_done [OF ty port mode user] by auto
qed

end
