(* ===== verification/Connect.thy ===== *)
theory Connect
  imports ServerForm
begin

section \<open>Opening a connection\<close>

text \<open>
  The \<open>connect...Helper\<close> functions of
  \<open>contexts/sessionHelpers.ts\<close>. The backend (\<open>API\<close>) is a parameter: the answer of each call
  is an argument, \<open>None\<close> where the call rejects and the helper catches. A helper that throws
  returns \<open>Inl\<close> with the message.
\<close>

text \<open>The answer of \<open>API.redisModeInfo\<close>, as far as the helper reads it.\<close>

record redis_mode_info =
  mi_mode :: "string option"
  mi_breaker :: "string option"
  mi_serialization :: "string option"

subsection \<open>The helpers\<close>

definition host_port_title :: "server_config \<Rightarrow> int \<Rightarrow> string" where
  \<comment> \<open>\<open>cfg.name || `${cfg.host}:${cfg.port || p}`\<close>\<close>
  "host_port_title cfg p =
     str_or (cfgName cfg) (cfgHost cfg @ '':'' @ show_int (js_int_or (cfgPort cfg) p))"

definition connectK8sHelper ::
  "translator \<Rightarrow> bool \<Rightarrow> server_config \<Rightarrow> string + k8s_session" where
  "connectK8sHelper tr ok cfg =
     (if \<not> ok then Inl (tr ''server:connectFailK8s'' [])
      else
        let target =
              (if truthy (k8sContext cfg) then ''Context: '' @ the (k8sContext cfg)
               else opt_or (k8sApiServer cfg) (str_or (cfgHost cfg) ''Kubeconfig''))
        in Inr \<lparr>k8_id = cfgId cfg, k8_serverId = cfgId cfg,
                k8_title = str_or (cfgName cfg)
                  (''K8s ('' @ (if truthy (k8sContext cfg) then the (k8sContext cfg) else target)
                    @ '')''),
                k8_apiServer = target,
                k8_namespace = Some (opt_or (k8sNamespace cfg) ''_all''),
                k8_connected = True\<rparr>)"

definition connectDockerHelper ::
  "translator \<Rightarrow> bool \<Rightarrow> server_config \<Rightarrow> string + docker_session" where
  "connectDockerHelper tr ok cfg =
     (if \<not> ok then Inl (tr ''server:connectFailDocker'' [])
      else
        let epType = nullish (dockerEndpointType cfg) UnixEp;
            sshHost = opt_or (dockerSshHost cfg) (cfgHost cfg);
            target =
              (case epType of
                 TcpEp \<Rightarrow> cfgHost cfg @ '':'' @
                   show_int (js_int_or (cfgPort cfg)
                     (if dockerTlsEnabled cfg = Some True then 2376 else 2375))
               | SshEp \<Rightarrow> ''ssh://'' @ opt_or (dockerSshUser cfg) ''root'' @ ''@'' @ sshHost @
                   '':'' @ show_int (num_or (dockerSshPort cfg) 22)
               | UnixEp \<Rightarrow> opt_or (dockerSocketPath cfg) ''/var/run/docker.sock'')
        in Inr \<lparr>dk_id = cfgId cfg, dk_serverId = cfgId cfg,
                dk_title = str_or (cfgName cfg)
                  (case epType of
                     SshEp \<Rightarrow> ''Docker ('' @ sshHost @ '')''
                   | TcpEp \<Rightarrow> ''Docker ('' @ cfgHost cfg @ '')''
                   | UnixEp \<Rightarrow> ''Docker (Local Socket)''),
                dk_endpointType = epType, dk_target = target, dk_connected = True\<rparr>)"

definition connectRedisHelper ::
  "translator \<Rightarrow> bool \<Rightarrow> int option \<Rightarrow> redis_mode_info option \<Rightarrow> server_config \<Rightarrow>
     string + redis_session" where
  "connectRedisHelper tr ok dbSize modeInfo cfg =
     (if \<not> ok then Inl (tr ''server:connectFailRedis'' [])
      else
        Inr \<lparr>rd_id = cfgId cfg, rd_serverId = cfgId cfg,
             rd_title = host_port_title cfg 6379,
             rd_host = cfgHost cfg, rd_port = js_int_or (cfgPort cfg) 6379,
             rd_connected = True,
             rd_db = nullish (cfgDb cfg) 0,
             rd_dbSize = nullish dbSize 0,
             rd_mode = Some (opt_or (Option.bind modeInfo mi_mode) (opt_or (redisMode cfg) ''single'')),
             rd_breaker = Some (opt_or (Option.bind modeInfo mi_breaker) ''closed''),
             rd_serialization =
               Some (opt_or (Option.bind modeInfo mi_serialization)
                 (opt_or (redisSerialization cfg) ''none''))\<rparr>)"

definition connectMysqlHelper ::
  "translator \<Rightarrow> bool \<Rightarrow> server_config \<Rightarrow> string + mysql_session" where
  "connectMysqlHelper tr ok cfg =
     (if \<not> ok then Inl (tr ''server:connectFailMysql'' [])
      else
        Inr \<lparr>my_id = cfgId cfg, my_serverId = cfgId cfg, my_title = host_port_title cfg 3306,
             my_host = cfgHost cfg, my_port = js_int_or (cfgPort cfg) 3306,
             my_connected = True, my_database = opt_or (cfgDatabase cfg) ''''\<rparr>)"

definition connectPostgresHelper ::
  "translator \<Rightarrow> bool \<Rightarrow> server_config \<Rightarrow> string + postgres_session" where
  "connectPostgresHelper tr ok cfg =
     (if \<not> ok then Inl (tr ''server:connectFailPostgres'' [])
      else
        Inr \<lparr>pg_id = cfgId cfg, pg_serverId = cfgId cfg, pg_title = host_port_title cfg 5432,
             pg_host = cfgHost cfg, pg_port = js_int_or (cfgPort cfg) 5432,
             pg_connected = True,
             pg_database = opt_or (postgresDatabase cfg) (opt_or (cfgDatabase cfg) ''postgres''),
             pg_schema = Some (opt_or (postgresSchema cfg) ''public'')\<rparr>)"

definition connectMqttHelper ::
  "translator \<Rightarrow> bool \<Rightarrow> server_config \<Rightarrow> string + mqtt_session" where
  "connectMqttHelper tr ok cfg =
     (if \<not> ok then Inl (tr ''server:connectFailMqtt'' [])
      else
        Inr \<lparr>mq_id = cfgId cfg, mq_serverId = cfgId cfg, mq_title = host_port_title cfg 1883,
             mq_host = cfgHost cfg, mq_port = js_int_or (cfgPort cfg) 1883,
             mq_username = cfgUsername cfg, mq_clientId = opt_or (cfgClientId cfg) '''',
             mq_connected = True\<rparr>)"

definition connectMongoHelper ::
  "translator \<Rightarrow> bool \<Rightarrow> server_config \<Rightarrow> string + mongo_session" where
  "connectMongoHelper tr ok cfg =
     (if \<not> ok then Inl (tr ''server:connectFailMongo'' [])
      else
        Inr \<lparr>mg_id = cfgId cfg, mg_serverId = cfgId cfg, mg_title = host_port_title cfg 27017,
             mg_host = cfgHost cfg, mg_port = js_int_or (cfgPort cfg) 27017,
             mg_connected = True, mg_database = opt_or (mongoDatabase cfg) '''',
             mg_topology = '''', mg_version = ''''\<rparr>)"

definition is_path_sep :: "char \<Rightarrow> bool" where
  "is_path_sep c \<longleftrightarrow> c = CHR ''/'' \<or> c = CHR 0x5C"

definition path_base :: "string \<Rightarrow> string" where
  \<comment> \<open>\<open>p.split(/[\\/]/).pop()\<close>: what follows the last separator\<close>
  "path_base p = rev (takeWhile (\<lambda>c. \<not> is_path_sep c) (rev p))"

definition connectSqliteHelper ::
  "translator \<Rightarrow> string \<Rightarrow> (string \<Rightarrow> bool) \<Rightarrow> (string option \<times> int) option \<Rightarrow> server_config \<Rightarrow>
     string + sqlite_session option" where
  \<comment> \<open>\<open>picked\<close> is the answer of the file dialog, \<open>connects\<close> of \<open>API.sqliteConnect\<close>, \<open>stat\<close> of \<open>API.sqliteInfo\<close>\<close>
  "connectSqliteHelper tr picked connects stat cfg =
     (let path = str_or (opt_or (sqlitePath cfg) '''') picked in
      if path = [] then Inr None
      else if \<not> connects path then Inl (tr ''server:sqlite.cannotOpenFile'' [])
      else
        let finalPath = opt_or (Option.bind stat fst) path;
            dbName = str_or (path_base finalPath) finalPath;
            displayTitle =
              (if cfgName cfg \<noteq> [] \<and> (\<forall>c\<in>set (cfgName cfg). \<not> is_path_sep c) then cfgName cfg
               else if cfgName cfg \<noteq> [] then path_base (cfgName cfg) else dbName)
        in Inr (Some \<lparr>sq_id = cfgId cfg, sq_serverId = cfgId cfg,
                      sq_title = str_or displayTitle dbName, sq_path = finalPath,
                      sq_connected = True,
                      sq_size = (case stat of None \<Rightarrow> 0 | Some (p, n) \<Rightarrow> n)\<rparr>))"

subsection \<open>Titles\<close>

lemma show_nat_nonempty [simp]: "show_nat n \<noteq> []"
  by (subst show_nat.simps) simp

lemma host_port_title_nonempty [simp]: "host_port_title cfg p \<noteq> []"
  by (simp add: host_port_title_def str_or_def)

lemma path_base_no_sep: "c \<in> set (path_base p) \<Longrightarrow> \<not> is_path_sep c"
  by (auto simp: path_base_def dest: set_takeWhileD)

lemma path_base_suffix: "suffix (path_base p) p"
  unfolding path_base_def
  by (metis rev_rev_ident suffix_to_prefix takeWhile_is_prefix)

text \<open>
  Opening an SQLite file never shows a directory in its tab: a session that is created carries
  the saved connection's id, a non-empty path, and a non-empty title that has no separator unless
  the path has nothing after its last one.
\<close>

theorem sqlite_title_is_a_file_name:
  assumes "connectSqliteHelper tr picked connects stat cfg = Inr (Some info)"
  shows "sq_id info = cfgId cfg \<and> sq_path info \<noteq> [] \<and> sq_title info \<noteq> [] \<and>
    (path_base (sq_path info) \<noteq> [] \<longrightarrow> (\<forall>c\<in>set (sq_title info). \<not> is_path_sep c))"
proof -
  define path where "path = str_or (opt_or (sqlitePath cfg) '''') picked"
  define final where "final = opt_or (Option.bind stat fst) path"
  define db where "db = str_or (path_base final) final"
  define disp where "disp =
    (if cfgName cfg \<noteq> [] \<and> (\<forall>c\<in>set (cfgName cfg). \<not> is_path_sep c) then cfgName cfg
     else if cfgName cfg \<noteq> [] then path_base (cfgName cfg) else db)"
  from assms have path: "path \<noteq> []" and info: "sq_id info = cfgId cfg" "sq_path info = final"
    "sq_title info = str_or disp db"
    unfolding connectSqliteHelper_def Let_def path_def [symmetric] final_def [symmetric]
      db_def [symmetric] disp_def [symmetric]
    by (auto split: if_splits)
  have final: "final \<noteq> []"
    using path by (auto simp: final_def js_simps split: option.splits)
  then have db: "db \<noteq> []" by (simp add: db_def str_or_def)
  have "path_base final \<noteq> [] \<Longrightarrow> c \<in> set db \<Longrightarrow> \<not> is_path_sep c" for c
    by (auto simp: db_def str_or_def dest: path_base_no_sep)
  moreover have "c \<in> set disp \<Longrightarrow> disp = db \<or> \<not> is_path_sep c" for c
    by (auto simp: disp_def dest: path_base_no_sep split: if_splits)
  ultimately show ?thesis
    using info final db by (auto simp: str_or_def)
qed

theorem sqlite_title_is_a_file_name_witness:
  "sq_title (projr (map_sum id the (connectSqliteHelper (\<lambda>k _. k) ''/home/u/app.db'' (\<lambda>_. True)
     None (emptyServer\<lparr>cfgId := ''s1''\<rparr>)))) = ''app.db''
   \<and> filter is_path_sep ''app.db'' = []"
proof -
  let ?cfg = "emptyServer\<lparr>cfgId := ''s1''\<rparr>"
  have ran: "connectSqliteHelper (\<lambda>k _. k) ''/home/u/app.db'' (\<lambda>_. True) None ?cfg =
    Inr (Some \<lparr>sq_id = ''s1'', sq_serverId = ''s1'', sq_title = ''app.db'',
               sq_path = ''/home/u/app.db'', sq_connected = True, sq_size = 0\<rparr>)"
    by (simp add: connectSqliteHelper_def emptyServer_def js_simps path_base_def is_path_sep_def)
  have "path_base ''/home/u/app.db'' \<noteq> []" by (simp add: path_base_def is_path_sep_def)
  with sqlite_title_is_a_file_name [OF ran] have "\<forall>c\<in>set ''app.db''. \<not> is_path_sep c" by simp
  with ran show ?thesis by (simp add: filter_empty_conv)
qed

end
