(* ===== verification/Sessions.thy ===== *)
theory Sessions
  imports ConnTypes
begin

section \<open>Open sessions, tool tabs and the active tab\<close>

text \<open>
  The session provider (\<open>contexts/SessionContext.tsx\<close>), the tab helpers of
  \<open>contexts/sessionHelpers.ts\<close> and the tab keys of \<open>components/app/SessionTabs.tsx\<close>.

  The provider's React state and its refs are one record. A handler is a function on it; an
  \<open>await\<close> splits a handler in two (\<open>closeSession_begin\<close>, \<open>closeSession_finish\<close>) so that other
  handlers may run in between. The refs \<open>sessionsRef\<close> and \<open>toolsRef\<close> are copies that the effect
  \<open>sync_refs\<close> refreshes after a render; a handler reads the copies where the source does. What a
  handler asks of the backend is a list of calls.
\<close>

subsection \<open>State\<close>

datatype tool_kind = ApiTool | Devtools | AiAgent | Wiki

datatype tab_kind = Conn conn_type | Tool tool_kind

record active_target =
  at_kind :: tab_kind
  at_id :: "string option"

datatype any_session =
    SSsh ssh_session | SRedis redis_session | SMysql mysql_session | SPostgres postgres_session
  | SMqtt mqtt_session | SMongo mongo_session | SSqlite sqlite_session | SDocker docker_session
  | SK8s k8s_session

fun sid :: "any_session \<Rightarrow> string" where
  \<comment> \<open>the field \<open>id\<close> every session has\<close>
  "sid (SSsh s) = ssh_id s"
| "sid (SRedis s) = rd_id s"
| "sid (SMysql s) = my_id s"
| "sid (SPostgres s) = pg_id s"
| "sid (SMqtt s) = mq_id s"
| "sid (SMongo s) = mg_id s"
| "sid (SSqlite s) = sq_id s"
| "sid (SDocker s) = dk_id s"
| "sid (SK8s s) = k8_id s"

text \<open>\<open>SessionsState\<close> has one list per connection type; it is read by its key.\<close>

type_synonym sessions_state = "conn_type \<Rightarrow> any_session list"

record tool_flags =
  t_open :: bool
  t_active :: bool

record tools_state =
  tl_api :: tool_flags
  tl_devtools :: tool_flags
  tl_wiki :: tool_flags
  tl_aiAgent :: tool_flags

record active_connection =
  ac_protocol :: string
  ac_id :: string
  ac_name :: string
  ac_host :: "string option"
  ac_port :: "int option"
  ac_database :: "string option"
  ac_namespace :: "string option"
  ac_path :: "string option"

record provider =
  sessions :: sessions_state
  tools :: tools_state
  activeTarget :: "active_target option"
  sidebarOpen :: bool
  aiSidebarOpen :: bool
  sessionsRef :: sessions_state
  toolsRef :: tools_state
  closingRef :: "string set"
  prevConnRef :: string
  lastConnRef :: "(tab_kind \<times> string) option"

datatype api_call = Disconnect conn_type string | SetActiveConnection "active_connection option"

definition initialSessionsState :: sessions_state where
  "initialSessionsState = (\<lambda>_. [])"

definition initialToolsState :: tools_state where
  "initialToolsState =
     \<lparr>tl_api = \<lparr>t_open = False, t_active = False\<rparr>, tl_devtools = \<lparr>t_open = False, t_active = False\<rparr>,
      tl_wiki = \<lparr>t_open = False, t_active = False\<rparr>, tl_aiAgent = \<lparr>t_open = True, t_active = True\<rparr>\<rparr>"

definition agentTarget :: active_target where
  "agentTarget = \<lparr>at_kind = Tool AiAgent, at_id = None\<rparr>"

definition initialProvider :: provider where
  "initialProvider =
     \<lparr>sessions = initialSessionsState, tools = initialToolsState, activeTarget = Some agentTarget,
      sidebarOpen = True, aiSidebarOpen = False, sessionsRef = initialSessionsState,
      toolsRef = initialToolsState, closingRef = {}, prevConnRef = '''', lastConnRef = None\<rparr>"

definition sync_refs :: "provider \<Rightarrow> provider" where
  "sync_refs s = s\<lparr>sessionsRef := sessions s, toolsRef := tools s\<rparr>"

definition toggleSidebar :: "provider \<Rightarrow> provider" where
  "toggleSidebar s = s\<lparr>sidebarOpen := \<not> sidebarOpen s\<rparr>"

definition toggleAiSidebar :: "provider \<Rightarrow> provider" where
  "toggleAiSidebar s = s\<lparr>aiSidebarOpen := \<not> aiSidebarOpen s\<rparr>"

subsection \<open>The list of open tabs\<close>

fun kind_name :: "conn_type \<Rightarrow> string" where
  "kind_name Ssh = ''ssh''"
| "kind_name Redis = ''redis''"
| "kind_name Mysql = ''mysql''"
| "kind_name Mqtt = ''mqtt''"
| "kind_name Mongo = ''mongo''"
| "kind_name Sqlite = ''sqlite''"
| "kind_name Docker = ''docker''"
| "kind_name K8s = ''k8s''"
| "kind_name Postgres = ''postgres''"

definition tab_kinds :: "conn_type list" where
  "tab_kinds = [Ssh, Docker, K8s, Redis, Mysql, Postgres, Mqtt, Mongo, Sqlite]"

definition session_tab :: "conn_type \<Rightarrow> any_session \<Rightarrow> active_target" where
  "session_tab k x = \<lparr>at_kind = Conn k, at_id = Some (sid x)\<rparr>"

definition tool_tab :: "tool_kind \<Rightarrow> active_target" where
  "tool_tab t = \<lparr>at_kind = Tool t, at_id = None\<rparr>"

definition getAllOpenTabs :: "sessions_state \<Rightarrow> tools_state \<Rightarrow> active_target list" where
  "getAllOpenTabs ss ts =
     [tool_tab AiAgent] @
     concat (map (\<lambda>k. map (session_tab k) (ss k)) tab_kinds) @
     (if t_open (tl_devtools ts) then [tool_tab Devtools] else []) @
     (if t_open (tl_api ts) then [tool_tab ApiTool] else []) @
     (if t_open (tl_wiki ts) then [tool_tab Wiki] else [])"

definition pickAdjacentFallback ::
  "active_target \<Rightarrow> active_target list \<Rightarrow> active_target option" where
  "pickAdjacentFallback closed allTabs =
     (case find_index (\<lambda>t. at_kind t = at_kind closed \<and> at_id t = at_id closed) allTabs of
        None \<Rightarrow> None
      | Some idx \<Rightarrow>
          if length allTabs \<le> 1 then None
          else Some (if idx < length allTabs - 1 then allTabs ! (idx + 1) else allTabs ! (idx - 1)))"

definition pickFallback :: "conn_type \<Rightarrow> sessions_state \<Rightarrow> (conn_type \<times> string) option" where
  "pickFallback kind ss =
     (case find (\<lambda>k. ss k \<noteq> []) (kind # filter (\<lambda>k. k \<noteq> kind) tab_kinds) of
        None \<Rightarrow> None
      | Some k \<Rightarrow> Some (k, sid (last (ss k))))"

subsection \<open>Handlers\<close>

definition activate_only :: "tool_kind option \<Rightarrow> tools_state \<Rightarrow> tools_state" where
  \<comment> \<open>the three \<open>setTools\<close> calls of \<open>activateTab\<close>: the chosen tool is opened, the others are inactive\<close>
  "activate_only w ts =
     \<lparr>tl_api = \<lparr>t_open = (if w = Some ApiTool then True else t_open (tl_api ts)),
                 t_active = (w = Some ApiTool)\<rparr>,
      tl_devtools = \<lparr>t_open = (if w = Some Devtools then True else t_open (tl_devtools ts)),
                      t_active = (w = Some Devtools)\<rparr>,
      tl_wiki = \<lparr>t_open = (if w = Some Wiki then True else t_open (tl_wiki ts)),
                  t_active = (w = Some Wiki)\<rparr>,
      tl_aiAgent = \<lparr>t_open = True, t_active = (w = Some AiAgent)\<rparr>\<rparr>"

definition activateTab :: "tab_kind option \<Rightarrow> string option \<Rightarrow> provider \<Rightarrow> provider" where
  "activateTab kind i s =
     (case kind of
        None \<Rightarrow> s\<lparr>activeTarget := Some agentTarget, tools := activate_only (Some AiAgent) (tools s)\<rparr>
      | Some (Tool t) \<Rightarrow>
          s\<lparr>activeTarget := Some (tool_tab t), tools := activate_only (Some t) (tools s)\<rparr>
      | Some (Conn k) \<Rightarrow>
          s\<lparr>activeTarget := Some \<lparr>at_kind = Conn k, at_id = i\<rparr>,
            tools := activate_only None (tools s)\<rparr>)"

definition openTool :: "tool_kind \<Rightarrow> provider \<Rightarrow> provider" where
  "openTool t s = activateTab (Some (Tool t)) None s"

fun set_tool :: "tool_kind \<Rightarrow> tool_flags \<Rightarrow> tools_state \<Rightarrow> tools_state" where
  "set_tool ApiTool f ts = ts\<lparr>tl_api := f\<rparr>"
| "set_tool Devtools f ts = ts\<lparr>tl_devtools := f\<rparr>"
| "set_tool Wiki f ts = ts\<lparr>tl_wiki := f\<rparr>"
| "set_tool AiAgent f ts = ts\<lparr>tl_aiAgent := f\<rparr>"

fun get_tool :: "tool_kind \<Rightarrow> tools_state \<Rightarrow> tool_flags" where
  "get_tool ApiTool ts = tl_api ts"
| "get_tool Devtools ts = tl_devtools ts"
| "get_tool Wiki ts = tl_wiki ts"
| "get_tool AiAgent ts = tl_aiAgent ts"

definition closing_fallback :: "active_target \<Rightarrow> provider \<Rightarrow> active_target" where
  \<comment> \<open>\<open>pickAdjacentFallback(closed, getAllOpenTabs(refs)) ?? aiAgent\<close>\<close>
  "closing_fallback closed s =
     nullish (pickAdjacentFallback closed (getAllOpenTabs (sessionsRef s) (toolsRef s))) agentTarget"

definition closeTool :: "tool_kind \<Rightarrow> provider \<Rightarrow> provider" where
  "closeTool tool s =
     (if tool = AiAgent then s
      else
        let fallback = closing_fallback (tool_tab tool) s;
            ts1 = set_tool AiAgent \<lparr>t_open = True, t_active = (at_kind fallback = Tool AiAgent)\<rparr>
                    (set_tool tool \<lparr>t_open = False, t_active = False\<rparr> (tools s));
            ts2 = (case at_kind fallback of
                     Tool t \<Rightarrow>
                       if t = AiAgent then ts1
                       else set_tool t ((get_tool t (tools s))\<lparr>t_active := True\<rparr>) ts1
                   | Conn _ \<Rightarrow> ts1)
        in s\<lparr>tools := ts2,
             activeTarget :=
               (case activeTarget s of
                  None \<Rightarrow> None
                | Some c \<Rightarrow> if at_kind c = Tool tool then Some fallback else Some c)\<rparr>)"

definition addSession :: "conn_type \<Rightarrow> any_session \<Rightarrow> provider \<Rightarrow> provider" where
  "addSession kind info s =
     activateTab (Some (Conn kind)) (Some (sid info))
       (s\<lparr>sessions :=
            (sessions s)(kind := filter (\<lambda>x. sid x \<noteq> sid info) (sessions s kind) @ [info])\<rparr>)"

definition updateSession ::
  "conn_type \<Rightarrow> string \<Rightarrow> (any_session \<Rightarrow> any_session) \<Rightarrow> provider \<Rightarrow> provider" where
  \<comment> \<open>\<open>patch\<close> is \<open>item => ({...item, ...updater})\<close>\<close>
  "updateSession kind i patch s =
     (if \<not> (\<exists>x\<in>set (sessions s kind). sid x = i) then s
      else s\<lparr>sessions :=
        (sessions s)(kind := map (\<lambda>x. if sid x = i then patch x else x) (sessions s kind))\<rparr>)"

definition session_key :: "conn_type \<Rightarrow> string \<Rightarrow> string" where
  "session_key kind i = kind_name kind @ '':'' @ i"

definition closeSession_begin :: "conn_type \<Rightarrow> string \<Rightarrow> provider \<Rightarrow> provider \<times> api_call list" where
  \<comment> \<open>up to the \<open>await\<close> of \<open>disconnectHelper\<close>\<close>
  "closeSession_begin kind i s =
     (if session_key kind i \<in> closingRef s then (s, [])
      else if \<not> (\<exists>x\<in>set (sessionsRef s kind). sid x = i) then (s, [])
      else (s\<lparr>closingRef := insert (session_key kind i) (closingRef s)\<rparr>, [Disconnect kind i]))"

definition closeSession_finish :: "conn_type \<Rightarrow> string \<Rightarrow> provider \<Rightarrow> provider" where
  \<comment> \<open>from the \<open>finally\<close> on\<close>
  "closeSession_finish kind i s =
     (let closed = \<lparr>at_kind = Conn kind, at_id = Some i\<rparr>;
          fallback = closing_fallback closed s
      in s\<lparr>closingRef := closingRef s - {session_key kind i},
           sessions := (sessions s)(kind := filter (\<lambda>x. sid x \<noteq> i) (sessions s kind)),
           activeTarget :=
             (case activeTarget s of
                None \<Rightarrow> None
              | Some c \<Rightarrow>
                  if at_kind c = Conn kind \<and> at_id c = Some i then Some fallback else Some c),
           tools :=
             (case at_kind fallback of
                Conn _ \<Rightarrow> tools s
              | Tool t \<Rightarrow>
                  (tools s)\<lparr>tl_api := (tl_api (tools s))\<lparr>t_active := (t = ApiTool)\<rparr>,
                    tl_devtools := (tl_devtools (tools s))\<lparr>t_active := (t = Devtools)\<rparr>,
                    tl_wiki := (tl_wiki (tools s))\<lparr>t_active := (t = Wiki)\<rparr>,
                    tl_aiAgent := \<lparr>t_open = True, t_active = (t = AiAgent)\<rparr>\<rparr>)\<rparr>)"

subsection \<open>The connection the agent works on\<close>

definition named :: "string \<Rightarrow> string \<Rightarrow> string \<Rightarrow> string \<Rightarrow> active_connection" where
  \<comment> \<open>the fields every branch sets\<close>
  "named proto i title host =
     \<lparr>ac_protocol = proto, ac_id = i, ac_name = str_or title host, ac_host = Some host,
      ac_port = None, ac_database = None, ac_namespace = None, ac_path = None\<rparr>"

definition or_undefined :: "string \<Rightarrow> string option" where
  "or_undefined s = (if s = [] then None else Some s)"

fun connection_of :: "any_session \<Rightarrow> active_connection option" where
  "connection_of (SSsh x) =
     Some ((named ''ssh'' (ssh_id x) (ssh_title x) (ssh_host x))\<lparr>ac_port := Some (ssh_port x)\<rparr>)"
| "connection_of (SDocker x) = Some (named ''docker'' (dk_id x) (dk_title x) (dk_target x))"
| "connection_of (SK8s x) =
     Some ((named ''k8s'' (k8_id x) (k8_title x) (k8_apiServer x))
       \<lparr>ac_namespace := Some (opt_or (k8_namespace x) ''default'')\<rparr>)"
| "connection_of (SRedis x) =
     Some ((named ''redis'' (rd_id x) (rd_title x) (rd_host x))
       \<lparr>ac_port := Some (rd_port x), ac_database := Some (show_int (rd_db x))\<rparr>)"
| "connection_of (SMysql x) =
     Some ((named ''mysql'' (my_id x) (my_title x) (my_host x))
       \<lparr>ac_port := Some (my_port x), ac_database := or_undefined (my_database x)\<rparr>)"
| "connection_of (SPostgres x) =
     Some ((named ''postgres'' (pg_id x) (pg_title x) (pg_host x))
       \<lparr>ac_port := Some (pg_port x), ac_database := or_undefined (pg_database x)\<rparr>)"
| "connection_of (SMongo x) =
     Some ((named ''mongo'' (mg_id x) (mg_title x) (mg_host x))
       \<lparr>ac_port := Some (mg_port x), ac_database := or_undefined (mg_database x)\<rparr>)"
| "connection_of (SSqlite x) =
     Some ((named ''sqlite'' (sq_id x) (sq_title x) (sq_path x))
       \<lparr>ac_host := None, ac_path := Some (sq_path x)\<rparr>)"
| "connection_of (SMqtt x) = None"

definition connection_info :: "sessions_state \<Rightarrow> tab_kind \<Rightarrow> string \<Rightarrow> active_connection option" where
  "connection_info ss kind i =
     (case kind of
        Conn k \<Rightarrow> Option.bind (find (\<lambda>x. sid x = i) (ss k)) connection_of
      | Tool _ \<Rightarrow> None)"

definition conn_key :: "active_connection option \<Rightarrow> string" where
  "conn_key info =
     (case info of
        None \<Rightarrow> ''''
      | Some c \<Rightarrow> ac_protocol c @ '':'' @ ac_id c @ '':'' @ opt_or (ac_database c) '''')"

definition target_conn :: "provider \<Rightarrow> (tab_kind \<times> string) option" where
  \<comment> \<open>the active tab's session, else the last one remembered\<close>
  "target_conn s =
     (case activeTarget s of
        None \<Rightarrow> lastConnRef s
      | Some t \<Rightarrow> if truthy (at_id t) then Some (at_kind t, the (at_id t)) else lastConnRef s)"

definition sync_connection :: "provider \<Rightarrow> provider \<times> api_call list" where
  \<comment> \<open>the effect on \<open>[activeTarget, sessions]\<close>\<close>
  "sync_connection s =
     (case target_conn s of
        None \<Rightarrow>
          (if prevConnRef s \<noteq> '''' then (s\<lparr>prevConnRef := ''''\<rparr>, [SetActiveConnection None])
           else (s, []))
      | Some (kind, i) \<Rightarrow>
          (let info = connection_info (sessions s) kind i;
               s1 = s\<lparr>lastConnRef := (if info = None then None else Some (kind, i))\<rparr>
           in if conn_key info \<noteq> prevConnRef s
              then (s1\<lparr>prevConnRef := conn_key info\<rparr>, [SetActiveConnection info])
              else (s1, [])))"

subsection \<open>Tab keys\<close>

definition tab_key :: "active_target \<Rightarrow> string" where
  \<comment> \<open>the key of a tab item, and \<open>activeKey\<close>\<close>
  "tab_key t =
     (case at_kind t of
        Tool AiAgent \<Rightarrow> ''aiAgent''
      | Tool Devtools \<Rightarrow> ''devtools''
      | Tool ApiTool \<Rightarrow> ''api''
      | Tool Wiki \<Rightarrow> ''wiki''
      | Conn k \<Rightarrow> kind_name k @ '':'' @ nullish (at_id t) ''null'')"

definition kind_of_name :: "string \<Rightarrow> conn_type option" where
  "kind_of_name n = find (\<lambda>k. kind_name k = n) CONN_TYPES"

definition split_key :: "string \<Rightarrow> (string \<times> string) option" where
  \<comment> \<open>\<open>indexOf(':')\<close> and the two slices; \<open>None\<close> when the index is not positive\<close>
  "split_key key =
     (let n = length (takeWhile (\<lambda>c. c \<noteq> CHR '':'') key) in
      if n = length key \<or> n = 0 then None else Some (take n key, drop (n + 1) key))"

definition handleChange :: "string \<Rightarrow> provider \<Rightarrow> provider" where
  "handleChange key s =
     (if key = ''aiAgent'' then activateTab (Some (Tool AiAgent)) None s
      else if key = ''devtools'' then activateTab (Some (Tool Devtools)) None s
      else if key = ''api'' then activateTab (Some (Tool ApiTool)) None s
      else if key = ''wiki'' then activateTab (Some (Tool Wiki)) None s
      else case split_key key of
             None \<Rightarrow> s
           | Some (kn, i) \<Rightarrow>
               (case kind_of_name kn of
                  None \<Rightarrow> s
                | Some k \<Rightarrow> activateTab (Some (Conn k)) (Some i) s))"

definition handleClose :: "string \<Rightarrow> provider \<Rightarrow> provider \<times> api_call list" where
  "handleClose key s =
     (if key = ''aiAgent'' then (s, [])
      else if key = ''devtools'' then (closeTool Devtools s, [])
      else if key = ''api'' then (closeTool ApiTool s, [])
      else if key = ''wiki'' then (closeTool Wiki s, [])
      else case split_key key of
             None \<Rightarrow> (s, [])
           | Some (kn, i) \<Rightarrow>
               (case kind_of_name kn of
                  None \<Rightarrow> (s, [])
                | Some k \<Rightarrow> closeSession_begin k i s))"

subsection \<open>Lemmas on tabs\<close>

lemma tab_eq_iff: "(t :: active_target) = u \<longleftrightarrow> at_kind t = at_kind u \<and> at_id t = at_id u"
  by (cases t; cases u) simp

lemma tool_tab_sel [simp]: "at_kind (tool_tab t) = Tool t" "at_id (tool_tab t) = None"
  by (simp_all add: tool_tab_def)

lemma session_tab_sel [simp]:
  "at_kind (session_tab k x) = Conn k" "at_id (session_tab k x) = Some (sid x)"
  by (simp_all add: session_tab_def)

lemma tool_tab_inject [simp]: "tool_tab t = tool_tab u \<longleftrightarrow> t = u"
  by (simp add: tab_eq_iff)

lemma session_tool_tab [simp]: "session_tab k x \<noteq> tool_tab t" "tool_tab t \<noteq> session_tab k x"
  by (simp_all add: tab_eq_iff)

lemma agentTarget_tab: "agentTarget = tool_tab AiAgent"
  by (simp add: agentTarget_def tool_tab_def)

lemma set_tab_kinds [simp]: "set tab_kinds = UNIV"
proof -
  have "k \<in> set tab_kinds" for k by (cases k) (simp_all add: tab_kinds_def)
  then show ?thesis by blast
qed

lemma distinct_tab_kinds [simp]: "distinct tab_kinds"
  by (simp add: tab_kinds_def)

lemma ex_tool_kind: "(\<exists>w. P w) \<longleftrightarrow> P ApiTool \<or> P Devtools \<or> P AiAgent \<or> P Wiki"
proof
  assume "\<exists>w. P w"
  then obtain w where "P w" ..
  then show "P ApiTool \<or> P Devtools \<or> P AiAgent \<or> P Wiki" by (cases w) simp_all
qed blast

lemma set_open_tabs:
  "t \<in> set (getAllOpenTabs ss ts) \<longleftrightarrow>
     (\<exists>k. \<exists>x\<in>set (ss k). t = session_tab k x) \<or> t = tool_tab AiAgent \<or>
     (\<exists>w. w \<noteq> AiAgent \<and> t = tool_tab w \<and> t_open (get_tool w ts))"
proof -
  have "(\<exists>w. w \<noteq> AiAgent \<and> t = tool_tab w \<and> t_open (get_tool w ts)) \<longleftrightarrow>
     t = tool_tab Devtools \<and> t_open (tl_devtools ts) \<or> t = tool_tab ApiTool \<and> t_open (tl_api ts) \<or>
     t = tool_tab Wiki \<and> t_open (tl_wiki ts)"
    unfolding ex_tool_kind by auto
  then show ?thesis by (auto simp: getAllOpenTabs_def image_iff)
qed

lemma distinct_open_tabs:
  assumes "\<And>k. distinct (map sid (ss k))"
  shows "distinct (getAllOpenTabs ss ts)"
proof -
  have inner: "distinct (map (session_tab k) (ss k))" for k
    using assms [of k] by (auto simp: distinct_map inj_on_def tab_eq_iff)
  have "distinct (concat (map (\<lambda>k. map (session_tab k) (ss k)) ks))" if "distinct ks" for ks
    using that
  proof (induction ks)
    case (Cons k ks)
    then show ?case using inner [of k] by (auto simp: tab_eq_iff)
  qed simp
  from this [OF distinct_tab_kinds] show ?thesis
    by (auto simp: getAllOpenTabs_def)
qed

lemma pickAdjacentFallback_split:
  assumes "closed \<notin> set xs" "xs @ ys \<noteq> []"
  shows "pickAdjacentFallback closed (xs @ closed # ys) =
    Some (if ys = [] then last xs else hd ys)"
proof -
  have "find_index (\<lambda>t. at_kind t = at_kind closed \<and> at_id t = at_id closed) (xs @ closed # ys) =
      Some (length xs)"
    using assms(1)
    by (intro find_index_nth_eqI) (auto simp: nth_append tab_eq_iff [symmetric] in_set_conv_nth)
  with assms(2) show ?thesis
    by (cases xs rule: rev_cases; cases ys)
      (auto simp: pickAdjacentFallback_def nth_append)
qed

lemma pickAdjacentFallback_mem:
  assumes "distinct tabs" "pickAdjacentFallback closed tabs = Some f"
  shows "f \<in> set tabs \<and> f \<noteq> closed"
proof -
  from assms(2) obtain i where
    "find_index (\<lambda>t. at_kind t = at_kind closed \<and> at_id t = at_id closed) tabs = Some i"
    by (auto simp: pickAdjacentFallback_def split: option.splits)
  from find_index_SomeD [OF this] have i: "i < length tabs" "tabs ! i = closed"
    by (auto simp: tab_eq_iff)
  from id_take_nth_drop [OF i(1)] i(2) obtain xs ys where tabs: "tabs = xs @ closed # ys"
    by auto
  have ne: "xs @ ys \<noteq> []"
    using assms(2) by (cases "xs @ ys = []") (auto simp: tabs pickAdjacentFallback_def)
  have "closed \<notin> set xs" using assms(1) tabs by auto
  from pickAdjacentFallback_split [OF this ne] assms tabs ne show ?thesis
    by (cases ys; cases xs rule: rev_cases) auto
qed

subsection \<open>The invariant of the provider\<close>

definition open_tabs :: "provider \<Rightarrow> active_target list" where
  "open_tabs s = getAllOpenTabs (sessions s) (tools s)"

definition synced :: "provider \<Rightarrow> bool" where
  "synced s \<longleftrightarrow> sessionsRef s = sessions s \<and> toolsRef s = tools s"

definition provider_inv :: "provider \<Rightarrow> bool" where
  \<comment> \<open>ids are unique per type, the agent's tab is open, the active tab is an open tab\<close>
  "provider_inv s \<longleftrightarrow>
     (\<forall>k. distinct (map sid (sessions s k))) \<and> t_open (tl_aiAgent (tools s)) \<and>
     (\<exists>t. activeTarget s = Some t \<and> t \<in> set (open_tabs s))"

datatype session_event =
    EToggleSidebar | EToggleAi | ESync | EConn
  | EActivate "tab_kind option" "string option"
  | EOpenTool tool_kind | ECloseTool tool_kind
  | EAdd conn_type any_session
  | EUpdate conn_type string "any_session \<Rightarrow> any_session"
  | ECloseBegin conn_type string
  | ECloseFinish conn_type string

fun session_step :: "provider \<Rightarrow> session_event \<Rightarrow> provider" where
  "session_step s EToggleSidebar = toggleSidebar s"
| "session_step s EToggleAi = toggleAiSidebar s"
| "session_step s ESync = sync_refs s"
| "session_step s EConn = fst (sync_connection s)"
| "session_step s (EActivate k i) = activateTab k i s"
| "session_step s (EOpenTool t) = openTool t s"
| "session_step s (ECloseTool t) = closeTool t s"
| "session_step s (EAdd k x) = addSession k x s"
| "session_step s (EUpdate k i f) = updateSession k i f s"
| "session_step s (ECloseBegin k i) = fst (closeSession_begin k i s)"
| "session_step s (ECloseFinish k i) = closeSession_finish k i s"

text \<open>
  What the components that call the provider guarantee: a session tab is activated by the key of
  an existing session, a patch does not change the id (the callers patch the database), a closing
  finishes only after it began, and the effect that refreshes the refs has run before a closing
  computes its fallback.
\<close>

fun session_enabled :: "provider \<Rightarrow> session_event \<Rightarrow> bool" where
  "session_enabled s (EActivate (Some (Conn k)) i) = (\<exists>x\<in>set (sessions s k). i = Some (sid x))"
| "session_enabled s (ECloseTool t) = synced s"
| "session_enabled s (EUpdate k i f) = (\<forall>x. sid (f x) = sid x)"
| "session_enabled s (ECloseFinish k i) = (session_key k i \<in> closingRef s \<and> synced s)"
| "session_enabled s e = True"

lemma get_activate_only [simp]:
  "t_open (get_tool w (activate_only v ts)) \<longleftrightarrow>
     v = Some w \<or> w = AiAgent \<or> t_open (get_tool w ts)"
  by (cases w) (auto simp: activate_only_def)

lemma open_tabs_activate_only:
  "t \<in> set (getAllOpenTabs ss ts) \<Longrightarrow> t \<in> set (getAllOpenTabs ss (activate_only v ts))"
  by (auto simp: set_open_tabs)

lemma activateTab_fields [simp]:
  "sessions (activateTab k i s) = sessions s"
  "sessionsRef (activateTab k i s) = sessionsRef s" "toolsRef (activateTab k i s) = toolsRef s"
  by (auto simp: activateTab_def split: option.splits tab_kind.splits)

lemma activateTab_inv:
  assumes ids: "\<And>k. distinct (map sid (sessions s k))"
    and ok: "session_enabled s (EActivate kind i)"
  shows "provider_inv (activateTab kind i s)"
proof (cases kind)
  case None
  then show ?thesis using ids
    by (simp add: provider_inv_def open_tabs_def activateTab_def set_open_tabs agentTarget_tab
        activate_only_def)
next
  case (Some kk)
  show ?thesis
  proof (cases kk)
    case (Conn k)
    with ok Some obtain x where "x \<in> set (sessions s k)" "i = Some (sid x)" by auto
    then have "\<lparr>at_kind = Conn k, at_id = i\<rparr> \<in> set (getAllOpenTabs (sessions s) ts)" for ts
      by (auto simp: set_open_tabs session_tab_def)
    with Conn Some ids show ?thesis
      by (simp add: provider_inv_def open_tabs_def activateTab_def activate_only_def)
  next
    case (Tool t)
    with Some ids show ?thesis
      by (cases t) (auto simp: provider_inv_def open_tabs_def activateTab_def set_open_tabs
          activate_only_def)
  qed
qed

lemma set_tool_get [simp]:
  "get_tool w (set_tool v f ts) = (if w = v then f else get_tool w ts)"
  by (cases w; cases v) simp_all

lemma open_tabs_closeTool:
  assumes "tool \<noteq> AiAgent" "at_kind (closing_fallback (tool_tab tool) s) \<noteq> Tool tool"
  shows "t \<in> set (open_tabs (closeTool tool s)) \<longleftrightarrow> t \<in> set (open_tabs s) \<and> t \<noteq> tool_tab tool"
  using assms
  by (auto simp: open_tabs_def closeTool_def set_open_tabs Let_def
      simp del: set_tool.simps split: tab_kind.splits if_splits)

lemma closing_fallback_mem:
  assumes "provider_inv s" "synced s" "closed \<noteq> agentTarget"
  shows "closing_fallback closed s \<in> set (open_tabs s) \<and> closing_fallback closed s \<noteq> closed"
proof (cases "pickAdjacentFallback closed (open_tabs s)")
  case None
  with assms(2,3) show ?thesis
    by (simp add: closing_fallback_def synced_def open_tabs_def nullish_def set_open_tabs
        agentTarget_tab)
next
  case (Some f)
  have "distinct (open_tabs s)"
    using assms(1) unfolding open_tabs_def provider_inv_def by (blast intro: distinct_open_tabs)
  from pickAdjacentFallback_mem [OF this Some] assms(2) Some show ?thesis
    by (simp add: closing_fallback_def synced_def open_tabs_def nullish_def)
qed

lemma tool_tab_in_open:
  "t \<in> set (open_tabs s) \<Longrightarrow> at_kind t = Tool w \<Longrightarrow> t = tool_tab w"
  by (auto simp: open_tabs_def set_open_tabs)

lemma closeTool_inv:
  assumes inv: "provider_inv s" and sy: "synced s"
  shows "provider_inv (closeTool tool s)"
proof (cases "tool = AiAgent")
  case True
  with inv show ?thesis by (simp add: closeTool_def)
next
  case False
  let ?f = "closing_fallback (tool_tab tool) s"
  from False have "tool_tab tool \<noteq> agentTarget" by (simp add: agentTarget_tab)
  from closing_fallback_mem [OF inv sy this]
  have f: "?f \<in> set (open_tabs s)" "?f \<noteq> tool_tab tool" by auto
  have nk: "at_kind ?f \<noteq> Tool tool" using f tool_tab_in_open by blast
  from inv obtain c where c: "activeTarget s = Some c" "c \<in> set (open_tabs s)"
    by (auto simp: provider_inv_def)
  have act: "activeTarget (closeTool tool s) = Some (if at_kind c = Tool tool then ?f else c)"
    using False c by (simp add: closeTool_def Let_def)
  have "(if at_kind c = Tool tool then ?f else c) \<in> set (open_tabs (closeTool tool s))"
    using f c(2) by (auto simp: open_tabs_closeTool [OF False nk])
  moreover have "sessions (closeTool tool s) = sessions s" "t_open (tl_aiAgent (tools (closeTool tool s)))"
    using False by (cases tool; cases "at_kind ?f"; cases "case at_kind ?f of Tool t \<Rightarrow> t | _ \<Rightarrow> Wiki";
        simp add: closeTool_def Let_def)+
  ultimately show ?thesis using inv act by (simp add: provider_inv_def)
qed

lemma getAllOpenTabs_remove:
  "getAllOpenTabs (ss(k := filter (\<lambda>x. sid x \<noteq> i) (ss k))) ts =
     filter (\<lambda>t. t \<noteq> \<lparr>at_kind = Conn k, at_id = Some i\<rparr>) (getAllOpenTabs ss ts)"
proof -
  have "map (session_tab j) ((ss(k := filter (\<lambda>x. sid x \<noteq> i) (ss k))) j) =
      filter (\<lambda>t. t \<noteq> \<lparr>at_kind = Conn k, at_id = Some i\<rparr>) (map (session_tab j) (ss j))" for j
    by (auto simp: filter_map o_def tab_eq_iff intro!: filter_cong)
  then show ?thesis
    by (simp add: getAllOpenTabs_def filter_concat o_def tab_eq_iff)
qed

lemma getAllOpenTabs_open_cong:
  assumes "\<And>w. w \<noteq> AiAgent \<Longrightarrow> t_open (get_tool w ts) = t_open (get_tool w us)"
  shows "getAllOpenTabs ss ts = getAllOpenTabs ss us"
  using assms [of ApiTool] assms [of Devtools] assms [of Wiki] by (simp add: getAllOpenTabs_def)

lemma finish_open_flags:
  "t_open (get_tool w (tools (closeSession_finish k i s))) \<longleftrightarrow>
     t_open (get_tool w (tools s)) \<or>
     (w = AiAgent \<and> (\<exists>t. at_kind (closing_fallback \<lparr>at_kind = Conn k, at_id = Some i\<rparr> s) = Tool t))"
  by (cases w) (auto simp: closeSession_finish_def Let_def split: tab_kind.splits)

lemma open_tabs_finish:
  "open_tabs (closeSession_finish k i s) =
     filter (\<lambda>t. t \<noteq> \<lparr>at_kind = Conn k, at_id = Some i\<rparr>) (open_tabs s)"
proof -
  have "sessions (closeSession_finish k i s) =
      (sessions s)(k := filter (\<lambda>x. sid x \<noteq> i) (sessions s k))"
    by (simp add: closeSession_finish_def Let_def)
  then show ?thesis
    unfolding open_tabs_def
    by (simp add: getAllOpenTabs_remove finish_open_flags
        getAllOpenTabs_open_cong [of "tools (closeSession_finish k i s)" "tools s"])
qed

lemma closeSession_finish_inv:
  assumes inv: "provider_inv s" and sy: "synced s"
  shows "provider_inv (closeSession_finish k i s)"
proof -
  let ?c = "\<lparr>at_kind = Conn k, at_id = Some i\<rparr>"
  let ?f = "closing_fallback ?c s"
  have "?c \<noteq> agentTarget" by (simp add: agentTarget_def)
  from closing_fallback_mem [OF inv sy this]
  have f: "?f \<in> set (open_tabs s)" "?f \<noteq> ?c" by auto
  from inv obtain c where c: "activeTarget s = Some c" "c \<in> set (open_tabs s)"
    by (auto simp: provider_inv_def)
  have "activeTarget (closeSession_finish k i s) = Some (if c = ?c then ?f else c)"
    using c by (simp add: closeSession_finish_def Let_def tab_eq_iff)
  moreover have "(if c = ?c then ?f else c) \<in> set (open_tabs (closeSession_finish k i s))"
    using f c by (auto simp: open_tabs_finish)
  moreover have "distinct (map sid (sessions (closeSession_finish k i s) j))" for j
    using inv by (auto simp: closeSession_finish_def Let_def provider_inv_def)
  moreover have "t_open (tl_aiAgent (tools (closeSession_finish k i s)))"
    using inv finish_open_flags [of AiAgent k i s] by (simp add: provider_inv_def)
  ultimately show ?thesis by (simp add: provider_inv_def)
qed

lemma map_sid_update: "(\<And>x. sid (f x) = sid x) \<Longrightarrow> map sid (map (\<lambda>x. if sid x = i then f x else x) xs) = map sid xs"
  by (induction xs) auto

lemma getAllOpenTabs_sids:
  assumes "\<And>k. map sid (ss k) = map sid (rs k)"
  shows "getAllOpenTabs ss ts = getAllOpenTabs rs ts"
proof -
  have "map (session_tab k) (ss k) = map (session_tab k) (rs k)" for k
  proof -
    have "map (\<lambda>i. \<lparr>at_kind = Conn k, at_id = Some i\<rparr>) (map sid (ss k)) =
        map (\<lambda>i. \<lparr>at_kind = Conn k, at_id = Some i\<rparr>) (map sid (rs k))"
      by (simp only: assms)
    then show ?thesis by (simp add: session_tab_def [abs_def] o_def)
  qed
  then show ?thesis by (simp add: getAllOpenTabs_def)
qed

lemma updateSession_inv:
  assumes "provider_inv s" "\<And>x. sid (f x) = sid x"
  shows "provider_inv (updateSession k i f s)"
proof -
  let ?s = "updateSession k i f s"
  have ids: "map sid (sessions ?s j) = map sid (sessions s j)" for j
    using map_sid_update [OF assms(2), of i "sessions s k"] by (simp add: updateSession_def)
  have "open_tabs ?s = open_tabs s"
    unfolding open_tabs_def using getAllOpenTabs_sids [OF ids]
    by (simp add: updateSession_def)
  moreover have "activeTarget ?s = activeTarget s" "tools ?s = tools s"
    by (simp_all add: updateSession_def)
  ultimately show ?thesis using assms(1) ids by (simp add: provider_inv_def)
qed

lemma addSession_inv:
  assumes "provider_inv s"
  shows "provider_inv (addSession k x s)"
  unfolding addSession_def
  using assms by (intro activateTab_inv) (auto simp: provider_inv_def)

lemma sync_connection_frame:
  "sessions (fst (sync_connection s)) = sessions s \<and> tools (fst (sync_connection s)) = tools s \<and>
   activeTarget (fst (sync_connection s)) = activeTarget s"
  by (auto simp: sync_connection_def Let_def split: option.splits)

text \<open>The provider's contract: every enabled handler keeps the invariant.\<close>

interpretation provider: transition_system session_enabled session_step provider_inv
proof
  fix s e
  assume inv: "provider_inv s" and en: "session_enabled s e"
  show "provider_inv (session_step s e)"
  proof (cases e)
    case EConn
    with inv sync_connection_frame [of s] show ?thesis
      by (simp add: provider_inv_def open_tabs_def)
  next
    case (EActivate kk i)
    with en activateTab_inv [of s kk i] inv show ?thesis by (simp add: provider_inv_def [of s])
  next
    case (EOpenTool t)
    with activateTab_inv [of s "Some (Tool t)" None] inv show ?thesis
      by (simp add: openTool_def provider_inv_def [of s])
  next
    case (EUpdate k i f)
    with inv en show ?thesis by (simp add: updateSession_inv)
  next
    case (ECloseBegin k i)
    with inv show ?thesis
      by (auto simp: closeSession_begin_def provider_inv_def open_tabs_def)
  qed (use inv en in \<open>auto simp: provider_inv_def open_tabs_def toggleSidebar_def
        toggleAiSidebar_def sync_refs_def closeTool_inv [unfolded provider_inv_def open_tabs_def]
        addSession_inv [unfolded provider_inv_def open_tabs_def]
        closeSession_finish_inv [unfolded provider_inv_def open_tabs_def]\<close>)
qed

lemma initial_inv: "provider_inv initialProvider"
  by (simp add: provider_inv_def initialProvider_def initialSessionsState_def
      initialToolsState_def open_tabs_def set_open_tabs agentTarget_tab)

subsection \<open>Properties\<close>

text \<open>
  C1: in every run in which a closing finishes, and a tool is closed, only when the refs are those of the last render, the ids of
  each list stay distinct, the agent's tab stays open, and the active tab is one of the open tabs, however the closings interleave.
  Handlers run between renders otherwise; what happens when a closing reads a ref that is behind is \<open>stale_refs_activate_closed_tab\<close>.
\<close>

theorem active_tab_is_open:
  assumes "run_steps session_enabled session_step initialProvider es = Some s"
  shows "provider_inv s"
  using initial_inv assms by (rule provider.run_inv)

definition demo_ssh :: "string \<Rightarrow> any_session" where
  "demo_ssh i = SSsh \<lparr>ssh_id = i, ssh_serverId = i, ssh_title = ''box'', ssh_host = ''h'', ssh_port = 22,
     ssh_username = ''root'', ssh_connected = True, ssh_homeDir = ''/''\<rparr>"

lemma demo_sid [simp]: "sid (demo_ssh i) = i"
  by (simp add: demo_ssh_def)

lemmas session_eval =
  initialProvider_def initialSessionsState_def initialToolsState_def agentTarget_def synced_def
  sync_refs_def addSession_def activateTab_def activate_only_def closeSession_begin_def
  closeSession_finish_def closing_fallback_def pickAdjacentFallback_def getAllOpenTabs_def
  tab_kinds_def session_tab_def tool_tab_def nullish_def session_key_def

theorem active_tab_is_open_witness:
  "\<exists>s. run_steps session_enabled session_step initialProvider
         [EAdd Ssh (demo_ssh ''a''), EAdd Ssh (demo_ssh ''b''), ESync, ECloseBegin Ssh ''b'',
          ECloseFinish Ssh ''b''] = Some s \<and>
       activeTarget s = Some (session_tab Ssh (demo_ssh ''a'')) \<and> provider_inv s"
proof -
  obtain s where s: "run_steps session_enabled session_step initialProvider
         [EAdd Ssh (demo_ssh ''a''), EAdd Ssh (demo_ssh ''b''), ESync, ECloseBegin Ssh ''b'',
          ECloseFinish Ssh ''b''] = Some s"
    and "activeTarget s = Some (session_tab Ssh (demo_ssh ''a''))"
    by (simp add: session_eval)
  then show ?thesis using active_tab_is_open [OF s] by blast
qed

text \<open>
  Closing the session of the active tab, with the refs up to date, activates the tab to its
  right, or the one to its left when it was the last.
\<close>

theorem close_active_selects_neighbour:
  assumes "provider_inv s" "synced s"
    and "open_tabs s = xs @ \<lparr>at_kind = Conn k, at_id = Some i\<rparr> # ys"
    and "activeTarget s = Some \<lparr>at_kind = Conn k, at_id = Some i\<rparr>"
  shows "activeTarget (closeSession_finish k i s) = Some (if ys = [] then last xs else hd ys)"
proof -
  let ?c = "\<lparr>at_kind = Conn k, at_id = Some i\<rparr>"
  have "distinct (open_tabs s)"
    using assms(1) unfolding open_tabs_def provider_inv_def by (blast intro: distinct_open_tabs)
  with assms(3) have "?c \<notin> set xs" by auto
  moreover have "hd (open_tabs s) = tool_tab AiAgent"
    by (simp add: open_tabs_def getAllOpenTabs_def)
  with assms(3) have "xs @ ys \<noteq> []" by (cases xs) (auto simp: tab_eq_iff)
  ultimately have "pickAdjacentFallback ?c (open_tabs s) = Some (if ys = [] then last xs else hd ys)"
    unfolding assms(3) by (rule pickAdjacentFallback_split)
  with assms(2,4) show ?thesis
    by (simp add: closeSession_finish_def Let_def closing_fallback_def synced_def open_tabs_def
        nullish_def)
qed

theorem close_active_selects_neighbour_witness:
  "let s = addSession Ssh (demo_ssh ''b'') (addSession Ssh (demo_ssh ''a'') initialProvider) in
   activeTarget (closeSession_finish Ssh ''b'' (sync_refs s)) =
     Some (session_tab Ssh (demo_ssh ''a''))"
proof -
  let ?s = "sync_refs (addSession Ssh (demo_ssh ''b'') (addSession Ssh (demo_ssh ''a'') initialProvider))"
  have run: "run_steps session_enabled session_step initialProvider
      [EAdd Ssh (demo_ssh ''a''), EAdd Ssh (demo_ssh ''b''), ESync] = Some ?s" by simp
  have inv: "provider_inv ?s" using initial_inv run by (rule provider.run_inv)
  have sy: "synced ?s" by (simp add: synced_def sync_refs_def)
  have tabs: "open_tabs ?s = [tool_tab AiAgent, session_tab Ssh (demo_ssh ''a'')] @
      \<lparr>at_kind = Conn Ssh, at_id = Some ''b''\<rparr> # []"
    by (simp add: open_tabs_def session_eval)
  have act: "activeTarget ?s = Some \<lparr>at_kind = Conn Ssh, at_id = Some ''b''\<rparr>"
    by (simp add: session_eval)
  from close_active_selects_neighbour [OF inv sy tabs act] show ?thesis by simp
qed

text \<open>
  A session is disconnected once however often its tab is closed: while a closing is waiting,
  a second one neither changes the state nor calls the backend; when it finishes, exactly that tab
  is gone from the open tabs and the session may be closed again.
\<close>

theorem close_session_once:
  "let (s1, calls) = closeSession_begin k i s in
   (calls = [] \<longrightarrow> s1 = s) \<and>
   (calls \<noteq> [] \<longrightarrow> calls = [Disconnect k i] \<and> closeSession_begin k i s1 = (s1, [])) \<and>
   open_tabs (closeSession_finish k i s1) =
     filter (\<lambda>t. t \<noteq> \<lparr>at_kind = Conn k, at_id = Some i\<rparr>) (open_tabs s) \<and>
   session_key k i \<notin> closingRef (closeSession_finish k i s1)"
proof -
  have frame: "open_tabs (s\<lparr>closingRef := c\<rparr>) = open_tabs s" for c
    by (simp add: open_tabs_def)
  have "session_key k i \<notin> closingRef (closeSession_finish k i t)" for t
    by (simp add: closeSession_finish_def Let_def)
  with frame show ?thesis
    by (simp add: closeSession_begin_def open_tabs_finish split: prod.splits)
qed

theorem close_session_once_witness:
  "let s = sync_refs (addSession Ssh (demo_ssh ''a'') initialProvider) in
   snd (closeSession_begin Ssh ''a'' s) = [Disconnect Ssh ''a''] \<and>
   closeSession_begin Ssh ''a'' (fst (closeSession_begin Ssh ''a'' s)) =
     (fst (closeSession_begin Ssh ''a'' s), [])"
proof -
  let ?s = "sync_refs (addSession Ssh (demo_ssh ''a'') initialProvider)"
  have "snd (closeSession_begin Ssh ''a'' ?s) \<noteq> []"
    by (simp add: closeSession_begin_def sync_refs_def session_eval)
  with close_session_once [of Ssh "''a''" ?s] show ?thesis
    by (simp add: Let_def split_beta)
qed

lemma target_conn_prev [simp]: "target_conn (s\<lparr>prevConnRef := x\<rparr>) = target_conn s"
  by (simp add: target_conn_def split: option.split)

lemma target_conn_last:
  "target_conn s = Some p \<Longrightarrow>
     target_conn (s\<lparr>lastConnRef := v\<rparr>) = Some p \<or> target_conn (s\<lparr>lastConnRef := v\<rparr>) = v"
  by (auto simp: target_conn_def split: option.splits)

lemma conn_key_None [simp]: "conn_key None = []"
  by (simp add: conn_key_def)

text \<open>
  The agent is told of the connection of the active session, or of the last one: a call carries
  the connection the current sessions give for it, and running the effect again changes nothing and
  calls nobody.
\<close>

theorem sync_connection_settles:
  "sync_connection (fst (sync_connection s)) = (fst (sync_connection s), []) \<and>
   snd (sync_connection s) \<in>
     {[], [SetActiveConnection (Option.bind (target_conn s) (\<lambda>(k, i). connection_info (sessions s) k i))]}"
proof (cases "target_conn s")
  case None
  then show ?thesis by (simp add: sync_connection_def)
next
  case (Some ki)
  obtain k i where ki: "ki = (k, i)" by (cases ki)
  define info where "info = connection_info (sessions s) k i"
  define s1 where "s1 = s\<lparr>lastConnRef := (if info = None then None else Some (k, i))\<rparr>"
  define s2 where "s2 = (if conn_key info \<noteq> prevConnRef s then s1\<lparr>prevConnRef := conn_key info\<rparr> else s1)"
  have run: "sync_connection s =
      (s2, if conn_key info \<noteq> prevConnRef s then [SetActiveConnection info] else [])"
    using Some ki by (simp add: sync_connection_def Let_def info_def s1_def s2_def)
  have prev: "prevConnRef s2 = conn_key info" by (simp add: s2_def s1_def)
  have frame: "sessions s2 = sessions s"
    "lastConnRef s2 = (if info = None then None else Some (k, i))"
    by (simp_all add: s2_def s1_def)
  have "target_conn s2 = target_conn s1" by (simp add: s2_def)
  with target_conn_last [OF Some, of "if info = None then None else Some (k, i)"] ki
  have "target_conn s2 = Some (k, i) \<or> info = None \<and> target_conn s2 = None"
    by (auto simp: s1_def split: if_splits)
  then have "sync_connection s2 = (s2, [])"
    using prev frame by (auto simp: sync_connection_def Let_def info_def [symmetric])
  with run Some ki show ?thesis by (simp add: info_def)
qed

lemma colon_not_in_kind_name: "CHR '':'' \<notin> set (kind_name k)"
  by (cases k) simp_all

lemma split_key_session: "split_key (kind_name k @ '':'' @ i) = Some (kind_name k, i)"
proof -
  have "takeWhile (\<lambda>c. c \<noteq> CHR '':'') (kind_name k @ '':'' @ i) = kind_name k"
    using colon_not_in_kind_name [of k] by (auto simp: takeWhile_append takeWhile_eq_all_conv)
  moreover have "kind_name k \<noteq> []" by (cases k) simp_all
  ultimately show ?thesis by (simp add: split_key_def)
qed

lemma kind_of_name_name [simp]: "kind_of_name (kind_name k) = Some k"
  by (cases k) (simp_all add: kind_of_name_def CONN_TYPES_def)

lemma session_key_not_tool:
  "kind_name k @ '':'' @ i \<noteq> ''aiAgent'' \<and> kind_name k @ '':'' @ i \<noteq> ''devtools'' \<and>
   kind_name k @ '':'' @ i \<noteq> ''api'' \<and> kind_name k @ '':'' @ i \<noteq> ''wiki''"
proof -
  have "CHR '':'' \<in> set (kind_name k @ '':'' @ i)" by simp
  then show ?thesis by (auto simp del: set_append)
qed

text \<open>
  The key of a tab names that tab: clicking the item of an open tab makes exactly that tab the
  active one, whatever characters the session's id has.
\<close>

theorem click_activates_its_tab:
  assumes "t \<in> set (open_tabs s)"
  shows "activeTarget (handleChange (tab_key t) s) = Some t"
proof (cases "at_kind t")
  case (Tool w)
  with assms have "t = tool_tab w" by (rule tool_tab_in_open)
  then show ?thesis
    by (cases w) (simp_all add: tab_key_def handleChange_def activateTab_def)
next
  case (Conn k)
  with assms obtain x where t: "t = session_tab k x"
    by (auto simp: open_tabs_def set_open_tabs)
  have "tab_key t = kind_name k @ '':'' @ sid x" by (simp add: t tab_key_def nullish_def)
  with session_key_not_tool [of k "sid x"] split_key_session [of k "sid x"] show ?thesis
    by (simp add: handleChange_def activateTab_def t session_tab_def)
qed

theorem click_activates_its_tab_witness:
  "activeTarget (handleChange ''ssh:a:b'' (addSession Ssh (demo_ssh ''a:b'') initialProvider)) =
     Some (session_tab Ssh (demo_ssh ''a:b''))"
proof -
  let ?t = "session_tab Ssh (demo_ssh ''a:b'')"
  have "?t \<in> set (open_tabs (addSession Ssh (demo_ssh ''a:b'') initialProvider))"
    by (simp add: open_tabs_def session_eval)
  from click_activates_its_tab [OF this] show ?thesis
    by (simp add: tab_key_def nullish_def)
qed

lemma close_key_of_session:
  "handleClose (tab_key (session_tab k x)) s = closeSession_begin k (sid x) s"
  using session_key_not_tool [of k "sid x"] split_key_session [of k "sid x"]
  by (simp add: handleClose_def tab_key_def session_tab_def nullish_def)

lemma close_key_of_tool:
  "handleClose (tab_key (tool_tab t)) s = (closeTool t s, [])"
  by (cases t) (simp_all add: handleClose_def tab_key_def tool_tab_def closeTool_def)

text \<open>
  The guard on the refs is needed. If two disconnections finish before the effect refreshes the
  refs, the second closing computes its fallback from the stale list and activates the tab of a
  session that is already closed.
\<close>

theorem stale_refs_activate_closed_tab:
  "let s = sync_refs (addSession Ssh (demo_ssh ''a'') (addSession Ssh (demo_ssh ''b'') initialProvider));
       s1 = closeSession_finish Ssh ''b'' (activateTab (Some (Conn Ssh)) (Some ''a'') s);
       s2 = closeSession_finish Ssh ''a'' s1
   in sessions s2 Ssh = [] \<and> activeTarget s2 = Some (session_tab Ssh (demo_ssh ''b''))"
proof -
  let ?b = "\<lparr>at_kind = Conn Ssh, at_id = Some ''b''\<rparr>"
  let ?a = "\<lparr>at_kind = Conn Ssh, at_id = Some ''a''\<rparr>"
  let ?s = "sync_refs (addSession Ssh (demo_ssh ''a'') (addSession Ssh (demo_ssh ''b'') initialProvider))"
  let ?t = "activateTab (Some (Conn Ssh)) (Some ''a'') ?s"
  let ?s1 = "closeSession_finish Ssh ''b'' ?t"
  have list: "sessions ?s Ssh = [demo_ssh ''b'', demo_ssh ''a'']" by (simp add: session_eval)
  have refs: "getAllOpenTabs (sessionsRef ?s) (toolsRef ?s) = [tool_tab AiAgent, ?b] @ ?a # []"
    by (simp add: session_eval)
  have frame: "sessionsRef ?s1 = sessionsRef ?s" "toolsRef ?s1 = toolsRef ?s"
    by (simp_all add: closeSession_finish_def Let_def)
  have act: "activeTarget ?s1 = Some ?a"
    by (simp add: closeSession_finish_def Let_def activateTab_def)
  have "pickAdjacentFallback ?a ([tool_tab AiAgent, ?b] @ ?a # []) = Some ?b"
    by (subst pickAdjacentFallback_split) (simp_all add: tab_eq_iff)
  with refs frame have "closing_fallback ?a ?s1 = ?b"
    by (simp add: closing_fallback_def nullish_def)
  with act have "activeTarget (closeSession_finish Ssh ''a'' ?s1) = Some ?b"
    by (simp add: closeSession_finish_def [of Ssh "''a''"] Let_def)
  moreover have "sessions (closeSession_finish Ssh ''a'' ?s1) Ssh = []"
    using list by (simp add: closeSession_finish_def Let_def)
  ultimately show ?thesis by (simp add: Let_def session_tab_def)
qed

end
