(* ===== verification/SqlText.thy ===== *)
theory SqlText
  imports Prelude "HOL-Library.Monad_Syntax"
begin

section \<open>SQL text: identifiers, literals, statements and filters\<close>

text \<open>
  \<open>utils/sqlExport.ts\<close> and the WHERE builders of \<open>components/ColumnFilterPopover.tsx\<close> and
  \<open>components/db/adapters/sqliteAdapter.ts\<close>. The specification side is the lexer of each
  server: a quoted token is read up to its closing quote, a doubled quote stands for one, and in a
  MySQL string a backslash escapes. The locale \<open>quoted_token\<close> is the contract between a quoting
  function and its lexer; the statements are proved to be read back through it.
\<close>

datatype sql_dialect = MysqlD | PostgresD | SqliteD

subsection \<open>Lexers of quoted tokens\<close>

fun lex_doubled :: "char \<Rightarrow> string \<Rightarrow> (string \<times> string) option" where
  \<comment> \<open>after the opening quote \<open>q\<close>: the content and what follows the closing quote\<close>
  "lex_doubled q [] = None"
| "lex_doubled q [c] = (if c = q then Some ([], []) else None)"
| "lex_doubled q (c # d # s) =
     (if c = q
      then if d = q then map_option (apfst (Cons q)) (lex_doubled q s) else Some ([], d # s)
      else map_option (apfst (Cons c)) (lex_doubled q (d # s)))"

definition lex_quoted :: "char \<Rightarrow> string \<Rightarrow> (string \<times> string) option" where
  "lex_quoted q s = (case s of c # t \<Rightarrow> if c = q then lex_doubled q t else None | [] \<Rightarrow> None)"

fun mysql_escape :: "char \<Rightarrow> string" where
  \<comment> \<open>what a backslash and this character stand for in a MySQL string\<close>
  "mysql_escape c =
     (if c = CHR ''0'' then [CHR 0x00] else if c = CHR ''b'' then [CHR 0x08]
      else if c = CHR ''n'' then [CHR 0x0A] else if c = CHR ''r'' then [CHR 0x0D]
      else if c = CHR ''t'' then [CHR 0x09] else if c = CHR ''Z'' then [CHR 0x1A]
      else if c = CHR ''%'' \<or> c = CHR ''_'' then [CHR 0x5C, c] else [c])"

fun lex_mysql_body :: "string \<Rightarrow> (string \<times> string) option" where
  "lex_mysql_body [] = None"
| "lex_mysql_body [c] = (if c = CHR 0x27 then Some ([], []) else None)"
| "lex_mysql_body (c # d # s) =
     (if c = CHR 0x5C then map_option (apfst (append (mysql_escape d))) (lex_mysql_body s)
      else if c = CHR 0x27
      then if d = CHR 0x27 then map_option (apfst (Cons c)) (lex_mysql_body s) else Some ([], d # s)
      else map_option (apfst (Cons c)) (lex_mysql_body (d # s)))"

definition lex_mysql_string :: "string \<Rightarrow> (string \<times> string) option" where
  "lex_mysql_string s =
     (case s of c # t \<Rightarrow> if c = CHR 0x27 then lex_mysql_body t else None | [] \<Rightarrow> None)"

definition follows :: "char \<Rightarrow> string \<Rightarrow> bool" where
  \<comment> \<open>text that may follow a token quoted with \<open>q\<close>\<close>
  "follows q r \<longleftrightarrow> (case r of [] \<Rightarrow> True | c # _ \<Rightarrow> c \<noteq> q)"

lemma follows_Nil [simp]: "follows q []"
  by (simp add: follows_def)

lemma follows_Cons [simp]: "follows q (c # s) \<longleftrightarrow> c \<noteq> q"
  by (simp add: follows_def)

locale quoted_token =
  fixes quote :: "string \<Rightarrow> string"
    and lex :: "string \<Rightarrow> (string \<times> string) option"
    and q :: char
  assumes lex_quote: "follows q r \<Longrightarrow> lex (quote s @ r) = Some (s, r)"
begin

lemma lex_quote_all: "lex (quote s) = Some (s, [])"
  using lex_quote [of "[]" s] by simp

lemma quote_inject: "quote s = quote t \<longleftrightarrow> s = t"
  using lex_quote_all by (metis option.inject prod.inject)

end

lemma lex_doubled_q [simp]: "follows q r \<Longrightarrow> lex_doubled q (q # r) = Some ([], r)"
  by (cases r) auto

lemma lex_doubled_other:
  "c \<noteq> q \<Longrightarrow> t \<noteq> [] \<Longrightarrow> lex_doubled q (c # t) = map_option (apfst (Cons c)) (lex_doubled q t)"
  by (cases t) auto

lemma lex_doubled_quote:
  "follows q r \<Longrightarrow> lex_doubled q (replace_char q [q, q] s @ q # r) = Some (s, r)"
  by (induction s) (auto simp: lex_doubled_other)

lemma lex_mysql_quote: "follows (CHR 0x27) r \<Longrightarrow> lex_mysql_body (CHR 0x27 # r) = Some ([], r)"
  by (cases r) auto

lemma lex_mysql_other:
  "c \<noteq> CHR 0x27 \<Longrightarrow> c \<noteq> CHR 0x5C \<Longrightarrow> t \<noteq> [] \<Longrightarrow>
     lex_mysql_body (c # t) = map_option (apfst (Cons c)) (lex_mysql_body t)"
  by (cases t) auto

subsection \<open>Identifiers and values (utils/sqlExport.ts)\<close>

definition escapeSqlIdentifier :: "string \<Rightarrow> sql_dialect \<Rightarrow> string" where
  "escapeSqlIdentifier name dialect =
     (if name = [] then []
      else if dialect = MysqlD then ''`'' @ replace_char (CHR ''`'') ''``'' name @ ''`''
      else [CHR 0x22] @ replace_char (CHR 0x22) [CHR 0x22, CHR 0x22] name @ [CHR 0x22])"

text \<open>
  A cell value: a number is \<open>NaN\<close>, infinite, or the text \<open>String(n)\<close> of a finite one; a draft is
  the object \<open>{ value, isNull }\<close>; any other object comes with what \<open>JSON.stringify\<close> does on it.
\<close>

datatype js_num = NaN | Infinite | Finite string

datatype json_result = JsonText string | JsonUndefined | JsonThrows string \<comment> \<open>and \<open>String(val)\<close>\<close>

datatype sql_val =
    VNull
  | VUndef
  | VNum js_num
  | VBool bool
  | VStr string
  | VDraft sql_val bool
  | VObj json_result

definition sql_string :: "string \<Rightarrow> sql_dialect \<Rightarrow> string" where
  "sql_string str dialect =
     (if dialect = MysqlD
      then [CHR 0x27] @ replace_char (CHR 0x27) [CHR 0x5C, CHR 0x27]
             (replace_char (CHR 0x5C) [CHR 0x5C, CHR 0x5C] str) @ [CHR 0x27]
      else [CHR 0x27] @ replace_char (CHR 0x27) [CHR 0x27, CHR 0x27] str @ [CHR 0x27])"

fun formatSqlValue :: "sql_val \<Rightarrow> sql_dialect \<Rightarrow> string" where
  "formatSqlValue VNull dialect = ''NULL''"
| "formatSqlValue VUndef dialect = ''NULL''"
| "formatSqlValue (VDraft v isNull) dialect = (if isNull then ''NULL'' else formatSqlValue v dialect)"
| "formatSqlValue (VNum n) dialect = (case n of Finite t \<Rightarrow> t | _ \<Rightarrow> ''NULL'')"
| "formatSqlValue (VBool b) dialect =
     (if dialect = MysqlD then (if b then ''1'' else ''0'') else if b then ''TRUE'' else ''FALSE'')"
| "formatSqlValue (VObj j) dialect =
     (case j of JsonText t \<Rightarrow> sql_string t dialect | JsonUndefined \<Rightarrow> ''NULL''
      | JsonThrows t \<Rightarrow> sql_string t dialect)"
| "formatSqlValue (VStr s) dialect = sql_string s dialect"

definition buildInsertSql ::
  "sql_dialect \<Rightarrow> string \<Rightarrow> string list \<Rightarrow> (string \<Rightarrow> sql_val) \<Rightarrow> string" where
  "buildInsertSql dialect table columns rowData =
     ''INSERT INTO '' @ escapeSqlIdentifier table dialect @ '' ('' @
     join '', '' (map (\<lambda>c. escapeSqlIdentifier c dialect) columns) @ '')'' @ [CHR 0x0A] @ ''VALUES ('' @
     join '', '' (map (\<lambda>c. formatSqlValue (rowData c) dialect) columns) @ '');''"

definition assignment_text :: "sql_dialect \<Rightarrow> (string \<Rightarrow> sql_val) \<Rightarrow> string \<Rightarrow> string" where
  "assignment_text dialect rowData c =
     escapeSqlIdentifier c dialect @ '' = '' @ formatSqlValue (rowData c) dialect"

definition condition_text :: "sql_dialect \<Rightarrow> (string \<Rightarrow> sql_val) \<Rightarrow> string \<Rightarrow> string" where
  "condition_text dialect rowData pk =
     (if rowData pk = VNull \<or> rowData pk = VUndef
      then escapeSqlIdentifier pk dialect @ '' IS NULL''
      else escapeSqlIdentifier pk dialect @ '' = '' @ formatSqlValue (rowData pk) dialect)"

definition update_set_columns :: "string list \<Rightarrow> string list \<Rightarrow> string list" where
  "update_set_columns columns pkList =
     (let setCols = filter (\<lambda>c. c \<notin> set pkList) columns in if setCols \<noteq> [] then setCols else columns)"

definition update_where_columns :: "string list \<Rightarrow> string list \<Rightarrow> string list" where
  "update_where_columns columns pkList = (if pkList \<noteq> [] then pkList else columns)"

definition buildUpdateSql ::
  "sql_dialect \<Rightarrow> string \<Rightarrow> string list \<Rightarrow> (string \<Rightarrow> sql_val) \<Rightarrow> string list \<Rightarrow> string" where
  "buildUpdateSql dialect table columns rowData pkList =
     ''UPDATE '' @ escapeSqlIdentifier table dialect @ [CHR 0x0A] @ ''SET '' @
     join '', '' (map (assignment_text dialect rowData) (update_set_columns columns pkList)) @
     [CHR 0x0A] @ ''WHERE '' @
     join '' AND '' (map (condition_text dialect rowData) (update_where_columns columns pkList)) @ '';''"

subsection \<open>The quoting functions against their lexers\<close>

definition ident_quote :: "sql_dialect \<Rightarrow> char" where
  "ident_quote d = (if d = MysqlD then CHR ''`'' else CHR 0x22)"

definition lex_ident :: "sql_dialect \<Rightarrow> string \<Rightarrow> (string \<times> string) option" where
  "lex_ident d = lex_quoted (ident_quote d)"

definition lex_string :: "sql_dialect \<Rightarrow> string \<Rightarrow> (string \<times> string) option" where
  "lex_string d = (if d = MysqlD then lex_mysql_string else lex_quoted (CHR 0x27))"

lemma mysql_body_quote:
  "follows (CHR 0x27) r \<Longrightarrow>
     lex_mysql_body (replace_char (CHR 0x27) [CHR 0x5C, CHR 0x27]
       (replace_char (CHR 0x5C) [CHR 0x5C, CHR 0x5C] s) @ CHR 0x27 # r) = Some (s, r)"
  by (induction s) (auto simp: lex_mysql_other lex_mysql_quote)

lemma lex_ident_escape:
  "s \<noteq> [] \<Longrightarrow> follows (ident_quote d) r \<Longrightarrow> lex_ident d (escapeSqlIdentifier s d @ r) = Some (s, r)"
  by (cases "d = MysqlD")
    (simp_all add: lex_ident_def lex_quoted_def ident_quote_def escapeSqlIdentifier_def lex_doubled_quote)

lemma lex_string_sql:
  "follows (CHR 0x27) r \<Longrightarrow> lex_string d (sql_string s d @ r) = Some (s, r)"
  by (cases "d = MysqlD")
    (simp_all add: lex_string_def lex_quoted_def lex_mysql_string_def sql_string_def
      lex_doubled_quote mysql_body_quote)

interpretation mysql_string: quoted_token "\<lambda>s. sql_string s MysqlD" "lex_string MysqlD" "CHR 0x27"
  by unfold_locales (rule lex_string_sql)

interpretation ansi_string: quoted_token "\<lambda>s. sql_string s PostgresD" "lex_string PostgresD" "CHR 0x27"
  by unfold_locales (rule lex_string_sql)

subsection \<open>Reading statements back\<close>

fun read_seq :: "(string \<Rightarrow> ('a \<times> string) option) \<Rightarrow> string \<Rightarrow> nat \<Rightarrow> string \<Rightarrow>
    ('a list \<times> string) option" where
  \<comment> \<open>one or more elements with \<open>sep\<close> between them; every round but the last consumes a separator,
      so the length of the input is enough fuel\<close>
  "read_seq rd sep 0 s = None"
| "read_seq rd sep (Suc n) s =
     Option.bind (rd s) (\<lambda>(x, r).
       if prefix sep r
       then map_option (apfst (Cons x)) (read_seq rd sep n (drop (length sep) r))
       else Some ([x], r))"

definition read_list ::
  "(string \<Rightarrow> ('a \<times> string) option) \<Rightarrow> string \<Rightarrow> string \<Rightarrow> ('a list \<times> string) option" where
  "read_list rd sep s = read_seq rd sep (Suc (length s)) s"

definition expect :: "string \<Rightarrow> string \<Rightarrow> string option" where
  "expect p s = (if prefix p s then Some (drop (length p) s) else None)"

lemma expect_append [simp]: "expect p (p @ s) = Some s"
  by (simp add: expect_def)

text \<open>An element of a statement: how it is printed, what it means, and the text that may follow.\<close>

locale element =
  fixes render :: "'x \<Rightarrow> string"
    and rd :: "string \<Rightarrow> ('y \<times> string) option"
    and meaning :: "'x \<Rightarrow> 'y"
    and wf :: "'x \<Rightarrow> bool"
    and fol :: "string \<Rightarrow> bool"
  assumes rd_render: "wf x \<Longrightarrow> fol r \<Longrightarrow> rd (render x @ r) = Some (meaning x, r)"
begin

lemma read_seq_join:
  assumes "xs \<noteq> []" and "\<And>x. x \<in> set xs \<Longrightarrow> wf x" and "\<And>t. fol (sep @ t)"
    and "fol r" and "\<not> prefix sep r" and "length xs \<le> n"
  shows "read_seq rd sep n (join sep (map render xs) @ r) = Some (map meaning xs, r)"
  using assms
proof (induction xs arbitrary: n)
  case (Cons x xs)
  then obtain m where m: "n = Suc m" by (cases n) auto
  have wf: "wf x" using Cons.prems(2) by simp
  show ?case
  proof (cases xs)
    case Nil
    then show ?thesis using Cons.prems wf m by (simp add: rd_render)
  next
    case (Cons y ys)
    have "rd (render x @ sep @ join sep (map render xs) @ r) =
        Some (meaning x, sep @ join sep (map render xs) @ r)"
      using wf Cons.prems(3) by (rule rd_render)
    moreover have "read_seq rd sep m (join sep (map render xs) @ r) = Some (map meaning xs, r)"
      using Cons.prems Cons m by (intro Cons.IH) auto
    ultimately show ?thesis using Cons by (simp add: m join_Cons)
  qed
qed simp

lemma length_join: "sep \<noteq> [] \<Longrightarrow> length xs \<le> Suc (length (join sep (map render xs)))"
proof (induction xs)
  case (Cons x xs)
  obtain c t where "sep = c # t" using Cons.prems by (cases sep) auto
  with Cons show ?case by (cases xs) (auto simp: join_Cons)
qed simp

lemma read_list_join:
  assumes "xs \<noteq> []" and "\<And>x. x \<in> set xs \<Longrightarrow> wf x" and "\<And>t. fol (sep @ t)"
    and "fol r" and "\<not> prefix sep r" and "sep \<noteq> []"
  shows "read_list rd sep (join sep (map render xs) @ r) = Some (map meaning xs, r)"
  unfolding read_list_def using assms length_join [of sep xs]
  by (intro read_seq_join) auto

end

text \<open>A value in a statement is a string literal or a bare token.\<close>

datatype literal = Quoted string | Token string

definition terminators :: string where
  "terminators = [CHR '','', CHR '')'', CHR '' '', CHR '';'', CHR 0x0A]"

definition read_value :: "sql_dialect \<Rightarrow> string \<Rightarrow> (literal \<times> string) option" where
  "read_value d s =
     (if prefix [CHR 0x27] s then map_option (apfst Quoted) (lex_string d s)
      else let t = takeWhile (\<lambda>c. c \<notin> set terminators) s in
        if t = [] then None else Some (Token t, drop (length t) s))"

fun value_literal :: "sql_dialect \<Rightarrow> sql_val \<Rightarrow> literal" where
  \<comment> \<open>the literal a value is meant to be written as\<close>
  "value_literal d VNull = Token ''NULL''"
| "value_literal d VUndef = Token ''NULL''"
| "value_literal d (VNum (Finite t)) = Token t"
| "value_literal d (VNum _) = Token ''NULL''"
| "value_literal d (VBool b) =
     Token (if d = MysqlD then (if b then ''1'' else ''0'') else if b then ''TRUE'' else ''FALSE'')"
| "value_literal d (VStr s) = Quoted s"
| "value_literal d (VDraft v isNull) = (if isNull then Token ''NULL'' else value_literal d v)"
| "value_literal d (VObj (JsonText t)) = Quoted t"
| "value_literal d (VObj JsonUndefined) = Token ''NULL''"
| "value_literal d (VObj (JsonThrows t)) = Quoted t"

definition number_text :: "string \<Rightarrow> bool" where
  \<comment> \<open>what \<open>String(n)\<close> of a finite number is made of\<close>
  "number_text t \<longleftrightarrow> t \<noteq> [] \<and> list_all (\<lambda>c. c \<in> set ''0123456789+-.e'') t"

fun wf_value :: "sql_val \<Rightarrow> bool" where
  "wf_value (VNum (Finite t)) = number_text t"
| "wf_value (VDraft v isNull) = (isNull \<or> wf_value v)"
| "wf_value _ = True"

definition value_follows :: "string \<Rightarrow> bool" where
  "value_follows r \<longleftrightarrow> (case r of [] \<Rightarrow> True | c # _ \<Rightarrow> c \<in> set terminators)"

lemma value_follows_quote: "value_follows r \<Longrightarrow> follows (CHR 0x27) r"
  by (auto simp: value_follows_def follows_def terminators_def split: list.splits)

lemma take_token:
  assumes "t \<noteq> []" and "\<forall>c\<in>set t. c \<notin> set terminators \<and> c \<noteq> CHR 0x27" and "value_follows r"
  shows "read_value d (t @ r) = Some (Token t, r)"
proof -
  have "takeWhile (\<lambda>c. c \<notin> set terminators) (t @ r) = t"
    using assms by (cases r) (auto simp: value_follows_def takeWhile_tail)
  moreover have "\<not> prefix [CHR 0x27] (t @ r)" using assms(1,2) by (cases t) auto
  ultimately show ?thesis using assms(1) by (simp add: read_value_def)
qed

lemma read_quoted:
  "value_follows r \<Longrightarrow> read_value d (sql_string s d @ r) = Some (Quoted s, r)"
  using lex_string_sql [OF value_follows_quote, of r d s]
  by (simp add: read_value_def) (simp add: sql_string_def)

lemma number_text_token:
  "number_text t \<Longrightarrow> \<forall>c\<in>set t. c \<notin> set terminators \<and> c \<noteq> CHR 0x27"
  by (fastforce simp: number_text_def terminators_def list_all_iff)

lemma read_keyword:
  assumes "t \<in> {''NULL'', ''TRUE'', ''FALSE'', ''1'', ''0''}" and "value_follows r"
  shows "read_value d (t @ r) = Some (Token t, r)"
  using assms by (intro take_token) (auto simp: terminators_def)

lemma format_keyword_or_literal:
  "value_literal d v = Token (formatSqlValue v d) \<or>
     (\<exists>s. value_literal d v = Quoted s \<and> formatSqlValue v d = sql_string s d)"
  by (induction d v rule: value_literal.induct) auto

lemma format_token:
  "wf_value v \<Longrightarrow> value_literal d v = Token t \<Longrightarrow>
     t \<in> {''NULL'', ''TRUE'', ''FALSE'', ''1'', ''0''} \<or> number_text t"
  by (induction d v rule: value_literal.induct) (auto split: if_splits)

lemma read_value_format:
  assumes "wf_value v" and "value_follows r"
  shows "read_value d (formatSqlValue v d @ r) = Some (value_literal d v, r)"
  using format_keyword_or_literal [of d v]
proof (elim disjE exE conjE)
  assume tok: "value_literal d v = Token (formatSqlValue v d)"
  from format_token [OF assms(1) this] show ?thesis
  proof
    assume "number_text (formatSqlValue v d)"
    then show ?thesis
      using take_token [OF _ number_text_token assms(2)] tok by (auto simp: number_text_def)
  qed (use tok read_keyword [OF _ assms(2)] in auto)
qed (use read_quoted [OF assms(2)] in auto)

interpretation ident: element
  "\<lambda>s. escapeSqlIdentifier s d" "lex_ident d" "\<lambda>s. s" "\<lambda>s. s \<noteq> []" "follows (ident_quote d)" for d
  by unfold_locales (rule lex_ident_escape)

interpretation value_text: element
  "\<lambda>v. formatSqlValue v d" "read_value d" "value_literal d" wf_value value_follows for d
  by unfold_locales (rule read_value_format)

definition read_insert ::
  "sql_dialect \<Rightarrow> string \<Rightarrow> (string \<times> string list \<times> literal list) option" where
  "read_insert d s = do {
     s \<leftarrow> expect ''INSERT INTO '' s;
     (table, s) \<leftarrow> lex_ident d s;
     s \<leftarrow> expect '' ('' s;
     (columns, s) \<leftarrow> read_list (lex_ident d) '', '' s;
     s \<leftarrow> expect ('')'' @ [CHR 0x0A] @ ''VALUES ('') s;
     (vals, s) \<leftarrow> read_list (read_value d) '', '' s;
     s \<leftarrow> expect '');'' s;
     if s = [] then Some (table, columns, vals) else None }"

lemma expect_Cons [simp]: "expect (c # p) (c # s) = expect p s"
  by (simp add: expect_def)

lemma expect_Nil [simp]: "expect [] s = Some s"
  by (simp add: expect_def)

lemma value_follows_Cons [simp]: "value_follows (c # s) \<longleftrightarrow> c \<in> set terminators"
  by (simp add: value_follows_def)

lemma ident_quote_neq [simp]:
  "ident_quote d \<noteq> CHR '' ''" "ident_quote d \<noteq> CHR '',''" "ident_quote d \<noteq> CHR '')''"
  "ident_quote d \<noteq> CHR 0x0A" "ident_quote d \<noteq> CHR '':''"
  by (simp_all add: ident_quote_def)

lemmas ident_quote_neq' [simp] = ident_quote_neq [symmetric]

lemma read_columns:
  assumes "columns \<noteq> []" and "[] \<notin> set columns"
  shows "read_list (lex_ident d) '', '' (join '', '' (map (\<lambda>c. escapeSqlIdentifier c d) columns) @ CHR '')'' # r) =
    Some (columns, CHR '')'' # r)"
  using assms ident.read_list_join [where xs = columns and sep = "'', ''" and d = d and r = "CHR '')'' # r"] by force

lemma read_values:
  assumes "columns \<noteq> []" and "\<forall>c\<in>set columns. wf_value (row c)"
  shows "read_list (read_value d) '', '' (join '', '' (map (\<lambda>c. formatSqlValue (row c) d) columns) @ CHR '')'' # r) =
    Some (map (\<lambda>c. value_literal d (row c)) columns, CHR '')'' # r)"
  using assms value_text.read_list_join
    [where xs = "map row columns" and sep = "'', ''" and d = d and r = "CHR '')'' # r"]
  by (auto simp: comp_def terminators_def)

text \<open>
  C22: the INSERT statement built for a row reads back as exactly the table, the columns and one
  literal per column: no name, number, text or JSON value can end its token early or change the
  number of values, in any of the three dialects.
\<close>

theorem insert_reads_back:
  assumes "table \<noteq> []" and "columns \<noteq> []" and "[] \<notin> set columns"
    and "\<forall>c\<in>set columns. wf_value (rowData c)"
  shows "read_insert d (buildInsertSql d table columns rowData) =
    Some (table, columns, map (\<lambda>c. value_literal d (rowData c)) columns)"
  using assms
  by (simp add: read_insert_def buildInsertSql_def lex_ident_escape read_columns read_values)

theorem insert_reads_back_witness:
  "read_insert PostgresD
     (buildInsertSql PostgresD ''t'' [''id'', ''note'']
       ((\<lambda>_. VNull)(''id'' := VNum (Finite ''1''), ''note'' := VStr [CHR 0x27, CHR '')'']))) =
   Some (''t'', [''id'', ''note''], [Token ''1'', Quoted [CHR 0x27, CHR '')'']])"
  by (subst insert_reads_back) (simp_all add: number_text_def)

definition read_assignment :: "sql_dialect \<Rightarrow> string \<Rightarrow> ((string \<times> literal) \<times> string) option" where
  "read_assignment d s = do {
     (c, s) \<leftarrow> lex_ident d s;
     s \<leftarrow> expect '' = '' s;
     (v, s) \<leftarrow> read_value d s;
     Some ((c, v), s) }"

definition read_condition :: "sql_dialect \<Rightarrow> string \<Rightarrow> ((string \<times> literal option) \<times> string) option" where
  "read_condition d s = do {
     (c, s) \<leftarrow> lex_ident d s;
     if prefix '' IS NULL'' s then Some ((c, None), drop 8 s)
     else do { s \<leftarrow> expect '' = '' s; (v, s) \<leftarrow> read_value d s; Some ((c, Some v), s) } }"

definition read_update ::
  "sql_dialect \<Rightarrow> string \<Rightarrow> (string \<times> (string \<times> literal) list \<times> (string \<times> literal option) list) option" where
  "read_update d s = do {
     s \<leftarrow> expect ''UPDATE '' s;
     (table, s) \<leftarrow> lex_ident d s;
     s \<leftarrow> expect ([CHR 0x0A] @ ''SET '') s;
     (sets, s) \<leftarrow> read_list (read_assignment d) '', '' s;
     s \<leftarrow> expect ([CHR 0x0A] @ ''WHERE '') s;
     (conds, s) \<leftarrow> read_list (read_condition d) '' AND '' s;
     s \<leftarrow> expect '';'' s;
     if s = [] then Some (table, sets, conds) else None }"

definition row_condition :: "sql_dialect \<Rightarrow> (string \<Rightarrow> sql_val) \<Rightarrow> string \<Rightarrow> string \<times> literal option" where
  \<comment> \<open>a column compared with its old value, or tested for NULL when the row has none\<close>
  "row_condition d row c =
     (c, if row c = VNull \<or> row c = VUndef then None else Some (value_literal d (row c)))"

definition wf_cell :: "(string \<Rightarrow> sql_val) \<Rightarrow> string \<Rightarrow> bool" where
  "wf_cell row c \<longleftrightarrow> c \<noteq> [] \<and> wf_value (row c)"

interpretation assignment: element
  "assignment_text d row" "read_assignment d" "\<lambda>c. (c, value_literal d (row c))" "wf_cell row"
  value_follows for d row
  by unfold_locales
    (simp add: wf_cell_def read_assignment_def assignment_text_def lex_ident_escape read_value_format)

interpretation condition: element
  "condition_text d row" "read_condition d" "row_condition d row" "wf_cell row"
  value_follows for d row
  by unfold_locales
    (auto simp: wf_cell_def read_condition_def condition_text_def row_condition_def lex_ident_escape
      read_value_format)

lemma update_columns_nonempty:
  "columns \<noteq> [] \<Longrightarrow> update_set_columns columns pkList \<noteq> []"
  "columns \<noteq> [] \<Longrightarrow> update_where_columns columns pkList \<noteq> []"
  "set (update_set_columns columns pkList) \<subseteq> set columns"
  "set (update_where_columns columns pkList) \<subseteq> set columns \<union> set pkList"
  by (auto simp: update_set_columns_def update_where_columns_def Let_def)

lemma read_sets:
  assumes "columns \<noteq> []" and "\<forall>c\<in>set columns. wf_cell row c"
  shows "read_list (read_assignment d) '', '' (join '', '' (map (assignment_text d row) columns) @ CHR 0x0A # r) =
    Some (map (\<lambda>c. (c, value_literal d (row c))) columns, CHR 0x0A # r)"
  using assms assignment.read_list_join
    [where xs = columns and sep = "'', ''" and d = d and row = row and r = "CHR 0x0A # r"]
  by (simp add: terminators_def)

lemma read_conditions:
  assumes "columns \<noteq> []" and "\<forall>c\<in>set columns. wf_cell row c"
  shows "read_list (read_condition d) '' AND '' (join '' AND '' (map (condition_text d row) columns) @ CHR '';'' # r) =
    Some (map (row_condition d row) columns, CHR '';'' # r)"
  using assms condition.read_list_join
    [where xs = columns and sep = "'' AND ''" and d = d and row = row and r = "CHR '';'' # r"]
  by (simp add: terminators_def)

text \<open>
  C23: the UPDATE statement built for a row reads back as an update of exactly the table that sets
  every column outside the primary key to its value (every column when all are key columns) and is guarded by one condition per key
  column (per column when the table has no key), so the statement cannot lose its WHERE clause
  whatever the cells contain.
\<close>

theorem update_reads_back:
  assumes "table \<noteq> []" and "columns \<noteq> []"
    and "\<forall>c\<in>set columns \<union> set pkList. c \<noteq> [] \<and> wf_value (rowData c)"
  shows "read_update d (buildUpdateSql d table columns rowData pkList) =
    Some (table,
      map (\<lambda>c. (c, value_literal d (rowData c)))
        (if set columns \<subseteq> set pkList then columns else [c \<leftarrow> columns. c \<notin> set pkList]),
      map (row_condition d rowData) (if pkList = [] then columns else pkList))"
proof -
  have cols: "update_set_columns columns pkList = (if set columns \<subseteq> set pkList then columns else [c \<leftarrow> columns. c \<notin> set pkList])"
    "update_where_columns columns pkList = (if pkList = [] then columns else pkList)"
    by (auto simp: update_set_columns_def update_where_columns_def Let_def filter_empty_conv)
  have wf: "\<And>c. c \<in> set columns \<or> c \<in> set pkList \<Longrightarrow> wf_cell rowData c"
    using assms(3) by (simp add: wf_cell_def)
  have "\<forall>c\<in>set (update_set_columns columns pkList). wf_cell rowData c"
    "\<forall>c\<in>set (update_where_columns columns pkList). wf_cell rowData c"
    using update_columns_nonempty(3) [of columns pkList] update_columns_nonempty(4) [of columns pkList] wf
    by (meson subsetD UnE)+
  with assms(1,2) show ?thesis unfolding cols [symmetric]
    by (simp add: read_update_def buildUpdateSql_def lex_ident_escape read_sets read_conditions
        update_columns_nonempty)
qed

theorem update_reads_back_witness:
  "read_update MysqlD
     (buildUpdateSql MysqlD ''t'' [''id'', ''v''] ((\<lambda>_. VNull)(''v'' := VStr [CHR 0x5C, CHR 0x27])) [''id'']) =
   Some (''t'', [(''v'', Quoted [CHR 0x5C, CHR 0x27])], [(''id'', None)])"
  by (subst update_reads_back)
    (simp_all add: row_condition_def)

end
