(* ===== verification/SqlFilter.thy ===== *)
theory SqlFilter
  imports SqlText
begin

section \<open>Column filters: the WHERE clause of the data grids\<close>

text \<open>
  The filter operators and the three WHERE builders: PostgreSQL and MySQL of
  \<open>components/ColumnFilterPopover.tsx\<close>, SQLite of \<open>components/db/adapters/sqliteAdapter.ts\<close>. A
  comparison writes a numeric value bare and any other value as a literal, so the theory has the
  exact grammar \<open>Number(\<dots>)\<close> accepts. The specification side reads a part back with the lexers of
  \<open>SqlText\<close> and a lexer of SQL's numeric literals, and gives \<open>LIKE\<close> its meaning.
\<close>

subsection \<open>Number(text)\<close>

definition is_digit :: "char \<Rightarrow> bool" where
  "is_digit c \<longleftrightarrow> c \<in> set ''0123456789''"

definition is_hex_digit :: "char \<Rightarrow> bool" where
  "is_hex_digit c \<longleftrightarrow> c \<in> set ''0123456789abcdefABCDEF''"

definition digits1 :: "string \<Rightarrow> bool" where
  "digits1 s \<longleftrightarrow> s \<noteq> [] \<and> list_all is_digit s"

definition drop_sign :: "string \<Rightarrow> string" where
  "drop_sign s = (case s of c # t \<Rightarrow> if c = CHR ''+'' \<or> c = CHR ''-'' then t else s | [] \<Rightarrow> [])"

definition exponent_ok :: "string \<Rightarrow> bool" where
  "exponent_ok s \<longleftrightarrow>
     (case s of [] \<Rightarrow> True | c # t \<Rightarrow> (c = CHR ''e'' \<or> c = CHR ''E'') \<and> digits1 (drop_sign t))"

definition decimal_ok :: "string \<Rightarrow> bool" where
  \<comment> \<open>\<open>StrUnsignedDecimalLiteral\<close>: digits, an optional fraction and an optional exponent\<close>
  "decimal_ok s \<longleftrightarrow>
     (let ip = takeWhile is_digit s; r = dropWhile is_digit s in
      case r of
        [] \<Rightarrow> ip \<noteq> []
      | c # t \<Rightarrow>
          if c = CHR ''.''
          then (ip \<noteq> [] \<or> takeWhile is_digit t \<noteq> []) \<and> exponent_ok (dropWhile is_digit t)
          else ip \<noteq> [] \<and> exponent_ok r)"

definition radix_ok :: "string \<Rightarrow> bool" where
  \<comment> \<open>\<open>0x\<close>, \<open>0o\<close> and \<open>0b\<close> literals\<close>
  "radix_ok s \<longleftrightarrow>
     (case s of
        z # p # ds \<Rightarrow>
          z = CHR ''0'' \<and> ds \<noteq> [] \<and>
          ((p \<in> set ''xX'' \<and> list_all is_hex_digit ds) \<or>
           (p \<in> set ''oO'' \<and> list_all (\<lambda>c. c \<in> set ''01234567'') ds) \<or>
           (p \<in> set ''bB'' \<and> list_all (\<lambda>c. c \<in> set ''01'') ds))
      | _ \<Rightarrow> False)"

definition number_of_text_ok :: "string \<Rightarrow> bool" where
  \<comment> \<open>\<open>!isNaN(Number(s))\<close> for trimmed non-empty \<open>s\<close>\<close>
  "number_of_text_ok s \<longleftrightarrow> radix_ok s \<or> drop_sign s = ''Infinity'' \<or> decimal_ok (drop_sign s)"

definition isNumeric :: "string \<Rightarrow> bool" where
  "isNumeric val \<longleftrightarrow> trim val \<noteq> [] \<and> number_of_text_ok (trim val)"

subsection \<open>The builders\<close>

datatype filter_op =
    Contains | NotContains | Equals | NotEquals | StartsWith | EndsWith
  | Gt | Gte | Lt | Lte | IsNull | IsNotNull

record column_filter =
  cf_op :: filter_op
  cf_value :: string

definition quoted :: "string \<Rightarrow> string" where
  \<comment> \<open>the quotes of a SQL literal around a text that is already escaped\<close>
  "quoted s = CHR 0x27 # s @ [CHR 0x27]"

definition pgFilterPart :: "string \<Rightarrow> column_filter \<Rightarrow> string" where
  "pgFilterPart col f =
     (let escapedCol = [CHR 0x22] @ replace_char (CHR 0x22) [CHR 0x22, CHR 0x22] col @ [CHR 0x22];
          val = replace_char (CHR 0x27) [CHR 0x27, CHR 0x27] (cf_value f);
          operand = (if isNumeric (cf_value f) then cf_value f else quoted val)
      in case cf_op f of
        Contains \<Rightarrow> escapedCol @ ''::text ILIKE '' @ quoted (''%'' @ val @ ''%'')
      | NotContains \<Rightarrow> escapedCol @ ''::text NOT ILIKE '' @ quoted (''%'' @ val @ ''%'')
      | StartsWith \<Rightarrow> escapedCol @ ''::text ILIKE '' @ quoted (val @ ''%'')
      | EndsWith \<Rightarrow> escapedCol @ ''::text ILIKE '' @ quoted (''%'' @ val)
      | Equals \<Rightarrow> escapedCol @ ''::text = '' @ quoted val
      | NotEquals \<Rightarrow> escapedCol @ ''::text != '' @ quoted val
      | Gt \<Rightarrow> escapedCol @ '' > '' @ operand
      | Gte \<Rightarrow> escapedCol @ '' >= '' @ operand
      | Lt \<Rightarrow> escapedCol @ '' < '' @ operand
      | Lte \<Rightarrow> escapedCol @ '' <= '' @ operand
      | IsNull \<Rightarrow> escapedCol @ '' IS NULL''
      | IsNotNull \<Rightarrow> escapedCol @ '' IS NOT NULL'')"

definition mysqlFilterPart :: "string \<Rightarrow> column_filter \<Rightarrow> string" where
  "mysqlFilterPart col f =
     (let escapedCol = ''`'' @ replace_char (CHR ''`'') ''``'' col @ ''`'';
          val = replace_char (CHR 0x5C) [CHR 0x5C, CHR 0x5C]
                  (replace_char (CHR 0x27) [CHR 0x27, CHR 0x27] (cf_value f));
          operand = (if isNumeric (cf_value f) then cf_value f else quoted val)
      in case cf_op f of
        Contains \<Rightarrow> ''CAST('' @ escapedCol @ '' AS CHAR) LIKE '' @ quoted (''%'' @ val @ ''%'')
      | NotContains \<Rightarrow> ''CAST('' @ escapedCol @ '' AS CHAR) NOT LIKE '' @ quoted (''%'' @ val @ ''%'')
      | StartsWith \<Rightarrow> ''CAST('' @ escapedCol @ '' AS CHAR) LIKE '' @ quoted (val @ ''%'')
      | EndsWith \<Rightarrow> ''CAST('' @ escapedCol @ '' AS CHAR) LIKE '' @ quoted (''%'' @ val)
      | Equals \<Rightarrow> escapedCol @ '' = '' @ quoted val
      | NotEquals \<Rightarrow> escapedCol @ '' != '' @ quoted val
      | Gt \<Rightarrow> escapedCol @ '' > '' @ operand
      | Gte \<Rightarrow> escapedCol @ '' >= '' @ operand
      | Lt \<Rightarrow> escapedCol @ '' < '' @ operand
      | Lte \<Rightarrow> escapedCol @ '' <= '' @ operand
      | IsNull \<Rightarrow> escapedCol @ '' IS NULL''
      | IsNotNull \<Rightarrow> escapedCol @ '' IS NOT NULL'')"

definition sqliteFilterPart :: "string \<Rightarrow> column_filter \<Rightarrow> string" where
  "sqliteFilterPart col f =
     (let escapedCol = [CHR 0x22] @ replace_char (CHR 0x22) [CHR 0x22, CHR 0x22] col @ [CHR 0x22];
          val = replace_char (CHR 0x27) [CHR 0x27, CHR 0x27] (cf_value f);
          operand = (if isNumeric (cf_value f) then cf_value f else quoted val)
      in case cf_op f of
        Contains \<Rightarrow> ''CAST('' @ escapedCol @ '' AS TEXT) LIKE '' @ quoted (''%'' @ val @ ''%'')
      | NotContains \<Rightarrow> ''CAST('' @ escapedCol @ '' AS TEXT) NOT LIKE '' @ quoted (''%'' @ val @ ''%'')
      | StartsWith \<Rightarrow> ''CAST('' @ escapedCol @ '' AS TEXT) LIKE '' @ quoted (val @ ''%'')
      | EndsWith \<Rightarrow> ''CAST('' @ escapedCol @ '' AS TEXT) LIKE '' @ quoted (''%'' @ val)
      | Equals \<Rightarrow> escapedCol @ '' = '' @ quoted val
      | NotEquals \<Rightarrow> escapedCol @ '' != '' @ quoted val
      | Gt \<Rightarrow> escapedCol @ '' > '' @ operand
      | Gte \<Rightarrow> escapedCol @ '' >= '' @ operand
      | Lt \<Rightarrow> escapedCol @ '' < '' @ operand
      | Lte \<Rightarrow> escapedCol @ '' <= '' @ operand
      | IsNull \<Rightarrow> escapedCol @ '' IS NULL''
      | IsNotNull \<Rightarrow> escapedCol @ '' IS NOT NULL'')"

type_synonym filters = "(string \<times> column_filter option) list"
  \<comment> \<open>\<open>Object.entries(filters)\<close>; a removed filter is undefined\<close>

definition present :: "filters \<Rightarrow> (string \<times> column_filter) list" where
  "present fs = List.map_filter (\<lambda>(c, f). map_option (Pair c) f) fs"

definition buildPgWhereClause :: "filters \<Rightarrow> string" where
  "buildPgWhereClause fs = join '' AND '' (map (\<lambda>(c, f). pgFilterPart c f) (present fs))"

definition buildMysqlWhereClause :: "filters \<Rightarrow> string" where
  "buildMysqlWhereClause fs = join '' AND '' (map (\<lambda>(c, f). mysqlFilterPart c f) (present fs))"

definition buildSqliteWhereClause :: "filters \<Rightarrow> string" where
  "buildSqliteWhereClause fs = join '' AND '' (map (\<lambda>(c, f). sqliteFilterPart c f) (present fs))"

definition op_key :: "filter_op \<Rightarrow> string" where
  "op_key p = (case p of Contains \<Rightarrow> ''contains'' | NotContains \<Rightarrow> ''not_contains'' | Equals \<Rightarrow> ''equals''
     | NotEquals \<Rightarrow> ''not_equals'' | StartsWith \<Rightarrow> ''starts_with'' | EndsWith \<Rightarrow> ''ends_with''
     | Gt \<Rightarrow> ''gt'' | Gte \<Rightarrow> ''gte'' | Lt \<Rightarrow> ''lt'' | Lte \<Rightarrow> ''lte'' | IsNull \<Rightarrow> ''is_null''
     | IsNotNull \<Rightarrow> ''is_not_null'')"

definition getOpLabel :: "translator \<Rightarrow> filter_op \<Rightarrow> string" where
  \<comment> \<open>the default texts \<open>OP_LABELS\<close> are part of the translator\<close>
  "getOpLabel t p = t (''common:columnFilter.op.'' @ op_key p) []"

definition formatFilterLabel :: "translator \<Rightarrow> string \<Rightarrow> column_filter \<Rightarrow> string" where
  "formatFilterLabel t col f =
     (if cf_op f = IsNull then col @ '' '' @ getOpLabel t IsNull
      else if cf_op f = IsNotNull then col @ '' '' @ getOpLabel t IsNotNull
      else col @ '' '' @ getOpLabel t (cf_op f) @ '' '' @ quoted (cf_value f))"

subsection \<open>A bare value is only a number\<close>

definition number_chars :: string where
  "number_chars = ''0123456789abcdefABCDEFxXoOInity+-.''"

definition bare_chars :: string where
  \<comment> \<open>what a value that \<open>Number\<close> accepts consists of\<close>
  "bare_chars = number_chars @ concat js_white"

lemma drop_sign_cases: "s = drop_sign s \<or> (\<exists>c. c \<in> set ''+-'' \<and> s = c # drop_sign s)"
  by (cases s) (auto simp: drop_sign_def)

lemma number_chars_mem:
  "CHR ''+'' \<in> set number_chars" "CHR ''-'' \<in> set number_chars" "CHR ''.'' \<in> set number_chars"
  "CHR ''e'' \<in> set number_chars" "CHR ''E'' \<in> set number_chars" "CHR ''0'' \<in> set number_chars"
  "set ''Infinity'' \<subseteq> set number_chars" "set ''0123456789'' \<subseteq> set number_chars"
  "set ''0123456789abcdefABCDEF'' \<subseteq> set number_chars" "set ''xX'' \<subseteq> set number_chars"
  "set ''oO'' \<subseteq> set number_chars" "set ''bB'' \<subseteq> set number_chars"
  "set ''01234567'' \<subseteq> set number_chars" "set ''01'' \<subseteq> set number_chars"
  by (simp_all add: number_chars_def)

lemma digits_in: "list_all is_digit s \<Longrightarrow> set s \<subseteq> set number_chars"
  using number_chars_mem(8) unfolding list_all_iff is_digit_def by blast

lemma take_digits_in: "set (takeWhile is_digit s) \<subseteq> set number_chars"
  by (rule digits_in) (auto simp: list_all_iff dest: set_takeWhileD)

lemma sign_in: "set (drop_sign s) \<subseteq> set number_chars \<Longrightarrow> set s \<subseteq> set number_chars"
proof (cases s)
  case (Cons c t)
  then show "set (drop_sign s) \<subseteq> set number_chars \<Longrightarrow> set s \<subseteq> set number_chars"
    using number_chars_mem(1,2) by (auto simp: drop_sign_def split: if_splits)
qed simp

lemma exponent_in: "exponent_ok s \<Longrightarrow> set s \<subseteq> set number_chars"
proof (cases s)
  case (Cons c t)
  assume "exponent_ok s"
  with Cons have "c = CHR ''e'' \<or> c = CHR ''E''" "list_all is_digit (drop_sign t)"
    by (auto simp: exponent_ok_def digits1_def)
  then have "c \<in> set number_chars" "set t \<subseteq> set number_chars"
    using number_chars_mem(4,5) sign_in [OF digits_in] by blast+
  with Cons show ?thesis by simp
qed simp

lemma decimal_in: "decimal_ok s \<Longrightarrow> set s \<subseteq> set number_chars"
proof -
  assume ok: "decimal_ok s"
  have "set (dropWhile is_digit s) \<subseteq> set number_chars"
  proof (cases "dropWhile is_digit s")
    case (Cons c t)
    show ?thesis
    proof (cases "c = CHR ''.''")
      case True
      with ok Cons have "exponent_ok (dropWhile is_digit t)"
        by (simp add: decimal_ok_def Let_def)
      from exponent_in [OF this] have "set t \<subseteq> set number_chars"
        using take_digits_in [of t] arg_cong [OF takeWhile_dropWhile_id, of set is_digit t]
        by (metis Un_least set_append)
      with Cons True number_chars_mem(3) show ?thesis by simp
    next
      case False
      with ok Cons have "exponent_ok (dropWhile is_digit s)"
        by (simp add: decimal_ok_def Let_def)
      then show ?thesis by (rule exponent_in)
    qed
  next
    case Nil
    show ?thesis unfolding Nil by simp
  qed
  with take_digits_in [of s] show ?thesis
    by (metis Un_least set_append takeWhile_dropWhile_id)
qed

lemma all_in: "list_all (\<lambda>c. c \<in> A) s \<Longrightarrow> A \<subseteq> B \<Longrightarrow> set s \<subseteq> B"
  by (auto simp: list_all_iff)

lemma radix_in:
  assumes "radix_ok s"
  shows "set s \<subseteq> set number_chars"
proof -
  from assms obtain p ds where s: "s = CHR ''0'' # p # ds"
    unfolding radix_ok_def by (cases s; cases "tl s") auto
  note cases = assms [unfolded s radix_ok_def is_hex_digit_def list.case]
  have "p \<in> set number_chars \<and> set ds \<subseteq> set number_chars"
    using conjunct2 [OF conjunct2 [OF cases]]
  proof (elim disjE conjE)
    assume "p \<in> set ''xX''" "list_all (\<lambda>c. c \<in> set ''0123456789abcdefABCDEF'') ds"
    with all_in [OF _ number_chars_mem(9)] number_chars_mem(10) show ?thesis by (meson subsetD)
  next
    assume "p \<in> set ''oO''" "list_all (\<lambda>c. c \<in> set ''01234567'') ds"
    with all_in [OF _ number_chars_mem(13)] number_chars_mem(11) show ?thesis by (meson subsetD)
  next
    assume "p \<in> set ''bB''" "list_all (\<lambda>c. c \<in> set ''01'') ds"
    with all_in [OF _ number_chars_mem(14)] number_chars_mem(12) show ?thesis by (meson subsetD)
  qed
  with s number_chars_mem(6) show ?thesis by simp
qed

lemma isNumeric_chars: "isNumeric val \<Longrightarrow> set val \<subseteq> set bare_chars"
proof -
  assume "isNumeric val"
  then have "radix_ok (trim val) \<or> drop_sign (trim val) = ''Infinity'' \<or> decimal_ok (drop_sign (trim val))"
    by (simp add: isNumeric_def number_of_text_ok_def)
  then have "set (trim val) \<subseteq> set number_chars"
    using radix_in sign_in decimal_in number_chars_mem(7) by metis
  moreover have "set bare_chars = set number_chars \<union> \<Union> (set ` set js_white)"
    by (simp add: bare_chars_def)
  ultimately show ?thesis using set_trim_superset [of val] by blast
qed

lemma bare_chars_not:
  "CHR 0x27 \<notin> set bare_chars" "CHR ''N'' \<notin> set bare_chars" "CHR 0x22 \<notin> set bare_chars"
  "CHR '';'' \<notin> set bare_chars" "CHR ''('' \<notin> set bare_chars" "CHR '')'' \<notin> set bare_chars"
  "CHR ''/'' \<notin> set bare_chars" "CHR ''#'' \<notin> set bare_chars" "CHR '','' \<notin> set bare_chars"
  by (simp_all add: bare_chars_def number_chars_def js_white_def)

text \<open>
  Whatever \<open>Number\<close> accepts, what is written bare can open no literal, no quoted name and no comment, and cannot end the
  statement or call a function.
\<close>

lemma bare_value_is_harmless:
  "isNumeric val \<Longrightarrow> c \<in> set val \<Longrightarrow> c \<notin> set [CHR 0x27, CHR 0x22, CHR '';'', CHR ''('', CHR '')'', CHR ''/'', CHR ''#'', CHR '','']"
  using isNumeric_chars [of val] bare_chars_not by auto

subsection \<open>Numeric literals of SQL\<close>

text \<open>
  A numeric literal as the three dialects lex it: digits with an optional fraction, or a fraction with digits, and an optional
  exponent. A sign before it is read with it. The lexer is written from the dialects' grammar and takes the longest literal; it
  uses nothing of the code's own test above.
\<close>

definition sql_digit :: "char \<Rightarrow> bool" where
  "sql_digit c \<longleftrightarrow> c \<in> set ''0123456789''"

definition lex_sign :: "string \<Rightarrow> string \<times> string" where
  "lex_sign s = (case s of c # t \<Rightarrow> if c \<in> set ''+-'' then ([c], t) else ([], s) | [] \<Rightarrow> ([], []))"

definition lex_fraction :: "string \<Rightarrow> string \<times> string" where
  "lex_fraction s =
     (case s of c # t \<Rightarrow> if c = CHR ''.'' then (CHR ''.'' # takeWhile sql_digit t, dropWhile sql_digit t) else ([], s)
      | [] \<Rightarrow> ([], []))"

definition lex_exponent :: "string \<Rightarrow> string \<times> string" where
  "lex_exponent s =
     (case s of c # t \<Rightarrow>
        let (sg, ds) = lex_sign t in
        if c \<in> set ''eE'' \<and> takeWhile sql_digit ds \<noteq> []
        then (c # sg @ takeWhile sql_digit ds, dropWhile sql_digit ds) else ([], s)
      | [] \<Rightarrow> ([], []))"

definition lex_number :: "string \<Rightarrow> (string \<times> string) option" where
  "lex_number s =
     (let (sg, u) = lex_sign s;
          i = takeWhile sql_digit u;
          (f, v) = lex_fraction (dropWhile sql_digit u);
          (x, w) = lex_exponent v
      in if i = [] \<and> (f = [] \<or> f = ''.'') then None else Some (sg @ i @ f @ x, w))"

definition sql_number :: "string \<Rightarrow> bool" where
  "sql_number s \<longleftrightarrow> lex_number s = Some (s, [])"

lemma sql_numbers:
  "sql_number ''-12.5e3'' \<and> sql_number ''.5'' \<and> \<not> sql_number ''Infinity'' \<and> \<not> sql_number ''1 OR 1'' \<and> \<not> sql_number []"
  by code_simp

lemma lex_number_unfold:
  "lex_number s =
     (let u = snd (lex_sign s); i = takeWhile sql_digit u; f = fst (lex_fraction (dropWhile sql_digit u));
          v = snd (lex_fraction (dropWhile sql_digit u))
      in if i = [] \<and> (f = [] \<or> f = ''.'') then None
         else Some (fst (lex_sign s) @ i @ f @ fst (lex_exponent v), snd (lex_exponent v)))"
  by (simp add: lex_number_def Let_def case_prod_unfold)

lemma digits_append:
  "takeWhile sql_digit (s @ CHR '' '' # q) = takeWhile sql_digit s"
  "dropWhile sql_digit (s @ CHR '' '' # q) = dropWhile sql_digit s @ CHR '' '' # q"
  by (induction s) (auto simp: sql_digit_def)

lemma lex_append:
  "lex_sign (s @ CHR '' '' # q) = apsnd (\<lambda>w. w @ CHR '' '' # q) (lex_sign s)"
  "lex_fraction (s @ CHR '' '' # q) = apsnd (\<lambda>w. w @ CHR '' '' # q) (lex_fraction s)"
  "lex_exponent (s @ CHR '' '' # q) = apsnd (\<lambda>w. w @ CHR '' '' # q) (lex_exponent s)"
proof -
  show sign: "lex_sign (s @ CHR '' '' # q) = apsnd (\<lambda>w. w @ CHR '' '' # q) (lex_sign s)" for s
    by (cases s) (auto simp: lex_sign_def)
  show "lex_fraction (s @ CHR '' '' # q) = apsnd (\<lambda>w. w @ CHR '' '' # q) (lex_fraction s)"
    by (cases s) (auto simp: lex_fraction_def digits_append)
  show "lex_exponent (s @ CHR '' '' # q) = apsnd (\<lambda>w. w @ CHR '' '' # q) (lex_exponent s)"
    by (cases s) (auto simp: lex_exponent_def sign digits_append Let_def case_prod_unfold)
qed

lemma lex_number_append: "lex_number (s @ CHR '' '' # q) = map_option (apsnd (\<lambda>w. w @ CHR '' '' # q)) (lex_number s)"
  by (simp add: lex_number_unfold lex_append digits_append Let_def)

lemma lex_sign_whole: "fst (lex_sign s) @ snd (lex_sign s) = s" "snd (lex_sign s) = drop_sign s"
  by (cases s; auto simp: lex_sign_def drop_sign_def)+

lemma lex_fraction_whole: "fst (lex_fraction s) @ snd (lex_fraction s) = s"
  by (cases s) (auto simp: lex_fraction_def)

lemma lex_exponent_whole: "fst (lex_exponent s) @ snd (lex_exponent s) = s"
  using lex_sign_whole(1) [of "tl s"] by (cases s) (auto simp: lex_exponent_def split: prod.splits)

lemma lex_number_whole: "lex_number s = Some (t, r) \<Longrightarrow> s = t @ r"
  by (auto simp: lex_number_unfold Let_def lex_exponent_whole lex_fraction_whole lex_sign_whole(1) split: if_splits)

lemma digit_same: "sql_digit = is_digit"
  by (rule ext) (simp add: sql_digit_def is_digit_def)

lemma exponent_same: "exponent_ok s \<longleftrightarrow> snd (lex_exponent s) = []"
proof (cases s)
  case (Cons c t)
  have "digits1 u \<longleftrightarrow> takeWhile sql_digit u \<noteq> [] \<and> dropWhile sql_digit u = []" for u
    by (cases u) (auto simp: digits1_def digit_same list_all_iff dropWhile_eq_Nil_conv)
  with Cons lex_sign_whole(2) [of t] show ?thesis
    by (auto simp: exponent_ok_def lex_exponent_def split: prod.splits)
qed (simp add: exponent_ok_def lex_exponent_def)

lemma decimal_same: "decimal_ok (drop_sign s) \<longleftrightarrow> sql_number s"
proof -
  define i r where "i = takeWhile is_digit (drop_sign s)" and "r = dropWhile is_digit (drop_sign s)"
  have "sql_number s \<longleftrightarrow> (\<exists>t. lex_number s = Some (t, []))"
    using lex_number_whole [of s] by (auto simp: sql_number_def)
  also have "\<dots> \<longleftrightarrow> \<not> (i = [] \<and> (fst (lex_fraction r) = [] \<or> fst (lex_fraction r) = ''.'')) \<and>
      snd (lex_exponent (snd (lex_fraction r))) = []"
    by (auto simp: lex_number_unfold lex_sign_whole(2) Let_def digit_same simp flip: i_def r_def)
  also have "\<dots> \<longleftrightarrow> decimal_ok (drop_sign s)"
    unfolding decimal_ok_def i_def [symmetric] r_def [symmetric] Let_def exponent_same
    by (cases r) (auto simp: lex_fraction_def digit_same lex_exponent_def [of "[]"])
  finally show ?thesis by simp
qed

definition plain_operand :: "string \<Rightarrow> bool" where
  \<comment> \<open>no blanks around it, not an infinity and not a number in base 16, 8 or 2\<close>
  "plain_operand v \<longleftrightarrow> trim v = v \<and> v \<notin> {''Infinity'', ''+Infinity'', ''-Infinity''} \<and>
     \<not> (\<exists>b \<in> set ''xXoObB''. prefix [CHR ''0'', b] v)"

lemma plain_numeric: "plain_operand v \<Longrightarrow> isNumeric v \<longleftrightarrow> sql_number v"
proof -
  assume p: "plain_operand v"
  then have t: "trim v = v" and inf: "v \<notin> {''Infinity'', ''+Infinity'', ''-Infinity''}"
    and base: "\<not> (\<exists>b \<in> set ''xXoObB''. prefix [CHR ''0'', b] v)"
    unfolding plain_operand_def by blast+
  have "\<not> radix_ok v"
  proof
    assume "radix_ok v"
    then obtain b ds where "v = CHR ''0'' # b # ds" "b \<in> set ''xX'' \<union> set ''oO'' \<union> set ''bB''"
      unfolding radix_ok_def by (cases v; cases "tl v") auto
    then show False using base by auto
  qed
  moreover have "drop_sign v \<noteq> ''Infinity''"
  proof
    assume i: "drop_sign v = ''Infinity''"
    from drop_sign_cases [of v] have "v = ''Infinity'' \<or> v = ''+Infinity'' \<or> v = ''-Infinity''"
      unfolding i by auto
    then show False using inf by blast
  qed
  moreover have "\<not> sql_number []" by code_simp
  ultimately show ?thesis
    unfolding isNumeric_def number_of_text_ok_def t decimal_same by metis
qed

subsection \<open>Reading a clause back\<close>

definition op_text :: "sql_dialect \<Rightarrow> filter_op \<Rightarrow> string" where
  \<comment> \<open>the SQL between the column and the operand\<close>
  "op_text d p =
     (let like = (case d of PostgresD \<Rightarrow> ''::text ILIKE '' | MysqlD \<Rightarrow> '' AS CHAR) LIKE ''
                  | SqliteD \<Rightarrow> '' AS TEXT) LIKE '');
          not_like = (case d of PostgresD \<Rightarrow> ''::text NOT ILIKE '' | MysqlD \<Rightarrow> '' AS CHAR) NOT LIKE ''
                      | SqliteD \<Rightarrow> '' AS TEXT) NOT LIKE '')
      in case p of Contains \<Rightarrow> like | StartsWith \<Rightarrow> like | EndsWith \<Rightarrow> like | NotContains \<Rightarrow> not_like
         | Equals \<Rightarrow> (if d = PostgresD then ''::text = '' else '' = '')
         | NotEquals \<Rightarrow> (if d = PostgresD then ''::text != '' else '' != '')
         | Gt \<Rightarrow> '' > '' | Gte \<Rightarrow> '' >= '' | Lt \<Rightarrow> '' < '' | Lte \<Rightarrow> '' <= ''
         | IsNull \<Rightarrow> '' IS NULL'' | IsNotNull \<Rightarrow> '' IS NOT NULL'')"

definition op_operand :: "filter_op \<Rightarrow> string \<Rightarrow> literal option" where
  \<comment> \<open>what the column is compared with\<close>
  "op_operand p v =
     (case p of Contains \<Rightarrow> Some (Quoted (''%'' @ v @ ''%'')) | NotContains \<Rightarrow> Some (Quoted (''%'' @ v @ ''%''))
      | StartsWith \<Rightarrow> Some (Quoted (v @ ''%'')) | EndsWith \<Rightarrow> Some (Quoted (''%'' @ v))
      | Equals \<Rightarrow> Some (Quoted v) | NotEquals \<Rightarrow> Some (Quoted v)
      | IsNull \<Rightarrow> None | IsNotNull \<Rightarrow> None
      | _ \<Rightarrow> Some (if sql_number v then Token v else Quoted v))"

definition read_operand :: "sql_dialect \<Rightarrow> string \<Rightarrow> (literal \<times> string) option" where
  "read_operand d s =
     (if prefix [CHR 0x27] s then map_option (apfst Quoted) (lex_string d s)
      else map_option (apfst Token) (lex_number s))"

definition all_op_texts :: "sql_dialect \<Rightarrow> string list" where
  "all_op_texts d =
     map (op_text d) [Contains, NotContains, Equals, NotEquals, Gt, Gte, Lt, Lte, IsNull, IsNotNull]"

definition read_part :: "sql_dialect \<Rightarrow> string \<Rightarrow> ((string \<times> string \<times> literal option) \<times> string) option" where
  "read_part d s = do {
     (col, s) \<leftarrow> lex_ident d (if prefix ''CAST('' s then drop 5 s else s);
     t \<leftarrow> find (\<lambda>t. prefix t s) (all_op_texts d);
     if t = '' IS NULL'' \<or> t = '' IS NOT NULL'' then Some ((col, t, None), drop (length t) s)
     else do { (v, s) \<leftarrow> read_operand d (drop (length t) s); Some ((col, t, Some v), s) } }"

lemma find_op_text: "find (\<lambda>t. prefix t (op_text d p @ r)) (all_op_texts d) = Some (op_text d p)"
  by (cases d; cases p) (simp_all add: all_op_texts_def op_text_def)

definition part_follows :: "string \<Rightarrow> bool" where
  "part_follows r \<longleftrightarrow> r = [] \<or> prefix '' AND '' r"

lemma part_follows_quote: "part_follows r \<Longrightarrow> follows (CHR 0x27) r"
  by (auto simp: part_follows_def prefix_def)

lemma lex_number_part: "sql_number v \<Longrightarrow> part_follows r \<Longrightarrow> lex_number (v @ r) = Some (v, r)"
  using lex_number_append [of v] by (auto simp: sql_number_def part_follows_def prefix_def)

definition filter_escape :: "sql_dialect \<Rightarrow> string \<Rightarrow> string" where
  "filter_escape d v =
     (if d = MysqlD
      then replace_char (CHR 0x5C) [CHR 0x5C, CHR 0x5C] (replace_char (CHR 0x27) [CHR 0x27, CHR 0x27] v)
      else replace_char (CHR 0x27) [CHR 0x27, CHR 0x27] v)"

lemma filter_escape_simps [simp]:
  "filter_escape d (a @ b) = filter_escape d a @ filter_escape d b" "filter_escape d ''%'' = ''%''"
  "filter_escape d [] = []"
  by (simp_all add: filter_escape_def)

lemma mysql_body_doubled:
  "follows (CHR 0x27) r \<Longrightarrow>
     lex_mysql_body (replace_char (CHR 0x5C) [CHR 0x5C, CHR 0x5C]
       (replace_char (CHR 0x27) [CHR 0x27, CHR 0x27] s) @ CHR 0x27 # r) = Some (s, r)"
  by (induction s) (auto simp: lex_mysql_other lex_mysql_quote)

lemma lex_filter_literal:
  "follows (CHR 0x27) r \<Longrightarrow> lex_string d (quoted (filter_escape d v) @ r) = Some (v, r)"
  by (cases "d = MysqlD")
    (simp_all add: lex_string_def lex_quoted_def lex_mysql_string_def quoted_def filter_escape_def
      lex_doubled_quote mysql_body_doubled)

interpretation filter_literal: quoted_token
  "\<lambda>v. quoted (filter_escape d v)" "lex_string d" "CHR 0x27" for d
  by unfold_locales (rule lex_filter_literal)

definition column_text :: "sql_dialect \<Rightarrow> string \<Rightarrow> string" where
  "column_text d col =
     [ident_quote d] @ replace_char (ident_quote d) [ident_quote d, ident_quote d] col @ [ident_quote d]"

definition operand_text :: "sql_dialect \<Rightarrow> filter_op \<Rightarrow> string \<Rightarrow> string" where
  "operand_text d p v =
     (case op_operand p v of None \<Rightarrow> [] | Some (Quoted s) \<Rightarrow> quoted (filter_escape d s) | Some (Token t) \<Rightarrow> t)"

definition cast_text :: "sql_dialect \<Rightarrow> filter_op \<Rightarrow> string" where
  "cast_text d p =
     (if d \<noteq> PostgresD \<and> p \<in> {Contains, NotContains, StartsWith, EndsWith} then ''CAST('' else [])"

definition filterPart :: "sql_dialect \<Rightarrow> string \<Rightarrow> column_filter \<Rightarrow> string" where
  "filterPart d = (case d of PostgresD \<Rightarrow> pgFilterPart | MysqlD \<Rightarrow> mysqlFilterPart | SqliteD \<Rightarrow> sqliteFilterPart)"

definition filter_meaning :: "sql_dialect \<Rightarrow> string \<times> column_filter \<Rightarrow> string \<times> string \<times> literal option" where
  "filter_meaning d cf =
     (fst cf, op_text d (cf_op (snd cf)), op_operand (cf_op (snd cf)) (cf_value (snd cf)))"

definition comparison :: "filter_op \<Rightarrow> bool" where
  "comparison p \<longleftrightarrow> p \<in> {Gt, Gte, Lt, Lte}"

definition readable_filter :: "column_filter \<Rightarrow> bool" where
  "readable_filter f \<longleftrightarrow> (comparison (cf_op f) \<longrightarrow> plain_operand (cf_value f))"

lemma filterPart_shape:
  "readable_filter f \<Longrightarrow> filterPart d col f =
     cast_text d (cf_op f) @ column_text d col @ op_text d (cf_op f) @ operand_text d (cf_op f) (cf_value f)"
  using plain_numeric [of "cf_value f"]
  by (cases d; cases "cf_op f")
    (simp_all add: readable_filter_def comparison_def filterPart_def pgFilterPart_def mysqlFilterPart_def sqliteFilterPart_def
      cast_text_def column_text_def op_text_def operand_text_def op_operand_def ident_quote_def
      filter_escape_def)

lemma op_text_follows: "follows (ident_quote d) (op_text d p @ r)"
  by (cases d; cases p) (simp_all add: op_text_def ident_quote_def)

lemma lex_column: "lex_ident d (column_text d col @ op_text d p @ r) = Some (col, op_text d p @ r)"
  using lex_doubled_quote [OF op_text_follows]
  by (simp add: lex_ident_def lex_quoted_def column_text_def)

lemma drop_cast:
  "(if prefix ''CAST('' (cast_text d p @ column_text d col @ r)
    then drop 5 (cast_text d p @ column_text d col @ r) else cast_text d p @ column_text d col @ r) =
   column_text d col @ r"
  by (auto simp: cast_text_def column_text_def ident_quote_def split: if_splits)

lemma read_operand_text:
  assumes "op_operand p v = Some x" and "part_follows r"
  shows "read_operand d (operand_text d p v @ r) = Some (x, r)"
proof (cases x)
  case (Quoted s)
  then show ?thesis
    using assms lex_filter_literal [OF part_follows_quote, of r d s]
    by (simp add: read_operand_def operand_text_def) (simp add: quoted_def)
next
  case (Token t)
  with assms(1) have t: "sql_number t" by (auto simp: op_operand_def split: filter_op.splits if_splits)
  then have "t \<noteq> []" "hd t \<noteq> CHR 0x27"
    by (cases t; auto simp: sql_number_def lex_number_def lex_sign_def lex_fraction_def sql_digit_def)+
  then have "\<not> prefix [CHR 0x27] (t @ r)" by (cases t) auto
  with t Token lex_number_part [OF t assms(2)] assms(1) show ?thesis
    by (simp add: read_operand_def operand_text_def)
qed

lemma op_null_iff:
  "op_operand p v = None \<longleftrightarrow> op_text d p = '' IS NULL'' \<or> op_text d p = '' IS NOT NULL''"
  by (cases p; cases d) (simp_all add: op_operand_def op_text_def)

lemma read_filterPart:
  assumes "readable_filter f" and "part_follows r"
  shows "read_part d (filterPart d col f @ r) = Some (filter_meaning d (col, f), r)"
proof -
  let ?p = "cf_op f" and ?v = "cf_value f"
  show ?thesis
    using op_null_iff [of ?p ?v d] read_operand_text [of ?p ?v _ r d] assms
    by (auto simp: read_part_def filterPart_shape [OF assms(1)] drop_cast lex_column find_op_text filter_meaning_def
        operand_text_def split: option.splits)
qed

interpretation filter_part: element
  "\<lambda>cf. filterPart d (fst cf) (snd cf)" "read_part d" "filter_meaning d" "\<lambda>cf. readable_filter (snd cf)" part_follows for d
  by unfold_locales (simp add: read_filterPart)

lemma part_follows_simps: "part_follows []" "part_follows ('' AND '' @ s)"
  by (simp_all add: part_follows_def)

definition read_where :: "sql_dialect \<Rightarrow> string \<Rightarrow> (string \<times> string \<times> literal option) list option" where
  "read_where d s =
     (if s = [] then Some []
      else Option.bind (read_list (read_part d) '' AND '' s) (\<lambda>(xs, r). if r = [] then Some xs else None))"

definition buildWhereClause :: "sql_dialect \<Rightarrow> filters \<Rightarrow> string" where
  \<comment> \<open>the builder each adapter calls\<close>
  "buildWhereClause d = (case d of PostgresD \<Rightarrow> buildPgWhereClause | MysqlD \<Rightarrow> buildMysqlWhereClause
     | SqliteD \<Rightarrow> buildSqliteWhereClause)"

lemma buildWhereClause_join:
  "buildWhereClause d fs = join '' AND '' (map (\<lambda>cf. filterPart d (fst cf) (snd cf)) (present fs))"
  by (cases d)
    (simp_all add: buildWhereClause_def buildPgWhereClause_def buildMysqlWhereClause_def
      buildSqliteWhereClause_def filterPart_def case_prod_unfold)

lemma filterPart_nonempty: "readable_filter f \<Longrightarrow> filterPart d c f \<noteq> []"
  by (simp add: filterPart_shape column_text_def)

text \<open>
  C26: in each of the three dialects, the WHERE clause of a set of column filters reads back as exactly one condition per present
  filter, with its column, its operator and its operand: a string literal of the value (with the wildcards of the operator), and
  in the comparisons \<open>>\<close>, \<open>>=\<close>, \<open><\<close>, \<open><=\<close> a numeric literal where the value is one of SQL. No column name or filter value can close
  its quotes, add a condition or swallow the next one. Left out are the comparisons with a value that has blanks around it, is an
  infinity or a number in base 16, 8 or 2 (\<open>infinity_is_a_name\<close> is what happens with those).
\<close>

theorem where_reads_back:
  assumes "\<And>c f. (c, f) \<in> set (present fs) \<Longrightarrow> cf_op f \<in> {Gt, Gte, Lt, Lte} \<Longrightarrow> plain_operand (cf_value f)"
  shows "read_where d (buildWhereClause d fs) = Some (map (filter_meaning d) (present fs))"
proof (cases "present fs = []")
  case True
  then show ?thesis by (simp add: read_where_def buildWhereClause_join)
next
  case False
  have ok: "readable_filter (snd cf)" if "cf \<in> set (present fs)" for cf
    using assms [of "fst cf" "snd cf"] that by (simp add: readable_filter_def comparison_def)
  from False ok have "buildWhereClause d fs \<noteq> []"
    by (cases "present fs") (auto simp: buildWhereClause_join join_Cons filterPart_nonempty)
  moreover have "read_list (read_part d) '' AND '' (buildWhereClause d fs) =
      Some (map (filter_meaning d) (present fs), [])"
    using False ok filter_part.read_list_join
      [where d = d and xs = "present fs" and sep = "'' AND ''" and r = "[]"]
    by (simp add: buildWhereClause_join part_follows_def)
  ultimately show ?thesis by (simp add: read_where_def)
qed

theorem where_reads_back_witness:
  "read_where MysqlD (buildWhereClause MysqlD
      [(''a`b'', Some \<lparr>cf_op = Gt, cf_value = ''-1.5e3''\<rparr>), (''n'', Some \<lparr>cf_op = Equals, cf_value = ''it's'' @ [CHR 0x5C]\<rparr>),
       (''x'', None), (''d'', Some \<lparr>cf_op = Lte, cf_value = ''2024-01-01''\<rparr>)]) =
    Some [(''a`b'', '' > '', Some (Token ''-1.5e3'')), (''n'', '' = '', Some (Quoted (''it's'' @ [CHR 0x5C]))),
          (''d'', '' <= '', Some (Quoted ''2024-01-01''))]"
proof -
  let ?fs = "[(''a`b'', Some \<lparr>cf_op = Gt, cf_value = ''-1.5e3''\<rparr>), (''n'', Some \<lparr>cf_op = Equals, cf_value = ''it's'' @ [CHR 0x5C]\<rparr>),
       (''x'', None), (''d'', Some \<lparr>cf_op = Lte, cf_value = ''2024-01-01''\<rparr>)]"
  have "plain_operand ''-1.5e3''" "plain_operand ''2024-01-01''" by code_simp+
  then have "read_where MysqlD (buildWhereClause MysqlD ?fs) = Some (map (filter_meaning MysqlD) (present ?fs))"
    by (intro where_reads_back) (auto simp: present_def map_filter_simps)
  also have "\<dots> = Some [(''a`b'', '' > '', Some (Token ''-1.5e3'')), (''n'', '' = '', Some (Quoted (''it's'' @ [CHR 0x5C]))),
          (''d'', '' <= '', Some (Quoted ''2024-01-01''))]"
    by code_simp
  finally show ?thesis .
qed

text \<open>
  \<open>Number\<close> accepts \<open>Infinity\<close>, which is then written bare: the condition compares the column with whatever \<open>Infinity\<close> names in the
  statement, which is no literal in any of the dialects, and it does not read back.
\<close>

theorem infinity_is_a_name:
  "buildWhereClause d [(''a'', Some \<lparr>cf_op = Gt, cf_value = ''Infinity''\<rparr>)] = column_text d ''a'' @ '' > Infinity'' \<and>
   read_where d (buildWhereClause d [(''a'', Some \<lparr>cf_op = Gt, cf_value = ''Infinity''\<rparr>)]) = None"
proof -
  let ?P = "\<lambda>d. buildWhereClause d [(''a'', Some \<lparr>cf_op = Gt, cf_value = ''Infinity''\<rparr>)] = column_text d ''a'' @ '' > Infinity'' \<and>
   read_where d (buildWhereClause d [(''a'', Some \<lparr>cf_op = Gt, cf_value = ''Infinity''\<rparr>)]) = None"
  have "?P PostgresD" by code_simp
  moreover have "?P MysqlD" by code_simp
  moreover have "?P SqliteD" by code_simp
  ultimately show ?thesis using sql_dialect.exhaust [of d] by metis
qed

subsection \<open>What the patterns match\<close>

text \<open>
  \<open>LIKE\<close> over the relation \<open>eq\<close> of the collation: \<open>%\<close> is any text, \<open>_\<close> any one character and
  \<open>esc\<close> (absent in SQLite) takes the next character literally.
\<close>

fun like :: "(char \<Rightarrow> char \<Rightarrow> bool) \<Rightarrow> char option \<Rightarrow> string \<Rightarrow> string \<Rightarrow> bool" where
  "like eq esc [] t = (t = [])"
| "like eq esc (p # ps) t =
     (if esc = Some p
      then (case ps of [] \<Rightarrow> False | q # qs \<Rightarrow> (case t of [] \<Rightarrow> False | c # cs \<Rightarrow> eq q c \<and> like eq esc qs cs))
      else if p = CHR ''%'' then list_ex (like eq esc ps) (suffixes t)
      else (case t of [] \<Rightarrow> False
            | c # cs \<Rightarrow> (p = CHR ''_'' \<or> eq p c) \<and> like eq esc ps cs))"

definition plain_text :: "char option \<Rightarrow> string \<Rightarrow> bool" where
  \<comment> \<open>no wildcard and no escape character\<close>
  "plain_text esc v \<longleftrightarrow> CHR ''%'' \<notin> set v \<and> CHR ''_'' \<notin> set v \<and> (\<forall>e. esc = Some e \<longrightarrow> e \<notin> set v)"

lemma like_plain_append:
  "plain_text esc v \<Longrightarrow> like eq esc (v @ ps) t \<longleftrightarrow>
     list_all2 eq v (take (length v) t) \<and> like eq esc ps (drop (length v) t)"
proof (induction v arbitrary: t)
  case (Cons p v)
  then show ?case by (cases t) (auto simp: plain_text_def)
qed simp

lemma like_percent: "esc \<noteq> Some (CHR ''%'') \<Longrightarrow> like eq esc (CHR ''%'' # ps) t \<longleftrightarrow> (\<exists>u. suffix u t \<and> like eq esc ps u)"
  by (auto simp: list_ex_iff)

lemma like_percent_all: "esc \<noteq> Some (CHR ''%'') \<Longrightarrow> like eq esc ''%'' t"
  using like_percent [of esc eq "[]" t] by auto

lemma like_plain: "plain_text esc v \<Longrightarrow> like eq esc v t \<longleftrightarrow> list_all2 eq v t"
  using like_plain_append [of esc v eq "[]" t]
  by (auto simp: list_all2_conv_all_nth)

definition op_pattern :: "filter_op \<Rightarrow> string \<Rightarrow> string" where
  "op_pattern p v = (case op_operand p v of Some (Quoted s) \<Rightarrow> s | _ \<Rightarrow> [])"

lemma op_pattern_simps:
  "op_pattern Contains v = CHR ''%'' # v @ ''%''" "op_pattern StartsWith v = v @ ''%''"
  "op_pattern EndsWith v = CHR ''%'' # v"
  by (simp_all add: op_pattern_def op_operand_def)

lemma like_start:
  assumes "plain_text esc v" and "esc \<noteq> Some (CHR ''%'')"
  shows "like eq esc (v @ ''%'') u \<longleftrightarrow> (\<exists>m b. u = m @ b \<and> list_all2 eq v m)"
proof
  assume "like eq esc (v @ ''%'') u"
  with like_plain_append [OF assms(1)] have "list_all2 eq v (take (length v) u)" by blast
  then show "\<exists>m b. u = m @ b \<and> list_all2 eq v m" by (metis append_take_drop_id)
next
  assume "\<exists>m b. u = m @ b \<and> list_all2 eq v m"
  then show "like eq esc (v @ ''%'') u"
    using like_percent_all [OF assms(2)]
    by (auto simp: like_plain_append [OF assms(1)] list_all2_lengthD)
qed

text \<open>
  For a filter value without wildcard or escape character, the pattern the builders write
  selects what the operator's name says: \<open>contains\<close> the rows whose text has a part equal (under
  the collation) to the value, \<open>starts_with\<close> those that begin with it and \<open>ends_with\<close> those that
  end with it.
\<close>

theorem like_pattern_meaning:
  assumes "plain_text esc v" and "esc \<noteq> Some (CHR ''%'')"
  shows "(like eq esc (op_pattern Contains v) t \<longleftrightarrow> (\<exists>a m b. t = a @ m @ b \<and> list_all2 eq v m)) \<and>
    (like eq esc (op_pattern StartsWith v) t \<longleftrightarrow> (\<exists>m b. t = m @ b \<and> list_all2 eq v m)) \<and>
    (like eq esc (op_pattern EndsWith v) t \<longleftrightarrow> (\<exists>a m. t = a @ m \<and> list_all2 eq v m))"
  unfolding op_pattern_simps like_percent [OF assms(2)] like_start [OF assms] like_plain [OF assms(1)]
  by (auto simp: suffix_def)

theorem like_pattern_meaning_witness:
  "like (=) None (op_pattern Contains ''b'') ''abc'' \<and>
   like (=) (Some (CHR 0x5C)) (op_pattern StartsWith ''a'') ''abc''"
proof -
  have "''abc'' = ''a'' @ ''b'' @ ''c''" "''abc'' = ''a'' @ ''bc''" "list_all2 (=) ''b'' ''b''"
    "list_all2 (=) ''a'' ''a''" "plain_text None ''b''" "plain_text (Some (CHR 0x5C)) ''a''"
    "Some (CHR 0x5C) \<noteq> Some (CHR ''%'')" "None \<noteq> Some (CHR ''%'')"
    by (simp_all add: plain_text_def)
  then show ?thesis
    using like_pattern_meaning [of None "''b''" "(=)" "''abc''"]
      like_pattern_meaning [of "Some (CHR 0x5C)" "''a''" "(=)" "''abc''"] by metis
qed

lemma like_any_char:
  assumes "esc \<noteq> Some (CHR ''%'')" and "esc \<noteq> Some (CHR ''_'')"
  shows "like eq esc ''%_%'' (c # t)"
proof -
  have "like eq esc ''_%'' (c # t)"
    using assms(2) like_percent_all [OF assms(1), of eq t] by (simp del: like.simps add: like.simps(2))
  then show ?thesis unfolding like_percent [OF assms(1)] by blast
qed

text \<open>
  The value is not escaped for \<open>LIKE\<close>: a \<open>contains\<close> filter whose value is one underscore
  selects every non-empty text, in MySQL and PostgreSQL (escape \<open>\\<close>) and in SQLite (no escape).
\<close>

theorem like_wildcard_leaks:
  "like eq None (op_pattern Contains ''_'') (c # t) \<and>
   like eq (Some (CHR 0x5C)) (op_pattern Contains ''_'') (c # t)"
  using like_any_char [of None] like_any_char [of "Some (CHR 0x5C)"]
  by (simp only: op_pattern_simps append.simps) simp

end
