(* ===== verification/JsValue.thy ===== *)
theory JsValue
  imports Prelude
begin

section \<open>Values of type \<open>any\<close>\<close>

text \<open>
  The values that reach the program from the backend without a type: what \<open>JSON.parse\<close> can give,
  and \<open>undefined\<close>. A number is the text \<open>String(n)\<close> prints. An object is the list of its own
  entries in the order \<open>Object.entries\<close> gives them.
\<close>

datatype js_value =
    JUndef
  | JNull
  | JBool bool
  | JNum string
  | JStr string
  | JArr "js_value list"
  | JObj "(string \<times> js_value) list"

definition is_nullish :: "js_value \<Rightarrow> bool" where
  "is_nullish v \<longleftrightarrow> v = JUndef \<or> v = JNull"

fun js_truthy :: "js_value \<Rightarrow> bool" where
  "js_truthy JUndef = False"
| "js_truthy JNull = False"
| "js_truthy (JBool b) = b"
| "js_truthy (JNum t) = (t \<notin> {''0'', ''-0'', ''NaN''})"
| "js_truthy (JStr s) = (s \<noteq> [])"
| "js_truthy (JArr _) = True"
| "js_truthy (JObj _) = True"

fun js_string :: "js_value \<Rightarrow> string" where
  \<comment> \<open>\<open>String(v)\<close> and \<open>`${v}`\<close>; an array joins its elements with commas, null and undefined empty\<close>
  "js_string JUndef = ''undefined''"
| "js_string JNull = ''null''"
| "js_string (JBool b) = (if b then ''true'' else ''false'')"
| "js_string (JNum t) = t"
| "js_string (JStr s) = s"
| "js_string (JArr vs) = join '','' (map (\<lambda>v. if v = JUndef \<or> v = JNull then [] else js_string v) vs)"
| "js_string (JObj _) = ''[object Object]''"

definition join_any :: "string \<Rightarrow> js_value list \<Rightarrow> string" where
  \<comment> \<open>\<open>arr.join(sep)\<close>\<close>
  "join_any sep vs = join sep (map (\<lambda>v. if is_nullish v then [] else js_string v) vs)"

definition js_field :: "js_value \<Rightarrow> string \<Rightarrow> js_value option" where
  \<comment> \<open>\<open>v.name\<close>: a TypeError on null and undefined, undefined for a missing field\<close>
  "js_field v name =
     (if is_nullish v then None
      else Some (case v of JObj es \<Rightarrow> nullish (map_of es name) JUndef | _ \<Rightarrow> JUndef))"

definition js_or :: "js_value \<Rightarrow> js_value \<Rightarrow> js_value" where
  "js_or a b = (if js_truthy a then a else b)"

definition string_or_empty :: "js_value \<Rightarrow> string" where
  \<comment> \<open>\<open>String(v ?? '')\<close>\<close>
  "string_or_empty v = (if is_nullish v then [] else js_string v)"

definition js_entries :: "js_value \<Rightarrow> (string \<times> js_value) list" where
  \<comment> \<open>\<open>Object.entries(v)\<close> of an object or array\<close>
  "js_entries v =
     (case v of JObj es \<Rightarrow> es | JArr vs \<Rightarrow> zip (map show_nat [0..<length vs]) vs | _ \<Rightarrow> [])"

definition array_or_empty :: "js_value \<Rightarrow> js_value list" where
  \<comment> \<open>\<open>Array.isArray(v) ? v : []\<close>\<close>
  "array_or_empty v = (case v of JArr vs \<Rightarrow> vs | _ \<Rightarrow> [])"

end
