(* ===== verification/RedisKeys.thy ===== *)
theory RedisKeys
  imports JsValue "HOL-Library.Multiset"
begin

section \<open>The Redis key browser\<close>

text \<open>
  \<open>pages/redis/redisTypes.ts\<close>: the tree built from the flat list of keys, the keys below a node,
  and the texts for expiry and values. The build loop is a trie insertion; the lemmas follow the
  trie (its key paths, its counts and its metadata) and the theorems state them of the finished
  tree.
\<close>

datatype redis_type = RString | RList | RSet | RHash | RZset | RStream

record key_meta =
  m_type :: "redis_type option"
  m_ttl :: "int option"

record node_info =
  i_key :: string
  i_name :: string
  i_fullKey :: "string option"
  i_meta :: key_meta
  i_hasSelf :: bool
  i_count :: nat

datatype inode = INode (iinfo: node_info) (ichildren: "inode list")

record tree_info =
  t_key :: string
  t_name :: string
  t_fullKey :: "string option"
  t_isLeaf :: bool
  t_count :: nat
  t_meta :: key_meta

datatype key_tree = KNode (tinfo: tree_info) (tchildren: "key_tree list")

datatype key_item = KeyString string | KeyItem string redis_type int | KeyNull

definition no_meta :: key_meta where
  "no_meta = \<lparr>m_type = None, m_ttl = None\<rparr>"

fun item_key :: "key_item \<Rightarrow> string option" where
  "item_key (KeyString k) = (if k = [] then None else Some k)"
| "item_key (KeyItem k _ _) = (if k = [] then None else Some k)"
| "item_key KeyNull = None"

definition stringKeys :: "key_item list \<Rightarrow> string list" where
  "stringKeys items = List.map_filter item_key items"

definition keyMap :: "key_item list \<Rightarrow> string \<Rightarrow> key_meta option" where
  \<comment> \<open>a later item overwrites an earlier one of the same key\<close>
  "keyMap items =
     foldl (\<lambda>m i. case i of
              KeyItem k ty ttl \<Rightarrow> if k = [] then m else m(k \<mapsto> \<lparr>m_type = Some ty, m_ttl = Some ttl\<rparr>)
            | _ \<Rightarrow> m) Map.empty items"

definition meta_of :: "(string \<Rightarrow> key_meta option) \<Rightarrow> string \<Rightarrow> key_meta" where
  \<comment> \<open>\<open>meta?.type\<close> and \<open>meta?.ttl\<close>\<close>
  "meta_of km k = nullish (km k) no_meta"

definition extend_path :: "string \<Rightarrow> string \<Rightarrow> string \<Rightarrow> string" where
  "extend_path delimiter path part = (if path \<noteq> [] then path @ delimiter @ part else part)"

definition new_info :: "string \<Rightarrow> string \<Rightarrow> string \<Rightarrow> key_meta \<Rightarrow> bool \<Rightarrow> node_info" where
  "new_info path part fullKey meta isLast =
     \<lparr>i_key = path, i_name = part, i_fullKey = (if isLast then Some fullKey else None),
      i_meta = (if isLast then meta else no_meta), i_hasSelf = isLast, i_count = 0\<rparr>"

definition revisit :: "string \<Rightarrow> key_meta \<Rightarrow> bool \<Rightarrow> node_info \<Rightarrow> node_info" where
  "revisit fullKey meta isLast i =
     (if isLast then i\<lparr>i_hasSelf := True, i_fullKey := Some fullKey, i_meta := meta\<rparr> else i)"

definition bump :: "node_info \<Rightarrow> node_info" where
  "bump i = i\<lparr>i_count := Suc (i_count i)\<rparr>"

fun insert_parts ::
  "string \<Rightarrow> string \<Rightarrow> key_meta \<Rightarrow> string \<Rightarrow> string list \<Rightarrow> inode list \<Rightarrow> inode list" where
  \<comment> \<open>the inner loop over the parts of one key: \<open>currentLevel\<close> is the node list it descends\<close>
  "insert_parts delimiter fullKey meta path [] level = level"
| "insert_parts delimiter fullKey meta path (part # rest) level =
     (let path = extend_path delimiter path part; isLast = (rest = []) in
      case find_index (\<lambda>n. i_name (iinfo n) = part) level of
        None \<Rightarrow>
          level @ [INode (bump (new_info path part fullKey meta isLast))
                     (insert_parts delimiter fullKey meta path rest [])]
      | Some i \<Rightarrow>
          level[i := INode (bump (revisit fullKey meta isLast (iinfo (level ! i))))
                      (insert_parts delimiter fullKey meta path rest (ichildren (level ! i)))])"

definition rootNodes :: "string \<Rightarrow> (string \<Rightarrow> key_meta option) \<Rightarrow> string list \<Rightarrow> inode list" where
  "rootNodes delimiter km keys =
     foldl (\<lambda>level k. insert_parts delimiter k (meta_of km k) [] (split_on delimiter k) level) [] keys"

definition self_leaf :: "string \<Rightarrow> node_info \<Rightarrow> key_tree" where
  "self_leaf currentKey i =
     KNode \<lparr>t_key = i_key i @ ''::__self__'', t_name = i_name i @ currentKey, t_fullKey = i_fullKey i,
            t_isLeaf = True, t_count = 1, t_meta = i_meta i\<rparr> []"

fun transform :: "string \<Rightarrow> inode \<Rightarrow> key_tree" where
  \<comment> \<open>one node; \<open>currentKey\<close> is the translated suffix of a key that is also a folder\<close>
  "transform currentKey (INode i ch) =
     (let children = map (transform currentKey) ch in
      if children \<noteq> []
      then KNode \<lparr>t_key = i_key i, t_name = i_name i, t_fullKey = None, t_isLeaf = False,
                  t_count = i_count i, t_meta = no_meta\<rparr>
             ((if i_hasSelf i \<and> truthy (i_fullKey i) then [self_leaf currentKey i] else []) @ children)
      else KNode \<lparr>t_key = i_key i, t_name = i_name i, t_fullKey = i_fullKey i, t_isLeaf = True,
                  t_count = i_count i, t_meta = i_meta i\<rparr> [])"

definition buildKeyTree :: "translator \<Rightarrow> key_item list \<Rightarrow> string \<Rightarrow> key_tree list" where
  "buildKeyTree t keys delimiter =
     (if delimiter = []
      then map (\<lambda>k. KNode \<lparr>t_key = k, t_name = k, t_fullKey = Some k, t_isLeaf = True, t_count = 1,
                           t_meta = meta_of (keyMap keys) k\<rparr> []) (stringKeys keys)
      else map (transform (t ''redis:keys.currentKey'' []))
             (rootNodes delimiter (keyMap keys) (stringKeys keys)))"

fun collectLeafKeys :: "key_tree \<Rightarrow> string list" where
  "collectLeafKeys (KNode i ch) =
     (if t_isLeaf i \<and> truthy (t_fullKey i) then [the (t_fullKey i)]
      else concat (map collectLeafKeys ch))"

subsection \<open>The trie behind the tree\<close>

fun info_at :: "string list \<Rightarrow> inode list \<Rightarrow> node_info option" where
  \<comment> \<open>the node reached by a list of names\<close>
  "info_at [] ns = None"
| "info_at (p # ps) ns =
     (case find_index (\<lambda>n. i_name (iinfo n) = p) ns of
        None \<Rightarrow> None
      | Some i \<Rightarrow> if ps = [] then Some (iinfo (ns ! i)) else info_at ps (ichildren (ns ! i)))"

lemma info_at_Nil [simp]: "info_at ps [] = None"
  by (cases ps) simp_all

lemma find_index_update:
  "find_index P ns = Some i \<Longrightarrow> P x \<Longrightarrow> (\<And>j. j < i \<Longrightarrow> \<not> P (ns ! j)) \<Longrightarrow> find_index P (ns[i := x]) = Some i"
  by (rule find_index_nth_eqI) (use find_index_SomeD [of P ns i] in auto)

lemma find_index_update_other:
  "find_index P ns = Some i \<Longrightarrow> (\<And>y. P y \<Longrightarrow> \<not> Q y) \<Longrightarrow> \<not> Q x \<Longrightarrow>
     find_index Q (ns[i := x]) = find_index Q ns"
proof (induction ns arbitrary: i)
  case (Cons n ns)
  then show ?case by (cases i) (auto split: if_splits)
qed simp

lemma info_names [simp]:
  "i_name (bump i) = i_name i" "i_name (revisit f m l i) = i_name i" "i_name (new_info p n f m l) = n"
  by (simp_all add: bump_def revisit_def new_info_def)

lemma info_at_insert:
  "info_at qs (insert_parts d full meta path ps ns) =
     (if qs \<noteq> [] \<and> prefix qs ps
      then Some (bump (case info_at qs ns of
             Some i \<Rightarrow> revisit full meta (qs = ps) i
           | None \<Rightarrow> new_info (foldl (extend_path d) path qs) (last qs) full meta (qs = ps)))
      else info_at qs ns)"
proof (induction d full meta path ps ns arbitrary: qs rule: insert_parts.induct)
  case (1 d full meta path level)
  then show ?case by (cases qs) auto
next
  case (2 d full meta path part rest level)
  show ?case
  proof (cases qs)
    case Nil
    then show ?thesis by simp
  next
    case (Cons q qs')
    let ?P = "\<lambda>n. i_name (iinfo n) = part"
    show ?thesis
    proof (cases "find_index ?P level")
      case None
      note IH = "2.IH"(1) [OF refl refl None]
      show ?thesis
      proof (cases "q = part")
        case True
        then show ?thesis
          using None IH [of qs'] by (cases "qs' = []") (auto simp: Cons find_index_append Let_def eq_commute [of "[]" rest])
      next
        case False
        then show ?thesis
          using None
          by (auto simp: Cons find_index_append Let_def nth_append
              dest: find_index_SomeD split: option.splits)
      qed
    next
      case (Some i)
      note IH = "2.IH"(2) [OF refl refl Some]
      from find_index_SomeD [OF Some] have i: "i < length level" "?P (level ! i)"
        "\<And>j. j < i \<Longrightarrow> \<not> ?P (level ! j)" by auto
      show ?thesis
      proof (cases "q = part")
        case True
        define I where "I = bump (revisit full meta (rest = []) (iinfo (level ! i)))"
        define C where
          "C = insert_parts d full meta (extend_path d path part) rest (ichildren (level ! i))"
        have ins: "insert_parts d full meta path (part # rest) level = level[i := INode I C]"
          using Some by (simp add: I_def C_def)
        have "find_index ?P (level[i := INode I C]) = Some i"
          using find_index_update [OF Some] i by (simp add: I_def)
        then have at: "info_at (part # qs') (level[i := INode I C]) = (if qs' = [] then Some I else info_at qs' C)"
          using i(1) by simp
        show ?thesis
          unfolding ins Cons True at using Some IH [of qs'] i(2)
          by (cases "qs' = []") (auto simp: I_def C_def eq_commute [of "[]" rest] split: option.splits)
      next
        case False
        have "find_index (\<lambda>n. i_name (iinfo n) = q) (level[i := x]) = find_index (\<lambda>n. i_name (iinfo n) = q) level"
          if "i_name (iinfo x) = part" for x
          by (rule find_index_update_other [OF Some]) (use False that in auto)
        moreover have "k \<noteq> i" if "find_index (\<lambda>n. i_name (iinfo n) = q) level = Some k" for k
          using find_index_SomeD [OF that] i(2) False by auto
        ultimately show ?thesis
          using Some False i by (auto simp: Cons Let_def split: option.splits)
      qed
    qed
  qed
qed

definition trie_info :: "string \<Rightarrow> (string \<Rightarrow> key_meta option) \<Rightarrow> string list \<Rightarrow> string list \<Rightarrow> node_info" where
  \<comment> \<open>what the node of a name path must hold\<close>
  "trie_info d km keys qs =
     (let self = (qs \<in> set (map (split_on d) keys)) in
      \<lparr>i_key = foldl (extend_path d) [] qs, i_name = last qs,
       i_fullKey = (if self then Some (join d qs) else None),
       i_meta = (if self then meta_of km (join d qs) else no_meta), i_hasSelf = self,
       i_count = length (filter (\<lambda>k. prefix qs (split_on d k)) keys)\<rparr>)"

lemma rootNodes_snoc:
  "rootNodes d km (keys @ [k]) =
     insert_parts d k (meta_of km k) [] (split_on d k) (rootNodes d km keys)"
  by (simp add: rootNodes_def)

lemma root_info:
  assumes "d \<noteq> []"
  shows "info_at qs (rootNodes d km keys) =
    (if qs \<noteq> [] \<and> (\<exists>k\<in>set keys. prefix qs (split_on d k)) then Some (trie_info d km keys qs) else None)"
proof (induction keys rule: rev_induct)
  case Nil
  then show ?case by (simp add: rootNodes_def)
next
  case (snoc k keys)
  show ?case
  proof (cases "qs \<noteq> [] \<and> prefix qs (split_on d k)")
    case True
    have eq: "join d (split_on d k) = k" using join_split_on [OF assms] by simp
    show ?thesis
    proof (cases "\<exists>k\<in>set keys. prefix qs (split_on d k)")
      case hit: True
      then show ?thesis
        unfolding rootNodes_snoc info_at_insert snoc.IH using True eq
        by (auto simp: trie_info_def bump_def revisit_def Let_def)
    next
      case miss: False
      then have "filter (\<lambda>k. prefix qs (split_on d k)) keys = []" "qs \<notin> split_on d ` set keys"
        by (auto simp: filter_empty_conv)
      with miss show ?thesis
        unfolding rootNodes_snoc info_at_insert snoc.IH using True eq
        by (auto simp: trie_info_def bump_def new_info_def Let_def)
    qed
  next
    case False
    then have "trie_info d km (keys @ [k]) qs = trie_info d km keys qs" if "qs \<noteq> []"
      using that by (auto simp: trie_info_def Let_def)
    with False show ?thesis
      unfolding rootNodes_snoc info_at_insert snoc.IH by auto
  qed
qed

subsection \<open>Shape of the trie\<close>

definition distinct_names :: "inode list \<Rightarrow> bool" where
  "distinct_names ns \<longleftrightarrow> distinct (map (i_name \<circ> iinfo) ns)"

fun wf_inode :: "inode \<Rightarrow> bool" where
  \<comment> \<open>a node without children is a key, a key has its text, siblings have distinct names\<close>
  "wf_inode (INode i ch) \<longleftrightarrow>
     (ch = [] \<longrightarrow> i_hasSelf i) \<and> (i_hasSelf i \<longrightarrow> truthy (i_fullKey i)) \<and>
     distinct_names ch \<and> list_all wf_inode ch"

lemma wf_inode_iff:
  "wf_inode n \<longleftrightarrow>
     (ichildren n = [] \<longrightarrow> i_hasSelf (iinfo n)) \<and> (i_hasSelf (iinfo n) \<longrightarrow> truthy (i_fullKey (iinfo n))) \<and>
     distinct_names (ichildren n) \<and> list_all wf_inode (ichildren n)"
  by (cases n) simp

lemma distinct_update:
  "distinct (map f ns) \<Longrightarrow> i < length ns \<Longrightarrow> f x = f (ns ! i) \<Longrightarrow> distinct (map f (ns[i := x]))"
  by (metis list_update_id map_update nth_map)

lemma insert_parts_nonempty: "ps \<noteq> [] \<Longrightarrow> insert_parts d full meta path ps ns \<noteq> []"
  by (cases ps) (auto simp: Let_def split: option.splits)

lemma wf_insert_parts:
  assumes "full \<noteq> []" and "distinct_names ns \<and> list_all wf_inode ns"
  shows "distinct_names (insert_parts d full meta path ps ns) \<and> list_all wf_inode (insert_parts d full meta path ps ns)"
  using assms
proof (induction d full meta path ps ns rule: insert_parts.induct)
  case (2 d full meta path part rest level)
  show ?case
  proof (cases "find_index (\<lambda>n. i_name (iinfo n) = part) level")
    case None
    note IH = "2.IH"(1) [OF refl refl None]
    have "part \<notin> set (map (i_name \<circ> iinfo) level)"
      using None by (auto simp: find_index_None)
    with None IH 2(3,4) show ?thesis
      using insert_parts_nonempty [of rest d full meta "extend_path d path part" "[]"]
      by (auto simp: distinct_names_def Let_def bump_def new_info_def)
  next
    case (Some i)
    note IH = "2.IH"(2) [OF refl refl Some]
    from find_index_SomeD [OF Some] have i: "i < length level" "i_name (iinfo (level ! i)) = part"
      by auto
    have wf: "wf_inode (level ! i)" using i 2(4) by (simp add: list_all_length)
    let ?n = "INode (bump (revisit full meta (rest = []) (iinfo (level ! i))))
      (insert_parts d full meta (extend_path d path part) rest (ichildren (level ! i)))"
    have "wf_inode ?n"
      using wf [unfolded wf_inode_iff [of "level ! i"]] IH insert_parts_nonempty [of rest d full meta] 2(3)
      by (cases "rest = []") (auto simp: bump_def revisit_def)
    moreover have "distinct_names (level[i := ?n])"
      unfolding distinct_names_def using 2(4) i by (intro distinct_update) (simp_all add: distinct_names_def)
    ultimately show ?thesis
      using Some i 2(4) by (auto simp: Let_def list_all_length nth_list_update)
  qed
qed simp

lemma wf_rootNodes:
  "[] \<notin> set keys \<Longrightarrow> distinct_names (rootNodes d km keys) \<and> list_all wf_inode (rootNodes d km keys)"
proof (induction keys rule: rev_induct)
  case Nil
  then show ?case by (simp add: rootNodes_def distinct_names_def)
next
  case (snoc k keys)
  then show ?case unfolding rootNodes_snoc by (intro wf_insert_parts) auto
qed

subsection \<open>The leaves of the finished tree\<close>

fun leaves :: "key_tree \<Rightarrow> (string \<times> key_meta) list" where
  \<comment> \<open>the keys of the leaves with the type and expiry shown for them\<close>
  "leaves (KNode i ch) =
     (if t_isLeaf i \<and> truthy (t_fullKey i) then [(the (t_fullKey i), t_meta i)]
      else concat (map leaves ch))"

lemma collectLeafKeys_leaves: "collectLeafKeys n = map fst (leaves n)"
  by (induction n rule: collectLeafKeys.induct) (auto simp: map_concat comp_def intro!: arg_cong [of _ _ concat])

fun keyed :: "inode \<Rightarrow> (string list \<times> node_info) list" where
  "keyed (INode i ch) =
     (if i_hasSelf i then [([i_name i], i)] else []) @
     map (apfst (Cons (i_name i))) (concat (map keyed ch))"

definition leaf_data :: "string list \<times> node_info \<Rightarrow> string \<times> key_meta" where
  "leaf_data pi = (the (i_fullKey (snd pi)), i_meta (snd pi))"

lemma map_leaf_data_apfst [simp]: "map leaf_data (map (apfst f) xs) = map leaf_data xs"
  by (simp add: leaf_data_def)

lemma leaf_data_pair [simp]: "leaf_data (ps, i) = (the (i_fullKey i), i_meta i)"
  by (simp add: leaf_data_def)

lemma leaves_transform: "wf_inode n \<Longrightarrow> leaves (transform s n) = map leaf_data (keyed n)"
proof (induction n)
  case (INode i ch)
  have "map (\<lambda>x. leaves (transform s x)) ch = map (\<lambda>n. map leaf_data (keyed n)) ch"
    using INode by (auto simp: list_all_iff)
  then have "concat (map leaves (map (transform s) ch)) = map leaf_data (concat (map keyed ch))"
    by (simp add: map_concat comp_def cong: map_cong)
  with INode.prems show ?case
    by (cases "ch = []"; cases "i_hasSelf i")
      (auto simp: Let_def self_leaf_def truthy_def simp del: map_map split: option.splits)
qed

lemma keyed_head: "(ps, i) \<in> set (keyed n) \<Longrightarrow> \<exists>qs. ps = i_name (iinfo n) # qs"
  by (cases n) auto

lemma keyed_not_Nil: "([], i) \<notin> set (keyed n)"
  using keyed_head by blast

lemma distinct_concat_keyed:
  "distinct_names ns \<Longrightarrow> (\<And>n. n \<in> set ns \<Longrightarrow> distinct (map fst (keyed n))) \<Longrightarrow>
     distinct (map fst (concat (map keyed ns)))"
proof (induction ns)
  case (Cons n ns)
  have "fst ` set (keyed n) \<inter> fst ` set (concat (map keyed ns)) = {}"
  proof (rule ccontr)
    assume "\<not> ?thesis"
    then obtain ps i m j where "(ps, i) \<in> set (keyed n)" "m \<in> set ns" "(ps, j) \<in> set (keyed m)"
      by fastforce
    from keyed_head [OF this(1)] keyed_head [OF this(3)] this(2) Cons.prems(1) show False
      by (auto simp: distinct_names_def image_iff)
  qed
  moreover have "distinct (map fst (concat (map keyed ns)))"
    using Cons by (simp add: distinct_names_def)
  ultimately show ?case using Cons.prems(2) [of n] by simp
qed simp

lemma distinct_keyed: "wf_inode n \<Longrightarrow> distinct (map fst (keyed n))"
proof (induction n)
  case (INode i ch)
  have "distinct (map fst (concat (map keyed ch)))"
    using INode by (intro distinct_concat_keyed) (auto simp: list_all_iff)
  then have "distinct (map fst (map (apfst (Cons (i_name i))) (concat (map keyed ch))))"
    by (simp add: distinct_map comp_def inj_on_def)
  then show ?case using keyed_not_Nil by (auto simp: image_iff)
qed

lemma cons_path: "(p # ps, i) \<in> set (map (apfst (Cons n)) xs) \<longleftrightarrow> p = n \<and> (ps, i) \<in> set xs"
  by (induction xs) (auto simp: apfst_def map_prod_def split: prod.splits)

lemma keyed_step:
  "(p # ps, i) \<in> set (keyed (INode j ch)) \<longleftrightarrow>
     p = i_name j \<and> ((ps = [] \<and> i_hasSelf j \<and> i = j) \<or> (ps, i) \<in> set (concat (map keyed ch)))"
  unfolding keyed.simps set_append Un_iff cons_path by auto

lemma keyed_info:
  "distinct_names ns \<Longrightarrow> list_all wf_inode ns \<Longrightarrow>
     (ps, i) \<in> set (concat (map keyed ns)) \<longleftrightarrow> info_at ps ns = Some i \<and> i_hasSelf i"
proof (induction ps arbitrary: ns)
  case Nil
  then show ?case using keyed_not_Nil by auto
next
  case (Cons p ps)
  let ?P = "\<lambda>n. i_name (iinfo n) = p"
  show ?case
  proof (cases "find_index ?P ns")
    case None
    then have "(p # ps, i) \<notin> set (keyed n)" if "n \<in> set ns" for n
      using that keyed_head [of "p # ps" i n] by (auto simp: find_index_None)
    with None show ?thesis by simp
  next
    case (Some k)
    from find_index_SomeD [OF Some] have k: "k < length ns" "?P (ns ! k)" by auto
    obtain j ch where n: "ns ! k = INode j ch" by (cases "ns ! k")
    have "n = ns ! k" if "n \<in> set ns" "(p # ps, i) \<in> set (keyed n)" for n
      using that k Cons.prems(1) keyed_head [OF that(2)]
      by (auto simp: distinct_names_def in_set_conv_nth distinct_conv_nth)
    then have "(p # ps, i) \<in> set (concat (map keyed ns)) \<longleftrightarrow> (p # ps, i) \<in> set (keyed (ns ! k))"
      using nth_mem [OF k(1)] unfolding set_concat set_map by blast
    moreover have "wf_inode (ns ! k)" using Cons.prems(2) k by (simp add: list_all_length)
    then have "(ps, i) \<in> set (concat (map keyed ch)) \<longleftrightarrow> info_at ps ch = Some i \<and> i_hasSelf i"
      using Cons.IH [of ch] by (simp add: n)
    ultimately show ?thesis
      using k(2) Some keyed_step [of p ps i j ch] keyed_not_Nil [of i]
      by (cases "ps = []") (auto simp: n)
  qed
qed

lemma root_keyed:
  assumes "d \<noteq> []" and "[] \<notin> set keys"
  shows "(ps, i) \<in> set (concat (map keyed (rootNodes d km keys))) \<longleftrightarrow>
    ps \<in> split_on d ` set keys \<and> i = trie_info d km keys ps"
proof -
  note wf = wf_rootNodes [OF assms(2), of d km]
  have "\<exists>k\<in>set keys. prefix ps (split_on d k)" "ps \<noteq> []" if "ps \<in> split_on d ` set keys"
    using that by auto
  then show ?thesis
    using keyed_info [of "rootNodes d km keys" ps i] wf root_info [OF assms(1), of ps km keys]
    by (auto simp: trie_info_def Let_def)
qed

lemma trie_leaf:
  "d \<noteq> [] \<Longrightarrow> k \<in> set keys \<Longrightarrow> leaf_data (split_on d k, trie_info d km keys (split_on d k)) = (k, meta_of km k)"
  using join_split_on [of d k] by (auto simp: trie_info_def Let_def)

lemma leaves_rootNodes:
  fixes km s
  assumes "d \<noteq> []" and "[] \<notin> set keys"
  defines "ls \<equiv> concat (map (leaves \<circ> transform s) (rootNodes d km keys))"
  shows "set ls = (\<lambda>k. (k, meta_of km k)) ` set keys" and "distinct (map fst ls)"
proof -
  note wf = wf_rootNodes [OF assms(2), of d km]
  let ?ns = "rootNodes d km keys" and ?ks = "concat (map keyed (rootNodes d km keys))"
  have "map (leaves \<circ> transform s) ?ns = map (\<lambda>n. map leaf_data (keyed n)) ?ns"
    using wf leaves_transform by (auto simp: list_all_iff)
  then have ls: "ls = map leaf_data ?ks"
    unfolding ls_def by (simp add: map_concat comp_def cong: map_cong)
  have entry: "\<exists>k\<in>set keys. pi = (split_on d k, trie_info d km keys (split_on d k))" if "pi \<in> set ?ks" for pi
    using that root_keyed [OF assms(1,2), of "fst pi" "snd pi" km]
    by (metis imageE prod.collapse)
  have entry_of: "(split_on d k, trie_info d km keys (split_on d k)) \<in> set ?ks" if "k \<in> set keys" for k
    using that root_keyed [OF assms(1,2)] by blast
  show "set ls = (\<lambda>k. (k, meta_of km k)) ` set keys"
  proof (intro equalityI subsetI)
    fix x assume "x \<in> set ls"
    then obtain k where "k \<in> set keys" "x = leaf_data (split_on d k, trie_info d km keys (split_on d k))"
      using entry unfolding ls set_map by blast
    then show "x \<in> (\<lambda>k. (k, meta_of km k)) ` set keys"
      using trie_leaf [OF assms(1)] by blast
  next
    fix x assume "x \<in> (\<lambda>k. (k, meta_of km k)) ` set keys"
    then obtain k where "k \<in> set keys" "x = (k, meta_of km k)" by blast
    then show "x \<in> set ls"
      using entry_of trie_leaf [OF assms(1)] unfolding ls set_map by (metis imageI)
  qed
  have "distinct (map fst ?ks)"
    using wf distinct_keyed by (intro distinct_concat_keyed) (auto simp: list_all_iff)
  moreover have "map fst ?ks = map (split_on d) (map fst ls)"
    unfolding ls map_map
    using entry trie_leaf [OF assms(1)] by (intro map_cong refl) (metis comp_apply fst_conv)
  ultimately show "distinct (map fst ls)" by (metis distinct_map)
qed

lemma stringKeys_nonempty: "[] \<notin> set (stringKeys items)"
proof (induction items)
  case (Cons x xs)
  then show ?case by (cases x) (auto simp: stringKeys_def)
qed (simp add: stringKeys_def)

lemma collect_roots:
  "concat (map collectLeafKeys ns) = map fst (concat (map leaves ns))"
proof -
  have "collectLeafKeys = (\<lambda>n. map fst (leaves n))" using collectLeafKeys_leaves by blast
  then show ?thesis by (simp add: map_concat comp_def)
qed

lemma leaves_flat:
  "[] \<notin> set ks \<Longrightarrow>
     concat (map leaves (map (\<lambda>k. KNode \<lparr>t_key = k, t_name = k, t_fullKey = Some k, t_isLeaf = True,
       t_count = 1, t_meta = f k\<rparr> []) ks)) = map (\<lambda>k. (k, f k)) ks"
  by (induction ks) auto

text \<open>
  The tree shows exactly the loaded keys: the keys collected from its leaves are the keys of
  the list, each once when there is a delimiter, and every leaf carries the type and the expiry
  the list gives for its key - also when a key is a prefix folder of other keys.
\<close>

theorem key_tree_leaves:
  "set (concat (map collectLeafKeys (buildKeyTree t items d))) = set (stringKeys items) \<and>
   set (concat (map leaves (buildKeyTree t items d))) =
     (\<lambda>k. (k, meta_of (keyMap items) k)) ` set (stringKeys items) \<and>
   (d = [] \<or> distinct (concat (map collectLeafKeys (buildKeyTree t items d))))"
proof (cases "d = []")
  case True
  have "concat (map leaves (buildKeyTree t items d)) =
      map (\<lambda>k. (k, meta_of (keyMap items) k)) (stringKeys items)"
    using leaves_flat [OF stringKeys_nonempty] by (simp add: True buildKeyTree_def)
  then show ?thesis using True by (simp add: collect_roots image_image)
next
  case False
  note ls = leaves_rootNodes [OF False stringKeys_nonempty, of "t ''redis:keys.currentKey'' []" "keyMap items" items]
  have tree: "map leaves (buildKeyTree t items d) =
      map (leaves \<circ> transform (t ''redis:keys.currentKey'' [])) (rootNodes d (keyMap items) (stringKeys items))"
    using False by (simp add: buildKeyTree_def)
  show ?thesis
    unfolding collect_roots tree set_map ls(1) using ls(2) by (simp add: image_image)
qed

subsection \<open>The counts\<close>

fun exact :: "inode \<Rightarrow> bool" where
  \<comment> \<open>a node counts itself when it is a key, and everything below it\<close>
  "exact (INode i ch) \<longleftrightarrow>
     i_count i = of_bool (i_hasSelf i) + sum_list (map (i_count \<circ> iinfo) ch) \<and> list_all exact ch"

lemma exact_iff:
  "exact n \<longleftrightarrow>
     i_count (iinfo n) = of_bool (i_hasSelf (iinfo n)) + sum_list (map (i_count \<circ> iinfo) (ichildren n)) \<and>
     list_all exact (ichildren n)"
  by (cases n) simp

lemma sum_update:
  fixes f :: "inode \<Rightarrow> nat"
  shows "i < length ns \<Longrightarrow> f x = Suc (f (ns ! i)) \<Longrightarrow> sum_list (map f (ns[i := x])) = Suc (sum_list (map f ns))"
proof (induction ns arbitrary: i)
  case (Cons n ns)
  then show ?case by (cases i) auto
qed simp

lemma exact_insert:
  assumes "ps \<noteq> []" and "list_all exact ns" and "\<And>i. info_at ps ns = Some i \<Longrightarrow> \<not> i_hasSelf i"
  shows "list_all exact (insert_parts d full meta path ps ns) \<and>
    sum_list (map (i_count \<circ> iinfo) (insert_parts d full meta path ps ns)) =
      Suc (sum_list (map (i_count \<circ> iinfo) ns))"
  using assms
proof (induction d full meta path ps ns rule: insert_parts.induct)
  case (2 d full meta path part rest level)
  show ?case
  proof (cases "find_index (\<lambda>n. i_name (iinfo n) = part) level")
    case None
    note IH = "2.IH"(1) [OF refl refl None]
    show ?thesis
      using None IH 2(4) by (cases "rest = []") (auto simp: Let_def bump_def new_info_def comp_def)
  next
    case (Some i)
    note IH = "2.IH"(2) [OF refl refl Some]
    from find_index_SomeD [OF Some] have i: "i < length level" by simp
    let ?old = "level ! i"
    define I where "I = bump (revisit full meta (rest = []) (iinfo ?old))"
    define C where "C = insert_parts d full meta (extend_path d path part) rest (ichildren ?old)"
    have ins: "insert_parts d full meta path (part # rest) level = level[i := INode I C]"
      using Some by (simp add: I_def C_def)
    have old: "exact ?old" using i 2(4) by (simp add: list_all_length)
    have "exact (INode I C)"
    proof (cases "rest = []")
      case True
      with Some 2(5) have "\<not> i_hasSelf (iinfo ?old)" by simp
      with True old [unfolded exact_iff [of ?old]] show ?thesis
        by (simp add: I_def C_def bump_def revisit_def)
    next
      case False
      with Some 2(5) have "\<And>i. info_at rest (ichildren ?old) = Some i \<Longrightarrow> \<not> i_hasSelf i" by simp
      with IH False old [unfolded exact_iff [of ?old]] show ?thesis
        by (simp add: I_def C_def bump_def revisit_def comp_def)
    qed
    moreover have "i_count I = Suc (i_count (iinfo ?old))"
      by (simp add: I_def bump_def revisit_def)
    ultimately show ?thesis
      unfolding ins using i 2(4) sum_update [OF i, of "\<lambda>n. i_count (iinfo n)" "INode I C"]
      by (auto simp: list_all_length nth_list_update comp_def)
  qed
qed simp

lemma exact_rootNodes:
  assumes "d \<noteq> []" and "distinct keys"
  shows "list_all exact (rootNodes d km keys)"
  using assms(2)
proof (induction keys rule: rev_induct)
  case (snoc k keys)
  have "split_on d k \<notin> split_on d ` set keys"
    using snoc.prems split_on_inject [OF assms(1)] by auto
  then have "\<not> i_hasSelf i" if "info_at (split_on d k) (rootNodes d km keys) = Some i" for i
    using that by (auto simp: root_info [OF assms(1)] trie_info_def Let_def split: if_splits)
  with snoc show ?case
    unfolding rootNodes_snoc by (intro conjunct1 [OF exact_insert]) auto
qed (simp add: rootNodes_def)

lemma length_keyed: "exact n \<Longrightarrow> length (keyed n) = i_count (iinfo n)"
proof (induction n)
  case (INode i ch)
  then have "map (length \<circ> keyed) ch = map (i_count \<circ> iinfo) ch" by (auto simp: list_all_iff)
  with INode.prems show ?case by (simp add: length_concat comp_def cong: map_cong)
qed

fun subtrees :: "key_tree \<Rightarrow> key_tree list" where
  "subtrees (KNode i ch) = KNode i ch # concat (map subtrees ch)"

lemma count_transform:
  "wf_inode n \<Longrightarrow> exact n \<Longrightarrow> m \<in> set (subtrees (transform s n)) \<Longrightarrow>
     t_count (tinfo m) = length (collectLeafKeys m)"
proof (induction n)
  case (INode i ch)
  have top: "t_count (tinfo (transform s (INode i ch))) = length (collectLeafKeys (transform s (INode i ch)))"
    using INode.prems(1,2) leaves_transform [of "INode i ch" s] length_keyed [of "INode i ch"]
    by (simp add: collectLeafKeys_leaves Let_def del: transform.simps)
      (simp add: Let_def)
  have self: "t_count (tinfo m) = length (collectLeafKeys m)"
    if "i_hasSelf i" "m = self_leaf s i" for m
    using that INode.prems(1) by (auto simp: self_leaf_def)
  have "m = transform s (INode i ch) \<or> m = self_leaf s i \<and> i_hasSelf i \<or>
      (\<exists>n\<in>set ch. m \<in> set (subtrees (transform s n)))"
    using INode.prems(3) by (auto simp: Let_def self_leaf_def split: if_splits)
  with top self INode show ?case by (auto simp: list_all_iff)
qed

text \<open>
  The number shown beside a folder or key is the number of keys below it, the key itself
  included: what a deletion of that folder collects.
\<close>

theorem key_tree_counts:
  assumes "distinct (stringKeys items)" and "n \<in> set (buildKeyTree t items d)"
    and "m \<in> set (subtrees n)"
  shows "t_count (tinfo m) = length (collectLeafKeys m)"
proof (cases "d = []")
  case True
  have "k \<noteq> []" if "k \<in> set (stringKeys items)" for k using that stringKeys_nonempty by blast
  with True assms(2,3) show ?thesis by (auto simp: buildKeyTree_def)
next
  case False
  then obtain n' where n': "n = transform (t ''redis:keys.currentKey'' []) n'"
    "n' \<in> set (rootNodes d (keyMap items) (stringKeys items))"
    using assms(2) by (auto simp: buildKeyTree_def)
  have "wf_inode n'" "exact n'"
    using wf_rootNodes [OF stringKeys_nonempty, of d "keyMap items" items]
      exact_rootNodes [OF False assms(1), of "keyMap items"] n'(2)
    by (simp_all add: list_all_iff)
  with assms(3) n'(1) show ?thesis by (simp add: count_transform)
qed

theorem key_tree_counts_witness:
  "map (\<lambda>m. (t_name (tinfo m), t_count (tinfo m), length (collectLeafKeys m)))
     (buildKeyTree (\<lambda>_ _. []) [KeyString ''a:b'', KeyString ''a''] '':'') = [(''a'', 2, 2)]"
proof -
  define items where "items = [KeyString ''a:b'', KeyString ''a'']"
  define T where "T = buildKeyTree (\<lambda>_ _. []) items '':''"
  have T: "map (\<lambda>m. (t_name (tinfo m), t_count (tinfo m))) T = [(''a'', 2)]"
    and "distinct (stringKeys items)"
    unfolding T_def items_def by code_simp+
  then obtain n where n: "T = [n]" "t_name (tinfo n) = ''a''" "t_count (tinfo n) = 2" by auto
  have "n \<in> set (subtrees n)" by (cases n) simp
  moreover have "n \<in> set (buildKeyTree (\<lambda>_ _. []) items '':'')" using n(1) by (simp add: T_def)
  ultimately have "t_count (tinfo n) = length (collectLeafKeys n)"
    by (intro key_tree_counts [OF \<open>distinct (stringKeys items)\<close>])
  with n show ?thesis unfolding T_def [symmetric] items_def [symmetric] by simp
qed

text \<open>
  Two nodes can share their key: the path of a node leaves out the delimiter after an empty
  part, so the child \<open>a\<close> of the key \<open>:a\<close> gets the key \<open>a\<close> of the key \<open>a\<close>.
\<close>

theorem leading_delimiter_collides:
  "map (t_key \<circ> tinfo) (concat (map subtrees
     (buildKeyTree t [KeyString '':a'', KeyString ''a''] '':''))) = [[], ''a'', ''a'']"
  by code_simp

subsection \<open>Expiry and value texts\<close>

record ttl_text =
  tt_text :: string
  tt_isPermanent :: bool
  tt_isExpired :: bool

definition plain_ttl :: "string \<Rightarrow> ttl_text" where
  "plain_ttl s = \<lparr>tt_text = s, tt_isPermanent = False, tt_isExpired = False\<rparr>"

definition formatTtl :: "translator \<Rightarrow> int option \<Rightarrow> ttl_text" where
  \<comment> \<open>the default texts are part of the translator\<close>
  "formatTtl t ttlSec =
     (case ttlSec of
        None \<Rightarrow> plain_ttl ''--''
      | Some ttl \<Rightarrow>
          if ttl = -1
          then \<lparr>tt_text = t ''redis:types.permanent'' [], tt_isPermanent = True, tt_isExpired = False\<rparr>
          else if ttl = -2
          then \<lparr>tt_text = t ''redis:types.expired'' [], tt_isPermanent = False, tt_isExpired = True\<rparr>
          else if ttl < 60 then plain_ttl (t ''redis:types.seconds'' [(''s'', show_int ttl)])
          else if ttl < 3600
          then let m = ttl div 60; s = ttl mod 60 in
            plain_ttl (if s > 0
              then t ''redis:types.minutesSeconds'' [(''m'', show_int m), (''s'', show_int s)]
              else t ''redis:types.minutes'' [(''m'', show_int m)])
          else if ttl < 86400
          then let h = ttl div 3600; m = (ttl mod 3600) div 60 in
            plain_ttl (if m > 0
              then t ''redis:types.hoursMinutes'' [(''h'', show_int h), (''m'', show_int m)]
              else t ''redis:types.hours'' [(''h'', show_int h)])
          else let d = ttl div 86400; h = (ttl mod 86400) div 3600 in
            plain_ttl (if h > 0
              then t ''redis:types.daysHours'' [(''d'', show_int d), (''h'', show_int h)]
              else t ''redis:types.days'' [(''d'', show_int d)]))"

record redis_value =
  rv_type :: string
  rv_value :: js_value

definition fmtFields :: "js_value \<Rightarrow> string" where
  "fmtFields f =
     (if \<not> js_truthy f then []
      else case f of
        JObj _ \<Rightarrow> join '' '' (map (\<lambda>(k, v). k @ ''='' @ js_string v) (js_entries f))
      | JArr _ \<Rightarrow> join '' '' (map (\<lambda>(k, v). k @ ''='' @ js_string v) (js_entries f))
      | _ \<Rightarrow> js_string f)"

definition zset_line :: "js_value \<Rightarrow> string option" where
  "zset_line p =
     Option.bind (js_field p ''member'') (\<lambda>m. map_option (\<lambda>s. js_string m @ [CHR 0x0A] @ js_string s)
       (js_field p ''score''))"

definition stream_entry :: "js_value \<Rightarrow> string option" where
  "stream_entry e =
     Option.bind (js_field e ''id'') (\<lambda>i. Option.bind (js_field e ''fields'') (\<lambda>f.
       map_option (\<lambda>v. js_string i @ [CHR 0x0A] @ fmtFields (js_or f v)) (js_field e ''values'')))"

definition formatValue :: "redis_value option \<Rightarrow> string option" where
  \<comment> \<open>\<open>None\<close> is the TypeError of a null element\<close>
  "formatValue rv =
     (case rv of
        None \<Rightarrow> Some []
      | Some v \<Rightarrow>
          (case rv_value v of
             JStr s \<Rightarrow> Some s
           | val \<Rightarrow>
               if rv_type v = ''list'' \<or> rv_type v = ''set'' then Some (join_any [CHR 0x0A] (array_or_empty val))
               else if rv_type v = ''hash''
               then (case val of
                       JObj es \<Rightarrow> Some (join [CHR 0x0A] (map (\<lambda>(k, x). k @ [CHR 0x0A] @ js_string x) es))
                     | _ \<Rightarrow> Some (string_or_empty val))
               else if rv_type v = ''zset''
               then map_option (join [CHR 0x0A]) (those (map zset_line (array_or_empty val)))
               else if rv_type v = ''stream''
               then map_option (join ([CHR 0x0A] @ ''---'' @ [CHR 0x0A]))
                      (those (map stream_entry (array_or_empty val)))
               else Some (string_or_empty val)))"

end
