(* ===== verification/ApiTypes.thy ===== *)
theory ApiTypes
  imports Prelude
begin

section \<open>The records of the API client\<close>

text \<open>
  The request, response and saved-item types of \<open>types.ts\<close>, with the constants and pure helpers of
  \<open>pages/api/apiTypes.ts\<close> that do not concern the tree. A method is a string, because a saved item
  can carry the value \<open>WS\<close> as well.
\<close>

type_synonym api_method = string

record api_header =
  hd_name :: string
  hd_value :: string
  hd_enabled :: bool

record api_auth =
  au_type :: string
  au_username :: string
  au_password :: string
  au_token :: string

record api_request =
  rq_method :: api_method
  rq_url :: string
  rq_headers :: "api_header list"
  rq_body :: string
  rq_timeoutMs :: int
  rq_insecureTLS :: bool
  rq_followRedirects :: bool
  rq_auth :: api_auth

record api_response =
  rs_status :: string
  rs_statusCode :: int
  rs_proto :: string
  rs_headers :: "(string \<times> string) list"
  rs_body :: string
  rs_durationMs :: int
  rs_size :: int
  rs_error :: string

datatype api_mode = Http | Ws

datatype ws_status = WsIdle | WsConnecting | WsOpen | WsClosed | WsError

datatype ws_dir = DirIn | DirOut | DirSys

datatype ws_payload = WsText | WsBinary | WsSystem

record ws_message =
  wm_dir :: ws_dir
  wm_payload :: string
  wm_type :: ws_payload
  wm_ts :: int
  wm_error :: "string option"

record ws_connect_result =
  wr_id :: string
  wr_url :: string
  wr_status :: string
  wr_error :: string

record saved_api =
  sa_id :: string
  sa_name :: string
  sa_mode :: "api_mode option"
  sa_method :: api_method
  sa_url :: string
  sa_params :: "api_header list option"
  sa_headers :: "api_header list option"
  sa_bodyType :: "string option"
  sa_body :: "string option"
  sa_auth :: "api_auth option"
  sa_timeoutMs :: "int option"
  sa_insecureTLS :: "bool option"
  sa_followRedirects :: "bool option"
  sa_wsProtocols :: "string option"
  sa_createdAt :: int
  sa_updatedAt :: int

definition METHODS :: "api_method list" where
  "METHODS = [''GET'', ''POST'', ''PUT'', ''PATCH'', ''DELETE'', ''HEAD'', ''OPTIONS'']"

record body_type =
  bt_value :: string
  bt_ct :: string

definition BODY_TYPES :: "body_type list" where
  "BODY_TYPES =
     [\<lparr>bt_value = ''none'', bt_ct = []\<rparr>, \<lparr>bt_value = ''json'', bt_ct = ''application/json''\<rparr>,
      \<lparr>bt_value = ''text'', bt_ct = ''text/plain''\<rparr>, \<lparr>bt_value = ''xml'', bt_ct = ''application/xml''\<rparr>]"

definition emptyAuth :: api_auth where
  "emptyAuth = \<lparr>au_type = ''none'', au_username = [], au_password = [], au_token = []\<rparr>"

definition looksLikeJson :: "string \<Rightarrow> bool" where
  "looksLikeJson s =
     (let t = trim s in
      (starts_with t ''{'' \<and> ends_with t ''}'') \<or> (starts_with t ''['' \<and> ends_with t '']''))"

definition statusClass :: "int \<Rightarrow> bool \<Rightarrow> string" where
  "statusClass code hasError =
     (if hasError then ''statusError''
      else if code \<ge> 200 \<and> code < 300 then ''statusOk''
      else if code \<ge> 300 \<and> code < 400 then ''statusRedirect''
      else if code \<ge> 400 \<and> code < 500 then ''statusClientErr''
      else if code \<ge> 500 then ''statusServerErr'' else ''statusUnknown'')"

subsection \<open>The request that is sent\<close>

definition scheme_ok :: "string \<Rightarrow> bool" where
  \<comment> \<open>\<open>/^https?:\/\//i\<close>\<close>
  "scheme_ok s \<longleftrightarrow> starts_with (to_lower s) ''http://'' \<or> starts_with (to_lower s) ''https://''"

definition active_header :: "api_header \<Rightarrow> bool" where
  "active_header h \<longleftrightarrow> hd_enabled h \<and> trim (hd_name h) \<noteq> []"

definition is_content_type :: "api_header \<Rightarrow> bool" where
  "is_content_type h \<longleftrightarrow> to_lower (hd_name h) = ''content-type''"

definition body_content_type :: "body_type list \<Rightarrow> string \<Rightarrow> string" where
  "body_content_type types bodyType =
     (case find (\<lambda>t. bt_value t = bodyType) types of None \<Rightarrow> [] | Some t \<Rightarrow> bt_ct t)"

definition request_headers :: "body_type list \<Rightarrow> api_header list \<Rightarrow> string \<Rightarrow> string \<Rightarrow> api_header list" where
  "request_headers types headers bodyType body =
     (let hs = filter active_header headers; ct = body_content_type types bodyType in
      if bodyType \<noteq> ''none'' \<and> trim body \<noteq> [] \<and> ct \<noteq> [] \<and> \<not> list_ex is_content_type hs
      then hs @ [\<lparr>hd_name = ''Content-Type'', hd_value = ct, hd_enabled = True\<rparr>]
      else hs)"

definition buildRequest ::
  "api_method \<Rightarrow> string \<Rightarrow> api_header list \<Rightarrow> string \<Rightarrow> string \<Rightarrow> int \<Rightarrow> bool \<Rightarrow> bool \<Rightarrow> api_auth \<Rightarrow>
   body_type list \<Rightarrow> api_request" where
  "buildRequest method url headers bodyType body timeoutMs insecureTLS followRedirects auth bodyTypes =
     \<lparr>rq_method = method,
      rq_url = (if scheme_ok (trim url) then trim url else ''http://'' @ trim url),
      rq_headers = request_headers bodyTypes headers bodyType body,
      rq_body = (if bodyType = ''none'' then [] else body),
      rq_timeoutMs = timeoutMs, rq_insecureTLS = insecureTLS,
      rq_followRedirects = followRedirects, rq_auth = auth\<rparr>"

subsection \<open>What the form asks for\<close>

text \<open>
  The specification of the request, in the words of the form: which rows of the header table count, which media type stands
  behind the name of a body type, and when an address names its scheme.
\<close>

definition media_type :: "string \<Rightarrow> string option" where
  "media_type = [''json'' \<mapsto> ''application/json'', ''text'' \<mapsto> ''text/plain'', ''xml'' \<mapsto> ''application/xml'']"

definition own_headers :: "api_header list \<Rightarrow> api_header list" where
  \<comment> \<open>the rows that are ticked and have a name\<close>
  "own_headers hs = [h \<leftarrow> hs. hd_enabled h \<and> trim (hd_name h) \<noteq> []]"

definition names_http :: "string \<Rightarrow> bool" where
  \<comment> \<open>in any mixture of cases\<close>
  "names_http u \<longleftrightarrow> (\<exists>s r. u = s @ r \<and> to_lower s \<in> {''http://'', ''https://''})"

definition added_header :: "string \<Rightarrow> string \<Rightarrow> api_header list \<Rightarrow> api_header list" where
  \<comment> \<open>the header a body brings with it, unless the user wrote one of that name\<close>
  "added_header bodyType body own =
     (case media_type bodyType of
        None \<Rightarrow> []
      | Some mt \<Rightarrow>
          if trim body = [] \<or> (\<exists>h \<in> set own. to_lower (hd_name h) = ''content-type'') then []
          else [\<lparr>hd_name = ''Content-Type'', hd_value = mt, hd_enabled = True\<rparr>])"

lemma scheme_names_http: "scheme_ok u \<longleftrightarrow> names_http u"
proof
  assume "scheme_ok u"
  then obtain p where p: "p \<in> {''http://'', ''https://''}" "starts_with (to_lower u) p"
    by (auto simp: scheme_ok_def)
  then have "to_lower (take (length p) u) = p" by (auto simp: starts_with_def prefix_def to_lower_def take_map [symmetric])
  with p(1) show "names_http u" unfolding names_http_def by (metis append_take_drop_id)
next
  assume "names_http u"
  then show "scheme_ok u" by (auto simp: names_http_def scheme_ok_def starts_with_def to_lower_def)
qed

lemma http_names_http: "names_http (''http://'' @ s)"
proof -
  have "to_lower ''http://'' = ''http://''" by code_simp
  then show ?thesis unfolding names_http_def by blast
qed

lemma media_type_listed:
  "media_type t = (if t = ''none'' \<or> body_content_type BODY_TYPES t = [] then None else Some (body_content_type BODY_TYPES t))"
  by (simp add: media_type_def body_content_type_def BODY_TYPES_def)

lemma request_headers_spec:
  "request_headers BODY_TYPES hs bodyType body = own_headers hs @ added_header bodyType body (own_headers hs)"
  by (auto simp: request_headers_def active_header_def [abs_def] own_headers_def [abs_def] added_header_def media_type_listed
      is_content_type_def list_ex_iff Let_def)

text \<open>
  C29: the request that is sent is the form's. Its headers are the ticked rows with a name, in their order,
  followed by a \<open>Content-Type\<close> with the media type of the body exactly when the body is not blank, its type is one of JSON, text or XML
  and no ticked row already has that name in any case. Its address is the one typed, without the blanks around it, with
  \<open>http://\<close> before it exactly when it names neither HTTP nor HTTPS, so that it always names one of them. The method, the body (none for the type
  \<open>none\<close>), the time limit, the two switches and the credentials are those of the form.
\<close>

theorem request_well_formed:
  "let r = buildRequest method url headers bodyType body timeoutMs insecureTLS followRedirects auth BODY_TYPES in
    rq_headers r = own_headers headers @ added_header bodyType body (own_headers headers) \<and>
    rq_url r = (if names_http (trim url) then trim url else ''http://'' @ trim url) \<and> names_http (rq_url r) \<and>
    rq_method r = method \<and> rq_body r = (if bodyType = ''none'' then [] else body) \<and>
    rq_timeoutMs r = timeoutMs \<and> rq_insecureTLS r = insecureTLS \<and> rq_followRedirects r = followRedirects \<and> rq_auth r = auth"
  using http_names_http [of "trim url"]
  unfolding buildRequest_def scheme_names_http request_headers_spec Let_def by simp

end
