(* ===== verification/ApiTree.thy ===== *)
theory ApiTree
  imports ApiTypes "HOL-Library.Multiset"
begin

section \<open>The tree of saved interfaces\<close>

text \<open>
  The pure tree functions of \<open>pages/api/apiTypes.ts\<close> and the move of \<open>pages/api/useApi.ts\<close>. A node
  is a folder with its children or a saved request; trees are well typed, so the guards for null
  nodes and children that are no arrays have no branch here. The lemmas count ids: every operation
  is described by what it does to the multiset of the ids of the tree.
\<close>

record folder_info =
  fo_id :: string
  fo_name :: string
  fo_createdAt :: int
  fo_updatedAt :: int

datatype api_node = Item saved_api | Folder folder_info "api_node list"

fun node_id :: "api_node \<Rightarrow> string" where
  "node_id (Item a) = sa_id a"
| "node_id (Folder f ch) = fo_id f"

fun isFolder :: "api_node \<Rightarrow> bool" where
  "isFolder (Item a) = False"
| "isFolder (Folder f ch) = True"

fun find_in :: "string \<Rightarrow> api_node list \<Rightarrow> api_node option" where
  "find_in i [] = None"
| "find_in i (Item a # ns) = (if sa_id a = i then Some (Item a) else find_in i ns)"
| "find_in i (Folder f ch # ns) =
     (if fo_id f = i then Some (Folder f ch)
      else case find_in i ch of Some n \<Rightarrow> Some n | None \<Rightarrow> find_in i ns)"

definition findTreeNode :: "api_node list \<Rightarrow> string \<Rightarrow> api_node option" where
  "findTreeNode nodes i = (if i = [] then None else find_in i nodes)"

fun remove_in :: "string \<Rightarrow> api_node list \<Rightarrow> api_node option \<Rightarrow> api_node list \<times> api_node option" where
  \<comment> \<open>\<open>traverse\<close>; the last argument is the variable \<open>removed\<close> it assigns\<close>
  "remove_in i [] removed = ([], removed)"
| "remove_in i (Item a # ns) removed =
     (if sa_id a = i then remove_in i ns (Some (Item a))
      else let (ns', r) = remove_in i ns removed in (Item a # ns', r))"
| "remove_in i (Folder f ch # ns) removed =
     (if fo_id f = i then remove_in i ns (Some (Folder f ch))
      else let (ch', r1) = remove_in i ch removed; (ns', r2) = remove_in i ns r1
           in (Folder f ch' # ns', r2))"

definition removeTreeNode :: "api_node list \<Rightarrow> string \<Rightarrow> api_node list \<times> api_node option" where
  "removeTreeNode nodes i = (if i = [] then ([], None) else remove_in i nodes None)"

text \<open>A partial update: what the patch does to an item and to a folder.\<close>

record api_patch =
  pa_item :: "saved_api \<Rightarrow> saved_api"
  pa_folder :: "folder_info \<Rightarrow> folder_info"

fun update_in :: "int \<Rightarrow> string \<Rightarrow> api_patch \<Rightarrow> api_node \<Rightarrow> api_node" where
  "update_in now i p (Item a) =
     (if sa_id a = i then Item ((pa_item p a)\<lparr>sa_updatedAt := now\<rparr>) else Item a)"
| "update_in now i p (Folder f ch) =
     (if fo_id f = i then Folder ((pa_folder p f)\<lparr>fo_updatedAt := now\<rparr>) ch
      else Folder f (map (update_in now i p) ch))"

definition updateTreeNode :: "int \<Rightarrow> api_node list \<Rightarrow> string \<Rightarrow> api_patch \<Rightarrow> api_node list" where
  \<comment> \<open>\<open>now\<close> is \<open>Date.now()\<close>\<close>
  "updateTreeNode now nodes i p = (if i = [] then [] else map (update_in now i p) nodes)"

fun insert_in :: "int \<Rightarrow> string \<Rightarrow> api_node \<Rightarrow> api_node \<Rightarrow> api_node" where
  "insert_in now i new (Item a) = Item a"
| "insert_in now i new (Folder f ch) =
     (if fo_id f = i then Folder (f\<lparr>fo_updatedAt := now\<rparr>) (new # ch)
      else Folder f (map (insert_in now i new) ch))"

definition insertTreeNode :: "int \<Rightarrow> api_node list \<Rightarrow> string option \<Rightarrow> api_node \<Rightarrow> api_node list" where
  "insertTreeNode now nodes target new =
     (case target of
        None \<Rightarrow> new # nodes
      | Some i \<Rightarrow> if i = [] then new # nodes else map (insert_in now i new) nodes)"

fun getFolderOptions :: "string \<Rightarrow> string \<Rightarrow> api_node list \<Rightarrow> (string \<times> string) list" where
  \<comment> \<open>label and value; the second argument is the prefix\<close>
  "getFolderOptions def pre [] = []"
| "getFolderOptions def pre (Item a # ns) = getFolderOptions def pre ns"
| "getFolderOptions def pre (Folder f ch # ns) =
     (let folderName = str_or (fo_name f) def;
          label = (if pre \<noteq> [] then pre @ '' / '' @ folderName else folderName)
      in (label, fo_id f) # getFolderOptions def label ch @ getFolderOptions def pre ns)"

fun countApiItems :: "api_node list \<Rightarrow> nat" where
  "countApiItems [] = 0"
| "countApiItems (Item a # ns) = Suc (countApiItems ns)"
| "countApiItems (Folder f ch # ns) = countApiItems ch + countApiItems ns"

definition text_matches :: "string \<Rightarrow> string \<Rightarrow> bool" where
  "text_matches kw s \<longleftrightarrow> includes_str (to_lower s) kw"

definition item_matches :: "string \<Rightarrow> saved_api \<Rightarrow> bool" where
  "item_matches kw a \<longleftrightarrow>
     text_matches kw (sa_name a) \<or> text_matches kw (sa_url a) \<or> text_matches kw (sa_method a)"

fun filter_in :: "string \<Rightarrow> api_node list \<Rightarrow> api_node list \<times> string list" where
  \<comment> \<open>the result and the ids pushed to \<open>matchedKeys\<close>, in order\<close>
  "filter_in kw [] = ([], [])"
| "filter_in kw (Item a # ns) =
     (let (ns', ks) = filter_in kw ns in
      if item_matches kw a then (Item a # ns', sa_id a # ks) else (ns', ks))"
| "filter_in kw (Folder f ch # ns) =
     (let (ch', ks1) = filter_in kw ch; (ns', ks2) = filter_in kw ns in
      if text_matches kw (fo_name f) \<or> ch' \<noteq> []
      then (Folder f (if ch' \<noteq> [] then ch' else ch) # ns', ks1 @ fo_id f # ks2)
      else (ns', ks1 @ ks2))"

definition filterApiTree :: "api_node list \<Rightarrow> string \<Rightarrow> api_node list \<times> string list" where
  "filterApiTree nodes keyword =
     (let kw = to_lower (trim keyword) in if kw = [] then (nodes, []) else filter_in kw nodes)"

subsection \<open>Moving a node\<close>

fun insert_at_level :: "string \<Rightarrow> int \<Rightarrow> api_node \<Rightarrow> api_node list \<Rightarrow> api_node list"
  and insert_below :: "string \<Rightarrow> int \<Rightarrow> api_node \<Rightarrow> api_node \<Rightarrow> api_node" where
  "insert_at_level dropKey pos removed list =
     (case find_index (\<lambda>n. node_id n = dropKey) list of
        Some idx \<Rightarrow>
          (let k = (if pos = -1 then idx else idx + 1) in take k list @ removed # drop k list)
      | None \<Rightarrow> map (insert_below dropKey pos removed) list)"
| "insert_below dropKey pos removed (Item a) = Item a"
| "insert_below dropKey pos removed (Folder f ch) =
     Folder f (insert_at_level dropKey pos removed ch)"

definition moveTreeNode ::
  "int \<Rightarrow> string \<Rightarrow> string \<Rightarrow> int \<Rightarrow> bool \<Rightarrow> api_node list \<Rightarrow> api_node list" where
  "moveTreeNode now dragKey dropKey dropPosition dropToGap prev =
     (case removeTreeNode prev dragKey of
        (newNodes, None) \<Rightarrow> prev
      | (newNodes, Some removed) \<Rightarrow>
          if \<not> dropToGap then insertTreeNode now newNodes (Some dropKey) removed
          else insert_at_level dropKey dropPosition removed newNodes)"

subsection \<open>What a tree holds\<close>

text \<open>An entry is a saved request with its whole content, or a folder's id and name.\<close>

type_synonym entry = "saved_api + (string \<times> string)"

fun entries_of :: "api_node \<Rightarrow> entry list" where
  "entries_of (Item a) = [Inl a]"
| "entries_of (Folder f ch) = Inr (fo_id f, fo_name f) # concat (map entries_of ch)"

definition entries :: "api_node list \<Rightarrow> entry list" where
  "entries ns = concat (map entries_of ns)"

fun entry_id :: "entry \<Rightarrow> string" where
  "entry_id (Inl a) = sa_id a"
| "entry_id (Inr fn) = fst fn"

definition tree_ids :: "api_node list \<Rightarrow> string list" where
  "tree_ids ns = map entry_id (entries ns)"

definition folder_ids :: "api_node list \<Rightarrow> string set" where
  "folder_ids ns = {i. \<exists>n. Inr (i, n) \<in> set (entries ns)}"

lemma entries_simps [simp, tree_simps]:
  "entries [] = []" "entries (n # ns) = entries_of n @ entries ns"
  "entries (ms @ ns) = entries ms @ entries ns"
  "entries_of (Folder f ch) = Inr (fo_id f, fo_name f) # entries ch"
  by (simp_all add: entries_def)

declare entries_of.simps(2) [simp del]

lemma tree_ids_simps [simp, tree_simps]:
  "tree_ids [] = []" "tree_ids (n # ns) = map entry_id (entries_of n) @ tree_ids ns"
  "tree_ids (ms @ ns) = tree_ids ms @ tree_ids ns"
  by (simp_all add: tree_ids_def)

lemma entry_ids [simp, tree_simps]:
  "map entry_id (entries ns) = tree_ids ns" "entry_id ` set (entries ns) = set (tree_ids ns)"
  by (simp_all add: tree_ids_def)

lemma folder_ids_simps [simp, tree_simps]:
  "folder_ids [] = {}" "folder_ids (Item a # ns) = folder_ids ns"
  "folder_ids (Folder f ch # ns) = insert (fo_id f) (folder_ids ch \<union> folder_ids ns)"
  by (auto simp: folder_ids_def)

lemma folder_ids_subset: "folder_ids ns \<subseteq> set (tree_ids ns)"
  unfolding folder_ids_def entry_ids(2) [symmetric] by (force simp del: entry_ids)

lemma find_in_None: "find_in i ns = None \<longleftrightarrow> i \<notin> set (tree_ids ns)"
  by (induction i ns rule: find_in.induct) (auto split: option.splits)

lemma find_in_id: "find_in i ns = Some n \<Longrightarrow> node_id n = i"
  by (induction i ns rule: find_in.induct) (auto split: if_splits option.splits)

lemma find_in_entries: "find_in i ns = Some n \<Longrightarrow> set (entries_of n) \<subseteq> set (entries ns)"
  by (induction i ns rule: find_in.induct) (auto split: if_splits option.splits)

subsection \<open>Removing\<close>

lemma remove_absent: "i \<notin> set (tree_ids ns) \<Longrightarrow> remove_in i ns r = (ns, r)"
  by (induction i ns r rule: remove_in.induct) auto

lemma remove_present:
  "i \<in> set (tree_ids ns) \<Longrightarrow> distinct (tree_ids ns) \<Longrightarrow>
     snd (remove_in i ns r) = find_in i ns \<and>
     (\<exists>n. find_in i ns = Some n \<and>
        mset (entries ns) = mset (entries (fst (remove_in i ns r))) + mset (entries_of n))"
proof (induction i ns r rule: remove_in.induct)
  case (2 i a ns removed)
  show ?case
  proof (cases "sa_id a = i")
    case True
    with 2 show ?thesis by (simp add: remove_absent)
  next
    case False
    with 2 show ?thesis by (auto simp: split_beta)
  qed
next
  case (3 i f ch ns removed)
  show ?case
  proof (cases "fo_id f = i")
    case True
    with 3(5) have "i \<notin> set (tree_ids ns)" by auto
    with True show ?thesis by (simp add: remove_absent union_commute)
  next
    case False
    obtain ch' r1 where ch': "remove_in i ch removed = (ch', r1)" by fastforce
    note IH1 = "3.IH"(2) [OF False]
    note IH2 = "3.IH"(3) [OF False ch' [symmetric] refl]
    show ?thesis
    proof (cases "i \<in> set (tree_ids ch)")
      case True
      with 3(5) have "i \<notin> set (tree_ids ns)" by auto
      with IH1 True 3(5) False ch' show ?thesis by (auto simp: remove_absent)
    next
      case no: False
      with 3(4) False have "i \<in> set (tree_ids ns)" by simp
      moreover have "find_in i ch = None" using no by (simp add: find_in_None)
      moreover have "ch' = ch" "r1 = removed" using remove_absent [OF no, of removed] ch' by simp_all
      ultimately show ?thesis using IH2 3(5) False ch' by (auto simp: split_beta)
    qed
  qed
qed simp

lemma remove_entries:
  assumes "distinct (tree_ids ns)" and "i \<noteq> []"
  shows "case removeTreeNode ns i of
      (ms, None) \<Rightarrow> ms = ns \<and> i \<notin> set (tree_ids ns)
    | (ms, Some n) \<Rightarrow> findTreeNode ns i = Some n \<and> mset (entries ns) = mset (entries ms) + mset (entries_of n)"
proof (cases "i \<in> set (tree_ids ns)")
  case True
  from remove_present [OF this assms(1), of None] show ?thesis
    using assms(2) by (auto simp: removeTreeNode_def findTreeNode_def split_beta split: option.splits)
next
  case False
  with assms(2) show ?thesis by (simp add: removeTreeNode_def remove_absent)
qed

subsection \<open>Inserting and moving\<close>

lemmas tree_induct = countApiItems.induct

lemma insert_absent: "i \<notin> folder_ids ns \<Longrightarrow> map (insert_in now i new) ns = ns"
  by (induction ns rule: tree_induct) auto

lemma insert_entries:
  "distinct (tree_ids ns) \<Longrightarrow>
     mset (entries (map (insert_in now i new) ns)) =
       mset (entries ns) + (if i \<in> folder_ids ns then mset (entries_of new) else {#})"
proof (induction ns rule: tree_induct)
  case (3 f ch ns)
  show ?case
  proof (cases "fo_id f = i")
    case True
    with 3(3) have "i \<notin> folder_ids ch" "i \<notin> folder_ids ns"
      using folder_ids_subset by auto
    with True show ?thesis by (simp add: insert_absent)
  next
    case False
    have "\<not> (i \<in> folder_ids ch \<and> i \<in> folder_ids ns)"
      using 3(3) folder_ids_subset by fastforce
    with False 3 show ?thesis by auto
  qed
qed simp_all

lemma top_ids: "node_id ` set ns \<subseteq> set (tree_ids ns)"
  by (induction ns rule: tree_induct) auto

lemma find_index_top: "find_index (\<lambda>n. node_id n = k) ns = None \<longleftrightarrow> k \<notin> node_id ` set ns"
  by (auto simp: find_index_None)

lemma insert_at_found:
  "find_index (\<lambda>n. node_id n = k) ns = Some j \<Longrightarrow>
     mset (entries (insert_at_level k p r ns)) = mset (entries ns) + mset (entries_of r)"
  using entries_simps(3) [of "take m ns" "drop m ns" for m]
  by (simp add: Let_def) (metis add.assoc append_take_drop_id mset_append union_commute)

lemma insert_below_entries:
  "distinct (tree_ids ns) \<Longrightarrow>
     mset (entries (map (insert_below k p r) ns)) =
       mset (entries ns) +
         (if k \<in> set (tree_ids ns) \<and> k \<notin> node_id ` set ns then mset (entries_of r) else {#})"
proof (induction ns rule: tree_induct)
  case (2 a ns)
  then show ?case using top_ids [of ns] by auto
next
  case (3 f ch ns)
  have ch: "mset (entries (insert_at_level k p r ch)) =
      mset (entries ch) + (if k \<in> set (tree_ids ch) then mset (entries_of r) else {#})"
  proof (cases "find_index (\<lambda>n. node_id n = k) ch")
    case None
    then have "k \<notin> node_id ` set ch" by (simp add: find_index_top)
    with None 3 show ?thesis by simp
  next
    case (Some j)
    then have "k \<in> node_id ` set ch" using find_index_top [of k ch] by auto
    with Some show ?thesis using insert_at_found [OF Some] top_ids [of ch] by auto
  qed
  show ?case using 3 ch top_ids [of ns] by (auto simp del: insert_at_level.simps)
qed simp

lemma insert_at_entries:
  assumes "distinct (tree_ids ns)"
  shows "mset (entries (insert_at_level k p r ns)) =
    mset (entries ns) + (if k \<in> set (tree_ids ns) then mset (entries_of r) else {#})"
proof (cases "find_index (\<lambda>n. node_id n = k) ns")
  case None
  then have "k \<notin> node_id ` set ns" by (simp add: find_index_top)
  with None insert_below_entries [OF assms] show ?thesis by simp
next
  case (Some j)
  then have "k \<in> node_id ` set ns" using find_index_top [of k ns] by auto
  with Some show ?thesis using insert_at_found [OF Some] top_ids [of ns] by auto
qed

definition drop_ok :: "string \<Rightarrow> bool \<Rightarrow> api_node list \<Rightarrow> bool" where
  \<comment> \<open>the place a node is dropped on still exists: beside a node, inside a folder, or the root\<close>
  "drop_ok dropKey dropToGap ns \<longleftrightarrow>
     (if dropToGap then dropKey \<in> set (tree_ids ns) else dropKey = [] \<or> dropKey \<in> folder_ids ns)"

lemma move_entries:
  assumes "distinct (tree_ids prev)" and "dragKey \<noteq> []" and "removeTreeNode prev dragKey = (ms, Some n)"
  shows "mset (entries (moveTreeNode now dragKey dropKey pos gap prev)) =
    mset (entries ms) + (if drop_ok dropKey gap ms then mset (entries_of n) else {#})"
proof -
  have "mset (entries prev) = mset (entries ms) + mset (entries_of n)"
    using remove_entries [OF assms(1,2)] assms(3) by simp
  then have "mset (tree_ids prev) = mset (tree_ids ms) + mset (map entry_id (entries_of n))"
    unfolding tree_ids_def mset_map by simp
  then have "mset (tree_ids prev) = mset (tree_ids ms @ map entry_id (entries_of n))" by simp
  from mset_eq_imp_distinct_iff [OF this] have "distinct (tree_ids ms)" using assms(1) by simp
  then show ?thesis
    using assms(3) insert_at_entries [of ms dropKey pos n] insert_entries [of ms now dropKey n]
    by (auto simp: moveTreeNode_def insertTreeNode_def drop_ok_def simp del: insert_at_level.simps)
qed

lemma entries_minus_ids:
  assumes "distinct (tree_ids ns)" and "mset (entries ns) = mset (entries ms) + mset (entries_of n)"
  shows "set (tree_ids ms) = set (tree_ids ns) - entry_id ` set (entries_of n)"
    and "folder_ids ms = folder_ids ns - entry_id ` set (entries_of n)"
proof -
  have ids: "mset (tree_ids ns) = mset (tree_ids ms) + mset (map entry_id (entries_of n))"
    using assms(2) unfolding tree_ids_def mset_map by simp
  then have un: "set (tree_ids ns) = set (tree_ids ms) \<union> entry_id ` set (entries_of n)"
    by (metis set_mset_mset set_mset_union set_map)
  have "distinct (tree_ids ms @ map entry_id (entries_of n))"
    using assms(1) ids mset_eq_imp_distinct_iff [of "tree_ids ns" "tree_ids ms @ map entry_id (entries_of n)"]
    by simp
  then have dis: "set (tree_ids ms) \<inter> entry_id ` set (entries_of n) = {}" by auto
  from un dis show "set (tree_ids ms) = set (tree_ids ns) - entry_id ` set (entries_of n)" by auto
  have un': "set (entries ns) = set (entries ms) \<union> set (entries_of n)"
    using assms(2) by (metis set_mset_mset set_mset_union)
  have "folder_ids ms \<inter> entry_id ` set (entries_of n) = {}" using dis folder_ids_subset by fast
  moreover have "folder_ids ns \<subseteq> folder_ids ms \<union> entry_id ` set (entries_of n)"
    "folder_ids ms \<subseteq> folder_ids ns"
    unfolding folder_ids_def un' by force+
  ultimately show "folder_ids ms = folder_ids ns - entry_id ` set (entries_of n)" by blast
qed

text \<open>
  A move to a place outside the moved node keeps the whole tree: every saved request with its
  full content and every folder is there exactly as often as before, wherever the node is dropped.
\<close>

theorem move_keeps_everything:
  assumes "distinct (tree_ids prev)" and "drop_ok dropKey gap prev"
    and "\<And>n. findTreeNode prev dragKey = Some n \<Longrightarrow> dropKey \<notin> entry_id ` set (entries_of n)"
  shows "mset (entries (moveTreeNode now dragKey dropKey pos gap prev)) = mset (entries prev)"
proof (cases "snd (removeTreeNode prev dragKey)")
  case None
  then show ?thesis by (simp add: moveTreeNode_def split_beta)
next
  case (Some n)
  then obtain ms where rm: "removeTreeNode prev dragKey = (ms, Some n)" by (metis prod.collapse)
  then have key: "dragKey \<noteq> []" by (auto simp: removeTreeNode_def)
  from remove_entries [OF assms(1) key] rm
  have n: "findTreeNode prev dragKey = Some n" "mset (entries prev) = mset (entries ms) + mset (entries_of n)"
    by simp_all
  have "drop_ok dropKey gap ms"
    using assms(2) assms(3) [OF n(1)] entries_minus_ids [OF assms(1) n(2)]
    by (auto simp: drop_ok_def split: if_splits)
  with move_entries [OF assms(1) key rm] n(2) show ?thesis by simp
qed

definition demo_item :: "string \<Rightarrow> saved_api" where
  "demo_item i = \<lparr>sa_id = i, sa_name = i, sa_mode = None, sa_method = ''GET'', sa_url = i, sa_params = None,
     sa_headers = None, sa_bodyType = None, sa_body = None, sa_auth = None, sa_timeoutMs = None,
     sa_insecureTLS = None, sa_followRedirects = None, sa_wsProtocols = None, sa_createdAt = 0,
     sa_updatedAt = 0\<rparr>"

definition demo_folder :: "string \<Rightarrow> api_node list \<Rightarrow> api_node" where
  "demo_folder i ch = Folder \<lparr>fo_id = i, fo_name = i, fo_createdAt = 0, fo_updatedAt = 0\<rparr> ch"

lemmas demo_eval = demo_item_def demo_folder_def findTreeNode_def drop_ok_def

theorem move_keeps_everything_witness:
  "mset (entries (moveTreeNode 7 ''a'' ''g'' 0 False
     [demo_folder ''f'' [Item (demo_item ''a'')], demo_folder ''g'' []])) =
   mset (entries [demo_folder ''f'' [Item (demo_item ''a'')], demo_folder ''g'' []])"
  by (rule move_keeps_everything) (auto simp: demo_eval)

text \<open>The dialog "move to folder" of \<open>ApiTreeList.tsx\<close>.\<close>

definition folderSelectOptions :: "translator \<Rightarrow> string \<Rightarrow> bool \<Rightarrow> api_node list \<Rightarrow> (string \<times> string) list" where
  "folderSelectOptions t targetId targetIsFolder apiTree =
     (let raw = getFolderOptions (t ''api:types.defaultFolder'' []) [] apiTree;
          filtered = (if targetIsFolder then filter (\<lambda>opt. snd opt \<noteq> targetId) raw else raw)
      in (t ''api:tree.rootFolder'' [], ''__root__'') # filtered)"

definition handleConfirmMove :: "int \<Rightarrow> string \<Rightarrow> string \<Rightarrow> api_node list \<Rightarrow> api_node list" where
  "handleConfirmMove now targetId targetFolderSelect apiTree =
     (if targetId = [] then apiTree
      else let targetParent = (if targetFolderSelect = ''__root__'' then [] else targetFolderSelect)
        in moveTreeNode now targetId targetParent 0 False apiTree)"

lemma folder_option_values: "snd ` set (getFolderOptions def pre ns) = folder_ids ns"
  by (induction def pre ns rule: getFolderOptions.induct) (auto simp: Let_def image_Un)

lemma find_folder_ids:
  "find_in i ns = Some (Folder f ch) \<Longrightarrow> folder_ids ch \<subseteq> folder_ids ns"
  using find_in_entries [of i ns "Folder f ch"] by (auto simp: folder_ids_def)

text \<open>
  The dialog loses data. For a folder that has a folder below it, the dialog offers that inner
  folder as the target, because it filters out only the folder itself; confirming it removes the
  outer folder with everything in it from the tree.
\<close>

theorem move_dialog_deletes:
  assumes "distinct (tree_ids prev)" and "findTreeNode prev f = Some (Folder fi ch)"
    and "g \<in> folder_ids ch" and "g \<noteq> []" and "g \<noteq> ''__root__''"
  shows "g \<in> snd ` set (folderSelectOptions t f True prev) \<and>
    mset (entries (handleConfirmMove now f g prev)) + mset (entries_of (Folder fi ch)) = mset (entries prev)"
proof -
  from assms(2) have f: "f \<noteq> []" "find_in f prev = Some (Folder fi ch)"
    by (auto simp: findTreeNode_def split: if_splits)
  have inner: "g \<in> entry_id ` set (entries_of (Folder fi ch))"
    using assms(3) folder_ids_subset [of ch] by auto
  from f have present: "f \<in> set (tree_ids prev)" by (metis find_in_None option.distinct(1))
  then obtain ms n where rm: "removeTreeNode prev f = (ms, Some n)"
    using remove_entries [OF assms(1) f(1)] by (auto split: option.splits prod.splits)
  with remove_entries [OF assms(1) f(1)] assms(2)
  have n: "n = Folder fi ch" "mset (entries prev) = mset (entries ms) + mset (entries_of n)" by simp_all
  have "\<not> drop_ok g False ms"
    using inner entries_minus_ids(2) [OF assms(1) n(2)] assms(4) by (simp add: drop_ok_def n(1))
  then have "mset (entries (handleConfirmMove now f g prev)) = mset (entries ms)"
    using move_entries [OF assms(1) f(1) rm] f(1) assms(5) by (simp add: handleConfirmMove_def)
  moreover have "g \<noteq> f"
  proof
    assume "g = f"
    have "mset (tree_ids prev) = mset (tree_ids ms @ map entry_id (entries_of n))"
      using n(2) unfolding tree_ids_def mset_append mset_map by simp
    from mset_eq_imp_distinct_iff [OF this] assms(1) have "distinct (map entry_id (entries_of n))" by simp
    then have "fo_id fi \<notin> folder_ids ch" using folder_ids_subset by (auto simp: n(1))
    with \<open>g = f\<close> assms(3) find_in_id [OF f(2)] show False by simp
  qed
  with find_folder_ids [OF f(2)] assms(3)
  have "g \<in> snd ` set (folderSelectOptions t f True prev)"
    using folder_option_values [of "t ''api:types.defaultFolder'' []" "[]" prev]
    by (force simp: folderSelectOptions_def Let_def)
  ultimately show ?thesis using n by simp
qed

theorem move_dialog_deletes_witness:
  "entries (handleConfirmMove 7 ''f'' ''g'' [demo_folder ''f'' [demo_folder ''g'' [], Item (demo_item ''a'')]]) = []"
proof -
  let ?prev = "[demo_folder ''f'' [demo_folder ''g'' [], Item (demo_item ''a'')]]"
  have "mset (entries (handleConfirmMove 7 ''f'' ''g'' ?prev)) + mset (entries_of (hd ?prev)) = mset (entries ?prev)"
    using move_dialog_deletes [of ?prev "''f''" _ _ "''g''"] by (simp add: demo_eval)
  then show ?thesis by simp
qed

subsection \<open>Deleting, updating, counting and filtering\<close>

text \<open>
  Deleting a node takes exactly that node and everything below it out of the tree; nothing of
  it can be found afterwards and everything else is kept with its content. An unknown id changes
  nothing.
\<close>

theorem remove_exactly_subtree:
  assumes "distinct (tree_ids ns)" and "i \<noteq> []"
  shows "case findTreeNode ns i of
      None \<Rightarrow> removeTreeNode ns i = (ns, None)
    | Some n \<Rightarrow>
        mset (entries ns) = mset (entries (fst (removeTreeNode ns i))) + mset (entries_of n) \<and>
        set (tree_ids (fst (removeTreeNode ns i))) = set (tree_ids ns) - entry_id ` set (entries_of n)"
proof (cases "findTreeNode ns i")
  case None
  with assms(2) have "i \<notin> set (tree_ids ns)" by (simp add: findTreeNode_def find_in_None)
  with None assms(2) show ?thesis by (simp add: removeTreeNode_def remove_absent)
next
  case (Some n)
  then have "i \<in> set (tree_ids ns)"
    using assms(2) by (metis findTreeNode_def find_in_None option.distinct(1))
  with Some have "mset (entries ns) = mset (entries (fst (removeTreeNode ns i))) + mset (entries_of n)"
    using remove_entries [OF assms] by (auto split: prod.splits option.splits)
  with Some entries_minus_ids(1) [OF assms(1) this] show ?thesis by simp
qed

theorem remove_exactly_subtree_witness:
  "set (tree_ids (fst (removeTreeNode [demo_folder ''f'' [Item (demo_item ''a'')], Item (demo_item ''b'')] ''f'')))
     = {''b''}"
proof -
  let ?ns = "[demo_folder ''f'' [Item (demo_item ''a'')], Item (demo_item ''b'')]"
  have "distinct (tree_ids ?ns)" by (simp add: demo_eval)
  from remove_exactly_subtree [OF this, of "''f''"] show ?thesis
    by (auto simp: demo_eval)
qed

definition items :: "api_node list \<Rightarrow> saved_api list" where
  "items ns = List.map_filter (\<lambda>e. case e of Inl a \<Rightarrow> Some a | Inr _ \<Rightarrow> None) (entries ns)"

lemma map_filter_append:
  "List.map_filter f (xs @ ys) = List.map_filter f xs @ List.map_filter f ys"
  by (simp add: List.map_filter_def)

lemma items_simps [simp]:
  "items [] = []" "items (Item a # ns) = a # items ns" "items (Folder f ch # ns) = items ch @ items ns"
  by (simp_all add: items_def map_filter_append)

lemma items_ids: "a \<in> set (items ns) \<Longrightarrow> sa_id a \<in> set (tree_ids ns)"
  by (induction ns rule: tree_induct) auto

lemma countApiItems_items: "countApiItems ns = length (items ns)"
  by (induction ns rule: tree_induct) auto

definition stamp :: "int \<Rightarrow> api_patch \<Rightarrow> saved_api \<Rightarrow> saved_api" where
  "stamp now p a = (pa_item p a)\<lparr>sa_updatedAt := now\<rparr>"

definition patch_keeps_ids :: "api_patch \<Rightarrow> bool" where
  "patch_keeps_ids p \<longleftrightarrow> (\<forall>a. sa_id (pa_item p a) = sa_id a) \<and> (\<forall>f. fo_id (pa_folder p f) = fo_id f)"

lemma update_absent: "i \<notin> set (tree_ids ns) \<Longrightarrow> map (update_in now i p) ns = ns"
  by (induction ns rule: tree_induct) auto

lemma update_items:
  "distinct (tree_ids ns) \<Longrightarrow>
     items (map (update_in now i p) ns) = map (\<lambda>a. if sa_id a = i then stamp now p a else a) (items ns)"
proof (induction ns rule: tree_induct)
  case (2 a ns)
  then show ?case by (auto simp: stamp_def)
next
  case (3 f ch ns)
  show ?case
  proof (cases "fo_id f = i")
    case True
    with 3(3) have "i \<notin> set (tree_ids ch)" "i \<notin> set (tree_ids ns)" by auto
    then have "a \<in> set (items ch) \<union> set (items ns) \<Longrightarrow> sa_id a \<noteq> i" for a
      using items_ids by blast
    with True \<open>i \<notin> set (tree_ids ns)\<close> show ?thesis
      by (auto simp: update_absent intro!: map_idI [symmetric])
  next
    case False
    with 3 show ?thesis by auto
  qed
qed simp

lemma update_ids: "patch_keeps_ids p \<Longrightarrow> tree_ids (map (update_in now i p) ns) = tree_ids ns"
  by (induction ns rule: tree_induct) (auto simp: patch_keeps_ids_def)

text \<open>
  An update touches one node: the ids and the order of the tree stay, the saved request with
  that id gets the patch and the time of the change, and no other saved request changes at all.
\<close>

theorem update_only_target:
  assumes "distinct (tree_ids ns)" and "i \<noteq> []" and "patch_keeps_ids p"
  shows "tree_ids (updateTreeNode now ns i p) = tree_ids ns \<and>
    items (updateTreeNode now ns i p) = map (\<lambda>a. if sa_id a = i then stamp now p a else a) (items ns)"
  using assms by (simp add: updateTreeNode_def update_ids update_items)

theorem update_only_target_witness:
  "items (updateTreeNode 9 [demo_folder ''f'' [Item (demo_item ''a'')], Item (demo_item ''b'')] ''a''
      \<lparr>pa_item = \<lambda>a. a\<lparr>sa_name := ''n''\<rparr>, pa_folder = \<lambda>f. f\<rparr>) =
   [(demo_item ''a'')\<lparr>sa_name := ''n'', sa_updatedAt := 9\<rparr>, demo_item ''b'']"
  by (subst update_only_target [THEN conjunct2]) (simp_all add: patch_keeps_ids_def stamp_def demo_eval)

lemma subseq_append2: "subseq a b \<Longrightarrow> subseq c d \<Longrightarrow> subseq (a @ c) (b @ d)"
  by (rule list_emb_append_mono)

lemma filter_in_spec:
  "subseq (entries (fst (filter_in kw ns))) (entries ns) \<and>
   filter (item_matches kw) (items (fst (filter_in kw ns))) = filter (item_matches kw) (items ns) \<and>
   set (snd (filter_in kw ns)) \<subseteq> set (tree_ids (fst (filter_in kw ns)))"
proof (induction kw ns rule: filter_in.induct)
  case (2 kw a ns)
  obtain ns' ks where r: "filter_in kw ns = (ns', ks)" by fastforce
  from "2.IH" r show ?case by auto
next
  case (3 kw f ch ns)
  obtain ch' ks1 where r1: "filter_in kw ch = (ch', ks1)" by fastforce
  obtain ns' ks2 where r2: "filter_in kw ns = (ns', ks2)" by fastforce
  note IH = "3.IH"(1) [unfolded r1 fst_conv snd_conv] "3.IH"(2) [OF r1 [symmetric] refl, unfolded r2 fst_conv snd_conv]
  have ks1: "ch' = [] \<Longrightarrow> ks1 = []" using IH(1) by auto
  have "subseq (entries ch' @ entries ns') (entries ch @ entries ns)"
    "subseq (entries ch @ entries ns') (entries ch @ entries ns)"
    using IH by (auto intro: subseq_append2)
  moreover have "subseq (entries ns') (Inr (fo_id f, fo_name f) # entries ch @ entries ns)"
    using IH(2) by (metis append_Cons append_Nil list_emb_Nil subseq_append2)
  ultimately show ?case
    using IH ks1 by (auto simp: r1 r2)
qed simp

text \<open>
  Searching the tree hides nothing that matches: the filtered tree keeps the order of the tree,
  holds every saved request whose name, address or method contains the keyword, and invents no
  node; the keys to expand are ids of the filtered tree.
\<close>

theorem filter_keeps_matches:
  "let kw = to_lower (trim keyword); r = filterApiTree ns keyword
   in subseq (entries (fst r)) (entries ns) \<and>
      filter (item_matches kw) (items (fst r)) = filter (item_matches kw) (items ns) \<and>
      set (snd r) \<subseteq> set (tree_ids (fst r))"
  using filter_in_spec [of "to_lower (trim keyword)" ns] by (simp add: filterApiTree_def Let_def)

subsection \<open>Distinct ids\<close>

lemma distinct_submset: "distinct ys \<Longrightarrow> mset xs \<subseteq># mset ys \<Longrightarrow> distinct xs"
proof -
  assume "distinct ys" "mset xs \<subseteq># mset ys"
  then obtain C where "mset ys = mset xs + C" by (auto simp: subset_mset.le_iff_add)
  moreover obtain zs where "C = mset zs" using ex_mset by metis
  ultimately have "mset ys = mset (xs @ zs)" by simp
  from mset_eq_imp_distinct_iff [OF this] \<open>distinct ys\<close> show "distinct xs" by simp
qed

lemma mset_tree_ids: "mset (tree_ids ns) = image_mset entry_id (mset (entries ns))"
  by (simp add: tree_ids_def del: entry_ids)

lemma insert_mset:
  assumes "distinct (tree_ids ns)"
  shows "mset (entries (insertTreeNode now ns target new)) =
    mset (entries ns) +
      (if target = None \<or> target = Some [] \<or> the target \<in> folder_ids ns then mset (entries_of new) else {#})"
  using insert_entries [OF assms] by (auto simp: insertTreeNode_def split: option.splits)

lemma insert_distinct:
  assumes "distinct (tree_ids ns)" and "distinct (map entry_id (entries_of new))"
    and "set (map entry_id (entries_of new)) \<inter> set (tree_ids ns) = {}"
  shows "distinct (tree_ids (insertTreeNode now ns target new))"
proof (rule distinct_submset)
  show "distinct (map entry_id (entries_of new) @ tree_ids ns)" using assms by simp
  show "mset (tree_ids (insertTreeNode now ns target new)) \<subseteq># mset (map entry_id (entries_of new) @ tree_ids ns)"
    using insert_mset [OF assms(1), of now target new] by (auto simp: mset_tree_ids)
qed

lemma remove_distinct: "distinct (tree_ids ns) \<Longrightarrow> distinct (tree_ids (fst (removeTreeNode ns i)))"
proof (cases "i = []")
  case False
  assume d: "distinct (tree_ids ns)"
  show ?thesis
  proof (rule distinct_submset [OF d])
    show "mset (tree_ids (fst (removeTreeNode ns i))) \<subseteq># mset (tree_ids ns)"
      using remove_entries [OF d False] by (auto simp: mset_tree_ids split: prod.splits option.splits)
  qed
qed (simp add: removeTreeNode_def)

lemma move_distinct:
  assumes "distinct (tree_ids ns)"
  shows "distinct (tree_ids (moveTreeNode now dragKey dropKey pos gap ns))"
proof (cases "snd (removeTreeNode ns dragKey)")
  case None
  then show ?thesis using assms by (simp add: moveTreeNode_def split_beta)
next
  case (Some n)
  then obtain ms where rm: "removeTreeNode ns dragKey = (ms, Some n)" by (metis prod.collapse)
  then have key: "dragKey \<noteq> []" by (auto simp: removeTreeNode_def)
  show ?thesis
  proof (rule distinct_submset [OF assms])
    show "mset (tree_ids (moveTreeNode now dragKey dropKey pos gap ns)) \<subseteq># mset (tree_ids ns)"
      using move_entries [OF assms key rm, of now dropKey pos gap] remove_entries [OF assms key] rm
      by (auto simp: mset_tree_ids)
  qed
qed

lemma update_distinct:
  "distinct (tree_ids ns) \<Longrightarrow> patch_keeps_ids p \<Longrightarrow> distinct (tree_ids (updateTreeNode now ns i p))"
  by (simp add: updateTreeNode_def update_ids)

end
