(* ===== verification/ApiUrl.thy ===== *)
theory ApiUrl
  imports ApiTypes
begin

section \<open>Query parameters\<close>

text \<open>
  \<open>parseUrlParams\<close> and \<open>buildUrlWithParams\<close> of \<open>pages/api/apiTypes.ts\<close>, over the
  \<open>application/x-www-form-urlencoded\<close> coding of \<open>URLSearchParams\<close>, which works on the UTF-8 bytes.
\<close>

subsection \<open>URLSearchParams\<close>

definition hex_digits :: string where
  "hex_digits = ''0123456789ABCDEF''"

definition hex_value :: "char \<Rightarrow> nat option" where
  "hex_value c =
     (let n = of_char c :: nat in
      if 48 \<le> n \<and> n \<le> 57 then Some (n - 48)
      else if 65 \<le> n \<and> n \<le> 70 then Some (n - 55)
      else if 97 \<le> n \<and> n \<le> 102 then Some (n - 87) else None)"

definition hex_char :: "nat \<Rightarrow> char" where
  "hex_char d = (if d < 10 then char_of (48 + d) else char_of (55 + d))"

definition form_safe :: "char \<Rightarrow> bool" where
  "form_safe c \<longleftrightarrow>
     (let n = of_char c :: nat in
      (48 \<le> n \<and> n \<le> 57) \<or> (65 \<le> n \<and> n \<le> 90) \<or> (97 \<le> n \<and> n \<le> 122) \<or> n \<in> {42, 45, 46, 95})"

definition form_char :: "char \<Rightarrow> string" where
  "form_char c =
     (if c = CHR '' '' then ''+'' else if form_safe c then [c]
      else let n = of_char c :: nat in [CHR ''%'', hex_char (n div 16), hex_char (n mod 16)])"

definition form_encode :: "string \<Rightarrow> string" where
  "form_encode s = concat (map form_char s)"

fun percent_decode :: "string \<Rightarrow> string" where
  "percent_decode [] = []"
| "percent_decode [c] = [c]"
| "percent_decode [c, d] = [c, d]"
| "percent_decode (c # d # e # s) =
     (if c = CHR ''%''
      then (case (hex_value d, hex_value e) of
              (Some x, Some y) \<Rightarrow> char_of (16 * x + y) # percent_decode s
            | _ \<Rightarrow> c # percent_decode (d # e # s))
      else c # percent_decode (d # e # s))"

definition form_decode :: "string \<Rightarrow> string" where
  "form_decode s = percent_decode (replace_char (CHR ''+'') '' '' s)"

definition split_pair :: "string \<Rightarrow> string \<times> string" where
  "split_pair s =
     (let n = takeWhile (\<lambda>c. c \<noteq> CHR ''='') s in (form_decode n, form_decode (drop (length n + 1) s)))"

definition search_params :: "string \<Rightarrow> (string \<times> string) list" where
  \<comment> \<open>\<open>new URLSearchParams(q)\<close>: a leading \<open>?\<close> is dropped, empty pieces are skipped\<close>
  "search_params q =
     map split_pair (filter (\<lambda>p. p \<noteq> [])
       (split_on ''&'' (if prefix ''?'' q then drop 1 q else q)))"

definition search_string :: "(string \<times> string) list \<Rightarrow> string" where
  \<comment> \<open>\<open>searchParams.toString()\<close>\<close>
  "search_string ps = join ''&'' (map (\<lambda>(n, v). form_encode n @ ''='' @ form_encode v) ps)"

subsection \<open>The two functions\<close>

definition query_header :: "string \<times> string \<Rightarrow> api_header" where
  "query_header p = \<lparr>hd_name = fst p, hd_value = snd p, hd_enabled = True\<rparr>"

definition parseUrlParams :: "string \<Rightarrow> string \<times> api_header list" where
  "parseUrlParams urlStr =
     (if \<not> includes_str urlStr ''?'' then (urlStr, [])
      else case take 2 (split_on ''?'' urlStr) of
             [base, q] \<Rightarrow> (base, map query_header (search_params q))
           | _ \<Rightarrow> (urlStr, []))"

definition buildUrlWithParams :: "string \<Rightarrow> api_header list \<Rightarrow> string" where
  "buildUrlWithParams baseUrl params =
     (let active = filter active_header params in
      if active = [] then baseUrl
      else let q = search_string (map (\<lambda>p. (trim (hd_name p), hd_value p)) active) in
        if q \<noteq> [] then baseUrl @ ''?'' @ q else baseUrl)"

subsection \<open>Decoding undoes encoding\<close>

lemma hex_value_char: "d < 16 \<Longrightarrow> hex_value (hex_char d) = Some d"
  by (auto simp: hex_value_def hex_char_def)

lemma byte_bound: "(of_char c :: nat) < 256"
  by (metis of_char_mod_256 mod_less_divisor zero_less_numeral)

lemma nibble: "(of_char c :: nat) div 16 < 16"
  using byte_bound [of c] by (intro less_mult_imp_div_less) simp

lemma hex_char_plain:
  "d < 16 \<Longrightarrow> hex_char d \<noteq> CHR ''+'' \<and> hex_char d \<noteq> CHR ''&'' \<and> hex_char d \<noteq> CHR ''='' \<and>
     hex_char d \<noteq> CHR ''?''"
proof -
  assume "d < 16"
  then have "hex_value (hex_char d) = Some d" by (rule hex_value_char)
  moreover have "hex_value (CHR ''+'') = None" "hex_value (CHR ''&'') = None"
    "hex_value (CHR ''='') = None" "hex_value (CHR ''?'') = None"
    by code_simp+
  ultimately show ?thesis by (metis option.distinct(1))
qed

lemma form_safe_plain:
  "form_safe c \<Longrightarrow> c \<noteq> CHR ''+'' \<and> c \<noteq> CHR ''&'' \<and> c \<noteq> CHR ''='' \<and> c \<noteq> CHR ''?'' \<and> c \<noteq> CHR ''%''"
proof -
  assume "form_safe c"
  moreover have "\<not> form_safe (CHR ''+'')" "\<not> form_safe (CHR ''&'')" "\<not> form_safe (CHR ''='')"
    "\<not> form_safe (CHR ''?'')" "\<not> form_safe (CHR ''%'')"
    by code_simp+
  ultimately show ?thesis by metis
qed

lemma form_char_plain: "x \<in> set (form_char c) \<Longrightarrow> x \<noteq> CHR ''&'' \<and> x \<noteq> CHR ''='' \<and> x \<noteq> CHR ''?''"
  using hex_char_plain [of "of_char c div 16"] hex_char_plain [of "of_char c mod 16"]
    form_safe_plain [of c] nibble [of c]
  by (auto simp: form_char_def Let_def split: if_splits)

lemma form_encode_plain:
  "CHR ''&'' \<notin> set (form_encode s)" "CHR ''='' \<notin> set (form_encode s)" "CHR ''?'' \<notin> set (form_encode s)"
  using form_char_plain by (fastforce simp: form_encode_def)+

lemma percent_decode_plain: "c \<noteq> CHR ''%'' \<Longrightarrow> percent_decode (c # s) = c # percent_decode s"
  by (cases s; cases "tl s") auto

lemma percent_decode_pair:
  "hex_value d = Some x \<Longrightarrow> hex_value e = Some y \<Longrightarrow>
     percent_decode (CHR ''%'' # d # e # s) = char_of (16 * x + y) # percent_decode s"
  by simp

lemma form_decode_encode: "form_decode (form_encode s) = s"
proof (induction s)
  case Nil
  then show ?case by (simp add: form_decode_def form_encode_def)
next
  case (Cons c s)
  let ?n = "of_char c :: nat"
  have tail: "percent_decode (replace_char (CHR ''+'') '' '' (form_encode s)) = s"
    using Cons by (simp add: form_decode_def)
  have enc: "form_encode (c # s) = form_char c @ form_encode s" by (simp add: form_encode_def)
  show ?case
  proof (cases "c = CHR '' '' \<or> form_safe c")
    case True
    then show ?thesis
      using tail form_safe_plain [of c]
      by (auto simp: form_decode_def enc form_char_def percent_decode_plain)
  next
    case False
    have "?n div 16 < 16" "?n mod 16 < 16" using nibble by auto
    note hex = this [THEN hex_value_char] this [THEN hex_char_plain]
    have "char_of (16 * (?n div 16) + ?n mod 16) = c" by simp
    with False tail hex show ?thesis
      by (simp add: form_decode_def enc form_char_def Let_def percent_decode_pair del: percent_decode.simps)
  qed
qed

lemma split_pair_encode: "split_pair (form_encode n @ CHR ''='' # form_encode v) = (n, v)"
proof -
  have "takeWhile (\<lambda>c. c \<noteq> CHR ''='') (form_encode n @ CHR ''='' # form_encode v) = form_encode n"
    using form_encode_plain(2) [of n] by (auto simp: takeWhile_append2 takeWhile_tail)
  then show ?thesis by (simp add: split_pair_def form_decode_encode)
qed

lemma set_join: "c \<notin> set sep \<Longrightarrow> (\<And>x. x \<in> set xs \<Longrightarrow> c \<notin> set x) \<Longrightarrow> c \<notin> set (join sep xs)"
  by (induction xs) (auto simp: join_Cons)

lemma search_string_plain: "CHR ''?'' \<notin> set (search_string ps)"
  unfolding search_string_def by (rule set_join) (auto simp: form_encode_plain)

lemma search_params_string: "ps \<noteq> [] \<Longrightarrow> search_params (search_string ps) = ps"
proof -
  let ?f = "\<lambda>(n, v). form_encode n @ ''='' @ form_encode v"
  assume "ps \<noteq> []"
  have no: "CHR ''&'' \<notin> set (?f p) \<and> CHR ''?'' \<notin> set (?f p)" for p
    by (cases p) (simp add: form_encode_plain)
  have split: "split_on ''&'' (search_string ps) = map ?f ps"
    unfolding search_string_def using \<open>ps \<noteq> []\<close> no by (intro split_on_join) auto
  have "\<not> prefix ''?'' (search_string ps)"
    using search_string_plain [of ps] by (cases "search_string ps") auto
  then have "search_params (search_string ps) = map split_pair (filter (\<lambda>p. p \<noteq> []) (map ?f ps))"
    by (simp add: search_params_def split)
  also have "filter (\<lambda>p. p \<noteq> []) (map ?f ps) = map ?f ps" by (induction ps) auto
  also have "map split_pair (map ?f ps) = ps"
    by (induction ps) (auto simp: split_pair_encode)
  finally show ?thesis .
qed

lemma split_on_char_none: "c \<notin> set x \<Longrightarrow> split_on [c] x = [x]"
  using split_on_join [of "[x]" c] by simp

lemma split_on_once: "c \<notin> set x \<Longrightarrow> c \<notin> set y \<Longrightarrow> split_on [c] (x @ c # y) = [x, y]"
  using split_on_join [of "[x, y]" c] by auto

lemma includes_char: "includes_str s [c] \<longleftrightarrow> c \<in> set s"
  by (auto simp: includes_str_def sublist_def in_set_conv_decomp)

text \<open>
  C27: the table of parameters and the address line are two views of one thing: the address built
  from the table parses back to the base address and exactly the enabled, named parameters, each
  with its trimmed name and its value, whatever characters they contain.
\<close>

theorem url_params_roundtrip:
  assumes "CHR ''?'' \<notin> set baseUrl"
  shows "parseUrlParams (buildUrlWithParams baseUrl params) =
    (baseUrl, map (\<lambda>p. \<lparr>hd_name = trim (hd_name p), hd_value = hd_value p, hd_enabled = True\<rparr>)
                (filter active_header params))"
proof (cases "filter active_header params")
  case Nil
  then show ?thesis
    using assms by (simp add: buildUrlWithParams_def parseUrlParams_def includes_char)
next
  case (Cons a as)
  let ?ps = "map (\<lambda>p. (trim (hd_name p), hd_value p)) (filter active_header params)"
  let ?q = "search_string ?ps"
  have ps: "?ps \<noteq> []" using Cons by simp
  then have "?q \<noteq> []" by (cases ?ps) (auto simp: search_string_def join_Cons)
  then have "buildUrlWithParams baseUrl params = baseUrl @ CHR ''?'' # ?q"
    using Cons by (simp add: buildUrlWithParams_def Let_def)
  then have "parseUrlParams (buildUrlWithParams baseUrl params) = (baseUrl, map query_header ?ps)"
    using assms search_string_plain [of ?ps] search_params_string [OF ps]
    by (simp add: parseUrlParams_def includes_char split_on_once)
  then show ?thesis by (simp add: query_header_def)
qed

theorem url_params_roundtrip_witness:
  "parseUrlParams (buildUrlWithParams ''a'' [\<lparr>hd_name = ''x&'', hd_value = ''1 ='', hd_enabled = True\<rparr>]) =
    (''a'', [\<lparr>hd_name = ''x&'', hd_value = ''1 ='', hd_enabled = True\<rparr>])"
proof -
  have "trim ''x&'' = ''x&''" by code_simp
  then show ?thesis by (subst url_params_roundtrip) (simp_all add: active_header_def)
qed

end
