(* ===== verification/ApiClient.thy ===== *)
theory ApiClient
  imports ApiTree ApiUrl
begin

section \<open>The API client\<close>

text \<open>
  The hook \<open>useApi\<close> of \<open>pages/api/useApi.ts\<close>: the editor of one request, the visible response, the
  cache of responses per saved request, the tree and the WebSocket state. An asynchronous handler is
  two operations, up to the \<open>await\<close> and after it. \<open>currentApiId\<close> and its ref are one field: every
  handler that sets one sets the other. \<open>Date.now()\<close>, the random suffixes of ids, \<open>JSON\<close> and the
  answers of the backend are parameters.
\<close>

subsection \<open>State\<close>

datatype resp_tab = TabBody | TabHeaders

datatype config_tab = CfgParams | CfgHeaders | CfgBody | CfgAuth | CfgOptions | CfgMessages

record exec_state =
  ex_response :: "api_response option"
  ex_error :: string
  ex_respTab :: resp_tab
  ex_sending :: bool

record api_client =
  c_method :: api_method
  c_url :: string
  c_params :: "api_header list"
  c_headers :: "api_header list"
  c_bodyType :: string
  c_body :: string
  c_auth :: api_auth
  c_timeoutMs :: int
  c_insecureTLS :: bool
  c_followRedirects :: bool
  c_configTab :: config_tab
  c_showConfig :: bool
  c_sending :: bool
  c_error :: string
  c_response :: "api_response option"
  c_respTab :: resp_tab
  c_exec :: "string \<Rightarrow> exec_state option"
  c_tree :: "api_node list"
  c_hasLoadedFile :: bool
  c_isExternalSync :: bool
  c_currentId :: "string option"
  c_currentName :: "string option"
  c_expanded :: "string list"
  c_mode :: api_mode
  c_wsConnId :: "string option"
  c_wsStatus :: ws_status
  c_wsMessages :: "ws_message list"
  c_wsInput :: string
  c_wsProtocols :: string
  c_wsConnecting :: bool

definition initialClient :: api_client where
  "initialClient =
     \<lparr>c_method = ''GET'', c_url = [], c_params = [], c_headers = [], c_bodyType = ''none'', c_body = [],
      c_auth = emptyAuth, c_timeoutMs = 30000, c_insecureTLS = False, c_followRedirects = True,
      c_configTab = CfgParams, c_showConfig = True, c_sending = False, c_error = [],
      c_response = None, c_respTab = TabBody, c_exec = (\<lambda>_. None), c_tree = [],
      c_hasLoadedFile = False, c_isExternalSync = False, c_currentId = None, c_currentName = None,
      c_expanded = [''folder_default''], c_mode = Http, c_wsConnId = None, c_wsStatus = WsIdle,
      c_wsMessages = [], c_wsInput = [], c_wsProtocols = [], c_wsConnecting = False\<rparr>"

definition draft_key :: string where
  "draft_key = ''__draft__''"

definition cur_key :: "api_client \<Rightarrow> string" where
  \<comment> \<open>\<open>currentApiIdRef.current || '__draft__'\<close>\<close>
  "cur_key s = opt_or (c_currentId s) draft_key"

definition show_cached :: "exec_state option \<Rightarrow> api_client \<Rightarrow> api_client" where
  \<comment> \<open>the four setters that restore a cached execution state\<close>
  "show_cached cached s =
     s\<lparr>c_response := Option.bind cached ex_response,
       c_error := (case cached of None \<Rightarrow> [] | Some e \<Rightarrow> ex_error e),
       c_respTab := (case cached of None \<Rightarrow> TabBody | Some e \<Rightarrow> ex_respTab e),
       c_sending := (case cached of None \<Rightarrow> False | Some e \<Rightarrow> ex_sending e)\<rparr>"

subsection \<open>Editing the request\<close>

definition updateUrl :: "string \<Rightarrow> api_client \<Rightarrow> api_client" where
  "updateUrl newUrl s =
     (let parsed = snd (parseUrlParams newUrl) in
      s\<lparr>c_url := newUrl, c_params := (if parsed \<noteq> [] then parsed else c_params s)\<rparr>)"

definition set_params :: "api_header list \<Rightarrow> api_client \<Rightarrow> api_client" where
  \<comment> \<open>the updater that rebuilds the address from the table\<close>
  "set_params next s =
     s\<lparr>c_params := next, c_url := buildUrlWithParams (fst (parseUrlParams (c_url s))) next\<rparr>"

definition empty_header :: api_header where
  "empty_header = \<lparr>hd_name = [], hd_value = [], hd_enabled = True\<rparr>"

definition update_nth :: "nat \<Rightarrow> ('a \<Rightarrow> 'a) \<Rightarrow> 'a list \<Rightarrow> 'a list" where
  "update_nth i f xs = (if i < length xs then xs[i := f (xs ! i)] else xs)"

definition remove_nth :: "nat \<Rightarrow> 'a list \<Rightarrow> 'a list" where
  "remove_nth i xs = take i xs @ drop (Suc i) xs"

definition addParam :: "api_client \<Rightarrow> api_client" where
  "addParam s = s\<lparr>c_params := c_params s @ [empty_header]\<rparr>"

definition updateParam :: "nat \<Rightarrow> (api_header \<Rightarrow> api_header) \<Rightarrow> api_client \<Rightarrow> api_client" where
  "updateParam i patch s = set_params (update_nth i patch (c_params s)) s"

definition removeParam :: "nat \<Rightarrow> api_client \<Rightarrow> api_client" where
  "removeParam i s = set_params (remove_nth i (c_params s)) s"

definition addHeader :: "api_client \<Rightarrow> api_client" where
  "addHeader s = s\<lparr>c_headers := c_headers s @ [empty_header]\<rparr>"

definition updateHeader :: "nat \<Rightarrow> (api_header \<Rightarrow> api_header) \<Rightarrow> api_client \<Rightarrow> api_client" where
  "updateHeader i patch s = s\<lparr>c_headers := update_nth i patch (c_headers s)\<rparr>"

definition removeHeader :: "nat \<Rightarrow> api_client \<Rightarrow> api_client" where
  "removeHeader i s = s\<lparr>c_headers := remove_nth i (c_headers s)\<rparr>"

definition formatJsonBody :: "translator \<Rightarrow> (string \<Rightarrow> string option) \<Rightarrow> api_client \<Rightarrow> api_client" where
  \<comment> \<open>\<open>pretty\<close> is \<open>JSON.stringify(JSON.parse(body), null, 2)\<close>, \<open>None\<close> when it throws\<close>
  "formatJsonBody t pretty s =
     (if c_bodyType s \<noteq> ''json'' then s
      else case pretty (c_body s) of
             Some b \<Rightarrow> s\<lparr>c_body := b, c_error := []\<rparr>
           | None \<Rightarrow> s\<lparr>c_error := t ''api:useApi.invalidJsonBody'' []\<rparr>)"

subsection \<open>Sending\<close>

definition doSend_begin :: "translator \<Rightarrow> api_client \<Rightarrow> api_client \<times> (string \<times> api_request) option" where
  \<comment> \<open>up to the await: the key the answer is filed under, and the request\<close>
  "doSend_begin t s =
     (let raw = trim (c_url s) in
      if raw = [] then (s\<lparr>c_error := t ''api:useApi.urlRequired'' []\<rparr>, None)
      else
        let target = (if scheme_ok raw then raw else ''http://'' @ raw);
            key = cur_key s;
            old = c_exec s key
        in (s\<lparr>c_url := target, c_error := [], c_sending := True,
              c_exec := (c_exec s)(key \<mapsto>
                \<lparr>ex_response = Option.bind old ex_response, ex_error = [],
                 ex_respTab = (case old of None \<Rightarrow> TabBody | Some e \<Rightarrow> ex_respTab e), ex_sending = True\<rparr>)\<rparr>,
            Some (key, buildRequest (c_method s) target (c_headers s) (c_bodyType s) (c_body s)
              (c_timeoutMs s) (c_insecureTLS s) (c_followRedirects s) (c_auth s) BODY_TYPES)))"

definition doSend_done :: "string \<Rightarrow> string + api_response \<Rightarrow> api_client \<Rightarrow> api_client" where
  \<comment> \<open>\<open>Inl\<close> is the message of a thrown error\<close>
  "doSend_done key result s =
     (let here = (cur_key s = key) in
      case result of
        Inr res \<Rightarrow>
          (let s1 = s\<lparr>c_exec := (c_exec s)(key \<mapsto>
                 \<lparr>ex_response = Some res, ex_error = rs_error res, ex_respTab = TabBody, ex_sending = False\<rparr>)\<rparr>
           in if here
              then s1\<lparr>c_response := Some res, c_respTab := TabBody,
                      c_error := (if rs_error res \<noteq> [] then rs_error res else c_error s),
                      c_sending := False\<rparr>
              else s1)
      | Inl msg \<Rightarrow>
          (let old = c_exec s key;
               s1 = s\<lparr>c_exec := (c_exec s)(key \<mapsto>
                 \<lparr>ex_response = Option.bind old ex_response, ex_error = msg,
                  ex_respTab = (case old of None \<Rightarrow> TabBody | Some e \<Rightarrow> ex_respTab e), ex_sending = False\<rparr>)\<rparr>
           in if here then s1\<lparr>c_error := msg, c_sending := False\<rparr> else s1))"

definition clearResponse :: "api_client \<Rightarrow> api_client" where
  "clearResponse s =
     s\<lparr>c_response := None, c_error := [], c_exec := (c_exec s)(cur_key s := None)\<rparr>"

definition header_value :: "(string \<times> string) list \<Rightarrow> string" where
  \<comment> \<open>the value of the first Content-Type header, or the empty text\<close>
  "header_value hs =
     (case find (\<lambda>h. to_lower (fst h) = ''content-type'') hs of None \<Rightarrow> [] | Some h \<Rightarrow> snd h)"

definition prettyBody :: "(string \<Rightarrow> string option) \<Rightarrow> bool \<Rightarrow> api_client \<Rightarrow> string" where
  "prettyBody pretty bodyPretty s =
     (case c_response s of
        None \<Rightarrow> []
      | Some r \<Rightarrow>
          if rs_body r = [] then []
          else if bodyPretty \<and>
                  (includes_str (header_value (rs_headers r)) ''json'' \<or> looksLikeJson (rs_body r))
          then nullish (pretty (rs_body r)) (rs_body r)
          else rs_body r)"

subsection \<open>Opening and saving requests\<close>

definition loadSavedApi :: "saved_api \<Rightarrow> api_client \<Rightarrow> api_client" where
  "loadSavedApi item s =
     (let s1 = show_cached (c_exec s (sa_id item))
                 (s\<lparr>c_currentId := Some (sa_id item), c_currentName := Some (sa_name item)\<rparr>)
      in if sa_mode item = Some Ws \<or> sa_method item = ''WS''
         then s1\<lparr>c_mode := Ws, c_url := sa_url item, c_headers := nullish (sa_headers item) [],
                 c_auth := nullish (sa_auth item) emptyAuth,
                 c_insecureTLS := nullish (sa_insecureTLS item) False,
                 c_wsProtocols := nullish (sa_wsProtocols item) [],
                 c_configTab := CfgMessages, c_showConfig := True\<rparr>
         else s1\<lparr>c_mode := Http, c_method := str_or (sa_method item) ''GET'', c_url := sa_url item,
                 c_params := (case sa_params item of
                      Some ps \<Rightarrow> ps
                    | None \<Rightarrow> if sa_url item \<noteq> [] then snd (parseUrlParams (sa_url item)) else []),
                 c_headers := nullish (sa_headers item) [],
                 c_bodyType := opt_or (sa_bodyType item) ''none'',
                 c_body := nullish (sa_body item) [], c_auth := nullish (sa_auth item) emptyAuth,
                 c_timeoutMs := num_or (sa_timeoutMs item) 30000,
                 c_insecureTLS := nullish (sa_insecureTLS item) False,
                 c_followRedirects := nullish (sa_followRedirects item) True,
                 c_configTab := CfgParams, c_showConfig := True\<rparr>)"

definition editor_item :: "api_client \<Rightarrow> saved_api \<Rightarrow> saved_api" where
  \<comment> \<open>a saved item with the fields of the editor\<close>
  "editor_item s a =
     a\<lparr>sa_mode := Some (c_mode s), sa_method := c_method s, sa_url := c_url s,
       sa_params := Some (c_params s), sa_headers := Some (c_headers s),
       sa_bodyType := Some (c_bodyType s), sa_body := Some (c_body s), sa_auth := Some (c_auth s),
       sa_timeoutMs := Some (c_timeoutMs s), sa_insecureTLS := Some (c_insecureTLS s),
       sa_followRedirects := Some (c_followRedirects s), sa_wsProtocols := Some (c_wsProtocols s)\<rparr>"

definition save_patch :: "int \<Rightarrow> string \<Rightarrow> api_client \<Rightarrow> api_patch" where
  "save_patch now name s =
     \<lparr>pa_item = (\<lambda>a. (editor_item s a)\<lparr>sa_name := name, sa_updatedAt := now\<rparr>),
      pa_folder = (\<lambda>f. f\<lparr>fo_name := name, fo_updatedAt := now\<rparr>)\<rparr>"

definition saveCurrentApi :: "int \<Rightarrow> string option \<Rightarrow> api_client \<Rightarrow> api_client \<times> bool" where
  "saveCurrentApi now name s =
     (case opt_or_opt (c_currentId s) None of
        None \<Rightarrow> (s, False)
      | Some i \<Rightarrow>
          (case findTreeNode (c_tree s) i of
             Some (Item existing) \<Rightarrow>
               (let newName = opt_or (opt_or_opt name (c_currentName s)) (sa_name existing) in
                (s\<lparr>c_tree := updateTreeNode now (c_tree s) i (save_patch now newName s),
                   c_currentName := (if truthy name then name else c_currentName s)\<rparr>, True))
           | _ \<Rightarrow> (s, False)))"

definition blank_item :: "string \<Rightarrow> string \<Rightarrow> int \<Rightarrow> saved_api" where
  "blank_item i name now =
     \<lparr>sa_id = i, sa_name = name, sa_mode = None, sa_method = [], sa_url = [], sa_params = None,
      sa_headers = None, sa_bodyType = None, sa_body = None, sa_auth = None, sa_timeoutMs = None,
      sa_insecureTLS = None, sa_followRedirects = None, sa_wsProtocols = None, sa_createdAt = now,
      sa_updatedAt = now\<rparr>"

definition add_expanded :: "string list \<Rightarrow> string list \<Rightarrow> string list" where
  \<comment> \<open>\<open>Array.from(new Set([...keys, ...new]))\<close>\<close>
  "add_expanded keys new = rev (remdups (rev (keys @ new)))"

definition saveAsNewApi ::
  "translator \<Rightarrow> string \<Rightarrow> int \<Rightarrow> string \<Rightarrow> string option \<Rightarrow> api_client \<Rightarrow> api_client" where
  \<comment> \<open>\<open>i\<close> is the fresh id\<close>
  "saveAsNewApi t i now name target s =
     (let apiName =
            str_or (trim name)
              (if c_mode s = Ws then t ''api:saveModal.defaultWs'' []
               else c_method s @ '' '' @ str_or (c_url s) (t ''api:saveModal.newApiFallback'' []));
          newItem = editor_item s (blank_item i apiName now)
      in s\<lparr>c_tree := insertTreeNode now (c_tree s) (opt_or_opt target None) (Item newItem),
           c_currentId := Some i, c_currentName := Some apiName,
           c_exec := (case c_exec s draft_key of
                        None \<Rightarrow> c_exec s
                      | Some e \<Rightarrow> (c_exec s)(i \<mapsto> e, draft_key := None)),
           c_expanded := (if truthy target then add_expanded (c_expanded s) [the target]
                          else c_expanded s)\<rparr>)"

definition createFolder ::
  "translator \<Rightarrow> string \<Rightarrow> int \<Rightarrow> string \<Rightarrow> string option \<Rightarrow> api_client \<Rightarrow> api_client" where
  "createFolder t i now name parent s =
     (let folderName = str_or (trim name) (t ''api:useApi.newFolderDefault'' []);
          f = \<lparr>fo_id = i, fo_name = folderName, fo_createdAt = now, fo_updatedAt = now\<rparr>
      in s\<lparr>c_tree := insertTreeNode now (c_tree s) (opt_or_opt parent None) (Folder f []),
           c_expanded := add_expanded (c_expanded s) (i # (if truthy parent then [the parent] else []))\<rparr>)"

definition rename_patch :: "string \<Rightarrow> api_patch" where
  "rename_patch name =
     \<lparr>pa_item = (\<lambda>a. a\<lparr>sa_name := name\<rparr>), pa_folder = (\<lambda>f. f\<lparr>fo_name := name\<rparr>)\<rparr>"

definition renameTreeNode :: "int \<Rightarrow> string \<Rightarrow> string \<Rightarrow> api_client \<Rightarrow> api_client" where
  "renameTreeNode now i newName s =
     s\<lparr>c_tree := updateTreeNode now (c_tree s) i (rename_patch (trim newName)),
       c_currentName := (if c_currentId s = Some i then Some (trim newName) else c_currentName s)\<rparr>"

definition deleteTreeNode :: "string \<Rightarrow> api_client \<Rightarrow> api_client" where
  "deleteTreeNode i s =
     (let s1 = s\<lparr>c_tree := fst (removeTreeNode (c_tree s) i), c_exec := (c_exec s)(i := None)\<rparr>
      in if c_currentId s = Some i
         then show_cached (c_exec s1 draft_key) (s1\<lparr>c_currentId := None, c_currentName := None\<rparr>)
         else s1)"

definition duplicateApiItem :: "translator \<Rightarrow> string \<Rightarrow> int \<Rightarrow> string \<Rightarrow> api_client \<Rightarrow> api_client" where
  "duplicateApiItem t cloneId now i s =
     (case findTreeNode (c_tree s) i of
        Some (Item a) \<Rightarrow>
          s\<lparr>c_tree := insertTreeNode now (c_tree s) None
              (Item (a\<lparr>sa_id := cloneId, sa_name := t ''api:useApi.duplicateSuffix'' [(''name'', sa_name a)],
                       sa_createdAt := now, sa_updatedAt := now\<rparr>))\<rparr>
      | _ \<Rightarrow> s)"

definition moveNode :: "int \<Rightarrow> string \<Rightarrow> string \<Rightarrow> int \<Rightarrow> bool \<Rightarrow> api_client \<Rightarrow> api_client" where
  \<comment> \<open>the handler \<open>moveTreeNode\<close>\<close>
  "moveNode now dragKey dropKey pos gap s =
     s\<lparr>c_tree := moveTreeNode now dragKey dropKey pos gap (c_tree s)\<rparr>"

definition newBlankApi :: "api_client \<Rightarrow> api_client" where
  "newBlankApi s =
     (show_cached (c_exec s draft_key) (s\<lparr>c_currentId := None, c_currentName := None\<rparr>))
       \<lparr>c_mode := Http, c_method := ''GET'', c_url := [], c_params := [], c_headers := [],
        c_bodyType := ''none'', c_body := [], c_auth := emptyAuth\<rparr>"

definition currentSavedItem :: "api_client \<Rightarrow> saved_api option" where
  "currentSavedItem s =
     (case opt_or_opt (c_currentId s) None of
        None \<Rightarrow> None
      | Some i \<Rightarrow> (case findTreeNode (c_tree s) i of Some (Item a) \<Rightarrow> Some a | _ \<Rightarrow> None))"

definition isModified :: "api_client \<Rightarrow> bool" where
  \<comment> \<open>equal JSON texts of two parameter, header or credential values are equal values\<close>
  "isModified s =
     (case currentSavedItem s of
        None \<Rightarrow> False
      | Some a \<Rightarrow>
          sa_mode a \<noteq> Some (c_mode s) \<or> sa_url a \<noteq> c_url s \<or>
          (c_mode s = Http \<and> sa_method a \<noteq> c_method s) \<or>
          sa_bodyType a \<noteq> Some (c_bodyType s) \<or> nullish (sa_body a) [] \<noteq> c_body s \<or>
          nullish (sa_params a) [] \<noteq> c_params s \<or> nullish (sa_headers a) [] \<noteq> c_headers s \<or>
          sa_auth a \<noteq> Some (c_auth s) \<or> sa_timeoutMs a \<noteq> Some (c_timeoutMs s) \<or>
          sa_insecureTLS a \<noteq> Some (c_insecureTLS s) \<or>
          sa_followRedirects a \<noteq> Some (c_followRedirects s))"

subsection \<open>The tree file\<close>

definition reloadApiTree :: "(string \<Rightarrow> api_node list option) \<Rightarrow> string option \<Rightarrow> api_client \<Rightarrow> api_client" where
  \<comment> \<open>\<open>parse\<close> is \<open>JSON.parse\<close>, \<open>None\<close> when it throws or gives no array; \<open>raw = None\<close> is a failed load\<close>
  "reloadApiTree parse raw s =
     (let s1 = (case raw of
            None \<Rightarrow> s
          | Some r \<Rightarrow>
              if trim r = [] then s
              else (case parse r of
                      None \<Rightarrow> s
                    | Some ns \<Rightarrow> if ns = [] then s else s\<lparr>c_isExternalSync := True, c_tree := ns\<rparr>))
      in s1\<lparr>c_hasLoadedFile := True\<rparr>)"

definition persist_effect :: "api_client \<Rightarrow> api_client \<times> api_node list option" where
  \<comment> \<open>the effect on \<open>apiTree\<close>: the tree it will save after 300 ms, if any\<close>
  "persist_effect s =
     (if \<not> c_hasLoadedFile s then (s, None)
      else if c_isExternalSync s then (s\<lparr>c_isExternalSync := False\<rparr>, None)
      else (s, Some (c_tree s)))"

datatype import_error = InvalidJson | NotAnArray

definition importApis ::
  "(string \<Rightarrow> (api_node list option) option) \<Rightarrow> string option \<Rightarrow> api_client \<Rightarrow>
   import_error + (api_client \<times> nat option)" where
  \<comment> \<open>\<open>parse\<close>: \<open>None\<close> when it throws, \<open>Some None\<close> when the value is no array\<close>
  "importApis parse raw s =
     (case raw of
        None \<Rightarrow> Inr (s, None)
      | Some r \<Rightarrow>
          if trim r = [] then Inr (s, None)
          else (case parse r of
                  None \<Rightarrow> Inl InvalidJson
                | Some None \<Rightarrow> Inl NotAnArray
                | Some (Some ns) \<Rightarrow> Inr (s\<lparr>c_tree := ns\<rparr>, Some (length ns))))"

subsection \<open>WebSocket\<close>

definition MAX_WS_MESSAGES :: nat where
  "MAX_WS_MESSAGES = 500"

definition wsSwitchMode :: "api_mode \<Rightarrow> api_client \<Rightarrow> api_client" where
  "wsSwitchMode next_mode s =
     s\<lparr>c_mode := next_mode, c_configTab := (if next_mode = Ws then CfgMessages else CfgHeaders)\<rparr>"

definition ws_scheme_ok :: "string \<Rightarrow> bool" where
  \<comment> \<open>\<open>/^wss?:\/\//i\<close>\<close>
  "ws_scheme_ok s \<longleftrightarrow> starts_with (to_lower s) ''ws://'' \<or> starts_with (to_lower s) ''wss://''"

record ws_request =
  wq_url :: string
  wq_headers :: "api_header list"
  wq_insecureTLS :: bool
  wq_auth :: api_auth
  wq_protocols :: "string list"

definition ws_message_received :: "ws_message \<Rightarrow> api_client \<Rightarrow> api_client" where
  \<comment> \<open>\<open>[...list, ev].slice(-MAX_WS_MESSAGES)\<close>\<close>
  "ws_message_received ev s =
     (let l = c_wsMessages s @ [ev] in s\<lparr>c_wsMessages := drop (length l - MAX_WS_MESSAGES) l\<rparr>)"

definition ws_status_received :: "string \<Rightarrow> string \<Rightarrow> api_client \<Rightarrow> api_client" where
  "ws_status_received status err s =
     s\<lparr>c_wsStatus := (if status = ''open'' then WsOpen else WsClosed),
       c_error := (if err \<noteq> [] then err else c_error s)\<rparr>"

definition wsConnect_begin :: "translator \<Rightarrow> api_client \<Rightarrow> api_client \<times> ws_request option" where
  "wsConnect_begin t s =
     (let raw = trim (c_url s) in
      if raw = [] then (s\<lparr>c_error := t ''api:useApi.wsUrlRequired'' []\<rparr>, None)
      else let target = (if ws_scheme_ok raw then raw else ''ws://'' @ raw) in
        (s\<lparr>c_url := target, c_error := [], c_wsConnecting := True, c_wsStatus := WsConnecting\<rparr>,
         Some \<lparr>wq_url = target, wq_headers = filter active_header (c_headers s),
               wq_insecureTLS = c_insecureTLS s, wq_auth = c_auth s,
               wq_protocols = filter (\<lambda>p. p \<noteq> []) (map trim (split_on '','' (c_wsProtocols s)))\<rparr>))"

definition wsConnect_done :: "string + ws_connect_result \<Rightarrow> api_client \<Rightarrow> api_client" where
  "wsConnect_done result s =
     (case result of
        Inl msg \<Rightarrow> s\<lparr>c_wsStatus := WsError, c_error := msg, c_wsConnecting := False\<rparr>
      | Inr r \<Rightarrow>
          if wr_error r \<noteq> []
          then s\<lparr>c_wsStatus := WsError, c_error := wr_error r, c_wsConnecting := False\<rparr>
          else s\<lparr>c_wsConnId := Some (wr_id r), c_wsStatus := WsOpen, c_wsMessages := [],
                 c_wsConnecting := False\<rparr>)"

definition wsDisconnect :: "api_client \<Rightarrow> api_client \<times> string option" where
  \<comment> \<open>the connection that is closed, if any\<close>
  "wsDisconnect s =
     (s\<lparr>c_wsConnId := None, c_wsStatus := WsClosed\<rparr>, opt_or_opt (c_wsConnId s) None)"

definition wsSendMsg :: "api_client \<Rightarrow> (string \<times> string) option" where
  "wsSendMsg s =
     (if truthy (c_wsConnId s) \<and> c_wsInput s \<noteq> [] then Some (the (c_wsConnId s), c_wsInput s) else None)"

definition wsSendMsg_done :: "string option \<Rightarrow> api_client \<Rightarrow> api_client" where
  \<comment> \<open>the error message, if sending failed\<close>
  "wsSendMsg_done err s = (case err of None \<Rightarrow> s\<lparr>c_wsInput := []\<rparr> | Some m \<Rightarrow> s\<lparr>c_error := m\<rparr>)"

definition wsClear :: "api_client \<Rightarrow> api_client" where
  "wsClear s = s\<lparr>c_wsMessages := []\<rparr>"

subsection \<open>Runs of the client\<close>

datatype client_event =
    ESendBegin | ESendDone string "string + api_response" | EClear
  | EUrl string | EParam nat "api_header \<Rightarrow> api_header" | EParamAdd | EParamRemove nat
  | EHeader nat "api_header \<Rightarrow> api_header" | EHeaderAdd | EHeaderRemove nat
  | EFormat "string \<Rightarrow> string option"
  | ELoad saved_api | ESave int "string option" | ESaveAs string int string "string option"
  | EFolder string int string "string option" | ERename int string string | EDelete string
  | EDuplicate string int string | EMove int string string int bool | EBlank
  | EMode api_mode | EWsMessage ws_message | EWsStatus string string | EWsConnect
  | EWsConnected "string + ws_connect_result" | EWsDisconnect | EWsSent "string option" | EWsClear
  | EReload "string \<Rightarrow> api_node list option" "string option" | EPersist
  | EImport "string \<Rightarrow> (api_node list option) option" "string option"

fun client_step :: "translator \<Rightarrow> api_client \<Rightarrow> client_event \<Rightarrow> api_client" where
  "client_step t s ESendBegin = fst (doSend_begin t s)"
| "client_step t s (ESendDone k r) = doSend_done k r s"
| "client_step t s EClear = clearResponse s"
| "client_step t s (EUrl u) = updateUrl u s"
| "client_step t s (EParam i f) = updateParam i f s"
| "client_step t s EParamAdd = addParam s"
| "client_step t s (EParamRemove i) = removeParam i s"
| "client_step t s (EHeader i f) = updateHeader i f s"
| "client_step t s EHeaderAdd = addHeader s"
| "client_step t s (EHeaderRemove i) = removeHeader i s"
| "client_step t s (EFormat p) = formatJsonBody t p s"
| "client_step t s (ELoad a) = loadSavedApi a s"
| "client_step t s (ESave now n) = fst (saveCurrentApi now n s)"
| "client_step t s (ESaveAs i now n f) = saveAsNewApi t i now n f s"
| "client_step t s (EFolder i now n p) = createFolder t i now n p s"
| "client_step t s (ERename now i n) = renameTreeNode now i n s"
| "client_step t s (EDelete i) = deleteTreeNode i s"
| "client_step t s (EDuplicate c now i) = duplicateApiItem t c now i s"
| "client_step t s (EMove now a b p g) = moveNode now a b p g s"
| "client_step t s EBlank = newBlankApi s"
| "client_step t s (EMode m) = wsSwitchMode m s"
| "client_step t s (EWsMessage m) = ws_message_received m s"
| "client_step t s (EWsStatus a b) = ws_status_received a b s"
| "client_step t s EWsConnect = fst (wsConnect_begin t s)"
| "client_step t s (EWsConnected r) = wsConnect_done r s"
| "client_step t s EWsDisconnect = fst (wsDisconnect s)"
| "client_step t s (EWsSent e) = wsSendMsg_done e s"
| "client_step t s EWsClear = wsClear s"
| "client_step t s (EReload p raw) = reloadApiTree p raw s"
| "client_step t s EPersist = fst (persist_effect s)"
| "client_step t s (EImport p raw) = (case importApis p raw s of Inl _ \<Rightarrow> s | Inr (u, _) \<Rightarrow> u)"

definition fresh_id :: "string \<Rightarrow> api_client \<Rightarrow> bool" where
  \<comment> \<open>what \<open>Date.now()\<close> and the random suffix are used for\<close>
  "fresh_id i s \<longleftrightarrow> i \<noteq> [] \<and> i \<noteq> draft_key \<and> i \<notin> set (tree_ids (c_tree s)) \<and> c_exec s i = None"

fun client_enabled :: "api_client \<Rightarrow> client_event \<Rightarrow> bool" where
  \<comment> \<open>new ids are fresh; items are opened from the tree; a save-as starts from a draft; a tree that is loaded or imported has
      distinct ids\<close>
  "client_enabled s (ESaveAs i now n f) \<longleftrightarrow> fresh_id i s \<and> c_currentId s = None"
| "client_enabled s (EFolder i now n p) \<longleftrightarrow> fresh_id i s"
| "client_enabled s (EDuplicate i now a) \<longleftrightarrow> fresh_id i s"
| "client_enabled s (ELoad a) \<longleftrightarrow> sa_id a \<noteq> [] \<and> sa_id a \<noteq> draft_key"
| "client_enabled s (EDelete i) \<longleftrightarrow> i \<noteq> [] \<and> i \<noteq> draft_key"
| "client_enabled s (EReload p raw) \<longleftrightarrow> (case Option.bind raw p of Some ns \<Rightarrow> distinct (tree_ids ns) | None \<Rightarrow> True)"
| "client_enabled s (EImport p raw) \<longleftrightarrow> (case Option.bind raw p of Some (Some ns) \<Rightarrow> distinct (tree_ids ns) | _ \<Rightarrow> True)"
| "client_enabled s _ \<longleftrightarrow> True"

definition client_inv :: "api_client \<Rightarrow> bool" where
  \<comment> \<open>the shown response is the cached response of the shown request, the ids of the tree are
      distinct, and the message list is bounded\<close>
  "client_inv s \<longleftrightarrow>
     c_response s = Option.bind (c_exec s (cur_key s)) ex_response \<and>
     c_currentId s \<noteq> Some draft_key \<and> c_currentId s \<noteq> Some [] \<and>
     distinct (tree_ids (c_tree s)) \<and> length (c_wsMessages s) \<le> MAX_WS_MESSAGES"

lemma client_inv_frame:
  assumes "client_inv s" and "c_response u = c_response s" and "c_exec u = c_exec s"
    and "c_currentId u = c_currentId s" and "c_tree u = c_tree s" and "c_wsMessages u = c_wsMessages s"
  shows "client_inv u"
  using assms by (simp add: client_inv_def cur_key_def)

lemma client_inv_tree:
  "client_inv s \<Longrightarrow> distinct (tree_ids ns) \<Longrightarrow> client_inv (s\<lparr>c_tree := ns, c_currentName := n\<rparr>)"
  by (simp add: client_inv_def cur_key_def)

lemma cur_key_draft: "cur_key s = draft_key \<longleftrightarrow> c_currentId s = None \<or> c_currentId s = Some [] \<or> c_currentId s = Some draft_key"
  by (auto simp: cur_key_def opt_or_def str_or_def split: option.splits)

lemma doSend_begin_inv: "client_inv s \<Longrightarrow> client_inv (fst (doSend_begin t s))"
  by (auto simp: client_inv_def doSend_begin_def cur_key_def Let_def)

lemma doSend_done_inv: "client_inv s \<Longrightarrow> client_inv (doSend_done k r s)"
  by (auto simp: client_inv_def doSend_done_def cur_key_def Let_def split: sum.splits)

lemma clearResponse_inv: "client_inv s \<Longrightarrow> client_inv (clearResponse s)"
  by (simp add: client_inv_def clearResponse_def cur_key_def)

lemma loadSavedApi_inv:
  "client_inv s \<Longrightarrow> sa_id a \<noteq> [] \<Longrightarrow> sa_id a \<noteq> draft_key \<Longrightarrow> client_inv (loadSavedApi a s)"
  by (simp add: client_inv_def loadSavedApi_def show_cached_def cur_key_def opt_or_def str_or_def Let_def)

lemma newBlankApi_inv: "client_inv s \<Longrightarrow> client_inv (newBlankApi s)"
  by (simp add: client_inv_def newBlankApi_def show_cached_def cur_key_def opt_or_def)

lemma deleteTreeNode_inv:
  "client_inv s \<Longrightarrow> i \<noteq> [] \<Longrightarrow> i \<noteq> draft_key \<Longrightarrow> client_inv (deleteTreeNode i s)"
  by (auto simp: client_inv_def deleteTreeNode_def show_cached_def cur_key_def opt_or_def str_or_def
      Let_def remove_distinct split: option.splits)

lemma saveAs_inv:
  assumes "client_inv s" and "fresh_id i s" and "c_currentId s = None"
  shows "client_inv (saveAsNewApi t i now n f s)"
proof -
  have "distinct (tree_ids (insertTreeNode now (c_tree s) f' (Item (editor_item s (blank_item i nm now)))))"
    for f' nm
    using assms(1,2) by (intro insert_distinct) (simp_all add: client_inv_def fresh_id_def editor_item_def blank_item_def)
  with assms show ?thesis
    by (auto simp: client_inv_def saveAsNewApi_def cur_key_def opt_or_def str_or_def fresh_id_def Let_def
        split: option.splits)
qed

lemma patches_keep_ids: "patch_keeps_ids (save_patch now n s)" "patch_keeps_ids (rename_patch n)"
  by (simp_all add: patch_keeps_ids_def save_patch_def rename_patch_def editor_item_def)

lemma saveCurrentApi_inv: "client_inv s \<Longrightarrow> client_inv (fst (saveCurrentApi now n s))"
  by (auto simp: saveCurrentApi_def Let_def patches_keep_ids client_inv_def cur_key_def
      intro!: update_distinct split: option.splits api_node.splits)

lemma client_inv_step:
  assumes "client_inv s" and "client_enabled s e"
  shows "client_inv (client_step t s e)"
proof (cases e)
  case (EFolder i now n p)
  have "distinct (tree_ids (insertTreeNode now (c_tree s) p' (Folder \<lparr>fo_id = i, fo_name = m, fo_createdAt = now, fo_updatedAt = now\<rparr> [])))"
    for p' m
    using assms by (intro insert_distinct) (simp_all add: client_inv_def fresh_id_def EFolder)
  with assms EFolder show ?thesis
    by (simp add: createFolder_def client_inv_def cur_key_def Let_def)
next
  case (EDuplicate c now i)
  have "distinct (tree_ids (insertTreeNode now (c_tree s) None (Item a)))" if "sa_id a = c" for a
    using assms that by (intro insert_distinct) (simp_all add: client_inv_def fresh_id_def EDuplicate)
  with assms EDuplicate show ?thesis
    by (auto simp: duplicateApiItem_def client_inv_def cur_key_def split: option.splits api_node.splits)
next
  case (ERename now i n)
  with assms show ?thesis
    by (simp add: renameTreeNode_def client_inv_tree update_distinct patches_keep_ids client_inv_def cur_key_def)
next
  case (EMove now a b p g)
  with assms show ?thesis
    by (simp add: moveNode_def move_distinct client_inv_def cur_key_def)
next
  case (EWsMessage m)
  with assms show ?thesis
    by (simp add: ws_message_received_def client_inv_def cur_key_def Let_def)
next
  case (EWsConnected r)
  with assms show ?thesis
    by (auto simp: wsConnect_done_def client_inv_def cur_key_def split: sum.splits)
next
  case EWsClear
  with assms show ?thesis by (simp add: wsClear_def client_inv_def cur_key_def)
next
  case (EReload p raw)
  with assms show ?thesis
    by (cases raw) (auto simp: reloadApiTree_def client_inv_def cur_key_def Let_def split: option.splits)
next
  case EPersist
  with assms show ?thesis by (simp add: persist_effect_def client_inv_def cur_key_def)
next
  case (EImport p raw)
  with assms show ?thesis
    by (cases raw) (auto simp: importApis_def client_inv_def cur_key_def split: option.splits)
next
  case (EFormat p)
  with assms show ?thesis
    by (auto simp: formatJsonBody_def client_inv_def cur_key_def split: option.splits)
next
  case EWsConnect
  with assms show ?thesis
    by (auto simp: wsConnect_begin_def client_inv_def cur_key_def Let_def)
next
  case (EWsSent err)
  with assms show ?thesis
    by (auto simp: wsSendMsg_done_def client_inv_def cur_key_def split: option.splits)
qed (use assms in \<open>auto simp: doSend_begin_inv doSend_done_inv clearResponse_inv loadSavedApi_inv
      newBlankApi_inv deleteTreeNode_inv saveAs_inv saveCurrentApi_inv updateUrl_def updateParam_def
      addParam_def removeParam_def set_params_def addHeader_def updateHeader_def removeHeader_def
      wsSwitchMode_def ws_status_received_def wsDisconnect_def Let_def
      intro: client_inv_frame\<close>)

interpretation client: transition_system client_enabled "client_step t" client_inv for t
  by unfold_locales (rule client_inv_step)

text \<open>
  C2: in every run of sending, answers, edits, opening, saving, moving, deleting, loading and importing, in which a request is saved
  as a new one only from a draft and a tree that is loaded or imported has distinct ids, the response on screen is the one cached for
  the request on screen, no two nodes of the tree share an id, and the list of WebSocket messages stays within its bound. What a
  save-as from a saved request does to the response is \<open>save_as_shows_foreign_response\<close>.
\<close>

theorem client_invariant:
  assumes "run_steps client_enabled (client_step t) initialClient es = Some s"
  shows "client_inv s"
proof (rule client.run_inv [OF _ assms])
  show "client_inv initialClient"
    by (simp add: client_inv_def initialClient_def MAX_WS_MESSAGES_def)
qed

definition demo_response :: "string \<Rightarrow> api_response" where
  "demo_response b = \<lparr>rs_status = ''200 OK'', rs_statusCode = 200, rs_proto = ''HTTP/1.1'', rs_headers = [],
     rs_body = b, rs_durationMs = 1, rs_size = 1, rs_error = []\<rparr>"

definition demo_events :: "client_event list" where
  "demo_events = [ESendBegin, ELoad (demo_item ''a''), ESendDone ''__draft__'' (Inr (demo_response ''y'')),
     EDelete ''a'', EBlank]"

theorem client_invariant_witness:
  "\<exists>s. run_steps client_enabled (client_step (\<lambda>_ _. [])) initialClient demo_events = Some s \<and> client_inv s"
proof -
  have "run_steps client_enabled (client_step (\<lambda>_ _. [])) initialClient demo_events \<noteq> None"
    by (simp add: demo_events_def demo_item_def draft_key_def del: client_step.simps)
  then show ?thesis using client_invariant by blast
qed

text \<open>
  C3: a late answer goes to the request it belongs to. If another request is on screen when the answer for \<open>a\<close> arrives, nothing
  changes but what is kept for \<open>a\<close>; and when \<open>a\<close> is opened afterwards, it shows this answer with its error, or, where the call has
  failed, the answer it had before and the message of the failure, and is not being sent.
\<close>

theorem late_answer_does_not_leak:
  assumes "cur_key s \<noteq> sa_id a"
  shows "let u = doSend_done (sa_id a) r s; v = loadSavedApi a u in
    u\<lparr>c_exec := c_exec s\<rparr> = s \<and> (\<forall>k. k \<noteq> sa_id a \<longrightarrow> c_exec u k = c_exec s k) \<and> \<not> c_sending v \<and>
    (case r of
       Inr res \<Rightarrow> c_response v = Some res \<and> c_error v = rs_error res \<and> c_respTab v = TabBody
     | Inl msg \<Rightarrow> c_response v = Option.bind (c_exec s (sa_id a)) ex_response \<and> c_error v = msg)"
  using assms by (auto simp: doSend_done_def loadSavedApi_def show_cached_def Let_def split: sum.splits)

theorem late_answer_does_not_leak_witness:
  "c_response (doSend_done ''a'' (Inr (demo_response ''y'')) initialClient) = None \<and>
   c_response (loadSavedApi (demo_item ''a'') (doSend_done ''a'' (Inr (demo_response ''y'')) initialClient)) = Some (demo_response ''y'')"
proof -
  have "cur_key initialClient \<noteq> sa_id (demo_item ''a'')"
    by (simp add: cur_key_def initialClient_def draft_key_def opt_or_def demo_item_def)
  from late_answer_does_not_leak [OF this, of "Inr (demo_response ''y'')"]
  have "(doSend_done ''a'' (Inr (demo_response ''y'')) initialClient)\<lparr>c_exec := c_exec initialClient\<rparr> = initialClient"
    "c_response (loadSavedApi (demo_item ''a'') (doSend_done ''a'' (Inr (demo_response ''y'')) initialClient)) = Some (demo_response ''y'')"
    by (simp_all add: Let_def demo_item_def)
  moreover from arg_cong [OF this(1), of c_response]
  have "c_response (doSend_done ''a'' (Inr (demo_response ''y'')) initialClient) = None" by (simp add: initialClient_def)
  ultimately show ?thesis by blast
qed

lemma find_in_item: "find_in i ns = Some (Item a) \<Longrightarrow> a \<in> set (items ns) \<and> sa_id a = i"
  by (induction i ns rule: find_in.induct) (auto split: if_splits option.splits)

lemma find_in_update:
  "find_in i ns = Some (Item a) \<Longrightarrow> patch_keeps_ids p \<Longrightarrow>
     find_in i (map (update_in now i p) ns) = Some (Item (stamp now p a))"
proof (induction i ns rule: find_in.induct)
  case (3 i f ch ns)
  show ?case
  proof (cases "find_in i ch")
    case None
    then have "i \<notin> set (tree_ids ch)" by (simp add: find_in_None)
    then have "map (update_in now i p) ch = ch" by (rule update_absent)
    with 3 None show ?thesis by (auto split: if_splits)
  next
    case (Some n)
    with 3 show ?thesis by (auto split: if_splits)
  qed
qed (auto simp: stamp_def patch_keeps_ids_def)

text \<open>
  Saving leaves nothing to save: after a successful save the editor and the saved request
  agree, so the request is no longer shown as modified.
\<close>

theorem save_then_unmodified:
  assumes "saveCurrentApi now name s = (u, True)"
  shows "\<not> isModified u"
proof -
  from assms obtain i a where i: "c_currentId s = Some i" "i \<noteq> []"
    and a: "findTreeNode (c_tree s) i = Some (Item a)"
    by (auto simp: saveCurrentApi_def opt_or_opt_def split: option.splits api_node.splits if_splits)
  define n where "n = opt_or (opt_or_opt name (c_currentName s)) (sa_name a)"
  have u: "u = s\<lparr>c_tree := updateTreeNode now (c_tree s) i (save_patch now n s),
      c_currentName := (if truthy name then name else c_currentName s)\<rparr>"
    using assms i a by (simp add: saveCurrentApi_def opt_or_opt_def n_def Let_def)
  have "find_in i (map (update_in now i (save_patch now n s)) (c_tree s)) = Some (Item (stamp now (save_patch now n s) a))"
    using a i by (intro find_in_update) (simp_all add: findTreeNode_def patches_keep_ids)
  then have "currentSavedItem u = Some (stamp now (save_patch now n s) a)"
    using i by (simp add: u currentSavedItem_def opt_or_opt_def findTreeNode_def updateTreeNode_def)
  then show ?thesis
    by (simp add: isModified_def u stamp_def save_patch_def editor_item_def nullish_def)
qed

definition demo_client :: api_client where
  "demo_client = initialClient\<lparr>c_tree := [Item (demo_item ''a'')], c_currentId := Some ''a'', c_url := ''u''\<rparr>"

theorem save_then_unmodified_witness:
  "isModified demo_client \<and> snd (saveCurrentApi 5 None demo_client) \<and>
   \<not> isModified (fst (saveCurrentApi 5 None demo_client))"
proof -
  have ok: "snd (saveCurrentApi 5 None demo_client)" "isModified demo_client"
    by (simp_all add: demo_client_def saveCurrentApi_def isModified_def currentSavedItem_def
        opt_or_opt_def findTreeNode_def demo_item_def initialClient_def Let_def)
  then have "saveCurrentApi 5 None demo_client = (fst (saveCurrentApi 5 None demo_client), True)"
    by (metis prod.collapse)
  from save_then_unmodified [OF this] ok show ?thesis by simp
qed

definition complete_http :: "saved_api \<Rightarrow> bool" where
  \<comment> \<open>an HTTP item with every field, as \<open>saveAsNewApi\<close> and \<open>saveCurrentApi\<close> write it\<close>
  "complete_http a \<longleftrightarrow>
     sa_mode a = Some Http \<and> sa_method a \<notin> {[], ''WS''} \<and> sa_params a \<noteq> None \<and> sa_headers a \<noteq> None \<and>
     truthy (sa_bodyType a) \<and> sa_body a \<noteq> None \<and> sa_auth a \<noteq> None \<and>
     sa_timeoutMs a \<notin> {None, Some 0} \<and> sa_insecureTLS a \<noteq> None \<and> sa_followRedirects a \<noteq> None"

lemma find_saved:
  "sa_id a \<noteq> [] \<Longrightarrow> findTreeNode (c_tree s) (sa_id a) = Some (Item a) \<Longrightarrow>
     currentSavedItem (loadSavedApi a s) = Some a"
  by (simp add: currentSavedItem_def loadSavedApi_def show_cached_def opt_or_opt_def Let_def)

text \<open>
  Opening a request shows it as it was saved: for every complete HTTP item of the tree the
  editor agrees with the item, whatever was open before.
\<close>

theorem open_then_unmodified:
  assumes "complete_http a" and "findTreeNode (c_tree s) (sa_id a) = Some (Item a)"
  shows "currentSavedItem (loadSavedApi a s) = Some a \<and> \<not> isModified (loadSavedApi a s)"
proof -
  have "sa_id a \<noteq> []" using assms(2) by (auto simp: findTreeNode_def)
  with assms(2) find_saved have saved: "currentSavedItem (loadSavedApi a s) = Some a" by blast
  with assms(1) show ?thesis
    by (auto simp: isModified_def complete_http_def loadSavedApi_def Let_def nullish_def opt_or_def
        str_or_def num_or_def truthy_def split: option.splits)
qed

definition full_item :: "string \<Rightarrow> api_mode \<Rightarrow> saved_api" where
  "full_item i m = (editor_item initialClient (blank_item i i 0))\<lparr>sa_mode := Some m\<rparr>"

theorem open_then_unmodified_witness:
  "\<not> isModified (loadSavedApi (full_item ''a'' Http) (initialClient\<lparr>c_tree := [Item (full_item ''a'' Http)]\<rparr>))"
  by (rule open_then_unmodified [THEN conjunct2])
    (simp_all add: complete_http_def full_item_def editor_item_def blank_item_def initialClient_def
      findTreeNode_def)

text \<open>
  Opening a WebSocket item does not restore its parameters, body, timeout or redirect setting:
  the editor keeps those of the request that was open before, and a save would write them into the
  WebSocket item.
\<close>

theorem open_ws_keeps_stale_fields:
  assumes "sa_mode a = Some Ws"
  shows "let u = loadSavedApi a s in
    c_params u = c_params s \<and> c_bodyType u = c_bodyType s \<and> c_body u = c_body s \<and>
    c_timeoutMs u = c_timeoutMs s \<and> c_followRedirects u = c_followRedirects s \<and> c_method u = c_method s \<and>
    c_currentId u = Some (sa_id a)"
  using assms by (simp add: loadSavedApi_def show_cached_def Let_def)

theorem open_ws_keeps_stale_fields_witness:
  "c_body (loadSavedApi (full_item ''w'' Ws) (initialClient\<lparr>c_body := ''secret''\<rparr>)) = ''secret''"
  using open_ws_keeps_stale_fields [of "full_item ''w'' Ws" "initialClient\<lparr>c_body := ''secret''\<rparr>"]
  by (simp add: full_item_def Let_def)

text \<open>
  A draft that is saved while its request is under way stays in the sending state: the answer
  is filed under the draft's key, so it is neither shown nor kept for the saved request, and the
  flag on screen and in its cache entry is never reset.
\<close>

theorem save_during_send_hangs:
  assumes "c_currentId s = None" and "doSend_begin t s = (s1, Some (key, rq))" and "fresh_id i s"
  shows "let u = doSend_done key (Inr res) (saveAsNewApi t i now name f s1) in
    c_sending u \<and> c_response u = c_response s \<and> cur_key u = i \<and> map_option ex_sending (c_exec u i) = Some True"
proof -
  from assms(1,2) have key: "key = draft_key" and s1: "c_sending s1" "c_response s1 = c_response s"
    "map_option ex_sending (c_exec s1 draft_key) = Some True"
    by (auto simp: doSend_begin_def cur_key_def opt_or_def Let_def split: if_splits)
  define s2 where "s2 = saveAsNewApi t i now name f s1"
  have i: "i \<noteq> []" "i \<noteq> draft_key" using assms(3) by (simp_all add: fresh_id_def)
  have s2: "c_sending s2" "c_response s2 = c_response s" "cur_key s2 = i"
    "map_option ex_sending (c_exec s2 i) = Some True"
    using s1 i by (auto simp: s2_def saveAsNewApi_def cur_key_def opt_or_def str_or_def Let_def split: option.splits)
  then show ?thesis
    using i by (simp add: doSend_done_def key Let_def cur_key_def flip: s2_def)
qed

theorem save_during_send_hangs_witness:
  "c_sending (doSend_done draft_key (Inr (demo_response ''y''))
     (saveAsNewApi (\<lambda>_ _. []) ''a'' 1 ''n'' None (fst (doSend_begin (\<lambda>_ _. []) (initialClient\<lparr>c_url := ''u''\<rparr>)))))"
proof -
  let ?s = "initialClient\<lparr>c_url := ''u''\<rparr>"
  have "trim ''u'' \<noteq> []" by code_simp
  then obtain s1 rq where "doSend_begin (\<lambda>_ _. []) ?s = (s1, Some (draft_key, rq))"
    by (simp add: doSend_begin_def cur_key_def opt_or_def initialClient_def Let_def)
  moreover have "fresh_id ''a'' ?s" "c_currentId ?s = None"
    by (simp_all add: fresh_id_def draft_key_def initialClient_def)
  ultimately show ?thesis
    using save_during_send_hangs [of ?s "\<lambda>_ _. []" s1 draft_key rq "''a''"] by (simp add: Let_def)
qed

text \<open>
  Save-as from a saved request breaks the link between screen and cache: the response of the
  old request stays on screen for the new one, whose cache entry is the draft's (or none).
\<close>

theorem save_as_shows_foreign_response:
  assumes "c_currentId s = Some a" and "c_response s = Some r" and "fresh_id i s"
  shows "let u = saveAsNewApi t i now name f s in
    cur_key u = i \<and> c_response u = Some r \<and> c_exec u i = c_exec s draft_key"
  using assms
  by (auto simp: saveAsNewApi_def cur_key_def opt_or_def str_or_def fresh_id_def Let_def split: option.splits)

theorem save_as_shows_foreign_response_witness:
  "c_exec (saveAsNewApi (\<lambda>_ _. []) ''b'' 1 ''n'' None
     (demo_client\<lparr>c_response := Some (demo_response ''y'')\<rparr>)) ''b'' = None"
  using save_as_shows_foreign_response [of "demo_client\<lparr>c_response := Some (demo_response ''y'')\<rparr>" "''a''"
      "demo_response ''y''" "''b''" "\<lambda>_ _. []" 1 "''n''" None]
  by (simp add: demo_client_def initialClient_def fresh_id_def draft_key_def demo_item_def Let_def)

end
