(* ===== verification/ApiCurl.thy ===== *)
theory ApiCurl
  imports ApiUrl
begin

section \<open>The curl command of a saved request\<close>

text \<open>
  \<open>buildCurlCommand\<close> of \<open>pages/api/apiTypes.ts\<close>. The \<open>URL\<close> object of the platform is the parameter
  \<open>with_params\<close>: the address with its query parameters set, or \<open>None\<close> when the address does not
  parse. The specification side is the POSIX shell's reading of a double-quoted word.
\<close>

definition uri_safe :: "char \<Rightarrow> bool" where
  \<comment> \<open>what \<open>encodeURIComponent\<close> keeps\<close>
  "uri_safe c \<longleftrightarrow>
     (let n = of_char c :: nat in
      (48 \<le> n \<and> n \<le> 57) \<or> (65 \<le> n \<and> n \<le> 90) \<or> (97 \<le> n \<and> n \<le> 122) \<or>
      n \<in> {33, 39, 40, 41, 42, 45, 46, 95, 126})"

definition encodeURIComponent :: "string \<Rightarrow> string" where
  "encodeURIComponent s =
     concat (map (\<lambda>c. if uri_safe c then [c]
       else let n = of_char c :: nat in [CHR ''%'', hex_char (n div 16), hex_char (n mod 16)]) s)"

definition in_quotes :: "string \<Rightarrow> string" where
  \<comment> \<open>the double quotes of a template\<close>
  "in_quotes s = CHR 0x22 # s @ [CHR 0x22]"

definition curl_url :: "(string \<Rightarrow> (string \<times> string) list \<Rightarrow> string option) \<Rightarrow> saved_api \<Rightarrow> string" where
  "curl_url with_params a =
     (let url = sa_url a;
          enabled = filter active_header (nullish (sa_params a) [])
      in if enabled = [] then url
         else
           let full = starts_with url ''http://'' \<or> starts_with url ''https://'';
               kvs = map (\<lambda>p. (hd_name p, hd_value p)) enabled
           in case with_params (if full then url else ''http://'' @ url) kvs of
                Some u \<Rightarrow> if full then u else if starts_with u ''http://'' then drop 7 u else u
              | None \<Rightarrow>
                  url @ (if includes_str url ''?'' then ''&'' else ''?'') @
                  join ''&'' (map (\<lambda>(n, v). encodeURIComponent n @ ''='' @ encodeURIComponent v) kvs))"

definition curl_auth :: "saved_api \<Rightarrow> string list" where
  "curl_auth a =
     (case sa_auth a of
        None \<Rightarrow> []
      | Some au \<Rightarrow>
          if au_type au = ''bearer'' \<and> au_token au \<noteq> []
          then [''-H'', in_quotes (''Authorization: Bearer '' @ au_token au)]
          else if au_type au = ''basic'' \<and> (au_username au \<noteq> [] \<or> au_password au \<noteq> [])
          then [''-u'', in_quotes (au_username au @ '':'' @ au_password au)] else [])"

definition escape_body :: "string \<Rightarrow> string" where
  "escape_body b = replace_char (CHR 0x22) [CHR 0x5C, CHR 0x22] b"

definition buildCurlCommand ::
  "(string \<Rightarrow> (string \<times> string) list \<Rightarrow> string option) \<Rightarrow> saved_api \<Rightarrow> string" where
  "buildCurlCommand with_params a =
     (let method = str_or (sa_method a) ''GET'';
          body = nullish (sa_body a) []
      in join '' ''
           ([''curl'', ''-X'', method] @ curl_auth a @
            concat (map (\<lambda>h. [''-H'', in_quotes (hd_name h @ '': '' @ hd_value h)])
              (filter active_header (nullish (sa_headers a) []))) @
            (if trim body \<noteq> [] \<and> method \<noteq> ''GET'' \<and> method \<noteq> ''HEAD''
             then [''-d'', in_quotes (escape_body body)] else []) @
            (if nullish (sa_insecureTLS a) False then [''-k''] else []) @
            (if nullish (sa_followRedirects a) False then [''-L''] else []) @
            [in_quotes (curl_url with_params a)]))"

subsection \<open>How a shell reads the word\<close>

definition dq_special :: "char \<Rightarrow> bool" where
  \<comment> \<open>what a backslash takes literally inside double quotes\<close>
  "dq_special c \<longleftrightarrow> c \<in> {CHR ''$'', CHR ''`'', CHR 0x22, CHR 0x5C}"

fun dq_word :: "string \<Rightarrow> (string \<times> string) option" where
  \<comment> \<open>after the opening quote: the text and what follows the closing one; an expansion is \<open>None\<close>\<close>
  "dq_word [] = None"
| "dq_word [c] = (if c = CHR 0x22 then Some ([], []) else None)"
| "dq_word (c # d # s) =
     (if c = CHR 0x22 then Some ([], d # s)
      else if c = CHR ''$'' \<or> c = CHR ''`'' then None
      else if c = CHR 0x5C
      then if d = CHR 0x0A then dq_word s
        else if dq_special d then map_option (apfst (Cons d)) (dq_word s)
        else map_option (apfst (Cons c)) (dq_word (d # s))
      else map_option (apfst (Cons c)) (dq_word (d # s)))"

definition shell_plain :: "string \<Rightarrow> bool" where
  "shell_plain s \<longleftrightarrow> CHR ''$'' \<notin> set s \<and> CHR ''`'' \<notin> set s \<and> CHR 0x5C \<notin> set s"

lemma dq_word_plain:
  "c \<noteq> CHR 0x22 \<Longrightarrow> c \<noteq> CHR ''$'' \<Longrightarrow> c \<noteq> CHR ''`'' \<Longrightarrow> c \<noteq> CHR 0x5C \<Longrightarrow>
     dq_word (c # s) = map_option (apfst (Cons c)) (dq_word s)"
  by (cases s) auto

lemma dq_word_end: "dq_word (CHR 0x22 # s) = Some ([], s)"
  by (cases s) auto

lemma dq_word_append:
  "shell_plain b \<Longrightarrow> dq_word (escape_body b @ r) = map_option (apfst (append b)) (dq_word r)"
proof (induction b)
  case Nil
  then show ?case by (simp add: escape_body_def option.map_id0 [unfolded id_def] apfst_def map_prod_def)
next
  case (Cons c b)
  then show ?case
    by (cases "c = CHR 0x22")
      (auto simp: escape_body_def shell_plain_def dq_special_def dq_word_plain option.map_comp comp_def apfst_compose)
qed

text \<open>
  A body without \<open>$\<close>, backquote and backslash is passed on unchanged: a shell reads the quoted
  word of the command back to exactly the body, double quotes included.
\<close>

theorem curl_body_reads_back:
  assumes "shell_plain b"
  shows "dq_word (escape_body b @ CHR 0x22 # r) = Some (b, r)"
  using dq_word_append [OF assms] by (simp add: dq_word_end)

theorem curl_body_reads_back_witness:
  "dq_word (escape_body [CHR ''{'', CHR 0x22, CHR ''}''] @ CHR 0x22 # ''-k'') =
     Some ([CHR ''{'', CHR 0x22, CHR ''}''], ''-k'')"
  by (rule curl_body_reads_back) (simp add: shell_plain_def)

text \<open>
  The backslash is not escaped: a body with an escaped quote, as in a JSON string that contains
  one, ends the word at that quote, and the rest of the body is read as further words.
\<close>

theorem curl_body_breaks_out:
  assumes "shell_plain b"
  shows "dq_word (escape_body (b @ [CHR 0x5C, CHR 0x22] @ rest) @ CHR 0x22 # r) =
    Some (b @ [CHR 0x5C], escape_body rest @ CHR 0x22 # r)"
  using dq_word_append [OF assms] by (simp add: escape_body_def dq_special_def dq_word_end)

theorem curl_body_breaks_out_witness:
  "dq_word (escape_body (''x'' @ [CHR 0x5C, CHR 0x22] @ ''; ls'') @ CHR 0x22 # []) =
     Some (''x'' @ [CHR 0x5C], ''; ls'' @ [CHR 0x22])"
  by (subst curl_body_breaks_out) (simp_all add: shell_plain_def escape_body_def)

end
