(* ===== verification/AgentTypes.thy ===== *)
theory AgentTypes
  imports JsValue
begin

section \<open>The records of the agent\<close>

text \<open>
  Messages, process steps, plans, sessions and requests of the agent (\<open>types.ts\<close>). A status that
  events may overwrite with any text is a string; the arguments and the output of a tool are
  values of type \<open>any\<close>.
\<close>

datatype step_type = Think | ToolStep

datatype step_status = Running | Completed | Failed

record process_step =
  ps_id :: string
  ps_type :: step_type
  ps_title :: string
  ps_summary :: "string option"
  ps_content :: string
  ps_timestamp :: int
  ps_duration_ms :: "int option"
  ps_status :: "step_status option"

record tool_call_item =
  tc_id :: string
  tc_name :: string
  tc_args :: string

record plan_step =
  st_id :: string
  st_action :: string
  st_tool_name :: "string option"
  st_args :: js_value
  st_description :: string
  st_depends_on :: "string list option"
  st_expected_out :: "string option"
  st_exempted :: "bool option"
  st_status :: string
  st_duration_ms :: "int option"
  st_error :: "string option"
  st_output :: js_value
  st_verdict :: "string option"

record agent_plan =
  pl_id :: string
  pl_session_id :: string
  pl_objective :: string
  pl_content :: string
  pl_file_path :: "string option"
  pl_status :: "string option"
  pl_is_update :: "bool option"
  pl_steps :: "plan_step list option"
  pl_risk_level :: "string option"
  pl_need_confirm :: "bool option"
  pl_executing :: "bool option"
  pl_summary :: "string option"
  pl_reasoning_content :: "string option"
  pl_created_at :: int

datatype role = RoleSystem | RoleUser | RoleAssistant | RoleTool

record ai_message =
  am_role :: role
  am_content :: string
  am_reasoning :: "string option"
  am_steps :: "process_step list option"
  am_images :: "string list option"
  am_tool_calls :: "tool_call_item list option"
  am_tool_call_id :: "string option"
  am_name :: "string option"
  am_timestamp :: "int option"
  am_plan :: "agent_plan option"
  am_plan_summary :: "string option"

record agent_session =
  ag_id :: string
  ag_title :: string
  ag_workspace :: "string option"
  ag_createdAt :: "int option"
  ag_created_at :: "int option"
  ag_updatedAt :: "int option"
  ag_updated_at :: "int option"

record agent_ask_request =
  aq_ask_id :: string
  aq_session_id :: string
  aq_trace_id :: "string option"
  aq_question :: string
  aq_options :: "string list option"
  aq_created_at :: "int option"

record agent_hitl_request =
  hq_confirm_id :: string
  hq_session_id :: string
  hq_trace_id :: "string option"
  hq_tool_name :: string
  hq_tool_desc :: string
  hq_input :: string
  hq_risk_detail :: string
  hq_created_at :: "int option"

definition plain_message :: "role \<Rightarrow> string \<Rightarrow> ai_message" where
  "plain_message r c =
     \<lparr>am_role = r, am_content = c, am_reasoning = None, am_steps = None, am_images = None,
      am_tool_calls = None, am_tool_call_id = None, am_name = None, am_timestamp = None,
      am_plan = None, am_plan_summary = None\<rparr>"

lemma plain_message_simps [simp]:
  "am_role (plain_message r c) = r" "am_content (plain_message r c) = c"
  "am_plan (plain_message r c) = None" "am_steps (plain_message r c) = None"
  by (simp_all add: plain_message_def)

end
