(* ===== verification/AgentSessions.thy ===== *)
theory AgentSessions
  imports AgentTypes
begin

section \<open>The agent's sessions\<close>

text \<open>
  \<open>pages/agent/hooks/useAgentSessions.ts\<close>: paging of the history by rounds, the state of plans in a
  loaded history, and the list of sessions with the active one. An asynchronous handler is split at
  its awaits; the answers of the backend are arguments. The active id is stored under the storage
  key for it by every handler that changes it, so the state has one field for what is stored.
\<close>

definition DEFAULT_SESSION_ID :: string where
  "DEFAULT_SESSION_ID = ''ai_agent_default''"

definition DEFAULT_PAGE_ROUNDS :: nat where
  "DEFAULT_PAGE_ROUNDS = 5"

subsection \<open>Paging by rounds\<close>

record round_page =
  rp_sliced :: "ai_message list"
  rp_totalRounds :: nat
  rp_visibleRounds :: nat
  rp_hasMore :: bool
  rp_remainingRounds :: nat

definition is_user :: "ai_message \<Rightarrow> bool" where
  "is_user m \<longleftrightarrow> am_role m = RoleUser"

definition user_indices :: "ai_message list \<Rightarrow> nat list" where
  "user_indices ms = filter (\<lambda>i. is_user (ms ! i)) [0..<length ms]"

definition sliceLatestRounds :: "ai_message list \<Rightarrow> nat \<Rightarrow> round_page" where
  "sliceLatestRounds allMsgs roundCount =
     (if allMsgs = []
      then \<lparr>rp_sliced = [], rp_totalRounds = 0, rp_visibleRounds = 0, rp_hasMore = False, rp_remainingRounds = 0\<rparr>
      else
        let us = user_indices allMsgs; total = (if us = [] then 1 else length us) in
        if length us \<le> roundCount
        then \<lparr>rp_sliced = allMsgs, rp_totalRounds = total, rp_visibleRounds = total,
              rp_hasMore = False, rp_remainingRounds = 0\<rparr>
        else \<lparr>rp_sliced =
                (if roundCount = 0 then allMsgs \<comment> \<open>\<open>slice(undefined)\<close>\<close>
                 else drop (us ! (length us - roundCount)) allMsgs),
              rp_totalRounds = total, rp_visibleRounds = roundCount, rp_hasMore = True,
              rp_remainingRounds = length us - roundCount\<rparr>)"

subsection \<open>Plans of a loaded history\<close>

definition unapproved :: "ai_message \<Rightarrow> bool" where
  "unapproved m \<longleftrightarrow> (case am_plan m of None \<Rightarrow> False | Some p \<Rightarrow> pl_status p \<noteq> Some ''approved'')"

definition expire :: "ai_message \<Rightarrow> ai_message" where
  "expire m = m\<lparr>am_plan := map_option (\<lambda>p. p\<lparr>pl_status := Some ''expired''\<rparr>) (am_plan m)\<rparr>"

definition normalizePlans :: "ai_message list \<Rightarrow> ai_message list" where
  \<comment> \<open>every unapproved plan but the last one expires\<close>
  "normalizePlans msgs =
     (let us = filter (\<lambda>i. unapproved (msgs ! i)) [0..<length msgs] in
      if length us > 1 then foldl (\<lambda>ms i. ms[i := expire (ms ! i)]) msgs (butlast us) else msgs)"

subsection \<open>State\<close>

record agent_sessions =
  as_sessions :: "agent_session list"
  as_active :: string
  as_stored :: "string option"
  as_messages :: "ai_message list"
  as_visibleRounds :: nat
  as_loadingSessions :: bool
  as_loadingMessages :: bool

definition initialAgentSessions :: "string option \<Rightarrow> agent_sessions" where
  \<comment> \<open>the argument is the stored id\<close>
  "initialAgentSessions stored =
     \<lparr>as_sessions = [], as_active = nullish stored DEFAULT_SESSION_ID, as_stored = stored,
      as_messages = [], as_visibleRounds = DEFAULT_PAGE_ROUNDS, as_loadingSessions = False,
      as_loadingMessages = False\<rparr>"

definition currentSession :: "agent_sessions \<Rightarrow> agent_session option" where
  "currentSession s = find (\<lambda>x. ag_id x = as_active s) (as_sessions s)"

definition set_active :: "string \<Rightarrow> agent_sessions \<Rightarrow> agent_sessions" where
  \<comment> \<open>state, ref and storage together\<close>
  "set_active i s = s\<lparr>as_active := i, as_stored := Some i\<rparr>"

definition loadMessages_begin :: "string option \<Rightarrow> agent_sessions \<Rightarrow> agent_sessions \<times> string option" where
  \<comment> \<open>\<open>loadSessionMessages\<close> up to the await: the session it asks for\<close>
  "loadMessages_begin sessionId s =
     (let target = opt_or sessionId (as_active s) in
      if target = [] then (s, None) else (s\<lparr>as_loadingMessages := True\<rparr>, Some target))"

definition loadMessages_done :: "ai_message list option \<Rightarrow> agent_sessions \<Rightarrow> agent_sessions" where
  \<comment> \<open>the answer, \<open>None\<close> for a failure\<close>
  "loadMessages_done raw s =
     (case raw of
        Some msgs \<Rightarrow>
          s\<lparr>as_messages := normalizePlans msgs, as_visibleRounds := DEFAULT_PAGE_ROUNDS,
            as_loadingMessages := False\<rparr>
      | None \<Rightarrow> s\<lparr>as_messages := [], as_loadingMessages := False\<rparr>)"

definition loadSessions_begin :: "agent_sessions \<Rightarrow> agent_sessions" where
  "loadSessions_begin s = s\<lparr>as_loadingSessions := True\<rparr>"

definition loadSessions_listed ::
  "agent_session list option \<Rightarrow> agent_session option \<Rightarrow> agent_sessions \<Rightarrow> agent_sessions \<times> string option" where
  \<comment> \<open>the list (\<open>None\<close>: failure), the session created when it is empty (\<open>None\<close>: failure); the
      result names the session whose messages are loaded next\<close>
  "loadSessions_listed listed created s =
     (case listed of
        None \<Rightarrow> (s, None)
      | Some [] \<Rightarrow>
          (case created of
             None \<Rightarrow> (s, None)
           | Some c \<Rightarrow> (set_active (ag_id c) (s\<lparr>as_sessions := [c]\<rparr>), Some (ag_id c)))
      | Some (x # xs) \<Rightarrow>
          (let target = (case find (\<lambda>y. Some (ag_id y) = as_stored s) (x # xs) of
                           Some y \<Rightarrow> ag_id y | None \<Rightarrow> ag_id x)
           in (set_active target (s\<lparr>as_sessions := x # xs\<rparr>), Some target)))"

definition loadSessions_finish :: "agent_sessions \<Rightarrow> agent_sessions" where
  \<comment> \<open>the \<open>finally\<close> block, once the messages are loaded or something failed\<close>
  "loadSessions_finish s = s\<lparr>as_loadingSessions := False\<rparr>"

definition createSession :: "agent_session option \<Rightarrow> agent_sessions \<Rightarrow> agent_sessions" where
  "createSession created s =
     (case created of
        None \<Rightarrow> s
      | Some c \<Rightarrow>
          (set_active (ag_id c)
             (s\<lparr>as_sessions := c # filter (\<lambda>x. ag_id x \<noteq> ag_id c) (as_sessions s)\<rparr>))
            \<lparr>as_messages := [], as_visibleRounds := DEFAULT_PAGE_ROUNDS\<rparr>)"

definition newSessionTitle :: "translator \<Rightarrow> string option \<Rightarrow> string" where
  "newSessionTitle t title = opt_or (map_option trim title) (t ''agent:newSessionDefault'' [])"

definition switchSession :: "string \<Rightarrow> agent_sessions \<Rightarrow> agent_sessions \<times> string option" where
  \<comment> \<open>the result names the session whose messages are loaded next\<close>
  "switchSession i s =
     (if i = [] \<or> i = as_active s then (s, None) else (set_active i s, Some i))"

definition touch_title :: "int \<Rightarrow> string \<Rightarrow> string \<Rightarrow> agent_session \<Rightarrow> agent_session" where
  "touch_title now i title x =
     (if ag_id x = i
      then x\<lparr>ag_title := title, ag_updated_at := Some now, ag_updatedAt := Some now\<rparr> else x)"

definition renameSession :: "int \<Rightarrow> bool \<Rightarrow> string \<Rightarrow> string \<Rightarrow> agent_sessions \<Rightarrow> agent_sessions" where
  \<comment> \<open>\<open>ok\<close>: the backend took the new title\<close>
  "renameSession now ok i newTitle s =
     (let trimmed = trim newTitle in
      if trimmed = [] \<or> \<not> ok then s
      else s\<lparr>as_sessions := map (touch_title now i trimmed) (as_sessions s)\<rparr>)"

definition deleteSession ::
  "agent_session list \<Rightarrow> bool \<Rightarrow> agent_session option \<Rightarrow> string \<Rightarrow> agent_sessions \<Rightarrow> agent_sessions \<times> string option" where
  \<comment> \<open>what follows the await: the list is the one the handler was created with; \<open>ok\<close>: the backend
      deleted the session; then the session created when none is left\<close>
  "deleteSession listed ok created i s =
     (if \<not> ok then (s, None)
      else
        let remaining = filter (\<lambda>x. ag_id x \<noteq> i) listed;
            s1 = s\<lparr>as_sessions := remaining\<rparr>
        in if as_active s \<noteq> i then (s1, None)
           else case remaining of
             x # _ \<Rightarrow> (set_active (ag_id x) s1, Some (ag_id x))
           | [] \<Rightarrow>
               (case created of
                  None \<Rightarrow> (s1, None)
                | Some c \<Rightarrow>
                    ((set_active (ag_id c) (s1\<lparr>as_sessions := [c]\<rparr>))
                       \<lparr>as_messages := [], as_visibleRounds := DEFAULT_PAGE_ROUNDS\<rparr>, None)))"

definition saveMessages :: "ai_message list \<Rightarrow> agent_sessions \<Rightarrow> string \<times> ai_message list" where
  \<comment> \<open>what is written to the backend: the session it goes to is the active one at that time\<close>
  "saveMessages msgs s = (as_active s, msgs)"

definition clearMessages :: "agent_sessions \<Rightarrow> agent_sessions \<times> string" where
  "clearMessages s = (s\<lparr>as_messages := [], as_visibleRounds := DEFAULT_PAGE_ROUNDS\<rparr>, as_active s)"

definition loadMoreHistory :: "agent_sessions \<Rightarrow> agent_sessions" where
  "loadMoreHistory s = s\<lparr>as_visibleRounds := as_visibleRounds s + DEFAULT_PAGE_ROUNDS\<rparr>"

definition visiblePage :: "agent_sessions \<Rightarrow> round_page" where
  "visiblePage s = sliceLatestRounds (as_messages s) (as_visibleRounds s)"

definition session_updated :: "int \<Rightarrow> string option \<Rightarrow> string option \<Rightarrow> agent_sessions \<Rightarrow> agent_sessions" where
  \<comment> \<open>the event \<open>agent:session_updated\<close> with its id and title\<close>
  "session_updated now i title s =
     (case opt_or_opt i None of
        None \<Rightarrow> s
      | Some k \<Rightarrow>
          s\<lparr>as_sessions := map (\<lambda>x. touch_title now k (opt_or title (ag_title x)) x) (as_sessions s)\<rparr>)"

subsection \<open>Lemmas on paging\<close>

lemma user_indices_props: "sorted (user_indices ms)" "distinct (user_indices ms)"
  "i \<in> set (user_indices ms) \<longleftrightarrow> i < length ms \<and> is_user (ms ! i)"
  by (auto simp: user_indices_def sorted_wrt_filter)

lemma filter_index: "length (filter P ms) = length (filter (\<lambda>i. P (ms ! i)) [0..<length ms])"
proof -
  have "ms = map ((!) ms) [0..<length ms]" by (simp add: map_nth)
  then have "filter P ms = filter P (map ((!) ms) [0..<length ms])" by (rule arg_cong)
  then show ?thesis by (simp add: filter_map comp_def)
qed

lemma count_users: "length (user_indices ms) = length (filter is_user ms)"
  using filter_index [of is_user ms] by (simp add: user_indices_def)

lemma users_from:
  assumes "j < length (user_indices ms)"
  shows "length (filter is_user (drop (user_indices ms ! j) ms)) = length (user_indices ms) - j"
proof -
  let ?u = "user_indices ms" and ?k = "user_indices ms ! j"
  have k: "?k < length ms" using assms user_indices_props(3) nth_mem by blast
  have "set (take j ?u) = {i \<in> set ?u. i < ?k}"
  proof (intro equalityI subsetI)
    fix i assume "i \<in> set (take j ?u)"
    then obtain m where "m < j" "i = ?u ! m" using assms by (auto simp: in_set_conv_nth)
    then show "i \<in> {i \<in> set ?u. i < ?k}"
      using assms user_indices_props(1,2) [of ms]
      by (auto simp: sorted_iff_nth_mono distinct_conv_nth le_less intro!: nth_mem)
  next
    fix i assume "i \<in> {i \<in> set ?u. i < ?k}"
    then obtain m where m: "m < length ?u" "i = ?u ! m" "i < ?k" by (auto simp: in_set_conv_nth)
    then have "m < j"
      using user_indices_props(1) [of ms] assms by (metis linorder_not_le sorted_nth_mono)
    with m assms show "i \<in> set (take j ?u)" by (auto simp: in_set_conv_nth)
  qed
  moreover have "set (filter (\<lambda>i. is_user (take ?k ms ! i)) [0..<length (take ?k ms)]) = {i \<in> set ?u. i < ?k}"
    using k by (auto simp: user_indices_props(3))
  ultimately have "set (take j ?u) = set (filter (\<lambda>i. is_user (take ?k ms ! i)) [0..<length (take ?k ms)])"
    by simp
  then have "length (take j ?u) = length (filter (\<lambda>i. is_user (take ?k ms ! i)) [0..<length (take ?k ms)])"
    using user_indices_props(2) [of ms]
    by (metis distinct_card distinct_filter distinct_take distinct_upt)
  then have "length (filter is_user (take ?k ms)) = j"
    using assms filter_index [of is_user "take ?k ms"] by simp
  moreover have "length (filter is_user ms) =
      length (filter is_user (take ?k ms)) + length (filter is_user (drop ?k ms))"
    by (metis append_take_drop_id filter_append length_append)
  ultimately show ?thesis by (simp add: count_users)
qed

text \<open>
  The page shows the latest rounds and only whole ones: it is the tail of the history with the
  last \<open>roundCount\<close> questions (or all of them), it starts with a question when something is hidden,
  and the numbers beside it add up.
\<close>

theorem page_is_latest_rounds:
  assumes "0 < roundCount"
  shows "let p = sliceLatestRounds ms roundCount in
    suffix (rp_sliced p) ms \<and>
    length (filter is_user (rp_sliced p)) = min roundCount (length (filter is_user ms)) \<and>
    (rp_hasMore p \<longrightarrow> is_user (hd (rp_sliced p)) \<and> rp_visibleRounds p = roundCount) \<and>
    (\<not> rp_hasMore p \<longrightarrow> rp_sliced p = ms) \<and>
    rp_visibleRounds p + rp_remainingRounds p = rp_totalRounds p"
proof (cases "length (user_indices ms) \<le> roundCount")
  case True
  then show ?thesis
    by (auto simp: sliceLatestRounds_def Let_def count_users)
next
  case False
  let ?j = "length (user_indices ms) - roundCount"
  from False assms have j: "?j < length (user_indices ms)" by linarith
  then have k: "user_indices ms ! ?j < length ms" "is_user (ms ! (user_indices ms ! ?j))"
    using user_indices_props(3) nth_mem by blast+
  have "ms \<noteq> []" "user_indices ms \<noteq> []" using False k by auto
  with False assms k users_from [OF j] show ?thesis
    by (auto simp: sliceLatestRounds_def Let_def count_users suffix_drop hd_drop_conv_nth)
qed

theorem page_is_latest_rounds_witness:
  "let ms = [plain_message RoleUser ''a'', plain_message RoleAssistant ''b'', plain_message RoleUser ''c'']
   in rp_sliced (sliceLatestRounds ms 1) = [plain_message RoleUser ''c''] \<and>
      length (filter is_user (rp_sliced (sliceLatestRounds ms 1))) = 1"
  using page_is_latest_rounds [of 1 "[plain_message RoleUser ''a'', plain_message RoleAssistant ''b'',
      plain_message RoleUser ''c'']"]
  by (simp add: sliceLatestRounds_def user_indices_def is_user_def Let_def)

text \<open>
  Paging up reaches the beginning: after enough requests for more, the whole history is shown.
\<close>

theorem paging_reaches_start:
  "\<exists>n. rp_sliced (visiblePage ((loadMoreHistory ^^ n) s)) = as_messages s \<and>
     \<not> rp_hasMore (visiblePage ((loadMoreHistory ^^ n) s))"
proof -
  have state: "as_visibleRounds ((loadMoreHistory ^^ n) s) = as_visibleRounds s + n * DEFAULT_PAGE_ROUNDS \<and>
      as_messages ((loadMoreHistory ^^ n) s) = as_messages s" for n
    by (induction n) (simp_all add: loadMoreHistory_def)
  let ?n = "length (user_indices (as_messages s))"
  have "length (user_indices (as_messages s)) \<le> as_visibleRounds s + ?n * DEFAULT_PAGE_ROUNDS"
    by (simp add: DEFAULT_PAGE_ROUNDS_def)
  then show ?thesis
    using state [of ?n]
    by (intro exI [of _ ?n]) (simp add: visiblePage_def sliceLatestRounds_def Let_def)
qed

subsection \<open>Lemmas on plans\<close>

definition live :: "ai_message \<Rightarrow> bool" where
  \<comment> \<open>the message has a plan that can still be approved\<close>
  "live m \<longleftrightarrow> unapproved m \<and> \<not> (case am_plan m of None \<Rightarrow> False | Some p \<Rightarrow> pl_status p = Some ''expired'')"

lemma length_foldl_update [simp]: "length (foldl (\<lambda>ms i. ms[i := f (ms ! i)]) ms us) = length ms"
  by (induction us arbitrary: ms) auto

lemma nth_foldl_update:
  "distinct us \<Longrightarrow> k < length ms \<Longrightarrow>
     foldl (\<lambda>ms i. ms[i := f (ms ! i)]) ms us ! k = (if k \<in> set us then f (ms ! k) else ms ! k)"
proof (induction us arbitrary: ms)
  case (Cons u us)
  then show ?case by (cases "k = u") auto
qed simp

lemma in_butlast_sorted:
  assumes "sorted us" and "distinct us"
  shows "i \<in> set (butlast us) \<longleftrightarrow> i \<in> set us \<and> (\<exists>j\<in>set us. i < (j :: nat))"
proof (cases us rule: rev_cases)
  case (snoc vs v)
  with assms show ?thesis by (auto simp: sorted_append less_le)
qed simp

lemma nth_normalizePlans:
  assumes "k < length ms"
  shows "normalizePlans ms ! k =
    (if unapproved (ms ! k) \<and> (\<exists>j<length ms. k < j \<and> unapproved (ms ! j)) then expire (ms ! k) else ms ! k)"
proof -
  define us where "us = filter (\<lambda>i. unapproved (ms ! i)) [0..<length ms]"
  have us: "sorted us" "distinct us" "\<And>i. i \<in> set us \<longleftrightarrow> i < length ms \<and> unapproved (ms ! i)"
    by (auto simp: us_def sorted_wrt_filter)
  have cond: "k \<in> set (butlast us) \<longleftrightarrow> unapproved (ms ! k) \<and> (\<exists>j<length ms. k < j \<and> unapproved (ms ! j))"
    using in_butlast_sorted [OF us(1,2)] us(3) assms by auto
  have dist: "distinct (butlast us)" using us(2) by (rule distinct_butlast)
  show ?thesis
  proof (cases "length us > 1")
    case True
    then have "normalizePlans ms = foldl (\<lambda>ms i. ms[i := expire (ms ! i)]) ms (butlast us)"
      by (simp add: normalizePlans_def us_def Let_def)
    with nth_foldl_update [OF dist assms, of expire] cond show ?thesis by simp
  next
    case False
    then have "butlast us = []" by (cases us) auto
    with cond have "\<not> (unapproved (ms ! k) \<and> (\<exists>j<length ms. k < j \<and> unapproved (ms ! j)))" by simp
    moreover have "normalizePlans ms = ms" using False by (simp add: normalizePlans_def us_def Let_def)
    ultimately show ?thesis by auto
  qed
qed

lemma length_normalizePlans [simp]: "length (normalizePlans ms) = length ms"
  by (simp add: normalizePlans_def Let_def)

lemma unapproved_expire: "unapproved m \<Longrightarrow> unapproved (expire m) \<and> \<not> live (expire m) \<and> expire (expire m) = expire m"
  by (auto simp: unapproved_def live_def expire_def option.map_comp comp_def split: option.splits)

lemma unapproved_normalize:
  "k < length ms \<Longrightarrow> unapproved (normalizePlans ms ! k) = unapproved (ms ! k)"
  using unapproved_expire by (auto simp: nth_normalizePlans)

lemma at_most_one:
  assumes "\<And>i j. i < length xs \<Longrightarrow> j < length xs \<Longrightarrow> P (xs ! i) \<Longrightarrow> P (xs ! j) \<Longrightarrow> i = j"
  shows "length (filter P xs) \<le> 1"
proof -
  have "length (filter P xs) = card {i. i < length xs \<and> P (xs ! i)}"
    by (rule length_filter_conv_card)
  moreover have "card {i. i < length xs \<and> P (xs ! i)} \<le> Suc 0"
    using assms by (subst card_le_Suc0_iff_eq) auto
  ultimately show ?thesis by simp
qed

lemma approved_filter_eq:
  assumes "length xs = length ys"
    and "\<And>k. k < length ys \<Longrightarrow> unapproved (xs ! k) = unapproved (ys ! k) \<and> (unapproved (ys ! k) \<or> xs ! k = ys ! k)"
  shows "filter (\<lambda>m. \<not> unapproved m) xs = filter (\<lambda>m. \<not> unapproved m) ys"
  using assms
proof (induction xs ys rule: list_induct2)
  case (Cons x xs y ys)
  have "unapproved x = unapproved y \<and> (unapproved y \<or> x = y)" using Cons.prems [of 0] by simp
  moreover have "filter (\<lambda>m. \<not> unapproved m) xs = filter (\<lambda>m. \<not> unapproved m) ys"
    using Cons.prems by (intro Cons.IH) fastforce
  ultimately show ?case by auto
qed simp

text \<open>
  A loaded history offers at most one plan for approval, the last unapproved one; approved plans
  and every message without a plan stay as they were, and loading twice changes nothing more.
\<close>

theorem one_live_plan:
  "length (filter live (normalizePlans ms)) \<le> 1 \<and>
   filter (\<lambda>m. \<not> unapproved m) (normalizePlans ms) = filter (\<lambda>m. \<not> unapproved m) ms \<and>
   map am_content (normalizePlans ms) = map am_content ms \<and>
   normalizePlans (normalizePlans ms) = normalizePlans ms"
proof (intro conjI)
  show "length (filter live (normalizePlans ms)) \<le> 1"
  proof (rule at_most_one)
    fix i j
    assume ij: "i < length (normalizePlans ms)" "j < length (normalizePlans ms)"
      and lv: "live (normalizePlans ms ! i)" "live (normalizePlans ms ! j)"
    have "\<not> (\<exists>l<length ms. k < l \<and> unapproved (ms ! l))" if "k < length ms" "live (normalizePlans ms ! k)" for k
    proof
      assume later: "\<exists>l<length ms. k < l \<and> unapproved (ms ! l)"
      have "unapproved (ms ! k)" using that unapproved_normalize by (simp add: live_def)
      with later that unapproved_expire [OF this] show False by (simp add: nth_normalizePlans)
    qed
    moreover have "unapproved (ms ! i)" "unapproved (ms ! j)"
      using ij lv unapproved_normalize by (auto simp: live_def)
    ultimately show "i = j" using ij lv by (metis length_normalizePlans linorder_neqE_nat)
  qed
  show "normalizePlans (normalizePlans ms) = normalizePlans ms"
  proof (rule nth_equalityI)
    fix k assume "k < length (normalizePlans (normalizePlans ms))"
    then have k: "k < length ms" by simp
    have "(\<exists>j<length ms. k < j \<and> unapproved (normalizePlans ms ! j)) \<longleftrightarrow> (\<exists>j<length ms. k < j \<and> unapproved (ms ! j))"
      using unapproved_normalize by auto
    then have "normalizePlans (normalizePlans ms) ! k =
        (if unapproved (ms ! k) \<and> (\<exists>j<length ms. k < j \<and> unapproved (ms ! j))
         then expire (normalizePlans ms ! k) else normalizePlans ms ! k)"
      using k nth_normalizePlans [of k "normalizePlans ms"] unapproved_normalize [OF k] by simp
    moreover have "expire (normalizePlans ms ! k) = normalizePlans ms ! k"
      if "unapproved (ms ! k) \<and> (\<exists>j<length ms. k < j \<and> unapproved (ms ! j))"
      using that nth_normalizePlans [OF k] unapproved_expire [of "ms ! k"] by simp
    ultimately show "normalizePlans (normalizePlans ms) ! k = normalizePlans ms ! k" by simp
  qed simp
  show "map am_content (normalizePlans ms) = map am_content ms"
    by (rule nth_equalityI) (auto simp: nth_normalizePlans expire_def)
  show "filter (\<lambda>m. \<not> unapproved m) (normalizePlans ms) = filter (\<lambda>m. \<not> unapproved m) ms"
    using unapproved_expire by (intro approved_filter_eq) (auto simp: unapproved_normalize nth_normalizePlans)
qed

subsection \<open>The list and the active session\<close>

datatype agent_session_event =
    SListed "agent_session list option" "agent_session option"
  | SCreate "agent_session option"
  | SSwitch string
  | SLoaded "ai_message list option"
  | SRename int bool string string
  | SDelete "agent_session list" bool "agent_session option" string
  | SLoading "string option" | SListing | SListingDone
  | SClear | SMore
  | SUpdated int "string option" "string option"

fun agent_session_step :: "agent_sessions \<Rightarrow> agent_session_event \<Rightarrow> agent_sessions" where
  "agent_session_step s (SListed l c) = fst (loadSessions_listed l c s)"
| "agent_session_step s (SCreate c) = createSession c s"
| "agent_session_step s (SSwitch i) = fst (switchSession i s)"
| "agent_session_step s (SLoaded m) = loadMessages_done m s"
| "agent_session_step s (SRename now ok i n) = renameSession now ok i n s"
| "agent_session_step s (SDelete l ok c i) = fst (deleteSession l ok c i s)"
| "agent_session_step s (SLoading i) = fst (loadMessages_begin i s)"
| "agent_session_step s SListing = loadSessions_begin s"
| "agent_session_step s SListingDone = loadSessions_finish s"
| "agent_session_step s SClear = fst (clearMessages s)"
| "agent_session_step s SMore = loadMoreHistory s"
| "agent_session_step s (SUpdated now i t) = session_updated now i t s"

fun agent_session_enabled :: "agent_sessions \<Rightarrow> agent_session_event \<Rightarrow> bool" where
  \<comment> \<open>the backend lists distinct ids; the list of the page offers only its own sessions; a deletion
      finds the list as it was when it was asked for\<close>
  "agent_session_enabled s (SListed l c) \<longleftrightarrow> (case l of None \<Rightarrow> True | Some xs \<Rightarrow> distinct (map ag_id xs))"
| "agent_session_enabled s (SSwitch i) \<longleftrightarrow> i \<in> ag_id ` set (as_sessions s)"
| "agent_session_enabled s (SDelete l ok c i) \<longleftrightarrow> l = as_sessions s"
| "agent_session_enabled s _ \<longleftrightarrow> True"

definition agent_sessions_inv :: "agent_sessions \<Rightarrow> bool" where
  \<comment> \<open>ids are distinct, and unless the list is empty the active session is in it and is the
      stored one\<close>
  "agent_sessions_inv s \<longleftrightarrow>
     distinct (map ag_id (as_sessions s)) \<and>
     (as_sessions s = [] \<or> as_active s \<in> ag_id ` set (as_sessions s) \<and> as_stored s = Some (as_active s))"

lemma ids_touch [simp]: "ag_id (touch_title now i t x) = ag_id x"
  by (simp add: touch_title_def)

lemma ids_map_touch [simp]:
  "ag_id \<circ> touch_title now i t = ag_id" "(\<lambda>x. ag_id (touch_title now i (f x) x)) = ag_id"
  "ag_id ` touch_title now i t ` A = ag_id ` A"
  by (auto simp: fun_eq_iff image_iff)

lemma agent_sessions_step_inv:
  assumes "agent_sessions_inv s" and "agent_session_enabled s e"
  shows "agent_sessions_inv (agent_session_step s e)"
proof (cases e)
  case (SListed l c)
  with assms show ?thesis
    by (auto simp: loadSessions_listed_def agent_sessions_inv_def set_active_def Let_def
        split: option.splits list.splits simp: find_Some_iff)
next
  case (SCreate c)
  with assms show ?thesis
    by (auto simp: createSession_def agent_sessions_inv_def set_active_def split: option.splits)
next
  case (SDelete l ok c i)
  define r where "r = filter (\<lambda>x. ag_id x \<noteq> i) (as_sessions s)"
  have r: "distinct (map ag_id r)" "as_sessions s = [] \<or> as_active s = i \<or> as_active s \<in> ag_id ` set r"
    "as_sessions s = [] \<Longrightarrow> r = []"
    using assms(1) by (auto simp: r_def agent_sessions_inv_def)
  have stored: "as_sessions s = [] \<or> as_stored s = Some (as_active s)"
    using assms(1) by (auto simp: agent_sessions_inv_def)
  show ?thesis
    using assms r stored
    by (cases r; cases c) (auto simp: SDelete deleteSession_def agent_sessions_inv_def set_active_def Let_def
        simp flip: r_def)
next
  case (SUpdated now i t)
  with assms show ?thesis
    by (auto simp: session_updated_def agent_sessions_inv_def comp_def image_image split: option.splits)
qed (use assms in \<open>auto simp: switchSession_def set_active_def loadMessages_done_def renameSession_def
      clearMessages_def loadMoreHistory_def loadMessages_begin_def loadSessions_begin_def
      loadSessions_finish_def agent_sessions_inv_def Let_def split: option.splits\<close>)

interpretation agent_sessions: transition_system agent_session_enabled agent_session_step agent_sessions_inv
  by unfold_locales (rule agent_sessions_step_inv)

text \<open>
  In every run of the session operations the listed ids stay distinct, and while there is a
  session the active one is among them and is the one stored for the next start: no deletion,
  creation or reload leaves the page on a session that does not exist.
\<close>

theorem active_agent_session_exists:
  assumes "run_steps agent_session_enabled agent_session_step (initialAgentSessions stored) es = Some s"
  shows "agent_sessions_inv s"
  by (rule agent_sessions.run_inv [OF _ assms]) (simp add: agent_sessions_inv_def initialAgentSessions_def)

definition demo_session :: "string \<Rightarrow> agent_session" where
  "demo_session i = \<lparr>ag_id = i, ag_title = i, ag_workspace = None, ag_createdAt = None,
     ag_created_at = None, ag_updatedAt = None, ag_updated_at = None\<rparr>"

theorem active_agent_session_exists_witness:
  "\<exists>s. run_steps agent_session_enabled agent_session_step (initialAgentSessions None)
     [SListed (Some [demo_session ''a'', demo_session ''b'']) None, SSwitch ''b'',
      SDelete [demo_session ''a'', demo_session ''b''] True None ''b''] = Some s \<and>
   as_active s = ''a'' \<and> agent_sessions_inv s"
proof -
  let ?es = "[SListed (Some [demo_session ''a'', demo_session ''b'']) None, SSwitch ''b'',
    SDelete [demo_session ''a'', demo_session ''b''] True None ''b'']"
  obtain s where s: "run_steps agent_session_enabled agent_session_step (initialAgentSessions None) ?es = Some s"
    and "as_active s = ''a''"
    by (simp add: demo_session_def initialAgentSessions_def loadSessions_listed_def set_active_def
        switchSession_def deleteSession_def Let_def)
  with active_agent_session_exists [OF s] show ?thesis by blast
qed

text \<open>
  The answer to a history request is not tied to its session. When the user switches to \<open>a\<close> and
  then to \<open>b\<close> and the history of \<open>a\<close> arrives last, the page of \<open>b\<close> shows it, and the next save
  writes the messages of \<open>a\<close> to the session \<open>b\<close>.
\<close>

theorem late_history_wrong_session:
  assumes "b \<noteq> []" and "a \<noteq> b"
    and "a \<noteq> []" and "a \<noteq> as_active s"
  shows "let s2 = fst (switchSession b (fst (switchSession a s)));
      s4 = loadMessages_done (Some hist_a) (loadMessages_done (Some hist_b) s2)
    in snd (switchSession a s) = Some a \<and> as_active s4 = b \<and>
       saveMessages (as_messages s4) s4 = (b, normalizePlans hist_a)"
  using assms by (auto simp: switchSession_def set_active_def loadMessages_done_def saveMessages_def Let_def)

theorem late_history_wrong_session_witness:
  "let s2 = fst (switchSession ''b'' (fst (switchSession ''a'' (initialAgentSessions None))));
      s4 = loadMessages_done (Some [plain_message RoleUser ''of a'']) (loadMessages_done (Some []) s2)
    in saveMessages (as_messages s4) s4 = (''b'', [plain_message RoleUser ''of a''])"
proof -
  have n: "normalizePlans [plain_message RoleUser ''of a''] = [plain_message RoleUser ''of a'']"
    by (simp add: normalizePlans_def unapproved_def)
  show ?thesis
    using late_history_wrong_session [of "''b''" "''a''" "initialAgentSessions None" "[plain_message RoleUser ''of a'']" "[]"]
    by (simp add: initialAgentSessions_def DEFAULT_SESSION_ID_def nullish_def Let_def n)
qed

text \<open>
  A deletion keeps the list it started from. A session that is created while the deletion of
  another one is under way is taken out of the list when the deletion is answered, although it is
  the active one: the page stays on a session that the list does not offer.
\<close>

theorem delete_forgets_created:
  assumes "c \<notin> set (as_sessions s)" and "ag_id c \<noteq> i"
  shows "let s1 = createSession (Some c) s; s2 = fst (deleteSession (as_sessions s) True None i s1)
    in c \<in> set (as_sessions s1) \<and> as_active s2 = ag_id c \<and> c \<notin> set (as_sessions s2)"
  using assms by (simp add: createSession_def deleteSession_def set_active_def Let_def)

theorem delete_forgets_created_witness:
  "let s = (initialAgentSessions None)\<lparr>as_sessions := [demo_session ''a'', demo_session ''b'']\<rparr>;
       s2 = fst (deleteSession (as_sessions s) True None ''a'' (createSession (Some (demo_session ''c'')) s))
    in as_active s2 = ''c'' \<and> demo_session ''c'' \<notin> set (as_sessions s2) \<and> \<not> agent_sessions_inv s2"
  using delete_forgets_created [of "demo_session ''c''"
      "(initialAgentSessions None)\<lparr>as_sessions := [demo_session ''a'', demo_session ''b'']\<rparr>" "''a''"]
  by (auto simp: demo_session_def agent_sessions_inv_def createSession_def deleteSession_def set_active_def)

end
