(* ===== verification/AgentEvents.thy ===== *)
theory AgentEvents
  imports AgentSessions
begin

section \<open>The events of the agent\<close>

text \<open>
  \<open>pages/agent/hooks/useAgentEvents.ts\<close>: what the panel makes of the events the backend sends while
  it works. Chunks of text collect in two buffers that the next animation frame, or the next event
  of another kind, writes into the last message. The other events change the steps, the plan and the
  content of messages.

  The state is that of the whole panel (\<open>AiAgentPanel.tsx\<close>), because the hooks share it. React runs
  an updater passed to \<open>setMessages\<close> at once or during the next rendering, which the code cannot
  see; where it reads a variable that the updater sets, the argument \<open>eager\<close> says whether it ran.
  Calls of the backend are recorded in the order they are made; times are arguments.
\<close>

subsection \<open>State\<close>

datatype agent_call =
    CallSave string "ai_message list"
  | CallSend string "ai_message list"
  | CallPropose string string
  | CallApprove string
  | CallCancel string
  | CallRetry string string
  | CallStop string
  | CallDecide string bool string
  | CallAnswer string string
  | CallSetWorkspace string

datatype agent_command = CmdPlan | CmdGrillMe

record agent_panel =
  ap_session :: string
  ap_messages :: "ai_message list"
  ap_generating :: bool
  ap_reasoning :: string
  ap_notice :: string
  ap_ask :: "agent_ask_request option"
  ap_hitl :: "agent_hitl_request option"
  ap_pendingChat :: string
  ap_pendingReasoning :: string
  ap_raf :: bool
  ap_input :: string
  ap_images :: "string list"
  ap_command :: "agent_command option"
  ap_workspace :: string
  ap_calls :: "agent_call list"

definition call :: "agent_call \<Rightarrow> agent_panel \<Rightarrow> agent_panel" where
  "call c s = s\<lparr>ap_calls := ap_calls s @ [c]\<rparr>"

definition initialPanel :: "string \<Rightarrow> string option \<Rightarrow> agent_panel" where
  \<comment> \<open>the active session, and the question that another page left for the composer\<close>
  "initialPanel i ask =
     \<lparr>ap_session = i, ap_messages = [], ap_generating = False, ap_reasoning = [], ap_notice = [],
      ap_ask = None, ap_hitl = None, ap_pendingChat = [], ap_pendingReasoning = [], ap_raf = False,
      ap_input = opt_or ask [], ap_images = [], ap_command = None, ap_workspace = [], ap_calls = []\<rparr>"

subsection \<open>Events\<close>

text \<open>
  The payload is of type \<open>any\<close>; it holds what the backend sends (\<open>agent/events/events.go\<close>): nothing,
  a text, the request of the user's answer or approval, or an object of which the code reads the
  fields below. The output of a step is any value.
\<close>

record event_data =
  ev_chunk :: "string option"
  ev_call_id :: "string option"
  ev_id :: "string option"
  ev_tool_name :: "string option"
  ev_toolName :: "string option"
  ev_name :: "string option"
  ev_detail :: "string option"
  ev_input :: "string option"
  ev_args :: "string option"
  ev_arguments :: "string option"
  ev_output :: "string option"
  ev_result :: "string option"
  ev_data :: "string option"
  ev_duration_ms :: "int option"
  ev_duration :: "int option"
  ev_step_id :: "string option"
  ev_plan_id :: "string option"
  ev_status :: "string option"
  ev_error :: "string option"
  ev_step_output :: js_value
  ev_verdict :: "string option"
  ev_content :: "string option"
  ev_reasoning_content :: "string option"

datatype event_payload =
    PNone
  | PText string
  | PAsk agent_ask_request
  | PHitl agent_hitl_request
  | PData event_data

record agent_event =
  ae_type :: string
  ae_session_id :: "string option"
  ae_payload :: event_payload

definition no_data :: event_data where
  "no_data =
     \<lparr>ev_chunk = None, ev_call_id = None, ev_id = None, ev_tool_name = None, ev_toolName = None,
      ev_name = None, ev_detail = None, ev_input = None, ev_args = None, ev_arguments = None,
      ev_output = None, ev_result = None, ev_data = None, ev_duration_ms = None, ev_duration = None,
      ev_step_id = None, ev_plan_id = None, ev_status = None, ev_error = None,
      ev_step_output = JUndef, ev_verdict = None, ev_content = None, ev_reasoning_content = None\<rparr>"

definition field :: "(event_data \<Rightarrow> string option) \<Rightarrow> event_payload \<Rightarrow> string option" where
  \<comment> \<open>\<open>payload?.f\<close>\<close>
  "field f p = (case p of PData d \<Rightarrow> f d | _ \<Rightarrow> None)"

definition chunk_of :: "event_payload \<Rightarrow> string" where
  "chunk_of p = (case p of PText c \<Rightarrow> c | _ \<Rightarrow> opt_or (field ev_chunk p) [])"

definition text_of :: "event_payload \<Rightarrow> string" where
  \<comment> \<open>\<open>String(payload || '')\<close>\<close>
  "text_of p = (case p of PNone \<Rightarrow> [] | PText c \<Rightarrow> c | _ \<Rightarrow> ''[object Object]'')"

definition num_or_opt :: "int option \<Rightarrow> int option \<Rightarrow> int option" where
  \<comment> \<open>\<open>a || b\<close> where both may be absent: zero is falsy\<close>
  "num_or_opt a b = (case a of None \<Rightarrow> b | Some n \<Rightarrow> if n = 0 then b else a)"

definition nullish_opt :: "'a option \<Rightarrow> 'a option \<Rightarrow> 'a option" where
  \<comment> \<open>\<open>a ?? b\<close> where both may be absent\<close>
  "nullish_opt a b = (case a of None \<Rightarrow> b | Some _ \<Rightarrow> a)"

subsection \<open>The last message\<close>

definition new_assistant :: "int \<Rightarrow> ai_message" where
  "new_assistant now = (plain_message RoleAssistant [])
     \<lparr>am_reasoning := Some [], am_steps := Some [], am_timestamp := Some now\<rparr>"

definition assistant_last :: "ai_message list \<Rightarrow> bool" where
  "assistant_last ms \<longleftrightarrow> (case last_opt ms of None \<Rightarrow> False | Some l \<Rightarrow> am_role l = RoleAssistant)"

definition appendOrUpdateAssistant ::
  "int \<Rightarrow> (ai_message \<Rightarrow> ai_message) \<Rightarrow> ai_message list \<Rightarrow> ai_message list" where
  "appendOrUpdateAssistant now updater prev =
     (if assistant_last prev then prev[length prev - 1 := updater (last prev)]
      else prev @ [updater (new_assistant now)])"

definition update_assistant :: "int \<Rightarrow> (ai_message \<Rightarrow> ai_message) \<Rightarrow> agent_panel \<Rightarrow> agent_panel" where
  "update_assistant now f s = s\<lparr>ap_messages := appendOrUpdateAssistant now f (ap_messages s)\<rparr>"

definition steps_of :: "ai_message \<Rightarrow> process_step list" where
  \<comment> \<open>\<open>msg.process_steps || []\<close>\<close>
  "steps_of m = nullish (am_steps m) []"

definition with_steps :: "(process_step list \<Rightarrow> process_step list) \<Rightarrow> ai_message \<Rightarrow> ai_message" where
  "with_steps f m = m\<lparr>am_steps := Some (f (steps_of m))\<rparr>"

subsection \<open>Chunks\<close>

definition think_step :: "translator \<Rightarrow> int \<Rightarrow> string \<Rightarrow> process_step list \<Rightarrow> process_step" where
  "think_step t now r steps =
     \<lparr>ps_id = ''think_'' @ show_int now @ ''_'' @ show_nat (length steps), ps_type = Think,
      ps_title = (if list_ex (\<lambda>s. ps_type s = ToolStep) steps
                  then t ''agent:events.continueThinking'' [] else t ''agent:events.deepThinking'' []),
      ps_summary = None, ps_content = r, ps_timestamp = now, ps_duration_ms = None,
      ps_status = Some Running\<rparr>"

definition thinking :: "process_step list \<Rightarrow> bool" where
  \<comment> \<open>the last step is a thought under way\<close>
  "thinking steps \<longleftrightarrow>
     (case last_opt steps of None \<Rightarrow> False | Some l \<Rightarrow> ps_type l = Think \<and> ps_status l = Some Running)"

definition reasoning_steps :: "translator \<Rightarrow> int \<Rightarrow> string \<Rightarrow> process_step list \<Rightarrow> process_step list" where
  "reasoning_steps t now r steps =
     (if thinking steps
      then steps[length steps - 1 := (last steps)\<lparr>ps_content := ps_content (last steps) @ r\<rparr>]
      else steps @ [think_step t now r steps])"

definition add_reasoning :: "translator \<Rightarrow> int \<Rightarrow> string \<Rightarrow> ai_message \<Rightarrow> ai_message" where
  "add_reasoning t now r m =
     (if r = [] then m
      else (with_steps (reasoning_steps t now r) m)\<lparr>am_reasoning := Some (opt_or (am_reasoning m) [] @ r)\<rparr>)"

definition end_thoughts :: "process_step \<Rightarrow> process_step" where
  "end_thoughts st = (if ps_type st = Think then st\<lparr>ps_status := Some Completed\<rparr> else st)"

definition add_chat :: "string \<Rightarrow> ai_message \<Rightarrow> ai_message" where
  "add_chat c m =
     (if c = [] then m else (with_steps (map end_thoughts) m)\<lparr>am_content := am_content m @ c\<rparr>)"

definition flushChunks :: "translator \<Rightarrow> int \<Rightarrow> agent_panel \<Rightarrow> agent_panel" where
  "flushChunks t now s =
     (let s1 = s\<lparr>ap_raf := False\<rparr> in
      if ap_pendingChat s = [] \<and> ap_pendingReasoning s = [] then s1
      else
        let c = ap_pendingChat s; r = ap_pendingReasoning s in
        update_assistant now (\<lambda>m. add_chat c (add_reasoning t now r m))
          (s1\<lparr>ap_pendingChat := [], ap_pendingReasoning := [],
              ap_reasoning := ap_reasoning s @ r\<rparr>))"

definition animationFrame :: "translator \<Rightarrow> int \<Rightarrow> agent_panel \<Rightarrow> agent_panel" where
  \<comment> \<open>the callback runs only if it was requested\<close>
  "animationFrame t now s = (if ap_raf s then flushChunks t now s else s)"

definition chatChunk :: "string \<Rightarrow> agent_panel \<Rightarrow> agent_panel" where
  "chatChunk c s = (if c = [] then s else s\<lparr>ap_pendingChat := ap_pendingChat s @ c, ap_raf := True\<rparr>)"

definition reasoningChunk :: "string \<Rightarrow> agent_panel \<Rightarrow> agent_panel" where
  "reasoningChunk c s =
     (if c = [] then s else s\<lparr>ap_pendingReasoning := ap_pendingReasoning s @ c, ap_raf := True\<rparr>)"

subsection \<open>Tools\<close>

definition genericTool :: string where
  \<comment> \<open>in UTF-8\<close>
  "genericTool =
    [CHR 0xE5, CHR 0xB7, CHR 0xA5, CHR 0xE5, CHR 0x85, CHR 0xB7, CHR 0xE6, CHR 0x89, CHR 0xA7,
    CHR 0xE8, CHR 0xA1, CHR 0x8C]"

definition calling_zh :: string where
  \<comment> \<open>in UTF-8\<close>
  "calling_zh =
    [CHR 0xE6, CHR 0xAD, CHR 0xA3, CHR 0xE5, CHR 0x9C, CHR 0xA8, CHR 0xE8, CHR 0xB0, CHR 0x83,
    CHR 0xE7, CHR 0x94, CHR 0xA8]"

definition authorized_zh :: string where
  \<comment> \<open>in UTF-8\<close>
  "authorized_zh =
    [CHR 0xE5, CHR 0xB7, CHR 0xB2, CHR 0xE6, CHR 0x8E, CHR 0x88, CHR 0xE6, CHR 0x9D, CHR 0x83]"

definition call_id :: "event_payload \<Rightarrow> string option" where
  \<comment> \<open>\<open>payload?.call_id || payload?.id\<close>, absent when falsy\<close>
  "call_id p = (let i = opt_or_opt (field ev_call_id p) (field ev_id p) in if truthy i then i else None)"

definition start_tool_name :: "translator \<Rightarrow> event_payload \<Rightarrow> string" where
  "start_tool_name t p =
     opt_or (field ev_tool_name p) (opt_or (field ev_toolName p) (opt_or (field ev_name p)
       (t ''agent:events.toolExec'' [])))"

definition toolStart :: "translator \<Rightarrow> int \<Rightarrow> event_payload \<Rightarrow> process_step list \<Rightarrow> process_step list" where
  "toolStart t now p steps =
     (let i = call_id p; name = start_tool_name t p; detail = opt_or (field ev_detail p) [] in
      case find_index (\<lambda>s. (i \<noteq> None \<and> Some (ps_id s) = i) \<or>
             (ps_type s = ToolStep \<and> ps_title s = name \<and> ps_status s = Some Running)) steps of
        Some k \<Rightarrow>
          steps[k := (steps ! k)
            \<lparr>ps_id := nullish i (ps_id (steps ! k)), ps_title := name,
             ps_summary := (if detail \<noteq> [] then Some detail else ps_summary (steps ! k)),
             ps_status := Some Running\<rparr>]
      | None \<Rightarrow>
          steps @ [\<lparr>ps_id = nullish i (''tool_'' @ show_int now @ ''_'' @ show_nat (length steps)),
            ps_type = ToolStep, ps_title = name,
            ps_summary = Some (str_or detail (t ''agent:events.callingTool'' [(''name'', name)])),
            ps_content = [], ps_timestamp = now, ps_duration_ms = None, ps_status = Some Running\<rparr>])"

definition event_tool_name :: "translator \<Rightarrow> event_payload \<Rightarrow> string" where
  "event_tool_name t p =
     opt_or (field ev_tool_name p) (opt_or (field ev_name p) (opt_or (field ev_toolName p)
       (t ''agent:events.toolExec'' [])))"

definition named_tool :: "translator \<Rightarrow> string \<Rightarrow> bool" where
  \<comment> \<open>the name is one of a tool, not the general text\<close>
  "named_tool t name \<longleftrightarrow> name \<noteq> [] \<and> name \<noteq> genericTool \<and> name \<noteq> t ''agent:events.toolExec'' []"

definition title_matches :: "string \<Rightarrow> process_step \<Rightarrow> bool" where
  "title_matches name s \<longleftrightarrow> ps_title s = name \<or> includes_str (ps_title s) name"

definition first_some :: "'a option \<Rightarrow> 'a option \<Rightarrow> 'a option" where
  \<comment> \<open>a search that goes on only while the index is negative\<close>
  "first_some a b = (case a of None \<Rightarrow> b | Some _ \<Rightarrow> a)"

definition tool_target :: "translator \<Rightarrow> string option \<Rightarrow> string \<Rightarrow> process_step list \<Rightarrow> nat option" where
  "tool_target t i name steps =
     first_some (if i \<noteq> None then find_index (\<lambda>s. Some (ps_id s) = i) steps else None)
     (first_some (if named_tool t name
                  then find_index (\<lambda>s. ps_type s = ToolStep \<and> title_matches name s \<and> ps_status s = Some Running) steps
                  else None)
     (first_some (find_index (\<lambda>s. ps_type s = ToolStep \<and> ps_status s = Some Running) steps)
       (if named_tool t name
        then find_last_index (\<lambda>s. ps_type s = ToolStep \<and> title_matches name s) steps else None)))"

definition completed_summary :: "translator \<Rightarrow> string option \<Rightarrow> string option" where
  \<comment> \<open>a summary that says the tool is being called gives way\<close>
  "completed_summary t old =
     (case old of
        Some x \<Rightarrow>
          if starts_with x calling_zh \<or> starts_with x ''Calling'' \<or> starts_with x authorized_zh
          then Some (t ''agent:events.commandCompleted'' []) else old
      | None \<Rightarrow> None)"

definition toolEvent :: "translator \<Rightarrow> int \<Rightarrow> event_payload \<Rightarrow> process_step list \<Rightarrow> process_step list" where
  "toolEvent t now p steps =
     (let i = call_id p; name = event_tool_name t p;
          input = opt_or (field ev_input p) (opt_or (field ev_args p) (opt_or (field ev_arguments p) []));
          out = opt_or (field ev_output p) (opt_or (field ev_result p) (opt_or (field ev_data p) []));
          dur = (case p of PData d \<Rightarrow> num_or_opt (ev_duration_ms d) (ev_duration d) | _ \<Rightarrow> None)
      in case tool_target t i name steps of
        Some k \<Rightarrow>
          (let old = steps ! k;
               computed = num_or_opt dur
                 (if ps_timestamp old \<noteq> 0 then Some (now - ps_timestamp old) else None)
           in steps[k := old
            \<lparr>ps_id := nullish i (ps_id old), ps_title := (if named_tool t name then name else ps_title old),
             ps_summary := (if input \<noteq> [] then Some input else completed_summary t (ps_summary old)),
             ps_content := out, ps_duration_ms := num_or_opt computed (ps_duration_ms old),
             ps_status := Some Completed\<rparr>])
      | None \<Rightarrow>
          steps @ [\<lparr>ps_id = nullish i (''tool_'' @ show_int now @ ''_'' @ show_nat (length steps)),
            ps_type = ToolStep, ps_title = name,
            ps_summary = Some (str_or input (t ''agent:events.commandCompleted'' [])),
            ps_content = out, ps_timestamp = now, ps_duration_ms = dur, ps_status = Some Completed\<rparr>])"

subsection \<open>Questions to the user\<close>

definition ask_of :: "event_payload \<Rightarrow> agent_ask_request option" where
  "ask_of p = (case p of PAsk q \<Rightarrow> Some q | _ \<Rightarrow> None)"

definition preset_text :: "translator \<Rightarrow> agent_ask_request option \<Rightarrow> string" where
  "preset_text t q =
     (case Option.bind q aq_options of
        None \<Rightarrow> []
      | Some os \<Rightarrow> t ''agent:askUser.presetOptions'' [(''options'', join '', '' os)])"

definition askStep :: "translator \<Rightarrow> int \<Rightarrow> agent_ask_request option \<Rightarrow> process_step list \<Rightarrow> process_step list" where
  "askStep t now q steps =
     (let askId = opt_or (map_option aq_ask_id q) (''ask_'' @ show_int now);
          question = opt_or (map_option aq_question q) [];
          title = t ''agent:events.interactiveAsk'' [] in
      case find_index (\<lambda>s. ps_id s = askId \<or>
             (includes_str (ps_title s) ''ask_user'' \<and> ps_status s = Some Running)) steps of
        Some k \<Rightarrow>
          steps[k := (steps ! k)
            \<lparr>ps_title := title,
             ps_summary := (if question \<noteq> [] then Some question else ps_summary (steps ! k)),
             ps_content := preset_text t q, ps_status := Some Running\<rparr>]
      | None \<Rightarrow>
          steps @ [\<lparr>ps_id = askId, ps_type = ToolStep, ps_title = title,
            ps_summary = Some (str_or question (t ''agent:askUser.waitingReply'' [])),
            ps_content = preset_text t q, ps_timestamp = now, ps_duration_ms = None,
            ps_status = Some Running\<rparr>])"

definition askUser :: "translator \<Rightarrow> int \<Rightarrow> event_payload \<Rightarrow> agent_panel \<Rightarrow> agent_panel" where
  "askUser t now p s =
     update_assistant now (with_steps (askStep t now (ask_of p))) (s\<lparr>ap_ask := ask_of p\<rparr>)"

definition ask_channel :: "event_payload \<Rightarrow> agent_panel \<Rightarrow> agent_panel" where
  \<comment> \<open>the channels \<open>agent:ask_user\<close> and \<open>agent:ask_user:id\<close>\<close>
  "ask_channel p s = (if p = PNone then s else s\<lparr>ap_ask := ask_of p\<rparr>)"

definition hitlConfirm :: "event_payload \<Rightarrow> agent_panel \<Rightarrow> agent_panel" where
  \<comment> \<open>also the channels \<open>agent:hitl_confirm\<close> and \<open>agent:hitl_confirm:id\<close>\<close>
  "hitlConfirm p s =
     (if p = PNone then s
      else s\<lparr>ap_hitl := (case p of PHitl q \<Rightarrow> Some q | _ \<Rightarrow> None)\<rparr>)"

subsection \<open>The steps of a plan\<close>

definition step_key :: "nat \<Rightarrow> string" where
  "step_key idx = ''step_'' @ show_nat (idx + 1)"

definition step_matches :: "string \<Rightarrow> nat \<Rightarrow> plan_step \<Rightarrow> bool" where
  "step_matches pId idx st \<longleftrightarrow>
     st_id st = pId \<or> step_key idx = pId \<or> st_id st = ''step_'' @ pId \<or>
     (idx = 0 \<and> (pId = ''step_1'' \<or> pId = ''1''))"

definition update_step :: "bool \<Rightarrow> event_data \<Rightarrow> plan_step \<Rightarrow> plan_step" where
  "update_step isStarted d st = st
     \<lparr>st_status := opt_or (ev_status d) (if isStarted then ''running'' else str_or (st_status st) ''completed''),
      st_duration_ms := nullish_opt (ev_duration_ms d) (nullish_opt (ev_duration d) (st_duration_ms st)),
      st_error := nullish_opt (ev_error d) (st_error st),
      st_output := (if is_nullish (ev_step_output d) then st_output st else ev_step_output d),
      st_verdict := nullish_opt (ev_verdict d) (st_verdict st)\<rparr>"

definition update_steps :: "bool \<Rightarrow> event_data \<Rightarrow> string \<Rightarrow> plan_step list \<Rightarrow> plan_step list" where
  "update_steps started d pId steps =
     map (\<lambda>(idx, st). if step_matches pId idx st
                      then update_step (started \<or> ev_status d = Some ''running'') d st else st)
       (zip [0..<length steps] steps)"

definition plan_addressed :: "event_data \<Rightarrow> ai_message \<Rightarrow> bool" where
  "plan_addressed d m \<longleftrightarrow>
     (case am_plan m of
        None \<Rightarrow> False
      | Some p \<Rightarrow> pl_steps p \<noteq> None \<and> (\<not> truthy (ev_plan_id d) \<or> Some (pl_id p) = ev_plan_id d))"

definition has_step :: "string \<Rightarrow> ai_message \<Rightarrow> bool" where
  "has_step pId m \<longleftrightarrow>
     (case Option.bind (am_plan m) pl_steps of
        None \<Rightarrow> False
      | Some steps \<Rightarrow> list_ex (\<lambda>(idx, st). step_matches pId idx st) (zip [0..<length steps] steps))"

definition update_plan :: "bool \<Rightarrow> event_data \<Rightarrow> string \<Rightarrow> ai_message \<Rightarrow> ai_message" where
  "update_plan started d pId m =
     (if plan_addressed d m
      then m\<lparr>am_plan := map_option (\<lambda>p. p\<lparr>pl_steps := map_option (update_steps started d pId) (pl_steps p)\<rparr>) (am_plan m)\<rparr>
      else m)"

definition stepEvent :: "bool \<Rightarrow> bool \<Rightarrow> event_payload \<Rightarrow> agent_panel \<Rightarrow> agent_panel" where
  \<comment> \<open>the second flag: the event is \<open>StepStarted\<close>\<close>
  "stepEvent eager started p s =
     (case p of
        PData d \<Rightarrow>
          if \<not> truthy (ev_step_id d) then s
          else
            let pId = opt_or (ev_step_id d) []; copy = map (update_plan started d pId) (ap_messages s);
                updated = list_ex (\<lambda>m. plan_addressed d m \<and> has_step pId m) (ap_messages s);
                s1 = s\<lparr>ap_messages := copy\<rparr>
            in if updated \<and> eager then call (CallSave (ap_session s) copy) s1 else s1
      | _ \<Rightarrow> s)"

subsection \<open>The end of a run\<close>

definition report_marks :: "string list" where
  \<comment> \<open>what marks the report of a plan, in Chinese (UTF-8) and English\<close>
  "report_marks =
    [''### '' @ [CHR 0xF0, CHR 0x9F, CHR 0x8E, CHR 0xAF] @ '' '' @ [CHR 0xE8, CHR 0xA7, CHR
     0x84, CHR 0xE5, CHR 0x88, CHR 0x92, CHR 0xE6, CHR 0x89, CHR 0xA7, CHR 0xE8, CHR 0xA1, CHR
     0x8C, CHR 0xE5, CHR 0xAE, CHR 0x8C, CHR 0xE6, CHR 0x88, CHR 0x90],
     ''Plan execution completed'',
     [CHR 0xE5, CHR 0x85, CHR 0xA8, CHR 0xE9, CHR 0x83, CHR 0xA8, CHR 0xE8, CHR 0xA7, CHR 0x84,
     CHR 0xE5, CHR 0x88, CHR 0x92, CHR 0xE6, CHR 0xAD, CHR 0xA5, CHR 0xE9, CHR 0xAA, CHR 0xA4,
     CHR 0xE6, CHR 0x89, CHR 0xA7, CHR 0xE8, CHR 0xA1, CHR 0x8C, CHR 0xE5, CHR 0xAE, CHR 0x8C,
     CHR 0xE6, CHR 0x88, CHR 0x90],
     ''All plan steps completed'',
     [CHR 0xE6, CHR 0x89, CHR 0xA7, CHR 0xE8, CHR 0xA1, CHR 0x8C, CHR 0xE8, CHR 0xBF, CHR 0x87,
     CHR 0xE7, CHR 0xA8, CHR 0x8B, CHR 0xE4, CHR 0xB8, CHR 0xAD, CHR 0xE6, CHR 0x96, CHR 0xAD],
     ''Execution interrupted'',
     [CHR 0xE8, CHR 0xA7, CHR 0x84, CHR 0xE5, CHR 0x88, CHR 0x92, CHR 0xE5, CHR 0xB7, CHR 0xB2,
     CHR 0xE8, CHR 0xA2, CHR 0xAB, CHR 0xE7, CHR 0x94, CHR 0xA8, CHR 0xE6, CHR 0x88, CHR 0xB7,
     CHR 0xE6, CHR 0x89, CHR 0x8B, CHR 0xE5, CHR 0x8A, CHR 0xA8, CHR 0xE5, CHR 0x81, CHR 0x9C,
     CHR 0xE6, CHR 0xAD, CHR 0xA2],
     ''Plan stopped by user'']"


definition is_plan_report :: "string \<Rightarrow> bool" where
  "is_plan_report c = list_ex (includes_str c) report_marks"

definition plan_open :: "ai_message \<Rightarrow> bool" where
  \<comment> \<open>the message has a plan that runs or has no summary yet\<close>
  "plan_open m \<longleftrightarrow>
     (case am_plan m of None \<Rightarrow> False | Some p \<Rightarrow> pl_executing p = Some True \<or> \<not> truthy (pl_summary p))"

definition close_plan :: "string \<Rightarrow> ai_message \<Rightarrow> ai_message" where
  "close_plan summary m = m\<lparr>am_plan := map_option
     (\<lambda>p. p\<lparr>pl_executing := Some False, pl_need_confirm := Some False, pl_summary := Some summary\<rparr>) (am_plan m)\<rparr>"

definition close_report :: "string \<Rightarrow> ai_message list \<Rightarrow> ai_message list" where
  "close_report c ms =
     (case find_last_index plan_open ms of None \<Rightarrow> ms | Some k \<Rightarrow> ms[k := close_plan c (ms ! k)])"

definition complete_step :: "process_step \<Rightarrow> process_step" where
  "complete_step st = st\<lparr>ps_status := Some Completed\<rparr>"

definition finish_message :: "translator \<Rightarrow> event_payload \<Rightarrow> ai_message \<Rightarrow> ai_message" where
  "finish_message t p m =
     (let reasoning = opt_or_opt (field ev_reasoning_content p) (am_reasoning m);
          content1 = opt_or (field ev_content p) (am_content m)
      in (with_steps (map complete_step) m)
           \<lparr>am_content := (if content1 = [] \<and> truthy reasoning then t ''agent:composer.deepCompleted'' [] else content1),
            am_reasoning := reasoning\<rparr>)"

definition end_run :: "agent_panel \<Rightarrow> agent_panel" where
  "end_run s = s\<lparr>ap_generating := False, ap_reasoning := [], ap_hitl := None, ap_ask := None\<rparr>"

definition done_messages :: "translator \<Rightarrow> int \<Rightarrow> event_payload \<Rightarrow> ai_message list \<Rightarrow> ai_message list" where
  "done_messages t now p ms =
     (let c = opt_or (field ev_content p) [] in
      if is_plan_report c then close_report c ms
      else appendOrUpdateAssistant now (finish_message t p) ms)"

definition doneEvent :: "translator \<Rightarrow> int \<Rightarrow> bool \<Rightarrow> event_payload \<Rightarrow> agent_panel \<Rightarrow> agent_panel" where
  "doneEvent t now eager p s =
     (let ms = done_messages t now p (ap_messages s); s1 = (end_run s)\<lparr>ap_messages := ms\<rparr>
      in if eager then call (CallSave (ap_session s) ms) s1 else s1)"

definition fail_step :: "process_step \<Rightarrow> process_step" where
  "fail_step st = (if ps_status st = Some Running then st\<lparr>ps_status := Some Failed\<rparr> else st)"

definition errorEvent :: "translator \<Rightarrow> int \<Rightarrow> event_payload \<Rightarrow> agent_panel \<Rightarrow> agent_panel" where
  "errorEvent t now p s =
     update_assistant now
       (\<lambda>m. (with_steps (map fail_step) m)
          \<lparr>am_content := str_or (am_content m) (t ''agent:events.execError'' [(''error'', text_of p)])\<rparr>)
       ((end_run s)\<lparr>ap_notice := t ''agent:events.errorNotice'' [(''error'', text_of p)]\<rparr>)"

subsection \<open>The handler of \<open>agent:event\<close>\<close>

definition is_request :: "agent_event \<Rightarrow> bool" where
  "is_request e \<longleftrightarrow> ae_type e \<in> {''AskUser'', ''ask_user'', ''HitlConfirm'', ''hitl_confirm''}"

definition is_chunk :: "agent_event \<Rightarrow> bool" where
  "is_chunk e \<longleftrightarrow> ae_type e \<in> {''ChatChunk'', ''chat_chunk'', ''ReasoningChunk'', ''reasoning_chunk''}"

definition dispatch :: "translator \<Rightarrow> int \<Rightarrow> bool \<Rightarrow> agent_event \<Rightarrow> agent_panel \<Rightarrow> agent_panel" where
  "dispatch t now eager e s =
     (let ty = ae_type e; p = ae_payload e in
      if ty \<in> {''ChatChunk'', ''chat_chunk''} then chatChunk (chunk_of p) s
      else if ty \<in> {''ReasoningChunk'', ''reasoning_chunk''} then reasoningChunk (chunk_of p) s
      else if ty \<in> {''ToolStart'', ''tool_start''} then update_assistant now (with_steps (toolStart t now p)) s
      else if ty \<in> {''ToolEvent'', ''tool_event''} then update_assistant now (with_steps (toolEvent t now p)) s
      else if ty \<in> {''AskUser'', ''ask_user''} then askUser t now p s
      else if ty \<in> {''HitlConfirm'', ''hitl_confirm''} then hitlConfirm p s
      else if ty \<in> {''StepStarted'', ''step_started''} then stepEvent eager True p s
      else if ty \<in> {''StepFinished'', ''step_finished''} then stepEvent eager False p s
      else if ty \<in> {''Notice'', ''notice''} then s\<lparr>ap_notice := text_of p\<rparr>
      else if ty \<in> {''Done'', ''done''} then doneEvent t now eager p s
      else if ty \<in> {''Error'', ''error''} then errorEvent t now p s
      else s)"

definition agentEvent :: "translator \<Rightarrow> int \<Rightarrow> bool \<Rightarrow> agent_event \<Rightarrow> agent_panel \<Rightarrow> agent_panel" where
  "agentEvent t now eager e s =
     (if truthy (ae_session_id e) \<and> ae_session_id e \<noteq> Some (ap_session s) \<and> \<not> is_request e then s
      else dispatch t now eager e (if is_chunk e then s else flushChunks t now s))"

definition change_session :: "translator \<Rightarrow> int \<Rightarrow> string \<Rightarrow> agent_panel \<Rightarrow> agent_panel" where
  \<comment> \<open>another session becomes active: the effect of the old one is cleaned up, and the composer resets\<close>
  "change_session t now i s =
     (if i = ap_session s then s
      else (flushChunks t now s)\<lparr>ap_session := i, ap_generating := False, ap_reasoning := []\<rparr>)"

subsection \<open>Runs\<close>

datatype panel_event =
    EvUnified int bool agent_event
  | EvChunk string
  | EvFrame int
  | EvAsk event_payload
  | EvHitl event_payload
  | EvSession int string

fun panel_step :: "translator \<Rightarrow> agent_panel \<Rightarrow> panel_event \<Rightarrow> agent_panel" where
  "panel_step t s (EvUnified now eager e) = agentEvent t now eager e s"
| "panel_step t s (EvChunk c) = chatChunk c s"
| "panel_step t s (EvFrame now) = animationFrame t now s"
| "panel_step t s (EvAsk p) = ask_channel p s"
| "panel_step t s (EvHitl p) = hitlConfirm p s"
| "panel_step t s (EvSession now i) = change_session t now i s"

definition panel_run :: "translator \<Rightarrow> agent_panel \<Rightarrow> panel_event list \<Rightarrow> agent_panel" where
  "panel_run t = foldl (panel_step t)"

subsection \<open>Lemmas on the last message\<close>

definition last_assistant :: "ai_message list \<Rightarrow> ai_message option" where
  "last_assistant ms = (if assistant_last ms then Some (last ms) else None)"

definition earlier :: "ai_message list \<Rightarrow> ai_message list" where
  \<comment> \<open>the messages before the one that is being written\<close>
  "earlier ms = (if assistant_last ms then butlast ms else ms)"

lemma assistant_last_simps [simp]:
  "\<not> assistant_last []" "assistant_last (ms @ [m]) \<longleftrightarrow> am_role m = RoleAssistant"
  by (simp_all add: assistant_last_def)

lemma new_assistant_simps [simp]:
  "am_role (new_assistant now) = RoleAssistant" "am_content (new_assistant now) = []"
  "am_reasoning (new_assistant now) = Some []" "am_steps (new_assistant now) = Some []"
  "am_plan (new_assistant now) = None"
  "opt_or (Some []) [] = []"
  by (simp_all add: new_assistant_def js_simps)

lemma append_update:
  "appendOrUpdateAssistant now f ms =
     earlier ms @ [f (case last_assistant ms of None \<Rightarrow> new_assistant now | Some m \<Rightarrow> m)]"
  by (cases ms rule: rev_cases)
    (auto simp: appendOrUpdateAssistant_def earlier_def last_assistant_def)

lemma assistant_last_append_update:
  assumes "\<And>m. am_role (f m) = am_role m"
  shows "assistant_last (appendOrUpdateAssistant now f ms)"
  using assms by (auto simp: append_update last_assistant_def assistant_last_def last_opt_def split: if_splits)

lemma last_append_update:
  assumes "\<And>m. am_role (f m) = am_role m"
  shows "last_assistant (appendOrUpdateAssistant now f ms) =
      Some (f (case last_assistant ms of None \<Rightarrow> new_assistant now | Some m \<Rightarrow> m))"
    and "earlier (appendOrUpdateAssistant now f ms) = earlier ms"
proof -
  have "assistant_last (appendOrUpdateAssistant now f ms)"
    using assms by (rule assistant_last_append_update)
  then show "last_assistant (appendOrUpdateAssistant now f ms) =
      Some (f (case last_assistant ms of None \<Rightarrow> new_assistant now | Some m \<Rightarrow> m))"
    and "earlier (appendOrUpdateAssistant now f ms) = earlier ms"
    by (simp_all add: last_assistant_def earlier_def append_update)
qed

lemma role_updates [simp]:
  "am_role (with_steps g m) = am_role m" "am_role (add_reasoning t now r m) = am_role m"
  "am_role (add_chat c m) = am_role m" "am_role (finish_message t p m) = am_role m"
  by (simp_all add: with_steps_def add_reasoning_def add_chat_def finish_message_def Let_def)

lemma content_updates [simp]:
  "am_content (with_steps g m) = am_content m" "am_content (add_reasoning t now r m) = am_content m"
  "am_content (add_chat c m) = am_content m @ c"
  by (simp_all add: with_steps_def add_reasoning_def add_chat_def)

lemma reasoning_updates [simp]:
  "am_reasoning (with_steps g m) = am_reasoning m"
  "am_reasoning (add_chat c m) = am_reasoning m"
  "opt_or (am_reasoning (add_reasoning t now r m)) [] = opt_or (am_reasoning m) [] @ r"
  by (simp_all add: with_steps_def add_reasoning_def add_chat_def js_simps)

lemma steps_with_steps [simp]: "steps_of (with_steps g m) = g (steps_of m)"
  by (simp add: steps_of_def with_steps_def nullish_def)

subsection \<open>What the chunks amount to\<close>

definition shown_text :: "agent_panel \<Rightarrow> string" where
  \<comment> \<open>the abstraction: the answer on screen and what is still to be written\<close>
  "shown_text s =
     (case last_assistant (ap_messages s) of None \<Rightarrow> [] | Some m \<Rightarrow> am_content m) @ ap_pendingChat s"

definition shown_reasoning :: "agent_panel \<Rightarrow> string" where
  "shown_reasoning s =
     (case last_assistant (ap_messages s) of None \<Rightarrow> [] | Some m \<Rightarrow> opt_or (am_reasoning m) []) @
     ap_pendingReasoning s"

fun chat_text :: "string \<Rightarrow> panel_event \<Rightarrow> string" where
  \<comment> \<open>what an event adds to the answer in session \<open>i\<close>\<close>
  "chat_text i (EvUnified now eager e) =
     (if truthy (ae_session_id e) \<and> ae_session_id e \<noteq> Some i then []
      else if ae_type e \<in> {''ChatChunk'', ''chat_chunk''} then chunk_of (ae_payload e) else [])"
| "chat_text i (EvChunk c) = c"
| "chat_text i _ = []"

fun reasoning_text :: "string \<Rightarrow> panel_event \<Rightarrow> string" where
  "reasoning_text i (EvUnified now eager e) =
     (if truthy (ae_session_id e) \<and> ae_session_id e \<noteq> Some i then []
      else if ae_type e \<in> {''ReasoningChunk'', ''reasoning_chunk''} then chunk_of (ae_payload e) else [])"
| "reasoning_text i _ = []"

fun streaming :: "panel_event \<Rightarrow> bool" where
  "streaming (EvUnified now eager e) \<longleftrightarrow> is_chunk e"
| "streaming (EvChunk c) \<longleftrightarrow> True"
| "streaming (EvFrame now) \<longleftrightarrow> True"
| "streaming _ \<longleftrightarrow> False"

lemma flush_simps [simp]:
  "ap_pendingChat (flushChunks t now s) = []" "ap_pendingReasoning (flushChunks t now s) = []"
  "ap_session (flushChunks t now s) = ap_session s" "ap_raf (flushChunks t now s) = False"
  "ap_calls (flushChunks t now s) = ap_calls s" "ap_generating (flushChunks t now s) = ap_generating s"
  "ap_ask (flushChunks t now s) = ap_ask s" "ap_hitl (flushChunks t now s) = ap_hitl s"
  by (simp_all add: flushChunks_def update_assistant_def Let_def)

lemma flush_shown [simp]:
  "shown_text (flushChunks t now s) = shown_text s"
  "shown_reasoning (flushChunks t now s) = shown_reasoning s"
  "earlier (ap_messages (flushChunks t now s)) = earlier (ap_messages s)"
  by (auto simp: flushChunks_def update_assistant_def shown_text_def shown_reasoning_def Let_def
      last_append_update split: option.split)

lemma chunk_shown [simp]:
  "shown_text (chatChunk c s) = shown_text s @ c" "shown_reasoning (chatChunk c s) = shown_reasoning s"
  "shown_text (reasoningChunk c s) = shown_text s"
  "shown_reasoning (reasoningChunk c s) = shown_reasoning s @ c"
  "ap_session (chatChunk c s) = ap_session s" "ap_session (reasoningChunk c s) = ap_session s"
  "ap_messages (chatChunk c s) = ap_messages s" "ap_messages (reasoningChunk c s) = ap_messages s"
  by (simp_all add: chatChunk_def reasoningChunk_def shown_text_def shown_reasoning_def)

lemma dispatch_chunk:
  assumes "is_chunk e"
  shows "dispatch t now eager e s =
    (if ae_type e \<in> {''ChatChunk'', ''chat_chunk''} then chatChunk (chunk_of (ae_payload e)) s
     else reasoningChunk (chunk_of (ae_payload e)) s)"
proof -
  from assms consider "ae_type e = ''ChatChunk''" | "ae_type e = ''chat_chunk''"
    | "ae_type e = ''ReasoningChunk''" | "ae_type e = ''reasoning_chunk''"
    by (auto simp: is_chunk_def)
  then show ?thesis by cases (simp_all add: dispatch_def Let_def)
qed

lemma chunk_not_request: "is_chunk e \<Longrightarrow> \<not> is_request e"
  by (auto simp: is_chunk_def is_request_def)

lemma chunk_event_step:
  assumes "is_chunk e"
  shows "agentEvent t now eager e s =
    reasoningChunk (reasoning_text (ap_session s) (EvUnified now eager e))
      (chatChunk (chat_text (ap_session s) (EvUnified now eager e)) s)"
proof -
  have nil: "chatChunk [] u = u" "reasoningChunk [] u = u" for u
    by (simp_all add: chatChunk_def reasoningChunk_def)
  have kinds: "ae_type e \<in> {''ReasoningChunk'', ''reasoning_chunk''} \<longleftrightarrow> ae_type e \<notin> {''ChatChunk'', ''chat_chunk''}"
    using assms by (auto simp: is_chunk_def)
  show ?thesis
    unfolding agentEvent_def dispatch_chunk [OF assms]
    using chunk_not_request [OF assms] assms
    by (simp del: insert_iff add: nil kinds)
qed

type_synonym stream = "string \<times> string \<times> string \<times> ai_message list"

definition stream_of :: "agent_panel \<Rightarrow> stream" where
  \<comment> \<open>the session, the answer, the thoughts and the messages before\<close>
  "stream_of s = (ap_session s, shown_text s, shown_reasoning s, earlier (ap_messages s))"

fun stream_append :: "stream \<Rightarrow> panel_event \<Rightarrow> stream" where
  \<comment> \<open>the abstract machine: texts grow at their end\<close>
  "stream_append (i, x, r, ms) e = (i, x @ chat_text i e, r @ reasoning_text i e, ms)"

lemma stream_step:
  assumes "streaming e"
  shows "stream_of (panel_step t s e) = stream_append (stream_of s) e"
proof (cases e)
  case (EvUnified now eager ev)
  then have "is_chunk ev" using assms by simp
  then show ?thesis
    by (simp only: EvUnified panel_step.simps chunk_event_step chunk_shown stream_of_def stream_append.simps)
qed (use assms in \<open>auto simp: animationFrame_def stream_of_def\<close>)

interpretation stream: simulation streaming "panel_step t" stream_of stream_append for t
  by unfold_locales (rule stream_step)

lemma stream_append_run:
  "foldl stream_append (i, x, r, ms) es =
     (i, x @ concat (map (chat_text i) es), r @ concat (map (reasoning_text i) es), ms)"
  by (induction es arbitrary: x r) simp_all

lemma stream_run:
  assumes "\<forall>e\<in>set es. streaming e"
  shows "ap_session (panel_run t s es) = ap_session s"
    and "shown_text (panel_run t s es) = shown_text s @ concat (map (chat_text (ap_session s)) es)"
    and "shown_reasoning (panel_run t s es) = shown_reasoning s @ concat (map (reasoning_text (ap_session s)) es)"
    and "earlier (ap_messages (panel_run t s es)) = earlier (ap_messages s)"
  using stream.run_sim [OF assms, of t s] by (simp_all add: panel_run_def stream_of_def stream_append_run)

text \<open>
  C20: the answer is the concatenation of its chunks. However chunks of the answer and of the
  thoughts mix, on whichever channel they come and wherever the animation frames fall, the text and
  the thoughts on screen together with what is pending are what was there before followed by all
  chunks of this session in their order; the frame that follows puts all of it on screen; and no
  earlier message is touched.
\<close>

theorem stream_is_concatenation:
  assumes "\<forall>e\<in>set es. streaming e"
  shows "let u = panel_run t s es; v = flushChunks t now u in
    shown_text u = shown_text s @ concat (map (chat_text (ap_session s)) es) \<and>
    shown_reasoning u = shown_reasoning s @ concat (map (reasoning_text (ap_session s)) es) \<and>
    shown_text v = shown_text u \<and> ap_pendingChat v = [] \<and> ap_pendingReasoning v = [] \<and>
    earlier (ap_messages v) = earlier (ap_messages s)"
  using stream_run [OF assms, of t s] by (simp add: Let_def)

definition chunk_event :: "string \<Rightarrow> agent_event" where
  "chunk_event c = \<lparr>ae_type = ''ChatChunk'', ae_session_id = Some ''s'',
     ae_payload = PData (no_data\<lparr>ev_chunk := Some c\<rparr>)\<rparr>"

theorem stream_is_concatenation_witness:
  "shown_text (panel_run (\<lambda>k _. k) (initialPanel ''s'' None)
     [EvUnified 1 True (chunk_event ''ab''), EvFrame 2, EvUnified 3 True (chunk_event ''c'')]) = ''abc''"
proof -
  define es where "es = [EvUnified 1 True (chunk_event ''ab''), EvFrame 2, EvUnified 3 True (chunk_event ''c'')]"
  have "\<forall>e\<in>set es. streaming e" by (simp add: es_def chunk_event_def is_chunk_def)
  from stream_is_concatenation [OF this, of "\<lambda>k _. k" "initialPanel ''s'' None" 0]
  have "shown_text (panel_run (\<lambda>k _. k) (initialPanel ''s'' None) es) =
      shown_text (initialPanel ''s'' None) @ concat (map (chat_text (ap_session (initialPanel ''s'' None))) es)"
    by (simp only: Let_def)
  also have "\<dots> = ''abc''"
    by (simp add: es_def chunk_event_def initialPanel_def shown_text_def last_assistant_def
        chunk_of_def field_def no_data_def opt_or_def str_or_def)
  finally show ?thesis by (simp only: es_def)
qed

text \<open>
  The answer is written twice. The backend sends a chunk both as an event and on the channel of
  the session (\<open>Emit\<close> in \<open>agent/events/events.go\<close>), and the hook listens to both: after both have
  arrived the text has the chunk twice, until the event \<open>Done\<close> brings the whole answer.
\<close>

theorem chunk_delivered_twice:
  "shown_text (panel_run t (initialPanel i None)
     [EvUnified now True \<lparr>ae_type = ''ChatChunk'', ae_session_id = Some i, ae_payload = PText c\<rparr>, EvChunk c,
      EvFrame now']) = c @ c"
  by (simp add: panel_run_def agentEvent_def dispatch_def is_chunk_def animationFrame_def chunk_of_def)
    (simp add: shown_text_def initialPanel_def last_assistant_def)

subsection \<open>Pending text is never forgotten\<close>

definition frame_due :: "agent_panel \<Rightarrow> bool" where
  "frame_due s \<longleftrightarrow> (ap_pendingChat s \<noteq> [] \<or> ap_pendingReasoning s \<noteq> [] \<longrightarrow> ap_raf s)"

lemma keeps_pending [simp]:
  "ap_pendingChat (update_assistant now f s) = ap_pendingChat s"
  "ap_pendingReasoning (update_assistant now f s) = ap_pendingReasoning s"
  "ap_raf (update_assistant now f s) = ap_raf s"
  "frame_due (update_assistant now f s) = frame_due s"
  "frame_due (askUser t now p s) = frame_due s" "frame_due (hitlConfirm p s) = frame_due s"
  "frame_due (ask_channel p s) = frame_due s"
  "frame_due (stepEvent eager st p s) = frame_due s" "frame_due (doneEvent t now eager p s) = frame_due s"
  "frame_due (errorEvent t now p s) = frame_due s" "frame_due (s\<lparr>ap_notice := x\<rparr>) = frame_due s"
  by (simp_all add: update_assistant_def frame_due_def askUser_def hitlConfirm_def ask_channel_def
      stepEvent_def doneEvent_def errorEvent_def end_run_def call_def Let_def split: event_payload.split)

lemma frame_due_chunks [simp]:
  "frame_due (chatChunk c s) \<longleftrightarrow> c \<noteq> [] \<or> frame_due s"
  "frame_due (reasoningChunk c s) \<longleftrightarrow> c \<noteq> [] \<or> frame_due s"
  "frame_due (flushChunks t now s)"
  by (simp_all add: frame_due_def chatChunk_def reasoningChunk_def)

lemma frame_due_dispatch: "frame_due s \<Longrightarrow> frame_due (dispatch t now eager e s)"
  by (simp add: dispatch_def Let_def)

lemma frame_due_step: "frame_due s \<Longrightarrow> frame_due (panel_step t s e)"
proof (cases e)
  case (EvSession now i)
  then show "frame_due s \<Longrightarrow> frame_due (panel_step t s e)"
    by (simp add: change_session_def) (simp add: frame_due_def)
qed (simp_all add: agentEvent_def animationFrame_def frame_due_dispatch)

interpretation panel: transition_system "\<lambda>_ _. True" "panel_step t" frame_due for t
  by unfold_locales (rule frame_due_step)

lemma frame_due_run: "frame_due s \<Longrightarrow> frame_due (panel_run t s es)"
  using panel.run_inv [of s t es] by (simp add: panel_run_def run_total)

text \<open>
  C21: no chunk is forgotten: in every run of the panel, whatever events, frames and changes of the
  session came, the next animation frame leaves nothing pending and the text and thoughts that were
  pending are on screen.
\<close>

theorem next_frame_shows_all:
  "let u = panel_run t (initialPanel i ask) es; v = animationFrame t now u in
    ap_pendingChat v = [] \<and> ap_pendingReasoning v = [] \<and>
    shown_text v = shown_text u \<and> shown_reasoning v = shown_reasoning u"
proof -
  have "frame_due (panel_run t (initialPanel i ask) es)"
    by (rule frame_due_run) (simp add: frame_due_def initialPanel_def)
  then show ?thesis by (auto simp: animationFrame_def frame_due_def Let_def)
qed

subsection \<open>A tool call from start to end\<close>

lemma toolStart_at:
  assumes "call_id p = Some i"
  obtains k st where "toolStart t now p steps = take k steps @ st # drop (Suc k) steps"
    and "k \<le> length steps" and "ps_id st = i" and "ps_status st = Some Running"
    and "ps_title st = start_tool_name t p" and "\<forall>s\<in>set (take k steps). ps_id s \<noteq> i"
proof -
  define P where "P = (\<lambda>s :: process_step. ps_id s = i \<or>
    (ps_type s = ToolStep \<and> ps_title s = start_tool_name t p \<and> ps_status s = Some Running))"
  note P = P_def [symmetric]
  show ?thesis
  proof (cases "find_index P steps")
    case None
    then have "\<forall>s\<in>set steps. ps_id s \<noteq> i" by (auto simp: find_index_None P_def)
    then show ?thesis
      using None assms by (intro that [of "length steps"]) (auto simp: toolStart_def Let_def P nullish_def)
  next
    case (Some k)
    from find_index_SomeD [OF this] have k: "k < length steps" "\<forall>j<k. \<not> P (steps ! j)" by simp_all
    then have "\<forall>s\<in>set (take k steps). ps_id s \<noteq> i" by (fastforce simp: in_set_conv_nth P_def)
    then show ?thesis
      using k(1) Some assms
      by (intro that [of k]) (auto simp: toolStart_def Let_def P nullish_def upd_conv_take_nth_drop)
  qed
qed

lemma find_index_at_append:
  "\<forall>x\<in>set xs. \<not> P x \<Longrightarrow> P y \<Longrightarrow> find_index P (xs @ y # ys) = Some (length xs)"
  by (intro find_index_nth_eqI) (auto simp: nth_append)

definition tool_output :: "event_payload \<Rightarrow> string" where
  "tool_output p = opt_or (field ev_output p) (opt_or (field ev_result p) (opt_or (field ev_data p) []))"

lemma toolEvent_at:
  assumes "call_id p = Some i" and "ps_id st = i" and "\<forall>s\<in>set xs. ps_id s \<noteq> i"
  obtains st' where "toolEvent t now p (xs @ st # ys) = xs @ st' # ys" and "ps_id st' = i"
    and "ps_status st' = Some Completed" and "ps_content st' = tool_output p"
proof -
  have "find_index (\<lambda>s. ps_id s = i) (xs @ st # ys) = Some (length xs)"
    using assms by (intro find_index_at_append) auto
  then have "tool_target t (Some i) (event_tool_name t p) (xs @ st # ys) = Some (length xs)"
    by (simp add: tool_target_def first_some_def)
  then show ?thesis
    using assms(1) by (intro that) (auto simp: toolEvent_def tool_output_def Let_def nullish_def)
qed

text \<open>
  A tool call is one step from start to end. The start of a call shows a running step with the
  call's id; its result completes that step with the output, and no other step changes: all steps
  before and after it are as they were before the call.
\<close>

theorem tool_call_completes:
  assumes "call_id p = Some i" and "call_id q = Some i"
  shows "\<exists>k st st'.
    toolStart t now p steps = take k steps @ st # drop (Suc k) steps \<and>
    toolEvent t now' q (toolStart t now p steps) = take k steps @ st' # drop (Suc k) steps \<and>
    ps_id st = i \<and> ps_status st = Some Running \<and>
    ps_id st' = i \<and> ps_status st' = Some Completed \<and> ps_content st' = tool_output q"
proof -
  obtain k st where st: "toolStart t now p steps = take k steps @ st # drop (Suc k) steps"
    "ps_id st = i" "ps_status st = Some Running" "\<forall>s\<in>set (take k steps). ps_id s \<noteq> i"
    using toolStart_at [OF assms(1)] by metis
  obtain st' where "toolEvent t now' q (take k steps @ st # drop (Suc k) steps) = take k steps @ st' # drop (Suc k) steps"
    "ps_id st' = i" "ps_status st' = Some Completed" "ps_content st' = tool_output q"
    using toolEvent_at [OF assms(2) st(2,4)] by metis
  with st show ?thesis by metis
qed

theorem tool_call_completes_witness:
  "map ps_status (toolEvent (\<lambda>k _. k) 5 (PData (no_data\<lparr>ev_call_id := Some ''c'', ev_output := Some ''ok''\<rparr>))
     (toolStart (\<lambda>k _. k) 1 (PData (no_data\<lparr>ev_call_id := Some ''c'', ev_tool_name := Some ''ls''\<rparr>)) [])) =
   [Some Completed]"
proof -
  have "call_id (PData (no_data\<lparr>ev_call_id := Some ''c'', ev_tool_name := Some ''ls''\<rparr>)) = Some ''c''"
    "call_id (PData (no_data\<lparr>ev_call_id := Some ''c'', ev_output := Some ''ok''\<rparr>)) = Some ''c''"
    by (simp_all add: call_id_def field_def no_data_def opt_or_opt_def)
  from tool_call_completes [OF this, of "\<lambda>k _. k" 1 "[]" 5] show ?thesis by auto
qed

subsection \<open>The end of a run\<close>

lemma type_cases_run_end:
  assumes "ae_type e \<in> {''Done'', ''done''}"
  shows "\<not> is_chunk e" "\<not> is_request e" "dispatch t now eager e s = doneEvent t now eager (ae_payload e) s"
  using assms by (auto simp: is_chunk_def is_request_def dispatch_def Let_def)

lemma type_cases_error:
  assumes "ae_type e \<in> {''Error'', ''error''}"
  shows "\<not> is_chunk e" "\<not> is_request e" "dispatch t now eager e s = errorEvent t now (ae_payload e) s"
  using assms by (auto simp: is_chunk_def is_request_def dispatch_def Let_def)

definition own_event :: "agent_panel \<Rightarrow> agent_event \<Rightarrow> bool" where
  "own_event s e \<longleftrightarrow> \<not> truthy (ae_session_id e) \<or> ae_session_id e = Some (ap_session s)"

lemma own_agentEvent:
  "own_event s e \<Longrightarrow> \<not> is_chunk e \<Longrightarrow> agentEvent t now eager e s = dispatch t now eager e (flushChunks t now s)"
  by (auto simp: agentEvent_def own_event_def)

lemma done_event_spec:
  assumes "own_event s e" and "ae_type e \<in> {''Done'', ''done''}"
    and "opt_or (field ev_content (ae_payload e)) [] = answer" and "answer \<noteq> []" and "\<not> is_plan_report answer"
  shows "\<exists>m. last_assistant (ap_messages (agentEvent t now eager e s)) = Some m \<and> am_content m = answer \<and>
      filter (\<lambda>st. ps_status st \<noteq> Some Completed) (steps_of m) = []"
    and "earlier (ap_messages (agentEvent t now eager e s)) = earlier (ap_messages s)"
    and "ap_session (agentEvent t now eager e s) = ap_session s"
proof -
  have "am_content (finish_message t (ae_payload e) m) = answer" for m
    using assms(3,4) by (auto simp: finish_message_def Let_def js_simps split: option.splits if_splits)
  moreover have "filter (\<lambda>st. ps_status st \<noteq> Some Completed) (steps_of (finish_message t p m)) = []" for p m
    by (simp add: finish_message_def Let_def with_steps_def steps_of_def nullish_def filter_empty_conv complete_step_def)
  ultimately show "\<exists>m. last_assistant (ap_messages (agentEvent t now eager e s)) = Some m \<and> am_content m = answer \<and>
      filter (\<lambda>st. ps_status st \<noteq> Some Completed) (steps_of m) = []"
    and "earlier (ap_messages (agentEvent t now eager e s)) = earlier (ap_messages s)"
    and "ap_session (agentEvent t now eager e s) = ap_session s"
    using assms(3,5)
    by (simp_all add: own_agentEvent [OF assms(1)] type_cases_run_end [OF assms(2)] doneEvent_def end_run_def
        call_def done_messages_def Let_def last_append_update)
qed

text \<open>
  The end of a run leaves nothing running. After the event \<open>Done\<close> with an answer that is not the
  report of a plan, the panel is not generating, asks nothing, has no text pending, and all steps of
  the last message are completed; its content is exactly the answer the event carries, whatever the
  chunks before had made of it, and with the session's messages it is saved if the updater has run.
\<close>

theorem done_settles:
  assumes "own_event s e" and "ae_type e \<in> {''Done'', ''done''}"
    and "opt_or (field ev_content (ae_payload e)) [] = answer" and "answer \<noteq> []" and "\<not> is_plan_report answer"
  shows "let u = agentEvent t now eager e s in
    \<not> ap_generating u \<and> ap_ask u = None \<and> ap_hitl u = None \<and> ap_pendingChat u = [] \<and>
    (\<exists>m. last_assistant (ap_messages u) = Some m \<and> am_content m = answer \<and>
       filter (\<lambda>st. ps_status st \<noteq> Some Completed) (steps_of m) = []) \<and>
    earlier (ap_messages u) = earlier (ap_messages s) \<and>
    ap_calls u = ap_calls s @ (if eager then [CallSave (ap_session s) (ap_messages u)] else [])"
  using done_event_spec [OF assms, of t now eager]
  by (simp add: own_agentEvent [OF assms(1)] type_cases_run_end [OF assms(2)] doneEvent_def end_run_def
      call_def Let_def)

definition demo_done :: agent_event where
  "demo_done = \<lparr>ae_type = ''Done'', ae_session_id = None, ae_payload = PData (no_data\<lparr>ev_content := Some ''hi''\<rparr>)\<rparr>"

definition demo_doubled :: agent_panel where
  "demo_doubled = (initialPanel ''s'' None)\<lparr>ap_messages := [(new_assistant 1)\<lparr>am_content := ''hihi''\<rparr>]\<rparr>"

theorem done_settles_witness:
  "map_option am_content (last_assistant (ap_messages demo_doubled)) = Some ''hihi'' \<and>
   map_option am_content (last_assistant (ap_messages (agentEvent (\<lambda>k _. k) 9 False demo_done demo_doubled))) =
     Some ''hi''"
proof -
  have e: "own_event demo_doubled demo_done" "ae_type demo_done \<in> {''Done'', ''done''}"
    "opt_or (field ev_content (ae_payload demo_done)) [] = ''hi''" "''hi'' \<noteq> []"
    by (simp_all add: demo_done_def own_event_def field_def no_data_def js_simps)
  have r: "\<not> is_plan_report ''hi''" by code_simp
  have "map_option am_content (last_assistant (ap_messages demo_doubled)) = Some ''hihi''"
    by (simp add: demo_doubled_def last_assistant_def assistant_last_def last_opt_def)
  then show ?thesis
    using done_settles [OF e r, of "\<lambda>k _. k" 9 False] by (auto simp: Let_def)
qed

text \<open>
  An error ends the run as well: after the event \<open>Error\<close> the panel is not generating and asks
  nothing, what had been streamed stays, with the error as its content when there was none, and no
  step of the last message is running.
\<close>

theorem error_settles:
  assumes "own_event s e" and "ae_type e \<in> {''Error'', ''error''}"
  shows "let u = agentEvent t now eager e s in
    \<not> ap_generating u \<and> ap_ask u = None \<and> ap_hitl u = None \<and> ap_pendingChat u = [] \<and>
    (\<exists>m. last_assistant (ap_messages u) = Some m \<and>
       am_content m = str_or (shown_text s) (t ''agent:events.execError'' [(''error'', text_of (ae_payload e))]) \<and>
       filter (\<lambda>st. ps_status st = Some Running) (steps_of m) = []) \<and>
    earlier (ap_messages u) = earlier (ap_messages s)"
proof -
  define f where "f = (\<lambda>m. (with_steps (map fail_step) m)
          \<lparr>am_content := str_or (am_content m) (t ''agent:events.execError'' [(''error'', text_of (ae_payload e))])\<rparr>)"
  define v where "v = flushChunks t now s"
  have role: "am_role (f m) = am_role m" for m by (simp add: f_def with_steps_def)
  have steps: "filter (\<lambda>st. ps_status st = Some Running) (steps_of (f m)) = []" for m
    by (auto simp: f_def with_steps_def steps_of_def nullish_def filter_empty_conv fail_step_def)
  have shown: "(case last_assistant (ap_messages v) of None \<Rightarrow> [] | Some m \<Rightarrow> am_content m) = shown_text s"
    using flush_shown(1) [of t now s] by (simp add: shown_text_def v_def)
  have "agentEvent t now eager e s = errorEvent t now (ae_payload e) v"
    by (simp add: own_agentEvent [OF assms(1)] type_cases_error [OF assms(2)] v_def)
  moreover have "ap_pendingChat v = []" "earlier (ap_messages v) = earlier (ap_messages s)"
    by (simp_all add: v_def)
  ultimately show ?thesis
    using shown steps
    by (auto simp: errorEvent_def update_assistant_def end_run_def Let_def last_append_update role
        f_def [symmetric] split: option.splits) (simp_all add: f_def js_simps)
qed

theorem error_settles_witness:
  "ap_generating (agentEvent (\<lambda>k _. k) 9 False (demo_done\<lparr>ae_type := ''error''\<rparr>)
     (demo_doubled\<lparr>ap_generating := True\<rparr>)) = False"
  using error_settles [of "demo_doubled\<lparr>ap_generating := True\<rparr>" "demo_done\<lparr>ae_type := ''error''\<rparr>" "\<lambda>k _. k" 9 False]
  by (simp add: own_event_def demo_done_def Let_def)

subsection \<open>Events of other sessions\<close>

lemma askStep_running:
  "\<exists>st\<in>set (askStep t now q steps). ps_status st = Some Running \<and>
     ps_title st = t ''agent:events.interactiveAsk'' []"
  unfolding askStep_def Let_def
  by (split option.split, intro conjI allI impI)
    (auto dest!: find_index_SomeD intro!: bexI [OF _ set_update_memI])

text \<open>
  Events of another session leave the panel alone, except its requests. A question another
  session's agent asks is shown here, and a step for it is written into the answer of this session.
\<close>

theorem foreign_events:
  assumes "\<not> own_event s e"
  shows "(is_request e \<or> agentEvent t now eager e s = s) \<and>
    (\<forall>q. ae_type e = ''ask_user'' \<and> ae_payload e = PAsk q \<longrightarrow>
       (let u = agentEvent t now eager e s in
        ap_ask u = Some q \<and>
        (\<exists>m st. last_assistant (ap_messages u) = Some m \<and> st \<in> set (steps_of m) \<and> ps_status st = Some Running \<and>
           ps_title st = t ''agent:events.interactiveAsk'' [])))"
proof (intro conjI allI impI)
  show "is_request e \<or> agentEvent t now eager e s = s"
    using assms by (auto simp: own_event_def agentEvent_def)
next
  fix q
  assume e: "ae_type e = ''ask_user'' \<and> ae_payload e = PAsk q"
  then have run: "agentEvent t now eager e s = askUser t now (PAsk q) (flushChunks t now s)"
    by (simp add: agentEvent_def is_request_def is_chunk_def dispatch_def Let_def)
  note askStep_running [of t now "Some q"]
  then show "let u = agentEvent t now eager e s in
      ap_ask u = Some q \<and> (\<exists>m st. last_assistant (ap_messages u) = Some m \<and> st \<in> set (steps_of m) \<and>
        ps_status st = Some Running \<and> ps_title st = t ''agent:events.interactiveAsk'' [])"
    by (simp add: run askUser_def ask_of_def update_assistant_def Let_def last_append_update)
      (metis)
qed

theorem foreign_events_witness:
  "ap_ask (agentEvent (\<lambda>k _. k) 1 True \<lparr>ae_type = ''ask_user'', ae_session_id = Some ''other'',
     ae_payload = PAsk \<lparr>aq_ask_id = ''q'', aq_session_id = ''other'', aq_trace_id = None, aq_question = ''why?'',
       aq_options = None, aq_created_at = None\<rparr>\<rparr> (initialPanel ''s'' None)) \<noteq> None"
proof -
  let ?q = "\<lparr>aq_ask_id = ''q'', aq_session_id = ''other'', aq_trace_id = None, aq_question = ''why?'',
       aq_options = None, aq_created_at = None\<rparr>"
  let ?e = "\<lparr>ae_type = ''ask_user'', ae_session_id = Some ''other'', ae_payload = PAsk ?q\<rparr>"
  have "\<not> own_event (initialPanel ''s'' None) ?e"
    by (simp add: own_event_def initialPanel_def)
  from foreign_events [OF this, of "\<lambda>k _. k" 1 True] show ?thesis by (simp add: Let_def)
qed

text \<open>
  A chunk that is pending when a new session is created goes into the new one. Creating a session
  empties the messages and makes it active; the clean-up of the old session's effect then writes the
  pending text, which becomes an answer without a question in the new session.
\<close>

theorem pending_chunk_enters_new_session:
  assumes "ap_pendingChat s = c" and "c \<noteq> []" and "i \<noteq> ap_session s"
  shows "let u = change_session t now i (s\<lparr>ap_messages := []\<rparr>) in
    ap_session u = i \<and> map am_content (ap_messages u) = [c] \<and> map am_role (ap_messages u) = [RoleAssistant]"
  using assms
  by (simp add: change_session_def flushChunks_def update_assistant_def appendOrUpdateAssistant_def Let_def)

theorem pending_chunk_enters_new_session_witness:
  "map am_content (ap_messages (change_session (\<lambda>k _. k) 1 ''b''
     ((initialPanel ''a'' None)\<lparr>ap_pendingChat := ''x'', ap_messages := []\<rparr>))) = [''x'']"
  using pending_chunk_enters_new_session [of "(initialPanel ''a'' None)\<lparr>ap_pendingChat := ''x''\<rparr>" "''x''" "''b''" "\<lambda>k _. k" 1]
  by (simp add: initialPanel_def Let_def)

subsection \<open>The steps of a plan\<close>

definition numbered :: "plan_step list \<Rightarrow> bool" where
  \<comment> \<open>the ids are \<open>step_1\<close>, \<open>step_2\<close>, ... in order\<close>
  "numbered steps \<longleftrightarrow> map st_id steps = map step_key [0..<length steps]"

lemma step_key_inject: "step_key i = step_key j \<longleftrightarrow> i = j"
  by (simp add: step_key_def show_nat_inject)

lemma numbered_match:
  assumes "numbered steps" and "i < length steps"
  shows "step_matches (step_key k) i (steps ! i) \<longleftrightarrow> i = k"
proof -
  have "st_id (steps ! i) = step_key i"
    using assms by (metis (no_types, lifting) add_0 diff_zero length_map length_upt nth_map nth_upt numbered_def)
  moreover have "step_key 0 = ''step_1''" by code_simp
  moreover have "step_key i \<noteq> ''step_'' @ step_key k" "step_key k \<noteq> ''1''"
  proof -
    have "CHR ''s'' \<notin> set (show_nat (Suc i))"
      using show_nat_digits [of "CHR ''s''" "Suc i"] by auto
    then show "step_key i \<noteq> ''step_'' @ step_key k" by (auto simp: step_key_def)
    show "step_key k \<noteq> ''1''" by (simp add: step_key_def)
  qed
  ultimately show ?thesis
    using step_key_inject [of k 0] by (auto simp: step_matches_def step_key_inject)
qed

text \<open>
  An event on a step changes that step only: in a plan whose steps are numbered in order, the
  event for the step at place \<open>k\<close> sets its status, times and results and leaves all others.
\<close>

theorem step_event_hits_one:
  assumes "numbered steps" and "k < length steps"
  shows "update_steps started d (step_key k) steps =
    steps[k := update_step (started \<or> ev_status d = Some ''running'') d (steps ! k)]"
proof (rule nth_equalityI)
  fix i
  assume "i < length (update_steps started d (step_key k) steps)"
  then have "i < length steps" by (simp add: update_steps_def)
  with numbered_match [OF assms(1) this, of k]
  show "update_steps started d (step_key k) steps ! i =
      steps[k := update_step (started \<or> ev_status d = Some ''running'') d (steps ! k)] ! i"
    using assms(2) by (auto simp: update_steps_def nth_list_update)
qed (simp add: update_steps_def)

definition demo_step :: "string \<Rightarrow> plan_step" where
  "demo_step i =
     \<lparr>st_id = i, st_action = ''tool_call'', st_tool_name = None, st_args = JUndef, st_description = [],
      st_depends_on = None, st_expected_out = None, st_exempted = None, st_status = ''pending'',
      st_duration_ms = None, st_error = None, st_output = JUndef, st_verdict = None\<rparr>"

theorem step_event_hits_one_witness:
  "map st_status (update_steps True no_data (step_key 1) [demo_step ''step_1'', demo_step ''step_2'']) =
     [''pending'', ''running'']"
proof -
  have k: "step_key 0 = ''step_1''" "step_key 1 = ''step_2''" by code_simp+
  have "numbered [demo_step ''step_1'', demo_step ''step_2'']"
    using k by (simp add: numbered_def demo_step_def)
  from step_event_hits_one [OF this, of 1 True no_data] show ?thesis
    by (simp add: update_step_def demo_step_def no_data_def js_simps)
qed

text \<open>
  A plan whose ids are not in the order of their numbers shows a step twice: the event for
  \<open>step_1\<close> changes the step with that id and also the first step, whatever its id.
\<close>

theorem step_event_hits_two:
  "let steps = [demo_step ''step_2'', demo_step ''step_1''];
       d = no_data\<lparr>ev_step_id := Some ''step_1'', ev_status := Some ''failed''\<rparr>
   in map st_status (update_steps False d ''step_1'' steps) = [''failed'', ''failed'']"
  by code_simp

end
