(* ===== verification/AgentComposer.thy ===== *)
theory AgentComposer
  imports AgentEvents
begin

section \<open>The composer and the panel of the agent\<close>

text \<open>
  \<open>pages/agent/hooks/useAgentComposer.ts\<close> and the handlers of \<open>AiAgentPanel.tsx\<close>: sending a message
  in its three modes, approving, cancelling and retrying plans, stopping, and answering the agent's
  requests. A handler is split at its awaits. It was created by the rendering whose state it reads
  before the first await; after an await it still has the session of that rendering (\<open>sid\<close>), while
  an updater sees the messages of the moment it runs.
\<close>

subsection \<open>Mode, workspace and timers\<close>

definition activeMode :: "agent_panel \<Rightarrow> agent_command option" where
  \<comment> \<open>plan or chat\<close>
  "activeMode s = (if ap_command s = Some CmdPlan then Some CmdPlan else None)"

definition setActiveMode :: "agent_command option \<Rightarrow> agent_panel \<Rightarrow> agent_panel" where
  "setActiveMode mode s = s\<lparr>ap_command := (if mode = Some CmdPlan then Some CmdPlan else None)\<rparr>"

definition workspace_loaded :: "string \<Rightarrow> agent_panel \<Rightarrow> agent_panel" where
  \<comment> \<open>the answer of the backend, also to the dialog of \<open>handleSelectWorkspace\<close>\<close>
  "workspace_loaded dir s = (if dir = [] then s else s\<lparr>ap_workspace := dir\<rparr>)"

definition handleClearWorkspace :: "bool \<Rightarrow> agent_panel \<Rightarrow> agent_panel" where
  \<comment> \<open>\<open>ok\<close>: the backend took the call; otherwise the exception leaves the handler\<close>
  "handleClearWorkspace ok s =
     (let s1 = call (CallSetWorkspace []) s in if ok then s1\<lparr>ap_workspace := []\<rparr> else s1)"

definition idle :: "agent_panel \<Rightarrow> agent_panel" where
  "idle s = s\<lparr>ap_generating := False, ap_reasoning := []\<rparr>"

definition watchdog :: "translator \<Rightarrow> agent_panel \<Rightarrow> agent_panel" where
  \<comment> \<open>two minutes after a run began that has not ended\<close>
  "watchdog t s =
     (if ap_generating s then (idle s)\<lparr>ap_notice := t ''agent:composer.timeoutOrStopped'' []\<rparr> else s)"

subsection \<open>Sending\<close>

definition strip_command :: "string \<Rightarrow> string \<Rightarrow> string" where
  \<comment> \<open>\<open>s.replace(/^cmd\s*/, '').trim()\<close>\<close>
  "strip_command cmd s = trim (if prefix cmd s then trim_left (drop (length cmd) s) else s)"

definition has_command :: "string \<Rightarrow> string \<Rightarrow> bool" where
  "has_command cmd s \<longleftrightarrow> starts_with s (cmd @ '' '') \<or> s = cmd"

datatype send_request = SendPlan string | SendGrill string | SendChat string

definition send_request_of :: "agent_panel \<Rightarrow> send_request option" where
  "send_request_of s =
     (let trimmed = trim (ap_input s) in
      if trimmed = [] \<and> ap_images s = [] then None
      else if ap_generating s then None
      else if ap_command s = Some CmdPlan \<or> has_command ''/plan'' trimmed then
        (let objective = strip_command ''/plan'' trimmed in
         if objective = [] then None else Some (SendPlan objective))
      else if ap_command s = Some CmdGrillMe \<or> has_command ''/grill-me'' trimmed then
        (let objective = strip_command ''/grill-me'' trimmed in
         if objective = [] then None else Some (SendGrill objective))
      else Some (SendChat trimmed))"

fun request_text :: "send_request \<Rightarrow> string" where
  "request_text (SendPlan x) = ''/plan '' @ x"
| "request_text (SendGrill x) = ''/grill-me '' @ x"
| "request_text (SendChat x) = x"

definition user_message :: "int \<Rightarrow> string \<Rightarrow> string list \<Rightarrow> ai_message" where
  "user_message now c images = (plain_message RoleUser c)
     \<lparr>am_images := (if images = [] then None else Some images), am_timestamp := Some now\<rparr>"

definition handleSend_begin :: "int \<Rightarrow> agent_panel \<Rightarrow> agent_panel \<times> send_request option" where
  "handleSend_begin now s =
     (case send_request_of s of
        None \<Rightarrow> (s, None)
      | Some r \<Rightarrow>
          (let asked = ap_messages s @ [user_message now (request_text r) (ap_images s)];
               s1 = s\<lparr>ap_messages := asked @ [new_assistant now], ap_input := [], ap_images := [],
                      ap_command := None, ap_generating := True, ap_reasoning := [], ap_notice := []\<rparr>
           in (case r of
                 SendPlan objective \<Rightarrow>
                   call (CallPropose (ap_session s) objective) (call (CallSave (ap_session s) asked) s1)
               | _ \<Rightarrow> call (CallSend (ap_session s) asked) s1, Some r)))"

definition update_last :: "(ai_message \<Rightarrow> ai_message) \<Rightarrow> ai_message list \<Rightarrow> ai_message list" where
  \<comment> \<open>if the last message is the assistant's\<close>
  "update_last f ms = (if assistant_last ms then ms[length ms - 1 := f (last ms)] else ms)"

definition map_steps :: "(process_step \<Rightarrow> process_step) \<Rightarrow> ai_message \<Rightarrow> ai_message" where
  \<comment> \<open>\<open>if (last.process_steps) last.process_steps = last.process_steps.map(f)\<close>\<close>
  "map_steps f m = m\<lparr>am_steps := map_option (map f) (am_steps m)\<rparr>"

definition fill_content :: "string \<Rightarrow> ai_message \<Rightarrow> ai_message" where
  "fill_content c m = (if am_content m = [] then m\<lparr>am_content := c\<rparr> else m)"

definition reply_text :: "translator \<Rightarrow> string \<Rightarrow> string \<Rightarrow> string \<Rightarrow> ai_message \<Rightarrow> string" where
  "reply_text t k_reasoning k_default resp m =
     str_or resp (if truthy (am_reasoning m) then t k_reasoning [] else t k_default [])"

fun reply_keys :: "send_request \<Rightarrow> string \<times> string" where
  "reply_keys (SendGrill _) = (''agent:composer.interviewDoneReasoning'', ''agent:composer.interviewContinueConfirm'')"
| "reply_keys _ = (''agent:composer.deepCompleted'', ''agent:composer.taskCompleted'')"

definition handleSend_reply ::
  "translator \<Rightarrow> string \<Rightarrow> send_request \<Rightarrow> string \<Rightarrow> agent_panel \<Rightarrow> agent_panel" where
  \<comment> \<open>the answer to a chat or an interview\<close>
  "handleSend_reply t sid r resp s =
     (let k = reply_keys r;
          copy = update_last (\<lambda>m. map_steps complete_step (fill_content (reply_text t (fst k) (snd k) resp m) m))
                   (ap_messages s)
      in idle (call (CallSave sid copy) (s\<lparr>ap_messages := copy\<rparr>)))"

definition handleSend_fail :: "translator \<Rightarrow> string \<Rightarrow> agent_panel \<Rightarrow> agent_panel" where
  "handleSend_fail t err s =
     idle (s\<lparr>ap_notice := t ''agent:composer.sendFailed'' [(''error'', err)],
             ap_messages := update_last
               (\<lambda>m. map_steps fail_step (fill_content (t ''agent:composer.execInterrupted'' [(''error'', err)]) m))
               (ap_messages s)\<rparr>)"

definition expire_earlier :: "ai_message list \<Rightarrow> ai_message list" where
  \<comment> \<open>every unapproved plan but one in the last message\<close>
  "expire_earlier ms =
     map (\<lambda>(idx, m). if idx < length ms - 1 \<and> unapproved m then expire m else m) (zip [0..<length ms] ms)"

definition plan_step_done :: "translator \<Rightarrow> bool \<Rightarrow> string \<Rightarrow> process_step \<Rightarrow> process_step" where
  "plan_step_done t is_update reasoning st = st
     \<lparr>ps_status := Some Completed,
      ps_content := (if ps_type st = Think
                     then str_or reasoning (str_or (ps_content st) (t ''agent:composer.researchCompleted'' []))
                     else ps_content st),
      ps_summary := Some (if is_update then t ''agent:composer.planUpdatedTitle'' []
                          else t ''agent:composer.planCreatedTitle'' [])\<rparr>"

definition with_plan :: "translator \<Rightarrow> agent_plan \<Rightarrow> ai_message \<Rightarrow> ai_message" where
  "with_plan t plan m =
     (let upd = (pl_is_update plan = Some True);
          reasoning = opt_or (pl_reasoning_content plan) (opt_or (am_reasoning m) [])
      in map_steps (plan_step_done t upd reasoning)
        (m\<lparr>am_content := (if upd then t ''agent:composer.planUpdateConfirm'' []
                           else t ''agent:composer.planCreateConfirm'' []),
           am_plan := Some (plan\<lparr>pl_status := Some ''proposed''\<rparr>),
           am_reasoning := (if reasoning \<noteq> [] then Some reasoning else am_reasoning m)\<rparr>))"

definition handleSend_plan :: "translator \<Rightarrow> string \<Rightarrow> agent_plan \<Rightarrow> agent_panel \<Rightarrow> agent_panel" where
  "handleSend_plan t sid plan s =
     (let copy = update_last (with_plan t plan) (expire_earlier (ap_messages s))
      in idle (call (CallSave sid copy) (s\<lparr>ap_messages := copy\<rparr>)))"

definition handleSend_plan_fail :: "translator \<Rightarrow> string \<Rightarrow> agent_panel \<Rightarrow> agent_panel" where
  "handleSend_plan_fail t err s =
     (let msg = t ''agent:composer.planGenFailed'' [(''error'', err)] in
      idle (s\<lparr>ap_messages := update_last
                (\<lambda>m. map_steps (\<lambda>st. st\<lparr>ps_status := Some Failed\<rparr>) (m\<lparr>am_content := msg\<rparr>)) (ap_messages s),
              ap_notice := msg\<rparr>))"

subsection \<open>Plans\<close>

definition approve :: "string \<Rightarrow> ai_message \<Rightarrow> ai_message" where
  "approve planId m =
     (case am_plan m of
        None \<Rightarrow> m
      | Some p \<Rightarrow>
          if pl_id p = planId
          then m\<lparr>am_plan := Some (p\<lparr>pl_status := Some ''approved'', pl_need_confirm := Some False\<rparr>)\<rparr>
          else if pl_status p \<noteq> Some ''approved''
          then m\<lparr>am_plan := Some (p\<lparr>pl_status := Some ''expired'', pl_need_confirm := Some False\<rparr>)\<rparr>
          else m)"

definition handleApprovePlan_begin :: "bool \<Rightarrow> string \<Rightarrow> agent_panel \<Rightarrow> agent_panel" where
  "handleApprovePlan_begin eager planId s =
     (if ap_generating s then s
      else
        let copy = map (approve planId) (ap_messages s); s1 = s\<lparr>ap_messages := copy\<rparr>
        in call (CallApprove planId)
             (if eager \<and> copy \<noteq> [] then call (CallSave (ap_session s) copy) s1 else s1))"

definition handleApprovePlan_run ::
  "translator \<Rightarrow> string \<Rightarrow> int \<Rightarrow> bool \<Rightarrow> agent_panel \<Rightarrow> agent_panel" where
  \<comment> \<open>after the backend has noted the approval, or failed to\<close>
  "handleApprovePlan_run t sid now eager s =
     (let asked = ap_messages s @ [user_message now (t ''agent:composer.approvedPlan'' []) []];
          s1 = (setActiveMode None s)\<lparr>ap_generating := True, ap_reasoning := [], ap_notice := [],
                  ap_messages := asked @ [new_assistant now]\<rparr>
      in call (CallSend sid (if eager then asked else [])) s1)"

definition handleApprovePlan_reply ::
  "translator \<Rightarrow> string \<Rightarrow> bool \<Rightarrow> string \<Rightarrow> agent_panel \<Rightarrow> agent_panel" where
  "handleApprovePlan_reply t sid eager resp s =
     (let copy = update_last
             (\<lambda>m. with_steps (map complete_step) (fill_content
                (reply_text t ''agent:composer.planCompletedReasoning'' ''agent:composer.planCompletedDefault'' resp m) m))
             (ap_messages s);
          s1 = s\<lparr>ap_messages := copy\<rparr>
      in idle (if eager then call (CallSave sid copy) s1 else s1))"

definition handleApprovePlan_fail :: "translator \<Rightarrow> string \<Rightarrow> agent_panel \<Rightarrow> agent_panel" where
  "handleApprovePlan_fail t err s =
     idle (s\<lparr>ap_notice := t ''agent:composer.planFailed'' [(''error'', err)],
             ap_messages := update_last
               (\<lambda>m. with_steps (map fail_step) (fill_content (t ''agent:composer.execInterrupted'' [(''error'', err)]) m))
               (ap_messages s)\<rparr>)"

definition stop_executing :: "string \<Rightarrow> ai_message \<Rightarrow> ai_message" where
  "stop_executing planId m =
     m\<lparr>am_plan := map_option (\<lambda>p. if pl_id p = planId then p\<lparr>pl_executing := Some False\<rparr> else p) (am_plan m)\<rparr>"

definition handleCancelPlan :: "translator \<Rightarrow> string \<Rightarrow> bool \<Rightarrow> string \<Rightarrow> agent_panel \<Rightarrow> agent_panel" where
  \<comment> \<open>\<open>ok\<close>: the backend took the call\<close>
  "handleCancelPlan t sid ok planId s =
     (let s1 = call (CallCancel planId) s in
      if \<not> ok then s1
      else
        let copy = map (stop_executing planId) (ap_messages s)
        in call (CallSave sid copy)
             (s1\<lparr>ap_notice := t ''agent:composer.stopSignalSent'' [], ap_messages := copy\<rparr>))"

definition merge_step :: "plan_step \<Rightarrow> plan_step \<Rightarrow> plan_step" where
  \<comment> \<open>\<open>{ ...st, ...updated }\<close>: what the answer leaves out keeps its value\<close>
  "merge_step st u = u
     \<lparr>st_tool_name := nullish_opt (st_tool_name u) (st_tool_name st),
      st_args := (if st_args u = JUndef then st_args st else st_args u),
      st_depends_on := nullish_opt (st_depends_on u) (st_depends_on st),
      st_expected_out := nullish_opt (st_expected_out u) (st_expected_out st),
      st_exempted := nullish_opt (st_exempted u) (st_exempted st),
      st_duration_ms := nullish_opt (st_duration_ms u) (st_duration_ms st),
      st_error := nullish_opt (st_error u) (st_error st),
      st_output := (if st_output u = JUndef then st_output st else st_output u),
      st_verdict := nullish_opt (st_verdict u) (st_verdict st)\<rparr>"

definition retry_in :: "string \<Rightarrow> string \<Rightarrow> plan_step \<Rightarrow> ai_message \<Rightarrow> ai_message" where
  "retry_in planId stepId u m =
     m\<lparr>am_plan := map_option
        (\<lambda>p. if pl_id p = planId
              then p\<lparr>pl_steps := map_option (map (\<lambda>st. if st_id st = stepId then merge_step st u else st)) (pl_steps p)\<rparr>
              else p) (am_plan m)\<rparr>"

definition handleRetryPlanStep_begin :: "translator \<Rightarrow> string \<Rightarrow> string \<Rightarrow> agent_panel \<Rightarrow> agent_panel" where
  "handleRetryPlanStep_begin t planId stepId s =
     call (CallRetry planId stepId)
       (s\<lparr>ap_notice := t ''agent:composer.reExecutingStep'' [(''stepId'', stepId)]\<rparr>)"

definition handleRetryPlanStep_done ::
  "translator \<Rightarrow> string \<Rightarrow> string \<Rightarrow> string \<Rightarrow> string + plan_step \<Rightarrow> agent_panel \<Rightarrow> agent_panel" where
  "handleRetryPlanStep_done t sid planId stepId answer s =
     (case answer of
        Inl err \<Rightarrow> s\<lparr>ap_notice := t ''agent:composer.stepRetryFailed'' [(''error'', err)]\<rparr>
      | Inr u \<Rightarrow>
          (let copy = map (retry_in planId stepId u) (ap_messages s)
           in call (CallSave sid copy)
                (s\<lparr>ap_messages := copy,
                   ap_notice := t ''agent:composer.stepRetryCompleted'' [(''stepId'', stepId)]\<rparr>)))"

subsection \<open>Stopping\<close>

definition executing_plans :: "ai_message list \<Rightarrow> string list" where
  "executing_plans ms =
     concat (map (\<lambda>m. case am_plan m of
        None \<Rightarrow> [] | Some p \<Rightarrow> if pl_executing p = Some True then [pl_id p] else []) ms)"

definition handleStop :: "bool \<Rightarrow> ai_message list \<Rightarrow> string \<Rightarrow> agent_panel \<Rightarrow> agent_panel" where
  \<comment> \<open>\<open>ok\<close>: the backend took the call; then the messages and the session of the rendering that
      created the handler\<close>
  "handleStop ok msgs sid s =
     (let s1 = call (CallStop sid) s in
      if ok then idle (foldl (\<lambda>u i. call (CallCancel i) u) s1 (executing_plans msgs)) else s1)"

subsection \<open>Requests of the agent\<close>

definition resolve_step :: "translator \<Rightarrow> string \<Rightarrow> bool \<Rightarrow> string \<Rightarrow> process_step \<Rightarrow> process_step" where
  "resolve_step t confirmId approved reason st =
     (if ps_id st = confirmId \<or> (ps_type st = ToolStep \<and> ps_status st = Some Running)
      then st
        \<lparr>ps_status := Some (if approved then Running else Completed),
         ps_summary := Some
           (if approved then t ''agent:hitlModal.approvedExecuting'' []
            else t ''agent:hitlModal.rejectedExecution''
              [(''reason'', if reason = [] then [] else '' ('' @ t ''common:reason'' [] @ '': '' @ reason @ '')'')])\<rparr>
      else st)"

definition handleResolveHitl_begin :: "string \<Rightarrow> bool \<Rightarrow> string \<Rightarrow> agent_panel \<Rightarrow> agent_panel" where
  "handleResolveHitl_begin confirmId approved reason s =
     call (CallDecide confirmId approved reason)
       (s\<lparr>ap_hitl := (if map_option hq_confirm_id (ap_hitl s) = Some confirmId then None else ap_hitl s)\<rparr>)"

definition handleResolveHitl_decided :: "translator \<Rightarrow> string \<Rightarrow> bool \<Rightarrow> string \<Rightarrow> agent_panel \<Rightarrow> agent_panel" where
  \<comment> \<open>whether or not the backend took the decision\<close>
  "handleResolveHitl_decided t confirmId approved reason s =
     s\<lparr>ap_messages := update_last (map_steps (resolve_step t confirmId approved reason)) (ap_messages s)\<rparr>"

definition handleResolveHitl_next :: "string \<Rightarrow> agent_hitl_request list \<Rightarrow> agent_panel \<Rightarrow> agent_panel" where
  \<comment> \<open>the approvals that are pending, empty after a failure\<close>
  "handleResolveHitl_next confirmId pending s =
     (case find (\<lambda>q. hq_confirm_id q \<noteq> confirmId) pending of
        None \<Rightarrow> s | Some q \<Rightarrow> s\<lparr>ap_hitl := Some q\<rparr>)"

definition pending_on_mount :: "agent_hitl_request list \<Rightarrow> agent_panel \<Rightarrow> agent_panel" where
  "pending_on_mount pending s = (case pending of [] \<Rightarrow> s | q # _ \<Rightarrow> s\<lparr>ap_hitl := Some q\<rparr>)"

definition answers :: "translator \<Rightarrow> string \<Rightarrow> process_step \<Rightarrow> bool" where
  \<comment> \<open>the step that shows the question\<close>
  "answers t askId st \<longleftrightarrow>
     ps_id st = askId \<or> (includes_str (ps_title st) ''ask_user'' \<and> ps_status st = Some Running) \<or>
     (includes_str (ps_title st) (t ''agent:askUser.interactiveAsk'' []) \<and> ps_status st = Some Running)"

definition answer_summary :: "translator \<Rightarrow> string \<Rightarrow> string" where
  "answer_summary t answer =
     (if answer \<noteq> [] then t ''agent:askUser.answered'' [(''answer'', answer)] else t ''agent:askUser.canceled'' [])"

definition answer_steps :: "translator \<Rightarrow> int \<Rightarrow> string \<Rightarrow> string \<Rightarrow> process_step list \<Rightarrow> process_step list" where
  "answer_steps t now askId answer steps =
     map (\<lambda>st. if answers t askId st
                then st\<lparr>ps_status := Some Completed, ps_summary := Some (answer_summary t answer)\<rparr> else st) steps @
     (if list_ex (answers t askId) steps then []
      else [\<lparr>ps_id = ''ask_'' @ show_int now, ps_type = ToolStep,
             ps_title = t ''agent:askUser.interactiveAsk'' [],
             ps_summary = Some (answer_summary t answer), ps_content = [], ps_timestamp = now,
             ps_duration_ms = None, ps_status = Some Completed\<rparr>])"

definition handleAnswerAsk_begin :: "string \<Rightarrow> agent_panel \<Rightarrow> agent_panel \<times> string option" where
  \<comment> \<open>the result is the id of the question that is answered\<close>
  "handleAnswerAsk_begin answer s =
     (case ap_ask s of
        None \<Rightarrow> (s, None)
      | Some q \<Rightarrow> (call (CallAnswer (aq_ask_id q) answer) s, Some (aq_ask_id q)))"

definition handleAnswerAsk_done ::
  "translator \<Rightarrow> int \<Rightarrow> bool \<Rightarrow> string \<Rightarrow> string \<Rightarrow> agent_panel \<Rightarrow> agent_panel" where
  \<comment> \<open>\<open>ok\<close>: the backend took the answer\<close>
  "handleAnswerAsk_done t now ok askId answer s =
     (if \<not> ok then s
      else s\<lparr>ap_ask := None,
             ap_messages := update_last
               (\<lambda>m. m\<lparr>am_steps := map_option (answer_steps t now askId answer) (am_steps m)\<rparr>) (ap_messages s)\<rparr>)"

subsection \<open>Lemmas on the last message\<close>

lemma idle_simps [simp]:
  "ap_messages (idle s) = ap_messages s" "ap_session (idle s) = ap_session s" "ap_calls (idle s) = ap_calls s"
  "\<not> ap_generating (idle s)" "ap_reasoning (idle s) = []"
  by (simp_all add: idle_def)

lemma call_simps [simp]:
  "ap_messages (call c s) = ap_messages s" "ap_session (call c s) = ap_session s"
  "ap_calls (call c s) = ap_calls s @ [c]" "ap_generating (call c s) = ap_generating s"
  "ap_reasoning (call c s) = ap_reasoning s" "ap_pendingChat (call c s) = ap_pendingChat s"
  "ap_pendingReasoning (call c s) = ap_pendingReasoning s"
  by (simp_all add: call_def)

lemma update_last_eq:
  "update_last f ms = earlier ms @ (case last_assistant ms of None \<Rightarrow> [] | Some m \<Rightarrow> [f m])"
  by (cases ms rule: rev_cases) (auto simp: update_last_def earlier_def last_assistant_def)

lemma update_last_snoc: "am_role m = RoleAssistant \<Longrightarrow> update_last f (xs @ [m]) = xs @ [f m]"
  by (simp add: update_last_eq earlier_def last_assistant_def)

lemma last_update_last:
  assumes "\<And>m. am_role (f m) = am_role m"
  shows "last_assistant (update_last f ms) = map_option f (last_assistant ms)"
    and "earlier (update_last f ms) = earlier ms"
  using assms
  by (cases ms rule: rev_cases; simp add: update_last_eq earlier_def last_assistant_def split: option.split)+

lemma parts: "ms = earlier ms @ (case last_assistant ms of None \<Rightarrow> [] | Some m \<Rightarrow> [m])"
  by (cases ms rule: rev_cases) (auto simp: earlier_def last_assistant_def)

lemma fill_simps [simp]:
  "am_role (fill_content c m) = am_role m" "am_role (map_steps f m) = am_role m"
  "am_content (fill_content c m) = str_or (am_content m) c" "am_content (map_steps f m) = am_content m"
  "am_steps (fill_content c m) = am_steps m" "am_reasoning (fill_content c m) = am_reasoning m"
  by (simp_all add: fill_content_def map_steps_def str_or_def)

lemma steps_map_steps [simp]: "steps_of (map_steps f m) = map f (steps_of m)"
  by (simp add: steps_of_def map_steps_def nullish_def split: option.split)

lemma no_running [simp]:
  "filter (\<lambda>st. ps_status st = Some Running) (map complete_step sts) = []"
  "filter (\<lambda>st. ps_status st = Some Running) (map fail_step sts) = []"
  by (auto simp: filter_empty_conv complete_step_def fail_step_def)

subsection \<open>Sending\<close>

text \<open>
  Pressing send asks the agent with the whole conversation: when there is something to send, the
  question is appended to the messages, the backend receives exactly the messages up to the question
  without the empty answer shown below it, the composer is emptied, and until the answer comes
  pressing send again does nothing.
\<close>

theorem send_asks_once:
  assumes "handleSend_begin now s = (u, Some r)"
  shows "earlier (ap_messages u) = ap_messages s @ [user_message now (request_text r) (ap_images s)] \<and>
    map_option am_content (last_assistant (ap_messages u)) = Some [] \<and>
    ap_calls u = ap_calls s @ (case r of
      SendPlan objective \<Rightarrow> [CallSave (ap_session s) (earlier (ap_messages u)), CallPropose (ap_session s) objective]
    | _ \<Rightarrow> [CallSend (ap_session s) (earlier (ap_messages u))]) \<and>
    ap_input u = [] \<and> ap_images u = [] \<and> handleSend_begin now' u = (u, None) \<and>
    handleSend_begin now' (u\<lparr>ap_input := x\<rparr>) = (u\<lparr>ap_input := x\<rparr>, None)"
proof -
  define asked where "asked = ap_messages s @ [user_message now (request_text r) (ap_images s)]"
  define s1 where "s1 = s\<lparr>ap_messages := asked @ [new_assistant now], ap_input := [], ap_images := [],
                      ap_command := None, ap_generating := True, ap_reasoning := [], ap_notice := []\<rparr>"
  have "send_request_of s = Some r"
    using assms by (simp add: handleSend_begin_def Let_def split: option.splits)
  with assms have u: "u = (case r of
      SendPlan objective \<Rightarrow> call (CallPropose (ap_session s) objective) (call (CallSave (ap_session s) asked) s1)
    | _ \<Rightarrow> call (CallSend (ap_session s) asked) s1)"
    by (cases r) (simp_all add: handleSend_begin_def Let_def asked_def s1_def)
  have last: "earlier (asked @ [new_assistant now]) = asked" "last_assistant (asked @ [new_assistant now]) = Some (new_assistant now)"
    by (simp_all add: earlier_def last_assistant_def)
  have busy: "ap_generating u" "ap_messages u = asked @ [new_assistant now]" "ap_input u = []" "ap_images u = []"
    by (cases r; simp add: u s1_def call_def)+
  have quiet: "handleSend_begin now' v = (v, None)" if "ap_generating v" for v
    using that by (simp add: handleSend_begin_def send_request_of_def Let_def)
  have "ap_calls u = ap_calls s @ (case r of
      SendPlan objective \<Rightarrow> [CallSave (ap_session s) asked, CallPropose (ap_session s) objective]
    | _ \<Rightarrow> [CallSend (ap_session s) asked])"
    by (cases r) (simp_all add: u s1_def)
  then show ?thesis
    using busy quiet last unfolding busy(2) last(1) by (simp add: asked_def [symmetric])
qed

definition demo_panel :: agent_panel where
  "demo_panel = (initialPanel ''s'' None)\<lparr>ap_input := ''hi'', ap_messages := [plain_message RoleUser ''q'']\<rparr>"

lemma demo_panel_simps [simp]:
  "ap_input demo_panel = ''hi''" "ap_images demo_panel = []" "ap_messages demo_panel = [plain_message RoleUser ''q'']"
  "ap_generating demo_panel = False" "ap_command demo_panel = None" "ap_session demo_panel = ''s''"
  "ap_calls demo_panel = []"
  by (simp_all add: demo_panel_def initialPanel_def)

lemma demo_request: "send_request_of demo_panel = Some (SendChat ''hi'')"
proof -
  have "trim ''hi'' = ''hi''" "\<not> has_command ''/plan'' ''hi''" "\<not> has_command ''/grill-me'' ''hi''"
    by code_simp+
  then show ?thesis by (simp add: send_request_of_def)
qed

lemma demo_send: "\<exists>u. handleSend_begin 7 demo_panel = (u, Some (SendChat ''hi''))"
  by (simp add: handleSend_begin_def demo_request Let_def)

theorem send_asks_once_witness:
  "ap_calls (fst (handleSend_begin 7 demo_panel)) =
     [CallSend ''s'' [plain_message RoleUser ''q'', user_message 7 ''hi'' []]]"
proof -
  obtain u where u: "handleSend_begin 7 demo_panel = (u, Some (SendChat ''hi''))" using demo_send by blast
  from send_asks_once [OF u] show ?thesis by (simp add: u)
qed

definition settled :: "agent_panel \<Rightarrow> ai_message \<Rightarrow> agent_panel \<Rightarrow> bool" where
  \<comment> \<open>idle, with an answer that has a text and no running step; what \<open>m\<close> already said is kept, and so
      are the earlier messages\<close>
  "settled s m u \<longleftrightarrow>
     \<not> ap_generating u \<and> earlier (ap_messages u) = earlier (ap_messages s) \<and>
     (case last_assistant (ap_messages u) of
        None \<Rightarrow> False
      | Some m' \<Rightarrow> am_content m' \<noteq> [] \<and> (am_content m = [] \<or> am_content m' = am_content m) \<and>
          filter (\<lambda>st. ps_status st = Some Running) (steps_of m') = [])"

lemma settledI:
  assumes "\<not> ap_generating u" and "ap_messages u = update_last f (ap_messages s)"
    and "last_assistant (ap_messages s) = Some m"
    and "\<And>m. am_role (f m) = am_role m" and "\<And>m. am_content (f m) = str_or (am_content m) (c m)"
    and "c m \<noteq> []" and "\<And>m. filter (\<lambda>st. ps_status st = Some Running) (steps_of (f m)) = []"
  shows "settled s m u"
  using assms by (simp add: settled_def last_update_last str_or_def)

lemma reply_text_nonempty: "(\<And>k ps. t k ps \<noteq> []) \<Longrightarrow> reply_text t a b resp m \<noteq> []"
  by (simp add: reply_text_def str_or_def)

text \<open>
  Every way a chat ends gives an answer on screen: after the reply or the failure, of a message
  or of an approved plan, the panel is idle, the last message has a text (the translations are not
  empty), and none of its steps runs; what was streamed before is kept, and the earlier messages
  are untouched.
\<close>

theorem reply_settles:
  assumes "\<And>k ps. t k ps \<noteq> []" and "last_assistant (ap_messages s) = Some m"
  shows "settled s m (handleSend_reply t sid r resp s) \<and> settled s m (handleSend_fail t err s) \<and>
    settled s m (handleApprovePlan_reply t sid eager resp s) \<and> settled s m (handleApprovePlan_fail t err s)"
proof (intro conjI)
  note texts = reply_text_nonempty [of t, OF assms(1)] assms(1)
  show "settled s m (handleSend_reply t sid r resp s)"
    by (rule settledI [OF _ _ assms(2), where f = "\<lambda>m. map_steps complete_step (fill_content (reply_text t (fst (reply_keys r)) (snd (reply_keys r)) resp m) m)"
          and c = "\<lambda>m. reply_text t (fst (reply_keys r)) (snd (reply_keys r)) resp m"]) (simp_all add: handleSend_reply_def Let_def texts)
  show "settled s m (handleSend_fail t err s)"
    by (rule settledI [OF _ _ assms(2), where f = "\<lambda>m. map_steps fail_step (fill_content (t ''agent:composer.execInterrupted'' [(''error'', err)]) m)"
          and c = "\<lambda>m. t ''agent:composer.execInterrupted'' [(''error'', err)]"]) (simp_all add: handleSend_fail_def Let_def texts)
  show "settled s m (handleApprovePlan_reply t sid eager resp s)"
    by (rule settledI [OF _ _ assms(2), where f = "\<lambda>m. with_steps (map complete_step) (fill_content (reply_text t ''agent:composer.planCompletedReasoning'' ''agent:composer.planCompletedDefault'' resp m) m)"
          and c = "\<lambda>m. reply_text t ''agent:composer.planCompletedReasoning'' ''agent:composer.planCompletedDefault'' resp m"]) (simp_all add: handleApprovePlan_reply_def Let_def texts)
  show "settled s m (handleApprovePlan_fail t err s)"
    by (rule settledI [OF _ _ assms(2), where f = "\<lambda>m. with_steps (map fail_step) (fill_content (t ''agent:composer.execInterrupted'' [(''error'', err)]) m)"
          and c = "\<lambda>m. t ''agent:composer.execInterrupted'' [(''error'', err)]"]) (simp_all add: handleApprovePlan_fail_def Let_def texts)
qed

theorem reply_settles_witness:
  "settled (demo_panel\<lparr>ap_messages := [new_assistant 7]\<rparr>) (new_assistant 7)
     (handleSend_reply (\<lambda>k _. k @ ''.'') ''s'' (SendChat ''hi'') [] (demo_panel\<lparr>ap_messages := [new_assistant 7]\<rparr>))"
proof -
  have l: "last_assistant (ap_messages (demo_panel\<lparr>ap_messages := [new_assistant 7]\<rparr>)) = Some (new_assistant 7)"
    by (simp add: last_assistant_def assistant_last_def last_opt_def)
  from reply_settles [of "\<lambda>k _. k @ ''.''", OF _ l] show ?thesis by simp
qed

subsection \<open>Plans\<close>

lemma expire_earlier_snoc:
  "expire_earlier (xs @ [x]) = map (\<lambda>m. if unapproved m then expire m else m) xs @ [x]"
  by (rule nth_equalityI) (auto simp: expire_earlier_def nth_append)

lemma live_expired [simp]: "\<not> live (if unapproved m then expire m else m)"
  using unapproved_expire [of m] by (auto simp: live_def)

lemma with_plan_simps [simp]:
  "am_role (with_plan t plan m) = am_role m" "live (with_plan t plan m)"
  "am_plan (with_plan t plan m) = Some (plan\<lparr>pl_status := Some ''proposed''\<rparr>)"
  by (simp_all add: with_plan_def map_steps_def live_def unapproved_def Let_def)

lemma filter_none [simp]: "(\<And>x. \<not> P (f x)) \<Longrightarrow> filter P (map f xs) = []"
  by (simp add: filter_empty_conv)

lemma approved_kept:
  "filter (\<lambda>m. \<not> unapproved m) (map (\<lambda>m. if unapproved m then expire m else m) xs) =
   filter (\<lambda>m. \<not> unapproved m) xs"
  using unapproved_expire by (induction xs) auto

text \<open>
  A proposed plan replaces the ones before it: after the backend has answered a plan request,
  the only plan that can be approved is the new one, in the last message; approved plans stay, and
  the saved messages are the ones on screen.
\<close>

theorem plan_answer_one_live:
  assumes "last_assistant (ap_messages s) = Some m"
  shows "let u = handleSend_plan t sid plan s in
    filter live (ap_messages u) = [with_plan t plan m] \<and> last (ap_messages u) = with_plan t plan m \<and>
    filter (\<lambda>m. \<not> unapproved m) (earlier (ap_messages u)) = filter (\<lambda>m. \<not> unapproved m) (earlier (ap_messages s)) \<and>
    ap_calls u = ap_calls s @ [CallSave sid (ap_messages u)] \<and> \<not> ap_generating u"
proof -
  obtain xs where xs: "ap_messages s = xs @ [m]" "am_role m = RoleAssistant"
    using assms by (cases "ap_messages s" rule: rev_cases) (auto simp: last_assistant_def split: if_splits)
  have "ap_messages (handleSend_plan t sid plan s) =
      map (\<lambda>m. if unapproved m then expire m else m) xs @ [with_plan t plan m]"
    using xs(2) by (simp add: handleSend_plan_def xs(1) expire_earlier_snoc update_last_snoc Let_def)
  then show ?thesis
    using xs by (simp add: Let_def earlier_def approved_kept) (simp add: handleSend_plan_def Let_def)
qed

definition demo_plan :: "string \<Rightarrow> agent_plan" where
  "demo_plan i =
     \<lparr>pl_id = i, pl_session_id = ''s'', pl_objective = [], pl_content = [], pl_file_path = None,
      pl_status = None, pl_is_update = None, pl_steps = None, pl_risk_level = None, pl_need_confirm = None,
      pl_executing = None, pl_summary = None, pl_reasoning_content = None, pl_created_at = 0\<rparr>"

theorem plan_answer_one_live_witness:
  "let old = (new_assistant 1)\<lparr>am_plan := Some (demo_plan ''old'')\<rparr>;
       s = demo_panel\<lparr>ap_messages := [old, new_assistant 7]\<rparr>
   in live old \<and>
      filter live (ap_messages (handleSend_plan (\<lambda>k _. k) ''s'' (demo_plan ''p'') s)) =
        [with_plan (\<lambda>k _. k) (demo_plan ''p'') (new_assistant 7)]"
proof -
  let ?old = "(new_assistant 1)\<lparr>am_plan := Some (demo_plan ''old'')\<rparr>"
  let ?s = "demo_panel\<lparr>ap_messages := [?old, new_assistant 7]\<rparr>"
  have "last_assistant (ap_messages ?s) = Some (new_assistant 7)"
    by (simp add: last_assistant_def assistant_last_def last_opt_def)
  from plan_answer_one_live [OF this, of "\<lambda>k _. k" "''s''" "demo_plan ''p''"]
  show ?thesis by (simp add: Let_def live_def unapproved_def demo_plan_def)
qed

text \<open>
  An approval settles all plans: after it no plan can be approved any more, the one approved has
  that status, and the text of no message changes; while the agent works the approval does nothing.
\<close>

theorem approval_settles_plans:
  "let u = handleApprovePlan_begin eager planId s in
    (ap_generating s \<and> u = s \<or>
     filter live (ap_messages u) = [] \<and>
     filter (\<lambda>p. pl_id p = planId \<and> pl_status p \<noteq> Some ''approved'')
       (concat (map (\<lambda>m. case am_plan m of None \<Rightarrow> [] | Some p \<Rightarrow> [p]) (ap_messages u))) = []) \<and>
    map am_content (ap_messages u) = map am_content (ap_messages s)"
proof -
  have content: "am_content (approve planId m) = am_content m" for m
    by (simp add: approve_def split: option.split)
  have live: "\<not> live (approve planId m)" for m
    by (auto simp: approve_def live_def unapproved_def split: option.splits)
  have status: "filter (\<lambda>p. pl_id p = planId \<and> pl_status p \<noteq> Some ''approved'')
      (concat (map (\<lambda>m. case am_plan m of None \<Rightarrow> [] | Some p \<Rightarrow> [p]) (map (approve planId) ms))) = []" for ms
    by (induction ms) (auto simp: approve_def split: option.splits)
  show ?thesis
    using content live status [of "ap_messages s"]
    by (simp add: handleApprovePlan_begin_def Let_def comp_def)
qed

text \<open>
  The approval may send nothing. When React has not run the updater that collects the messages
  by the time \<open>setMessages\<close> returns, as it does not when other updates of the component are pending,
  the agent is started with an empty conversation, while the screen shows the question.
\<close>

theorem approval_sends_nothing:
  "let u = handleApprovePlan_run t sid now False s in
    ap_calls u = ap_calls s @ [CallSend sid []] \<and> ap_generating u \<and>
    earlier (ap_messages u) = ap_messages s @ [user_message now (t ''agent:composer.approvedPlan'' []) []]"
proof -
  define asked where "asked = ap_messages s @ [user_message now (t ''agent:composer.approvedPlan'' []) []]"
  have "earlier (asked @ [new_assistant now]) = asked" by (simp add: earlier_def)
  then show ?thesis
    unfolding handleApprovePlan_run_def Let_def asked_def [symmetric] by (simp add: setActiveMode_def)
qed

subsection \<open>Replies after a change of the session\<close>

text \<open>
  C40: a reply that comes after a change of the session destroys a history. When a question was sent
  in session \<open>a\<close> and the user has gone on to session \<open>b\<close>, the reply changes the last answer shown
  for \<open>b\<close>, and the messages of \<open>b\<close> are saved as those of \<open>a\<close>.
\<close>

theorem late_reply_overwrites_history:
  assumes "handleSend_begin now s = (s1, Some (SendChat q))" and "b \<noteq> ap_session s"
  shows "let s2 = (change_session t now' b s1)\<lparr>ap_messages := hist_b\<rparr>;
             u = handleSend_reply t (ap_session s) (SendChat q) resp s2
    in ap_session u = b \<and> length (ap_messages u) = length hist_b \<and>
       last (ap_calls u) = CallSave (ap_session s) (ap_messages u) \<and> earlier (ap_messages u) = earlier hist_b"
proof -
  have "ap_session s1 = ap_session s"
    using assms(1) by (auto simp: handleSend_begin_def Let_def split: option.splits send_request.splits)
  then show ?thesis
    using assms(2) by (simp add: handleSend_reply_def change_session_def Let_def last_update_last)
      (simp add: update_last_def)
qed

theorem late_reply_overwrites_history_witness:
  "let s2 = (change_session (\<lambda>k _. k) 8 ''b'' (fst (handleSend_begin 7 demo_panel)))
              \<lparr>ap_messages := [plain_message RoleUser ''of b'']\<rparr>;
       u = handleSend_reply (\<lambda>k _. k) ''s'' (SendChat ''hi'') ''ok'' s2
   in ap_session u = ''b'' \<and> last (ap_calls u) = CallSave ''s'' (ap_messages u)"
proof -
  obtain s1 where s1: "handleSend_begin 7 demo_panel = (s1, Some (SendChat ''hi''))" using demo_send by blast
  have "''b'' \<noteq> ap_session demo_panel" by simp
  note late = late_reply_overwrites_history [OF s1 this, where t = "\<lambda>k _. k" and now' = 8
      and hist_b = "[plain_message RoleUser ''of b'']" and resp = "''ok''"]
  show ?thesis using late unfolding s1 Let_def fst_conv demo_panel_simps by blast
qed

subsection \<open>Requests of the agent\<close>

text \<open>
  Deciding one request decides for all: the decision on the request \<open>i\<close> is written to every tool
  step of the last answer that runs, so after a refusal no tool is shown as running although only
  one was refused.
\<close>

theorem refusal_ends_all_tools:
  assumes "last_assistant (ap_messages s) = Some m"
  shows "let u = handleResolveHitl_decided t i False reason s in
    \<exists>m'. last_assistant (ap_messages u) = Some m' \<and> map ps_id (steps_of m') = map ps_id (steps_of m) \<and>
      filter (\<lambda>st. ps_type st = ToolStep \<and> ps_status st = Some Running) (steps_of m') = []"
proof -
  have "filter (\<lambda>st. ps_type st = ToolStep \<and> ps_status st = Some Running) (map (resolve_step t i False reason) sts) = []"
    for sts by (auto simp: filter_empty_conv resolve_step_def)
  moreover have "map ps_id (map (resolve_step t i False reason) sts) = map ps_id sts" for sts
    by (simp add: resolve_step_def)
  ultimately show ?thesis
    using assms by (simp add: handleResolveHitl_decided_def Let_def last_update_last del: map_map)
qed

theorem refusal_ends_all_tools_witness:
  "let st = \<lparr>ps_id = ''x'', ps_type = ToolStep, ps_title = ''ls'', ps_summary = None, ps_content = [],
         ps_timestamp = 1, ps_duration_ms = None, ps_status = Some Running\<rparr>;
       m = (new_assistant 1)\<lparr>am_steps := Some [st]\<rparr>;
       u = handleResolveHitl_decided (\<lambda>k _. k) ''other'' False [] (demo_panel\<lparr>ap_messages := [m]\<rparr>)
   in ps_status st = Some Running \<and> map_option (\<lambda>m. filter (\<lambda>st. ps_type st = ToolStep \<and> ps_status st = Some Running)
        (steps_of m)) (last_assistant (ap_messages u)) = Some []"
proof -
  define st where "st = \<lparr>ps_id = ''x'', ps_type = ToolStep, ps_title = ''ls'', ps_summary = None, ps_content = [],
         ps_timestamp = 1, ps_duration_ms = None, ps_status = Some Running\<rparr>"
  define s where "s = demo_panel\<lparr>ap_messages := [(new_assistant 1)\<lparr>am_steps := Some [st]\<rparr>]\<rparr>"
  have l: "last_assistant (ap_messages s) = Some ((new_assistant 1)\<lparr>am_steps := Some [st]\<rparr>)"
    by (simp add: s_def last_assistant_def assistant_last_def last_opt_def)
  from refusal_ends_all_tools [OF l, of "\<lambda>k _. k" "''other''" "[]"]
  have "map_option (\<lambda>m. filter (\<lambda>st. ps_type st = ToolStep \<and> ps_status st = Some Running) (steps_of m))
      (last_assistant (ap_messages (handleResolveHitl_decided (\<lambda>k _. k) ''other'' False [] s))) = Some []"
    by (auto simp: Let_def)
  then show ?thesis unfolding s_def st_def by simp
qed

subsection \<open>A whole round\<close>

lemma earlier_asked [simp]: "earlier (xs @ [new_assistant now]) = xs" "last_assistant (xs @ [new_assistant now]) = Some (new_assistant now)"
  by (simp_all add: earlier_def last_assistant_def)



end
