(* ===== verification/Md5.thy ===== *)
theory Md5
  imports Prelude "HOL-Library.Word"
begin

unbundle bit_operations_syntax

section \<open>The MD5 tool\<close>

text \<open>
  \<open>utils/md5.ts\<close>: the hash of the developer tools. A number that the code keeps within 32 bits by
  \<open>& 0xffffffff\<close>, a shift or a bitwise operation is a word of 32 bits; a sum of such numbers is exact
  in a double, so wrapping at each step is what the code does. A string is the list of its UTF-16
  code units. The second half has the algorithm of RFC 1321 as a loop over its tables, to compare.
\<close>

type_synonym u32 = "32 word"
type_synonym utf16 = "16 word list"
type_synonym md5_state = "u32 \<times> u32 \<times> u32 \<times> u32"

subsection \<open>One block\<close>

definition add32 :: "u32 \<Rightarrow> u32 \<Rightarrow> u32" where
  "add32 a b = a + b"

definition rotate :: "nat \<Rightarrow> u32 \<Rightarrow> u32" where
  "rotate s a = push_bit s a OR drop_bit (32 - s) a"

definition cmn :: "u32 \<Rightarrow> u32 \<Rightarrow> u32 \<Rightarrow> u32 \<Rightarrow> nat \<Rightarrow> u32 \<Rightarrow> u32" where
  "cmn q a b x s t = add32 (rotate s (add32 (add32 a q) (add32 x t))) b"

type_synonym md5_fun = "u32 \<Rightarrow> u32 \<Rightarrow> u32 \<Rightarrow> u32 \<Rightarrow> u32 \<Rightarrow> nat \<Rightarrow> u32 \<Rightarrow> u32"

definition ff :: md5_fun where
  "ff a b c d x s t = cmn ((b AND c) OR (NOT b AND d)) a b x s t"

definition gg :: md5_fun where
  "gg a b c d x s t = cmn ((b AND d) OR (c AND NOT d)) a b x s t"

definition hh :: md5_fun where
  "hh a b c d x s t = cmn (b XOR c XOR d) a b x s t"

definition ii :: md5_fun where
  "ii a b c d x s t = cmn (c XOR (b OR NOT d)) a b x s t"

text \<open>The lines of \<open>cycle\<close>: \<open>a = f(a, b, c, d, k[i], s, t)\<close>, \<open>d = f(d, a, b, c, k[i], s, t)\<close> and so on.\<close>

type_synonym md5_line = "u32 list \<Rightarrow> md5_state \<Rightarrow> md5_state"

definition set_a :: "md5_fun \<Rightarrow> nat \<Rightarrow> nat \<Rightarrow> u32 \<Rightarrow> md5_line" where
  "set_a f i s t k = (\<lambda>(a, b, c, d). (f a b c d (k ! i) s t, b, c, d))"

definition set_d :: "md5_fun \<Rightarrow> nat \<Rightarrow> nat \<Rightarrow> u32 \<Rightarrow> md5_line" where
  "set_d f i s t k = (\<lambda>(a, b, c, d). (a, b, c, f d a b c (k ! i) s t))"

definition set_c :: "md5_fun \<Rightarrow> nat \<Rightarrow> nat \<Rightarrow> u32 \<Rightarrow> md5_line" where
  "set_c f i s t k = (\<lambda>(a, b, c, d). (a, b, f c d a b (k ! i) s t, d))"

definition set_b :: "md5_fun \<Rightarrow> nat \<Rightarrow> nat \<Rightarrow> u32 \<Rightarrow> md5_line" where
  "set_b f i s t k = (\<lambda>(a, b, c, d). (a, f b c d a (k ! i) s t, c, d))"

definition cycle_lines :: "md5_line list" where
  "cycle_lines =
    [set_a ff 0 7 (- 680876936), set_d ff 1 12 (- 389564586),
     set_c ff 2 17 606105819, set_b ff 3 22 (- 1044525330),
     set_a ff 4 7 (- 176418897), set_d ff 5 12 1200080426,
     set_c ff 6 17 (- 1473231341), set_b ff 7 22 (- 45705983),
     set_a ff 8 7 1770035416, set_d ff 9 12 (- 1958414417),
     set_c ff 10 17 (- 42063), set_b ff 11 22 (- 1990404162),
     set_a ff 12 7 1804603682, set_d ff 13 12 (- 40341101),
     set_c ff 14 17 (- 1502002290), set_b ff 15 22 1236535329,
     set_a gg 1 5 (- 165796510), set_d gg 6 9 (- 1069501632),
     set_c gg 11 14 643717713, set_b gg 0 20 (- 373897302),
     set_a gg 5 5 (- 701558691), set_d gg 10 9 38016083,
     set_c gg 15 14 (- 660478335), set_b gg 4 20 (- 405537848),
     set_a gg 9 5 568446438, set_d gg 14 9 (- 1019803690),
     set_c gg 3 14 (- 187363961), set_b gg 8 20 1163531501,
     set_a gg 13 5 (- 1444681467), set_d gg 2 9 (- 51403784),
     set_c gg 7 14 1735328473, set_b gg 12 20 (- 1926607734),
     set_a hh 5 4 (- 378558), set_d hh 8 11 (- 2022574463),
     set_c hh 11 16 1839030562, set_b hh 14 23 (- 35309556),
     set_a hh 1 4 (- 1530992060), set_d hh 4 11 1272893353,
     set_c hh 7 16 (- 155497632), set_b hh 10 23 (- 1094730640),
     set_a hh 13 4 681279174, set_d hh 0 11 (- 358537222),
     set_c hh 3 16 (- 722521979), set_b hh 6 23 76029189,
     set_a hh 9 4 (- 640364487), set_d hh 12 11 (- 421815835),
     set_c hh 15 16 530742520, set_b hh 2 23 (- 995338651),
     set_a ii 0 6 (- 198630844), set_d ii 7 10 1126891415,
     set_c ii 14 15 (- 1416354905), set_b ii 5 21 (- 57434055),
     set_a ii 12 6 1700485571, set_d ii 3 10 (- 1894986606),
     set_c ii 10 15 (- 1051523), set_b ii 1 21 (- 2054922799),
     set_a ii 8 6 1873313359, set_d ii 15 10 (- 30611744),
     set_c ii 6 15 (- 1560198380), set_b ii 13 21 1309151649,
     set_a ii 4 6 (- 145523070), set_d ii 11 10 (- 1120210379),
     set_c ii 2 15 718787259, set_b ii 9 21 (- 343485551)]"

definition add4 :: "md5_state \<Rightarrow> md5_state \<Rightarrow> md5_state" where
  "add4 x y = (case x of (a, b, c, d) \<Rightarrow> case y of (a', b', c', d') \<Rightarrow>
     (add32 a a', add32 b b', add32 c c', add32 d d'))"

definition cycle :: "md5_state \<Rightarrow> u32 list \<Rightarrow> md5_state" where
  \<comment> \<open>the new value of \<open>x\<close>\<close>
  "cycle x k = add4 (foldl (\<lambda>st line. line k st) x cycle_lines) x"

subsection \<open>Bytes\<close>

fun toBytesUTF8 :: "utf16 \<Rightarrow> u32 list" where
  "toBytesUTF8 [] = []"
| "toBytesUTF8 (u # us) =
     (let c = ucast u :: u32 in
      if c < 0x80 then c # toBytesUTF8 us
      else if c < 0x800 then [0xC0 OR drop_bit 6 c, 0x80 OR (c AND 0x3F)] @ toBytesUTF8 us
      else if 0xD800 \<le> c \<and> c \<le> 0xDBFF \<and> us \<noteq> [] then
        (let c2 = ucast (hd us) :: u32;
             cp = 0x10000 + push_bit 10 (c AND 0x3FF) + (c2 AND 0x3FF)
         in [0xF0 OR drop_bit 18 cp, 0x80 OR (drop_bit 12 cp AND 0x3F),
             0x80 OR (drop_bit 6 cp AND 0x3F), 0x80 OR (cp AND 0x3F)] @ toBytesUTF8 (tl us))
      else [0xE0 OR drop_bit 12 c, 0x80 OR (drop_bit 6 c AND 0x3F), 0x80 OR (c AND 0x3F)] @ toBytesUTF8 us)"

function pad_zeros :: "u32 list \<Rightarrow> u32 list" where
  \<comment> \<open>\<open>while (bytes.length % 64 !== 56) bytes.push(0)\<close>\<close>
  "pad_zeros bytes = (if length bytes mod 64 = 56 then bytes else pad_zeros (bytes @ [0]))"
  by pat_completeness auto

definition to_fill :: "nat \<Rightarrow> nat" where
  \<comment> \<open>how many zeros are missing\<close>
  "to_fill n = (if n mod 64 \<le> 56 then 56 - n mod 64 else 120 - n mod 64)"

lemma to_fill_Suc: "n mod 64 \<noteq> 56 \<Longrightarrow> to_fill n = Suc (to_fill (Suc n))"
proof -
  assume n: "n mod 64 \<noteq> 56"
  have "n mod 64 < 64" by simp
  with n show ?thesis by (auto simp: to_fill_def mod_Suc)
qed

termination pad_zeros
  by (relation "measure (\<lambda>bytes. to_fill (length bytes))") (auto simp: to_fill_Suc)

declare pad_zeros.simps [simp del]

definition length_field :: "nat \<Rightarrow> u32 list" where
  "length_field origLen =
     (let bitLen = of_nat (origLen * 8) :: u32 in
      [bitLen AND 0xFF, drop_bit 8 bitLen AND 0xFF, drop_bit 16 bitLen AND 0xFF,
       drop_bit 24 bitLen AND 0xFF, 0, 0, 0, 0])"

definition padded :: "u32 list \<Rightarrow> u32 list" where
  "padded bytes = pad_zeros (bytes @ [0x80]) @ length_field (length bytes)"

definition le_word :: "u32 list \<Rightarrow> nat \<Rightarrow> u32" where
  "le_word bytes p =
     bytes ! p OR push_bit 8 (bytes ! (p + 1)) OR push_bit 16 (bytes ! (p + 2)) OR push_bit 24 (bytes ! (p + 3))"

definition block_words :: "u32 list \<Rightarrow> nat \<Rightarrow> u32 list" where
  "block_words bytes i = map (\<lambda>j. le_word bytes (i + j * 4)) [0..<16]"

subsection \<open>The hash\<close>

definition hex_char16 :: "nat \<Rightarrow> char" where
  "hex_char16 n = ''0123456789abcdef'' ! n"

fun show_hex :: "nat \<Rightarrow> string" where
  \<comment> \<open>\<open>n.toString(16)\<close>\<close>
  "show_hex n = (if n < 16 then [hex_char16 n] else show_hex (n div 16) @ [hex_char16 (n mod 16)])"

declare show_hex.simps [simp del]

definition padStart :: "nat \<Rightarrow> char \<Rightarrow> string \<Rightarrow> string" where
  "padStart n c s = replicate (n - length s) c @ s"

definition hex :: "u32 \<Rightarrow> string" where
  "hex n = concat (map (\<lambda>i. padStart 2 (CHR ''0'') (show_hex (unat (drop_bit (i * 8) n AND 0xFF)))) [0..<4])"

definition md5_init :: md5_state where
  "md5_init = (0x67452301, 0xEFCDAB89, 0x98BADCFE, 0x10325476)"

definition md5_block :: "u32 list \<Rightarrow> md5_state \<Rightarrow> nat \<Rightarrow> md5_state" where
  \<comment> \<open>the body of the loop: \<open>cycle\<close> changes \<open>state\<close>, and \<open>prev\<close> is added to the result\<close>
  "md5_block bytes state i = add4 (cycle state (block_words bytes i)) state"

definition block_starts :: "u32 list \<Rightarrow> nat list" where
  \<comment> \<open>\<open>for (let i = 0; i < bytes.length; i += 64)\<close>\<close>
  "block_starts bytes = map (\<lambda>n. 64 * n) [0..<(length bytes + 63) div 64]"

definition md5_digest :: "md5_state \<Rightarrow> string" where
  "md5_digest st = (case st of (a, b, c, d) \<Rightarrow> hex a @ hex b @ hex c @ hex d)"

definition md5 :: "utf16 \<Rightarrow> bool \<Rightarrow> string" where
  "md5 input upper =
     (let bytes = padded (toBytesUTF8 input);
          out = md5_digest (foldl (md5_block bytes) md5_init (block_starts bytes))
      in if upper then to_upper out else out)"

subsection \<open>RFC 1321\<close>

definition md5_T :: "u32 list" where
  "md5_T =
    [0xd76aa478, 0xe8c7b756, 0x242070db, 0xc1bdceee, 0xf57c0faf, 0x4787c62a, 0xa8304613,
     0xfd469501, 0x698098d8, 0x8b44f7af, 0xffff5bb1, 0x895cd7be, 0x6b901122, 0xfd987193,
     0xa679438e, 0x49b40821, 0xf61e2562, 0xc040b340, 0x265e5a51, 0xe9b6c7aa, 0xd62f105d,
     0x02441453, 0xd8a1e681, 0xe7d3fbc8, 0x21e1cde6, 0xc33707d6, 0xf4d50d87, 0x455a14ed,
     0xa9e3e905, 0xfcefa3f8, 0x676f02d9, 0x8d2a4c8a, 0xfffa3942, 0x8771f681, 0x6d9d6122,
     0xfde5380c, 0xa4beea44, 0x4bdecfa9, 0xf6bb4b60, 0xbebfbc70, 0x289b7ec6, 0xeaa127fa,
     0xd4ef3085, 0x04881d05, 0xd9d4d039, 0xe6db99e5, 0x1fa27cf8, 0xc4ac5665, 0xf4292244,
     0x432aff97, 0xab9423a7, 0xfc93a039, 0x655b59c3, 0x8f0ccc92, 0xffeff47d, 0x85845dd1,
     0x6fa87e4f, 0xfe2ce6e0, 0xa3014314, 0x4e0811a1, 0xf7537e82, 0xbd3af235, 0x2ad7d2bb,
     0xeb86d391]"

definition md5_shift :: "nat \<Rightarrow> nat" where
  "md5_shift i = [[7, 12, 17, 22], [5, 9, 14, 20], [4, 11, 16, 23], [6, 10, 15, 21]] ! (i div 16) ! (i mod 4)"

definition md5_index :: "nat \<Rightarrow> nat" where
  "md5_index i = [i, 5 * i + 1, 3 * i + 5, 7 * i] ! (i div 16) mod 16"

definition md5_mix :: "nat \<Rightarrow> u32 \<Rightarrow> u32 \<Rightarrow> u32 \<Rightarrow> u32" where
  "md5_mix r x y z =
     [(x AND y) OR (NOT x AND z), (x AND z) OR (y AND NOT z), x XOR y XOR z, y XOR (x OR NOT z)] ! r"

definition rfc_step :: "u32 list \<Rightarrow> md5_state \<Rightarrow> nat \<Rightarrow> md5_state" where
  "rfc_step m st i =
     (case st of (a, b, c, d) \<Rightarrow>
        (d, b + rotate (md5_shift i) (a + md5_mix (i div 16) b c d + m ! md5_index i + md5_T ! i), b, c))"

definition rfc_block :: "u32 list \<Rightarrow> md5_state \<Rightarrow> nat \<Rightarrow> md5_state" where
  "rfc_block bytes st i = add4 (foldl (rfc_step (block_words bytes i)) st [0..<64]) st"

definition rfc_md5 :: "u32 list \<Rightarrow> string" where
  "rfc_md5 bytes = md5_digest (foldl (rfc_block (padded bytes)) md5_init (block_starts (padded bytes)))"

subsection \<open>The rounds\<close>

lemma rfc_step_eq:
  "rfc_step m (a, b, c, d) i = (d, cmn (md5_mix (i div 16) b c d) a b (m ! md5_index i) (md5_shift i) (md5_T ! i), b, c)"
  by (simp add: rfc_step_def cmn_def add32_def algebra_simps)

lemma md5_fun_cmn:
  assumes "r < 4"
  shows "([ff, gg, hh, ii] ! r) a b c d x s t = cmn (md5_mix r b c d) a b x s t"
proof -
  from assms consider "r = 0" | "r = 1" | "r = 2" | "r = 3" by linarith
  then show ?thesis by cases (simp_all add: md5_mix_def ff_def gg_def hh_def ii_def)
qed

definition table_line :: "nat \<Rightarrow> md5_line" where
  \<comment> \<open>line \<open>i\<close> as the tables have it\<close>
  "table_line i = ([set_a, set_d, set_c, set_b] ! (i mod 4)) ([ff, gg, hh, ii] ! (i div 16))
     (md5_index i) (md5_shift i) (md5_T ! i)"

definition turned :: "nat \<Rightarrow> md5_state \<Rightarrow> md5_state" where
  \<comment> \<open>the registers in the order the RFC has them before line \<open>i\<close>\<close>
  "turned i = (\<lambda>(a, b, c, d). [(a, b, c, d), (d, a, b, c), (c, d, a, b), (b, c, d, a)] ! (i mod 4))"

lemma line_simulates:
  assumes "i < 64"
  shows "turned (Suc i) (table_line i m st) = rfc_step m (turned i st) i"
proof -
  obtain a b c d where st: "st = (a, b, c, d)" by (cases st)
  define r and j and s and t where "r = i div 16" and "j = md5_index i" and "s = md5_shift i" and "t = md5_T ! i"
  note names = this [symmetric]
  have r: "r < 4" using assms by (simp add: r_def)
  consider "i mod 4 = 0" "Suc i mod 4 = 1" | "i mod 4 = 1" "Suc i mod 4 = 2"
    | "i mod 4 = 2" "Suc i mod 4 = 3" | "i mod 4 = 3" "Suc i mod 4 = 0"
  proof -
    have "i mod 4 = 0 \<or> i mod 4 = 1 \<or> i mod 4 = 2 \<or> i mod 4 = 3" by linarith
    then show thesis using that by (auto simp: mod_Suc)
  qed
  then show ?thesis
    by cases (simp_all add: st names table_line_def turned_def set_a_def set_b_def set_c_def set_d_def
        rfc_step_eq md5_fun_cmn [OF r])
qed

lemma lines_simulate:
  "n \<le> 64 \<Longrightarrow> turned n (foldl (\<lambda>st line. line m st) st (map table_line [0..<n])) =
     foldl (rfc_step m) (turned 0 st) [0..<n]"
  by (induction n) (simp_all add: line_simulates)

lemma table_rounds: "foldl (\<lambda>st line. line m st) st (map table_line [0..<64]) = foldl (rfc_step m) st [0..<64]"
  using lines_simulate [of 64 m st] by (simp add: turned_def split: prod.splits)

lemma signed_constants:
  "- 680876936 = (0xd76aa478 :: u32)"
  "- 389564586 = (0xe8c7b756 :: u32)"
  "- 1044525330 = (0xc1bdceee :: u32)"
  "- 176418897 = (0xf57c0faf :: u32)"
  "- 1473231341 = (0xa8304613 :: u32)"
  "- 45705983 = (0xfd469501 :: u32)"
  "- 1958414417 = (0x8b44f7af :: u32)"
  "- 42063 = (0xffff5bb1 :: u32)"
  "- 1990404162 = (0x895cd7be :: u32)"
  "- 40341101 = (0xfd987193 :: u32)"
  "- 1502002290 = (0xa679438e :: u32)"
  "- 165796510 = (0xf61e2562 :: u32)"
  "- 1069501632 = (0xc040b340 :: u32)"
  "- 373897302 = (0xe9b6c7aa :: u32)"
  "- 701558691 = (0xd62f105d :: u32)"
  "- 660478335 = (0xd8a1e681 :: u32)"
  "- 405537848 = (0xe7d3fbc8 :: u32)"
  "- 1019803690 = (0xc33707d6 :: u32)"
  "- 187363961 = (0xf4d50d87 :: u32)"
  "- 1444681467 = (0xa9e3e905 :: u32)"
  "- 51403784 = (0xfcefa3f8 :: u32)"
  "- 1926607734 = (0x8d2a4c8a :: u32)"
  "- 378558 = (0xfffa3942 :: u32)"
  "- 2022574463 = (0x8771f681 :: u32)"
  "- 35309556 = (0xfde5380c :: u32)"
  "- 1530992060 = (0xa4beea44 :: u32)"
  "- 155497632 = (0xf6bb4b60 :: u32)"
  "- 1094730640 = (0xbebfbc70 :: u32)"
  "- 358537222 = (0xeaa127fa :: u32)"
  "- 722521979 = (0xd4ef3085 :: u32)"
  "- 640364487 = (0xd9d4d039 :: u32)"
  "- 421815835 = (0xe6db99e5 :: u32)"
  "- 995338651 = (0xc4ac5665 :: u32)"
  "- 198630844 = (0xf4292244 :: u32)"
  "- 1416354905 = (0xab9423a7 :: u32)"
  "- 57434055 = (0xfc93a039 :: u32)"
  "- 1894986606 = (0x8f0ccc92 :: u32)"
  "- 1051523 = (0xffeff47d :: u32)"
  "- 2054922799 = (0x85845dd1 :: u32)"
  "- 30611744 = (0xfe2ce6e0 :: u32)"
  "- 1560198380 = (0xa3014314 :: u32)"
  "- 145523070 = (0xf7537e82 :: u32)"
  "- 1120210379 = (0xbd3af235 :: u32)"
  "- 343485551 = (0xeb86d391 :: u32)"
  by simp_all

lemma upt_64: "[0..<64] = [0, 1, 2, 3, 4, 5, 6, 7, 8, 9, 10, 11, 12, 13, 14, 15, 16, 17, 18, 19, 20, 21, 22, 23, 
    24, 25, 26, 27, 28, 29, 30, 31, 32, 33, 34, 35, 36, 37, 38, 39, 40, 41, 42, 43, 44, 45, 46, 47, 
    48, 49, 50, 51, 52, 53, 54, 55, 56, 57, 58, 59, 60, 61, 62, 63]"
  by code_simp

lemma cycle_lines_table: "cycle_lines = map table_line [0..<64]"
  by (simp add: cycle_lines_def table_line_def md5_T_def md5_shift_def md5_index_def upt_64 signed_constants)

text \<open>C33: the sixty-four lines of \<open>cycle\<close> are the loop of RFC 1321 over its tables.\<close>

theorem cycle_is_rfc: "cycle x k = add4 (foldl (rfc_step k) x [0..<64]) x"
  by (simp add: cycle_def cycle_lines_table table_rounds)

subsection \<open>The padding\<close>

lemma pad_zeros_eq: "pad_zeros bytes = bytes @ replicate (to_fill (length bytes)) 0"
proof (induction bytes rule: pad_zeros.induct)
  case (1 bytes)
  show ?case
  proof (cases "length bytes mod 64 = 56")
    case True
    then show ?thesis by (simp add: pad_zeros.simps [of bytes] to_fill_def)
  next
    case False
    with 1 show ?thesis by (simp add: pad_zeros.simps [of bytes] to_fill_Suc [of "length bytes"])
  qed
qed

lemma to_fill_fills: "(n + to_fill n) mod 64 = 56"
proof -
  have "n mod 64 + to_fill n = 56 \<or> n mod 64 + to_fill n = 120"
    by (auto simp: to_fill_def)
  then have "(n mod 64 + to_fill n) mod 64 = 56" by auto
  then show ?thesis by (simp add: mod_add_left_eq)
qed

lemma block_full: "m mod 64 = 56 \<Longrightarrow> (m + 8) mod (64 :: nat) = 0"
  by (simp add: mod_add_eq [symmetric, of m])

lemma to_fill_bound: "to_fill n < 64"
  by (auto simp: to_fill_def)

lemma length_field_length [simp]: "length (length_field n) = 8"
  by (simp add: length_field_def Let_def)

lemma bytes_of_word:
  fixes w :: u32
  shows "(w AND 0xFF) OR push_bit 8 (drop_bit 8 w AND 0xFF) OR push_bit 16 (drop_bit 16 w AND 0xFF)
     OR push_bit 24 (drop_bit 24 w AND 0xFF) = w"
proof -
  have m: "(0xFF :: u32) = mask 8" by (simp add: mask_eq_exp_minus_1)
  show ?thesis
    unfolding m
  proof (rule bit_word_eqI)
    fix n assume "n < LENGTH(32)"
    then consider "n < 8" | "8 \<le> n" "n < 16" | "16 \<le> n" "n < 24" | "24 \<le> n" "n < 32" by fastforce
    then show "bit ((w AND mask 8) OR push_bit 8 (drop_bit 8 w AND mask 8) OR push_bit 16 (drop_bit 16 w AND mask 8)
     OR push_bit 24 (drop_bit 24 w AND mask 8)) n = bit w n"
      by cases (auto simp: bit_simps)
  qed
qed

lemma le_word_start: "le_word (a # b # c # d # bytes) 0 = a OR push_bit 8 b OR push_bit 16 c OR push_bit 24 d"
  by (simp add: le_word_def numeral_2_eq_2 numeral_3_eq_3)

lemma le_word_length_field: "le_word (length_field n) 0 = of_nat (8 * n)"
  unfolding length_field_def Let_def le_word_start bytes_of_word by (simp only: mult.commute)

text \<open>The padding is that of RFC 1321: one byte \<open>0x80\<close>, fewer than 64 zeros, then the number of bits as
  a little-endian number, so that whole blocks of 64 bytes result.\<close>

theorem padding_is_rfc:
  "\<exists>z < 64. padded bytes = bytes @ 0x80 # replicate z 0 @ length_field (length bytes)
     \<and> length (padded bytes) mod 64 = 0 \<and> le_word (length_field (length bytes)) 0 = of_nat (8 * length bytes)
     \<and> drop 4 (length_field (length bytes)) = [0, 0, 0, 0]"
proof (intro exI conjI)
  let ?z = "to_fill (Suc (length bytes))"
  show "?z < 64" by (rule to_fill_bound)
  show p: "padded bytes = bytes @ 0x80 # replicate ?z 0 @ length_field (length bytes)"
    by (simp add: padded_def pad_zeros_eq)
  have n: "length (padded bytes) = Suc (length bytes) + ?z + 8"
    by (simp add: p)
  show "length (padded bytes) mod 64 = 0"
    unfolding n by (rule block_full) (rule to_fill_fills)
  show "le_word (length_field (length bytes)) 0 = of_nat (8 * length bytes)"
    by (rule le_word_length_field)
  show "drop 4 (length_field (length bytes)) = [0, 0, 0, 0]"
    by (simp add: length_field_def Let_def)
qed

subsection \<open>The digits\<close>

lemma hex_char16_inj: "m < 16 \<Longrightarrow> n < 16 \<Longrightarrow> hex_char16 m = hex_char16 n \<longleftrightarrow> m = n"
  unfolding hex_char16_def by (rule nth_eq_iff_index_eq) simp_all

lemma byte_hex: "n < 256 \<Longrightarrow> padStart 2 (CHR ''0'') (show_hex n) = [hex_char16 (n div 16), hex_char16 (n mod 16)]"
  by (auto simp: padStart_def show_hex.simps [of n] show_hex.simps [of "n div 16"] hex_char16_def)

definition byte_of :: "u32 \<Rightarrow> nat \<Rightarrow> nat" where
  "byte_of n i = unat (drop_bit (i * 8) n AND 0xFF)"

lemma byte_of_bound: "byte_of n i < 256"
proof -
  have "drop_bit (i * 8) n AND 0xFF \<le> 0xFF" by (rule word_and_le1)
  then have "byte_of n i \<le> unat (0xFF :: u32)" unfolding byte_of_def by (rule word_le_nat_alt [THEN iffD1])
  then show ?thesis by simp
qed

lemma hex_eq: "hex n = concat (map (\<lambda>i. [hex_char16 (byte_of n i div 16), hex_char16 (byte_of n i mod 16)]) [0..<4])"
  unfolding hex_def byte_of_def [symmetric] by (simp add: byte_hex byte_of_bound)

lemma hex_length [simp]: "length (hex n) = 8"
  by (simp add: hex_eq upt_rec)

lemma byte_of_eqI:
  assumes "\<And>i. i < 4 \<Longrightarrow> byte_of m i = byte_of n i"
  shows "m = n"
proof -
  have "drop_bit (i * 8) m AND 0xFF = drop_bit (i * 8) n AND 0xFF" if "i < 4" for i
    using assms [OF that] unfolding byte_of_def by (rule unsigned_word_eqI)
  from this [of 0] this [of 1] this [of 2] this [of 3] show ?thesis
    using bytes_of_word [of m] bytes_of_word [of n] by simp
qed

lemma hex_inj: "hex m = hex n \<Longrightarrow> m = n"
proof (rule byte_of_eqI)
  fix i :: nat assume h: "hex m = hex n" and i: "i < 4"
  have d: "byte_of k j div 16 < 16" for k j using byte_of_bound [of k j] by simp
  from i consider "i = 0" | "i = 1" | "i = 2" | "i = 3" by linarith
  then have "byte_of m i div 16 = byte_of n i div 16 \<and> byte_of m i mod 16 = byte_of n i mod 16"
    by cases (use h in \<open>simp_all add: hex_eq upt_rec hex_char16_inj d numeral_2_eq_2 numeral_3_eq_3\<close>)
  then show "byte_of m i = byte_of n i" by (metis div_mult_mod_eq)
qed

lemma md5_digest_inj: "md5_digest x = md5_digest y \<Longrightarrow> x = y"
  by (auto simp: md5_digest_def split: prod.splits dest: hex_inj)

definition low_digits :: "char set" where
  "low_digits = set ''0123456789abcdef''"

lemma hex_digits: "set (hex n) \<subseteq> low_digits"
proof -
  have k: "hex_char16 k \<in> low_digits" if "k < 16" for k
    unfolding hex_char16_def low_digits_def by (rule nth_mem) (use that in simp)
  have "hex_char16 (byte_of n i div 16) \<in> low_digits" "hex_char16 (byte_of n i mod 16) \<in> low_digits" for i
    by (rule k; use byte_of_bound [of n i] in simp)+
  then show ?thesis unfolding hex_eq by auto
qed

text \<open>The tool always shows 32 hexadecimal digits.\<close>

theorem md5_shows_32_digits:
  "length (md5 input upper) = 32 \<and>
   set (md5 input upper) \<subseteq> set (if upper then ''0123456789ABCDEF'' else ''0123456789abcdef'')"
proof -
  have l: "length (md5_digest st) = 32" for st
    by (simp add: md5_digest_def split: prod.splits)
  have d: "set (md5_digest st) \<subseteq> low_digits" for st
    using hex_digits by (auto simp: md5_digest_def split: prod.splits)
  have "map to_upper_char ''0123456789abcdef'' = ''0123456789ABCDEF''"
    by code_simp
  then have u: "to_upper_char ` low_digits = set ''0123456789ABCDEF''"
    unfolding low_digits_def set_map [symmetric] by (rule arg_cong)
  have "set (to_upper (md5_digest st)) \<subseteq> set ''0123456789ABCDEF''" for st
    unfolding to_upper_def set_map u [symmetric] by (rule image_mono) (rule d)
  with d l show ?thesis
    unfolding md5_def Let_def low_digits_def
    by (cases upper) (simp_all only: if_True if_False to_upper_def length_map simp_thms)
qed

subsection \<open>Where the hash goes wrong\<close>

lemma md5_block_rfc: "md5_block bytes st i = add4 (rfc_block bytes st i) st"
  by (simp add: md5_block_def rfc_block_def cycle_is_rfc)

lemma add4_cancel: "add4 x y = x \<longleftrightarrow> y = (0, 0, 0, 0)"
  by (auto simp: add4_def add32_def split: prod.splits)

lemma one_block: "length bytes < 56 \<Longrightarrow> block_starts (padded bytes) = [0]"
  by (simp add: block_starts_def padded_def pad_zeros_eq to_fill_def)

lemma rfc_empty: "rfc_md5 [] = ''d41d8cd98f00b204e9800998ecf8427e''"
  by code_simp

text \<open>C39: for a text of up to 55 bytes, which fits one block, the tool never shows the MD5 hash: \<open>cycle\<close> already
  adds the old state, and the loop of \<open>md5\<close> adds it again.\<close>

theorem short_texts_hash_wrong:
  assumes "length (toBytesUTF8 input) < 56"
  shows "md5 input False \<noteq> rfc_md5 (toBytesUTF8 input)"
proof
  let ?b = "padded (toBytesUTF8 input)"
  assume "md5 input False = rfc_md5 (toBytesUTF8 input)"
  then have "md5_digest (md5_block ?b md5_init 0) = md5_digest (rfc_block ?b md5_init 0)"
    by (simp add: md5_def rfc_md5_def Let_def one_block assms)
  then have "add4 (rfc_block ?b md5_init 0) md5_init = rfc_block ?b md5_init 0"
    unfolding md5_block_rfc by (rule md5_digest_inj)
  then show False
    unfolding add4_cancel by (simp add: md5_init_def)
qed

theorem short_texts_hash_wrong_witness: "md5 [] False \<noteq> ''d41d8cd98f00b204e9800998ecf8427e''"
  using short_texts_hash_wrong [of "[]"] by (simp add: rfc_empty)

subsection \<open>The text as bytes\<close>

definition scalar :: "nat \<Rightarrow> bool" where
  \<comment> \<open>a Unicode scalar value\<close>
  "scalar cp \<longleftrightarrow> cp < 0x110000 \<and> \<not> (0xD800 \<le> cp \<and> cp \<le> 0xDFFF)"

definition utf16_of :: "nat \<Rightarrow> utf16" where
  "utf16_of cp = map of_nat
     (if cp < 0x10000 then [cp] else [0xD800 + (cp - 0x10000) div 0x400, 0xDC00 + (cp - 0x10000) mod 0x400])"

definition utf8_of :: "nat \<Rightarrow> u32 list" where
  "utf8_of cp = map of_nat
     (if cp < 0x80 then [cp]
      else if cp < 0x800 then [0xC0 + cp div 0x40, 0x80 + cp mod 0x40]
      else if cp < 0x10000 then [0xE0 + cp div 0x1000, 0x80 + cp div 0x40 mod 0x40, 0x80 + cp mod 0x40]
      else [0xF0 + cp div 0x40000, 0x80 + cp div 0x1000 mod 0x40, 0x80 + cp div 0x40 mod 0x40, 0x80 + cp mod 0x40])"

lemma or_is_plus:
  fixes p x :: u32
  assumes "p AND x = 0"
  shows "p OR x = p + x"
  using word_plus_and_or [of p x] assms by simp

lemma masked: "(of_nat n :: u32) AND 0x3F = of_nat (n mod 0x40)" "(of_nat n :: u32) AND 0x3FF = of_nat (n mod 0x400)"
proof -
  have m: "(0x3F :: u32) = mask 6" "(0x3FF :: u32) = mask 10" by (simp_all add: mask_eq_exp_minus_1)
  show "(of_nat n :: u32) AND 0x3F = of_nat (n mod 0x40)" "(of_nat n :: u32) AND 0x3FF = of_nat (n mod 0x400)"
    by (simp_all add: m take_bit_eq_mask [symmetric] take_bit_of_nat) (simp_all add: take_bit_eq_mod)
qed

lemma shifted:
  assumes "n < 2 ^ 32"
  shows "drop_bit k (of_nat n :: u32) = of_nat (n div 2 ^ k)"
proof (rule word_unat_eq_iff [THEN iffD2])
  have "n div 2 ^ k < 2 ^ 32"
    using assms by (rule div_le_dividend [THEN le_less_trans])
  then have "unat (of_nat (n div 2 ^ k) :: u32) = n div 2 ^ k" "unat (of_nat n :: u32) = n"
    using assms by (simp_all add: unsigned_of_nat take_bit_nat_eq_self)
  then show "unat (drop_bit k (of_nat n :: u32)) = unat (of_nat (n div 2 ^ k) :: u32)"
    unfolding unat_drop_bit_eq by (simp only: drop_bit_eq_div)
qed

lemma cont_byte: "0x80 OR (of_nat n AND 0x3F) = (of_nat (0x80 + n mod 0x40) :: u32)"
proof -
  have "(0x80 :: u32) AND (0x3F AND of_nat n) = 0" by (simp flip: and.assoc)
  then show ?thesis by (simp add: or_is_plus and.commute [of _ "0x3F"]) (simp add: masked flip: and.commute [of _ "0x3F"])
qed

lemma small_mask: "n < 2 ^ k \<Longrightarrow> (of_nat n :: u32) AND mask k = of_nat n"
  by (simp add: take_bit_eq_mask [symmetric] take_bit_of_nat take_bit_nat_eq_self)

lemma or_small:
  assumes "n < 2 ^ k" and "p AND mask k = (0 :: u32)"
  shows "p OR of_nat n = p + of_nat n"
proof (rule or_is_plus)
  have "p AND of_nat n = (p AND mask k) AND of_nat n"
    using small_mask [OF assms(1)] by (simp add: and.assoc and.commute [of "mask k"])
  then show "p AND of_nat n = 0" by (simp add: assms(2))
qed

lemma lead_byte:
  "n < 32 \<Longrightarrow> 0xC0 OR of_nat n = (of_nat (0xC0 + n) :: u32)"
  "n < 16 \<Longrightarrow> 0xE0 OR of_nat n = (of_nat (0xE0 + n) :: u32)"
  "n < 8 \<Longrightarrow> 0xF0 OR of_nat n = (of_nat (0xF0 + n) :: u32)"
  using or_small [of n 5 "0xC0"] or_small [of n 4 "0xE0"] or_small [of n 3 "0xF0"]
  by (simp_all add: mask_eq_exp_minus_1)

lemma less_of_nat:
  assumes "n < 2 ^ 32"
  shows "(of_nat n :: u32) < numeral k \<longleftrightarrow> n < unat (numeral k :: u32)"
    and "numeral k \<le> (of_nat n :: u32) \<longleftrightarrow> unat (numeral k :: u32) \<le> n"
    and "(of_nat n :: u32) \<le> numeral k \<longleftrightarrow> n \<le> unat (numeral k :: u32)"
  using assms by (simp_all add: word_less_nat_alt word_le_nat_alt unsigned_of_nat take_bit_nat_eq_self)

lemma unit_word: "n < 0x10000 \<Longrightarrow> (ucast (of_nat n :: 16 word) :: u32) = of_nat n"
  by (rule word_unat_eq_iff [THEN iffD2]) (simp add: unsigned_ucast_eq unsigned_of_nat take_bit_nat_eq_self)

lemma one_unit:
  assumes "scalar cp" and "cp < 0x10000"
  shows "toBytesUTF8 (of_nat cp # us) = utf8_of cp @ toBytesUTF8 us"
proof -
  have b: "cp < 2 ^ 32" using assms(2) by simp
  have d: "cp div 64 < 32" if "cp < 0x800" using that by simp
  have e: "cp div 4096 < 16" using assms(2) by simp
  have "\<not> (55296 \<le> cp \<and> cp \<le> 56319)" using assms(1) by (auto simp: scalar_def)
  then have no: "\<not> (0xD800 \<le> (of_nat cp :: u32) \<and> (of_nat cp :: u32) \<le> 0xDBFF \<and> us \<noteq> [])"
    by (auto simp: less_of_nat [OF b])
  show ?thesis
    unfolding toBytesUTF8.simps Let_def unit_word [OF assms(2)] if_not_P [OF no]
    using assms(2)
    by (simp add: less_of_nat [OF b] shifted [OF b] cont_byte lead_byte d e utf8_of_def del: of_nat_add)
qed

lemma two_units:
  assumes "0x10000 \<le> cp" and "cp < 0x110000"
  shows "toBytesUTF8 (utf16_of cp @ us) = utf8_of cp @ toBytesUTF8 us"
proof -
  define h l where "h = 0xD800 + (cp - 0x10000) div 0x400" and "l = 0xDC00 + (cp - 0x10000) mod 0x400"
  have b: "cp < 2 ^ 32" "h < 2 ^ 32" and h: "0xD800 \<le> h" "h \<le> 0xDBFF" "h < 0x10000" and l: "l < 0x10000"
    using assms by (auto simp: h_def l_def)
  have two: "utf16_of cp = [of_nat h, of_nat l]"
    using assms(1) by (simp add: utf16_of_def h_def l_def)
  have cp: "0x10000 + push_bit 10 (of_nat h AND 0x3FF) + (of_nat l AND 0x3FF) = (of_nat cp :: u32)"
  proof -
    have c: "0x10000 + (h mod 0x400) * 0x400 + l mod 0x400 = cp"
    proof -
      define m where "m = cp - 0x10000"
      have "(0xD800 + m div 0x400) mod 0x400 = m div 0x400" "(0xDC00 + m mod 0x400) mod 0x400 = m mod 0x400"
        using assms by (simp_all add: m_def mod_add_eq [symmetric, of "0xD800"] mod_add_eq [symmetric, of "0xDC00"])
      then have "0x10000 + (h mod 0x400) * 0x400 + l mod 0x400 = 0x10000 + m"
        by (simp add: h_def l_def m_def [symmetric])
      then show ?thesis using assms(1) by (simp add: m_def)
    qed
    have p: "push_bit 10 (of_nat k :: u32) = of_nat (k * 0x400)" for k
      by (simp add: push_bit_eq_mult)
    have n: "(0x10000 :: u32) = of_nat 0x10000"
      by simp
    show ?thesis
      unfolding masked p n of_nat_add [symmetric] c ..
  qed
  have e: "cp div 262144 < 8" using assms(2) by simp
  have yes: "0xD800 \<le> (of_nat h :: u32) \<and> (of_nat h :: u32) \<le> 0xDBFF \<and> of_nat l # us \<noteq> []"
    using h by (simp add: less_of_nat [OF b(2)])
  have "\<not> of_nat h < (0x80 :: u32)" "\<not> of_nat h < (0x800 :: u32)"
    using h by (simp_all add: less_of_nat [OF b(2)])
  then show ?thesis
    unfolding two append_Cons append_Nil toBytesUTF8.simps Let_def unit_word [OF h(3)] if_P [OF yes]
      list.sel unit_word [OF l] cp
    using assms(1)
    by (simp add: shifted [OF b(1)] cont_byte lead_byte e utf8_of_def del: of_nat_add)
qed

text \<open>On a text that is well-formed UTF-16, the bytes are its UTF-8 encoding.\<close>

theorem bytes_are_utf8:
  assumes "list_all scalar cps"
  shows "toBytesUTF8 (concat (map utf16_of cps)) = concat (map utf8_of cps)"
  using assms
proof (induction cps)
  case (Cons cp cps)
  show ?case
  proof (cases "cp < 0x10000")
    case True
    with Cons one_unit [of cp] show ?thesis by (simp add: utf16_of_def)
  next
    case False
    with Cons two_units [of cp] show ?thesis by (simp add: scalar_def)
  qed
qed simp

theorem bytes_are_utf8_witness:
  "toBytesUTF8 [0x48, 0xE9, 0x4E2D, 0xD83D, 0xDE00] =
     [0x48, 0xC3, 0xA9, 0xE4, 0xB8, 0xAD, 0xF0, 0x9F, 0x98, 0x80]"
  using bytes_are_utf8 [of "[0x48, 0xE9, 0x4E2D, 0x1F600]"] by (simp add: scalar_def utf16_of_def utf8_of_def)

end
