(* ===== verification/DbTypes.thy ===== *)
theory DbTypes
  imports SqlText JsValue
begin

section \<open>Tables of a database: records and column types\<close>

text \<open>
  The records of \<open>components/db/types.ts\<close> and the column types of \<open>components/db/dialectTypes.ts\<close>:
  which types a dialect offers, which of them take a length, and the split of a type such as
  \<open>varchar(255)\<close> into base and length. Labels and descriptions of the types are texts of the user
  interface and are left out.
\<close>

subsection \<open>Records\<close>

record column_meta =
  dc_name :: string
  dc_origName :: "string option"
  dc_dataType :: string
  dc_udtName :: "string option"
  dc_isNullable :: bool
  dc_defaultVal :: string
  dc_isPrimaryKey :: bool
  dc_isForeignKey :: bool
  dc_extra :: "string option"
  dc_comment :: "string option"
  dc_isNew :: bool

record index_meta =
  di_name :: string
  di_table :: "string option"
  di_schema :: "string option"
  di_columns :: "string list option"
  di_isUnique :: bool
  di_isPrimary :: bool
  di_type :: "string option"
  di_size :: "string option"
  di_def :: "string option"
  di_comment :: "string option"

record constraint_meta =
  dk_name :: string
  dk_type :: string
  dk_column :: "string option"
  dk_foreignTable :: "string option"
  dk_foreignSchema :: "string option"
  dk_foreignColumn :: "string option"
  dk_def :: "string option"

record table_structure =
  ts_columns :: "column_meta list"
  ts_indexes :: "index_meta list"
  ts_constraints :: "constraint_meta list"
  ts_primaryKeys :: "string list"

record alter_plan =
  al_sqls :: "string list"
  al_isRebuild :: bool
  al_warning :: "string option"

record index_params =
  ip_name :: string
  ip_isUnique :: bool
  ip_columns :: "string list"
  ip_type :: "string option"

record constraint_params =
  cp_name :: string
  cp_isForeignKey :: bool \<comment> \<open>\<open>type\<close> is \<open>'FOREIGN KEY'\<close>, or else \<open>'CHECK'\<close>\<close>
  cp_column :: "string option"
  cp_foreignTable :: "string option"
  cp_foreignColumn :: "string option"
  cp_onDelete :: "string option"
  cp_onUpdate :: "string option"
  cp_checkExpr :: "string option"

subsection \<open>Column types\<close>

record type_option =
  ty_value :: string
  ty_supportsLength :: bool
  ty_defaultLength :: string

definition plain_types :: "string list \<Rightarrow> type_option list" where
  "plain_types = map (\<lambda>v. \<lparr>ty_value = v, ty_supportsLength = False, ty_defaultLength = []\<rparr>)"

definition sized :: "string \<Rightarrow> string \<Rightarrow> type_option" where
  "sized v n = \<lparr>ty_value = v, ty_supportsLength = True, ty_defaultLength = n\<rparr>"

definition getDialectTypeCategories :: "sql_dialect \<Rightarrow> type_option list list" where
  "getDialectTypeCategories dialect =
     (case dialect of
        PostgresD \<Rightarrow>
          [plain_types [''integer'', ''bigint'', ''smallint''] @
             [sized ''numeric'' ''12,2'', sized ''decimal'' ''10,2''] @
             plain_types [''real'', ''double precision'', ''serial'', ''bigserial''],
           [sized ''varchar'' ''255'', sized ''char'' ''36''] @ plain_types [''text'', ''uuid'', ''json'', ''jsonb''],
           plain_types [''timestamp without time zone'', ''timestamp with time zone'', ''date'',
             ''time without time zone'', ''interval''],
           plain_types [''boolean'', ''bytea'']]
      | SqliteD \<Rightarrow>
          [plain_types [''INTEGER'', ''TEXT'', ''REAL'', ''NUMERIC'', ''BLOB''],
           [sized ''VARCHAR'' ''255'', sized ''CHAR'' ''36''] @ plain_types [''BOOLEAN'', ''DATETIME'', ''DATE''] @
             [sized ''DECIMAL'' ''10,2'']]
      | MysqlD \<Rightarrow>
          [plain_types [''int'', ''bigint''] @ [sized ''tinyint'' ''1''] @ plain_types [''smallint'', ''mediumint''] @
             [sized ''decimal'' ''10,2''] @ plain_types [''float'', ''double''],
           [sized ''varchar'' ''255'', sized ''char'' ''36''] @
             plain_types [''text'', ''mediumtext'', ''longtext'', ''json''],
           plain_types [''datetime'', ''timestamp'', ''date'', ''time'', ''year''],
           plain_types [''blob'', ''longblob'']])"

definition find_type :: "sql_dialect \<Rightarrow> string \<Rightarrow> type_option option" where
  \<comment> \<open>the two nested loops that return at the first option of that name\<close>
  "find_type dialect cleanBase =
     find (\<lambda>opt. to_lower (ty_value opt) = cleanBase) (concat (getDialectTypeCategories dialect))"

definition isLengthSupported :: "sql_dialect \<Rightarrow> string \<Rightarrow> bool" where
  "isLengthSupported dialect baseType =
     (let cleanBase = to_lower (trim baseType) in
      case find_type dialect cleanBase of
        Some opt \<Rightarrow> ty_supportsLength opt
      | None \<Rightarrow> cleanBase \<in> set [''varchar'', ''char'', ''decimal'', ''numeric'', ''tinyint'', ''nvarchar'', ''nchar''])"

definition getDefaultLength :: "sql_dialect \<Rightarrow> string \<Rightarrow> string" where
  "getDefaultLength dialect baseType =
     (let cleanBase = to_lower (trim baseType) in
      case find_type dialect cleanBase of
        Some opt \<Rightarrow> ty_defaultLength opt
      | None \<Rightarrow>
          if cleanBase = ''varchar'' then ''255''
          else if cleanBase = ''char'' then ''36''
          else if cleanBase = ''decimal'' \<or> cleanBase = ''numeric'' then ''10,2''
          else if cleanBase = ''tinyint'' then ''1''
          else [])"

definition line_break_free :: "string \<Rightarrow> bool" where
  \<comment> \<open>what \<open>.\<close> matches: no LF, CR, U+2028 or U+2029\<close>
  "line_break_free s \<longleftrightarrow> CHR 0x0A \<notin> set s \<and> CHR 0x0D \<notin> set s \<and>
     \<not> sublist [CHR 0xE2, CHR 0x80, CHR 0xA8] s \<and> \<not> sublist [CHR 0xE2, CHR 0x80, CHR 0xA9] s"

definition match_type :: "string \<Rightarrow> (string \<times> string option) option" where
  \<comment> \<open>\<open>trimmed.match(/^([^(]+)(?:\((.*)\))?$/)\<close>: the two groups\<close>
  "match_type t =
     (let base = takeWhile (\<lambda>c. c \<noteq> CHR ''('') t; rest = dropWhile (\<lambda>c. c \<noteq> CHR ''('') t in
      if base = [] then None
      else if rest = [] then Some (base, None)
      else if 2 \<le> length rest \<and> last rest = CHR '')'' \<and> line_break_free (butlast (tl rest))
      then Some (base, Some (butlast (tl rest)))
      else None)"

definition splitDataType :: "string \<Rightarrow> string \<times> string" where
  "splitDataType fullType =
     (if fullType = [] then ([], [])
      else case match_type (trim fullType) of
        None \<Rightarrow> (trim fullType, [])
      | Some (base, len) \<Rightarrow> (trim base, if truthy len then trim (the len) else []))"

definition combineDataType :: "string \<Rightarrow> string \<Rightarrow> string" where
  "combineDataType baseType length' =
     (let cleanBase = trim baseType; cleanLen = trim length' in
      if cleanBase = [] then []
      else if cleanLen \<noteq> [] then cleanBase @ ''('' @ cleanLen @ '')''
      else cleanBase)"

subsection \<open>Split and combine\<close>

lemma prefix_before:
  assumes "prefix w (b @ c # r)" "c \<notin> set w"
  shows "prefix w b"
  using assms
proof (induction b arbitrary: w)
  case Nil
  then show ?case by (cases w) auto
next
  case (Cons x b)
  then show ?case by (cases w) auto
qed

lemma parens_not_white:
  assumes "w \<in> set js_white"
  shows "CHR ''('' \<notin> set w" "CHR '')'' \<notin> set w"
proof -
  have "CHR ''('' \<notin> white_bytes" "CHR '')'' \<notin> white_bytes" by (simp_all add: white_bytes_def js_white_def)
  then show "CHR ''('' \<notin> set w" "CHR '')'' \<notin> set w" using assms by (auto simp: white_bytes_def)
qed

lemma trim_combined:
  assumes "trim b \<noteq> []"
  shows "trim (trim b @ ''('' @ l @ '')'') = trim b @ ''('' @ l @ '')''"
proof (rule trim_fixed)
  fix w assume w: "w \<in> set js_white"
  show "\<not> prefix w (trim b @ ''('' @ l @ '')'')"
    using prefix_before [of w "trim b" "CHR ''(''" "l @ '')''"] parens_not_white(1) [OF w] trim_clean(1) [OF w]
    by auto
  show "\<not> suffix w (trim b @ ''('' @ l @ '')'')"
  proof
    assume "suffix w (trim b @ ''('' @ l @ '')'')"
    then obtain zs where zs: "trim b @ ''('' @ l @ '')'' = zs @ w" by (auto simp: suffix_def)
    then have "last w = CHR '')''"
      using white_not_nil [OF w] by (metis append_is_Nil_conv last.simps last_append list.distinct(1))
    then show False using parens_not_white(2) [OF w] white_not_nil [OF w] last_in_set [of w] by auto
  qed
qed

lemma takeWhile_to_paren: "CHR ''('' \<notin> set b \<Longrightarrow>
    takeWhile (\<lambda>c. c \<noteq> CHR ''('') (b @ CHR ''('' # r) = b \<and> dropWhile (\<lambda>c. c \<noteq> CHR ''('') (b @ CHR ''('' # r) = CHR ''('' # r"
  by (induction b) auto

lemma no_paren_all:
  assumes "CHR ''('' \<notin> set b"
  shows "takeWhile (\<lambda>c. c \<noteq> CHR ''('') b = b" "dropWhile (\<lambda>c. c \<noteq> CHR ''('') b = []"
  using assms by (induction b) auto

lemma trim_subset: "x \<notin> set s \<Longrightarrow> x \<notin> set (trim s)"
  using set_trim_subset by blast

text \<open>
  The type that is put together from the two fields of the structure view splits into them again, each
  without the white space around it: editing the length keeps the base, and editing the base keeps the length.
\<close>

theorem type_splits_back:
  assumes "trim b \<noteq> []" "CHR ''('' \<notin> set b" "line_break_free (trim l)"
  shows "splitDataType (combineDataType b l) = (trim b, trim l)"
proof (cases "trim l = []")
  case True
  then have "combineDataType b l = trim b" using assms(1) by (simp add: combineDataType_def)
  moreover have "match_type (trim b) = Some (trim b, None)"
    unfolding match_type_def Let_def no_paren_all [OF trim_subset [OF assms(2)]]
    using assms(1) by simp
  ultimately show ?thesis using True assms(1) by (simp add: splitDataType_def truthy_def)
next
  case False
  then have c: "combineDataType b l = trim b @ ''('' @ trim l @ '')''"
    using assms(1) by (simp add: combineDataType_def)
  have "match_type (trim b @ ''('' @ trim l @ '')'') = Some (trim b, Some (trim l))"
    using takeWhile_to_paren [OF trim_subset [OF assms(2)], of "trim l @ '')''"] assms(1,3)
    by (simp add: match_type_def Let_def)
  then show ?thesis
    using False assms(1) trim_combined [OF assms(1), of "trim l"] by (simp add: splitDataType_def c truthy_def)
qed

theorem type_splits_back_witness:
  "splitDataType (combineDataType '' decimal'' ''10, 2 '') = (trim '' decimal'', trim ''10, 2 '')"
  by (rule type_splits_back) code_simp+

end
