(* ===== verification/DbAlter.thy ===== *)
theory DbAlter
  imports DbTypes
begin

section \<open>Editing the columns of a table\<close>

text \<open>
  The structure view of \<open>components/db/DataTab/DbDataTab.tsx\<close> and \<open>generateAlterTableSql\<close> of the three
  adapters. A statement is a value of \<open>alter_stmt\<close>, one constructor per template of the adapters, and
  \<open>alter_text\<close> is the text the adapter sends. The server is a parameter: the locale \<open>alter_server\<close> says
  what the statements do to the columns of a table when their data do not stand in the way.
\<close>

subsection \<open>Defaults\<close>

datatype default_clause = NoDefault | RawDefault string | TextDefault string

definition plain_number :: "string \<Rightarrow> bool" where
  \<comment> \<open>\<open>/^-?\d+(\.\d+)?$/.test(dv)\<close>\<close>
  "plain_number dv =
     (let t = (if prefix ''-'' dv then tl dv else dv);
          ds = takeWhile (\<lambda>c. c \<in> set ''0123456789'') t; r = dropWhile (\<lambda>c. c \<in> set ''0123456789'') t
      in ds \<noteq> [] \<and>
         (r = [] \<or> (hd r = CHR ''.'' \<and> tl r \<noteq> [] \<and> list_all (\<lambda>c. c \<in> set ''0123456789'') (tl r))))"

definition default_with :: "(string \<Rightarrow> bool) \<Rightarrow> string \<Rightarrow> default_clause" where
  "default_with raw defaultVal =
     (let dv = trim defaultVal in
      if dv = [] then NoDefault else if raw dv then RawDefault dv else TextDefault dv)"

definition mysql_default :: "string \<Rightarrow> default_clause" where
  "mysql_default = default_with (\<lambda>dv. let dvUpper = to_upper dv in
     dvUpper = ''NULL'' \<or> dvUpper = ''TRUE'' \<or> dvUpper = ''FALSE'' \<or> includes_str dvUpper ''()''
       \<or> starts_with dvUpper ''CURRENT_'' \<or> plain_number dv)"

definition pg_add_default :: "string \<Rightarrow> default_clause" where
  "pg_add_default = default_with (\<lambda>dv.
     to_upper dv = ''NULL'' \<or> includes_str (to_upper dv) ''()'' \<or> plain_number dv)"

definition pg_set_default :: "string \<Rightarrow> default_clause" where
  "pg_set_default defaultVal =
     (let dv = trim defaultVal in
      if dv = [] \<or> to_upper dv = ''NULL'' then NoDefault
      else if includes_str (to_upper dv) ''()'' \<or> plain_number dv \<or> starts_with (to_upper dv) ''CURRENT_''
      then RawDefault dv else TextDefault dv)"

definition sqlite_default :: "string \<Rightarrow> default_clause" where
  "sqlite_default = default_with (\<lambda>dv.
     to_upper dv = ''NULL'' \<or> includes_str (to_upper dv) ''()'' \<or> plain_number dv
       \<or> starts_with (to_upper dv) ''CURRENT_'')"

definition doubled :: "string \<Rightarrow> string" where
  \<comment> \<open>\<open>'${s.replace(/'/g, "''")}'\<close>\<close>
  "doubled s = [CHR 0x27] @ replace_char (CHR 0x27) [CHR 0x27, CHR 0x27] s @ [CHR 0x27]"

fun default_text :: "default_clause \<Rightarrow> string" where
  "default_text NoDefault = []"
| "default_text (RawDefault dv) = '' DEFAULT '' @ dv"
| "default_text (TextDefault dv) = '' DEFAULT '' @ doubled dv"

subsection \<open>Statements\<close>

record column_def =
  df_type :: string
  df_nullable :: bool
  df_default :: default_clause
  df_comment :: string

datatype alter_stmt =
    DropColumn string
  | AddColumn string column_def
  | ChangeColumn string string column_def
  | ModifyColumn string column_def
  | RenameColumn string string
  | AlterType string string
  | SetNullable string bool
  | SetDefault string default_clause
  | CommentOn string string

definition quoteIdent :: "sql_dialect \<Rightarrow> string \<Rightarrow> string" where
  "quoteIdent d name =
     (if d = MysqlD then ''`'' @ replace_char (CHR ''`'') ''``'' name @ ''`''
      else [CHR 0x22] @ replace_char (CHR 0x22) [CHR 0x22, CHR 0x22] name @ [CHR 0x22])"

definition mysql_def_text :: "column_def \<Rightarrow> string" where
  "mysql_def_text f =
     df_type f @ '' '' @ (if df_nullable f then ''NULL'' else ''NOT NULL'') @ default_text (df_default f) @
     (if df_comment f = [] then [] else '' COMMENT '' @ doubled (df_comment f))"

definition ansi_def_text :: "column_def \<Rightarrow> string" where
  "ansi_def_text f =
     df_type f @ (if df_nullable f then [] else '' NOT NULL'') @ default_text (df_default f)"

definition alter_text :: "sql_dialect \<Rightarrow> string \<Rightarrow> alter_stmt \<Rightarrow> string" where
  \<comment> \<open>\<open>table\<close> is the quoted name of the table, in Postgres with its schema\<close>
  "alter_text d table s =
     (let q = quoteIdent d; alter = ''ALTER TABLE '' @ table @ '' '' in
      case s of
        DropColumn n \<Rightarrow> alter @ ''DROP COLUMN '' @ q n @ '';''
      | AddColumn n f \<Rightarrow> alter @ ''ADD COLUMN '' @ q n @ '' '' @
          (if d = MysqlD then mysql_def_text f else ansi_def_text f) @ '';''
      | ChangeColumn n n' f \<Rightarrow> alter @ ''CHANGE COLUMN '' @ q n @ '' '' @ q n' @ '' '' @ mysql_def_text f @ '';''
      | ModifyColumn n f \<Rightarrow> alter @ ''MODIFY COLUMN '' @ q n @ '' '' @ mysql_def_text f @ '';''
      | RenameColumn n n' \<Rightarrow> alter @ ''RENAME COLUMN '' @ q n @ '' TO '' @ q n' @ '';''
      | AlterType n t \<Rightarrow> alter @ ''ALTER COLUMN '' @ q n @ '' TYPE '' @ t @ '' USING '' @ q n @ ''::'' @ t @ '';''
      | SetNullable n b \<Rightarrow> alter @ ''ALTER COLUMN '' @ q n @ (if b then '' DROP'' else '' SET'') @ '' NOT NULL;''
      | SetDefault n e \<Rightarrow> alter @ ''ALTER COLUMN '' @ q n @
          (case e of NoDefault \<Rightarrow> '' DROP DEFAULT;'' | _ \<Rightarrow> '' SET'' @ default_text e @ '';'')
      | CommentOn n c \<Rightarrow> ''COMMENT ON COLUMN '' @ table @ ''.'' @ q n @ '' IS '' @
          (if c = [] then ''NULL'' else doubled c) @ '';'')"

subsection \<open>What changed\<close>

definition orig_map :: "column_meta list \<Rightarrow> string \<Rightarrow> column_meta option" where
  \<comment> \<open>\<open>origCols.forEach((c) => origMap.set(c.name, c))\<close>: the last of a name wins\<close>
  "orig_map origCols = map_of (map (\<lambda>c. (dc_name c, c)) (rev origCols))"

definition original :: "column_meta list \<Rightarrow> column_meta \<Rightarrow> column_meta option" where
  \<comment> \<open>\<open>origMap.get(col.origName)\<close> where \<open>col.origName\<close> is not empty\<close>
  "original origCols col =
     (if truthy (dc_origName col) then orig_map origCols (the (dc_origName col)) else None)"

definition is_new :: "column_meta list \<Rightarrow> column_meta \<Rightarrow> bool" where
  "is_new origCols col \<longleftrightarrow> dc_isNew col \<or> original origCols col = None"

definition currentOrigNames :: "column_meta list \<Rightarrow> string list" where
  "currentOrigNames cols = map (\<lambda>c. the (dc_origName c)) (filter (\<lambda>c. truthy (dc_origName c)) cols)"

definition droppedCols :: "column_meta list \<Rightarrow> column_meta list \<Rightarrow> column_meta list" where
  "droppedCols currentCols origCols =
     filter (\<lambda>c. dc_name c \<notin> set (currentOrigNames currentCols)) origCols"

definition comment_of :: "column_meta \<Rightarrow> string" where
  "comment_of c = opt_or (dc_comment c) []"

definition warnDropCol :: "translator \<Rightarrow> column_meta list \<Rightarrow> string option" where
  "warnDropCol t dropped =
     (if dropped = [] then None
      else Some (t ''db:adapters.warnDropCol'' [(''cols'', join '', '' (map dc_name dropped))]))"

subsection \<open>The plan of each adapter\<close>

definition mysql_def :: "column_meta \<Rightarrow> column_def" where
  "mysql_def col = \<lparr>df_type = dc_dataType col, df_nullable = dc_isNullable col,
     df_default = mysql_default (dc_defaultVal col), df_comment = comment_of col\<rparr>"

definition mysql_changed :: "column_meta \<Rightarrow> column_meta \<Rightarrow> bool" where
  "mysql_changed col orig \<longleftrightarrow>
     Some (dc_name col) \<noteq> dc_origName col \<or> dc_dataType col \<noteq> dc_dataType orig
       \<or> dc_isNullable col \<noteq> dc_isNullable orig \<or> dc_defaultVal col \<noteq> dc_defaultVal orig
       \<or> comment_of col \<noteq> comment_of orig"

definition mysql_column :: "column_meta list \<Rightarrow> column_meta \<Rightarrow> alter_stmt list" where
  "mysql_column origCols col =
     (if is_new origCols col then [AddColumn (dc_name col) (mysql_def col)]
      else if mysql_changed col (the (original origCols col))
      then if Some (dc_name col) \<noteq> dc_origName col
           then [ChangeColumn (the (dc_origName col)) (dc_name col) (mysql_def col)]
           else [ModifyColumn (dc_name col) (mysql_def col)]
      else [])"

definition drop_stmts :: "column_meta list \<Rightarrow> column_meta list \<Rightarrow> alter_stmt list" where
  "drop_stmts currentCols origCols = map (\<lambda>c. DropColumn (dc_name c)) (droppedCols currentCols origCols)"

definition mysql_stmts :: "column_meta list \<Rightarrow> column_meta list \<Rightarrow> alter_stmt list" where
  "mysql_stmts currentCols origCols =
     drop_stmts currentCols origCols @ concat (map (mysql_column origCols) currentCols)"

definition mysql_generateAlterTableSql ::
  "translator \<Rightarrow> string \<Rightarrow> column_meta list \<Rightarrow> column_meta list \<Rightarrow> alter_plan" where
  "mysql_generateAlterTableSql t tableName currentCols origCols =
     \<lparr>al_sqls = map (alter_text MysqlD (quoteIdent MysqlD tableName)) (mysql_stmts currentCols origCols),
      al_isRebuild = False, al_warning = warnDropCol t (droppedCols currentCols origCols)\<rparr>"

definition pg_def :: "column_meta \<Rightarrow> column_def" where
  "pg_def col = \<lparr>df_type = dc_dataType col, df_nullable = dc_isNullable col,
     df_default = pg_add_default (dc_defaultVal col), df_comment = []\<rparr>"

definition pg_column :: "column_meta list \<Rightarrow> column_meta \<Rightarrow> alter_stmt list" where
  "pg_column origCols col =
     (if is_new origCols col
      then AddColumn (dc_name col) (pg_def col) #
        (if comment_of col = [] then [] else [CommentOn (dc_name col) (comment_of col)])
      else
        (let orig = the (original origCols col); w = dc_name col in
         (if Some (dc_name col) \<noteq> dc_origName col
          then [RenameColumn (the (dc_origName col)) (dc_name col)] else []) @
         (if dc_dataType col \<noteq> dc_dataType orig then [AlterType w (dc_dataType col)] else []) @
         (if dc_isNullable col \<noteq> dc_isNullable orig then [SetNullable w (dc_isNullable col)] else []) @
         (if dc_defaultVal col \<noteq> dc_defaultVal orig then [SetDefault w (pg_set_default (dc_defaultVal col))] else []) @
         (if comment_of col \<noteq> comment_of orig then [CommentOn w (comment_of col)] else [])))"

definition pg_stmts :: "column_meta list \<Rightarrow> column_meta list \<Rightarrow> alter_stmt list" where
  "pg_stmts currentCols origCols =
     drop_stmts currentCols origCols @ concat (map (pg_column origCols) currentCols)"

definition pg_fullTable :: "string \<Rightarrow> string \<Rightarrow> string" where
  "pg_fullTable schema tableName =
     (if schema \<noteq> [] then quoteIdent PostgresD schema @ ''.'' @ quoteIdent PostgresD tableName
      else quoteIdent PostgresD tableName)"

definition pg_generateAlterTableSql ::
  "translator \<Rightarrow> string \<Rightarrow> string \<Rightarrow> column_meta list \<Rightarrow> column_meta list \<Rightarrow> alter_plan" where
  "pg_generateAlterTableSql t schema tableName currentCols origCols =
     \<lparr>al_sqls = map (alter_text PostgresD (pg_fullTable schema tableName)) (pg_stmts currentCols origCols),
      al_isRebuild = False, al_warning = warnDropCol t (droppedCols currentCols origCols)\<rparr>"

definition sqlite_type :: "column_meta \<Rightarrow> string" where
  "sqlite_type col = str_or (dc_dataType col) ''TEXT''"

definition sqlite_def :: "column_meta \<Rightarrow> column_def" where
  "sqlite_def col = \<lparr>df_type = sqlite_type col, df_nullable = dc_isNullable col,
     df_default = sqlite_default (dc_defaultVal col), df_comment = []\<rparr>"

definition requiresRebuild :: "column_meta list \<Rightarrow> column_meta list \<Rightarrow> bool" where
  "requiresRebuild currentCols origCols \<longleftrightarrow>
     list_ex (\<lambda>col. case original origCols col of
         None \<Rightarrow> False
       | Some orig \<Rightarrow> to_upper (dc_dataType col) \<noteq> to_upper (dc_dataType orig)
           \<or> dc_isNullable col \<noteq> dc_isNullable orig \<or> dc_defaultVal col \<noteq> dc_defaultVal orig
           \<or> dc_isPrimaryKey col \<noteq> dc_isPrimaryKey orig) currentCols"

definition sqlite_renames :: "column_meta list \<Rightarrow> column_meta list \<Rightarrow> alter_stmt list" where
  "sqlite_renames currentCols origCols =
     concat (map (\<lambda>col. if original origCols col \<noteq> None \<and> Some (dc_name col) \<noteq> dc_origName col
       then [RenameColumn (the (dc_origName col)) (dc_name col)] else []) currentCols)"

definition sqlite_adds :: "column_meta list \<Rightarrow> column_meta list \<Rightarrow> alter_stmt list" where
  "sqlite_adds currentCols origCols =
     map (\<lambda>col. AddColumn (dc_name col) (sqlite_def col)) (filter (is_new origCols) currentCols)"

definition sqlite_light_stmts :: "column_meta list \<Rightarrow> column_meta list \<Rightarrow> alter_stmt list" where
  "sqlite_light_stmts currentCols origCols =
     drop_stmts currentCols origCols @ sqlite_renames currentCols origCols @ sqlite_adds currentCols origCols"

subsection \<open>What a statement does to a table\<close>

record column_state =
  st_name :: string
  st_type :: string
  st_nullable :: bool
  st_default :: default_clause
  st_comment :: string
  st_extra :: string \<comment> \<open>other attributes, such as \<open>AUTO_INCREMENT\<close>\<close>

definition new_state :: "string \<Rightarrow> column_def \<Rightarrow> column_state" where
  "new_state n f = \<lparr>st_name = n, st_type = df_type f, st_nullable = df_nullable f,
     st_default = df_default f, st_comment = df_comment f, st_extra = []\<rparr>"

fun subject :: "alter_stmt \<Rightarrow> string option" where
  \<comment> \<open>the column that a statement changes in place\<close>
  "subject (ChangeColumn n _ _) = Some n"
| "subject (ModifyColumn n _) = Some n"
| "subject (RenameColumn n _) = Some n"
| "subject (AlterType n _) = Some n"
| "subject (SetNullable n _) = Some n"
| "subject (SetDefault n _) = Some n"
| "subject (CommentOn n _) = Some n"
| "subject (DropColumn _) = None"
| "subject (AddColumn _ _) = None"

fun effect :: "alter_stmt \<Rightarrow> column_state \<Rightarrow> column_state" where
  \<comment> \<open>\<open>CHANGE\<close> and \<open>MODIFY\<close> replace the whole definition of the column\<close>
  "effect (ChangeColumn _ n' f) st = new_state n' f"
| "effect (ModifyColumn _ f) st = new_state (st_name st) f"
| "effect (RenameColumn _ n') st = st\<lparr>st_name := n'\<rparr>"
| "effect (AlterType _ t) st = st\<lparr>st_type := t\<rparr>"
| "effect (SetNullable _ b) st = st\<lparr>st_nullable := b\<rparr>"
| "effect (SetDefault _ e) st = st\<lparr>st_default := e\<rparr>"
| "effect (CommentOn _ c) st = st\<lparr>st_comment := c\<rparr>"
| "effect _ st = st"

type_synonym server_exec = "alter_stmt \<Rightarrow> column_state list \<Rightarrow> column_state list option"

abbreviation names_of :: "(string \<Rightarrow> string) \<Rightarrow> column_state list \<Rightarrow> string list" where
  "names_of norm t \<equiv> map (\<lambda>st. norm (st_name st)) t"

fun run_all :: "server_exec \<Rightarrow> alter_stmt list \<Rightarrow> column_state list \<Rightarrow> column_state list option" where
  "run_all exec [] t = Some t"
| "run_all exec (s # ss) t = Option.bind (exec s t) (run_all exec ss)"

lemma run_all_append: "run_all exec (ss @ ss') t = Option.bind (run_all exec ss t) (run_all exec ss')"
  by (induction ss arbitrary: t) (simp_all add: Option.bind_assoc [symmetric] del: Option.bind_assoc, auto split: Option.bind_split)

text \<open>
  The server as \<open>generateAlterTableSql\<close> relies on it. \<open>norm\<close> is how it compares column names. A statement
  that the data or other tables make it refuse is not covered.
\<close>

locale alter_server =
  fixes norm :: "string \<Rightarrow> string"
    and exec :: server_exec
  assumes exec_drop: "distinct (names_of norm (xs @ st # ys)) \<Longrightarrow> norm (st_name st) = norm n \<Longrightarrow>
      xs @ ys \<noteq> [] \<Longrightarrow> exec (DropColumn n) (xs @ st # ys) = Some (xs @ ys)"
    and exec_add: "norm n \<notin> set (names_of norm t) \<Longrightarrow> exec (AddColumn n f) t = Some (t @ [new_state n f])"
    and exec_alter: "distinct (names_of norm (xs @ st # ys)) \<Longrightarrow> norm (st_name st) = norm n \<Longrightarrow>
      subject s = Some n \<Longrightarrow> norm (st_name (effect s st)) \<notin> set (names_of norm (xs @ ys)) \<Longrightarrow>
      exec s (xs @ st # ys) = Some (xs @ effect s st # ys)"
    and exec_clash: "distinct (names_of norm (xs @ st # ys)) \<Longrightarrow> norm (st_name st) = norm n \<Longrightarrow>
      subject s = Some n \<Longrightarrow> norm (st_name (effect s st)) \<in> set (names_of norm (xs @ ys)) \<Longrightarrow>
      exec s (xs @ st # ys) = None"
begin

lemma run_drops:
  assumes "distinct (names_of norm (ks @ t))" "ks @ filter (\<lambda>st. \<not> P st) t \<noteq> []"
  shows "run_all exec (map (\<lambda>st. DropColumn (st_name st)) (filter P t)) (ks @ t) =
    Some (ks @ filter (\<lambda>st. \<not> P st) t)"
  using assms
proof (induction t arbitrary: ks)
  case (Cons st t)
  show ?case
  proof (cases "P st")
    case True
    with Cons.prems have "ks @ t \<noteq> []" by auto
    with Cons.prems have "exec (DropColumn (st_name st)) (ks @ st # t) = Some (ks @ t)"
      by (intro exec_drop) simp_all
    with True Cons show ?thesis by simp
  next
    case False
    with Cons.prems Cons.IH [of "ks @ [st]"] show ?thesis by simp
  qed
qed simp

lemma run_in_place:
  assumes "distinct (names_of norm (xs @ st # ys))" and "norm (st_name st) = norm w"
    and "\<forall>s\<in>set ss. subject s = Some w \<and> (\<forall>st. st_name (effect s st) = st_name st)"
  shows "run_all exec ss (xs @ st # ys) = Some (xs @ fold effect ss st # ys)"
  using assms
proof (induction ss arbitrary: st)
  case (Cons s ss)
  then have "exec s (xs @ st # ys) = Some (xs @ effect s st # ys)"
    by (intro exec_alter) auto
  moreover have "run_all exec ss (xs @ effect s st # ys) = Some (xs @ fold effect ss (effect s st) # ys)"
    using Cons.prems by (intro Cons.IH) auto
  ultimately show ?case by simp
qed simp

end

subsection \<open>A server that the laws describe\<close>

definition find_column :: "(string \<Rightarrow> string) \<Rightarrow> string \<Rightarrow> column_state list \<Rightarrow> nat option" where
  "find_column norm n t = find_index (\<lambda>st. norm (st_name st) = norm n) t"

definition model_server :: "(string \<Rightarrow> string) \<Rightarrow> server_exec" where
  "model_server norm s t =
     (case s of
        DropColumn n \<Rightarrow>
          (case find_column norm n t of
             None \<Rightarrow> None
           | Some i \<Rightarrow> if length t = 1 then None else Some (take i t @ drop (Suc i) t))
      | AddColumn n f \<Rightarrow>
          if find_column norm n t = None then Some (t @ [new_state n f]) else None
      | _ \<Rightarrow>
          (case find_column norm (the (subject s)) t of
             None \<Rightarrow> None
           | Some i \<Rightarrow>
               if norm (st_name (effect s (t ! i))) \<in> set (names_of norm (take i t @ drop (Suc i) t)) then None
               else Some (t[i := effect s (t ! i)])))"

lemma find_column_at:
  "distinct (names_of norm (xs @ st # ys)) \<Longrightarrow> norm (st_name st) = norm n \<Longrightarrow>
     find_column norm n (xs @ st # ys) = Some (length xs)"
  unfolding find_column_def
  by (rule find_index_nth_eqI) (auto simp: nth_append, metis image_eqI nth_mem)

lemma model_server_alter:
  "subject s = Some n \<Longrightarrow> model_server norm s t =
     (case find_column norm n t of
        None \<Rightarrow> None
      | Some i \<Rightarrow>
          if norm (st_name (effect s (t ! i))) \<in> set (names_of norm (take i t @ drop (Suc i) t)) then None
          else Some (t[i := effect s (t ! i)]))"
  by (cases s) (auto simp: model_server_def split: option.split)

lemma model_server_laws: "alter_server norm (model_server norm)"
proof
  fix xs st ys n
  assume a: "distinct (names_of norm (xs @ st # ys))" "norm (st_name st) = norm n"
  note at = find_column_at [OF a]
  show "model_server norm (DropColumn n) (xs @ st # ys) = Some (xs @ ys)" if "xs @ ys \<noteq> []"
    using at that by (cases xs) (auto simp: model_server_def)
  fix s
  assume s: "subject s = Some n"
  show "model_server norm s (xs @ st # ys) = Some (xs @ effect s st # ys)"
    if "norm (st_name (effect s st)) \<notin> set (names_of norm (xs @ ys))"
    using at that by (simp add: model_server_alter [OF s])
  show "model_server norm s (xs @ st # ys) = None"
    if "norm (st_name (effect s st)) \<in> set (names_of norm (xs @ ys))"
    using at that by (simp add: model_server_alter [OF s])
next
  fix n t f
  assume "norm n \<notin> set (names_of norm t)"
  then have "find_column norm n t = None"
    unfolding find_column_def find_index_None by (metis (mono_tags, lifting) image_eqI list.set_map)
  then show "model_server norm (AddColumn n f) t = Some (t @ [new_state n f])"
    by (simp add: model_server_def)
qed

definition server_obeys :: "(string \<Rightarrow> string) \<Rightarrow> server_exec \<Rightarrow> bool" where
  \<comment> \<open>a server may refuse any statement, for its data or for other objects; one that it carries out does what is documented\<close>
  "server_obeys norm exec \<longleftrightarrow> (\<forall>s t u. model_server norm s t = Some u \<longrightarrow> exec s t \<in> {None, Some u})"

lemma obeys_run:
  assumes "server_obeys norm exec" "run_all (model_server norm) ss t = Some u" "run_all exec ss t = Some v"
  shows "v = u"
  using assms(2,3)
proof (induction ss arbitrary: t)
  case (Cons s ss)
  then obtain w where w: "model_server norm s t = Some w" "run_all (model_server norm) ss w = Some u"
    by (auto simp: bind_eq_Some_conv)
  from Cons.prems(2) obtain y where y: "exec s t = Some y" "run_all exec ss y = Some v" by (auto simp: bind_eq_Some_conv)
  from assms(1) w(1) have "exec s t \<in> {None, Some w}" unfolding server_obeys_def by blast
  with y have "y = w" by auto
  with w y Cons.IH show ?case by blast
qed simp

interpretation mysql_model: alter_server to_lower "model_server to_lower"
  by (rule model_server_laws)

interpretation pg_model: alter_server id "model_server id"
  by (rule model_server_laws)

subsection \<open>The structure editor\<close>

record struct_editor =
  se_orig :: "column_meta list"
  se_cols :: "column_meta list"

definition open_structure :: "table_structure \<Rightarrow> struct_editor" where
  \<comment> \<open>the effect on \<open>structure\<close>\<close>
  "open_structure s =
     (let cols = map (\<lambda>c. c\<lparr>dc_origName := Some (opt_or (dc_origName c) (dc_name c))\<rparr>) (ts_columns s)
      in \<lparr>se_orig = cols, se_cols = cols\<rparr>)"

datatype column_patch =
    SetName string
  | SetType string
  | SetNull bool
  | SetDefaultVal string
  | SetComment string

fun apply_patch :: "column_patch \<Rightarrow> column_meta \<Rightarrow> column_meta" where
  "apply_patch (SetName n) c = c\<lparr>dc_name := n\<rparr>"
| "apply_patch (SetType n) c = c\<lparr>dc_dataType := n\<rparr>"
| "apply_patch (SetNull b) c = c\<lparr>dc_isNullable := b\<rparr>"
| "apply_patch (SetDefaultVal v) c = c\<lparr>dc_defaultVal := v\<rparr>"
| "apply_patch (SetComment v) c = c\<lparr>dc_comment := Some v\<rparr>"

definition handleStructColChange :: "nat \<Rightarrow> column_patch \<Rightarrow> struct_editor \<Rightarrow> struct_editor" where
  "handleStructColChange index p s = s\<lparr>se_cols := (se_cols s)[index := apply_patch p (se_cols s ! index)]\<rparr>"

definition handleBaseTypeChange :: "sql_dialect \<Rightarrow> nat \<Rightarrow> string \<Rightarrow> struct_editor \<Rightarrow> struct_editor" where
  "handleBaseTypeChange d idx newBase s =
     (let curLen = snd (splitDataType (dc_dataType (se_cols s ! idx)));
          targetLen = (if isLengthSupported d newBase then str_or curLen (getDefaultLength d newBase) else [])
      in handleStructColChange idx (SetType (combineDataType newBase targetLen)) s)"

definition handleLengthChange :: "nat \<Rightarrow> string \<Rightarrow> struct_editor \<Rightarrow> struct_editor" where
  "handleLengthChange idx newLen s =
     handleStructColChange idx
       (SetType (combineDataType (fst (splitDataType (dc_dataType (se_cols s ! idx)))) newLen)) s"

definition new_column_name :: "nat \<Rightarrow> string" where
  "new_column_name k = ''new_column_'' @ show_nat k"

lemma new_column_name_inject [simp]: "new_column_name j = new_column_name k \<longleftrightarrow> j = k"
  by (simp add: new_column_name_def show_nat_inject)

function free_index :: "string list \<Rightarrow> nat \<Rightarrow> nat" where
  \<comment> \<open>\<open>while (existingNames.has(`new_column_${colIdx}`)) colIdx++\<close>\<close>
  "free_index names k = (if new_column_name k \<in> set names then free_index names (Suc k) else k)"
  by pat_completeness auto

lemma fewer_taken:
  assumes "new_column_name k \<in> set names"
  shows "card {j. Suc k \<le> j \<and> new_column_name j \<in> set names} < card {j. k \<le> j \<and> new_column_name j \<in> set names}"
proof (rule psubset_card_mono)
  have "finite {j. new_column_name j \<in> set names}"
    using finite_vimageI [of "set names" new_column_name] by (simp add: inj_def vimage_def)
  then show "finite {j. k \<le> j \<and> new_column_name j \<in> set names}" by simp
  show "{j. Suc k \<le> j \<and> new_column_name j \<in> set names} \<subset> {j. k \<le> j \<and> new_column_name j \<in> set names}"
  proof
    show "{j. Suc k \<le> j \<and> new_column_name j \<in> set names} \<subseteq> {j. k \<le> j \<and> new_column_name j \<in> set names}"
      by auto
    have "k \<in> {j. k \<le> j \<and> new_column_name j \<in> set names}" using assms by simp
    then show "{j. Suc k \<le> j \<and> new_column_name j \<in> set names} \<noteq> {j. k \<le> j \<and> new_column_name j \<in> set names}"
      by (metis (no_types, lifting) mem_Collect_eq not_less_eq_eq order_refl)
  qed
qed

termination free_index
  by (relation "measure (\<lambda>(names, k). card {j. k \<le> j \<and> new_column_name j \<in> set names})")
    (simp_all add: fewer_taken)

declare free_index.simps [simp del]

lemma free_index_free: "new_column_name (free_index names k) \<notin> set names"
  by (induction names k rule: free_index.induct) (simp add: free_index.simps)

lemma free_index_bounds:
  "k \<le> free_index names k \<and> (\<forall>j. k \<le> j \<and> j < free_index names k \<longrightarrow> new_column_name j \<in> set names)"
proof (induction names k rule: free_index.induct)
  case (1 names k)
  show ?case
  proof (cases "new_column_name k \<in> set names")
    case True
    note ih = 1 [OF True]
    have "free_index names k = free_index names (Suc k)" using True by (simp add: free_index.simps [of names k])
    moreover have "j = k \<or> Suc k \<le> j" if "k \<le> j" for j using that by linarith
    ultimately show ?thesis using ih True by auto
  qed (auto simp: free_index.simps [of names k])
qed

lemma free_index_steps: "free_index names k \<le> k + length names"
proof -
  let ?m = "free_index names k"
  have "new_column_name ` {k..<?m} \<subseteq> set names" using free_index_bounds [of k names] by auto
  then have "card (new_column_name ` {k..<?m}) \<le> length names"
    using card_mono [of "set names"] card_length [of names] by (meson List.finite_set le_trans)
  moreover have "card (new_column_name ` {k..<?m}) = ?m - k" by (simp add: card_image inj_on_def)
  ultimately show ?thesis by linarith
qed

definition new_column :: "sql_dialect \<Rightarrow> string \<Rightarrow> column_meta" where
  "new_column d n =
     \<lparr>dc_name = n, dc_origName = None,
      dc_dataType = (if d = MysqlD then ''varchar(255)'' else if d = PostgresD then ''varchar(255)'' else ''TEXT''),
      dc_udtName = None, dc_isNullable = True, dc_defaultVal = [], dc_isPrimaryKey = False,
      dc_isForeignKey = False, dc_extra = None, dc_comment = Some [], dc_isNew = True\<rparr>"

definition handleAddStructCol :: "sql_dialect \<Rightarrow> struct_editor \<Rightarrow> struct_editor" where
  "handleAddStructCol d s =
     (let existingNames = map (\<lambda>c. to_lower (dc_name c)) (se_cols s);
          colIdx = free_index existingNames (length (se_cols s) + 1)
      in s\<lparr>se_cols := se_cols s @ [new_column d (new_column_name colIdx)]\<rparr>)"

definition handleDropStructCol :: "nat \<Rightarrow> struct_editor \<Rightarrow> struct_editor" where
  "handleDropStructCol index s = s\<lparr>se_cols := take index (se_cols s) @ drop (Suc index) (se_cols s)\<rparr>"

definition handleDiscardStructChanges :: "struct_editor \<Rightarrow> struct_editor" where
  "handleDiscardStructChanges s = s\<lparr>se_cols := se_orig s\<rparr>"

definition column_changed :: "column_meta \<Rightarrow> column_meta \<Rightarrow> bool" where
  \<comment> \<open>\<open>isChanged\<close> of \<open>structDirtyState\<close>\<close>
  "column_changed col orig \<longleftrightarrow>
     dc_name col \<noteq> dc_name orig \<or> dc_dataType col \<noteq> dc_dataType orig
       \<or> dc_isNullable col \<noteq> dc_isNullable orig \<or> dc_defaultVal col \<noteq> dc_defaultVal orig
       \<or> comment_of col \<noteq> comment_of orig"

record dirty_state =
  ds_dropped :: nat
  ds_new :: nat
  ds_modified :: nat

definition structDirtyState :: "struct_editor \<Rightarrow> dirty_state" where
  "structDirtyState s =
     \<lparr>ds_dropped = length (droppedCols (se_cols s) (se_orig s)),
      ds_new = length (filter (is_new (se_orig s)) (se_cols s)),
      ds_modified = length (filter (\<lambda>c. \<not> is_new (se_orig s) c \<and>
         column_changed c (the (original (se_orig s) c))) (se_cols s))\<rparr>"

definition totalDirty :: "struct_editor \<Rightarrow> nat" where
  "totalDirty s = (let d = structDirtyState s in ds_dropped d + ds_new d + ds_modified d)"

datatype save_outcome =
    NothingDirty
  | EmptyName
  | DuplicateName string
  | PlanFailed string
  | EmptyPlan
  | ShowPlan alter_plan

fun first_duplicate :: "string list \<Rightarrow> string list \<Rightarrow> string option" where
  "first_duplicate seen [] = None"
| "first_duplicate seen (n # ns) =
     (if to_lower n \<in> set seen then Some n else first_duplicate (to_lower n # seen) ns)"

definition handleSaveStructChanges ::
  "(column_meta list \<Rightarrow> column_meta list \<Rightarrow> string + alter_plan) \<Rightarrow> struct_editor \<Rightarrow> save_outcome" where
  \<comment> \<open>\<open>generate\<close> is \<open>adapter.generateAlterTableSql\<close>, which every adapter has\<close>
  "handleSaveStructChanges generate s =
     (let names = map (\<lambda>c. trim (dc_name c)) (se_cols s) in
      if totalDirty s = 0 then NothingDirty
      else if [] \<in> set names then EmptyName
      else case first_duplicate [] names of
        Some n \<Rightarrow> DuplicateName n
      | None \<Rightarrow>
          (case generate (se_cols s) (se_orig s) of
             Inl e \<Rightarrow> PlanFailed e
           | Inr plan \<Rightarrow> if al_sqls plan = [] then EmptyPlan else ShowPlan plan))"

subsection \<open>What the editor keeps\<close>

datatype struct_event =
    ChangeCol nat column_patch
  | BaseType nat string
  | ColLength nat string
  | AddCol
  | DropCol nat
  | DiscardCols

fun struct_step :: "sql_dialect \<Rightarrow> struct_editor \<Rightarrow> struct_event \<Rightarrow> struct_editor" where
  "struct_step d s (ChangeCol i p) = handleStructColChange i p s"
| "struct_step d s (BaseType i b) = handleBaseTypeChange d i b s"
| "struct_step d s (ColLength i n) = handleLengthChange i n s"
| "struct_step d s AddCol = handleAddStructCol d s"
| "struct_step d s (DropCol i) = handleDropStructCol i s"
| "struct_step d s DiscardCols = handleDiscardStructChanges s"

fun struct_enabled :: "struct_editor \<Rightarrow> struct_event \<Rightarrow> bool" where
  \<comment> \<open>a row of the view has an index of the list\<close>
  "struct_enabled s (ChangeCol i _) = (i < length (se_cols s))"
| "struct_enabled s (BaseType i _) = (i < length (se_cols s))"
| "struct_enabled s (ColLength i _) = (i < length (se_cols s))"
| "struct_enabled s AddCol = True"
| "struct_enabled s (DropCol i) = (i < length (se_cols s))"
| "struct_enabled s DiscardCols = True"

definition kept_column :: "column_meta \<Rightarrow> bool" where
  "kept_column c \<longleftrightarrow> \<not> dc_isNew c \<and> truthy (dc_origName c)"

definition added_column :: "column_meta \<Rightarrow> bool" where
  "added_column c \<longleftrightarrow> dc_isNew c \<and> dc_origName c = None"

definition orig_name :: "column_meta \<Rightarrow> string" where
  "orig_name c = the (dc_origName c)"

definition loaded_column :: "column_meta \<Rightarrow> bool" where
  \<comment> \<open>a column as the adapters load it\<close>
  "loaded_column c \<longleftrightarrow> dc_name c \<noteq> [] \<and> dc_origName c = Some (dc_name c) \<and> \<not> dc_isNew c"

definition editor_inv :: "struct_editor \<Rightarrow> bool" where
  "editor_inv s \<longleftrightarrow>
     list_all loaded_column (se_orig s) \<and> distinct (map dc_name (se_orig s)) \<and>
     (\<exists>ks ns. se_cols s = ks @ ns \<and> list_all kept_column ks \<and> list_all added_column ns \<and>
        subseq (map orig_name ks) (map dc_name (se_orig s)))"

lemma patch_keeps [simp]:
  "dc_origName (apply_patch p c) = dc_origName c" "dc_isNew (apply_patch p c) = dc_isNew c"
  by (cases p; simp)+

lemma patch_keeps_kind [simp]:
  "kept_column (apply_patch p c) = kept_column c" "added_column (apply_patch p c) = added_column c"
  "orig_name (apply_patch p c) = orig_name c"
  by (simp_all add: kept_column_def added_column_def orig_name_def)

lemma list_all_update: "list_all P xs \<Longrightarrow> (\<And>x. P x \<Longrightarrow> P (f x)) \<Longrightarrow> list_all P (xs[i := f (xs ! i)])"
  by (cases "i < length xs") (auto simp: list_all_iff list_update_beyond dest!: set_update_subset_insert [THEN subsetD])

lemma map_update_same: "(\<And>x. g (f x) = g x) \<Longrightarrow> map g (xs[i := f (xs ! i)]) = map g xs"
  by (cases "i < length xs") (simp_all add: map_update list_update_same_conv list_update_beyond)

lemma subseq_drop_nth: "subseq (take i xs @ drop (Suc i) xs) xs"
proof (cases "i < length xs")
  case True
  have "subseq (drop (Suc i) xs) (drop i xs)" using True by (simp add: Cons_nth_drop_Suc [symmetric] list_emb_Cons)
  then have "subseq (take i xs @ drop (Suc i) xs) (take i xs @ drop i xs)" by (rule list_emb_append_mono [rotated]) simp
  then show ?thesis by (simp only: append_take_drop_id)
qed simp

lemma editor_invI:
  "list_all loaded_column (se_orig s) \<Longrightarrow> distinct (map dc_name (se_orig s)) \<Longrightarrow> se_cols s = ks @ ns \<Longrightarrow>
     list_all kept_column ks \<Longrightarrow> list_all added_column ns \<Longrightarrow>
     subseq (map orig_name ks) (map dc_name (se_orig s)) \<Longrightarrow> editor_inv s"
  unfolding editor_inv_def by blast

lemma editor_invE:
  assumes "editor_inv s"
  obtains ks ns where "list_all loaded_column (se_orig s)" "distinct (map dc_name (se_orig s))"
    "se_cols s = ks @ ns" "list_all kept_column ks" "list_all added_column ns"
    "subseq (map orig_name ks) (map dc_name (se_orig s))"
  using assms unfolding editor_inv_def by blast

lemma change_inv:
  assumes "editor_inv s"
  shows "editor_inv (handleStructColChange i p s)"
  using assms
proof (rule editor_invE)
  fix ks ns
  assume s: "list_all loaded_column (se_orig s)" "distinct (map dc_name (se_orig s))"
      "se_cols s = ks @ ns" "list_all kept_column ks" "list_all added_column ns"
      "subseq (map orig_name ks) (map dc_name (se_orig s))"
  have o: "se_orig (handleStructColChange i p s) = se_orig s" by (simp add: handleStructColChange_def)
  show ?thesis
  proof (cases "i < length ks")
    case True
    show ?thesis
    proof (rule editor_invI)
      show "se_cols (handleStructColChange i p s) = ks[i := apply_patch p (ks ! i)] @ ns"
        using True by (simp add: handleStructColChange_def s(3) list_update_append1 nth_append)
      show "list_all kept_column (ks[i := apply_patch p (ks ! i)])"
        by (rule list_all_update) (use s(4) in simp_all)
      have "map orig_name (ks[i := apply_patch p (ks ! i)]) = map orig_name ks"
        by (rule map_update_same) simp
      then show "subseq (map orig_name (ks[i := apply_patch p (ks ! i)]))
          (map dc_name (se_orig (handleStructColChange i p s)))"
        using s(6) by (simp add: o)
    qed (use s in \<open>simp_all add: o\<close>)
  next
    case False
    let ?j = "i - length ks"
    show ?thesis
    proof (rule editor_invI)
      show "se_cols (handleStructColChange i p s) = ks @ ns[?j := apply_patch p (ns ! ?j)]"
        using False by (simp add: handleStructColChange_def s(3) list_update_append nth_append)
      show "list_all added_column (ns[?j := apply_patch p (ns ! ?j)])"
        by (rule list_all_update) (use s(5) in simp_all)
    qed (use s in \<open>simp_all add: o\<close>)
  qed
qed

lemma add_inv:
  assumes "editor_inv s"
  shows "editor_inv (handleAddStructCol d s)"
  using assms
proof (rule editor_invE)
  fix ks ns
  assume s: "list_all loaded_column (se_orig s)" "distinct (map dc_name (se_orig s))"
      "se_cols s = ks @ ns" "list_all kept_column ks" "list_all added_column ns"
      "subseq (map orig_name ks) (map dc_name (se_orig s))"
  show ?thesis
    by (rule editor_invI [of _ ks "ns @ [new_column d (new_column_name
          (free_index (map (\<lambda>c. to_lower (dc_name c)) (se_cols s)) (length (se_cols s) + 1)))]"])
      (use s in \<open>simp_all add: handleAddStructCol_def Let_def added_column_def new_column_def\<close>)
qed

lemma drop_inv:
  assumes "editor_inv s"
  shows "editor_inv (handleDropStructCol i s)"
  using assms
proof (rule editor_invE)
  fix ks ns
  assume s: "list_all loaded_column (se_orig s)" "distinct (map dc_name (se_orig s))"
      "se_cols s = ks @ ns" "list_all kept_column ks" "list_all added_column ns"
      "subseq (map orig_name ks) (map dc_name (se_orig s))"
  let ?ks = "take i ks @ drop (Suc i) ks"
  let ?ns = "if i < length ks then ns else take (i - length ks) ns @ drop (Suc i - length ks) ns"
  show ?thesis
  proof (rule editor_invI)
    show "se_cols (handleDropStructCol i s) = ?ks @ ?ns"
      by (simp add: handleDropStructCol_def s(3))
    show "list_all kept_column ?ks" "list_all added_column ?ns"
      using s(4,5) by (auto simp: list_all_iff dest: in_set_takeD in_set_dropD)
    have "subseq (map orig_name ?ks) (map orig_name ks)"
      using subseq_drop_nth [of i "map orig_name ks"] by (simp add: take_map drop_map)
    then show "subseq (map orig_name ?ks) (map dc_name (se_orig (handleDropStructCol i s)))"
      using s(6) by (auto simp: handleDropStructCol_def simp del: map_append intro: subseq_order.trans)
  qed (use s in \<open>simp_all add: handleDropStructCol_def\<close>)
qed

lemma loaded_kept: "list_all loaded_column cs \<Longrightarrow> list_all kept_column cs \<and> map orig_name cs = map dc_name cs"
  by (auto simp: list_all_iff loaded_column_def kept_column_def orig_name_def)

lemma discard_inv: "editor_inv s \<Longrightarrow> editor_inv (handleDiscardStructChanges s)"
  by (erule editor_invE, rule editor_invI [of _ "se_orig s" "[]"])
    (simp_all add: handleDiscardStructChanges_def loaded_kept)

lemma struct_step_inv: "editor_inv s \<Longrightarrow> editor_inv (struct_step d s e)"
  by (cases e) (simp_all add: change_inv add_inv drop_inv discard_inv handleBaseTypeChange_def
      handleLengthChange_def Let_def)

interpretation struct_editor: transition_system struct_enabled "struct_step d" editor_inv
  by unfold_locales (rule struct_step_inv)

lemma open_loaded: "list_all loaded_column (ts_columns s) \<Longrightarrow> open_structure s = \<lparr>se_orig = ts_columns s, se_cols = ts_columns s\<rparr>"
proof -
  assume l: "list_all loaded_column (ts_columns s)"
  have "map (\<lambda>c. c\<lparr>dc_origName := Some (opt_or (dc_origName c) (dc_name c))\<rparr>) (ts_columns s) = ts_columns s"
    by (rule map_idI) (use l in \<open>auto simp: list_all_iff loaded_column_def opt_or_def str_or_def\<close>)
  then show ?thesis by (simp add: open_structure_def Let_def)
qed

lemma open_structure_inv:
  "list_all loaded_column (ts_columns s) \<Longrightarrow> distinct (map dc_name (ts_columns s)) \<Longrightarrow> editor_inv (open_structure s)"
  by (rule editor_invI [of _ "ts_columns s" "[]"]) (simp_all add: open_loaded loaded_kept)

subsection \<open>The plan reaches the screen\<close>

text \<open>
  What the three adapters promise of the statements for one column, on a server with the laws: a kept
  column goes from its loaded state to what the screen shows, a new one is added. From this the whole
  plan takes the table to the screen, whatever the edits were.
\<close>

lemma subseq_filter_eq:
  "subseq ks (map f xs) \<Longrightarrow> distinct (map f xs) \<Longrightarrow> map f (filter (\<lambda>x. f x \<in> set ks) xs) = ks"
proof (induction xs arbitrary: ks)
  case (Cons x xs)
  show ?case
  proof (cases "\<exists>ks'. ks = f x # ks' \<and> subseq ks' (map f xs)")
    case True
    then obtain ks' where k: "ks = f x # ks'" "subseq ks' (map f xs)" by blast
    have "filter (\<lambda>y. f y = f x \<or> f y \<in> set ks') xs = filter (\<lambda>y. f y \<in> set ks') xs"
      using Cons.prems(2) by (intro filter_cong) (auto simp: rev_image_eqI)
    with k Cons.IH [of ks'] Cons.prems(2) show ?thesis by simp
  next
    case False
    with Cons.prems(1) have ks: "subseq ks (map f xs)" by (cases ks) (auto split: if_splits)
    then have "set ks \<subseteq> f ` set xs" by (auto dest: list_emb_set)
    with Cons.prems(2) have "f x \<notin> set ks" by auto
    with ks Cons show ?thesis by simp
  qed
qed (auto dest: list_emb_Nil2)

lemma original_eq:
  assumes "list_all loaded_column origs" "distinct (map dc_name origs)" "o' \<in> set origs"
    and "dc_origName c = Some (dc_name o')"
  shows "original origs c = Some o'"
proof -
  have "map_of (map (\<lambda>c. (dc_name c, c)) (rev origs)) (dc_name o') = Some o'"
    using assms(2,3) by (intro map_of_is_SomeI) (auto simp: rev_map [symmetric] o_def)
  moreover have "dc_name o' \<noteq> []"
    using assms(1,3) by (auto simp: list_all_iff loaded_column_def)
  ultimately show ?thesis by (simp add: original_def orig_map_def assms(4))
qed

lemma current_names:
  assumes "list_all kept_column ks" "list_all added_column ns"
  shows "currentOrigNames (ks @ ns) = map orig_name ks"
proof -
  have "filter (\<lambda>c. truthy (dc_origName c)) ks = ks" "filter (\<lambda>c. truthy (dc_origName c)) ns = []"
    using assms by (auto simp: list_all_iff kept_column_def added_column_def filter_id_conv filter_empty_conv)
  then show ?thesis by (simp add: currentOrigNames_def orig_name_def)
qed

definition fresh_names :: "(string \<Rightarrow> string) \<Rightarrow> struct_editor \<Rightarrow> bool" where
  \<comment> \<open>no column is renamed to the old name of another column that stays\<close>
  "fresh_names norm s \<longleftrightarrow>
     (let ks = filter kept_column (se_cols s) in
      list_all (\<lambda>c. norm (dc_name c) = norm (orig_name c)
        \<or> norm (dc_name c) \<notin> set (map (\<lambda>c. norm (orig_name c)) ks)) ks)"

definition matching :: "(column_meta \<Rightarrow> column_state \<Rightarrow> bool) \<Rightarrow> column_meta list \<Rightarrow> column_meta \<Rightarrow>
    column_state \<Rightarrow> bool" where
  \<comment> \<open>\<open>c\<close> is a column that stays, and \<open>st\<close> is its column of the table as loaded\<close>
  "matching loaded origs c st \<longleftrightarrow> \<not> is_new origs c \<and>
     (\<exists>o'. original origs c = Some o' \<and> loaded o' st \<and> loaded_column o')"

locale adapter_plan = alter_server +
  fixes column_stmts :: "column_meta list \<Rightarrow> column_meta \<Rightarrow> alter_stmt list"
    and loaded :: "column_meta \<Rightarrow> column_state \<Rightarrow> bool"
    and result :: "column_meta list \<Rightarrow> column_meta \<Rightarrow> column_state \<Rightarrow> column_state"
    and added :: "column_meta \<Rightarrow> column_state"
  assumes kept_step: "\<not> is_new origs c \<Longrightarrow> original origs c = Some o' \<Longrightarrow> loaded o' st \<Longrightarrow>
      loaded_column o' \<Longrightarrow> distinct (names_of norm (xs @ st # ys)) \<Longrightarrow>
      norm (dc_name c) \<notin> set (names_of norm (xs @ ys)) \<Longrightarrow>
      run_all exec (column_stmts origs c) (xs @ st # ys) = Some (xs @ result origs c st # ys)"
    and added_step: "is_new origs c \<Longrightarrow> norm (dc_name c) \<notin> set (names_of norm t) \<Longrightarrow>
      distinct (names_of norm t) \<Longrightarrow> run_all exec (column_stmts origs c) t = Some (t @ [added c])"
    and result_name: "\<not> is_new origs c \<Longrightarrow> original origs c = Some o' \<Longrightarrow> loaded o' st \<Longrightarrow>
      st_name (result origs c st) = dc_name c"
    and added_name: "st_name (added c) = dc_name c"
    and loaded_name: "loaded o' st \<Longrightarrow> st_name st = dc_name o'"
begin

lemma run_kept:
  assumes "list_all2 (matching loaded origs) ks t"
    and "distinct (names_of norm (ds @ t))"
    and "distinct (names_of norm ds @ map (\<lambda>c. norm (dc_name c)) ks)"
    and "list_all2 (\<lambda>c st. norm (dc_name c) = norm (st_name st) \<or> norm (dc_name c) \<notin> set (names_of norm t)) ks t"
  shows "run_all exec (concat (map (column_stmts origs) ks)) (ds @ t) = Some (ds @ map2 (result origs) ks t)"
  using assms
proof (induction ks t arbitrary: ds rule: list_all2_induct)
  case (Cons c ks st t)
  obtain o' where o': "\<not> is_new origs c" "original origs c = Some o'" "loaded o' st" "loaded_column o'"
    using Cons.hyps(1) by (auto simp: matching_def)
  let ?r = "result origs c st"
  have r: "st_name ?r = dc_name c" by (rule result_name [OF o'(1-3)])
  have "norm (dc_name c) \<notin> set (names_of norm t)"
    using Cons.prems(1,3) by auto
  moreover from this have "norm (dc_name c) \<notin> set (names_of norm (ds @ t))"
    using Cons.prems(2) by auto
  ultimately have "run_all exec (column_stmts origs c) (ds @ st # t) = Some (ds @ ?r # t)"
    using kept_step [OF o' Cons.prems(1)] by simp
  moreover have "run_all exec (concat (map (column_stmts origs) ks)) ((ds @ [?r]) @ t) =
      Some ((ds @ [?r]) @ map2 (result origs) ks t)"
  proof (rule Cons.IH)
    show "distinct (names_of norm ((ds @ [?r]) @ t))"
      using Cons.prems(1,2) \<open>norm (dc_name c) \<notin> set (names_of norm t)\<close> r by auto
    show "distinct (names_of norm (ds @ [?r]) @ map (\<lambda>c. norm (dc_name c)) ks)"
      using Cons.prems(2) r by auto
    show "list_all2 (\<lambda>c st. norm (dc_name c) = norm (st_name st) \<or> norm (dc_name c) \<notin> set (names_of norm t)) ks t"
      using Cons.prems(3) by (auto elim: list_all2_mono)
  qed
  ultimately show ?case by (simp add: run_all_append)
qed simp

lemma run_added:
  assumes "list_all (is_new origs) ns" and "distinct (names_of norm t @ map (\<lambda>c. norm (dc_name c)) ns)"
  shows "run_all exec (concat (map (column_stmts origs) ns)) t = Some (t @ map added ns)"
  using assms
proof (induction ns arbitrary: t)
  case (Cons c ns)
  then have "run_all exec (column_stmts origs c) t = Some (t @ [added c])"
    by (intro added_step) auto
  with Cons Cons.IH [of "t @ [added c]"] show ?case
    by (simp add: run_all_append added_name)
qed simp

lemma plan_reaches:
  assumes inv: "list_all loaded_column origs" "list_all kept_column ks" "list_all added_column ns"
      "subseq (map orig_name ks) (map dc_name origs)"
    and table: "list_all2 loaded origs t" "distinct (names_of norm t)"
    and names: "distinct (map (\<lambda>c. norm (dc_name c)) (ks @ ns))"
    and fresh: "\<forall>c\<in>set ks. norm (dc_name c) = norm (orig_name c)
        \<or> norm (dc_name c) \<notin> set (map (\<lambda>c. norm (orig_name c)) ks)"
    and "ks \<noteq> []"
  obtains t' where "list_all2 (matching loaded origs) ks t'"
    "run_all exec (drop_stmts (ks @ ns) origs @ concat (map (column_stmts origs) (ks @ ns))) t =
       Some (map2 (result origs) ks t' @ map added ns)"
proof
  let ?kept = "\<lambda>st. st_name st \<in> set (map orig_name ks)"
  let ?t = "filter ?kept t"
  have tn: "map st_name t = map dc_name origs"
    using table(1) by (induction rule: list_all2_induct) (simp_all add: loaded_name)
  have dn: "distinct (map st_name t)" using table(2) by (auto simp: distinct_map inj_on_def)
  have dropped: "map dc_name (droppedCols (ks @ ns) origs) = map st_name (filter (\<lambda>st. \<not> ?kept st) t)"
    using table(1) unfolding droppedCols_def current_names [OF inv(2,3)]
    by (induction rule: list_all2_induct) (simp_all add: loaded_name)
  have kept: "map st_name ?t = map orig_name ks"
    by (rule subseq_filter_eq) (use inv(4) dn tn in simp_all)
  have ne: "?t \<noteq> []" using kept \<open>ks \<noteq> []\<close> by (metis list.map_disc_iff)
  have "drop_stmts (ks @ ns) origs = map (\<lambda>st. DropColumn (st_name st)) (filter (\<lambda>st. \<not> ?kept st) t)"
    using arg_cong [OF dropped, of "map DropColumn"] by (simp add: drop_stmts_def o_def)
  then have drops: "run_all exec (drop_stmts (ks @ ns) origs) t = Some ?t"
    using run_drops [of "[]" t "\<lambda>st. \<not> ?kept st"] table(2) ne by simp
  show m: "list_all2 (matching loaded origs) ks ?t"
  proof (rule list_all2_all_nthI)
    show l: "length ks = length ?t" using arg_cong [OF kept, of length] by simp
    fix i assume i: "i < length ks"
    have n: "st_name (?t ! i) = orig_name (ks ! i)"
      using arg_cong [OF kept, of "\<lambda>ns. ns ! i"] i l by simp
    have "?t ! i \<in> set t" using i l nth_mem [of i ?t] by auto
    then obtain j where j: "j < length t" "t ! j = ?t ! i" by (auto simp: in_set_conv_nth)
    define o' where "o' = origs ! j"
    have o': "loaded o' (?t ! i)" "o' \<in> set origs"
      using table(1) j list_all2_lengthD [OF table(1)] by (auto simp: o'_def list_all2_conv_all_nth)
    then have "loaded_column o'" using inv(1) by (auto simp: list_all_iff)
    moreover have k: "kept_column (ks ! i)" using inv(2) i by (auto simp: list_all_iff)
    moreover have "original origs (ks ! i) = Some o'"
    proof (rule original_eq [OF inv(1)])
      show "distinct (map dc_name origs)" using dn tn by simp
      show "dc_origName (ks ! i) = Some (dc_name o')"
        using n loaded_name [OF o'(1)] k by (cases "dc_origName (ks ! i)") (auto simp: orig_name_def kept_column_def)
    qed (rule o'(2))
    ultimately show "matching loaded origs (ks ! i) (?t ! i)"
      using o'(1) k by (auto simp: matching_def is_new_def kept_column_def)
  qed
  have sub: "set (names_of norm ?t) = set (map (\<lambda>c. norm (orig_name c)) ks)"
    using arg_cong [OF kept, of "\<lambda>ns. set (map norm ns)"] by (simp add: o_def)
  have "run_all exec (concat (map (column_stmts origs) ks)) ([] @ ?t) = Some ([] @ map2 (result origs) ks ?t)"
  proof (rule run_kept [OF m])
    show "distinct (names_of norm ([] @ ?t))" using table(2) by (simp add: distinct_map_filter)
    show "distinct (names_of norm [] @ map (\<lambda>c. norm (dc_name c)) ks)" using names by simp
    show "list_all2 (\<lambda>c st. norm (dc_name c) = norm (st_name st) \<or> norm (dc_name c) \<notin> set (names_of norm ?t)) ks ?t"
      unfolding sub
    proof (rule list_all2_all_nthI)
      show l: "length ks = length ?t" using arg_cong [OF kept, of length] by simp
      fix i assume i: "i < length ks"
      have "st_name (?t ! i) = orig_name (ks ! i)"
        using arg_cong [OF kept, of "\<lambda>ns. ns ! i"] i l by simp
      then show "norm (dc_name (ks ! i)) = norm (st_name (?t ! i)) \<or>
          norm (dc_name (ks ! i)) \<notin> set (map (\<lambda>c. norm (orig_name c)) ks)"
        using fresh i by auto
    qed
  qed
  moreover have "run_all exec (concat (map (column_stmts origs) ns)) (map2 (result origs) ks ?t) =
      Some (map2 (result origs) ks ?t @ map added ns)"
  proof (rule run_added)
    show "list_all (is_new origs) ns"
      using inv(3) by (auto simp: list_all_iff is_new_def added_column_def)
    have "names_of norm (map2 (result origs) ks ?t) = map (\<lambda>c. norm (dc_name c)) ks"
      using m by (induction rule: list_all2_induct) (auto simp: matching_def result_name)
    then show "distinct (names_of norm (map2 (result origs) ks ?t) @ map (\<lambda>c. norm (dc_name c)) ns)"
      using names by simp
  qed
  ultimately show "run_all exec (drop_stmts (ks @ ns) origs @ concat (map (column_stmts origs) (ks @ ns))) t =
       Some (map2 (result origs) ks ?t @ map added ns)"
    using drops by (simp add: run_all_append)
qed

lemma editor_plan:
  assumes inv: "editor_inv s" and t: "list_all2 loaded (se_orig s) t" "distinct (names_of norm t)"
    and names: "distinct (map (\<lambda>c. norm (dc_name c)) (se_cols s))"
    and fresh: "fresh_names norm s" and kept: "list_ex kept_column (se_cols s)"
  obtains ks ns t' where "se_cols s = ks @ ns" "list_all kept_column ks" "list_all added_column ns"
    "list_all2 (matching loaded (se_orig s)) ks t'"
    "run_all exec (drop_stmts (se_cols s) (se_orig s) @ concat (map (column_stmts (se_orig s)) (se_cols s))) t =
       Some (map2 (result (se_orig s)) ks t' @ map added ns)"
  using inv
proof (rule editor_invE)
  fix ks ns
  assume s: "list_all loaded_column (se_orig s)" "distinct (map dc_name (se_orig s))"
      "se_cols s = ks @ ns" "list_all kept_column ks" "list_all added_column ns"
      "subseq (map orig_name ks) (map dc_name (se_orig s))"
  have "filter kept_column (ks @ ns) = ks"
    using s(4,5) by (auto simp: list_all_iff kept_column_def added_column_def filter_id_conv filter_empty_conv)
  then have f: "\<forall>c\<in>set ks. norm (dc_name c) = norm (orig_name c)
        \<or> norm (dc_name c) \<notin> set (map (\<lambda>c. norm (orig_name c)) ks)"
    using fresh by (simp add: fresh_names_def s(3) list_all_iff)
  have "ks \<noteq> []"
    using kept s(3,5) by (auto simp: list_ex_iff list_all_iff kept_column_def added_column_def)
  from plan_reaches [OF s(1,4,5,6) t _ f this] names s(3) obtain t' where
    "list_all2 (matching loaded (se_orig s)) ks t'"
    "run_all exec (drop_stmts (ks @ ns) (se_orig s) @ concat (map (column_stmts (se_orig s)) (ks @ ns))) t =
       Some (map2 (result (se_orig s)) ks t' @ map added ns)"
    by auto
  then show thesis using that [of ks ns t'] s by simp
qed

end

end
