(* ===== verification/DbCell.thy ===== *)
theory DbCell
  imports SqlFilter JsValue
begin

section \<open>Cell values\<close>

text \<open>
  \<open>utils/db.ts\<close>: when an edited cell counts as unchanged, and the value that is stored for the text of an
  edit. Both compare numbers as doubles, so \<open>Number\<close> of a text is modelled with its rounding: a double is
  a sign, a mantissa below \<open>2^53\<close> and an exponent, in the one form that has the largest mantissa.
\<close>

subsection \<open>Doubles\<close>

datatype js_double = DNaN | DInf bool | DFin bool nat int

fun ilog2 :: "nat \<Rightarrow> nat" where
  "ilog2 n = (if n < 2 then 0 else Suc (ilog2 (n div 2)))"

declare ilog2.simps [simp del]

definition half_even :: "nat \<Rightarrow> nat \<Rightarrow> nat" where
  \<comment> \<open>\<open>n / d\<close> rounded to the nearest, a tie to the even neighbour\<close>
  "half_even n d =
     (let k = n div d; r = n mod d in if 2 * r < d \<or> (2 * r = d \<and> even k) then k else Suc k)"

definition double_of_ratio :: "bool \<Rightarrow> nat \<Rightarrow> nat \<Rightarrow> js_double" where
  \<comment> \<open>the double nearest to \<open>n / d\<close>\<close>
  "double_of_ratio neg n d =
     (if n = 0 then DFin False 0 0
      else
        let guess = int (ilog2 n) - int (ilog2 d) - 52;
            at_least = (\<lambda>e. if 0 \<le> e then 2 ^ 52 * d * 2 ^ nat e \<le> n else 2 ^ 52 * d \<le> n * 2 ^ nat (- e));
            e = max (if at_least guess then guess else guess - 1) (- 1074);
            m = (if 0 \<le> e then half_even n (d * 2 ^ nat e) else half_even (n * 2 ^ nat (- e)) d);
            (m', e') = (if m = 2 ^ 53 then (2 ^ 52, e + 1) else (m, e))
        in if m' = 0 then DFin False 0 0 else if 971 < e' then DInf neg else DFin neg m' e')"

definition js_eq_double :: "js_double \<Rightarrow> js_double \<Rightarrow> bool" where
  \<comment> \<open>\<open>===\<close> on numbers\<close>
  "js_eq_double a b \<longleftrightarrow> a \<noteq> DNaN \<and> a = b"

subsection \<open>Number\<close>

definition exponent_value :: "string \<Rightarrow> int" where
  "exponent_value s =
     (case s of
        [] \<Rightarrow> 0
      | _ # t \<Rightarrow> (if prefix ''-'' t then - int (read_digits (drop_sign t)) else int (read_digits (drop_sign t))))"

definition decimal_double :: "bool \<Rightarrow> string \<Rightarrow> js_double" where
  "decimal_double neg s =
     (let ip = takeWhile is_digit s; r = dropWhile is_digit s;
          (fr, ex) = (case r of c # t \<Rightarrow> if c = CHR ''.'' then (takeWhile is_digit t, dropWhile is_digit t) else ([], r)
                      | [] \<Rightarrow> ([], []));
          e = exponent_value ex - int (length fr); m = read_digits (ip @ fr)
      in if 0 \<le> e then double_of_ratio neg (m * 10 ^ nat e) 1 else double_of_ratio neg m (10 ^ nat (- e)))"

definition radix_digit :: "char \<Rightarrow> nat" where
  "radix_digit c =
     (let n = of_char (to_lower_char c) :: nat in if n < 58 then n - 48 else n - 87)"

definition radix_double :: "string \<Rightarrow> js_double" where
  "radix_double s =
     (let b = (if to_lower_char (s ! 1) = CHR ''x'' then 16 else if to_lower_char (s ! 1) = CHR ''o'' then 8 else 2)
      in double_of_ratio False (foldl (\<lambda>n c. b * n + radix_digit c) 0 (drop 2 s)) 1)"

definition number_of_text :: "string \<Rightarrow> js_double" where
  \<comment> \<open>\<open>Number(s)\<close> of a string\<close>
  "number_of_text str =
     (let s = trim str; neg = prefix ''-'' s in
      if s = [] then DFin False 0 0
      else if radix_ok s then radix_double s
      else if drop_sign s = ''Infinity'' then DInf neg
      else if decimal_ok (drop_sign s) then decimal_double neg (drop_sign s)
      else DNaN)"

fun js_number :: "js_value \<Rightarrow> js_double" where
  "js_number JUndef = DNaN"
| "js_number JNull = DFin False 0 0"
| "js_number (JBool b) = DFin False (if b then 2 ^ 52 else 0) (if b then - 52 else 0)"
| "js_number v = number_of_text (js_string v)"

definition integer_value :: "js_double \<Rightarrow> int option" where
  "integer_value x =
     (case x of
        DFin neg m e \<Rightarrow>
          if 0 \<le> e then Some ((if neg then -1 else 1) * int m * 2 ^ nat e)
          else if m mod 2 ^ nat (- e) = 0 then Some ((if neg then -1 else 1) * int (m div 2 ^ nat (- e)))
          else None
      | _ \<Rightarrow> None)"

definition isSafeInteger :: "js_double \<Rightarrow> bool" where
  "isSafeInteger x \<longleftrightarrow> (case integer_value x of Some n \<Rightarrow> \<bar>n\<bar> \<le> 2 ^ 53 - 1 | None \<Rightarrow> False)"

definition number_text_of :: "(js_double \<Rightarrow> string) \<Rightarrow> js_double \<Rightarrow> string" where
  \<comment> \<open>\<open>String(n)\<close>; how a number that is not a small integer is printed is the parameter\<close>
  "number_text_of print x =
     (case integer_value x of Some n \<Rightarrow> if \<bar>n\<bar> < 10 ^ 21 then show_int n else print x | None \<Rightarrow> print x)"

subsection \<open>The two functions\<close>

fun js_same :: "js_value \<Rightarrow> js_value \<Rightarrow> bool" where
  \<comment> \<open>\<open>===\<close>; objects and arrays that come from different answers are different\<close>
  "js_same (JNum a) (JNum b) = js_eq_double (number_of_text a) (number_of_text b)"
| "js_same (JArr _) _ = False"
| "js_same (JObj _) _ = False"
| "js_same a b = (a = b)"

definition isSameCellValue :: "(js_value \<Rightarrow> string) \<Rightarrow> js_value \<Rightarrow> js_value \<Rightarrow> bool" where
  \<comment> \<open>\<open>stringify\<close> is \<open>JSON.stringify\<close>\<close>
  "isSameCellValue stringify origVal newVal =
     (if is_nullish origVal \<and> is_nullish newVal then True
      else if is_nullish origVal \<noteq> is_nullish newVal then False
      else if js_same origVal newVal then True
      else
        let sOrig = trim (js_string origVal); sNew = trim (js_string newVal);
            numeric = (case origVal of JNum _ \<Rightarrow> True | JStr s \<Rightarrow> number_of_text s \<noteq> DNaN \<and> trim s \<noteq> [] | _ \<Rightarrow> False);
            nOrig = js_number origVal; nNew = js_number newVal
        in if numeric \<and> sOrig = sNew then True
           else if numeric \<and> nOrig \<noteq> DNaN \<and> nNew \<noteq> DNaN \<and> sNew \<noteq> [] \<and> sOrig \<noteq> [] then js_eq_double nOrig nNew
           else case origVal of
             JBool b \<Rightarrow>
               (let s = to_lower sNew in
                if b then s \<in> set [''true'', ''1'', ''t''] else s \<in> set [''false'', ''0'', ''f''])
           | JArr _ \<Rightarrow> stringify origVal = sNew \<or> sOrig = sNew
           | JObj _ \<Rightarrow> stringify origVal = sNew \<or> sOrig = sNew
           | _ \<Rightarrow> sOrig = sNew)"

definition coerceCellValue :: "(js_double \<Rightarrow> string) \<Rightarrow> js_value \<Rightarrow> js_value \<Rightarrow> bool \<Rightarrow> js_value" where
  "coerceCellValue print origVal val isNull =
     (if isNull \<or> is_nullish val then JNull
      else case origVal of
        JNum _ \<Rightarrow>
          (let s = trim (js_string val); n = number_of_text s in
           if s \<noteq> [] \<and> n \<noteq> DNaN \<and> (isSafeInteger n \<or> CHR ''.'' \<in> set s) then JNum (number_text_of print n)
           else JStr s)
      | JBool _ \<Rightarrow>
          (let s = to_lower (trim (js_string val)) in
           if s = ''true'' \<or> s = ''1'' then JBool True
           else if s = ''false'' \<or> s = ''0'' then JBool False
           else val)
      | _ \<Rightarrow> val)"

subsection \<open>Numbers written with digits only\<close>

lemma digits_not_white: "list_all is_digit s \<Longrightarrow> trim s = s"
proof (rule trim_no_white)
  have "set ''0123456789'' \<inter> white_bytes = {}" by (simp add: white_bytes_def js_white_def)
  moreover assume "list_all is_digit s"
  then have "set s \<subseteq> set ''0123456789''" unfolding list_all_iff is_digit_def by blast
  ultimately show "set s \<inter> white_bytes = {}" by blast
qed

lemma digits_not_radix:
  assumes "list_all is_digit s"
  shows "\<not> radix_ok s"
proof
  assume "radix_ok s"
  then obtain z p r where s: "s = z # p # r" and p: "p \<in> set ''xXoObB''"
    by (auto simp: radix_ok_def split: list.splits)
  from assms s have "p \<in> set ''0123456789''" by (simp add: is_digit_def)
  moreover have "set ''xXoObB'' \<inter> set ''0123456789'' = {}" by simp
  ultimately show False using p by blast
qed

lemma number_of_digits:
  assumes "list_all is_digit s" "s \<noteq> []"
  shows "number_of_text s = double_of_ratio False (read_digits s) 1"
proof -
  obtain c t where s: "s = c # t" using assms(2) by (cases s) auto
  have c: "c \<in> set ''0123456789''" using assms(1) s by (simp add: is_digit_def)
  have sign: "drop_sign s = s" "\<not> prefix ''-'' s" "s \<noteq> ''Infinity''"
    using c by (auto simp: s drop_sign_def)
  have all: "takeWhile is_digit s = s" "dropWhile is_digit s = []"
    using assms(1) by (simp_all add: list_all_iff)
  then have ok: "decimal_ok s" using assms(2) unfolding decimal_ok_def Let_def all by simp
  have "decimal_double False s = double_of_ratio False (read_digits s) 1"
    unfolding decimal_double_def Let_def all by (simp add: exponent_value_def)
  then show ?thesis
    unfolding number_of_text_def Let_def digits_not_white [OF assms(1)] sign(1)
    using digits_not_radix [OF assms(1)] sign(2,3) assms(2) ok by simp
qed

lemma double_not_nan [simp]: "double_of_ratio neg n d \<noteq> DNaN"
  unfolding double_of_ratio_def Let_def case_prod_unfold by (simp split: if_split del: power_Suc)

lemma leading_zero_same:
  assumes "list_all is_digit ds" "ds \<noteq> []"
  shows "isSameCellValue f (JStr (CHR ''0'' # ds)) (JStr ds)"
proof -
  have z: "list_all is_digit (CHR ''0'' # ds)" using assms(1) by (simp add: is_digit_def)
  have "read_digits (CHR ''0'' # ds) = read_digits ds" by (simp add: read_digits_def)
  then show ?thesis
    using assms z number_of_digits [OF z] number_of_digits [OF assms] digits_not_white [OF z]
      digits_not_white [OF assms(1)]
    by (simp add: isSameCellValue_def is_nullish_def js_eq_double_def)
qed

subsection \<open>How a cell reads an entry\<close>

text \<open>
  The specification of the two functions, for a text that is entered, or NULL. A cell reads an entry as a number where the entry is
  one, a cell with a truth value as a truth value, and anything else as the text without the white space around it. An entry is a
  change when it does not read as the cell does: \<open>007\<close> and \<open>7\<close> are the same entry.
\<close>

datatype cell_reading = RNumber js_double | RTruth bool | RText string

definition number_reading :: "string \<Rightarrow> cell_reading" where
  "number_reading w = (if trim w \<noteq> [] \<and> number_of_text w \<noteq> DNaN then RNumber (number_of_text w) else RText (trim w))"

definition truth_reading :: "string \<Rightarrow> cell_reading" where
  "truth_reading w =
     (let l = to_lower (trim w) in
      if l \<in> {''true'', ''1'', ''t''} then RTruth True else if l \<in> {''false'', ''0'', ''f''} then RTruth False else RText (trim w))"

definition entry_changes :: "(js_value \<Rightarrow> string) \<Rightarrow> js_value \<Rightarrow> string option \<Rightarrow> bool" where
  \<comment> \<open>the entry \<open>None\<close> is NULL\<close>
  "entry_changes stringify old e =
     (case e of
        None \<Rightarrow> old \<noteq> JNull \<and> old \<noteq> JUndef
      | Some w \<Rightarrow>
          (case old of
             JNull \<Rightarrow> True
           | JUndef \<Rightarrow> True
           | JNum a \<Rightarrow> number_reading w \<noteq> number_reading a
           | JStr a \<Rightarrow> number_reading w \<noteq> number_reading a
           | JBool b \<Rightarrow> truth_reading w \<noteq> RTruth b
           | _ \<Rightarrow> trim w \<noteq> stringify old \<and> trim w \<noteq> trim (js_string old)))"

definition stored_value :: "(js_double \<Rightarrow> string) \<Rightarrow> js_value \<Rightarrow> string option \<Rightarrow> js_value" where
  \<comment> \<open>a number replaces a number, where it is a safe integer or written with a point; a truth value a truth value; else a text\<close>
  "stored_value print old e =
     (case e of
        None \<Rightarrow> JNull
      | Some w \<Rightarrow>
          (case old of
             JNum _ \<Rightarrow>
               (case number_reading w of
                  RNumber x \<Rightarrow>
                    if (case integer_value x of Some n \<Rightarrow> \<bar>n\<bar> < 2 ^ 53 | None \<Rightarrow> False) \<or> CHR ''.'' \<in> set (trim w)
                    then JNum (number_text_of print x) else JStr (trim w)
                | _ \<Rightarrow> JStr (trim w))
           | JBool _ \<Rightarrow>
               if to_lower (trim w) \<in> {''true'', ''1''} then JBool True
               else if to_lower (trim w) \<in> {''false'', ''0''} then JBool False else JStr w
           | _ \<Rightarrow> JStr w))"

abbreviation entry_value :: "string option \<Rightarrow> js_value" where
  "entry_value e \<equiv> (case e of None \<Rightarrow> JNull | Some w \<Rightarrow> JStr w)"

lemma number_of_trim: "number_of_text (trim w) = number_of_text w"
  by (simp add: number_of_text_def)

lemma number_of_blank: "trim w = [] \<Longrightarrow> number_of_text w = DFin False 0 0"
  by (simp add: number_of_text_def)

lemma trim_eq_number: "trim a = trim b \<Longrightarrow> number_of_text a = number_of_text b"
  by (metis number_of_trim)

lemma number_reading_eq:
  "number_reading w = number_reading a \<longleftrightarrow>
     trim w = trim a \<or> (trim w \<noteq> [] \<and> trim a \<noteq> [] \<and> js_eq_double (number_of_text a) (number_of_text w))"
  using trim_eq_number [of w a] by (auto simp: number_reading_def js_eq_double_def)

lemma same_iff_unchanged: "isSameCellValue stringify old (entry_value e) \<longleftrightarrow> \<not> entry_changes stringify old e"
proof (cases e)
  case None
  then show ?thesis by (cases old) (simp_all add: isSameCellValue_def entry_changes_def is_nullish_def)
next
  case (Some w)
  show ?thesis
  proof (cases old)
    case (JNum a)
    with Some show ?thesis
      by (auto simp: isSameCellValue_def entry_changes_def is_nullish_def number_reading_eq js_eq_double_def Let_def dest: trim_eq_number)
  next
    case (JStr a)
    with Some show ?thesis
      by (auto simp: isSameCellValue_def entry_changes_def is_nullish_def number_reading_eq js_eq_double_def Let_def
          number_of_blank dest: trim_eq_number)
  next
    case (JBool b)
    with Some show ?thesis
      by (auto simp: isSameCellValue_def entry_changes_def is_nullish_def truth_reading_def Let_def)
  qed (use Some in \<open>auto simp: isSameCellValue_def entry_changes_def is_nullish_def Let_def\<close>)
qed

lemma safe_integer_iff: "isSafeInteger x \<longleftrightarrow> (case integer_value x of Some n \<Rightarrow> \<bar>n\<bar> < 2 ^ 53 | None \<Rightarrow> False)"
  by (auto simp: isSafeInteger_def split: option.split)

lemma coerce_stored: "coerceCellValue print old (entry_value e) (e = None) = stored_value print old e"
proof (cases e)
  case (Some w)
  then show ?thesis
    by (cases old) (auto simp: coerceCellValue_def stored_value_def is_nullish_def number_reading_def number_of_trim safe_integer_iff Let_def)
qed (simp add: coerceCellValue_def stored_value_def)

end
