(* ===== verification/DbRebuild.thy ===== *)
theory DbRebuild
  imports DbAlter DbCell
begin

section \<open>Rebuilding an SQLite table\<close>

text \<open>
  SQLite cannot change a column in place; \<open>sqliteAdapter.ts\<close> creates a new table, copies the rows,
  drops the old table and takes its name. The same is done to add and to remove a constraint. Also here:
  \<open>loadStructure\<close> of the three adapters, and the statements for indexes and constraints.
\<close>

subsection \<open>Statements\<close>

datatype table_clause =
    ColumnClause string column_def
  | PrimaryKeyClause "string list"
  | ForeignKeyClause string string string string string \<comment> \<open>name, column, table, column, and the \<open>ON\<close> parts\<close>
  | CheckClause string string

datatype rebuild_stmt =
    ForeignKeys bool
  | BeginTransaction
  | DropIfExists string
  | CreateTable string "table_clause list"
  | CopyRows string "string list" string "string list"
  | DropTable string
  | RenameTable string string
  | IndexSql string
  | CommitTransaction

abbreviation sq :: "string \<Rightarrow> string" where
  "sq \<equiv> quoteIdent SqliteD"

fun clause_text :: "table_clause \<Rightarrow> string" where
  "clause_text (ColumnClause n f) = sq n @ '' '' @ ansi_def_text f"
| "clause_text (PrimaryKeyClause ns) = ''PRIMARY KEY ('' @ join '', '' (map sq ns) @ '')''"
| "clause_text (ForeignKeyClause n c t c' on) =
     ''CONSTRAINT '' @ sq n @ '' FOREIGN KEY ('' @ sq c @ '') REFERENCES '' @ sq t @ '' ('' @ sq c' @ '')'' @ on"
| "clause_text (CheckClause n e) = ''CONSTRAINT '' @ sq n @ '' CHECK ('' @ e @ '')''"

fun rebuild_text :: "rebuild_stmt \<Rightarrow> string" where
  "rebuild_text (ForeignKeys b) = ''PRAGMA foreign_keys = '' @ (if b then ''ON'' else ''OFF'') @ '';''"
| "rebuild_text BeginTransaction = ''BEGIN TRANSACTION;''"
| "rebuild_text (DropIfExists n) = ''DROP TABLE IF EXISTS '' @ sq n @ '';''"
| "rebuild_text (CreateTable n cs) =
     ''CREATE TABLE '' @ sq n @ '' ('' @ [CHR 0x0A] @ ''  '' @
     join ('','' @ [CHR 0x0A] @ ''  '') (map clause_text cs) @ [CHR 0x0A] @ '');''"
| "rebuild_text (CopyRows n ns m ms) =
     ''INSERT INTO '' @ sq n @ '' ('' @ join '', '' (map sq ns) @ '') SELECT '' @ join '', '' (map sq ms) @
     '' FROM '' @ sq m @ '';''"
| "rebuild_text (DropTable n) = ''DROP TABLE '' @ sq n @ '';''"
| "rebuild_text (RenameTable n m) = ''ALTER TABLE '' @ sq n @ '' RENAME TO '' @ sq m @ '';''"
| "rebuild_text (IndexSql s) = s"
| "rebuild_text CommitTransaction = ''COMMIT;''"

subsection \<open>The rebuild of \<open>generateAlterTableSql\<close>\<close>

definition getExistingIndexSqls :: "js_value option \<Rightarrow> string list" where
  \<comment> \<open>the argument is \<open>res.rows\<close>, \<open>None\<close> where the call fails or gives no rows; each row has a field \<open>sql\<close>\<close>
  "getExistingIndexSqls rows =
     (case rows of
        None \<Rightarrow> []
      | Some rs \<Rightarrow> if list_ex is_nullish (array_or_empty rs) then [] \<comment> \<open>a TypeError, caught\<close> else filter (\<lambda>s. s \<noteq> []) (map (\<lambda>r.
          (let v = nullish (js_field r ''sql'') JUndef; s = (if js_truthy v then trim (js_string v) else [])
           in if ends_with s '';'' then s else if s \<noteq> [] then s @ '';'' else [])) (array_or_empty rs)))"

definition tempTableName :: "string \<Rightarrow> string" where
  "tempTableName tableName = tableName @ ''_dg_tmp''"

definition column_clauses :: "(column_meta \<Rightarrow> column_def) \<Rightarrow> column_meta list \<Rightarrow> table_clause list" where
  \<comment> \<open>\<open>colDefs\<close> with the primary key at its end\<close>
  "column_clauses def cols =
     map (\<lambda>c. ColumnClause (dc_name c) (def c)) cols @
     (let pks = map dc_name (filter dc_isPrimaryKey cols) in if pks = [] then [] else [PrimaryKeyClause pks])"

definition kept_indexes :: "column_meta list \<Rightarrow> string list \<Rightarrow> string list" where
  "kept_indexes dropped existingIndexes =
     filter (\<lambda>idxSql. \<not> list_ex (\<lambda>dc. includes_str (to_lower idxSql) (to_lower (dc_name dc))) dropped)
       existingIndexes"

definition rebuild_stmts :: "string \<Rightarrow> column_meta list \<Rightarrow> column_meta list \<Rightarrow> string list \<Rightarrow> rebuild_stmt list" where
  "rebuild_stmts tableName currentCols origCols existingIndexes =
     (let tmp = tempTableName tableName;
          matchedCols = filter (\<lambda>c. original origCols c \<noteq> None) currentCols
      in [ForeignKeys False, BeginTransaction, DropIfExists tmp,
          CreateTable tmp (column_clauses sqlite_def currentCols)] @
         (if matchedCols \<noteq> []
          then [CopyRows tmp (map dc_name matchedCols) tableName (map (\<lambda>c. the (dc_origName c)) matchedCols)]
          else []) @
         [DropTable tableName, RenameTable tmp tableName] @
         map IndexSql (kept_indexes (droppedCols currentCols origCols) existingIndexes) @
         [CommitTransaction, ForeignKeys True])"

definition sqlite_generateAlterTableSql ::
  "translator \<Rightarrow> string \<Rightarrow> string list \<Rightarrow> column_meta list \<Rightarrow> column_meta list \<Rightarrow> alter_plan" where
  "sqlite_generateAlterTableSql t tableName existingIndexes currentCols origCols =
     (let warning = warnDropCol t (droppedCols currentCols origCols) in
      if requiresRebuild currentCols origCols
      then \<lparr>al_sqls = map rebuild_text (rebuild_stmts tableName currentCols origCols existingIndexes),
            al_isRebuild = True,
            al_warning = (let rebuildWarning = t ''db:adapters.sqliteRebuildWarning'' [] in
              Some (if truthy warning then the warning @ [CHR 0x0A] @ rebuildWarning else rebuildWarning))\<rparr>
      else \<lparr>al_sqls = map (alter_text SqliteD (quoteIdent SqliteD tableName))
              (sqlite_light_stmts currentCols origCols),
            al_isRebuild = False, al_warning = warning\<rparr>)"

definition executeAlterTable :: "(string \<Rightarrow> 'db \<Rightarrow> 'db option) \<Rightarrow> string list \<Rightarrow> 'db \<Rightarrow> bool \<times> 'db" where
  \<comment> \<open>one call after the other until one fails: whether all went through, and what the database is then\<close>
  "executeAlterTable run sqls db =
     foldl (\<lambda>(ok, db) sql.
        if \<not> ok \<or> trim sql = [] then (ok, db)
        else case run (trim sql) db of None \<Rightarrow> (False, db) | Some db' \<Rightarrow> (True, db')) (True, db) sqls"

subsection \<open>Indexes and constraints\<close>

definition previewCreateIndexSql :: "sql_dialect \<Rightarrow> string \<Rightarrow> index_params \<Rightarrow> string" where
  \<comment> \<open>\<open>table\<close> is the quoted name\<close>
  "previewCreateIndexSql d table p =
     ''CREATE '' @ (if ip_isUnique p then ''UNIQUE '' else []) @ ''INDEX '' @ quoteIdent d (ip_name p) @
     '' ON '' @ table @ '' ('' @ join '', '' (map (quoteIdent d) (ip_columns p)) @ '');''"

definition mysql_previewDropIndexSql :: "string \<Rightarrow> string \<Rightarrow> string" where
  "mysql_previewDropIndexSql tableName indexName =
     ''ALTER TABLE '' @ quoteIdent MysqlD tableName @ '' DROP INDEX '' @ quoteIdent MysqlD indexName @ '';''"

definition pg_previewDropIndexSql :: "string \<Rightarrow> string \<Rightarrow> string" where
  "pg_previewDropIndexSql schema indexName =
     ''DROP INDEX '' @ (if schema \<noteq> [] then quoteIdent PostgresD schema @ ''.'' else []) @
     quoteIdent PostgresD indexName @ '';''"

definition sqlite_previewDropIndexSql :: "string \<Rightarrow> string" where
  "sqlite_previewDropIndexSql indexName = ''DROP INDEX '' @ quoteIdent SqliteD indexName @ '';''"

definition on_text :: "constraint_params \<Rightarrow> string" where
  "on_text p =
     (case cp_onDelete p of Some a \<Rightarrow> if a \<noteq> [] \<and> a \<noteq> ''RESTRICT'' then '' ON DELETE '' @ a else [] | None \<Rightarrow> []) @
     (case cp_onUpdate p of Some a \<Rightarrow> if a \<noteq> [] \<and> a \<noteq> ''RESTRICT'' then '' ON UPDATE '' @ a else [] | None \<Rightarrow> [])"

definition add_constraint_text :: "sql_dialect \<Rightarrow> string \<Rightarrow> string \<Rightarrow> constraint_params \<Rightarrow> string" where
  \<comment> \<open>\<open>target\<close> is the text for the referenced table\<close>
  "add_constraint_text d table target p =
     ''ALTER TABLE '' @ table @ '' ADD CONSTRAINT '' @ quoteIdent d (cp_name p) @
     (if cp_isForeignKey p
      then '' FOREIGN KEY ('' @ quoteIdent d (opt_or (cp_column p) []) @ '') REFERENCES '' @ target @
        '' ('' @ quoteIdent d (opt_or (cp_foreignColumn p) []) @ '')'' @ on_text p @ '';''
      else '' CHECK ('' @ opt_or (cp_checkExpr p) [] @ '');'')"

definition mysql_previewCreateConstraintSql :: "string \<Rightarrow> constraint_params \<Rightarrow> string" where
  "mysql_previewCreateConstraintSql tableName p =
     add_constraint_text MysqlD (quoteIdent MysqlD tableName)
       (quoteIdent MysqlD (opt_or (cp_foreignTable p) [])) p"

definition pg_previewCreateConstraintSql :: "string \<Rightarrow> string \<Rightarrow> constraint_params \<Rightarrow> string" where
  "pg_previewCreateConstraintSql schema tableName p =
     add_constraint_text PostgresD (pg_fullTable schema tableName)
       (if truthy (cp_foreignTable p) then pg_fullTable schema (the (cp_foreignTable p)) else []) p"

definition mysql_previewDropConstraintSql :: "string \<Rightarrow> constraint_meta \<Rightarrow> string" where
  "mysql_previewDropConstraintSql tableName c =
     ''ALTER TABLE '' @ quoteIdent MysqlD tableName @
     (if dk_type c = ''FOREIGN KEY'' then '' DROP FOREIGN KEY ''
      else if dk_type c = ''CHECK'' then '' DROP CHECK '' else '' DROP CONSTRAINT '') @
     quoteIdent MysqlD (dk_name c) @ '';''"

definition pg_previewDropConstraintSql :: "string \<Rightarrow> string \<Rightarrow> constraint_meta \<Rightarrow> string" where
  "pg_previewDropConstraintSql schema tableName c =
     ''ALTER TABLE '' @ pg_fullTable schema tableName @ '' DROP CONSTRAINT '' @ quoteIdent PostgresD (dk_name c) @ '';''"

subsection \<open>\<open>loadStructure\<close>\<close>

definition field_or :: "js_value \<Rightarrow> string list \<Rightarrow> js_value" where
  \<comment> \<open>\<open>r.a || r.b || ''\<close>, of a row that is not null\<close>
  "field_or r names =
     foldr (\<lambda>n v. js_or (nullish (js_field r n) JUndef) v) names (JStr [])"

definition text_or :: "js_value \<Rightarrow> string list \<Rightarrow> string" where
  "text_or r names = js_string (field_or r names)"

definition default_string :: "js_value \<Rightarrow> string" where
  \<comment> \<open>\<open>v === null || v === undefined ? '' : String(v)\<close>\<close>
  "default_string v = (if is_nullish v then [] else js_string v)"

record sqlite_column_info =
  sc_name :: string
  sc_type :: string
  sc_notnull :: int
  sc_default :: js_value
  sc_pk :: int

record sqlite_index_info =
  sx_name :: string
  sx_unique :: int
  sx_origin :: string
  sx_partial :: int

definition sqlite_fk_constraint :: "string \<Rightarrow> js_value \<Rightarrow> constraint_meta" where
  "sqlite_fk_constraint tableName r =
     (let fromCol = text_or r [''from'']
      in \<lparr>dk_name = ''fk_'' @ tableName @ ''_'' @ fromCol, dk_type = ''FOREIGN KEY'', dk_column = Some fromCol,
          dk_foreignTable = Some (text_or r [''table'']), dk_foreignSchema = None,
          dk_foreignColumn = Some (text_or r [''to'']), dk_def = None\<rparr>)"

definition sqlite_column_meta :: "string list \<Rightarrow> sqlite_column_info \<Rightarrow> column_meta" where
  "sqlite_column_meta fkCols c =
     \<lparr>dc_name = sc_name c, dc_origName = Some (sc_name c), dc_dataType = str_or (sc_type c) ''TEXT'',
      dc_udtName = None, dc_isNullable = (sc_notnull c = 0), dc_defaultVal = default_string (sc_default c),
      dc_isPrimaryKey = (sc_pk c > 0), dc_isForeignKey = (sc_name c \<in> set fkCols), dc_extra = None,
      dc_comment = None, dc_isNew = False\<rparr>"

definition sqlite_loadStructure ::
  "string \<Rightarrow> sqlite_column_info list \<Rightarrow> sqlite_index_info list \<Rightarrow> js_value list \<Rightarrow> table_structure" where
  \<comment> \<open>the lists are empty where the backend refuses the indexes or the foreign keys\<close>
  "sqlite_loadStructure tableName colsData idxData fkRows =
     (let columns = map (sqlite_column_meta (map (\<lambda>r. text_or r [''from'']) fkRows)) colsData
      in \<lparr>ts_columns = columns,
          ts_indexes = map (\<lambda>ix. \<lparr>di_name = sx_name ix, di_table = Some tableName, di_schema = None,
            di_columns = None, di_isUnique = (sx_unique ix = 1), di_isPrimary = (sx_origin ix = ''pk''),
            di_type = Some (if sx_partial ix \<noteq> 0 then ''PARTIAL'' else ''INDEX''), di_size = None,
            di_def = (if sx_origin ix \<noteq> [] then Some (''Origin: '' @ sx_origin ix) else None),
            di_comment = None\<rparr>) idxData,
          ts_constraints = map (sqlite_fk_constraint tableName) fkRows,
          ts_primaryKeys = map dc_name (filter dc_isPrimaryKey columns)\<rparr>)"

definition mysql_constraint :: "js_value \<Rightarrow> constraint_meta" where
  "mysql_constraint r =
     (let refTable = nullish (js_field r ''REFERENCED_TABLE_NAME'') JUndef;
          refCol = nullish (js_field r ''REFERENCED_COLUMN_NAME'') JUndef
      in \<lparr>dk_name = text_or r [''CONSTRAINT_NAME''],
          dk_type = (if js_truthy refTable then ''FOREIGN KEY''
            else if js_field r ''CONSTRAINT_NAME'' = Some (JStr ''PRIMARY'') then ''PRIMARY KEY''
            else ''UNIQUE / KEY''),
          dk_column = Some (text_or r [''COLUMN_NAME'']),
          dk_foreignTable = (if js_truthy refTable then Some (js_string refTable) else None), dk_foreignSchema = None,
          dk_foreignColumn = (if js_truthy refCol then Some (js_string refCol) else None), dk_def = None\<rparr>)"

definition mysql_column_meta :: "string list \<Rightarrow> js_value \<Rightarrow> column_meta" where
  "mysql_column_meta fkCols r =
     (let field = text_or r [''Field'', ''COLUMN_NAME'']
      in \<lparr>dc_name = field, dc_origName = Some field, dc_dataType = text_or r [''Type'', ''COLUMN_TYPE''],
          dc_udtName = None,
          dc_isNullable = (js_or (nullish (js_field r ''Null'') JUndef)
            (nullish (js_field r ''IS_NULLABLE'') JUndef) = JStr ''YES''),
          dc_defaultVal = default_string (nullish (js_field r ''Default'') JUndef),
          dc_isPrimaryKey = (field_or r [''Key''] = JStr ''PRI'' \<or> field_or r [''COLUMN_KEY''] = JStr ''PRI''),
          dc_isForeignKey = (field \<in> set fkCols), dc_extra = Some (text_or r [''Extra'']),
          dc_comment = Some (text_or r [''Comment'', ''COLUMN_COMMENT'']), dc_isNew = False\<rparr>)"

definition mysql_load_columns :: "js_value list \<Rightarrow> js_value list \<Rightarrow> column_meta list" where
  \<comment> \<open>the columns of \<open>loadStructure\<close>, from the rows of \<open>DESCRIBE\<close> and of the key usage\<close>
  "mysql_load_columns descRows constraintRows =
     (let fkCols = map (\<lambda>r. text_or r [''COLUMN_NAME''])
            (filter (\<lambda>r. js_truthy (nullish (js_field r ''REFERENCED_TABLE_NAME'') JUndef)) constraintRows)
      in map (mysql_column_meta fkCols) descRows)"

definition mysql_add_index :: "string \<Rightarrow> index_meta list \<Rightarrow> js_value \<Rightarrow> index_meta list" where
  \<comment> \<open>one row of \<open>SHOW INDEX\<close>: the entry of its key is made or found, and the column joins it\<close>
  "mysql_add_index tableName acc r =
     (let keyName = text_or r [''Key_name'', ''INDEX_NAME'']; colName = text_or r [''Column_name'', ''COLUMN_NAME''];
          v = nullish (js_field r ''Non_unique'') JUndef; nonUnique = (is_nullish v \<or> js_number v = js_number (JNum ''1''));
          fresh = \<lparr>di_name = keyName, di_table = Some tableName, di_schema = None, di_columns = Some [],
            di_isUnique = (\<not> nonUnique), di_isPrimary = (keyName = ''PRIMARY''),
            di_type = Some (js_string (js_or (nullish (js_field r ''Index_type'') JUndef) (JStr ''BTREE''))),
            di_size = None, di_def = None, di_comment = None\<rparr>;
          acc' = (if keyName \<in> set (map di_name acc) then acc else acc @ [fresh])
      in map (\<lambda>ix. if di_name ix = keyName then ix\<lparr>di_columns := Some (nullish (di_columns ix) [] @ [colName])\<rparr> else ix) acc')"

definition mysql_load_indexes :: "string \<Rightarrow> js_value list \<Rightarrow> index_meta list" where
  \<comment> \<open>the entries in the order in which their keys first appear; a key that reads as an array index is
    not moved to the front\<close>
  "mysql_load_indexes tableName idxList = foldl (mysql_add_index tableName) [] idxList"

definition mysql_loadStructure ::
  "string \<Rightarrow> js_value list \<Rightarrow> js_value list \<Rightarrow> js_value list \<Rightarrow> table_structure" where
  \<comment> \<open>the rows of \<open>DESCRIBE\<close>, of the indexes and of the key usage; a list is empty where a call fails\<close>
  "mysql_loadStructure tableName descRows idxList constraintRows =
     (let columns = mysql_load_columns descRows constraintRows
      in \<lparr>ts_columns = columns, ts_indexes = mysql_load_indexes tableName idxList,
          ts_constraints = map mysql_constraint constraintRows,
          ts_primaryKeys = map dc_name (filter dc_isPrimaryKey columns)\<rparr>)"

record pg_description =
  pd_columns :: "column_meta list option" \<comment> \<open>\<open>origName\<close>, \<open>extra\<close> and \<open>isNew\<close> are not part of the answer\<close>
  pd_indexes :: "index_meta list option"
  pd_constraints :: "constraint_meta list option"
  pd_primaryKeys :: "string list option"

definition pg_loadStructure :: "string \<Rightarrow> string \<Rightarrow> pg_description option \<Rightarrow> table_structure" where
  "pg_loadStructure schema tableName desc =
     (case desc of
        None \<Rightarrow> \<lparr>ts_columns = [], ts_indexes = [], ts_constraints = [], ts_primaryKeys = []\<rparr>
      | Some d \<Rightarrow>
          \<lparr>ts_columns = map (\<lambda>c. c\<lparr>dc_origName := Some (dc_name c), dc_extra := None, dc_isNew := False\<rparr>)
             (nullish (pd_columns d) []),
           ts_indexes = map (\<lambda>ix. ix\<lparr>di_table := Some (opt_or (di_table ix) tableName),
               di_schema := Some (opt_or (di_schema ix) schema), di_columns := Some (nullish (di_columns ix) []),
               di_type := None, di_comment := None\<rparr>) (nullish (pd_indexes d) []),
           ts_constraints = map (\<lambda>k. k\<lparr>dk_column := None\<rparr>) (nullish (pd_constraints d) []),
           ts_primaryKeys = nullish (pd_primaryKeys d) []\<rparr>)"

subsection \<open>Adding and removing a constraint in SQLite\<close>

definition sqlite_constraint_default :: "string \<Rightarrow> default_clause" where
  \<comment> \<open>here a default of white space only is a default\<close>
  "sqlite_constraint_default v =
     (if v = [] then NoDefault
      else let dv = trim v in
        if to_upper dv = ''NULL'' \<or> includes_str (to_upper dv) ''()'' \<or> plain_number dv
          \<or> starts_with (to_upper dv) ''CURRENT_''
        then RawDefault dv else TextDefault dv)"

definition sqlite_constraint_def :: "column_meta \<Rightarrow> column_def" where
  "sqlite_constraint_def col = \<lparr>df_type = sqlite_type col, df_nullable = dc_isNullable col,
     df_default = sqlite_constraint_default (dc_defaultVal col), df_comment = []\<rparr>"

definition existing_fk :: "constraint_meta \<Rightarrow> table_clause list" where
  "existing_fk c =
     (if dk_type c = ''FOREIGN KEY'' \<and> truthy (dk_foreignTable c) \<and> truthy (dk_column c) \<and> truthy (dk_foreignColumn c)
      then [ForeignKeyClause (dk_name c) (the (dk_column c)) (the (dk_foreignTable c)) (the (dk_foreignColumn c)) []]
      else [])"

definition new_constraint :: "constraint_params \<Rightarrow> table_clause list" where
  "new_constraint p =
     (if cp_isForeignKey p \<and> truthy (cp_foreignTable p) \<and> truthy (cp_column p) \<and> truthy (cp_foreignColumn p)
      then [ForeignKeyClause (cp_name p) (the (cp_column p)) (the (cp_foreignTable p))
        (the (cp_foreignColumn p)) (on_text p)]
      else if \<not> cp_isForeignKey p \<and> truthy (cp_checkExpr p) then [CheckClause (cp_name p) (the (cp_checkExpr p))]
      else [])"

definition constraint_rebuild :: "string \<Rightarrow> table_structure \<Rightarrow> table_clause list \<Rightarrow> string list \<Rightarrow> rebuild_stmt list" where
  "constraint_rebuild tableName struct extra indexSqls =
     (let tmp = tempTableName tableName; colNames = map dc_name (ts_columns struct)
      in [ForeignKeys False, BeginTransaction, DropIfExists tmp,
          CreateTable tmp (column_clauses sqlite_constraint_def (ts_columns struct) @ extra),
          CopyRows tmp colNames tableName colNames, DropTable tableName, RenameTable tmp tableName] @
         map IndexSql indexSqls @ [CommitTransaction, ForeignKeys True])"

definition sqlite_previewCreateConstraintSql ::
  "translator \<Rightarrow> string \<Rightarrow> table_structure \<Rightarrow> string list \<Rightarrow> constraint_params \<Rightarrow> alter_plan" where
  "sqlite_previewCreateConstraintSql t tableName struct indexSqls p =
     \<lparr>al_sqls = map rebuild_text (constraint_rebuild tableName struct
        (concat (map existing_fk (ts_constraints struct)) @ new_constraint p) indexSqls),
      al_isRebuild = True, al_warning = Some (t ''db:adapters.sqliteAddConstraintWarning'' [])\<rparr>"

definition sqlite_previewDropConstraintSql ::
  "translator \<Rightarrow> string \<Rightarrow> table_structure \<Rightarrow> string list \<Rightarrow> constraint_meta \<Rightarrow> alter_plan" where
  "sqlite_previewDropConstraintSql t tableName struct indexSqls c =
     \<lparr>al_sqls = map rebuild_text (constraint_rebuild tableName struct
        (concat (map existing_fk (filter (\<lambda>k. dk_name k \<noteq> dk_name c) (ts_constraints struct)))) indexSqls),
      al_isRebuild = True, al_warning = Some (t ''db:adapters.sqliteDropConstraintWarning'' [])\<rparr>"

subsection \<open>What the rebuild does to the table and its rows\<close>

text \<open>
  A database: tables by name, each with its clauses and its rows. The locale says what SQLite does with the
  statements of a rebuild that it carries out. Of SQLite itself are parameters the value \<open>dflt\<close> that a default clause stands for, the
  conversion \<open>conv\<close> of a value that is stored in a column of a declared type (its affinity), and whether a row \<open>fits\<close> a table, which
  it does not where it breaks a constraint or would be given a number for a key that is NULL.
\<close>

record 'v sq_table =
  tb_clauses :: "table_clause list"
  tb_rows :: "(string \<Rightarrow> 'v option) list"

type_synonym 'v sq_db = "string \<Rightarrow> 'v sq_table option"

definition clause_default :: "(default_clause \<Rightarrow> 'v) \<Rightarrow> table_clause list \<Rightarrow> string \<Rightarrow> 'v option" where
  \<comment> \<open>the value of a column of a new row that the statement does not give\<close>
  "clause_default dflt cs n =
     map_of (concat (map (\<lambda>c. case c of ColumnClause m f \<Rightarrow> [(m, dflt (df_default f))] | _ \<Rightarrow> []) cs)) n"

fun clause_column :: "table_clause \<Rightarrow> (string \<times> string) list" where
  \<comment> \<open>name and type\<close>
  "clause_column (ColumnClause n f) = [(n, df_type f)]"
| "clause_column _ = []"

definition clause_columns :: "table_clause list \<Rightarrow> (string \<times> string) list" where
  "clause_columns cs = concat (map clause_column cs)"

definition copied_row :: "(default_clause \<Rightarrow> 'v) \<Rightarrow> (string \<Rightarrow> 'v \<Rightarrow> 'v) \<Rightarrow> table_clause list \<Rightarrow> string list \<Rightarrow> string list \<Rightarrow>
    (string \<Rightarrow> 'v option) \<Rightarrow> string \<Rightarrow> 'v option" where
  "copied_row dflt conv cs ns ms row n =
     (case map_of (zip ns ms) n of
        Some m \<Rightarrow> map_option (conv (nullish (map_of (clause_columns cs) n) [])) (row m)
      | None \<Rightarrow> clause_default dflt cs n)"

fun run_rebuild :: "(rebuild_stmt \<Rightarrow> 'db \<Rightarrow> 'db option) \<Rightarrow> rebuild_stmt list \<Rightarrow> 'db \<Rightarrow> 'db option" where
  "run_rebuild exec [] db = Some db"
| "run_rebuild exec (s # ss) db = Option.bind (exec s db) (run_rebuild exec ss)"

lemma run_rebuild_append: "run_rebuild exec (ss @ ss') db = Option.bind (run_rebuild exec ss db) (run_rebuild exec ss')"
  by (induction ss arbitrary: db) (auto split: Option.bind_split)

locale sqlite_server =
  fixes exec :: "rebuild_stmt \<Rightarrow> 'v sq_db \<Rightarrow> 'v sq_db option"
    and dflt :: "default_clause \<Rightarrow> 'v"
    and conv :: "string \<Rightarrow> 'v \<Rightarrow> 'v"
    and fits :: "table_clause list \<Rightarrow> (string \<Rightarrow> 'v option) \<Rightarrow> bool"
    and good_index :: "string \<Rightarrow> bool" \<comment> \<open>the statement fits the columns of the table\<close>
  assumes exec_control: "exec (ForeignKeys b) db = Some db" "exec BeginTransaction db = Some db"
      "exec CommitTransaction db = Some db"
    and exec_index: "good_index i \<Longrightarrow> exec (IndexSql i) db = Some db"
    and exec_drop_if: "exec (DropIfExists n) db = Some (db(n := None))"
    and exec_create: "db n = None \<Longrightarrow> exec (CreateTable n cs) db = Some (db(n \<mapsto> \<lparr>tb_clauses = cs, tb_rows = []\<rparr>))"
    and exec_copy: "db n = Some t \<Longrightarrow> db m = Some u \<Longrightarrow> length ns = length ms \<Longrightarrow>
      set ns \<subseteq> fst ` set (clause_columns (tb_clauses t)) \<Longrightarrow> set ms \<subseteq> fst ` set (clause_columns (tb_clauses u)) \<Longrightarrow>
      \<forall>row\<in>set (tb_rows u). fits (tb_clauses t) (copied_row dflt conv (tb_clauses t) ns ms row) \<Longrightarrow>
      exec (CopyRows n ns m ms) db =
        Some (db(n \<mapsto> t\<lparr>tb_rows := tb_rows t @ map (copied_row dflt conv (tb_clauses t) ns ms) (tb_rows u)\<rparr>))"
    and exec_drop_table: "db n = Some t \<Longrightarrow> exec (DropTable n) db = Some (db(n := None))"
    and exec_rename: "db n = Some t \<Longrightarrow> db m = None \<Longrightarrow> n \<noteq> m \<Longrightarrow>
      exec (RenameTable n m) db = Some ((db(n := None))(m \<mapsto> t))"
begin

lemma run_indexes: "list_all good_index is \<Longrightarrow> run_rebuild exec (map IndexSql is) db = Some db"
  by (induction "is") (simp_all add: exec_index)

lemma run_copying:
  assumes "db tableName = Some u" and "length ns = length ms" and "list_all good_index is"
    and "set ns \<subseteq> fst ` set (clause_columns cs)" "set ms \<subseteq> fst ` set (clause_columns (tb_clauses u))"
    and "\<forall>row\<in>set (tb_rows u). fits cs (copied_row dflt conv cs ns ms row)"
  defines "tmp \<equiv> tempTableName tableName"
  shows "run_rebuild exec ([ForeignKeys False, BeginTransaction, DropIfExists tmp, CreateTable tmp cs,
      CopyRows tmp ns tableName ms, DropTable tableName, RenameTable tmp tableName] @
      map IndexSql is @ [CommitTransaction, ForeignKeys True]) db =
    Some ((db(tmp := None))(tableName \<mapsto>
      \<lparr>tb_clauses = cs, tb_rows = map (copied_row dflt conv cs ns ms) (tb_rows u)\<rparr>))"
proof -
  have ne: "tmp \<noteq> tableName" by (simp add: tmp_def tempTableName_def)
  let ?t = "\<lparr>tb_clauses = cs, tb_rows = []\<rparr>"
  let ?t' = "\<lparr>tb_clauses = cs, tb_rows = map (copied_row dflt conv cs ns ms) (tb_rows u)\<rparr>"
  have "exec (CreateTable tmp cs) (db(tmp := None)) = Some (db(tmp \<mapsto> ?t))"
    using exec_create [of "db(tmp := None)"] by simp
  moreover have "exec (CopyRows tmp ns tableName ms) (db(tmp \<mapsto> ?t)) = Some (db(tmp \<mapsto> ?t'))"
    using exec_copy [of "db(tmp \<mapsto> ?t)" tmp ?t tableName u ns ms] assms(1,2,4,5,6) ne by simp
  moreover have "exec (DropTable tableName) (db(tmp \<mapsto> ?t')) = Some ((db(tmp \<mapsto> ?t'))(tableName := None))"
    using exec_drop_table [of "db(tmp \<mapsto> ?t')" tableName u] assms(1) ne by simp
  moreover have "exec (RenameTable tmp tableName) ((db(tmp \<mapsto> ?t'))(tableName := None)) =
      Some ((db(tmp := None))(tableName \<mapsto> ?t'))"
    using exec_rename [of "(db(tmp \<mapsto> ?t'))(tableName := None)" tmp ?t' tableName] ne
    by (simp add: fun_upd_twist)
  ultimately show ?thesis
    by (simp add: run_rebuild_append run_indexes [OF assms(3)] exec_control exec_drop_if)
qed

end

definition model_sqlite :: "(default_clause \<Rightarrow> 'v) \<Rightarrow> (string \<Rightarrow> 'v \<Rightarrow> 'v) \<Rightarrow> (table_clause list \<Rightarrow> (string \<Rightarrow> 'v option) \<Rightarrow> bool) \<Rightarrow>
    rebuild_stmt \<Rightarrow> 'v sq_db \<Rightarrow> 'v sq_db option" where
  "model_sqlite dflt conv fits s db =
     (case s of
        DropIfExists n \<Rightarrow> Some (db(n := None))
      | CreateTable n cs \<Rightarrow> if db n = None then Some (db(n \<mapsto> \<lparr>tb_clauses = cs, tb_rows = []\<rparr>)) else None
      | CopyRows n ns m ms \<Rightarrow>
          (case (db n, db m) of
             (Some t, Some u) \<Rightarrow>
               if set ns \<subseteq> fst ` set (clause_columns (tb_clauses t)) \<and> set ms \<subseteq> fst ` set (clause_columns (tb_clauses u)) \<and>
                  (\<forall>row\<in>set (tb_rows u). fits (tb_clauses t) (copied_row dflt conv (tb_clauses t) ns ms row))
               then Some (db(n \<mapsto> t\<lparr>tb_rows := tb_rows t @ map (copied_row dflt conv (tb_clauses t) ns ms) (tb_rows u)\<rparr>))
               else None
           | _ \<Rightarrow> None)
      | DropTable n \<Rightarrow> if db n = None then None else Some (db(n := None))
      | RenameTable n m \<Rightarrow>
          (case db n of Some t \<Rightarrow> if db m = None then Some ((db(n := None))(m \<mapsto> t)) else None | None \<Rightarrow> None)
      | _ \<Rightarrow> Some db)"

interpretation model_sqlite: sqlite_server "model_sqlite dflt conv fits" dflt conv fits "\<lambda>_. True" for dflt conv fits
  by unfold_locales (auto simp: model_sqlite_def)

definition sqlite_obeys :: "(default_clause \<Rightarrow> 'v) \<Rightarrow> (string \<Rightarrow> 'v \<Rightarrow> 'v) \<Rightarrow> (table_clause list \<Rightarrow> (string \<Rightarrow> 'v option) \<Rightarrow> bool) \<Rightarrow>
    (rebuild_stmt \<Rightarrow> 'v sq_db \<Rightarrow> 'v sq_db option) \<Rightarrow> bool" where
  \<comment> \<open>any statement may be refused; one that is carried out does what is documented\<close>
  "sqlite_obeys dflt conv fits exec \<longleftrightarrow>
     (\<forall>s db db'. model_sqlite dflt conv fits s db = Some db' \<longrightarrow> exec s db \<in> {None, Some db'})"

lemma obeys_rebuild:
  assumes "sqlite_obeys dflt conv fits exec"
    and "run_rebuild (model_sqlite dflt conv fits) ss db = Some u" "run_rebuild exec ss db = Some v"
  shows "v = u"
  using assms(2,3)
proof (induction ss arbitrary: db)
  case (Cons s ss)
  then obtain w where w: "model_sqlite dflt conv fits s db = Some w" "run_rebuild (model_sqlite dflt conv fits) ss w = Some u"
    by (auto simp: bind_eq_Some_conv)
  from Cons.prems(2) obtain y where y: "exec s db = Some y" "run_rebuild exec ss y = Some v" by (auto simp: bind_eq_Some_conv)
  from assms(1) w(1) have "exec s db \<in> {None, Some w}" unfolding sqlite_obeys_def by blast
  with y have "y = w" by auto
  with w y Cons.IH show ?case by blast
qed simp

lemma editor_kept_original:
  assumes "editor_inv ed" "c \<in> set (se_cols ed)"
  shows "original (se_orig ed) c \<noteq> None \<longleftrightarrow> kept_column c"
  using assms(1)
proof (rule editor_invE)
  fix ks ns
  assume s: "list_all loaded_column (se_orig ed)" "distinct (map dc_name (se_orig ed))" "se_cols ed = ks @ ns"
    "list_all kept_column ks" "list_all added_column ns" "subseq (map orig_name ks) (map dc_name (se_orig ed))"
  show ?thesis
  proof (cases "c \<in> set ks")
    case True
    then have k: "kept_column c" using s(4) by (auto simp: list_all_iff)
    from True have "orig_name c \<in> dc_name ` set (se_orig ed)"
      using list_emb_set [OF s(6), of "orig_name c"] by auto
    then obtain o' where "o' \<in> set (se_orig ed)" "dc_name o' = orig_name c" by auto
    with original_eq [OF s(1,2), of o' c] k have "original (se_orig ed) c = Some o'"
      by (cases "dc_origName c") (auto simp: kept_column_def orig_name_def)
    with k show ?thesis by simp
  next
    case False
    then have "added_column c" using assms(2) s(3,5) by (auto simp: list_all_iff)
    then show ?thesis by (simp add: added_column_def kept_column_def original_def)
  qed
qed

lemma map_of_zip_map: "distinct (map f xs) \<Longrightarrow> x \<in> set xs \<Longrightarrow> map_of (zip (map f xs) (map g xs)) (f x) = Some (g x)"
  by (induction xs) (auto simp: rev_image_eqI)

lemma clause_default_columns:
  "concat (map (\<lambda>c. case c of ColumnClause m f \<Rightarrow> [(m, dflt (df_default f))] | _ \<Rightarrow> []) (column_clauses def cs)) =
     map (\<lambda>c. (dc_name c, dflt (df_default (def c)))) cs"
proof -
  let ?f = "\<lambda>c. case c of ColumnClause m f \<Rightarrow> [(m, dflt (df_default f))] | _ \<Rightarrow> []"
  have "concat (map ?f (map (\<lambda>c. ColumnClause (dc_name c) (def c)) cs)) = map (\<lambda>c. (dc_name c, dflt (df_default (def c)))) cs"
    by (induction cs) simp_all
  moreover have "concat (map ?f (if pks = [] then [] else [PrimaryKeyClause pks])) = []" for pks
    by simp
  ultimately show ?thesis
    unfolding column_clauses_def Let_def by (simp only: map_append concat_append append_Nil2)
qed

lemma clause_default_column:
  assumes "distinct (map dc_name cs)" "c \<in> set cs"
  shows "clause_default dflt (column_clauses def cs) (dc_name c) = Some (dflt (df_default (def c)))"
  using assms unfolding clause_default_def clause_default_columns by (simp add: map_of_eq_Some_iff o_def)

lemma rebuild_plan:
  assumes "sqlite_generateAlterTableSql tr table indexes cur orig = plan" "al_isRebuild plan"
  shows "requiresRebuild cur orig" "al_sqls plan = map rebuild_text (rebuild_stmts table cur orig indexes)"
    "CreateTable (tempTableName table) (column_clauses sqlite_def cur) \<in> set (rebuild_stmts table cur orig indexes)"
  using assms by (auto simp: sqlite_generateAlterTableSql_def rebuild_stmts_def Let_def split: if_splits)

lemma clause_columns_column: "clause_columns (column_clauses def cs) = map (\<lambda>c. (dc_name c, df_type (def c))) cs"
proof -
  have "concat (map clause_column (map (\<lambda>c. ColumnClause (dc_name c) (def c)) cs)) = map (\<lambda>c. (dc_name c, df_type (def c))) cs"
    by (induction cs) simp_all
  moreover have "concat (map clause_column (if pks = [] then [] else [PrimaryKeyClause pks])) = []" for pks
    by simp
  ultimately show ?thesis
    unfolding clause_columns_def column_clauses_def Let_def by (simp only: map_append concat_append append_Nil2)
qed

definition new_row :: "(default_clause \<Rightarrow> 'v) \<Rightarrow> (string \<Rightarrow> 'v \<Rightarrow> 'v) \<Rightarrow> column_meta list \<Rightarrow> (string \<Rightarrow> 'v option) \<Rightarrow> string \<Rightarrow> 'v option" where
  \<comment> \<open>the specification: a column that stays has its old value, converted to its type, a new one its default\<close>
  "new_row dflt conv cols old n =
     (case find (\<lambda>c. dc_name c = n) cols of
        None \<Rightarrow> None
      | Some c \<Rightarrow> if kept_column c then map_option (conv (sqlite_type c)) (old (orig_name c))
                else Some (dflt (sqlite_default (dc_defaultVal c))))"

lemma find_name: "distinct (map dc_name cols) \<Longrightarrow> c \<in> set cols \<Longrightarrow> find (\<lambda>d. dc_name d = dc_name c) cols = Some c"
  by (induction cols) (auto simp: rev_image_eqI)

lemma copied_new_row:
  assumes "distinct (map dc_name cols)"
  defines "mc \<equiv> filter kept_column cols"
  shows "copied_row dflt conv (column_clauses sqlite_def cols) (map dc_name mc) (map orig_name mc) = new_row dflt conv cols"
proof (intro ext)
  fix old n
  have d: "distinct (map dc_name mc)" using assms(1) by (simp add: mc_def distinct_map_filter)
  show "copied_row dflt conv (column_clauses sqlite_def cols) (map dc_name mc) (map orig_name mc) old n = new_row dflt conv cols old n"
  proof (cases "n \<in> dc_name ` set cols")
    case True
    then obtain c where c: "c \<in> set cols" "n = dc_name c" by blast
    have ty: "map_of (clause_columns (column_clauses sqlite_def cols)) n = Some (sqlite_type c)"
      unfolding clause_columns_column c(2) using assms(1) c(1) by (intro map_of_is_SomeI) (auto simp: comp_def sqlite_def_def)
    show ?thesis
    proof (cases "kept_column c")
      case True
      then have "map_of (zip (map dc_name mc) (map orig_name mc)) n = Some (orig_name c)"
        using c d by (simp add: map_of_zip_map mc_def)
      with True ty find_name [OF assms(1) c(1)] c(2) show ?thesis by (simp add: copied_row_def new_row_def nullish_def)
    next
      case False
      have "n \<notin> set (map dc_name mc)"
        using False assms(1) c by (auto simp: mc_def distinct_map inj_on_def)
      then have "map_of (zip (map dc_name mc) (map orig_name mc)) n = None" by (subst map_of_zip_is_None) simp_all
      with False c(2) show ?thesis
        by (simp only: option.case copied_row_def clause_default_column [OF assms(1) c(1)] new_row_def find_name [OF assms(1) c(1)] if_False)
          (simp add: sqlite_def_def)
    qed
  next
    case False
    then have "n \<notin> set (map dc_name mc)" by (auto simp: mc_def)
    then have "map_of (zip (map dc_name mc) (map orig_name mc)) n = None" by (subst map_of_zip_is_None) simp_all
    moreover have "clause_default dflt (column_clauses sqlite_def cols) n = None"
      using False unfolding clause_default_def clause_default_columns by (simp add: map_of_eq_None_iff image_image)
    moreover have "find (\<lambda>c. dc_name c = n) cols = None" using False by (auto simp: find_None_iff)
    ultimately show ?thesis by (simp only: copied_row_def new_row_def option.case)
  qed
qed

lemma rebuild_runs:
  assumes "sqlite_server exec dflt conv fits good_index" "editor_inv ed" "requiresRebuild (se_cols ed) (se_orig ed)"
    and "db table = Some u" "distinct (map dc_name (se_cols ed))"
    and "list_all good_index (kept_indexes (droppedCols (se_cols ed) (se_orig ed)) indexes)"
    and "map fst (clause_columns (tb_clauses u)) = map dc_name (se_orig ed)"
    and "\<forall>row\<in>set (tb_rows u). fits (column_clauses sqlite_def (se_cols ed)) (new_row dflt conv (se_cols ed) row)"
  shows "run_rebuild exec (rebuild_stmts table (se_cols ed) (se_orig ed) indexes) db =
    Some ((db(tempTableName table := None))(table \<mapsto>
      \<lparr>tb_clauses = column_clauses sqlite_def (se_cols ed), tb_rows = map (new_row dflt conv (se_cols ed)) (tb_rows u)\<rparr>))"
proof -
  let ?cols = "se_cols ed"
  define mc where "mc = filter kept_column (se_cols ed)"
  have mc: "filter (\<lambda>c. original (se_orig ed) c \<noteq> None) ?cols = mc"
    unfolding mc_def by (rule filter_cong [OF refl]) (rule editor_kept_original [OF assms(2)])
  have ne: "mc \<noteq> []"
    using assms(3) unfolding mc [symmetric] requiresRebuild_def
    by (auto simp: list_ex_iff filter_empty_conv split: option.splits)
  have "map (\<lambda>c. the (dc_origName c)) mc = map orig_name mc" by (simp add: orig_name_def)
  then have ss: "rebuild_stmts table ?cols (se_orig ed) indexes =
      [ForeignKeys False, BeginTransaction, DropIfExists (tempTableName table),
       CreateTable (tempTableName table) (column_clauses sqlite_def ?cols),
       CopyRows (tempTableName table) (map dc_name mc) table (map orig_name mc),
       DropTable table, RenameTable (tempTableName table) table] @
      map IndexSql (kept_indexes (droppedCols ?cols (se_orig ed)) indexes) @ [CommitTransaction, ForeignKeys True]"
    using ne unfolding rebuild_stmts_def Let_def mc by simp
  note copied = copied_new_row [OF assms(5), folded mc_def]
  have "set (map orig_name mc) \<subseteq> set (map dc_name (se_orig ed))"
    using assms(2)
  proof (rule editor_invE)
    fix ks ns
    assume s: "se_cols ed = ks @ ns" "list_all added_column ns" "subseq (map orig_name ks) (map dc_name (se_orig ed))"
    then have "set mc \<subseteq> set ks" by (auto simp: mc_def list_all_iff added_column_def kept_column_def)
    then have "set (map orig_name mc) \<subseteq> set (map orig_name ks)" by auto
    also have "\<dots> \<subseteq> set (map dc_name (se_orig ed))"
    proof
      fix x assume "x \<in> set (map orig_name ks)"
      from list_emb_set [OF s(3) this] show "x \<in> set (map dc_name (se_orig ed))" by blast
    qed
    finally show "set (map orig_name mc) \<subseteq> set (map dc_name (se_orig ed))" .
  qed
  then have names: "set (map orig_name mc) \<subseteq> fst ` set (clause_columns (tb_clauses u))"
    using arg_cong [OF assms(7), of set] by simp
  show ?thesis
    unfolding ss copied [symmetric]
  proof (rule sqlite_server.run_copying [where tableName = table and ns = "map dc_name mc" and ms = "map orig_name mc" and u = u
        and db = db and conv = conv and fits = fits and dflt = dflt and cs = "column_clauses sqlite_def ?cols", OF assms(1) assms(4) _ assms(6) _ names])
    show "set (map dc_name mc) \<subseteq> fst ` set (clause_columns (column_clauses sqlite_def ?cols))"
      by (auto simp: clause_columns_column mc_def image_image)
    show "\<forall>row\<in>set (tb_rows u). fits (column_clauses sqlite_def ?cols)
        (copied_row dflt conv (column_clauses sqlite_def ?cols) (map dc_name mc) (map orig_name mc) row)"
      unfolding copied by (rule assms(8))
  qed simp
qed

text \<open>
  C6: the rebuild loses no row. Where every row fits the new table, the statements of the plan fit together, so that the reference server
  carries them out; and a server that carries them all out has the same rows in the same order, a column that stays with its old value
  under its new name, converted to the type on screen as SQLite does, a new column with its default, and the columns and the primary
  key of the screen. Other tables do not change.
\<close>

theorem rebuild_keeps_rows:
  assumes "sqlite_obeys dflt conv fits exec" "editor_inv ed"
    and "sqlite_generateAlterTableSql tr table indexes (se_cols ed) (se_orig ed) = plan" "al_isRebuild plan"
    and "distinct (map dc_name (se_cols ed))" "db table = Some u"
    and "map fst (clause_columns (tb_clauses u)) = map dc_name (se_orig ed)"
    and "\<forall>row\<in>set (tb_rows u). fits (column_clauses sqlite_def (se_cols ed)) (new_row dflt conv (se_cols ed) row)"
  shows "\<exists>ss. al_sqls plan = map rebuild_text ss \<and> run_rebuild (model_sqlite dflt conv fits) ss db \<noteq> None \<and>
    (\<forall>db'. run_rebuild exec ss db = Some db' \<longrightarrow>
       (\<exists>t. db' table = Some t \<and> tb_clauses t = column_clauses sqlite_def (se_cols ed) \<and>
          tb_rows t = map (new_row dflt conv (se_cols ed)) (tb_rows u)) \<and>
       (\<forall>n. n \<noteq> table \<and> n \<noteq> tempTableName table \<longrightarrow> db' n = db n))"
proof -
  note plan = rebuild_plan [OF assms(3,4)]
  have good: "list_all (\<lambda>_. True) is" for "is" :: "string list" by (simp add: list_all_iff)
  note run = rebuild_runs [where db = db and u = u and exec = "model_sqlite dflt conv fits" and dflt = dflt and conv = conv and fits = fits
      and good_index = "\<lambda>_. True" and indexes = indexes and ed = ed and table = table,
      OF model_sqlite.sqlite_server_axioms assms(2) plan(1) assms(6,5) good assms(7,8)]
  show ?thesis
  proof (intro exI conjI allI impI)
    show "al_sqls plan = map rebuild_text (rebuild_stmts table (se_cols ed) (se_orig ed) indexes)" by (rule plan(2))
    show "run_rebuild (model_sqlite dflt conv fits) (rebuild_stmts table (se_cols ed) (se_orig ed) indexes) db \<noteq> None"
      unfolding run by simp
    fix db'
    assume "run_rebuild exec (rebuild_stmts table (se_cols ed) (se_orig ed) indexes) db = Some db'"
    note db' = obeys_rebuild [OF assms(1) run this]
    show "db' table = Some \<lparr>tb_clauses = column_clauses sqlite_def (se_cols ed), tb_rows = map (new_row dflt conv (se_cols ed)) (tb_rows u)\<rparr>"
      by (simp add: db')
    show "db' n = db n" if "n \<noteq> table \<and> n \<noteq> tempTableName table" for n using that by (simp add: db')
  qed simp_all
qed

subsection \<open>What the rebuild loses\<close>

definition is_foreign_key :: "table_clause \<Rightarrow> bool" where
  "is_foreign_key cl = (case cl of ForeignKeyClause _ _ _ _ _ \<Rightarrow> True | _ \<Rightarrow> False)"

lemma column_clauses_no_fk: "\<not> list_ex is_foreign_key (column_clauses def cs)"
  by (auto simp: column_clauses_def Let_def is_foreign_key_def list_ex_iff)

text \<open>
  C38: whatever foreign keys the table had, no statement of a rebuild writes one, and a server that carries the statements out is left
  with a table without any: only the statements for constraints write them again.
\<close>

theorem rebuild_loses_foreign_keys:
  assumes "sqlite_obeys dflt conv fits exec" "editor_inv ed"
    and "sqlite_generateAlterTableSql tr table indexes (se_cols ed) (se_orig ed) = plan" "al_isRebuild plan"
    and "distinct (map dc_name (se_cols ed))" "db table = Some u" "list_ex is_foreign_key (tb_clauses u)"
    and "map fst (clause_columns (tb_clauses u)) = map dc_name (se_orig ed)"
    and "\<forall>row\<in>set (tb_rows u). fits (column_clauses sqlite_def (se_cols ed)) (new_row dflt conv (se_cols ed) row)"
  shows "\<exists>ss. al_sqls plan = map rebuild_text ss \<and> run_rebuild (model_sqlite dflt conv fits) ss db \<noteq> None \<and>
    (\<forall>n cs. CreateTable n cs \<in> set ss \<longrightarrow> \<not> list_ex is_foreign_key cs) \<and>
    (\<forall>db'. run_rebuild exec ss db = Some db' \<longrightarrow> (\<exists>t. db' table = Some t \<and> \<not> list_ex is_foreign_key (tb_clauses t)))"
proof -
  note plan = rebuild_plan [OF assms(3,4)]
  have good: "list_all (\<lambda>_. True) is" for "is" :: "string list" by (simp add: list_all_iff)
  note run = rebuild_runs [where db = db and u = u and exec = "model_sqlite dflt conv fits" and dflt = dflt and conv = conv and fits = fits
      and good_index = "\<lambda>_. True" and indexes = indexes and ed = ed and table = table,
      OF model_sqlite.sqlite_server_axioms assms(2) plan(1) assms(6,5) good assms(8,9)]
  let ?ss = "rebuild_stmts table (se_cols ed) (se_orig ed) indexes"
  have "run_rebuild (model_sqlite dflt conv fits) ?ss db \<noteq> None" unfolding run by simp
  moreover have "\<forall>n cs. CreateTable n cs \<in> set ?ss \<longrightarrow> \<not> list_ex is_foreign_key cs"
    by (auto simp: rebuild_stmts_def Let_def column_clauses_no_fk)
  moreover have "\<exists>t. db' table = Some t \<and> \<not> list_ex is_foreign_key (tb_clauses t)" if "run_rebuild exec ?ss db = Some db'" for db'
    using obeys_rebuild [OF assms(1) run that] by (simp add: column_clauses_no_fk)
  ultimately show ?thesis using plan(2) by blast
qed

text \<open>
  The backend answers a default as an object (\<open>sql.NullString\<close>), of which \<open>String\<close> makes
  \<open>[object Object]\<close>: a rebuild for one changed type gives every column that text as its default.
\<close>

theorem rebuild_writes_object_defaults:
  assumes "ed = handleStructColChange i (SetType ty) (open_structure (sqlite_loadStructure table infos ixs fks))"
    and "sqlite_generateAlterTableSql tr table indexes (se_cols ed) (se_orig ed) = plan" "al_isRebuild plan"
    and "info \<in> set infos" "sc_default info = JObj es"
  shows "\<exists>ss cs f. al_sqls plan = map rebuild_text ss \<and> CreateTable (tempTableName table) cs \<in> set ss \<and>
    ColumnClause (sc_name info) f \<in> set cs \<and> df_default f = TextDefault ''[object Object]''"
proof -
  let ?S = "sqlite_loadStructure table infos ixs fks"
  obtain j where j: "j < length infos" "infos ! j = info" using assms(4) by (auto simp: in_set_conv_nth)
  let ?c = "se_cols ed ! j"
  have l: "length (se_cols ed) = length infos"
    by (simp add: assms(1) handleStructColChange_def open_structure_def sqlite_loadStructure_def Let_def)
  have "dc_name ?c = sc_name info" "dc_defaultVal ?c = ''[object Object]''"
    using j assms(5) by (cases "i = j"; simp add: assms(1) handleStructColChange_def open_structure_def
        sqlite_loadStructure_def sqlite_column_meta_def default_string_def is_nullish_def Let_def)+
  moreover have "sqlite_default ''[object Object]'' = TextDefault ''[object Object]''"
    by code_simp
  moreover have "?c \<in> set (se_cols ed)" using j l by simp
  ultimately have "ColumnClause (sc_name info) (sqlite_def ?c) \<in> set (column_clauses sqlite_def (se_cols ed))"
    "df_default (sqlite_def ?c) = TextDefault ''[object Object]''"
    by (auto simp: column_clauses_def sqlite_def_def intro!: image_eqI [of _ _ ?c])
  with rebuild_plan(2,3) [OF assms(2,3)] show ?thesis by blast
qed

subsection \<open>An example\<close>

definition demo_infos :: "sqlite_column_info list" where
  "demo_infos =
    [\<lparr>sc_name = ''id'', sc_type = ''INTEGER'', sc_notnull = 1,
      sc_default = JObj [(''String'', JStr []), (''Valid'', JBool False)], sc_pk = 1\<rparr>,
     \<lparr>sc_name = ''owner'', sc_type = ''INTEGER'', sc_notnull = 0,
      sc_default = JObj [(''String'', JStr []), (''Valid'', JBool False)], sc_pk = 0\<rparr>]"

definition demo_sqlite :: struct_editor where
  "demo_sqlite = handleStructColChange 1 (SetType ''TEXT'')
     (open_structure (sqlite_loadStructure ''pet'' demo_infos [] [JObj [(''from'', JStr ''owner''), (''table'', JStr ''people''), (''to'', JStr ''id'')]]))"

definition demo_rebuild :: alter_plan where
  "demo_rebuild = sqlite_generateAlterTableSql (\<lambda>k _. k) ''pet'' [] (se_cols demo_sqlite) (se_orig demo_sqlite)"

definition demo_pet :: "nat sq_table" where
  "demo_pet = \<lparr>tb_clauses = column_clauses sqlite_def (se_orig demo_sqlite) @ [ForeignKeyClause ''fk'' ''owner'' ''people'' ''id'' []],
     tb_rows = [[''id'' \<mapsto> 1, ''owner'' \<mapsto> 7]]\<rparr>"

definition demo_conv :: "string \<Rightarrow> nat \<Rightarrow> nat" where
  \<comment> \<open>a conversion that shows\<close>
  "demo_conv ty v = (if ty = ''TEXT'' then v + 100 else v)"

definition demo_fits :: "table_clause list \<Rightarrow> (string \<Rightarrow> nat option) \<Rightarrow> bool" where
  "demo_fits cs row \<longleftrightarrow> row ''id'' \<noteq> None"

definition demo_exec :: "rebuild_stmt \<Rightarrow> nat sq_db \<Rightarrow> nat sq_db option" where
  "demo_exec = model_sqlite (\<lambda>_. 0) demo_conv demo_fits"

lemma demo_obeys: "sqlite_obeys (\<lambda>_. 0) demo_conv demo_fits demo_exec"
  by (simp add: sqlite_obeys_def demo_exec_def)

lemma demo_sqlite_inv: "editor_inv demo_sqlite"
  unfolding demo_sqlite_def by (rule change_inv, rule open_structure_inv) (code_simp+)

lemma demo_rebuild_plan: "al_isRebuild demo_rebuild" "distinct (map dc_name (se_cols demo_sqlite))"
    "kept_indexes (droppedCols (se_cols demo_sqlite) (se_orig demo_sqlite)) [] = []"
  by code_simp+

lemma demo_rebuild_eq:
  "sqlite_generateAlterTableSql (\<lambda>k _. k) ''pet'' [] (se_cols demo_sqlite) (se_orig demo_sqlite) = demo_rebuild"
  by (simp only: demo_rebuild_def)

lemma demo_pet_fits:
  "map fst (clause_columns (tb_clauses demo_pet)) = map dc_name (se_orig demo_sqlite)"
  "\<forall>row\<in>set (tb_rows demo_pet). demo_fits (column_clauses sqlite_def (se_cols demo_sqlite)) (new_row (\<lambda>_. 0) demo_conv (se_cols demo_sqlite) row)"
  by code_simp+

theorem rebuild_keeps_rows_witness:
  "\<exists>ss. al_sqls demo_rebuild = map rebuild_text ss \<and>
    (\<forall>db'. run_rebuild demo_exec ss [''pet'' \<mapsto> demo_pet] = Some db' \<longrightarrow>
       (\<exists>t row. db' ''pet'' = Some t \<and> tb_rows t = [row] \<and> row ''owner'' = Some 107))"
proof -
  have "new_row (\<lambda>_. 0) demo_conv (se_cols demo_sqlite) [''id'' \<mapsto> 1, ''owner'' \<mapsto> 7] ''owner'' = Some 107" by code_simp
  then show ?thesis
    using rebuild_keeps_rows [OF demo_obeys demo_sqlite_inv demo_rebuild_eq demo_rebuild_plan(1,2) _ demo_pet_fits,
        of "[''pet'' \<mapsto> demo_pet]"]
    by (fastforce simp: demo_pet_def)
qed

theorem rebuild_loses_foreign_keys_witness:
  "\<exists>ss. al_sqls demo_rebuild = map rebuild_text ss \<and>
    (\<forall>db'. run_rebuild demo_exec ss [''pet'' \<mapsto> demo_pet] = Some db' \<longrightarrow> (\<exists>t. db' ''pet'' = Some t \<and> \<not> list_ex is_foreign_key (tb_clauses t)))"
proof -
  have "list_ex is_foreign_key (tb_clauses demo_pet)" by code_simp
  from rebuild_loses_foreign_keys [OF demo_obeys demo_sqlite_inv demo_rebuild_eq demo_rebuild_plan(1,2) _ this demo_pet_fits,
      of "[''pet'' \<mapsto> demo_pet]"] show ?thesis by auto
qed

theorem rebuild_writes_object_defaults_witness:
  "\<exists>ss cs f. al_sqls demo_rebuild = map rebuild_text ss \<and> CreateTable (tempTableName ''pet'') cs \<in> set ss \<and>
    ColumnClause ''id'' f \<in> set cs \<and> df_default f = TextDefault ''[object Object]''"
  using rebuild_writes_object_defaults [OF demo_sqlite_def demo_rebuild_eq demo_rebuild_plan(1), of "demo_infos ! 0"]
  by (simp add: demo_infos_def)

end
