(* ===== verification/DbAlterPlans.thy ===== *)
theory DbAlterPlans
  imports DbRebuild
begin

section \<open>The plans of the three adapters do what the screen shows\<close>

text \<open>
  The statements of each adapter meet the contract \<open>adapter_plan\<close>. With the checks of
  \<open>handleSaveStructChanges\<close> and names that do not take each other's place, running the plan turns the
  table that was loaded into the table on screen.
\<close>

subsection \<open>Names that pass the check\<close>

lemma prefix_map_fixed:
  assumes "\<And>x. f x \<in> A \<or> x \<in> A \<Longrightarrow> f x = x" and "set w \<subseteq> A"
  shows "prefix w (map f s) \<longleftrightarrow> prefix w s"
  using assms(2)
proof (induction w arbitrary: s)
  case (Cons c w)
  then have eq: "c = f x \<longleftrightarrow> c = x" for x
    using assms(1) [of x] assms(1) [of c] by auto
  from Cons show ?case by (cases s) (auto simp: eq)
qed simp

lemma strip_with_map:
  assumes "\<And>x. f x \<in> A \<or> x \<in> A \<Longrightarrow> f x = x" and "\<And>w. w \<in> set ws \<Longrightarrow> set w \<subseteq> A"
  shows "strip_with ws n (map f s) = map f (strip_with ws n s)"
proof (induction n arbitrary: s)
  case (Suc n)
  have "find (\<lambda>w. prefix w (map f s)) ws = find (\<lambda>w. prefix w s) ws"
    by (rule find_cong) (simp_all add: prefix_map_fixed [OF assms])
  with Suc show ?case by (simp add: drop_map split: option.split)
qed simp

lemma to_lower_char_white: "to_lower_char x \<in> white_bytes \<or> x \<in> white_bytes \<Longrightarrow> to_lower_char x = x"
proof (rule ccontr)
  assume a: "to_lower_char x \<in> white_bytes \<or> x \<in> white_bytes" and "to_lower_char x \<noteq> x"
  then have x: "65 \<le> (of_char x :: nat)" "(of_char x :: nat) \<le> 90" "to_lower_char x = char_of (of_char x + 32 :: nat)"
    by (auto simp: to_lower_char_def Let_def split: if_splits)
  have w: "\<forall>c\<in>white_bytes. (of_char c :: nat) < 65 \<or> 123 \<le> (of_char c :: nat)"
    by (simp add: white_bytes_def js_white_def)
  have "(of_char (to_lower_char x) :: nat) = of_char x + 32" using x by simp
  with a w x show False by force
qed

lemma trim_to_lower: "trim (to_lower s) = to_lower (trim s)"
proof -
  note f = to_lower_char_white
  have w: "w \<in> set js_white \<Longrightarrow> set w \<subseteq> white_bytes" for w by (auto simp: white_bytes_def)
  have w': "w \<in> set (map rev js_white) \<Longrightarrow> set w \<subseteq> white_bytes" for w by (auto simp: white_bytes_def)
  show ?thesis
    unfolding trim_def trim_left_def trim_right_def to_lower_def
    by (simp only: length_map rev_map strip_with_map [of to_lower_char white_bytes js_white, OF f w]
        strip_with_map [of to_lower_char white_bytes "map rev js_white", OF f w'])
qed

lemma first_duplicate_None:
  "first_duplicate seen ns = None \<longleftrightarrow> distinct (map to_lower ns) \<and> set (map to_lower ns) \<inter> set seen = {}"
  by (induction seen ns rule: first_duplicate.induct) auto

lemma checked_names:
  assumes "first_duplicate [] (map (\<lambda>c. trim (dc_name c)) cs) = None"
  shows "distinct (map (\<lambda>c. to_lower (dc_name c)) cs)" "distinct (map dc_name cs)"
proof -
  have "distinct (map trim (map (\<lambda>c. to_lower (dc_name c)) cs))"
    using assms by (simp add: first_duplicate_None o_def trim_to_lower)
  then show "distinct (map (\<lambda>c. to_lower (dc_name c)) cs)"
    by (auto simp: distinct_map inj_on_def)
  then show "distinct (map dc_name cs)" by (auto simp: distinct_map inj_on_def)
qed

lemma shown_plan:
  assumes "handleSaveStructChanges generate ed = ShowPlan plan"
  shows "generate (se_cols ed) (se_orig ed) = Inr plan"
    "distinct (map (\<lambda>c. to_lower (dc_name c)) (se_cols ed))" "distinct (map dc_name (se_cols ed))"
  using assms checked_names [of "se_cols ed"]
  by (auto simp: handleSaveStructChanges_def Let_def split: if_splits option.splits sum.splits)




subsection \<open>MySQL\<close>

definition shown :: "(string \<Rightarrow> default_clause) \<Rightarrow> column_meta \<Rightarrow> column_state \<Rightarrow> bool" where
  \<comment> \<open>the column of the table is what the screen shows\<close>
  "shown D c st \<longleftrightarrow> st_name st = dc_name c \<and> st_type st = dc_dataType c \<and> st_nullable st = dc_isNullable c
     \<and> st_default st = D (dc_defaultVal c) \<and> st_comment st = comment_of c"

definition mysql_result :: "column_meta list \<Rightarrow> column_meta \<Rightarrow> column_state \<Rightarrow> column_state" where
  "mysql_result origs c st =
     (if mysql_changed c (the (original origs c)) then new_state (dc_name c) (mysql_def c) else st)"

lemma original_name: "original origs c = Some o' \<Longrightarrow> dc_origName c = Some (dc_name o') \<and> o' \<in> set origs"
  by (cases "dc_origName c") (auto simp: original_def orig_map_def dest!: map_of_SomeD split: if_splits)

lemma mysql_shown: "shown mysql_default c (new_state (dc_name c) (mysql_def c))"
  by (simp add: shown_def new_state_def mysql_def_def)

lemma mysql_result_shown:
  "original origs c = Some o' \<Longrightarrow> shown mysql_default o' st \<Longrightarrow> shown mysql_default c (mysql_result origs c st)"
  by (auto simp: mysql_result_def mysql_shown) (auto simp: shown_def mysql_changed_def dest: original_name)

sublocale alter_server \<subseteq> mysql: adapter_plan norm exec mysql_column "shown mysql_default" mysql_result
    "\<lambda>c. new_state (dc_name c) (mysql_def c)"
proof
  fix origs c o' st xs ys
  assume a: "\<not> is_new origs c" "original origs c = Some o'" "shown mysql_default o' st"
    "distinct (names_of norm (xs @ st # ys))" "norm (dc_name c) \<notin> set (names_of norm (xs @ ys))"
  have o': "dc_origName c = Some (dc_name o')" "st_name st = dc_name o'"
    using original_name [OF a(2)] a(3) by (simp_all add: shown_def)
  have step: "exec s (xs @ st # ys) = Some (xs @ new_state (dc_name c) (mysql_def c) # ys)"
    if "subject s = Some (dc_name o')" "effect s st = new_state (dc_name c) (mysql_def c)" for s
    using exec_alter [OF a(4), of "dc_name o'" s] that a(5) o'(2) by (simp add: new_state_def)
  show "run_all exec (mysql_column origs c) (xs @ st # ys) = Some (xs @ mysql_result origs c st # ys)"
    using a(1,2) o' step [of "ChangeColumn (dc_name o') (dc_name c) (mysql_def c)"]
      step [of "ModifyColumn (dc_name c) (mysql_def c)"]
    by (auto simp: mysql_column_def mysql_result_def)
next
  fix origs c t
  assume "is_new origs c" "norm (dc_name c) \<notin> set (names_of norm t)"
  then show "run_all exec (mysql_column origs c) t = Some (t @ [new_state (dc_name c) (mysql_def c)])"
    using exec_add by (simp add: mysql_column_def)
next
  fix origs c o' st
  assume "original origs c = Some o'" "shown mysql_default o' st"
  then show "st_name (mysql_result origs c st) = dc_name c"
    using mysql_result_shown by (simp add: shown_def)
qed (simp_all add: new_state_def shown_def)

context alter_server
begin

lemmas mysql_plan = mysql.editor_plan

end



lemma list_all2_results:
  assumes "list_all2 M ks t" and "\<And>c st. M c st \<Longrightarrow> P c (r c st)" and "\<And>c. c \<in> set ns \<Longrightarrow> P c (a c)"
  shows "list_all2 P (ks @ ns) (map2 r ks t @ map a ns)"
proof (rule list_all2_appendI)
  show "list_all2 P ks (map2 r ks t)"
    using assms(1) by (induction rule: list_all2_induct) (simp_all add: assms(2))
  show "list_all2 P ns (map a ns)"
    using assms(3) by (auto simp: list_all2_conv_all_nth)
qed



subsection \<open>Postgres\<close>

definition pg_result :: "column_meta list \<Rightarrow> column_meta \<Rightarrow> column_state \<Rightarrow> column_state" where
  "pg_result origs c st =
     \<lparr>st_name = dc_name c, st_type = dc_dataType c, st_nullable = dc_isNullable c,
      st_default = pg_set_default (dc_defaultVal c), st_comment = comment_of c, st_extra = st_extra st\<rparr>"

definition pg_added :: "column_meta \<Rightarrow> column_state" where
  "pg_added c = (new_state (dc_name c) (pg_def c))\<lparr>st_comment := comment_of c\<rparr>"

definition pg_changes :: "column_meta \<Rightarrow> column_meta \<Rightarrow> alter_stmt list" where
  \<comment> \<open>the statements for a column that stays, after its renaming\<close>
  "pg_changes col orig =
     (if dc_dataType col \<noteq> dc_dataType orig then [AlterType (dc_name col) (dc_dataType col)] else []) @
     (if dc_isNullable col \<noteq> dc_isNullable orig then [SetNullable (dc_name col) (dc_isNullable col)] else []) @
     (if dc_defaultVal col \<noteq> dc_defaultVal orig
      then [SetDefault (dc_name col) (pg_set_default (dc_defaultVal col))] else []) @
     (if comment_of col \<noteq> comment_of orig then [CommentOn (dc_name col) (comment_of col)] else [])"

lemma pg_column_kept:
  assumes "\<not> is_new origs c" "original origs c = Some o'"
  shows "pg_column origs c =
     (if dc_name c \<noteq> dc_name o' then [RenameColumn (dc_name o') (dc_name c)] else []) @ pg_changes c o'"
  using assms original_name [OF assms(2)] by (simp add: pg_column_def pg_changes_def Let_def)

lemma fold_effect_if: "fold effect (if P then [s] else []) st = (if P then effect s st else st)"
  by simp

lemma pg_changes_effect:
  assumes "shown pg_set_default o' st"
  shows "fold effect (pg_changes c o') (st\<lparr>st_name := dc_name c\<rparr>) = pg_result origs c st"
proof -
  have "st_type st = dc_dataType o'" "st_nullable st = dc_isNullable o'"
    "st_default st = pg_set_default (dc_defaultVal o')" "st_comment st = comment_of o'"
    using assms by (simp_all add: shown_def)
  then show ?thesis
    unfolding pg_changes_def fold_append o_apply fold_effect_if pg_result_def
    by (intro column_state.equality) simp_all
qed

lemma pg_changes_in_place:
  "s \<in> set (pg_changes c o') \<Longrightarrow> subject s = Some (dc_name c) \<and> (\<forall>st. st_name (effect s st) = st_name st)"
  by (auto simp: pg_changes_def split: if_splits)

sublocale alter_server \<subseteq> pg: adapter_plan norm exec pg_column "shown pg_set_default" pg_result pg_added
proof
  fix origs c o' st xs ys
  assume a: "\<not> is_new origs c" "original origs c = Some o'" "shown pg_set_default o' st"
    "distinct (names_of norm (xs @ st # ys))" "norm (dc_name c) \<notin> set (names_of norm (xs @ ys))"
  let ?st = "st\<lparr>st_name := dc_name c\<rparr>"
  have n: "st_name st = dc_name o'" using a(3) by (simp add: shown_def)
  have "run_all exec (if dc_name c \<noteq> dc_name o' then [RenameColumn (dc_name o') (dc_name c)] else [])
      (xs @ st # ys) = Some (xs @ ?st # ys)"
    using exec_alter [OF a(4), of "dc_name o'" "RenameColumn (dc_name o') (dc_name c)"] a(5) n by simp
  moreover have "run_all exec (pg_changes c o') (xs @ ?st # ys) = Some (xs @ fold effect (pg_changes c o') ?st # ys)"
    by (rule run_in_place [of xs ?st ys "dc_name c"]) (use a(4,5) pg_changes_in_place in auto)
  ultimately show "run_all exec (pg_column origs c) (xs @ st # ys) = Some (xs @ pg_result origs c st # ys)"
    by (simp add: pg_column_kept [OF a(1,2)] run_all_append pg_changes_effect [OF a(3)])
next
  fix origs c t
  assume a: "is_new origs c" "norm (dc_name c) \<notin> set (names_of norm t)" "distinct (names_of norm t)"
  let ?st = "new_state (dc_name c) (pg_def c)"
  have "exec (CommentOn (dc_name c) (comment_of c)) (t @ [?st]) = Some (t @ [pg_added c])"
    using exec_alter [of t ?st "[]" "dc_name c" "CommentOn (dc_name c) (comment_of c)"] a(2,3)
    by (simp add: pg_added_def new_state_def)
  then show "run_all exec (pg_column origs c) t = Some (t @ [pg_added c])"
    using a exec_add [OF a(2)] by (auto simp: pg_column_def pg_added_def new_state_def pg_def_def)
qed (simp_all add: pg_result_def pg_added_def new_state_def shown_def)

context alter_server
begin

lemmas pg_plan = pg.editor_plan

end



subsection \<open>SQLite without a rebuild\<close>

definition sqlite_column :: "column_meta list \<Rightarrow> column_meta \<Rightarrow> alter_stmt list" where
  \<comment> \<open>the statements for one column, of both passes\<close>
  "sqlite_column origs c =
     (if is_new origs c then [AddColumn (dc_name c) (sqlite_def c)]
      else if Some (dc_name c) \<noteq> dc_origName c then [RenameColumn (orig_name c) (dc_name c)] else [])"

definition sqlite_shown :: "column_meta \<Rightarrow> column_state \<Rightarrow> bool" where
  \<comment> \<open>types up to case; SQLite has no comments\<close>
  "sqlite_shown c st \<longleftrightarrow> st_name st = dc_name c \<and> to_upper (st_type st) = to_upper (sqlite_type c)
     \<and> st_nullable st = dc_isNullable c \<and> st_default st = sqlite_default (dc_defaultVal c)"

sublocale alter_server \<subseteq> sqlite: adapter_plan norm exec sqlite_column sqlite_shown
    "\<lambda>origs c st. st\<lparr>st_name := dc_name c\<rparr>" "\<lambda>c. new_state (dc_name c) (sqlite_def c)"
proof
  fix origs c o' st xs ys
  assume a: "\<not> is_new origs c" "original origs c = Some o'" "sqlite_shown o' st"
    "distinct (names_of norm (xs @ st # ys))" "norm (dc_name c) \<notin> set (names_of norm (xs @ ys))"
  have n: "st_name st = dc_name o'" using a(3) by (simp add: sqlite_shown_def)
  have "exec (RenameColumn (dc_name o') (dc_name c)) (xs @ st # ys) = Some (xs @ st\<lparr>st_name := dc_name c\<rparr> # ys)"
    using exec_alter [OF a(4), of "dc_name o'" "RenameColumn (dc_name o') (dc_name c)"] a(5) n by simp
  then show "run_all exec (sqlite_column origs c) (xs @ st # ys) = Some (xs @ st\<lparr>st_name := dc_name c\<rparr> # ys)"
    using a(1) original_name [OF a(2)] n by (cases st) (simp add: sqlite_column_def orig_name_def)
next
  fix origs c t
  assume "is_new origs c" "norm (dc_name c) \<notin> set (names_of norm t)"
  then show "run_all exec (sqlite_column origs c) t = Some (t @ [new_state (dc_name c) (sqlite_def c)])"
    using exec_add by (simp add: sqlite_column_def)
qed (simp_all add: new_state_def sqlite_shown_def)

context alter_server
begin

lemmas sqlite_plan = sqlite.editor_plan

end

lemma sqlite_passes:
  assumes "\<forall>c\<in>set ks. \<not> is_new origs c" and "list_all added_column ns"
  shows "sqlite_light_stmts (ks @ ns) origs =
    drop_stmts (ks @ ns) origs @ concat (map (sqlite_column origs) (ks @ ns))"
proof -
  have n: "\<forall>c\<in>set ns. is_new origs c \<and> original origs c = None"
    using assms(2) by (auto simp: list_all_iff added_column_def is_new_def original_def)
  have "sqlite_adds (ks @ ns) origs = concat (map (sqlite_column origs) ns)"
  proof -
    have "filter (is_new origs) (ks @ ns) = ns"
      using assms(1) n by (auto simp: filter_id_conv filter_empty_conv)
    moreover have "concat (map (sqlite_column origs) ns) = map (\<lambda>c. AddColumn (dc_name c) (sqlite_def c)) ns"
      using n by (induction ns) (simp_all add: sqlite_column_def)
    ultimately show ?thesis by (simp add: sqlite_adds_def)
  qed
  moreover have "sqlite_renames (ks @ ns) origs = concat (map (sqlite_column origs) ks)"
  proof -
    define f where "f = (\<lambda>col. if original origs col \<noteq> None \<and> Some (dc_name col) \<noteq> dc_origName col
        then [RenameColumn (the (dc_origName col)) (dc_name col)] else [])"
    have "concat (map f ns) = []"
      using n by (induction ns) (simp_all add: f_def)
    moreover have "map f ks = map (sqlite_column origs) ks"
      using assms(1) by (intro map_cong) (auto simp: f_def sqlite_column_def is_new_def orig_name_def)
    ultimately show ?thesis
      unfolding sqlite_renames_def f_def [symmetric] by (simp only: map_append concat_append append_Nil2)
  qed
  ultimately show ?thesis by (simp add: sqlite_light_stmts_def)
qed

lemma sqlite_kept_shown:
  assumes "\<not> requiresRebuild cols origs" "c \<in> set cols" "original origs c = Some o'" "sqlite_shown o' st"
  shows "sqlite_shown c (st\<lparr>st_name := dc_name c\<rparr>)"
proof -
  have "to_upper (dc_dataType c) = to_upper (dc_dataType o')" "dc_isNullable c = dc_isNullable o'"
    "dc_defaultVal c = dc_defaultVal o'"
    using assms(1-3) by (auto simp: requiresRebuild_def list_ex_iff)
  moreover from this(1) have "to_upper (sqlite_type c) = to_upper (sqlite_type o')"
    by (auto simp: sqlite_type_def str_or_def to_upper_def)
  ultimately show ?thesis using assms(4) by (simp add: sqlite_shown_def)
qed

lemma sqlite_added_shown: "sqlite_shown c (new_state (dc_name c) (sqlite_def c))"
  by (simp add: sqlite_shown_def new_state_def sqlite_def_def)

theorem sqlite_light_reaches_screen:
  assumes "alter_server to_lower exec" "editor_inv ed"
    and "list_all2 sqlite_shown (se_orig ed) t" "distinct (names_of to_lower t)"
    and "distinct (map (\<lambda>c. to_lower (dc_name c)) (se_cols ed))"
    and "fresh_names to_lower ed" "list_ex kept_column (se_cols ed)"
    and "\<not> requiresRebuild (se_cols ed) (se_orig ed)"
  shows "\<exists>t'. run_all exec (sqlite_light_stmts (se_cols ed) (se_orig ed)) t = Some t' \<and>
    list_all2 sqlite_shown (se_cols ed) t'"
proof (rule alter_server.sqlite_plan [OF assms(1-7)])
  fix ks ns t'
  assume cols: "se_cols ed = ks @ ns" and k: "list_all added_column ns"
    and m: "list_all2 (matching sqlite_shown (se_orig ed)) ks t'"
    and run: "run_all exec (drop_stmts (se_cols ed) (se_orig ed) @
        concat (map (sqlite_column (se_orig ed)) (se_cols ed))) t =
      Some (map2 (\<lambda>c st. st\<lparr>st_name := dc_name c\<rparr>) ks t' @ map (\<lambda>c. new_state (dc_name c) (sqlite_def c)) ns)"
  have "\<forall>c\<in>set ks. \<not> is_new (se_orig ed) c"
    using m by (auto simp: matching_def list_all2_conv_all_nth in_set_conv_nth)
  note passes = sqlite_passes [OF this k]
  have "list_all2 (\<lambda>c st. c \<in> set (se_cols ed) \<and> matching sqlite_shown (se_orig ed) c st) ks t'"
    using m by (auto simp: cols list_all2_conv_all_nth)
  then have "list_all2 sqlite_shown (ks @ ns)
      (map2 (\<lambda>c st. st\<lparr>st_name := dc_name c\<rparr>) ks t' @ map (\<lambda>c. new_state (dc_name c) (sqlite_def c)) ns)"
    by (rule list_all2_results)
      (auto simp: matching_def sqlite_added_shown intro: sqlite_kept_shown [OF assms(8)])
  with run show ?thesis by (simp add: passes [folded cols] cols [symmetric])
qed

subsection \<open>The save button and the plan\<close>

lemma column_changed_mysql:
  "original origs c = Some o' \<Longrightarrow> mysql_changed c o' = column_changed c o'"
  using original_name [of origs c o'] by (auto simp: mysql_changed_def column_changed_def)

lemma filter_Nil_conv: "filter P xs = [] \<longleftrightarrow> (\<forall>x\<in>set xs. \<not> P x)"
  by (auto simp: filter_empty_conv)

lemma not_dirty:
  "totalDirty s = 0 \<longleftrightarrow> droppedCols (se_cols s) (se_orig s) = [] \<and>
     (\<forall>c\<in>set (se_cols s). \<not> is_new (se_orig s) c \<and> \<not> column_changed c (the (original (se_orig s) c)))"
  by (auto simp: totalDirty_def structDirtyState_def Let_def filter_Nil_conv)

lemma mysql_column_Nil:
  "mysql_column origs c = [] \<longleftrightarrow> \<not> is_new origs c \<and> \<not> column_changed c (the (original origs c))"
  by (auto simp: mysql_column_def is_new_def column_changed_mysql)

lemma pg_column_Nil:
  "pg_column origs c = [] \<longleftrightarrow> \<not> is_new origs c \<and> \<not> column_changed c (the (original origs c))"
proof (cases "is_new origs c")
  case False
  then obtain o' where o': "original origs c = Some o'" by (auto simp: is_new_def)
  show ?thesis
    using False o' by (auto simp: pg_column_kept [OF False o'] pg_changes_def column_changed_def)
qed (simp add: pg_column_def)

text \<open>The save button is enabled exactly when the plan has a statement, in MySQL and in Postgres.\<close>

theorem dirty_iff_plan:
  "(totalDirty s = 0 \<longleftrightarrow> al_sqls (mysql_generateAlterTableSql tr table (se_cols s) (se_orig s)) = []) \<and>
   (totalDirty s = 0 \<longleftrightarrow> al_sqls (pg_generateAlterTableSql tr schema table (se_cols s) (se_orig s)) = [])"
  by (auto simp: not_dirty mysql_generateAlterTableSql_def mysql_stmts_def pg_generateAlterTableSql_def
      pg_stmts_def drop_stmts_def mysql_column_Nil pg_column_Nil)

subsection \<open>Where a plan goes wrong\<close>

text \<open>
  MySQL, two names that are exchanged: the first \<open>CHANGE\<close> asks for a name that the other column still has,
  and the server refuses it; the statements before it have been carried out.
\<close>

theorem mysql_swap_refused:
  assumes "alter_server to_lower exec" "list_all2 (shown mysql_default) [a, b] t" "list_all loaded_column [a, b]"
    and "ed = handleStructColChange 1 (SetName (dc_name a)) (handleStructColChange 0 (SetName (dc_name b))
      \<lparr>se_orig = [a, b], se_cols = [a, b]\<rparr>)"
    and "handleSaveStructChanges (\<lambda>cur orig. Inr (mysql_generateAlterTableSql tr table cur orig)) ed = ShowPlan plan"
  shows "\<exists>ss. al_sqls plan = map (alter_text MysqlD (quoteIdent MysqlD table)) ss \<and> run_all exec ss t = None"
proof -
  define a' b' where "a' = a\<lparr>dc_name := dc_name b\<rparr>" and "b' = b\<lparr>dc_name := dc_name a\<rparr>"
  have ed: "se_orig ed = [a, b]" "se_cols ed = [a', b']"
    by (simp_all add: assms(4) handleStructColChange_def a'_def b'_def)
  note plan = shown_plan [OF assms(5)]
  have ne: "to_lower (dc_name a) \<noteq> to_lower (dc_name b)"
    using plan(2) by (simp add: ed a'_def b'_def)
  then have ne': "dc_name a \<noteq> dc_name b" by auto
  obtain sa sb where t: "t = [sa, sb]" "st_name sa = dc_name a" "st_name sb = dc_name b"
    using assms(2) by (auto simp: list_all2_Cons1 shown_def)
  have l: "dc_origName a = Some (dc_name a)" "dc_origName b = Some (dc_name b)" "dc_name a \<noteq> []" "dc_name b \<noteq> []"
      "\<not> dc_isNew a"
    using assms(3) by (simp_all add: loaded_column_def)
  have "drop_stmts [a', b'] [a, b] = []"
    using l by (simp add: drop_stmts_def droppedCols_def currentOrigNames_def a'_def b'_def)
  moreover have "mysql_column [a, b] a' = [ChangeColumn (dc_name a) (dc_name b) (mysql_def a')]"
    using l ne' by (simp add: mysql_column_def is_new_def original_def orig_map_def mysql_changed_def a'_def)
  moreover have "exec (ChangeColumn (dc_name a) (dc_name b) (mysql_def a')) t = None"
    using alter_server.exec_clash [OF assms(1), of "[]" sa "[sb]" "dc_name a"] t ne by (simp add: new_state_def)
  ultimately have "run_all exec (mysql_stmts (se_cols ed) (se_orig ed)) t = None"
    by (simp add: mysql_stmts_def ed)
  then show ?thesis
    using plan(1) by (auto simp: mysql_generateAlterTableSql_def)
qed

text \<open>
  MySQL: \<open>DESCRIBE\<close> gives no comments and the plan never writes the other attributes, so any change of a
  column makes it lose its comment and its \<open>AUTO_INCREMENT\<close>.
\<close>

definition describe_row :: "js_value \<Rightarrow> bool" where
  \<comment> \<open>a row of \<open>DESCRIBE\<close>: it has no field for the comment\<close>
  "describe_row r \<longleftrightarrow> (\<exists>es. r = JObj es \<and> map_of es ''Comment'' = None \<and> map_of es ''COLUMN_COMMENT'' = None)"

lemma describe_no_comment: "describe_row r \<Longrightarrow> comment_of (mysql_column_meta fks r) = []"
  by (auto simp: describe_row_def comment_of_def mysql_column_meta_def Let_def text_or_def field_or_def
      js_field_def is_nullish_def nullish_def js_or_def opt_or_def str_or_def)

theorem mysql_edit_erases_attributes:
  assumes "alter_server to_lower exec" "describe_row r" "dc_name o' \<noteq> []"
    and "o' = mysql_column_meta fks r" "st_name st = dc_name o'"
    and "p = SetType ty \<or> p = SetNull b \<or> p = SetDefaultVal v" "apply_patch p o' \<noteq> o'"
  shows "\<exists>st'. run_all exec (mysql_column [o'] (apply_patch p o')) [st] = Some [st'] \<and>
    st_name st' = st_name st \<and> st_comment st' = [] \<and> st_extra st' = []"
proof -
  let ?c = "apply_patch p o'"
  have o': "dc_origName o' = Some (dc_name o')" "\<not> dc_isNew o'"
    by (simp_all add: assms(4) mysql_column_meta_def Let_def)
  have c: "dc_name ?c = dc_name o'" "comment_of ?c = []"
    using assms(6) describe_no_comment [OF assms(2), of fks] by (auto simp: assms(4) comment_of_def)
  have "original [o'] ?c = Some o'"
    using o'(1) assms(3) by (simp add: original_def orig_map_def)
  moreover have "mysql_changed ?c o'"
    using assms(6,7) by (cases o') (auto simp: mysql_changed_def)
  ultimately have "mysql_column [o'] ?c = [ModifyColumn (dc_name o') (mysql_def ?c)]"
    using o' c by (simp add: mysql_column_def is_new_def)
  moreover have "exec (ModifyColumn (dc_name o') (mysql_def ?c)) [st] = Some [new_state (dc_name o') (mysql_def ?c)]"
    using alter_server.exec_alter [OF assms(1), of "[]" st "[]" "dc_name o'"] assms(5) by simp
  ultimately show ?thesis
    using c assms(5) by (simp add: new_state_def mysql_def_def)
qed

subsection \<open>An example\<close>

definition demo_column :: "string \<Rightarrow> string \<Rightarrow> bool \<Rightarrow> string \<Rightarrow> column_meta" where
  "demo_column n ty nl dv = \<lparr>dc_name = n, dc_origName = Some n, dc_dataType = ty, dc_udtName = None,
     dc_isNullable = nl, dc_defaultVal = dv, dc_isPrimaryKey = False, dc_isForeignKey = False,
     dc_extra = None, dc_comment = None, dc_isNew = False\<rparr>"


definition demo_state :: "string \<Rightarrow> string \<Rightarrow> bool \<Rightarrow> default_clause \<Rightarrow> column_state" where
  "demo_state n ty nl e = \<lparr>st_name = n, st_type = ty, st_nullable = nl, st_default = e, st_comment = [], st_extra = []\<rparr>"


















theorem mysql_swap_refused_witness:
  "\<exists>ss. al_sqls (mysql_generateAlterTableSql (\<lambda>k _. k) ''users''
       [demo_column ''note'' ''int'' False [] \<lparr>dc_origName := Some ''id''\<rparr>,
        demo_column ''id'' ''text'' True [] \<lparr>dc_origName := Some ''note''\<rparr>]
       [demo_column ''id'' ''int'' False [], demo_column ''note'' ''text'' True []]) =
      map (alter_text MysqlD (quoteIdent MysqlD ''users'')) ss \<and>
    run_all (model_server to_lower) ss
      [demo_state ''id'' ''int'' False NoDefault, demo_state ''note'' ''text'' True NoDefault] = None"
proof (rule mysql_swap_refused [OF model_server_laws])
  show "list_all2 (shown mysql_default) [demo_column ''id'' ''int'' False [], demo_column ''note'' ''text'' True []]
      [demo_state ''id'' ''int'' False NoDefault, demo_state ''note'' ''text'' True NoDefault]"
    "list_all loaded_column [demo_column ''id'' ''int'' False [], demo_column ''note'' ''text'' True []]"
    by code_simp+
  show "handleSaveStructChanges (\<lambda>cur orig. Inr (mysql_generateAlterTableSql (\<lambda>k _. k) ''users'' cur orig))
      (handleStructColChange 1 (SetName (dc_name (demo_column ''id'' ''int'' False [])))
        (handleStructColChange 0 (SetName (dc_name (demo_column ''note'' ''text'' True [])))
          \<lparr>se_orig = [demo_column ''id'' ''int'' False [], demo_column ''note'' ''text'' True []],
           se_cols = [demo_column ''id'' ''int'' False [], demo_column ''note'' ''text'' True []]\<rparr>)) =
    ShowPlan (mysql_generateAlterTableSql (\<lambda>k _. k) ''users''
       [demo_column ''note'' ''int'' False [] \<lparr>dc_origName := Some ''id''\<rparr>,
        demo_column ''id'' ''text'' True [] \<lparr>dc_origName := Some ''note''\<rparr>]
       [demo_column ''id'' ''int'' False [], demo_column ''note'' ''text'' True []])"
    by code_simp
qed (rule refl)

definition demo_row :: js_value where
  "demo_row = JObj [(''Field'', JStr ''id''), (''Type'', JStr ''int''), (''Null'', JStr ''NO''), (''Key'', JStr ''PRI''),
     (''Default'', JNull), (''Extra'', JStr ''auto_increment'')]"

theorem mysql_edit_erases_attributes_witness:
  "\<exists>st'. run_all (model_server to_lower)
      (mysql_column [mysql_column_meta [] demo_row] (apply_patch (SetType ''bigint'') (mysql_column_meta [] demo_row)))
      [(demo_state ''id'' ''int'' False NoDefault)\<lparr>st_extra := ''auto_increment''\<rparr>] = Some [st'] \<and>
    st_name st' = ''id'' \<and> st_comment st' = [] \<and> st_extra st' = []"
proof -
  let ?o = "mysql_column_meta [] demo_row"
  let ?st = "(demo_state ''id'' ''int'' False NoDefault)\<lparr>st_extra := ''auto_increment''\<rparr>"
  have "describe_row demo_row" by (simp add: describe_row_def demo_row_def)
  moreover have "dc_name ?o \<noteq> []" "st_name ?st = dc_name ?o" by code_simp+
  moreover have "apply_patch (SetType ''bigint'') ?o \<noteq> ?o" by code_simp
  moreover have "st_name ?st = ''id''" by (simp add: demo_state_def)
  ultimately show ?thesis
    using mysql_edit_erases_attributes [OF model_server_laws, of demo_row ?o "[]" ?st "SetType ''bigint''" "''bigint''"]
    by metis
qed

subsection \<open>Adding a column\<close>

text \<open>
  C31: the search for the name of a new column ends after at most one step more than there are columns, with a
  name that no column has in any case, and the column is added at the end.
\<close>

theorem add_column_finds_name:
  "\<exists>k \<le> 2 * length (se_cols s) + 1. se_cols (handleAddStructCol d s) = se_cols s @ [new_column d (new_column_name k)] \<and>
    new_column_name k \<notin> set (map (\<lambda>c. to_lower (dc_name c)) (se_cols s))"
proof -
  let ?names = "map (\<lambda>c. to_lower (dc_name c)) (se_cols s)" and ?n = "length (se_cols s) + 1"
  have "free_index ?names ?n \<le> 2 * length (se_cols s) + 1"
    using free_index_steps [of ?names ?n] by simp
  then show ?thesis
    using free_index_free [of ?names ?n] unfolding handleAddStructCol_def Let_def by auto
qed

end
