(* ===== verification/DataTab.thy ===== *)
theory DataTab
  imports DbCell DbTypes
begin

section \<open>The data tab\<close>

text \<open>
  \<open>components/db/DataTab/DbDataTab.tsx\<close> without the structure editor: loading, paging, sorting and filtering
  the rows, editing cells into drafts, and saving them through \<open>updateRows\<close>, \<open>insertRows\<close> and
  \<open>deleteRow\<close> of the adapters; and the cell editor \<open>components/common/CellEditorInline.tsx\<close>. An object is the
  list of its fields; the drafts are sorted by row, as \<open>Object.entries\<close> gives them. The widths of the columns
  and the places of menus and dialogs are left out. The updater of \<open>handleCommitCell\<close> deletes a draft from
  the object that a save under way is still reading; here a save reads the drafts when it starts.
\<close>

type_synonym js_row = "(string \<times> js_value) list"
type_synonym drafts = "(nat \<times> js_row) list"

subsection \<open>Objects\<close>

definition row_get :: "js_row \<Rightarrow> string \<Rightarrow> js_value" where
  "row_get r c = nullish (map_of r c) JUndef"

fun set_field :: "string \<Rightarrow> js_value \<Rightarrow> js_row \<Rightarrow> js_row" where
  "set_field c v [] = [(c, v)]"
| "set_field c v ((d, w) # r) = (if d = c then (c, v) # r else (d, w) # set_field c v r)"

definition merge_row :: "js_row \<Rightarrow> js_row \<Rightarrow> js_row" where
  \<comment> \<open>\<open>{ ...a, ...b }\<close>\<close>
  "merge_row a b = fold (\<lambda>(c, v). set_field c v) b a"

fun draft_put :: "nat \<Rightarrow> js_row \<Rightarrow> drafts \<Rightarrow> drafts" where
  "draft_put i p [] = [(i, p)]"
| "draft_put i p ((j, q) # ds) =
     (if i = j then (i, p) # ds else if i < j then (i, p) # (j, q) # ds else (j, q) # draft_put i p ds)"

definition draft_del :: "nat \<Rightarrow> drafts \<Rightarrow> drafts" where
  "draft_del i ds = filter (\<lambda>d. fst d \<noteq> i) ds"

definition draft_row :: "nat \<Rightarrow> drafts \<Rightarrow> js_row" where
  \<comment> \<open>\<open>drafts[i] || {}\<close>\<close>
  "draft_row i ds = nullish (map_of ds i) []"

subsection \<open>State\<close>

datatype view_mode = DataView | StructView | IndexView | ConstraintsView | DdlView
datatype sort_order = Asc | Desc

record data_tab =
  dt_viewMode :: view_mode
  dt_loading :: bool
  dt_rows :: "js_row list"
  dt_columns :: "string list"
  dt_totalRows :: int
  dt_page :: int
  dt_pageSize :: int
  dt_filters :: filters
  dt_sortCol :: string
  dt_sortOrder :: sort_order
  dt_countingRows :: bool
  dt_reqId :: nat \<comment> \<open>\<open>loadDataReqIdRef\<close>\<close>
  dt_structure :: "table_structure option"
  dt_ddlText :: string
  dt_editingCell :: "(nat \<times> string) option"
  dt_rowDrafts :: drafts
  dt_newRows :: "js_row list"
  dt_editingNewCell :: "(nat \<times> string) option"
  dt_saving :: bool

definition init_data_tab :: data_tab where
  "init_data_tab =
     \<lparr>dt_viewMode = DataView, dt_loading = False, dt_rows = [], dt_columns = [], dt_totalRows = 0, dt_page = 1,
      dt_pageSize = 100, dt_filters = [], dt_sortCol = [], dt_sortOrder = Asc, dt_countingRows = False,
      dt_reqId = 0, dt_structure = None, dt_ddlText = [], dt_editingCell = None, dt_rowDrafts = [],
      dt_newRows = [], dt_editingNewCell = None, dt_saving = False\<rparr>"

definition pkList :: "data_tab \<Rightarrow> string list" where
  "pkList s = (case dt_structure s of None \<Rightarrow> [] | Some st \<Rightarrow> map dc_name (filter dc_isPrimaryKey (ts_columns st)))"

definition dirtyCount :: "data_tab \<Rightarrow> nat" where
  "dirtyCount s = length (dt_rowDrafts s) + length (dt_newRows s)"

subsection \<open>Loading\<close>

record load_params =
  lp_page :: int
  lp_pageSize :: int
  lp_where :: string
  lp_sortCol :: string
  lp_sortOrder :: sort_order

definition loadData_begin :: "int \<Rightarrow> int \<Rightarrow> string \<Rightarrow> string \<Rightarrow> sort_order \<Rightarrow> data_tab \<Rightarrow> data_tab \<times> load_params" where
  \<comment> \<open>the request has the number \<open>dt_reqId\<close> of the new state\<close>
  "loadData_begin page sz wh sortCol sortOrder s =
     (s\<lparr>dt_reqId := Suc (dt_reqId s), dt_loading := True\<rparr>,
      \<lparr>lp_page = page, lp_pageSize = sz, lp_where = wh, lp_sortCol = sortCol, lp_sortOrder = sortOrder\<rparr>)"

definition loadData_done :: "nat \<Rightarrow> string list \<Rightarrow> js_row list \<Rightarrow> data_tab \<Rightarrow> data_tab" where
  "loadData_done reqId columns rows s =
     (if reqId \<noteq> dt_reqId s then s
      else s\<lparr>dt_columns := columns, dt_rows := rows, dt_rowDrafts := [], dt_newRows := [],
             dt_countingRows := True, dt_loading := False\<rparr>)"

definition loadData_fail :: "nat \<Rightarrow> data_tab \<Rightarrow> data_tab" where
  "loadData_fail reqId s = (if reqId \<noteq> dt_reqId s then s else s\<lparr>dt_loading := False\<rparr>)"

definition count_done :: "nat \<Rightarrow> int option \<Rightarrow> data_tab \<Rightarrow> data_tab" where
  \<comment> \<open>\<open>None\<close> where the count fails\<close>
  "count_done reqId cnt s =
     (if reqId \<noteq> dt_reqId s then s
      else (case cnt of None \<Rightarrow> s | Some n \<Rightarrow> s\<lparr>dt_totalRows := n\<rparr>)\<lparr>dt_countingRows := False\<rparr>)"

definition activeWhere :: "sql_dialect \<Rightarrow> data_tab \<Rightarrow> string" where
  "activeWhere d s = buildWhereClause d (dt_filters s)"

definition set_filter :: "string \<Rightarrow> column_filter option \<Rightarrow> filters \<Rightarrow> filters" where
  \<comment> \<open>\<open>next[col] = filter\<close>, or \<open>delete next[col]\<close>\<close>
  "set_filter col f fs =
     (case f of
        None \<Rightarrow> filter (\<lambda>e. fst e \<noteq> col) fs
      | Some _ \<Rightarrow> if col \<in> fst ` set fs then map (\<lambda>e. if fst e = col then (col, f) else e) fs else fs @ [(col, f)])"

definition handleFilterChange :: "sql_dialect \<Rightarrow> string \<Rightarrow> column_filter option \<Rightarrow> data_tab \<Rightarrow> data_tab \<times> load_params" where
  "handleFilterChange d col f s =
     (let fs = set_filter col f (dt_filters s)
      in loadData_begin 1 (dt_pageSize s) (buildWhereClause d fs) (dt_sortCol s) (dt_sortOrder s)
           (s\<lparr>dt_filters := fs, dt_page := 1\<rparr>))"

definition handleClearAllFilters :: "data_tab \<Rightarrow> data_tab \<times> load_params" where
  "handleClearAllFilters s =
     loadData_begin 1 (dt_pageSize s) [] (dt_sortCol s) (dt_sortOrder s) (s\<lparr>dt_filters := [], dt_page := 1\<rparr>)"

definition next_sort :: "string \<Rightarrow> data_tab \<Rightarrow> string \<times> sort_order" where
  "next_sort colName s =
     (if dt_sortCol s = colName then if dt_sortOrder s = Asc then (colName, Desc) else ([], Asc) else (colName, Asc))"

definition handleHeaderSort :: "sql_dialect \<Rightarrow> string \<Rightarrow> data_tab \<Rightarrow> data_tab \<times> load_params" where
  "handleHeaderSort d colName s =
     (case next_sort colName s of (c, o') \<Rightarrow>
        loadData_begin 1 (dt_pageSize s) (activeWhere d s) c o' (s\<lparr>dt_sortCol := c, dt_sortOrder := o', dt_page := 1\<rparr>))"

definition open_table :: "data_tab \<Rightarrow> data_tab \<times> load_params" where
  \<comment> \<open>the effect on the table; its \<open>loadData\<close> takes the sorting of before\<close>
  "open_table s =
     loadData_begin 1 (dt_pageSize s) [] (dt_sortCol s) (dt_sortOrder s)
       (s\<lparr>dt_filters := [], dt_sortCol := [], dt_sortOrder := Asc, dt_page := 1\<rparr>)"

definition change_page :: "sql_dialect \<Rightarrow> int \<Rightarrow> int \<Rightarrow> data_tab \<Rightarrow> data_tab \<times> load_params" where
  \<comment> \<open>\<open>onChange\<close> of the pagination\<close>
  "change_page d p sz s =
     (if sz \<noteq> dt_pageSize s
      then loadData_begin 1 sz (activeWhere d s) (dt_sortCol s) (dt_sortOrder s) (s\<lparr>dt_pageSize := sz, dt_page := 1\<rparr>)
      else loadData_begin p (dt_pageSize s) (activeWhere d s) (dt_sortCol s) (dt_sortOrder s) (s\<lparr>dt_page := p\<rparr>))"

definition reload :: "sql_dialect \<Rightarrow> data_tab \<Rightarrow> data_tab \<Rightarrow> data_tab \<times> load_params" where
  \<comment> \<open>\<open>loadData(page, pageSize, activeWhere)\<close> in a handler of the render with state \<open>c\<close>\<close>
  "reload d c s = loadData_begin (dt_page c) (dt_pageSize c) (activeWhere d c) (dt_sortCol c) (dt_sortOrder c) s"

definition loadStructure_done :: "table_structure option \<Rightarrow> data_tab \<Rightarrow> data_tab" where
  \<comment> \<open>\<open>None\<close> where the adapter fails\<close>
  "loadStructure_done st s = (case st of None \<Rightarrow> s | Some _ \<Rightarrow> s\<lparr>dt_structure := st\<rparr>)"

definition loadDDL_done :: "translator \<Rightarrow> string + string \<Rightarrow> data_tab \<Rightarrow> data_tab" where
  "loadDDL_done t r s =
     (case r of Inr ddl \<Rightarrow> s\<lparr>dt_ddlText := ddl\<rparr>
      | Inl msg \<Rightarrow> s\<lparr>dt_ddlText := t ''db:dataTab.ddl.fetchFail'' [(''msg'', msg)]\<rparr>)"

subsection \<open>What the adapter asks the backend for\<close>

datatype load_call =
    RunSql string
  | SelectPage int int \<comment> \<open>limit and offset\<close>

definition order_text :: "sort_order \<Rightarrow> string" where
  "order_text o' = (if o' = Asc then ''ASC'' else ''DESC'')"

definition clean_where :: "string \<Rightarrow> string" where
  \<comment> \<open>\<open>where.trim().replace(/^WHERE\s+/i, '')\<close>, for white space of one byte\<close>
  "clean_where wh =
     (let w = trim wh; rest = drop 5 w in
      if to_upper (take 5 w) = ''WHERE'' \<and> rest \<noteq> [] \<and> [hd rest] \<in> set js_white
      then dropWhile (\<lambda>c. [c] \<in> set js_white) rest else w)"

definition load_call :: "sql_dialect \<Rightarrow> (string \<Rightarrow> string) \<Rightarrow> string \<Rightarrow> load_params \<Rightarrow> load_call" where
  \<comment> \<open>\<open>loadData\<close> of the MySQL and the SQLite adapter\<close>
  "load_call d quoteId tableName p =
     (let offset = (lp_page p - 1) * lp_pageSize p in
      if trim (lp_where p) \<noteq> [] \<or> lp_sortCol p \<noteq> []
      then RunSql (''SELECT * FROM '' @ quoteId tableName @
        (if trim (lp_where p) \<noteq> [] then '' WHERE '' @ clean_where (lp_where p) else []) @
        (if lp_sortCol p \<noteq> [] then '' ORDER BY '' @ quoteId (lp_sortCol p) @ '' '' @ order_text (lp_sortOrder p) else []) @
        '' LIMIT '' @ show_int (lp_pageSize p) @ '' OFFSET '' @ show_int offset)
      else SelectPage (lp_pageSize p) offset)"

datatype db_call =
    UpdateRow js_row "(string \<times> js_value) list" \<comment> \<open>what is set, and the key\<close>
  | InsertRow js_row
  | DeleteRow "(string \<times> js_value) list"

definition key_of :: "string list \<Rightarrow> js_row \<Rightarrow> (string \<times> js_value) list" where
  "key_of pks row = map (\<lambda>pk. (pk, row_get row pk)) pks"

definition updateRows :: "drafts \<Rightarrow> js_row list \<Rightarrow> string list \<Rightarrow> db_call list" where
  "updateRows ds origRows pks = map (\<lambda>(i, patch). UpdateRow patch (key_of pks (origRows ! i))) ds"

definition insertRows :: "js_row list \<Rightarrow> db_call list" where
  "insertRows newRows =
     map InsertRow (filter (\<lambda>r. r \<noteq> []) (map (filter (\<lambda>(k, v). v \<noteq> JUndef)) newRows))"

definition sqlVal :: "js_value \<Rightarrow> string" where
  "sqlVal v =
     (case v of JUndef \<Rightarrow> ''NULL'' | JNull \<Rightarrow> ''NULL''
      | JNum t \<Rightarrow> if t \<in> {''NaN'', ''Infinity'', ''-Infinity''} then ''NULL'' else t
      | JBool b \<Rightarrow> if b then ''1'' else ''0''
      | _ \<Rightarrow> [CHR 0x27] @ replace_char (CHR 0x27) [CHR 0x27, CHR 0x27] (js_string v) @ [CHR 0x27])"

definition sqlite_ident :: "string \<Rightarrow> string" where
  "sqlite_ident n = [CHR 0x22] @ replace_char (CHR 0x22) [CHR 0x22, CHR 0x22] n @ [CHR 0x22]"

definition sqlite_condition :: "string \<times> js_value \<Rightarrow> string" where
  "sqlite_condition c =
     (if is_nullish (snd c) then sqlite_ident (fst c) @ '' IS NULL''
      else sqlite_ident (fst c) @ '' = '' @ sqlVal (snd c))"

fun sqlite_call_text :: "string \<Rightarrow> db_call \<Rightarrow> string" where
  \<comment> \<open>the SQLite adapter writes the statement itself; an update without columns or key is not sent\<close>
  "sqlite_call_text tableName (UpdateRow patch key) =
     ''UPDATE '' @ sqlite_ident tableName @ '' SET '' @
     join '', '' (map (\<lambda>(c, v). sqlite_ident c @ '' = '' @ sqlVal v) patch) @ '' WHERE '' @
     join '' AND '' (map sqlite_condition key)"
| "sqlite_call_text tableName (InsertRow r) =
     ''INSERT INTO '' @ sqlite_ident tableName @ '' ('' @ join '', '' (map (\<lambda>(c, v). sqlite_ident c) r) @
     '') VALUES ('' @ join '', '' (map (\<lambda>(c, v). sqlVal v) r) @ '')''"
| "sqlite_call_text tableName (DeleteRow key) =
     ''DELETE FROM '' @ sqlite_ident tableName @ '' WHERE '' @ join '' AND '' (map sqlite_condition key)"

subsection \<open>Editing\<close>

definition drop_draft :: "nat \<Rightarrow> string \<Rightarrow> drafts \<Rightarrow> drafts" where
  "drop_draft rowIdx col ds =
     (case map_of ds rowIdx of
        None \<Rightarrow> ds
      | Some r \<Rightarrow>
          (let r' = filter (\<lambda>e. fst e \<noteq> col) r
           in if r' = [] then draft_del rowIdx ds else draft_put rowIdx r' ds))"

definition put_draft :: "nat \<Rightarrow> string \<Rightarrow> js_value \<Rightarrow> drafts \<Rightarrow> drafts" where
  "put_draft rowIdx col v ds = draft_put rowIdx (set_field col v (draft_row rowIdx ds)) ds"

record cell_env =
  ce_stringify :: "js_value \<Rightarrow> string" \<comment> \<open>\<open>JSON.stringify\<close>\<close>
  ce_print :: "js_double \<Rightarrow> string" \<comment> \<open>\<open>String\<close> of a number that is not a small integer\<close>

definition cell_draft :: "cell_env \<Rightarrow> js_row list \<Rightarrow> nat \<Rightarrow> string \<Rightarrow> js_value \<Rightarrow> bool \<Rightarrow> drafts \<Rightarrow> drafts" where
  \<comment> \<open>the drafts after the edit of one cell\<close>
  "cell_draft env rows rowIdx col val isNull ds =
     (let origVal = row_get (rows ! rowIdx) col; newVal = (if isNull then JNull else val) in
      if isSameCellValue (ce_stringify env) origVal newVal then drop_draft rowIdx col ds
      else put_draft rowIdx col (coerceCellValue (ce_print env) origVal val isNull) ds)"

definition handleCommitCell :: "cell_env \<Rightarrow> nat \<Rightarrow> string \<Rightarrow> js_value \<Rightarrow> bool \<Rightarrow> data_tab \<Rightarrow> data_tab" where
  "handleCommitCell env rowIdx col val isNull s =
     s\<lparr>dt_editingCell := None,
       dt_rowDrafts := cell_draft env (dt_rows s) rowIdx col val isNull (dt_rowDrafts s)\<rparr>"

definition set_new_cell :: "nat \<Rightarrow> string \<Rightarrow> js_value \<Rightarrow> bool \<Rightarrow> js_row list \<Rightarrow> js_row list" where
  "set_new_cell rowIdx col val isNull rows = rows[rowIdx := set_field col (if isNull then JNull else val) (rows ! rowIdx)]"

definition handleCommitNewCell :: "nat \<Rightarrow> string \<Rightarrow> js_value \<Rightarrow> bool \<Rightarrow> data_tab \<Rightarrow> data_tab" where
  "handleCommitNewCell rowIdx col val isNull s =
     s\<lparr>dt_editingNewCell := None, dt_newRows := set_new_cell rowIdx col val isNull (dt_newRows s)\<rparr>"

definition handleAddNewRow :: "data_tab \<Rightarrow> data_tab" where
  "handleAddNewRow s = s\<lparr>dt_newRows := dt_newRows s @ [fold (\<lambda>c. set_field c JNull) (dt_columns s) []]\<rparr>"

definition handleDiscardAll :: "data_tab \<Rightarrow> data_tab" where
  "handleDiscardAll s = s\<lparr>dt_rowDrafts := [], dt_newRows := [], dt_editingCell := None, dt_editingNewCell := None\<rparr>"

subsection \<open>Saving\<close>

datatype save_start =
    NothingToSave
  | NoPrimaryKey
  | Saving "db_call list"

definition handleSaveAll_begin :: "drafts \<Rightarrow> js_row list \<Rightarrow> data_tab \<Rightarrow> data_tab \<times> save_start" where
  \<comment> \<open>up to the first await; the calls are made one after the other until one fails\<close>
  "handleSaveAll_begin targetDrafts targetNewRows s =
     (if targetDrafts = [] \<and> targetNewRows = [] then (s, NothingToSave)
      else if pkList s = [] \<and> targetDrafts \<noteq> [] then (s, NoPrimaryKey)
      else (s\<lparr>dt_saving := True\<rparr>, Saving (updateRows targetDrafts (dt_rows s) (pkList s) @ insertRows targetNewRows)))"

definition handleSaveAll_done :: "sql_dialect \<Rightarrow> data_tab \<Rightarrow> data_tab \<Rightarrow> data_tab \<times> load_params" where
  \<comment> \<open>every call went through; \<open>c\<close> is the state the handler captured\<close>
  "handleSaveAll_done d c s =
     (case reload d c (s\<lparr>dt_rowDrafts := [], dt_newRows := [], dt_editingCell := None, dt_editingNewCell := None\<rparr>) of
        (s', p) \<Rightarrow> (s'\<lparr>dt_saving := False\<rparr>, p))"

definition handleSaveAll_fail :: "data_tab \<Rightarrow> data_tab" where
  "handleSaveAll_fail s = s\<lparr>dt_saving := False\<rparr>"

definition handleSaveCellInline :: "cell_env \<Rightarrow> nat \<Rightarrow> string \<Rightarrow> js_value \<Rightarrow> bool \<Rightarrow> data_tab \<Rightarrow> data_tab \<times> save_start" where
  "handleSaveCellInline env rowIdx col val isNull s =
     (let nextDrafts = cell_draft env (dt_rows s) rowIdx col val isNull (dt_rowDrafts s)
      in handleSaveAll_begin nextDrafts (dt_newRows s) (s\<lparr>dt_editingCell := None, dt_rowDrafts := nextDrafts\<rparr>))"

definition handleSaveNewCellInline :: "nat \<Rightarrow> string \<Rightarrow> js_value \<Rightarrow> bool \<Rightarrow> data_tab \<Rightarrow> data_tab \<times> save_start" where
  "handleSaveNewCellInline rowIdx col val isNull s =
     (let nextNewRows = set_new_cell rowIdx col val isNull (dt_newRows s)
      in handleSaveAll_begin (dt_rowDrafts s) nextNewRows (s\<lparr>dt_editingNewCell := None, dt_newRows := nextNewRows\<rparr>))"

definition handleKeyDown :: "bool \<Rightarrow> data_tab \<Rightarrow> data_tab \<times> save_start" where
  \<comment> \<open>Ctrl+S outside a cell editor; \<open>inCell\<close> is whether a cell editor has the focus\<close>
  "handleKeyDown inCell s =
     (if dt_viewMode s \<noteq> DataView \<or> inCell \<or> dt_saving s \<or> dt_loading s
        \<or> (dt_rowDrafts s = [] \<and> dt_newRows s = [])
      then (s, NothingToSave)
      else handleSaveAll_begin (dt_rowDrafts s) (dt_newRows s) s)"

definition handleDeleteRow_begin :: "nat \<Rightarrow> data_tab \<Rightarrow> db_call option" where
  \<comment> \<open>\<open>None\<close> where the table has no primary key\<close>
  "handleDeleteRow_begin rowIdx s =
     (if pkList s = [] then None else Some (DeleteRow (key_of (pkList s) (dt_rows s ! rowIdx))))"

subsection \<open>The context menu\<close>

definition menu_row :: "bool \<Rightarrow> nat \<Rightarrow> data_tab \<Rightarrow> js_row" where
  \<comment> \<open>\<open>{ ...targetRow, ...(rowDrafts[rowIdx] || {}) }\<close>\<close>
  "menu_row isNewRow rowIdx s =
     merge_row ((if isNewRow then dt_newRows s else dt_rows s) ! rowIdx) (draft_row rowIdx (dt_rowDrafts s))"

definition copy_insert :: "(js_value \<Rightarrow> sql_val) \<Rightarrow> sql_dialect \<Rightarrow> string \<Rightarrow> bool \<Rightarrow> nat \<Rightarrow> data_tab \<Rightarrow> string" where
  \<comment> \<open>\<open>conv\<close> gives a value as \<open>formatSqlValue\<close> looks at it\<close>
  "copy_insert conv d tableName isNewRow rowIdx s =
     buildInsertSql d tableName (dt_columns s) (\<lambda>c. conv (row_get (menu_row isNewRow rowIdx s) c))"

definition copy_update :: "(js_value \<Rightarrow> sql_val) \<Rightarrow> sql_dialect \<Rightarrow> string \<Rightarrow> nat \<Rightarrow> data_tab \<Rightarrow> string option" where
  "copy_update conv d tableName rowIdx s =
     (if pkList s = [] then None
      else Some (buildUpdateSql d tableName (dt_columns s)
        (\<lambda>c. conv (row_get (menu_row False rowIdx s) c)) (pkList s)))"

definition clone_row :: "bool \<Rightarrow> nat \<Rightarrow> data_tab \<Rightarrow> data_tab" where
  "clone_row isNewRow rowIdx s =
     s\<lparr>dt_newRows := fold (\<lambda>pk. set_field pk JUndef) (pkList s) (menu_row isNewRow rowIdx s) # dt_newRows s\<rparr>"

definition set_null :: "cell_env \<Rightarrow> bool \<Rightarrow> nat \<Rightarrow> string \<Rightarrow> data_tab \<Rightarrow> data_tab" where
  "set_null env isNewRow rowIdx colKey s =
     (if isNewRow then handleCommitNewCell rowIdx colKey (JStr []) True s
      else handleCommitCell env rowIdx colKey (JStr []) True s)"

definition remove_new_row :: "nat \<Rightarrow> data_tab \<Rightarrow> data_tab" where
  "remove_new_row rowIdx s = s\<lparr>dt_newRows := take rowIdx (dt_newRows s) @ drop (Suc rowIdx) (dt_newRows s)\<rparr>"

subsection \<open>The cell editor\<close>

record cell_editor =
  ed_txt :: string
  ed_dirty :: bool
  ed_closed :: bool

datatype editor_event = TypeText string | CtrlS | EnterKey | EscapeKey | Blur

datatype editor_call = OnCommit string bool | OnSave string bool | OnCancel

definition open_cell :: "string \<Rightarrow> bool \<Rightarrow> cell_editor" where
  "open_cell value isNull = \<lparr>ed_txt = (if isNull then [] else value), ed_dirty = False, ed_closed = False\<rparr>"

definition close_editor :: "editor_call list \<Rightarrow> cell_editor \<Rightarrow> cell_editor \<times> editor_call list" where
  "close_editor calls e = (if ed_closed e then (e, []) else (e\<lparr>ed_closed := True\<rparr>, calls))"

fun editor_step :: "editor_event \<Rightarrow> cell_editor \<Rightarrow> cell_editor \<times> editor_call list" where
  \<comment> \<open>the data tab always passes \<open>onSave\<close>\<close>
  "editor_step (TypeText t) e = (e\<lparr>ed_dirty := True, ed_txt := t\<rparr>, [])"
| "editor_step CtrlS e = close_editor ((if ed_dirty e then [] else [OnCancel]) @ [OnSave (ed_txt e) False]) e"
| "editor_step EnterKey e = close_editor [if ed_dirty e then OnCommit (ed_txt e) False else OnCancel] e"
| "editor_step Blur e = close_editor [if ed_dirty e then OnCommit (ed_txt e) False else OnCancel] e"
| "editor_step EscapeKey e = close_editor [OnCancel] e"

fun editor_call_effect :: "cell_env \<Rightarrow> nat \<Rightarrow> string \<Rightarrow> editor_call \<Rightarrow> data_tab \<Rightarrow> data_tab \<times> save_start" where
  \<comment> \<open>the handlers of a cell of a loaded row\<close>
  "editor_call_effect env rowIdx col (OnCommit v n) s = (handleCommitCell env rowIdx col (JStr v) n s, NothingToSave)"
| "editor_call_effect env rowIdx col (OnSave v n) s = handleSaveCellInline env rowIdx col (JStr v) n s"
| "editor_call_effect env rowIdx col OnCancel s = (s\<lparr>dt_editingCell := None\<rparr>, NothingToSave)"

subsection \<open>Drafts\<close>

definition draft_cell :: "drafts \<Rightarrow> nat \<Rightarrow> string \<Rightarrow> js_value option" where
  "draft_cell ds i c = Option.bind (map_of ds i) (\<lambda>r. map_of r c)"

definition wf_drafts :: "drafts \<Rightarrow> bool" where
  "wf_drafts ds \<longleftrightarrow> sorted_wrt (<) (map fst ds) \<and> (\<forall>(i, r) \<in> set ds. r \<noteq> [] \<and> distinct (map fst r))"

lemma map_of_set_field: "map_of (set_field c v r) d = (if d = c then Some v else map_of r d)"
  by (induction c v r rule: set_field.induct) auto



lemma set_field_nonempty [simp]: "set_field c v r \<noteq> []"
  by (induction c v r rule: set_field.induct) auto

lemma map_of_draft_put: "map_of (draft_put i p ds) j = (if j = i then Some p else map_of ds j)"
  by (induction i p ds rule: draft_put.induct) auto








lemma wf_draft_row: "wf_drafts ds \<Longrightarrow> map_of ds i = Some r \<Longrightarrow> r \<noteq> [] \<and> distinct (map fst r)"
  by (auto simp: wf_drafts_def dest!: map_of_SomeD)



lemma draft_cell_put: "draft_cell (put_draft i c v ds) j d = (if j = i \<and> d = c then Some v else draft_cell ds j d)"
  by (auto simp: draft_cell_def put_draft_def map_of_draft_put map_of_set_field draft_row_def nullish_def
      split: option.split)


subsection \<open>What a save sends\<close>









subsection \<open>Answers that come late\<close>

datatype load_event =
    BeginLoad int int string string sort_order
  | DoneLoad nat "string list" "js_row list"
  | FailLoad nat
  | CountLoad nat "int option"

fun load_step :: "data_tab \<Rightarrow> load_event \<Rightarrow> data_tab" where
  "load_step s (BeginLoad p z w c o') = fst (loadData_begin p z w c o' s)"
| "load_step s (DoneLoad r cs rows) = loadData_done r cs rows s"
| "load_step s (FailLoad r) = loadData_fail r s"
| "load_step s (CountLoad r n) = count_done r n s"

definition is_begin :: "load_event \<Rightarrow> bool" where
  "is_begin e \<longleftrightarrow> (case e of BeginLoad _ _ _ _ _ \<Rightarrow> True | _ \<Rightarrow> False)"

definition answers :: "nat \<Rightarrow> load_event \<Rightarrow> bool" where
  \<comment> \<open>the event brings the rows of request \<open>r\<close>\<close>
  "answers r e \<longleftrightarrow> (case e of DoneLoad q _ _ \<Rightarrow> q = r | _ \<Rightarrow> False)"

lemma load_step_reqId: "\<not> is_begin e \<Longrightarrow> dt_reqId (load_step s e) = dt_reqId s"
  by (cases e) (auto simp: is_begin_def loadData_done_def loadData_fail_def count_done_def split: option.split)

lemma load_steps_reqId: "list_all (\<lambda>e. \<not> is_begin e) es \<Longrightarrow> dt_reqId (foldl load_step s es) = dt_reqId s"
  by (induction es arbitrary: s) (simp_all add: load_step_reqId)

lemma load_steps_rows:
  "list_all (\<lambda>e. \<not> is_begin e \<and> \<not> answers (dt_reqId s) e) es \<Longrightarrow>
     dt_rows (foldl load_step s es) = dt_rows s \<and> dt_columns (foldl load_step s es) = dt_columns s"
proof (induction es arbitrary: s)
  case (Cons e es)
  have "dt_rows (load_step s e) = dt_rows s \<and> dt_columns (load_step s e) = dt_columns s"
    using Cons.prems by (cases e) (auto simp: is_begin_def answers_def loadData_done_def loadData_fail_def
        count_done_def split: option.split)
  moreover have "dt_reqId (load_step s e) = dt_reqId s"
    using Cons.prems by (simp add: load_step_reqId)
  ultimately show ?case using Cons by simp
qed simp

text \<open>
  C9: whatever answers of earlier requests, failures and counts arrive before and after it, the rows on screen
  are those of the last request that was made, once they have arrived.
\<close>

theorem latest_rows_shown:
  assumes "s1 = load_step s (BeginLoad p z w c o')" "r = dt_reqId s1"
    and "list_all (\<lambda>e. \<not> is_begin e) es" "list_all (\<lambda>e. \<not> is_begin e \<and> \<not> answers r e) es'"
  shows "dt_rows (foldl load_step s1 (es @ DoneLoad r cols rows # es')) = rows \<and>
    dt_columns (foldl load_step s1 (es @ DoneLoad r cols rows # es')) = cols"
proof -
  define s2 where "s2 = foldl load_step s1 es"
  define s3 where "s3 = load_step s2 (DoneLoad r cols rows)"
  have "dt_reqId s2 = r" using assms(2,3) by (simp add: s2_def load_steps_reqId)
  then have "dt_rows s3 = rows" "dt_columns s3 = cols" "dt_reqId s3 = r"
    by (simp_all add: s3_def loadData_done_def)
  then show ?thesis
    using load_steps_rows [of s3 es'] assms(4)
    unfolding foldl_append foldl.simps s2_def [symmetric] s3_def [symmetric] by simp
qed

text \<open>
  If the next load fails before the count of the one before has arrived, no request is under way any more,
  and the display says for ever that it is counting.
\<close>

theorem count_never_ends:
  assumes "s1 = load_step s (BeginLoad p z w c o')" "r = dt_reqId s1"
    and "s2 = foldl load_step s1
      [DoneLoad r cols rows, BeginLoad p' z' w' c' o'', FailLoad (Suc r), CountLoad r n]"
  shows "dt_countingRows s2 \<and> \<not> dt_loading s2 \<and> dt_totalRows s2 = dt_totalRows s"
  by (simp add: assms loadData_begin_def loadData_done_def loadData_fail_def count_done_def)

subsection \<open>Where edits go wrong\<close>

text \<open>
  Ctrl+S in a cell editor does not look whether a save is under way: the new rows, which are there until
  that save has ended, are inserted a second time.
\<close>

theorem new_rows_inserted_twice:
  assumes "r \<in> set (dt_newRows s)" "\<exists>(k, v) \<in> set r. v \<noteq> JUndef" "pkList s \<noteq> []"
    and "(s1, Saving calls) = handleSaveAll_begin (dt_rowDrafts s) (dt_newRows s) s"
  shows "InsertRow (filter (\<lambda>(k, v). v \<noteq> JUndef) r) \<in> set calls \<and> dt_saving s1 \<and>
    (\<exists>s2 calls'. handleSaveCellInline env i c v n s1 = (s2, Saving calls') \<and>
       InsertRow (filter (\<lambda>(k, v). v \<noteq> JUndef) r) \<in> set calls')"
proof -
  have "filter (\<lambda>(k, v). v \<noteq> JUndef) r \<noteq> []"
    using assms(2) by (auto simp: filter_empty_conv)
  then have ins: "InsertRow (filter (\<lambda>(k, v). v \<noteq> JUndef) r) \<in> set (insertRows (dt_newRows s))"
    using assms(1) by (auto simp: insertRows_def)
  have ne: "dt_newRows s \<noteq> []" using assms(1) by auto
  have s1: "s1 = s\<lparr>dt_saving := True\<rparr>"
    "calls = updateRows (dt_rowDrafts s) (dt_rows s) (pkList s) @ insertRows (dt_newRows s)"
    using assms(4) assms(3) ne by (simp_all add: handleSaveAll_begin_def)
  show ?thesis
    using ins ne assms(3) by (simp add: s1 handleSaveCellInline_def handleSaveAll_begin_def Let_def pkList_def)
qed

text \<open>An edit that is made while a save is under way is not sent, and is gone when the save has ended.\<close>

theorem edit_during_save_lost:
  assumes "handleSaveAll_begin (dt_rowDrafts s) (dt_newRows s) s = (s1, Saving calls)"
    and "draft_cell (dt_rowDrafts s) i c = None" "s2 = handleCommitCell env i c v n s1"
    and "\<not> isSameCellValue (ce_stringify env) (row_get (dt_rows s ! i) c) (if n then JNull else v)"
  shows "calls = updateRows (dt_rowDrafts s) (dt_rows s) (pkList s) @ insertRows (dt_newRows s) \<and>
    draft_cell (dt_rowDrafts s2) i c = Some (coerceCellValue (ce_print env) (row_get (dt_rows s ! i) c) v n) \<and>
    dt_rowDrafts (fst (handleSaveAll_done d s s2)) = []"
proof -
  have s1: "s1 = s\<lparr>dt_saving := True\<rparr>"
    "calls = updateRows (dt_rowDrafts s) (dt_rows s) (pkList s) @ insertRows (dt_newRows s)"
    using assms(1) by (auto simp: handleSaveAll_begin_def split: if_splits)
  then show ?thesis
    using assms(4) by (simp add: assms(3) handleCommitCell_def cell_draft_def Let_def draft_cell_put
        handleSaveAll_done_def reload_def loadData_begin_def)
qed

text \<open>
  The context menu of a new row merges the drafts of the loaded row with the same index into it: what is
  copied or cloned has the values of another row.
\<close>

theorem menu_takes_foreign_draft:
  assumes "draft_cell (dt_rowDrafts s) i c = Some v" "wf_drafts (dt_rowDrafts s)" "i < length (dt_newRows s)"
  shows "row_get (menu_row True i s) c = v \<and>
    (c \<notin> set (pkList s) \<longrightarrow> row_get (hd (dt_newRows (clone_row True i s))) c = v)"
proof -
  obtain p where p: "map_of (dt_rowDrafts s) i = Some p" "map_of p c = Some v"
    using assms(1) by (auto simp: draft_cell_def bind_eq_Some_conv)
  have merge: "map_of (fold (\<lambda>(c, v). set_field c v) q r) c = (case map_of (rev q) c of Some w \<Rightarrow> Some w | None \<Rightarrow> map_of r c)" for q r
    by (induction q arbitrary: r) (auto simp: map_of_set_field map_add_def split: option.split)
  have "map_of (rev p) c = Some v"
    using p wf_draft_row [OF assms(2) p(1)] by (auto simp: rev_map [symmetric] intro!: map_of_is_SomeI dest: map_of_SomeD)
  then have m: "map_of (menu_row True i s) c = Some v"
    by (simp add: menu_row_def merge_row_def merge draft_row_def p nullish_def)
  have keep: "c \<notin> set ks \<Longrightarrow> map_of (fold (\<lambda>pk. set_field pk JUndef) ks r) c = map_of r c" for ks r
    by (induction ks arbitrary: r) (auto simp: map_of_set_field)
  show ?thesis
    using m by (simp add: row_get_def nullish_def clone_row_def keep)
qed

text \<open>
  A loaded text of digits such as \<open>007\<close> that is edited to \<open>7\<close> counts as unchanged, because both are the
  same number: the edit leaves no draft and is not saved.
\<close>

theorem leading_zero_edit_discarded:
  assumes "ds \<noteq> []" "list_all is_digit ds" "row_get (dt_rows s ! i) c = JStr (CHR ''0'' # ds)" "dt_rowDrafts s = []"
  shows "dt_rowDrafts (handleCommitCell env i c (JStr ds) False s) = []"
  using assms(3,4) leading_zero_same [OF assms(2,1)]
  by (simp add: handleCommitCell_def cell_draft_def Let_def drop_draft_def)

text \<open>
  Ctrl+S in a cell that shows \<open>NULL\<close>, without any input, saves the empty text in its place.
\<close>

theorem ctrl_s_overwrites_null:
  assumes "is_nullish (row_get (dt_rows s ! i) c)" "dt_rowDrafts s = []" "dt_newRows s = []" "pkList s \<noteq> []"
    and "editor_step CtrlS (open_cell value True) = (e, calls)"
  shows "snd (editor_call_effect env i c (last calls) s) =
    Saving [UpdateRow [(c, JStr [])] (key_of (pkList s) (dt_rows s ! i))]"
proof -
  have "calls = [OnCancel, OnSave [] False]"
    using assms(5) by (simp add: open_cell_def close_editor_def)
  moreover have "cell_draft env (dt_rows s) i c (JStr []) False [] = [(i, [(c, JStr [])])]"
    using assms(1) by (auto simp: cell_draft_def Let_def isSameCellValue_def is_nullish_def put_draft_def
        draft_row_def nullish_def coerceCellValue_def)
  ultimately show ?thesis
    using assms(2-4) by (simp add: handleSaveCellInline_def handleSaveAll_begin_def updateRows_def insertRows_def pkList_def Let_def)
qed

subsection \<open>The properties at a concrete table\<close>

definition demo_env :: cell_env where
  "demo_env = \<lparr>ce_stringify = js_string, ce_print = (\<lambda>_. [])\<rparr>"

definition demo_pk :: column_meta where
  "demo_pk = \<lparr>dc_name = ''id'', dc_origName = None, dc_dataType = ''int'', dc_udtName = None, dc_isNullable = False,
     dc_defaultVal = [], dc_isPrimaryKey = True, dc_isForeignKey = False, dc_extra = None, dc_comment = None,
     dc_isNew = False\<rparr>"

definition demo_tab :: data_tab where
  \<comment> \<open>two rows of a table with the key \<open>id\<close>\<close>
  "demo_tab = init_data_tab\<lparr>dt_columns := [''id'', ''name''],
     dt_rows := [[(''id'', JNum ''1''), (''name'', JStr ''007'')], [(''id'', JNum ''2''), (''name'', JNull)]],
     dt_structure := Some \<lparr>ts_columns = [demo_pk], ts_indexes = [], ts_constraints = [], ts_primaryKeys = [''id'']\<rparr>\<rparr>"


theorem latest_rows_shown_witness:
  "dt_rows (foldl load_step (load_step demo_tab (BeginLoad 2 50 [] [] Asc))
      ([FailLoad 0, CountLoad 0 None] @ DoneLoad 1 [''id''] [[(''id'', JNum ''9'')]] # [DoneLoad 0 [] [], CountLoad 1 (Some 51)]))
     = [[(''id'', JNum ''9'')]] \<and>
   dt_columns (foldl load_step (load_step demo_tab (BeginLoad 2 50 [] [] Asc))
      ([FailLoad 0, CountLoad 0 None] @ DoneLoad 1 [''id''] [[(''id'', JNum ''9'')]] # [DoneLoad 0 [] [], CountLoad 1 (Some 51)]))
     = [''id'']"
  by (rule latest_rows_shown [OF refl]) code_simp+

theorem count_never_ends_witness:
  "let s2 = foldl load_step (load_step demo_tab (BeginLoad 1 100 [] [] Asc))
      [DoneLoad 1 [] [], BeginLoad 2 100 [] [] Asc, FailLoad (Suc 1), CountLoad 1 (Some 7)]
   in dt_countingRows s2 \<and> \<not> dt_loading s2 \<and> dt_totalRows s2 = dt_totalRows demo_tab"
  unfolding Let_def
  by (rule count_never_ends [of _ demo_tab 1 100 "[]" "[]" Asc 1 _ "[]" "[]" 2 100 "[]" "[]" Asc "Some 7"])
     (code_simp+)

theorem new_rows_inserted_twice_witness:
  "InsertRow [(''name'', JStr ''Al'')] \<in> set [InsertRow [(''name'', JStr ''Al'')]] \<and>
   (\<exists>s2 calls'. handleSaveCellInline demo_env 0 ''name'' (JStr ''Bo'') False
       (demo_tab\<lparr>dt_newRows := [[(''id'', JUndef), (''name'', JStr ''Al'')]], dt_saving := True\<rparr>) = (s2, Saving calls') \<and>
     InsertRow [(''name'', JStr ''Al'')] \<in> set calls')"
  using new_rows_inserted_twice [of "[(''id'', JUndef), (''name'', JStr ''Al'')]"
      "demo_tab\<lparr>dt_newRows := [[(''id'', JUndef), (''name'', JStr ''Al'')]]\<rparr>"
      "demo_tab\<lparr>dt_newRows := [[(''id'', JUndef), (''name'', JStr ''Al'')]], dt_saving := True\<rparr>"
      "[InsertRow [(''name'', JStr ''Al'')]]" demo_env 0 "''name''" "JStr ''Bo''" False]
  by (simp add: demo_tab_def demo_pk_def init_data_tab_def pkList_def handleSaveAll_begin_def updateRows_def insertRows_def)

theorem edit_during_save_lost_witness:
  "\<exists>calls. snd (handleSaveAll_begin [(0, [(''name'', JStr ''Al'')])] [] (demo_tab\<lparr>dt_rowDrafts := [(0, [(''name'', JStr ''Al'')])]\<rparr>))
      = Saving calls \<and> length calls = 1 \<and>
    dt_rowDrafts (fst (handleSaveAll_done MysqlD (demo_tab\<lparr>dt_rowDrafts := [(0, [(''name'', JStr ''Al'')])]\<rparr>)
      (handleCommitCell demo_env 1 ''name'' (JStr ''Bo'') False
        (demo_tab\<lparr>dt_rowDrafts := [(0, [(''name'', JStr ''Al'')])], dt_saving := True\<rparr>)))) = []"
  using edit_during_save_lost [of "demo_tab\<lparr>dt_rowDrafts := [(0, [(''name'', JStr ''Al'')])]\<rparr>"
      "demo_tab\<lparr>dt_rowDrafts := [(0, [(''name'', JStr ''Al'')])], dt_saving := True\<rparr>"
      "[UpdateRow [(''name'', JStr ''Al'')] [(''id'', JNum ''1'')]]" 1 "''name''" _ demo_env "JStr ''Bo''" False MysqlD, OF _ _ refl]
  by (simp add: demo_tab_def demo_pk_def init_data_tab_def pkList_def handleSaveAll_begin_def updateRows_def insertRows_def
      key_of_def row_get_def nullish_def draft_cell_def isSameCellValue_def is_nullish_def)

theorem menu_takes_foreign_draft_witness:
  "let s = demo_tab\<lparr>dt_rowDrafts := [(0, [(''name'', JStr ''Al'')])], dt_newRows := [[(''name'', JStr ''Cy'')]]\<rparr> in
   row_get (menu_row True 0 s) ''name'' = JStr ''Al'' \<and>
   row_get (hd (dt_newRows (clone_row True 0 s))) ''name'' = JStr ''Al''"
  unfolding Let_def
  using menu_takes_foreign_draft [of "demo_tab\<lparr>dt_rowDrafts := [(0, [(''name'', JStr ''Al'')])], dt_newRows := [[(''name'', JStr ''Cy'')]]\<rparr>" 0 "''name''" "JStr ''Al''"]
  by (simp add: demo_tab_def demo_pk_def init_data_tab_def pkList_def draft_cell_def wf_drafts_def)

theorem leading_zero_edit_discarded_witness:
  "dt_rowDrafts (handleCommitCell demo_env 0 ''name'' (JStr ''07'') False demo_tab) = []"
  by (rule leading_zero_edit_discarded) code_simp+

theorem ctrl_s_overwrites_null_witness:
  "snd (editor_call_effect demo_env 1 ''name'' (last (snd (editor_step CtrlS (open_cell [] True)))) demo_tab) =
    Saving [UpdateRow [(''name'', JStr [])] [(''id'', JNum ''2'')]]"
proof -
  have "key_of (pkList demo_tab) (dt_rows demo_tab ! 1) = [(''id'', JNum ''2'')]" by code_simp
  then show ?thesis
    using ctrl_s_overwrites_null [of demo_tab 1 "''name''" "[]" "fst (editor_step CtrlS (open_cell [] True))"
        "snd (editor_step CtrlS (open_cell [] True))" demo_env]
    by (simp add: demo_tab_def demo_pk_def init_data_tab_def pkList_def row_get_def nullish_def is_nullish_def)
qed

end
