(* ===== verification/TreeView.thy ===== *)
theory TreeView
  imports Complex_Main ApiClient
begin

section \<open>The tree on screen\<close>

text \<open>
  The component \<open>components/common/Tree/Tree.tsx\<close>, which every tree of the program is shown with, and
  the list of saved requests \<open>pages/api/ApiTreeList.tsx\<close> that uses it. The component keeps what is
  expanded, selected and loading, and the state of a drag; what it calls of its owner is a list of
  calls. The ref of the dragged node and the key in its state are one field, since they are always set
  together. The list of requests drags nodes of the tree that is left after the search.
\<close>

subsection \<open>Nodes\<close>

datatype tree_node = TNode (tn_key: string) (tn_isLeaf: "bool option") (tn_disabled: bool)
  (tn_children: "tree_node list option")

fun findNode :: "string \<Rightarrow> tree_node list \<Rightarrow> tree_node option" where
  "findNode key [] = None"
| "findNode key (TNode k l d None # ns) = (if k = key then Some (TNode k l d None) else findNode key ns)"
| "findNode key (TNode k l d (Some ch) # ns) =
     (if k = key then Some (TNode k l d (Some ch))
      else case findNode key ch of Some n \<Rightarrow> Some n | None \<Rightarrow> findNode key ns)"

fun checkInChildren :: "tree_node list \<Rightarrow> string \<Rightarrow> bool" where
  "checkInChildren [] target = False"
| "checkInChildren (TNode k l d None # ns) target = (k = target \<or> checkInChildren ns target)"
| "checkInChildren (TNode k l d (Some ch) # ns) target =
     (k = target \<or> checkInChildren ch target \<or> checkInChildren ns target)"

definition isDescendant :: "string \<Rightarrow> string \<Rightarrow> tree_node list \<Rightarrow> bool" where
  "isDescendant parentKey childKey nodes =
     (case findNode parentKey nodes of
        None \<Rightarrow> False
      | Some p \<Rightarrow> (case tn_children p of None \<Rightarrow> False | Some ch \<Rightarrow> checkInChildren ch childKey))"

definition no_children :: "tree_node \<Rightarrow> bool" where
  \<comment> \<open>\<open>!node.children || node.children.length === 0\<close>\<close>
  "no_children n \<longleftrightarrow> (case tn_children n of None \<Rightarrow> True | Some ch \<Rightarrow> ch = [])"

subsection \<open>State and properties of the component\<close>

record tree_props =
  tp_data :: "tree_node list"
  tp_expandedKeys :: "string list option" \<comment> \<open>given where the owner controls what is expanded\<close>
  tp_selectedKeys :: "string list option"
  tp_loadData :: bool \<comment> \<open>whether children are loaded when a node is expanded\<close>
  tp_draggable :: bool
  tp_nodeDraggable :: "tree_node \<Rightarrow> bool"

record tree_view =
  tv_expanded :: "string list"
  tv_selected :: "string list"
  tv_loading :: "string list"
  tv_drag :: "tree_node option"
  tv_dropTarget :: "string option"
  tv_dropPosition :: int
  tv_dropToGap :: bool
  tv_hoverKey :: "string option" \<comment> \<open>\<open>hoverExpandTimerRef\<close>\<close>
  tv_hoverTimer :: "tree_node option" \<comment> \<open>the node its timer expands, while the timer is running\<close>

datatype tree_call =
    OnExpand "string list" tree_node bool
  | OnSelect "string list" tree_node
  | LoadData tree_node
  | OnDragStart tree_node
  | OnDragEnd tree_node
  | OnDrop tree_node tree_node int bool \<comment> \<open>the node, the dragged node, the position and whether it is a gap\<close>

definition init_tree :: "string list \<Rightarrow> string list \<Rightarrow> tree_view" where
  "init_tree defaultExpandedKeys defaultSelectedKeys =
     \<lparr>tv_expanded = defaultExpandedKeys, tv_selected = defaultSelectedKeys, tv_loading = [], tv_drag = None,
      tv_dropTarget = None, tv_dropPosition = 0, tv_dropToGap = False, tv_hoverKey = None, tv_hoverTimer = None\<rparr>"

definition expandedKeys :: "tree_props \<Rightarrow> tree_view \<Rightarrow> string list" where
  "expandedKeys p s = nullish (tp_expandedKeys p) (tv_expanded s)"

definition node_leaf :: "tree_props \<Rightarrow> tree_node \<Rightarrow> bool" where
  "node_leaf p n \<longleftrightarrow> tn_isLeaf n = Some True \<or> (tn_isLeaf n = None \<and> no_children n \<and> \<not> tp_loadData p)"

definition is_draggable :: "tree_props \<Rightarrow> tree_node \<Rightarrow> bool" where
  "is_draggable p n \<longleftrightarrow> tp_draggable p \<and> \<not> tn_disabled n \<and> tp_nodeDraggable p n"

subsection \<open>Handlers\<close>

definition resetDragState :: "tree_view \<Rightarrow> tree_view" where
  "resetDragState s = s\<lparr>tv_drag := None, tv_dropTarget := None, tv_dropPosition := 0, tv_dropToGap := False,
     tv_hoverKey := None, tv_hoverTimer := None\<rparr>"

definition handleToggleExpand :: "tree_props \<Rightarrow> tree_node \<Rightarrow> tree_view \<Rightarrow> tree_view \<times> tree_call list" where
  \<comment> \<open>up to the await of \<open>loadData\<close>\<close>
  "handleToggleExpand p n s =
     (if tn_disabled n then (s, [])
      else
        let keys = expandedKeys p s; willExpand = (tn_key n \<notin> set keys);
            nextKeys = (if willExpand then keys @ [tn_key n] else filter (\<lambda>k. k \<noteq> tn_key n) keys);
            s1 = (if tp_expandedKeys p = None then s\<lparr>tv_expanded := nextKeys\<rparr> else s);
            load = (willExpand \<and> tp_loadData p \<and> no_children n \<and> tn_isLeaf n \<noteq> Some True)
        in (if load then s1\<lparr>tv_loading := List.insert (tn_key n) (tv_loading s)\<rparr> else s1,
            OnExpand nextKeys n willExpand # (if load then [LoadData n] else [])))"

definition load_settled :: "tree_node \<Rightarrow> tree_view \<Rightarrow> tree_view" where
  "load_settled n s = s\<lparr>tv_loading := filter (\<lambda>k. k \<noteq> tn_key n) (tv_loading s)\<rparr>"

definition handleRowClick :: "tree_props \<Rightarrow> tree_node \<Rightarrow> tree_view \<Rightarrow> tree_view \<times> tree_call list" where
  "handleRowClick p n s =
     (if tn_disabled n then (s, [])
      else (if tp_selectedKeys p = None then s\<lparr>tv_selected := [tn_key n]\<rparr> else s, [OnSelect [tn_key n] n]))"

definition handleRowDoubleClick :: "tree_props \<Rightarrow> tree_node \<Rightarrow> tree_view \<Rightarrow> tree_view \<times> tree_call list" where
  "handleRowDoubleClick p n s = (if node_leaf p n then (s, []) else handleToggleExpand p n s)"

definition handleNodeDragStart :: "tree_props \<Rightarrow> tree_node \<Rightarrow> tree_view \<Rightarrow> tree_view \<times> tree_call list" where
  "handleNodeDragStart p n s =
     (if is_draggable p n then (s\<lparr>tv_drag := Some n\<rparr>, [OnDragStart n]) else (s, []))"

definition drop_folder :: "tree_props \<Rightarrow> tree_node \<Rightarrow> bool" where
  \<comment> \<open>\<open>isFolder\<close> of \<open>handleNodeDragOver\<close>\<close>
  "drop_folder p n \<longleftrightarrow>
     tn_isLeaf n = Some False \<or> (tn_isLeaf n = None \<and> (tn_children n \<noteq> None \<or> tp_loadData p))"

definition drop_place :: "bool \<Rightarrow> rat \<Rightarrow> int \<times> bool" where
  "drop_place folder ratio =
     (if folder then if ratio < 1 / 4 then (-1, True) else if ratio > 3 / 4 then (1, True) else (0, False)
      else if ratio < 1 / 2 then (-1, True) else (1, True))"

definition hover :: "tree_props \<Rightarrow> tree_node \<Rightarrow> tree_view \<Rightarrow> tree_view" where
  "hover p n s =
     (if drop_folder p n \<and> tn_key n \<notin> set (expandedKeys p s)
      then if tv_hoverKey s = Some (tn_key n) then s
           else s\<lparr>tv_hoverKey := Some (tn_key n), tv_hoverTimer := Some n\<rparr>
      else s\<lparr>tv_hoverKey := None, tv_hoverTimer := None\<rparr>)"

definition handleNodeDragOver :: "tree_props \<Rightarrow> tree_node \<Rightarrow> rat \<Rightarrow> tree_view \<Rightarrow> tree_view" where
  \<comment> \<open>\<open>ratio\<close> is how far down the row the pointer is\<close>
  "handleNodeDragOver p n ratio s =
     (case tv_drag s of
        None \<Rightarrow> s
      | Some d \<Rightarrow>
          if tn_key d = tn_key n \<or> isDescendant (tn_key d) (tn_key n) (tp_data p) then s
          else case drop_place (drop_folder p n) ratio of (pos, gap) \<Rightarrow>
            hover p n (s\<lparr>tv_dropTarget := Some (tn_key n), tv_dropPosition := pos, tv_dropToGap := gap\<rparr>))"

definition hover_timer :: "tree_props \<Rightarrow> tree_view \<Rightarrow> tree_view \<times> tree_call list" where
  \<comment> \<open>the timer of \<open>handleNodeDragOver\<close> fires\<close>
  "hover_timer p s =
     (case tv_hoverTimer s of None \<Rightarrow> (s, []) | Some n \<Rightarrow> handleToggleExpand p n (s\<lparr>tv_hoverTimer := None\<rparr>))"

definition handleNodeDrop :: "tree_props \<Rightarrow> tree_node \<Rightarrow> tree_view \<Rightarrow> tree_view \<times> tree_call list" where
  "handleNodeDrop p n s =
     (case tv_drag s of
        None \<Rightarrow> (resetDragState s, [])
      | Some d \<Rightarrow>
          if tn_key d = tn_key n \<or> isDescendant (tn_key d) (tn_key n) (tp_data p) then (resetDragState s, [])
          else (resetDragState s, [OnDrop n d (tv_dropPosition s) (tv_dropToGap s)]))"

definition handleNodeDragEnd :: "tree_view \<Rightarrow> tree_view \<times> tree_call list" where
  "handleNodeDragEnd s =
     (resetDragState s, case tv_drag s of None \<Rightarrow> [] | Some d \<Rightarrow> [OnDragEnd d])"

definition root_drop :: "tree_props \<Rightarrow> tree_view \<Rightarrow> tree_view \<times> tree_call list" where
  \<comment> \<open>a drop below the last row\<close>
  "root_drop p s =
     (case tv_drag s of
        None \<Rightarrow> (s, [])
      | Some d \<Rightarrow>
          if \<not> tp_draggable p then (s, [])
          else if tp_data p \<noteq> [] \<and> tn_key (last (tp_data p)) \<noteq> tn_key d
          then (resetDragState s, [OnDrop (last (tp_data p)) d 1 True])
          else (resetDragState s, []))"

subsection \<open>A run of the component\<close>

datatype tree_event =
    ToggleRow tree_node
  | LoadSettled tree_node
  | ClickRow tree_node
  | DoubleClickRow tree_node
  | DragStart tree_node
  | DragOver tree_node rat
  | HoverTimer
  | DropOn tree_node
  | DragEnd
  | DropBelow

fun tree_step :: "tree_props \<Rightarrow> tree_view \<Rightarrow> tree_event \<Rightarrow> tree_view \<times> tree_call list" where
  "tree_step p s (ToggleRow n) = handleToggleExpand p n s"
| "tree_step p s (LoadSettled n) = (load_settled n s, [])"
| "tree_step p s (ClickRow n) = handleRowClick p n s"
| "tree_step p s (DoubleClickRow n) = handleRowDoubleClick p n s"
| "tree_step p s (DragStart n) = handleNodeDragStart p n s"
| "tree_step p s (DragOver n r) = (handleNodeDragOver p n r s, [])"
| "tree_step p s HoverTimer = hover_timer p s"
| "tree_step p s (DropOn n) = handleNodeDrop p n s"
| "tree_step p s DragEnd = handleNodeDragEnd s"
| "tree_step p s DropBelow = root_drop p s"

fun nodes_below :: "tree_node list \<Rightarrow> tree_node list" where
  \<comment> \<open>every row that can be shown\<close>
  "nodes_below [] = []"
| "nodes_below (TNode k l d None # ns) = TNode k l d None # nodes_below ns"
| "nodes_below (TNode k l d (Some ch) # ns) = TNode k l d (Some ch) # nodes_below ch @ nodes_below ns"

fun tree_enabled :: "tree_props \<Rightarrow> tree_view \<Rightarrow> tree_event \<Rightarrow> bool" where
  \<comment> \<open>events come from rows that are there; the browser drops where it has last reported the pointer\<close>
  "tree_enabled p s (DropOn n) \<longleftrightarrow> n \<in> set (nodes_below (tp_data p)) \<and>
     (case tv_drag s of
        None \<Rightarrow> True
      | Some d \<Rightarrow> tv_dropTarget s = Some (tn_key n) \<or> tn_key d = tn_key n
          \<or> isDescendant (tn_key d) (tn_key n) (tp_data p))"
| "tree_enabled p s (DragStart n) \<longleftrightarrow> n \<in> set (nodes_below (tp_data p))"
| "tree_enabled p s (DragOver n r) \<longleftrightarrow> n \<in> set (nodes_below (tp_data p))"
| "tree_enabled p s _ \<longleftrightarrow> True"

definition tree_inv :: "tree_props \<Rightarrow> tree_view \<Rightarrow> bool" where
  \<comment> \<open>the dragged node is a row, and so is the target, a folder where the drop goes inside\<close>
  "tree_inv p s \<longleftrightarrow>
     (\<forall>d. tv_drag s = Some d \<longrightarrow> d \<in> set (nodes_below (tp_data p))) \<and>
     (\<forall>k. tv_dropTarget s = Some k \<and> \<not> tv_dropToGap s \<longrightarrow>
        (\<exists>n \<in> set (nodes_below (tp_data p)). tn_key n = k \<and> drop_folder p n))"

lemma toggle_drag [simp]:
  "tv_drag (fst (handleToggleExpand p n s)) = tv_drag s"
  "tv_dropTarget (fst (handleToggleExpand p n s)) = tv_dropTarget s"
  "tv_dropToGap (fst (handleToggleExpand p n s)) = tv_dropToGap s"
  by (simp_all add: handleToggleExpand_def Let_def)

lemma reset_inv [simp]: "tree_inv p (resetDragState s)"
  by (simp add: tree_inv_def resetDragState_def)

lemma tree_inv_frame:
  assumes "tree_inv p s" "tv_drag u = tv_drag s" "tv_dropTarget u = tv_dropTarget s" "tv_dropToGap u = tv_dropToGap s"
  shows "tree_inv p u"
  using assms by (simp add: tree_inv_def)

lemma hover_frame [simp]:
  "tv_drag (hover p n s) = tv_drag s" "tv_dropTarget (hover p n s) = tv_dropTarget s"
  "tv_dropToGap (hover p n s) = tv_dropToGap s"
  by (simp_all add: hover_def)

lemma drag_over_inv:
  assumes "tree_inv p s" "n \<in> set (nodes_below (tp_data p))"
  shows "tree_inv p (handleNodeDragOver p n r s)"
  using assms
  by (auto simp: tree_inv_def handleNodeDragOver_def drop_place_def split: option.split prod.split if_splits)

lemma tree_step_inv: "tree_inv p s \<Longrightarrow> tree_enabled p s e \<Longrightarrow> tree_inv p (fst (tree_step p s e))"
proof (induction p s e rule: tree_step.induct)
  case (5 p s n)
  then show ?case by (auto simp: handleNodeDragStart_def tree_inv_def)
next
  case (7 p s)
  then show ?case
    by (cases "tv_hoverTimer s") (auto simp: hover_timer_def intro: tree_inv_frame)
next
  case (8 p s n)
  then show ?case by (simp add: handleNodeDrop_def split: option.split)
next
  case (10 p s)
  then show ?case by (simp add: root_drop_def split: option.split)
qed (auto simp: drag_over_inv handleRowClick_def handleRowDoubleClick_def handleNodeDragEnd_def load_settled_def
    intro: tree_inv_frame)

interpretation tree_view: transition_system "tree_enabled p" "\<lambda>s e. fst (tree_step p s e)" "tree_inv p" for p
  by unfold_locales (rule tree_step_inv)

end
