(* ===== verification/ApiTreeList.thy ===== *)
theory ApiTreeList
  imports TreeView
begin

section \<open>The list of saved requests\<close>

text \<open>
  \<open>pages/api/ApiTreeList.tsx\<close>: the search, what is expanded, the dialogs for a name, a move and a
  confirmation, and the drop of a dragged node. The handlers of \<open>useApi\<close> that it calls are those of
  \<open>ApiClient\<close>; a handler here changes both states. The two fields of the save dialog belong to the state of
  \<open>useApi\<close>. Shown: whatever is dragged in the tree, filtered or not, every request and folder is kept.
\<close>

subsection \<open>State\<close>

datatype confirm_action =
    ConfirmLoad saved_api
  | ConfirmBlank
  | ConfirmDelete string

datatype name_modal =
    NewFolder "string option" \<comment> \<open>in which folder\<close>
  | RenameNode string

record tree_list =
  tl_keyword :: string
  tl_expanded :: "string list"
  tl_nameModal :: "name_modal option"
  tl_nameInput :: string
  tl_confirm :: "confirm_action option"
  tl_move :: "(string \<times> bool) option" \<comment> \<open>the node of the move dialog, and whether it is a folder\<close>
  tl_targetFolder :: string
  tl_saveModal :: bool \<comment> \<open>\<open>saveModalOpen\<close>, opened as save-as\<close>

definition init_tree_list :: tree_list where
  "init_tree_list = \<lparr>tl_keyword = [], tl_expanded = [''folder_default''], tl_nameModal = None, tl_nameInput = [],
     tl_confirm = None, tl_move = None, tl_targetFolder = ''__root__'', tl_saveModal = False\<rparr>"

type_synonym list_state = "tree_list \<times> api_client"

subsection \<open>Opening and creating requests\<close>

definition safeLoadApi :: "saved_api \<Rightarrow> list_state \<Rightarrow> list_state" where
  "safeLoadApi item s =
     (case s of (l, c) \<Rightarrow>
        if Some (sa_id item) = c_currentId c then s
        else if isModified c then (l\<lparr>tl_confirm := Some (ConfirmLoad item)\<rparr>, c)
        else (l, loadSavedApi item c))"

definition open_blank :: "list_state \<Rightarrow> list_state" where
  "open_blank s = (case s of (l, c) \<Rightarrow> (l\<lparr>tl_saveModal := True\<rparr>, newBlankApi c))"

definition safeNewBlankApi :: "list_state \<Rightarrow> list_state" where
  "safeNewBlankApi s =
     (case s of (l, c) \<Rightarrow>
        if isModified c then (l\<lparr>tl_confirm := Some ConfirmBlank\<rparr>, c) else open_blank s)"

definition confirm_yes :: "list_state \<Rightarrow> list_state" where
  \<comment> \<open>\<open>onConfirm\<close> of the open dialog\<close>
  "confirm_yes s =
     (case s of (l, c) \<Rightarrow>
        let l' = l\<lparr>tl_confirm := None\<rparr> in
        case tl_confirm l of
          None \<Rightarrow> s
        | Some (ConfirmLoad item) \<Rightarrow> (l', loadSavedApi item c)
        | Some ConfirmBlank \<Rightarrow> open_blank (l', c)
        | Some (ConfirmDelete i) \<Rightarrow> (l', deleteTreeNode i c))"

definition ask_delete :: "string \<Rightarrow> list_state \<Rightarrow> list_state" where
  "ask_delete i s = (case s of (l, c) \<Rightarrow> (l\<lparr>tl_confirm := Some (ConfirmDelete i)\<rparr>, c))"

subsection \<open>What is expanded\<close>

definition effectiveExpandedKeys :: "tree_list \<Rightarrow> api_client \<Rightarrow> string list" where
  "effectiveExpandedKeys l c =
     (if trim (tl_keyword l) \<noteq> []
      then add_expanded (tl_expanded l) (snd (filterApiTree (c_tree c) (tl_keyword l)))
      else tl_expanded l)"

fun collect_folders :: "api_node list \<Rightarrow> string list" where
  "collect_folders [] = []"
| "collect_folders (Item a # ns) = collect_folders ns"
| "collect_folders (Folder f ch # ns) = fo_id f # collect_folders ch @ collect_folders ns"

definition toggleExpandAll :: "list_state \<Rightarrow> list_state" where
  "toggleExpandAll s =
     (case s of (l, c) \<Rightarrow>
        (l\<lparr>tl_expanded := (if tl_expanded l \<noteq> [] then [] else collect_folders (c_tree c))\<rparr>, c))"

subsection \<open>The nodes of the tree and what they do\<close>

fun convert_node :: "api_node \<Rightarrow> tree_node" where
  "convert_node (Item a) = TNode (sa_id a) (Some True) False None"
| "convert_node (Folder f ch) = TNode (fo_id f) (Some False) False (Some (map convert_node ch))"

definition convertNodes :: "api_node list \<Rightarrow> tree_node list" where
  "convertNodes nodes = map convert_node nodes"

definition list_props :: "tree_list \<Rightarrow> api_client \<Rightarrow> tree_props" where
  \<comment> \<open>the properties that the component \<open>Tree\<close> gets\<close>
  "list_props l c =
     \<lparr>tp_data = convertNodes (fst (filterApiTree (c_tree c) (tl_keyword l))),
      tp_expandedKeys = Some (effectiveExpandedKeys l c),
      tp_selectedKeys = Some (if truthy (c_currentId c) then [the (c_currentId c)] else []),
      tp_loadData = False, tp_draggable = True, tp_nodeDraggable = (\<lambda>_. True)\<rparr>"

definition handleSelect :: "api_node \<Rightarrow> list_state \<Rightarrow> list_state" where
  \<comment> \<open>the argument is \<open>info.node.rawNode\<close>\<close>
  "handleSelect raw s =
     (case raw of
        Folder f ch \<Rightarrow>
          (case s of (l, c) \<Rightarrow>
             (l\<lparr>tl_expanded := (if fo_id f \<in> set (tl_expanded l) then filter (\<lambda>k. k \<noteq> fo_id f) (tl_expanded l)
                else tl_expanded l @ [fo_id f])\<rparr>, c))
      | Item a \<Rightarrow> safeLoadApi a s)"

definition handleDrop :: "int \<Rightarrow> tree_node \<Rightarrow> tree_node \<Rightarrow> int \<Rightarrow> bool \<Rightarrow> list_state \<Rightarrow> list_state" where
  "handleDrop now node dragNode pos gap s =
     (let dropKey = tn_key node; dragKey = tn_key dragNode in
      if dropKey = dragKey then s
      else case s of (l, c) \<Rightarrow>
        (if gap then l else l\<lparr>tl_expanded := add_expanded (tl_expanded l) [dropKey]\<rparr>,
         moveNode now dragKey dropKey pos gap c))"

definition confirm_move :: "int \<Rightarrow> list_state \<Rightarrow> list_state" where
  \<comment> \<open>\<open>handleConfirmMove\<close> with its dialog\<close>
  "confirm_move now s =
     (case s of (l, c) \<Rightarrow>
        case tl_move l of
          None \<Rightarrow> s
        | Some (i, folder) \<Rightarrow>
            if i = [] then s
            else let target = (if tl_targetFolder l = ''__root__'' then [] else tl_targetFolder l) in
              (l\<lparr>tl_expanded := (if target \<noteq> [] then add_expanded (tl_expanded l) [target] else tl_expanded l),
                 tl_move := None\<rparr>,
               c\<lparr>c_tree := ApiTree.handleConfirmMove now i (tl_targetFolder l) (c_tree c)\<rparr>))"

definition open_move :: "string \<Rightarrow> bool \<Rightarrow> list_state \<Rightarrow> list_state" where
  "open_move i folder s = (case s of (l, c) \<Rightarrow> (l\<lparr>tl_targetFolder := ''__root__'', tl_move := Some (i, folder)\<rparr>, c))"

definition open_name :: "name_modal \<Rightarrow> string \<Rightarrow> list_state \<Rightarrow> list_state" where
  \<comment> \<open>the dialog for a new folder or a new name, with the text it starts with\<close>
  "open_name m txt s = (case s of (l, c) \<Rightarrow> (l\<lparr>tl_nameInput := txt, tl_nameModal := Some m\<rparr>, c))"

definition handleSaveNameModal :: "translator \<Rightarrow> string \<Rightarrow> int \<Rightarrow> list_state \<Rightarrow> list_state" where
  \<comment> \<open>\<open>i\<close> is the id of a new folder\<close>
  "handleSaveNameModal t i now s =
     (case s of (l, c) \<Rightarrow>
        let v = trim (tl_nameInput l) in
        if v = [] then s
        else
          (l\<lparr>tl_nameModal := None\<rparr>,
           case tl_nameModal l of
             Some (NewFolder parent) \<Rightarrow> createFolder t i now v parent c
           | Some (RenameNode n) \<Rightarrow> if n = [] then c else renameTreeNode now n v c
           | None \<Rightarrow> createFolder t i now v None c))"

definition tree_call_effect :: "int \<Rightarrow> tree_call \<Rightarrow> list_state \<Rightarrow> list_state" where
  \<comment> \<open>what a call of the component does; the raw node of a row is the node of the tree with its key\<close>
  "tree_call_effect now call s =
     (case call of
        OnExpand keys n e \<Rightarrow> (case s of (l, c) \<Rightarrow> (l\<lparr>tl_expanded := keys\<rparr>, c))
      | OnSelect keys n \<Rightarrow> (case find_in (tn_key n) (c_tree (snd s)) of None \<Rightarrow> s | Some raw \<Rightarrow> handleSelect raw s)
      | OnDrop n d pos gap \<Rightarrow> handleDrop now n d pos gap s
      | _ \<Rightarrow> s)"

subsection \<open>The rows and the tree\<close>

lemma convert_key [simp]: "tn_key (convert_node n) = node_id n"
  by (cases n) simp_all

lemma convert_simps [simp]:
  "convertNodes [] = []" "convertNodes (Item a # ns) = TNode (sa_id a) (Some True) False None # convertNodes ns"
  "convertNodes (Folder f ch # ns) = TNode (fo_id f) (Some False) False (Some (convertNodes ch)) # convertNodes ns"
  by (simp_all add: convertNodes_def)

lemma check_converted: "checkInChildren (convertNodes ns) k \<longleftrightarrow> k \<in> set (tree_ids ns)"
  by (induction ns rule: tree_induct) auto

lemma find_converted: "findNode k (convertNodes ns) = map_option convert_node (find_in k ns)"
  by (induction k ns rule: find_in.induct) (auto simp: convertNodes_def split: option.split)

lemma descendant_converted:
  "isDescendant d k (convertNodes ns) \<longleftrightarrow>
     (case find_in d ns of Some (Folder f ch) \<Rightarrow> k \<in> set (tree_ids ch) | _ \<Rightarrow> False)"
  by (auto simp: isDescendant_def find_converted check_converted convertNodes_def [symmetric]
      split: option.split api_node.split)

lemma below_converted:
  "n \<in> set (nodes_below (convertNodes ns)) \<Longrightarrow> tn_key n \<in> set (tree_ids ns) \<and>
     (tn_isLeaf n = Some True \<or> tn_isLeaf n = Some False \<and> tn_key n \<in> folder_ids ns)"
  by (induction ns rule: tree_induct) auto

abbreviation ids_of :: "api_node \<Rightarrow> string set" where
  "ids_of n \<equiv> entry_id ` set (entries_of n)"

lemma ids_of_Folder: "ids_of (Folder f ch) = insert (fo_id f) (set (tree_ids ch))"
  by simp

lemma node_ids_subset: "find_in d ns = Some n \<Longrightarrow> ids_of n \<subseteq> set (tree_ids ns)"
  using image_mono [OF find_in_entries, of d ns n entry_id] by simp

lemma found_present: "find_in d ns = Some n \<Longrightarrow> d \<in> set (tree_ids ns)"
  using find_in_None [of d ns] by simp

lemma filtered_subseq: "subseq (entries (fst (filterApiTree ns kw))) (entries ns)"
  using filter_in_spec by (simp add: filterApiTree_def Let_def)

lemma subseq_entries: "subseq (entries ms) (entries ns) \<Longrightarrow> set (entries ms) \<subseteq> set (entries ns)"
  by (auto elim: list_emb_set)

lemma filtered_ids: "set (tree_ids (fst (filterApiTree ns kw))) \<subseteq> set (tree_ids ns)"
  using image_mono [OF subseq_entries [OF filtered_subseq], of entry_id ns kw] by (simp only: entry_ids(2))

lemma filtered_folders: "folder_ids (fst (filterApiTree ns kw)) \<subseteq> folder_ids ns"
  using subseq_entries [OF filtered_subseq, of ns kw] unfolding folder_ids_def by blast

lemma filter_in_ids: "set (tree_ids (fst (filter_in kw ns))) \<subseteq> set (tree_ids ns)"
  using image_mono [OF subseq_entries [OF conjunct1 [OF filter_in_spec]], of entry_id kw ns]
  by (simp only: entry_ids(2))

lemma filter_in_Folder:
  "fst (filter_in kw (Folder f ch # ns)) =
     (let ch' = fst (filter_in kw ch); ns' = fst (filter_in kw ns) in
      if text_matches kw (fo_name f) \<or> ch' \<noteq> [] then Folder f (if ch' \<noteq> [] then ch' else ch) # ns' else ns')"
  by (simp add: Let_def split_beta)

lemma filter_in_Item:
  "fst (filter_in kw (Item a # ns)) =
     (if item_matches kw a then Item a # fst (filter_in kw ns) else fst (filter_in kw ns))"
  by (simp add: split_beta)

lemma filter_in_top: "node_id ` set (fst (filter_in kw ns)) \<subseteq> node_id ` set ns"
proof (induction ns)
  case (Cons n ns)
  then show ?case
    by (cases n) (auto simp: filter_in_Item filter_in_Folder Let_def simp del: filter_in.simps)
qed simp

lemma filtered_top: "node_id ` set (fst (filterApiTree ns kw)) \<subseteq> node_id ` set ns"
  using filter_in_top by (simp add: filterApiTree_def Let_def)

lemma folder_distinct:
  assumes "distinct (tree_ids (Folder f ch # ns))"
  shows "distinct (tree_ids ch)" "distinct (tree_ids ns)" "fo_id f \<notin> set (tree_ids ch)"
    "fo_id f \<notin> set (tree_ids ns)" "set (tree_ids ch) \<inter> set (tree_ids ns) = {}"
  using assms by auto

lemma find_in_Folder_cases:
  assumes "find_in d (Folder f ch # ns) = Some n" "distinct (tree_ids (Folder f ch # ns))"
  obtains "d = fo_id f" "n = Folder f ch" | "d \<noteq> fo_id f" "find_in d ch = Some n" |
    "d \<noteq> fo_id f" "d \<notin> set (tree_ids ch)" "find_in d ns = Some n"
  using assms(1) by (auto simp: find_in_None split: if_splits option.splits)

lemma inside_top:
  assumes "distinct (tree_ids ns)" "k \<in> node_id ` set ns" "find_in d ns = Some n" "k \<in> ids_of n"
  shows "k = d"
  using assms
proof (induction ns)
  case (Cons m ns)
  show ?case
  proof (cases m)
    case (Item a)
    with Cons node_ids_subset [of d ns n] show ?thesis by (auto split: if_splits)
  next
    case (Folder f ch)
    note d = folder_distinct [OF Cons.prems(1) [unfolded Folder]]
    have k: "k = fo_id f \<or> k \<in> node_id ` set ns" using Cons.prems(2) Folder by auto
    from Cons.prems(3) [unfolded Folder] Cons.prems(1) [unfolded Folder] show ?thesis
    proof (cases rule: find_in_Folder_cases)
      case 1
      have "k = fo_id f \<or> k \<in> set (tree_ids ch)" using Cons.prems(4) unfolding 1(2) ids_of_Folder by simp
      with k 1(1) subsetD [OF top_ids, of k ns] d(3-5) show ?thesis by (metis disjoint_iff)
    next
      case 2
      have "k \<in> set (tree_ids ch)" using Cons.prems(4) node_ids_subset [OF 2(2)] by (rule rev_subsetD)
      with k subsetD [OF top_ids, of k ns] d(3-5) show ?thesis by (metis disjoint_iff)
    next
      case 3
      have "k \<in> set (tree_ids ns)" using Cons.prems(4) node_ids_subset [OF 3(3)] by (rule rev_subsetD)
      with k d(4) Cons.IH [OF d(2) _ 3(3) Cons.prems(4)] show ?thesis by metis
    qed
  qed
qed simp

lemma inside_left: "N \<inter> A \<subseteq> M \<Longrightarrow> N \<subseteq> C \<Longrightarrow> x \<notin> C \<Longrightarrow> C \<inter> D = {} \<Longrightarrow> B \<subseteq> D \<Longrightarrow> N \<inter> insert x (A \<union> B) \<subseteq> M"
  by blast

lemma inside_right: "N \<inter> B \<subseteq> M \<Longrightarrow> N \<subseteq> D \<Longrightarrow> x \<notin> D \<Longrightarrow> C \<inter> D = {} \<Longrightarrow> A \<subseteq> C \<Longrightarrow> N \<inter> insert x (A \<union> B) \<subseteq> M"
  by blast

lemma inside_whole: "x \<notin> D \<Longrightarrow> C \<inter> D = {} \<Longrightarrow> B \<subseteq> D \<Longrightarrow> insert x C \<inter> insert x (A \<union> B) \<subseteq> insert x A"
  by blast

lemma filter_keeps_inside:
  assumes "distinct (tree_ids ns)" "find_in d (fst (filter_in kw ns)) = Some n'" "find_in d ns = Some n"
  shows "ids_of n \<inter> set (tree_ids (fst (filter_in kw ns))) \<subseteq> ids_of n'"
  using assms
proof (induction ns arbitrary: n n' rule: tree_induct)
  case (2 a ns)
  note found = found_present [of d "fst (filter_in kw ns)"] filter_in_ids [of kw ns]
  show ?case
  proof (cases "sa_id a = d")
    case True
    with 2 found show ?thesis by (auto simp: filter_in_Item simp del: filter_in.simps split: if_splits)
  next
    case False
    with 2 have "ids_of n \<inter> set (tree_ids (fst (filter_in kw ns))) \<subseteq> ids_of n'" "find_in d ns = Some n"
      by (auto simp: filter_in_Item simp del: filter_in.simps split: if_splits)
    with 2(2) node_ids_subset [of d ns n] show ?thesis
      by (auto simp: filter_in_Item simp del: filter_in.simps)
  qed
next
  case (3 f ch ns)
  note dis = folder_distinct [OF 3(3)]
  let ?ch = "fst (filter_in kw ch)" and ?ns = "fst (filter_in kw ns)"
  define c2 where "c2 = (if ?ch \<noteq> [] then ?ch else ch)"
  have c2: "ids_of m \<inter> set (tree_ids c2) \<subseteq> ids_of m'" if "find_in d c2 = Some m'" "find_in d ch = Some m" for m m'
    using 3(1) [OF dis(1), of m' m] that by (auto simp: c2_def split: if_splits)
  have sub: "set (tree_ids c2) \<subseteq> set (tree_ids ch)" "set (tree_ids ?ns) \<subseteq> set (tree_ids ns)"
    using filter_in_ids by (auto simp: c2_def)
  have ns: "ids_of n \<inter> set (tree_ids ?ns) \<subseteq> ids_of n'" if "find_in d ?ns = Some n'" "find_in d ns = Some n"
    by (rule 3(2) [OF dis(2) that])
  show ?case
  proof (cases "text_matches kw (fo_name f) \<or> ?ch \<noteq> []")
    case True
    then have F: "fst (filter_in kw (Folder f ch # ns)) = Folder f c2 # ?ns"
      by (simp only: filter_in_Folder Let_def c2_def if_True)
    have ids: "set (tree_ids (Folder f c2 # ?ns)) = insert (fo_id f) (set (tree_ids c2) \<union> set (tree_ids ?ns))" by auto
    have F2: "find_in d (Folder f c2 # ?ns) = Some n'" using 3(4) unfolding F .
    from 3(5,3) show ?thesis unfolding F ids
    proof (cases rule: find_in_Folder_cases)
      case 1
      then have n': "n' = Folder f c2" using F2 by simp
      show "ids_of n \<inter> insert (fo_id f) (set (tree_ids c2) \<union> set (tree_ids ?ns)) \<subseteq> ids_of n'"
        unfolding 1(2) n' ids_of_Folder by (rule inside_whole [OF dis(4,5) sub(2)])
    next
      case 2
      have "d \<in> set (tree_ids ch)" using 2(2) by (rule found_present)
      then have "d \<notin> set (tree_ids ?ns)" using dis(5) sub(2) by (metis disjoint_iff subsetD)
      then have "find_in d ?ns = None" unfolding find_in_None .
      then have "find_in d c2 = Some n'" using F2 2(1) by (auto split: option.splits)
      then show "ids_of n \<inter> insert (fo_id f) (set (tree_ids c2) \<union> set (tree_ids ?ns)) \<subseteq> ids_of n'"
        by (rule inside_left [OF c2 [OF _ 2(2)] node_ids_subset [OF 2(2)] dis(3,5) sub(2)])
    next
      case 3
      have "find_in d c2 = None" using 3(2) sub(1) unfolding find_in_None by (rule contra_subsetD [rotated])
      then have "find_in d ?ns = Some n'" using F2 3(1) by simp
      then show "ids_of n \<inter> insert (fo_id f) (set (tree_ids c2) \<union> set (tree_ids ?ns)) \<subseteq> ids_of n'"
        by (rule inside_right [OF ns [OF _ 3(3)] node_ids_subset [OF 3(3)] dis(4,5) sub(1)])
    qed
  next
    case False
    then have F: "fst (filter_in kw (Folder f ch # ns)) = ?ns" by (simp only: filter_in_Folder Let_def if_False)
    have d: "find_in d ?ns = Some n'" using 3(4) unfolding F .
    then have "d \<in> set (tree_ids ns)" by (rule subsetD [OF sub(2) found_present])
    then have "d \<noteq> fo_id f" "find_in d ch = None" using dis(4,5) unfolding find_in_None by (metis, metis disjoint_iff)
    with 3(5) have "find_in d ns = Some n" by simp
    from ns [OF d this] show ?thesis unfolding F .
  qed
qed simp

lemma filtered_inside:
  assumes "distinct (tree_ids ns)" "find_in d (fst (filterApiTree ns kw)) = Some n'" "find_in d ns = Some n"
    and "k \<in> set (tree_ids (fst (filterApiTree ns kw)))" "k \<in> ids_of n"
  shows "k \<in> ids_of n'"
  using assms filter_keeps_inside [of ns d "to_lower (trim kw)" n' n]
  by (auto simp: filterApiTree_def Let_def split: if_splits)

subsection \<open>Every event of the tree keeps what it holds\<close>

lemma load_keeps_tree [simp]: "c_tree (loadSavedApi a c) = c_tree c"
  by (simp add: loadSavedApi_def show_cached_def Let_def split: option.split)

lemma select_keeps_tree [simp]: "c_tree (snd (handleSelect raw s)) = c_tree (snd s)"
  by (cases s) (simp add: handleSelect_def safeLoadApi_def split: api_node.split)

lemma shown_drop_keeps:
  fixes T :: "api_node list" and kw :: string
  defines "F \<equiv> fst (filterApiTree T kw)"
  assumes "distinct (tree_ids T)" and "k \<in> set (tree_ids F)" and "d \<noteq> k"
    and "\<not> isDescendant d k (convertNodes F)" and "d \<in> set (tree_ids F)"
    and "gap \<or> k \<in> folder_ids F"
  shows "mset (entries (moveTreeNode now d k pos gap T)) = mset (entries T)"
proof (rule move_keeps_everything [OF assms(2)])
  show "drop_ok k gap T"
    using assms(3,7) filtered_ids [of T kw] filtered_folders [of T kw] by (auto simp: drop_ok_def F_def)
  fix n assume "findTreeNode T d = Some n"
  then have n: "find_in d T = Some n" by (auto simp: findTreeNode_def split: if_splits)
  have "find_in d F \<noteq> None" using assms(6) by (simp add: find_in_None)
  then obtain n' where n': "find_in d F = Some n'" by blast
  have "k \<notin> ids_of n'"
  proof (cases n')
    case (Item a)
    then show ?thesis using find_in_id [OF n'] assms(4) by simp
  next
    case (Folder f ch)
    then show ?thesis
      using find_in_id [OF n'] assms(4,5) n' unfolding descendant_converted Folder ids_of_Folder by simp
  qed
  then show "k \<notin> ids_of n"
    using filtered_inside [OF assms(2) n' [unfolded F_def] n] assms(3) unfolding F_def by blast
qed

lemma last_drop_outside:
  fixes T :: "api_node list" and kw :: string
  defines "F \<equiv> fst (filterApiTree T kw)"
  assumes "distinct (tree_ids T)" "F \<noteq> []" "node_id (last F) \<noteq> d"
  shows "mset (entries (moveTreeNode now d (node_id (last F)) pos True T)) = mset (entries T)"
proof (rule move_keeps_everything [OF assms(2)])
  have top: "node_id (last F) \<in> node_id ` set T"
    using filtered_top [of T kw] assms(3) unfolding F_def by (meson image_eqI last_in_set subsetD)
  then show "drop_ok (node_id (last F)) True T" using top_ids [of T] by (auto simp: drop_ok_def)
  fix n assume "findTreeNode T d = Some n"
  then have "find_in d T = Some n" by (auto simp: findTreeNode_def split: if_splits)
  then show "node_id (last F) \<notin> ids_of n" using inside_top [OF assms(2) top] assms(4) by blast
qed

lemma last_converted: "ns \<noteq> [] \<Longrightarrow> tn_key (last (convertNodes ns)) = node_id (last ns)"
  by (simp add: convertNodes_def last_map)

lemma toggle_calls: "OnDrop n d pos gap \<notin> set (snd (handleToggleExpand p m s))"
  by (simp add: handleToggleExpand_def Let_def)

lemma drop_calls:
  assumes "OnDrop n d pos gap \<in> set (snd (tree_step p v e))"
  shows "(e = DropOn n \<and> tv_drag v = Some d \<and> tn_key d \<noteq> tn_key n \<and>
      \<not> isDescendant (tn_key d) (tn_key n) (tp_data p) \<and> gap = tv_dropToGap v) \<or>
    (tp_data p \<noteq> [] \<and> n = last (tp_data p) \<and> tn_key n \<noteq> tn_key d \<and> gap)"
  using assms
  by (cases e) (auto simp: toggle_calls handleRowClick_def handleRowDoubleClick_def handleNodeDragStart_def
      hover_timer_def handleNodeDrop_def handleNodeDragEnd_def root_drop_def split: option.splits if_splits)

text \<open>
  C8: whatever a user does with the rows of the tree of saved requests, searched or not: selecting, expanding and dragging, in any
  order. What the tree component calls, the drop included, changes neither the content of a request nor the number of the entries; a
  drop into the dragged folder or at a place that is not there does not happen. The dialogs of the list are not among these calls: the
  one for deleting removes what it says, and the one for moving can lose a folder (\<open>move_dialog_deletes\<close>).
\<close>

theorem tree_events_keep_everything:
  assumes "distinct (tree_ids (c_tree c))" and "p = list_props l c"
    and "run_steps (tree_enabled p) (\<lambda>v e. fst (tree_step p v e)) (init_tree xs ys) es = Some v"
    and "tree_enabled p v e" and "call \<in> set (snd (tree_step p v e))"
  shows "mset (entries (c_tree (snd (tree_call_effect now call (l, c))))) = mset (entries (c_tree c))"
proof (cases call)
  case (OnDrop n d pos gap)
  let ?F = "fst (filterApiTree (c_tree c) (tl_keyword l))"
  have data: "tp_data p = convertNodes ?F" by (simp add: assms(2) list_props_def)
  have inv: "tree_inv p v"
    by (rule tree_view.run_inv [OF _ assms(3)]) (simp add: tree_inv_def init_tree_def)
  have eff: "tree_call_effect now call (l, c) = handleDrop now n d pos gap (l, c)"
    by (simp add: tree_call_effect_def OnDrop)
  from drop_calls [OF assms(5) [unfolded OnDrop]] show ?thesis
  proof
    assume a: "e = DropOn n \<and> tv_drag v = Some d \<and> tn_key d \<noteq> tn_key n \<and>
      \<not> isDescendant (tn_key d) (tn_key n) (tp_data p) \<and> gap = tv_dropToGap v"
    then have n: "n \<in> set (nodes_below (convertNodes ?F))" "tv_dropTarget v = Some (tn_key n)"
      using assms(4) by (auto simp: data)
    have "d \<in> set (nodes_below (convertNodes ?F))" using inv a by (simp add: tree_inv_def data)
    then have "tn_key d \<in> set (tree_ids ?F)" "tn_key n \<in> set (tree_ids ?F)" using below_converted n(1) by blast+
    moreover have "gap \<or> tn_key n \<in> folder_ids ?F"
    proof (cases gap)
      case False
      then obtain m where "m \<in> set (nodes_below (convertNodes ?F))" "tn_key m = tn_key n" "drop_folder p m"
        using inv a n(2) by (auto simp: tree_inv_def data)
      then show ?thesis using below_converted [of m ?F] by (auto simp: drop_folder_def)
    qed simp
    ultimately have "mset (entries (moveTreeNode now (tn_key d) (tn_key n) pos gap (c_tree c))) = mset (entries (c_tree c))"
      by (intro shown_drop_keeps [OF assms(1)]) (use a data in simp_all)
    moreover have "tn_key n \<noteq> tn_key d" using a by metis
    ultimately show ?thesis by (simp add: eff handleDrop_def moveNode_def Let_def)
  next
    assume a: "tp_data p \<noteq> [] \<and> n = last (tp_data p) \<and> tn_key n \<noteq> tn_key d \<and> gap"
    then have F: "?F \<noteq> []" by (auto simp: data)
    then have n: "tn_key n = node_id (last ?F)" using a by (simp add: data last_converted)
    have "mset (entries (moveTreeNode now (tn_key d) (node_id (last ?F)) pos True (c_tree c))) = mset (entries (c_tree c))"
      by (rule last_drop_outside [OF assms(1) F]) (use a n in metis)
    with a n show ?thesis by (auto simp: eff handleDrop_def moveNode_def Let_def)
  qed
qed (simp_all add: tree_call_effect_def split: option.split)


definition demo_list :: list_state where
  \<comment> \<open>two folders, one with a request\<close>
  "demo_list = (init_tree_list, initialClient\<lparr>c_tree := [demo_folder ''f'' [Item (demo_item ''a'')], demo_folder ''g'' []]\<rparr>)"

theorem tree_events_keep_everything_witness:
  "mset (entries (c_tree (snd (tree_call_effect 7
      (OnDrop (convert_node (demo_folder ''g'' [])) (convert_node (Item (demo_item ''a''))) 0 False) demo_list)))) =
    mset (entries (c_tree (snd demo_list)))"
proof -
  let ?p = "list_props (fst demo_list) (snd demo_list)"
  let ?a = "TNode ''a'' (Some True) False None" and ?g = "TNode ''g'' (Some False) False (Some [])"
  let ?es = "[DragStart ?a, DragOver ?g (1 / 2)]"
  let ?v = "(init_tree [] [])\<lparr>tv_drag := Some ?a, tv_dropTarget := Some ''g'', tv_hoverKey := Some ''g'',
    tv_hoverTimer := Some ?g\<rparr>"
  have n: "convert_node (Item (demo_item ''a'')) = ?a" "convert_node (demo_folder ''g'' []) = ?g"
    by (simp_all add: demo_item_def demo_folder_def)
  have d: "tp_data ?p = [TNode ''f'' (Some False) False (Some [?a]), ?g]" "tp_draggable ?p"
    "tp_nodeDraggable ?p = (\<lambda>_. True)" "tp_expandedKeys ?p = Some [''folder_default'']"
    by (simp_all add: demo_list_def list_props_def init_tree_list_def demo_folder_def demo_item_def filterApiTree_def
        Let_def to_lower_def effectiveExpandedKeys_def)
  have far: "\<not> isDescendant ''a'' ''g'' (tp_data ?p)" by (simp add: d isDescendant_def)
  have run: "run_steps (tree_enabled ?p) (\<lambda>v e. fst (tree_step ?p v e)) (init_tree [] []) ?es = Some ?v"
    using far by (simp add: d init_tree_def handleNodeDragStart_def is_draggable_def handleNodeDragOver_def
        drop_folder_def drop_place_def hover_def expandedKeys_def nullish_def)
  have "OnDrop ?g ?a 0 False \<in> set (snd (tree_step ?p ?v (DropOn ?g)))"
    using far by (simp add: handleNodeDrop_def init_tree_def)
  moreover have "tree_enabled ?p ?v (DropOn ?g)" by (simp add: d)
  moreover have "distinct (tree_ids (c_tree (snd demo_list)))"
    by (simp add: demo_list_def demo_folder_def demo_item_def)
  ultimately show ?thesis
    using tree_events_keep_everything [OF _ refl run, of "DropOn ?g" "OnDrop ?g ?a 0 False" 7]
    by (simp only: prod.collapse n)
qed

subsection \<open>Unsaved changes\<close>

text \<open>
  While the open request differs from what is saved, nothing that is clicked in the list or its menus
  changes the editor before the dialog is confirmed.
\<close>

theorem unsaved_kept_until_confirmed:
  assumes "isModified c"
  shows "snd (handleSelect raw (l, c)) = c \<and> snd (safeNewBlankApi (l, c)) = c \<and>
    (sa_id a \<noteq> opt_or (c_currentId c) [] \<longrightarrow> tl_confirm (fst (safeLoadApi a (l, c))) = Some (ConfirmLoad a)) \<and>
    tl_confirm (fst (safeNewBlankApi (l, c))) = Some ConfirmBlank"
proof -
  obtain i where i: "c_currentId c = Some i" "i \<noteq> []"
    using assms by (cases "c_currentId c") (auto simp: isModified_def currentSavedItem_def opt_or_opt_def split: if_splits)
  then have o: "opt_or (c_currentId c) [] = i" by (simp add: opt_or_def str_or_def)
  have load: "snd (safeLoadApi b (l, c)) = c" for b using assms by (simp add: safeLoadApi_def)
  have "snd (handleSelect raw (l, c)) = c" by (cases raw) (simp_all add: handleSelect_def load)
  moreover have "snd (safeNewBlankApi (l, c)) = c" "tl_confirm (fst (safeNewBlankApi (l, c))) = Some ConfirmBlank"
    using assms by (simp_all add: safeNewBlankApi_def)
  moreover have "sa_id a \<noteq> i \<longrightarrow> tl_confirm (fst (safeLoadApi a (l, c))) = Some (ConfirmLoad a)"
    using assms i by (simp add: safeLoadApi_def)
  ultimately show ?thesis unfolding o by blast
qed

text \<open>
  A request that was never saved does not count as modified: opening another one from the list discards it
  without a question.
\<close>

theorem draft_discarded_silently:
  assumes "c_currentId c = None"
  shows "safeLoadApi a (l, c) = (l, loadSavedApi a c) \<and> c_url (loadSavedApi a c) = sa_url a"
  using assms by (simp add: safeLoadApi_def isModified_def currentSavedItem_def opt_or_opt_def loadSavedApi_def
      show_cached_def Let_def split: option.split)

theorem draft_discarded_silently_witness:
  "safeLoadApi (demo_item ''a'') (fst demo_list, (snd demo_list)\<lparr>c_url := ''http://new''\<rparr>) =
     (fst demo_list, loadSavedApi (demo_item ''a'') ((snd demo_list)\<lparr>c_url := ''http://new''\<rparr>)) \<and>
   c_url (loadSavedApi (demo_item ''a'') ((snd demo_list)\<lparr>c_url := ''http://new''\<rparr>)) = sa_url (demo_item ''a'')"
  by (rule draft_discarded_silently) (simp add: demo_list_def initialClient_def)

theorem unsaved_kept_until_confirmed_witness:
  "snd (handleSelect (Item (demo_item ''b'')) (fst demo_list, (snd demo_list)\<lparr>c_currentId := Some ''a''\<rparr>)) =
     (snd demo_list)\<lparr>c_currentId := Some ''a''\<rparr> \<and>
   tl_confirm (fst (safeLoadApi (demo_item ''b'') (fst demo_list, (snd demo_list)\<lparr>c_currentId := Some ''a''\<rparr>))) =
     Some (ConfirmLoad (demo_item ''b''))"
proof -
  have "isModified ((snd demo_list)\<lparr>c_currentId := Some ''a''\<rparr>)"
    by (simp add: demo_list_def isModified_def currentSavedItem_def opt_or_opt_def findTreeNode_def demo_folder_def demo_item_def)
  from unsaved_kept_until_confirmed [OF this, of "Item (demo_item ''b'')" "fst demo_list" "demo_item ''b''"]
  show ?thesis by (simp add: opt_or_def str_or_def demo_item_def)
qed

end
