(* ===== verification/JsError.thy ===== *)
theory JsError
  imports Prelude
begin

section \<open>Errors\<close>

text \<open>
  \<open>utils/error.ts\<close>: the text that is shown for whatever was thrown. A cancelled dialog shows nothing.
\<close>

datatype js_error =
    NoError \<comment> \<open>a falsy value, an empty text apart\<close>
  | ErrText string
  | ErrObject string \<comment> \<open>an \<open>Error\<close> with its message\<close>
  | ErrOther string \<comment> \<open>any other value, and what \<open>String\<close> makes of it\<close>

fun error_text :: "js_error \<Rightarrow> string" where
  "error_text NoError = []"
| "error_text (ErrText s) = s"
| "error_text (ErrObject s) = s"
| "error_text (ErrOther s) = s"

definition no_error :: "js_error \<Rightarrow> bool" where
  \<comment> \<open>\<open>!err\<close>\<close>
  "no_error e \<longleftrightarrow> e = NoError \<or> e = ErrText []"

definition isUserCancelled :: "js_error \<Rightarrow> bool" where
  "isUserCancelled e \<longleftrightarrow> \<not> no_error e \<and>
     (let msg = to_lower (error_text e) in includes_str msg ''cancelled'' \<or> includes_str msg ''canceled'')"

definition errorMessage :: "translator \<Rightarrow> js_error \<Rightarrow> string" where
  "errorMessage t e =
     (if no_error e then t ''common:unknownError'' []
      else if isUserCancelled e then []
      else error_text e)"

end
