(* ===== verification/Mqtt.thy ===== *)
theory Mqtt
  imports JsError "HOL-Library.Word"
begin

section \<open>The MQTT client\<close>

text \<open>
  \<open>pages/mqtt/MqttClient.tsx\<close>: subscriptions, the stream of messages with its buffer and its bound, the
  filters, and publishing. Messages that arrive are collected for 50 ms and then shown at once; at most
  1000 are kept and the latest 150 of those that pass the filters are displayed. The page is mounted once for
  each session. \<open>Date.now()\<close>, the answers of the backend and \<open>JSON\<close> are arguments. The scrolling is left out.
\<close>

subsection \<open>State\<close>

datatype direction = Incoming | Outgoing

record mqtt_message =
  mm_id :: string
  mm_dir :: direction
  mm_topic :: string
  mm_payload :: string
  mm_qos :: int
  mm_retained :: bool
  mm_ts :: int

record mqtt_subscription =
  ms_topic :: string
  ms_qos :: int

record mqtt_page =
  mp_subs :: "mqtt_subscription list"
  mp_messages :: "mqtt_message list"
  mp_subTopic :: string
  mp_subQos :: int
  mp_showAddSub :: bool
  mp_pubTopic :: string
  mp_pubPayload :: string
  mp_pubQos :: int
  mp_pubRetained :: bool
  mp_dockExpanded :: bool
  mp_dirFilter :: "direction option" \<comment> \<open>\<open>None\<close> for \<open>'all'\<close>\<close>
  mp_filterTopic :: string
  mp_searchKeyword :: string
  mp_autoScroll :: bool
  mp_copiedId :: "string option"
  mp_connected :: bool
  mp_statusError :: "string option"
  mp_busy :: bool
  mp_error :: string
  mp_seq :: nat
  mp_buffer :: "mqtt_message list"
  mp_timer :: bool

definition init_mqtt :: "bool \<Rightarrow> int \<Rightarrow> mqtt_page" where
  \<comment> \<open>whether the session is connected, and the time\<close>
  "init_mqtt connected now =
     \<lparr>mp_subs = [], mp_messages = [], mp_subTopic = [], mp_subQos = 0, mp_showAddSub = False, mp_pubTopic = [],
      mp_pubPayload = ''{'' @ [CHR 0x0A] @ ''  '' @ [CHR 0x22] @ ''msg'' @ [CHR 0x22] @ '': '' @ [CHR 0x22] @
        ''hello mqtt'' @ [CHR 0x22] @ '','' @ [CHR 0x0A] @ ''  '' @ [CHR 0x22] @ ''time'' @ [CHR 0x22] @ '': '' @
        show_int now @ [CHR 0x0A] @ ''}'',
      mp_pubQos = 0, mp_pubRetained = False, mp_dockExpanded = True, mp_dirFilter = None, mp_filterTopic = [],
      mp_searchKeyword = [], mp_autoScroll = True, mp_copiedId = None, mp_connected = connected,
      mp_statusError = None, mp_busy = False, mp_error = [], mp_seq = 0, mp_buffer = [], mp_timer = False\<rparr>"

definition MAX_MESSAGES :: nat where "MAX_MESSAGES = 1000"
definition DISPLAY_LIMIT :: nat where "DISPLAY_LIMIT = 150"

definition latest :: "nat \<Rightarrow> 'a list \<Rightarrow> 'a list" where
  \<comment> \<open>\<open>xs.length > n ? xs.slice(xs.length - n) : xs\<close>\<close>
  "latest n xs = (if length xs > n then drop (length xs - n) xs else xs)"

subsection \<open>The colour of a topic\<close>

definition topic_hash :: "16 word list \<Rightarrow> 32 word" where
  \<comment> \<open>\<open>hash = (hash << 5) - hash + charCodeAt(i); hash |= 0\<close>, over the UTF-16 code units\<close>
  "topic_hash s = foldl (\<lambda>h u. push_bit 5 h - h + ucast u) 0 s"

definition palette_size :: nat where "palette_size = 9"

definition getTopicColor :: "16 word list \<Rightarrow> nat" where
  \<comment> \<open>the index into \<open>TOPIC_PALETTE\<close>\<close>
  "getTopicColor s = nat (\<bar>sint (topic_hash s)\<bar>) mod palette_size"

subsection \<open>Messages that arrive\<close>

record mqtt_data =
  md_topic :: string
  md_payload :: string
  md_qos :: int
  md_retained :: bool
  md_ts :: int \<comment> \<open>0 where it is missing\<close>

definition message_id :: "int \<Rightarrow> nat \<Rightarrow> string" where
  "message_id ts seq = show_int ts @ ''-'' @ show_nat seq"

definition message_received :: "int \<Rightarrow> mqtt_data \<Rightarrow> mqtt_page \<Rightarrow> mqtt_page" where
  "message_received now d s =
     (let ts = (if md_ts d = 0 then now else md_ts d); n = Suc (mp_seq s) in
      s\<lparr>mp_seq := n,
        mp_buffer := mp_buffer s @ [\<lparr>mm_id = message_id ts n, mm_dir = Incoming, mm_topic = md_topic d,
          mm_payload = md_payload d, mm_qos = md_qos d, mm_retained = md_retained d, mm_ts = ts\<rparr>],
        mp_timer := True\<rparr>)"

definition flushMessages :: "mqtt_page \<Rightarrow> mqtt_page" where
  "flushMessages s =
     (if mp_buffer s = [] then s
      else s\<lparr>mp_buffer := [], mp_messages := latest MAX_MESSAGES (mp_messages s @ mp_buffer s)\<rparr>)"

definition flush_timer :: "mqtt_page \<Rightarrow> mqtt_page" where
  "flush_timer s = (if mp_timer s then flushMessages (s\<lparr>mp_timer := False\<rparr>) else s)"

definition status_received :: "bool \<Rightarrow> string option \<Rightarrow> mqtt_page \<Rightarrow> mqtt_page" where
  "status_received connected err s = s\<lparr>mp_connected := connected, mp_statusError := err\<rparr>"

definition reloadSubs_done :: "mqtt_subscription list option \<Rightarrow> mqtt_page \<Rightarrow> mqtt_page" where
  \<comment> \<open>\<open>None\<close> where the call fails\<close>
  "reloadSubs_done r s = (case r of None \<Rightarrow> s | Some l \<Rightarrow> s\<lparr>mp_subs := l\<rparr>)"

subsection \<open>Subscribing and publishing\<close>

datatype mqtt_call =
    Subscribe string int
  | Unsubscribe string
  | Publish string string int bool

definition doSubscribe_begin :: "translator \<Rightarrow> mqtt_page \<Rightarrow> mqtt_page \<times> mqtt_call option" where
  "doSubscribe_begin t s =
     (let topic = trim (mp_subTopic s) in
      if topic = [] then (s\<lparr>mp_error := t ''mqtt.client.inputSubTopicReq'' []\<rparr>, None)
      else (s\<lparr>mp_busy := True, mp_error := []\<rparr>, Some (Subscribe topic (mp_subQos s))))"

definition doSubscribe_done :: "mqtt_subscription list option \<Rightarrow> mqtt_page \<Rightarrow> mqtt_page" where
  \<comment> \<open>after both awaits\<close>
  "doSubscribe_done r s = (reloadSubs_done r s)\<lparr>mp_subTopic := [], mp_showAddSub := False, mp_busy := False\<rparr>"

definition doUnsubscribe_begin :: "string \<Rightarrow> mqtt_page \<Rightarrow> mqtt_page \<times> mqtt_call option" where
  "doUnsubscribe_begin topic s = (s\<lparr>mp_busy := True, mp_error := []\<rparr>, Some (Unsubscribe topic))"

definition doUnsubscribe_done :: "mqtt_page \<Rightarrow> string \<Rightarrow> mqtt_subscription list option \<Rightarrow> mqtt_page \<Rightarrow> mqtt_page" where
  \<comment> \<open>\<open>c\<close> is the state of the render in which the handler was made\<close>
  "doUnsubscribe_done c topic r s =
     (reloadSubs_done r (if mp_filterTopic c = topic then s\<lparr>mp_filterTopic := []\<rparr> else s))\<lparr>mp_busy := False\<rparr>"

definition doPublish_begin :: "translator \<Rightarrow> mqtt_page \<Rightarrow> mqtt_page \<times> mqtt_call option" where
  "doPublish_begin t s =
     (let topic = trim (mp_pubTopic s) in
      if topic = [] then (s\<lparr>mp_error := t ''mqtt.client.inputPubTopicReq'' []\<rparr>, None)
      else (s\<lparr>mp_busy := True, mp_error := []\<rparr>,
            Some (Publish topic (mp_pubPayload s) (mp_pubQos s) (mp_pubRetained s))))"

definition doPublish_done :: "mqtt_page \<Rightarrow> int \<Rightarrow> mqtt_page \<Rightarrow> mqtt_page" where
  \<comment> \<open>\<open>c\<close> is the state of the render in which the handler was made\<close>
  "doPublish_done c now s =
     (let n = Suc (mp_seq s);
          m = \<lparr>mm_id = message_id now n, mm_dir = Outgoing, mm_topic = trim (mp_pubTopic c),
            mm_payload = mp_pubPayload c, mm_qos = mp_pubQos c, mm_retained = mp_pubRetained c, mm_ts = now\<rparr>
      in s\<lparr>mp_seq := n, mp_messages := latest MAX_MESSAGES (mp_messages s @ [m]), mp_busy := False\<rparr>)"

definition call_failed :: "translator \<Rightarrow> js_error \<Rightarrow> mqtt_page \<Rightarrow> mqtt_page" where
  "call_failed t e s = s\<lparr>mp_error := errorMessage t e, mp_busy := False\<rparr>"

definition beautifyJson :: "translator \<Rightarrow> (string \<Rightarrow> string option) \<Rightarrow> mqtt_page \<Rightarrow> mqtt_page" where
  \<comment> \<open>also \<open>minifyJson\<close>: \<open>format\<close> parses and prints the payload, \<open>None\<close> where it is no JSON\<close>
  "beautifyJson t format s =
     (case format (mp_pubPayload s) of
        None \<Rightarrow> s\<lparr>mp_error := t ''mqtt.client.invalidJson'' []\<rparr>
      | Some p \<Rightarrow> s\<lparr>mp_pubPayload := p\<rparr>)"

definition fillToPublish :: "string \<Rightarrow> string option \<Rightarrow> mqtt_page \<Rightarrow> mqtt_page" where
  "fillToPublish topic payload s =
     (let s1 = s\<lparr>mp_pubTopic := topic\<rparr>
      in (if truthy payload then s1\<lparr>mp_pubPayload := the payload\<rparr> else s1)\<lparr>mp_dockExpanded := True\<rparr>)"

definition copyPayload :: "string \<Rightarrow> mqtt_page \<Rightarrow> mqtt_page" where
  "copyPayload i s = s\<lparr>mp_copiedId := Some i\<rparr>"

definition copy_timer :: "mqtt_page \<Rightarrow> mqtt_page" where
  "copy_timer s = s\<lparr>mp_copiedId := None\<rparr>"

definition toggle_topic :: "string \<Rightarrow> mqtt_page \<Rightarrow> mqtt_page" where
  \<comment> \<open>a click on a subscription\<close>
  "toggle_topic topic s = s\<lparr>mp_filterTopic := (if mp_filterTopic s = topic then [] else topic)\<rparr>"

definition clear_stream :: "mqtt_page \<Rightarrow> mqtt_page" where
  "clear_stream s = s\<lparr>mp_messages := []\<rparr>"

subsection \<open>What is displayed\<close>

definition topic_count :: "string \<Rightarrow> mqtt_page \<Rightarrow> nat" where
  "topic_count topic s = length (filter (\<lambda>m. mm_topic m = topic) (mp_messages s))"

definition passes :: "mqtt_page \<Rightarrow> mqtt_message \<Rightarrow> bool" where
  "passes s m \<longleftrightarrow>
     (case mp_dirFilter s of None \<Rightarrow> True | Some d \<Rightarrow> mm_dir m = d) \<and>
     (mp_filterTopic s = [] \<or> mm_topic m = mp_filterTopic s) \<and>
     (trim (mp_searchKeyword s) = [] \<or>
      (let kw = to_lower (mp_searchKeyword s)
       in includes_str (to_lower (mm_topic m)) kw \<or> includes_str (to_lower (mm_payload m)) kw))"

definition filteredMessages :: "mqtt_page \<Rightarrow> mqtt_message list" where
  "filteredMessages s = filter (passes s) (mp_messages s)"

definition displayedMessages :: "mqtt_page \<Rightarrow> mqtt_message list" where
  "displayedMessages s = latest DISPLAY_LIMIT (filteredMessages s)"

subsection \<open>Runs\<close>

datatype mqtt_event =
    MsgIn int mqtt_data
  | FlushTimer
  | StatusIn bool "string option"
  | SubsIn "mqtt_subscription list option"
  | SubscribeClick
  | SubscribeDone "mqtt_subscription list option"
  | UnsubscribeClick string
  | UnsubscribeDone mqtt_page string "mqtt_subscription list option"
  | PublishClick
  | PublishDone mqtt_page int
  | CallFailed js_error
  | FormatJson "string \<Rightarrow> string option"
  | FillPublish string "string option"
  | CopyPayload string
  | CopyTimer
  | ToggleTopic string
  | ClearStream
  | EditPage "mqtt_page \<Rightarrow> mqtt_page" \<comment> \<open>the fields, the filters and the switches\<close>

fun mqtt_step :: "translator \<Rightarrow> mqtt_page \<Rightarrow> mqtt_event \<Rightarrow> mqtt_page" where
  "mqtt_step t s (MsgIn now d) = message_received now d s"
| "mqtt_step t s FlushTimer = flush_timer s"
| "mqtt_step t s (StatusIn b e) = status_received b e s"
| "mqtt_step t s (SubsIn r) = reloadSubs_done r s"
| "mqtt_step t s SubscribeClick = fst (doSubscribe_begin t s)"
| "mqtt_step t s (SubscribeDone r) = doSubscribe_done r s"
| "mqtt_step t s (UnsubscribeClick topic) = fst (doUnsubscribe_begin topic s)"
| "mqtt_step t s (UnsubscribeDone c topic r) = doUnsubscribe_done c topic r s"
| "mqtt_step t s PublishClick = fst (doPublish_begin t s)"
| "mqtt_step t s (PublishDone c now) = doPublish_done c now s"
| "mqtt_step t s (CallFailed e) = call_failed t e s"
| "mqtt_step t s (FormatJson f) = beautifyJson t f s"
| "mqtt_step t s (FillPublish topic p) = fillToPublish topic p s"
| "mqtt_step t s (CopyPayload i) = copyPayload i s"
| "mqtt_step t s CopyTimer = copy_timer s"
| "mqtt_step t s (ToggleTopic topic) = toggle_topic topic s"
| "mqtt_step t s ClearStream = clear_stream s"
| "mqtt_step t s (EditPage f) = f s"

definition stream_part :: "mqtt_page \<Rightarrow> mqtt_message list \<times> mqtt_message list \<times> nat \<times> bool" where
  "stream_part s = (mp_messages s, mp_buffer s, mp_seq s, mp_timer s)"

definition mqtt_enabled :: "mqtt_page \<Rightarrow> mqtt_event \<Rightarrow> bool" where
  \<comment> \<open>an edit of the page leaves the stream alone\<close>
  "mqtt_enabled s e \<longleftrightarrow> (case e of EditPage f \<Rightarrow> stream_part (f s) = stream_part s | _ \<Rightarrow> True)"

subsection \<open>The stream\<close>

text \<open>
  The specification does not look at the page: what was received and published since the stream was last cleared, as the events
  say it, and what of it waits for the next timer.
\<close>

record log_entry =
  en_dir :: direction
  en_topic :: string
  en_payload :: string
  en_qos :: int
  en_retained :: bool
  en_ts :: int

record stream_log =
  sl_shown :: "log_entry list"
  sl_pending :: "log_entry list"

definition content_of :: "mqtt_message \<Rightarrow> log_entry" where
  \<comment> \<open>a message but for its id\<close>
  "content_of m = \<lparr>en_dir = mm_dir m, en_topic = mm_topic m, en_payload = mm_payload m, en_qos = mm_qos m,
     en_retained = mm_retained m, en_ts = mm_ts m\<rparr>"

definition received_entry :: "int \<Rightarrow> mqtt_data \<Rightarrow> log_entry" where
  \<comment> \<open>a message without a time has that of its arrival\<close>
  "received_entry now d = \<lparr>en_dir = Incoming, en_topic = md_topic d, en_payload = md_payload d, en_qos = md_qos d,
     en_retained = md_retained d, en_ts = (if md_ts d = 0 then now else md_ts d)\<rparr>"

definition published_entry :: "mqtt_page \<Rightarrow> int \<Rightarrow> log_entry" where
  \<comment> \<open>what the form held when it was sent\<close>
  "published_entry c now = \<lparr>en_dir = Outgoing, en_topic = trim (mp_pubTopic c), en_payload = mp_pubPayload c,
     en_qos = mp_pubQos c, en_retained = mp_pubRetained c, en_ts = now\<rparr>"

definition log_step :: "mqtt_event \<Rightarrow> stream_log \<Rightarrow> stream_log" where
  "log_step e g =
     (case e of
        MsgIn now d \<Rightarrow> g\<lparr>sl_pending := sl_pending g @ [received_entry now d]\<rparr>
      | FlushTimer \<Rightarrow> \<lparr>sl_shown = sl_shown g @ sl_pending g, sl_pending = []\<rparr>
      | PublishDone c now \<Rightarrow> g\<lparr>sl_shown := sl_shown g @ [published_entry c now]\<rparr>
      | ClearStream \<Rightarrow> g\<lparr>sl_shown := []\<rparr>
      | _ \<Rightarrow> g)"

definition logged_step :: "translator \<Rightarrow> mqtt_page \<times> stream_log \<Rightarrow> mqtt_event \<Rightarrow> mqtt_page \<times> stream_log" where
  "logged_step t sg e = (mqtt_step t (fst sg) e, log_step e (snd sg))"

definition last_n :: "nat \<Rightarrow> 'a list \<Rightarrow> 'a list" where
  "last_n n xs = drop (length xs - n) xs"

lemma latest_last: "latest n xs = last_n n xs"
  by (simp add: latest_def last_n_def)

lemma last_n_last_n: "last_n n (last_n n xs @ ys) = last_n n (xs @ ys)"
  by (cases "n \<le> length xs") (simp_all add: last_n_def add.commute)

lemma map_last_n: "map f (last_n n xs) = last_n n (map f xs)"
  by (simp add: last_n_def drop_map)

definition numbered_ids :: "nat \<Rightarrow> mqtt_message list \<Rightarrow> bool" where
  \<comment> \<open>the ids end in different numbers up to \<open>n\<close>\<close>
  "numbered_ids n ms \<longleftrightarrow>
     (\<exists>ks. distinct ks \<and> set ks \<subseteq> {1..n} \<and> list_all2 (\<lambda>m k. mm_id m = message_id (mm_ts m) k) ms ks)"

definition stream_inv :: "mqtt_page \<times> stream_log \<Rightarrow> bool" where
  "stream_inv sg \<longleftrightarrow>
     (case sg of (s, g) \<Rightarrow>
        map content_of (mp_messages s) = last_n MAX_MESSAGES (sl_shown g) \<and> map content_of (mp_buffer s) = sl_pending g \<and>
        (mp_buffer s \<noteq> [] \<longrightarrow> mp_timer s) \<and> numbered_ids (mp_seq s) (mp_messages s @ mp_buffer s))"

lemma numbered_snoc:
  assumes "numbered_ids n ms" "mm_id m = message_id (mm_ts m) (Suc n)"
  shows "numbered_ids (Suc n) (ms @ [m])"
proof -
  obtain ks where "distinct ks" "set ks \<subseteq> {1..n}" "list_all2 (\<lambda>m k. mm_id m = message_id (mm_ts m) k) ms ks"
    using assms(1) unfolding numbered_ids_def by blast
  then show ?thesis
    unfolding numbered_ids_def using assms(2)
    by (intro exI [of _ "ks @ [Suc n]"] conjI list_all2_appendI) auto
qed

lemma numbered_swap:
  assumes "numbered_ids n (xs @ ys @ [m])"
  shows "numbered_ids n (xs @ [m] @ ys)"
proof -
  obtain ks where k: "distinct ks" "set ks \<subseteq> {1..n}" "list_all2 (\<lambda>m k. mm_id m = message_id (mm_ts m) k) (xs @ ys @ [m]) ks"
    using assms unfolding numbered_ids_def by blast
  then obtain us vs w where u: "ks = us @ vs @ [w]" "list_all2 (\<lambda>m k. mm_id m = message_id (mm_ts m) k) xs us"
      "list_all2 (\<lambda>m k. mm_id m = message_id (mm_ts m) k) ys vs" "mm_id m = message_id (mm_ts m) w"
    by (auto simp: list_all2_append1 list_all2_Cons1)
  show ?thesis
    unfolding numbered_ids_def using k u
    by (intro exI [of _ "us @ [w] @ vs"]) (auto intro!: list_all2_appendI)
qed

lemma numbered_drop: "numbered_ids n (xs @ ys) \<Longrightarrow> numbered_ids n ys"
  unfolding numbered_ids_def by (auto simp: list_all2_append1)

lemma numbered_last: "numbered_ids n (xs @ ys) \<Longrightarrow> numbered_ids n (last_n k xs @ ys)"
  by (rule numbered_drop [of n "take (length xs - k) xs"]) (simp add: last_n_def flip: append_assoc)

lemma step_frame:
  assumes "mqtt_enabled s e" "case e of MsgIn _ _ \<Rightarrow> False | FlushTimer \<Rightarrow> False | PublishDone _ _ \<Rightarrow> False | ClearStream \<Rightarrow> False | _ \<Rightarrow> True"
  shows "stream_part (mqtt_step t s e) = stream_part s \<and> log_step e g = g"
  using assms
  by (cases e) (auto simp: mqtt_enabled_def stream_part_def log_step_def status_received_def reloadSubs_done_def
      doSubscribe_begin_def doSubscribe_done_def doUnsubscribe_begin_def doUnsubscribe_done_def doPublish_begin_def
      call_failed_def beautifyJson_def fillToPublish_def copyPayload_def copy_timer_def toggle_topic_def Let_def
      split: option.split)

lemma mqtt_stream_step:
  assumes "stream_inv (s, g)" "mqtt_enabled s e"
  shows "stream_inv (mqtt_step t s e, log_step e g)"
proof (cases "case e of MsgIn _ _ \<Rightarrow> False | FlushTimer \<Rightarrow> False | PublishDone _ _ \<Rightarrow> False | ClearStream \<Rightarrow> False | _ \<Rightarrow> True")
  case True
  with step_frame [OF assms(2) this, of t g] assms(1) show ?thesis
    by (simp add: stream_inv_def stream_part_def)
next
  case False
  have s: "map content_of (mp_messages s) = last_n MAX_MESSAGES (sl_shown g)" "map content_of (mp_buffer s) = sl_pending g"
      "mp_buffer s \<noteq> [] \<Longrightarrow> mp_timer s" "numbered_ids (mp_seq s) (mp_messages s @ mp_buffer s)"
    using assms(1) by (auto simp: stream_inv_def)
  from False consider now d where "e = MsgIn now d" | "e = FlushTimer" | c now where "e = PublishDone c now" | "e = ClearStream"
    by (cases e) auto
  then show ?thesis
  proof cases
    case 1
    with s show ?thesis
      by (auto simp: stream_inv_def log_step_def message_received_def received_entry_def content_of_def Let_def simp flip: append_assoc
          intro!: numbered_snoc)
  next
    case 2
    show ?thesis
    proof (cases "mp_buffer s = []")
      case True
      with s have "sl_pending g = []" by simp
      with True s 2 show ?thesis by (simp add: stream_inv_def log_step_def flush_timer_def flushMessages_def)
    next
      case False
      with s(3) have "mp_timer s" by simp
      with False s(1,2) 2 numbered_last [of "mp_seq s" "mp_messages s @ mp_buffer s" "[]" MAX_MESSAGES] s(4) show ?thesis
        by (simp add: stream_inv_def log_step_def flush_timer_def flushMessages_def latest_last map_last_n last_n_last_n)
    qed
  next
    case 3
    define m where "m = \<lparr>mm_id = message_id now (Suc (mp_seq s)), mm_dir = Outgoing, mm_topic = trim (mp_pubTopic c),
      mm_payload = mp_pubPayload c, mm_qos = mp_pubQos c, mm_retained = mp_pubRetained c, mm_ts = now\<rparr>"
    have "numbered_ids (Suc (mp_seq s)) (mp_messages s @ [m] @ mp_buffer s)"
      by (rule numbered_swap) (use numbered_snoc [OF s(4), of m] in \<open>simp add: m_def\<close>)
    then have "numbered_ids (Suc (mp_seq s)) (last_n MAX_MESSAGES (mp_messages s @ [m]) @ mp_buffer s)"
      by (intro numbered_last) simp
    moreover have "content_of m = published_entry c now" by (simp add: m_def content_of_def published_entry_def)
    moreover have "doPublish_done c now s = s\<lparr>mp_seq := Suc (mp_seq s), mp_messages := last_n MAX_MESSAGES (mp_messages s @ [m]), mp_busy := False\<rparr>"
      by (simp add: doPublish_done_def m_def latest_last Let_def)
    ultimately show ?thesis using 3 s
      by (simp add: stream_inv_def log_step_def map_last_n last_n_last_n)
  next
    case 4
    with s show ?thesis
      by (auto simp: stream_inv_def log_step_def clear_stream_def last_n_def intro: numbered_drop)
  qed
qed

interpretation mqtt: transition_system "\<lambda>sg e. mqtt_enabled (fst sg) e" "logged_step t" stream_inv for t
proof
  fix sg e
  assume "stream_inv sg" "mqtt_enabled (fst sg) e"
  then show "stream_inv (logged_step t sg e)"
    unfolding logged_step_def by (cases sg) (simp add: mqtt_stream_step)
qed









subsection \<open>What is displayed\<close>

text \<open>
  A click on a subscription with a wildcard empties the display, and its count stays at zero: a message has the
  topic it was published under, which MQTT keeps free of wildcards, and the filter compares for equality.
\<close>

theorem wildcard_filter_shows_nothing:
  assumes "set topic \<inter> set ''#+'' \<noteq> {}" and "mp_filterTopic s \<noteq> topic"
    and "list_all (\<lambda>m. set (mm_topic m) \<inter> set ''#+'' = {}) (mp_messages s)"
  shows "displayedMessages (toggle_topic topic s) = [] \<and> topic_count topic s = 0"
proof -
  have ne: "mm_topic m \<noteq> topic" if "m \<in> set (mp_messages s)" for m
    using assms(1,3) that by (auto simp: list_all_iff)
  moreover have "topic \<noteq> []" using assms(1) by auto
  ultimately have "filteredMessages (toggle_topic topic s) = []"
    using assms(2) by (auto simp: filteredMessages_def toggle_topic_def passes_def filter_empty_conv)
  then show ?thesis using ne by (auto simp: displayedMessages_def latest_def topic_count_def filter_empty_conv)
qed

theorem wildcard_filter_shows_nothing_witness:
  "let s = (init_mqtt True 5)\<lparr>mp_messages := [\<lparr>mm_id = ''7-1'', mm_dir = Incoming, mm_topic = ''a/b'', mm_payload = [],
      mm_qos = 0, mm_retained = False, mm_ts = 7\<rparr>]\<rparr>
   in displayedMessages (toggle_topic ''a/#'' s) = [] \<and> topic_count ''a/#'' s = 0"
  unfolding Let_def by (rule wildcard_filter_shows_nothing) (simp_all add: init_mqtt_def)

end
