(* ===== verification/Base64.thy ===== *)
theory Base64
  imports Prelude "HOL-Library.Word"
begin

unbundle bit_operations_syntax

section \<open>Remote paths and Base64\<close>

text \<open>
  \<open>utils/file.ts\<close>: paths of a remote machine, and the codec for what the terminal receives and the file panel
  sends. A string here is the list of its UTF-16 code units as numbers, a \<open>Uint8Array\<close> a list of numbers below
  256. The reference is the Base64 of RFC 4648 with the forgiving decoder of the WHATWG Infra standard, which is
  what \<open>atob\<close> computes. Downloads, the file dialogs, and the two helpers that go through \<open>TextEncoder\<close> and
  \<open>TextDecoder\<close> are left out.
\<close>

type_synonym units = "nat list"
type_synonym byte_array = "nat list"

subsection \<open>The alphabet\<close>

definition b64Chars :: units where
  "b64Chars = map of_char ''ABCDEFGHIJKLMNOPQRSTUVWXYZabcdefghijklmnopqrstuvwxyz0123456789+/''"

definition b64Lookup :: byte_array where
  "b64Lookup = foldl (\<lambda>t i. t[b64Chars ! i := i]) (replicate 256 255) [0..<length b64Chars]"

subsection \<open>The reference\<close>

definition ascii_white :: units where
  "ascii_white = [0x09, 0x0A, 0x0C, 0x0D, 0x20]"

fun group_bytes :: "nat list \<Rightarrow> byte_array" where
  \<comment> \<open>24 bits at a time; what is left over of the last group is dropped\<close>
  "group_bytes (a # b # c # d # rest) =
     (let n = ((a * 64 + b) * 64 + c) * 64 + d in [n div 65536, n div 256 mod 256, n mod 256] @ group_bytes rest)"
| "group_bytes [a, b, c] = (let n = ((a * 64 + b) * 64 + c) div 4 in [n div 256, n mod 256])"
| "group_bytes [a, b] = [(a * 64 + b) div 16]"
| "group_bytes _ = []"

definition drop_pad :: "units \<Rightarrow> units" where
  "drop_pad s = (if s \<noteq> [] \<and> last s = 61 then butlast s else s)"

definition b64_value :: "nat \<Rightarrow> nat" where
  \<comment> \<open>the place of a character in the alphabet, 64 where it has none\<close>
  "b64_value u = (case find_index (\<lambda>c. c = u) b64Chars of None \<Rightarrow> 64 | Some i \<Rightarrow> i)"

definition atob :: "units \<Rightarrow> byte_array option" where
  "atob s =
     (let s1 = filter (\<lambda>u. u \<notin> set ascii_white) s;
          s2 = (if length s1 mod 4 = 0 then drop_pad (drop_pad s1) else s1)
      in if length s2 mod 4 = 1 \<or> \<not> list_all (\<lambda>u. u \<in> set b64Chars) s2 then None
         else Some (group_bytes (map b64_value s2)))"

fun btoa :: "byte_array \<Rightarrow> units" where
  "btoa (a # b # c # rest) =
     [b64Chars ! (a div 4), b64Chars ! (a mod 4 * 16 + b div 16), b64Chars ! (b mod 16 * 4 + c div 64),
      b64Chars ! (c mod 64)] @ btoa rest"
| "btoa [a, b] = [b64Chars ! (a div 4), b64Chars ! (a mod 4 * 16 + b div 16), b64Chars ! (b mod 16 * 4), 61]"
| "btoa [a] = [b64Chars ! (a div 4), b64Chars ! (a mod 4 * 16), 61, 61]"
| "btoa [] = []"

subsection \<open>Decoding\<close>

definition store :: "byte_array \<Rightarrow> nat \<Rightarrow> nat \<Rightarrow> byte_array" where
  \<comment> \<open>\<open>bytes[p] = v\<close>: eight bits are kept, and nothing happens outside the array\<close>
  "store bytes p v = bytes[p := v mod 256]"

fun decode_groups :: "nat \<Rightarrow> units \<Rightarrow> nat \<Rightarrow> byte_array \<Rightarrow> (nat \<times> byte_array) option" where
  \<comment> \<open>the loop of the fast path, \<open>None\<close> where it sets \<open>ok\<close> to false\<close>
  "decode_groups byteLen (ch0 # ch1 # ch2 # ch3 # rest) p bytes =
     (if ch0 > 127 \<or> ch1 > 127 \<or> ch2 > 127 \<or> ch3 > 127 then None
      else
        let c0 = b64Lookup ! ch0; c1 = b64Lookup ! ch1; c2 = b64Lookup ! ch2; c3 = b64Lookup ! ch3 in
        if c0 = 255 \<or> c1 = 255 then None
        else
          let bytes1 = store bytes p (push_bit 2 c0 OR drop_bit 4 c1); p1 = p + 1 in
          if p1 < byteLen \<and> c2 = 255 then None
          else
            let (bytes2, p2) = (if p1 < byteLen then (store bytes1 p1 (push_bit 4 (c1 AND 15) OR drop_bit 2 c2), p1 + 1)
                                else (bytes1, p1)) in
            if p2 < byteLen \<and> c3 = 255 then None
            else
              let (bytes3, p3) = (if p2 < byteLen then (store bytes2 p2 (push_bit 6 (c2 AND 3) OR c3), p2 + 1)
                                  else (bytes2, p2)) in
              decode_groups byteLen rest p3 bytes3)"
| "decode_groups byteLen _ p bytes = Some (p, bytes)"

definition fast_decode :: "units \<Rightarrow> byte_array option" where
  "fast_decode s =
     (let len = length s in
      if 0 < len \<and> len mod 4 = 0 then
        let v1 = (if s ! (len - 1) = 61 then len - 1 else len);
            validLen = (if s ! (len - 2) = 61 then v1 - 1 else v1);
            byteLen = validLen * 3 div 4 in
        case decode_groups byteLen s 0 (replicate byteLen 0) of
          None \<Rightarrow> None
        | Some (p, bytes) \<Rightarrow> if p = byteLen then Some bytes else None
      else None)"

definition base64ToBytes :: "(units \<Rightarrow> byte_array option) option \<Rightarrow> units \<Rightarrow> byte_array" where
  \<comment> \<open>\<open>Uint8Array.fromBase64\<close>, where the browser has it; \<open>None\<close> from it is an exception\<close>
  "base64ToBytes native s =
     (if s = [] then []
      else case Option.bind native (\<lambda>f. f s) of
        Some bytes \<Rightarrow> bytes
      | None \<Rightarrow> (case fast_decode s of
          Some bytes \<Rightarrow> bytes
        | None \<Rightarrow> (case atob s of Some binary \<Rightarrow> binary | None \<Rightarrow> [])))"

subsection \<open>Encoding\<close>

function binary_chunks :: "byte_array \<Rightarrow> nat \<Rightarrow> units \<Rightarrow> units" where
  \<comment> \<open>the loop that puts the binary string together, \<open>0x8000\<close> bytes at a time\<close>
  "binary_chunks bytes i binary =
     (if i < length bytes then binary_chunks bytes (i + 0x8000) (binary @ take 0x8000 (drop i bytes)) else binary)"
  by pat_completeness auto
termination by (relation "measure (\<lambda>(bytes, i, _). length bytes - i)") auto

declare binary_chunks.simps [simp del]

definition bytesToBase64 :: "byte_array \<Rightarrow> units" where
  "bytesToBase64 bytes = btoa (binary_chunks bytes 0 [])"

subsection \<open>Remote paths\<close>

definition strip_slashes :: "string \<Rightarrow> string" where
  \<comment> \<open>\<open>p.replace(/\/+$/, '')\<close>\<close>
  "strip_slashes p = rev (dropWhile (\<lambda>c. c = CHR ''/'') (rev p))"

definition joinRemote :: "string \<Rightarrow> string \<Rightarrow> string" where
  "joinRemote dir name = (if dir = [] \<or> dir = ''/'' then ''/'' @ name else strip_slashes dir @ ''/'' @ name)"

definition parentRemote :: "string \<Rightarrow> string" where
  "parentRemote p =
     (if p = [] \<or> p = ''/'' then ''/''
      else let trimmed = strip_slashes p in
        case find_last_index (\<lambda>c. c = CHR ''/'') trimmed of
          None \<Rightarrow> ''/''
        | Some i \<Rightarrow> if i = 0 then ''/'' else take i trimmed)"

subsection \<open>Facts about the alphabet and the groups\<close>
lemma or_plus:
  fixes a b :: nat
  assumes "b < 2 ^ n"
  shows "push_bit n a OR b = 2 ^ n * a + b"
proof -
  have b: "take_bit n b = b" using assms by (simp add: take_bit_nat_eq_self)
  have "\<not> bit (push_bit n a) k \<or> \<not> bit b k" for k
    by (subst b [symmetric]) (simp add: bit_push_bit_iff bit_take_bit_iff not_le)
  then have "push_bit n a + b = push_bit n a OR b" by (rule disjunctive_add)
  then show ?thesis by (simp add: push_bit_eq_mult mult.commute)
qed
lemma b64Chars_eq: "b64Chars = [65, 66, 67, 68, 69, 70, 71, 72, 73, 74, 75, 76, 77, 78, 79, 80, 81, 82, 83, 84, 85, 86,
    87, 88, 89, 90, 97, 98, 99, 100, 101, 102, 103, 104, 105, 106, 107, 108, 109, 110, 111, 112, 113, 114, 115, 116, 117,
    118, 119, 120, 121, 122, 48, 49, 50, 51, 52, 53, 54, 55, 56, 57, 43, 47]"
  by (simp add: b64Chars_def)
lemma b64Chars_length: "length b64Chars = 64" by (simp add: b64Chars_def)
lemma b64Chars_distinct: "distinct b64Chars" by (simp add: b64Chars_eq)
lemma b64Chars_plain: "u \<in> set b64Chars \<Longrightarrow> u < 128 \<and> u \<noteq> 61 \<and> u \<notin> set ascii_white"
  by (auto simp: b64Chars_eq ascii_white_def)
lemma masks: "(c::nat) AND 15 = c mod 16" "c AND 3 = c mod 4"
  using take_bit_eq_mask [of 4 c] take_bit_eq_mask [of 2 c] by (simp_all add: take_bit_eq_mod mask_eq_exp_minus_1)
lemma stores:
  "c1 < 64 \<Longrightarrow> c0 < 64 \<Longrightarrow> (push_bit 2 c0 OR drop_bit 4 c1) mod 256 = c0 * 4 + c1 div (16 :: nat)"
  "c2 < 64 \<Longrightarrow> (push_bit 4 (c1 AND 15) OR drop_bit 2 c2) mod 256 = c1 mod 16 * 16 + c2 div (4 :: nat)"
  "c3 < 64 \<Longrightarrow> (push_bit 6 (c2 AND 3) OR c3) mod 256 = c2 mod 4 * 64 + (c3 :: nat)"
proof -
  assume "c1 < 64" "c0 < 64"
  then show "(push_bit 2 c0 OR drop_bit 4 c1) mod 256 = c0 * 4 + c1 div (16 :: nat)"
    using or_plus [of "c1 div 16" 2 c0] by (simp add: drop_bit_eq_div)
next
  assume "c2 < 64"
  then show "(push_bit 4 (c1 AND 15) OR drop_bit 2 c2) mod 256 = c1 mod 16 * 16 + c2 div (4 :: nat)"
    using or_plus [of "c2 div 4" 4 "c1 mod 16"] mod_less_divisor [of 16 c1] by (simp add: masks drop_bit_eq_div)
next
  assume "c3 < 64"
  then show "(push_bit 6 (c2 AND 3) OR c3) mod 256 = c2 mod 4 * 64 + (c3 :: nat)"
    using or_plus [of c3 6 "c2 mod 4"] mod_less_divisor [of 4 c2] by (simp add: masks)
qed

lemma lookup_fold:
  assumes "distinct ks" "n \<le> length ks" "u < length t" "\<forall>k\<in>set ks. k < length t"
  shows "foldl (\<lambda>t i. t[ks ! i := i]) t [0..<n] ! u = (case find_index (\<lambda>c. c = u) (take n ks) of None \<Rightarrow> t ! u | Some i \<Rightarrow> i)"
  using assms(2)
proof (induction n)
  case (Suc n)
  have len: "length (foldl (\<lambda>t i. t[ks ! i := i]) t is) = length t" for "is"
    by (induction "is" arbitrary: t rule: rev_induct) simp_all
  show ?case
  proof (cases "ks ! n = u")
    case True
    have "find_index (\<lambda>c. c = u) (take n ks) = None"
      using assms(1) Suc.prems True by (auto simp: find_index_None in_set_conv_nth nth_eq_iff_index_eq)
    with True Suc assms(3) show ?thesis by (simp add: take_Suc_conv_app_nth find_index_append len)
  next
    case False
    with Suc show ?thesis by (simp add: take_Suc_conv_app_nth find_index_append split: option.split)
  qed
qed simp

lemma b64_value_nth: "i < 64 \<Longrightarrow> b64_value (b64Chars ! i) = i \<and> b64Chars ! i \<in> set b64Chars"
proof -
  assume i: "i < 64"
  have "find_index (\<lambda>c. c = b64Chars ! i) b64Chars = Some i"
    by (rule find_index_nth_eqI) (use i b64Chars_distinct in \<open>auto simp: b64Chars_length nth_eq_iff_index_eq\<close>)
  with i show ?thesis by (simp add: b64_value_def b64Chars_length)
qed

lemma b64_value_less: "u \<in> set b64Chars \<Longrightarrow> b64_value u < 64"
  by (metis b64_value_nth b64Chars_length in_set_conv_nth)

lemma b64Lookup_nth: "u < 128 \<Longrightarrow> b64Lookup ! u = (if u \<in> set b64Chars then b64_value u else 255)"
proof -
  assume u: "u < 128"
  have "\<forall>k\<in>set b64Chars. k < length (replicate 256 (255 :: nat))"
    using b64Chars_plain by force
  from lookup_fold [OF b64Chars_distinct order.refl _ this, of u] u
  have l: "b64Lookup ! u = (case find_index (\<lambda>c. c = u) b64Chars of None \<Rightarrow> 255 | Some i \<Rightarrow> i)"
    by (auto simp: b64Lookup_def split: option.split)
  show ?thesis
  proof (cases "u \<in> set b64Chars")
    case True
    then have "find_index (\<lambda>c. c = u) b64Chars \<noteq> None" by (auto simp: find_index_None)
    with True l show ?thesis by (auto simp: b64_value_def)
  next
    case False
    then have "find_index (\<lambda>c. c = u) b64Chars = None" by (auto simp: find_index_None)
    with False l show ?thesis by simp
  qed
qed

lemma two_bytes: "(y :: nat) < 256 \<Longrightarrow> (k * 256 + y) div 256 = k \<and> (k * 256 + y) mod 256 = y"
  by simp

lemma three_bytes:
  fixes x y z :: nat
  assumes "n = (x * 256 + y) * 256 + z" "y < 256" "z < 256"
  shows "n div 65536 = x" "n div 256 mod 256 = y" "n mod 256 = z"
proof -
  have "n div 65536 = n div 256 div 256" by (simp flip: div_mult2_eq)
  then show "n div 65536 = x" "n div 256 mod 256 = y" "n mod 256 = z"
    unfolding assms(1) using two_bytes [OF assms(3)] two_bytes [OF assms(2)] by metis+
qed

lemma split_at: "\<exists>q r. b = k * q + r \<and> r < k" if "0 < (k :: nat)"
  using that by (intro exI [of _ "b div k"] exI [of _ "b mod k"]) simp

lemma group_of_four:
  assumes "a < 64" "b < 64" "c < 64" "d < (64 :: nat)"
  shows "group_bytes (a # b # c # d # rest) = [a * 4 + b div 16, b mod 16 * 16 + c div 4, c mod 4 * 64 + d] @ group_bytes rest"
proof -
  obtain q r v w where b: "b = 16 * q + r" "r < 16" and c: "c = 4 * v + w" "w < 4"
    using split_at [of 16 b] split_at [of 4 c] by auto
  then have n: "((a * 64 + b) * 64 + c) * 64 + d = ((a * 4 + q) * 256 + (r * 16 + v)) * 256 + (w * 64 + d)"
    by simp
  moreover have "r * 16 + v < 256" "w * 64 + d < 256" using assms b c by linarith+
  ultimately show ?thesis unfolding group_bytes.simps Let_def three_bytes [OF n \<open>r * 16 + v < 256\<close> \<open>w * 64 + d < 256\<close>]
    using b c by simp
qed

lemma group_of_four_only:
  assumes "a < 64" "b < 64" "c < 64" "d < (64 :: nat)"
  shows "group_bytes [a, b, c, d] = [a * 4 + b div 16, b mod 16 * 16 + c div 4, c mod 4 * 64 + d]"
  using group_of_four [OF assms, of "[]"] by (simp del: group_bytes.simps(1))

lemma group_of_three:
  assumes "a < 64" "b < 64" "c < (64 :: nat)"
  shows "group_bytes [a, b, c] = [a * 4 + b div 16, b mod 16 * 16 + c div 4]"
proof -
  obtain q r v w where b: "b = 16 * q + r" "r < 16" and c: "c = 4 * v + w" "w < 4"
    using split_at [of 16 b] split_at [of 4 c] by auto
  then have "(a * 64 + b) * 64 + c = 4 * ((a * 4 + q) * 256 + (r * 16 + v)) + w"
    by simp
  with c(2) have "((a * 64 + b) * 64 + c) div 4 = (a * 4 + q) * 256 + (r * 16 + v)" by simp
  moreover have "r * 16 + v < 256" using assms b c by linarith
  ultimately show ?thesis unfolding group_bytes.simps Let_def using two_bytes [of "r * 16 + v" "a * 4 + q"] b c by simp
qed

lemma group_of_two: "group_bytes [a, b] = [a * 4 + b div (16 :: nat)]"
  by simp

lemma zeros_few: "replicate 2 (0 :: nat) = [0, 0]" "replicate 3 (0 :: nat) = [0, 0, 0]"
  by (simp_all add: numeral_2_eq_2 numeral_3_eq_3)

lemma store_next:
  "store (xs @ y # ys) (length xs) v = xs @ v mod 256 # ys"
  "store (xs @ a # y # ys) (Suc (length xs)) v = xs @ a # v mod 256 # ys"
  "store (xs @ a # b # y # ys) (Suc (Suc (length xs))) v = xs @ a # b # v mod 256 # ys"
  by (simp_all add: store_def list_update_append)

subsection \<open>The fast path\<close>

lemma decode_groups_sound:
  assumes "length s = 4 * m" "0 < m" "3 * (m - 1) < r" "r \<le> 3 * m"
    and "decode_groups (length done + r) s (length done) (done @ replicate r 0) = Some (p, bytes)"
  shows "list_all (\<lambda>u. u \<in> set b64Chars) (take (r + m) s) \<and> p = length done + r \<and>
    bytes = done @ group_bytes (map b64_value (take (r + m) s))"
  using assms
proof (induction m arbitrary: s r "done")
  case (Suc m)
  obtain ch0 ch1 ch2 ch3 rest where s: "s = ch0 # ch1 # ch2 # ch3 # rest" and rest: "length rest = 4 * m"
  proof -
    have "length s = Suc (Suc (Suc (Suc (4 * m))))" using Suc.prems(1) by simp
    then show ?thesis using that by (auto simp: length_Suc_conv)
  qed
  let ?c = "\<lambda>u. b64Lookup ! u"
  let ?x = "(push_bit 2 (?c ch0) OR drop_bit 4 (?c ch1)) mod 256"
  let ?y = "(push_bit 4 (?c ch1 AND 15) OR drop_bit 2 (?c ch2)) mod 256"
  let ?z = "(push_bit 6 (?c ch2 AND 3) OR ?c ch3) mod 256"
  have run: "decode_groups (length done + r) s (length done) (done @ replicate r 0) = Some (p, bytes)" by fact
  then have small: "ch0 < 128" "ch1 < 128" "ch2 < 128" "ch3 < 128" and v01: "?c ch0 \<noteq> 255" "?c ch1 \<noteq> 255"
    unfolding s by (auto simp: Let_def split: if_splits)
  have val: "?c u \<noteq> 255 \<Longrightarrow> u < 128 \<Longrightarrow> u \<in> set b64Chars \<and> ?c u = b64_value u \<and> ?c u < 64" for u
    using b64Lookup_nth [of u] b64_value_less [of u] by (auto split: if_splits)
  have c0: "ch0 \<in> set b64Chars" "?c ch0 = b64_value ch0" "b64_value ch0 < 64"
      and c1: "ch1 \<in> set b64Chars" "?c ch1 = b64_value ch1" "b64_value ch1 < 64"
    using val small v01 by metis+
  have c2: "ch2 \<in> set b64Chars" "?c ch2 = b64_value ch2" "b64_value ch2 < 64" if "1 < r"
    using that run small(3) val [of ch2] unfolding s by (auto simp: Let_def split: if_splits)
  have c3: "ch3 \<in> set b64Chars" "?c ch3 = b64_value ch3" "b64_value ch3 < 64" if "2 < r"
    using that run small(4) val [of ch3] unfolding s by (auto simp: Let_def split: if_splits)
  show ?case
  proof (cases "r \<le> 3")
    case True
    with Suc.prems have m: "m = 0" by auto
    with rest have [simp]: "rest = []" by simp
    from True Suc.prems(3) consider "r = 1" | "r = 2" | "r = 3" by force
    then show ?thesis
    proof cases
      case 1
      with run small v01 m c0 c1 show ?thesis 
        unfolding s by (simp add: Let_def store_next stores group_of_two del: group_bytes.simps)
    next
      case 2
      then have "1 < r" by simp
      with 2 run small v01 m c0 c1 c2 [OF \<open>1 < r\<close>] show ?thesis unfolding s
        by (simp add: Let_def store_next stores group_of_three zeros_few del: group_bytes.simps push_bit_and)
    next
      case 3
      then have "1 < r" "2 < r" by simp_all
      with 3 run small v01 m c0 c1 c2 [OF \<open>1 < r\<close>] c3 [OF \<open>2 < r\<close>] show ?thesis unfolding s
        by (simp add: Let_def store_next stores group_of_four_only zeros_few del: group_bytes.simps push_bit_and)
    qed
  next
    case False
    then have r: "1 < r" "2 < r" "0 < m" "3 * (m - 1) < r - 3" "r - 3 \<le> 3 * m" using Suc.prems by auto
    let ?new = "[?x, ?y, ?z]"
    have zeros: "replicate r 0 = 0 # 0 # 0 # replicate (r - 3) (0 :: nat)"
      using r by (cases r) (auto simp: numeral_3_eq_3 Suc_diff_Suc numeral_2_eq_2 simp flip: replicate_Suc)
    have "decode_groups (length done + r) rest (length (done @ ?new)) ((done @ ?new) @ replicate (r - 3) 0) = Some (p, bytes)"
      using run r small v01 c2 c3 unfolding s zeros by (simp add: Let_def store_next split: if_splits)
    moreover have n: "length done + r = length (done @ ?new) + (r - 3)" using r by simp
    ultimately have "decode_groups (length (done @ ?new) + (r - 3)) rest (length (done @ ?new)) ((done @ ?new) @ replicate (r - 3) 0) =
        Some (p, bytes)" by (simp only:)
    from Suc.IH [OF rest r(3,4,5) this] n
    have ih: "list_all (\<lambda>u. u \<in> set b64Chars) (take (r - 3 + m) rest)" "p = length done + r"
        "bytes = (done @ ?new) @ group_bytes (map b64_value (take (r - 3 + m) rest))" by (simp_all only:)
    have "take (r + Suc m) s = ch0 # ch1 # ch2 # ch3 # take (r - 3 + m) rest"
      using r unfolding s by (simp add: take_Cons' numeral_3_eq_3)
    with ih c0 c1 c2 [OF r(1)] c3 [OF r(2)] show ?thesis by (simp add: group_of_four stores del: group_bytes.simps push_bit_and)
  qed
qed simp


lemma pads: "pad \<in> {[], [61], [61, 61]} \<Longrightarrow> core = [] \<longrightarrow> pad = [] \<Longrightarrow> core \<noteq> [] \<longrightarrow> last core \<noteq> 61 \<Longrightarrow> drop_pad (drop_pad (core @ pad)) = core"
  by (auto simp: drop_pad_def butlast_append)

lemma atob_core:
  assumes core: "list_all (\<lambda>u. u \<in> set b64Chars) core" and pad: "pad \<in> {[], [61], [61, 61]}"
    and len: "length (core @ pad) mod 4 = 0"
  shows "atob (core @ pad) = Some (group_bytes (map b64_value core))"
proof -
  have plain: "u \<in> set core \<Longrightarrow> u \<noteq> 61 \<and> u \<notin> set ascii_white" for u
    using core b64Chars_plain by (auto simp: list_all_iff)
  have "filter (\<lambda>u. u \<notin> set ascii_white) (core @ pad) = core @ pad"
    using plain pad by (auto simp: filter_id_conv ascii_white_def)
  moreover have "drop_pad (drop_pad (core @ pad)) = core"
  proof (rule pads [OF pad])
    show "core = [] \<longrightarrow> pad = []" using len pad by (auto simp flip: numeral_2_eq_2)
    show "core \<noteq> [] \<longrightarrow> last core \<noteq> 61" using plain last_in_set by blast
  qed
  moreover have "length core mod 4 \<noteq> 1" using len pad by auto presburger+
  ultimately show ?thesis using core len by (simp add: atob_def)
qed

lemma two_list: "length xs = Suc (Suc 0) \<Longrightarrow> \<exists>a b. xs = [a, b]"
  by (auto simp: length_Suc_conv)

lemma fast_is_atob:
  assumes "fast_decode s = Some bytes"
  shows "atob s = Some bytes"
proof -
  define k where "k = (if s ! (length s - 1) = 61 then 1 else 0) + (if s ! (length s - 2) = 61 then 1 else (0 :: nat))"
  define n where "n = (length s - k) * 3 div 4"
  have len: "0 < length s" "length s mod 4 = 0" and p: "decode_groups n s 0 (replicate n 0) = Some (n, bytes)"
    using assms by (auto simp: fast_decode_def Let_def k_def n_def split: if_splits option.splits)
  then obtain m where m: "length s = 4 * m" "0 < m" by (metis mult_is_0 mult_div_mod_eq add_0_right not_gr_zero)
  have k: "k \<le> 2" by (simp add: k_def)
  then have n: "3 * (m - 1) < n \<and> n \<le> 3 * m \<and> n + m = length s - k"
    unfolding n_def m(1) using m(2) by (cases m) (auto simp: le_Suc_eq numeral_2_eq_2)
  have "decode_groups (length ([] :: nat list) + n) s (length ([] :: nat list)) ([] @ replicate n 0) = Some (n, bytes)"
    using p by simp
  from decode_groups_sound [OF m _ _ this] n
  have ok: "list_all (\<lambda>u. u \<in> set b64Chars) (take (length s - k) s)"
      and bytes: "bytes = group_bytes (map b64_value (take (length s - k) s))" by auto
  have char: "s ! i \<noteq> 61" if "i < length s - k" for i
    using ok that b64Chars_plain by (auto simp: list_all_length)
  have "drop (length s - k) s \<in> {[], [61], [61, 61]}"
  proof -
    have "length (drop (length s - 2) s) = Suc (Suc 0)" using m by auto
    from two_list [OF this] obtain a b where "drop (length s - 2) s = [a, b]" by blast
    then have s: "s = take (length s - 2) s @ [a, b]" by (metis append_take_drop_id)
    then obtain xs where s: "s = xs @ [a, b]" by blast
    have "b = 61" if "a = 61"
      using char [of "length xs"] that by (cases "b = 61") (auto simp: s k_def nth_append split: if_splits)
    then show ?thesis by (auto simp: s k_def nth_append)
  qed
  from atob_core [OF ok this] len show ?thesis by (simp add: bytes)
qed

subsection \<open>Decoding what was encoded\<close>

lemma packed: "y < 16 \<Longrightarrow> (x * 16 + y) div 16 = x \<and> (x * 16 + y) mod 16 = (y :: nat)"
  "z < 4 \<Longrightarrow> (x * 4 + z) div 4 = x \<and> (x * 4 + z) mod 4 = (z :: nat)"
  by simp_all

lemma sextets:
  assumes "a < 256" "b < 256" "c < (256 :: nat)"
  shows "a div 4 < 64" "a mod 4 * 16 + b div 16 < 64" "b mod 16 * 4 + c div 64 < 64" "c mod 64 < 64"
    "b div 16 < 16" "c div 64 < 4" "a mod 4 * 16 < 64" "b mod 16 * 4 < 64"
proof -
  have "a mod 4 < 4" "b mod 16 < 16" by simp_all
  with assms show "a div 4 < 64" "a mod 4 * 16 + b div 16 < 64" "b mod 16 * 4 + c div 64 < 64" "c mod 64 < 64"
    "b div 16 < 16" "c div 64 < 4" "a mod 4 * 16 < 64" "b mod 16 * 4 < 64"
    by linarith+
qed

lemma unpacked:
  assumes "a < 256" "b < 256" "c < (256 :: nat)"
  shows "group_bytes (a div 4 # (a mod 4 * 16 + b div 16) # (b mod 16 * 4 + c div 64) # c mod 64 # rest) = a # b # c # group_bytes rest"
    "group_bytes [a div 4, a mod 4 * 16 + b div 16, b mod 16 * 4] = [a, b]"
    "group_bytes [a div 4, a mod 4 * 16] = [a]"
proof -
  note s = sextets [OF assms]
  have p: "(a mod 4 * 16 + b div 16) div 16 = a mod 4" "(a mod 4 * 16 + b div 16) mod 16 = b div 16"
      "(b mod 16 * 4 + c div 64) div 4 = b mod 16" "(b mod 16 * 4 + c div 64) mod 4 = c div 64"
    by (rule packed(1) [OF s(5), THEN conjunct1] packed(1) [OF s(5), THEN conjunct2]
        packed(2) [OF s(6), THEN conjunct1] packed(2) [OF s(6), THEN conjunct2])+
  show "group_bytes (a div 4 # (a mod 4 * 16 + b div 16) # (b mod 16 * 4 + c div 64) # c mod 64 # rest) = a # b # c # group_bytes rest"
    unfolding group_of_four [OF s(1,2,3,4)] p by simp
  show "group_bytes [a div 4, a mod 4 * 16 + b div 16, b mod 16 * 4] = [a, b]"
    unfolding group_of_three [OF s(1,2,8)] p by simp
  show "group_bytes [a div 4, a mod 4 * 16] = [a]"
    unfolding group_of_two by simp
qed

lemma btoa_core:
  assumes "list_all (\<lambda>b. b < 256) bs"
  shows "\<exists>core pad. btoa bs = core @ pad \<and> list_all (\<lambda>u. u \<in> set b64Chars) core \<and> pad \<in> {[], [61], [61, 61]} \<and>
    length (core @ pad) mod 4 = 0 \<and> group_bytes (map b64_value core) = bs"
  using assms
proof (induction bs rule: btoa.induct)
  case (1 a b c rest)
  let ?four = "[b64Chars ! (a div 4), b64Chars ! (a mod 4 * 16 + b div 16), b64Chars ! (b mod 16 * 4 + c div 64), b64Chars ! (c mod 64)]"
  from 1 have s: "a < 256" "b < 256" "c < 256" by simp_all
  from 1 have "list_all (\<lambda>b. b < 256) rest" by simp
  from 1(1) [OF this] obtain core pad where c: "btoa rest = core @ pad" "list_all (\<lambda>u. u \<in> set b64Chars) core" "pad \<in> {[], [61], [61, 61]}"
      "length (core @ pad) mod 4 = 0" "group_bytes (map b64_value core) = rest"
    by (elim exE conjE) (rule that, assumption+)
  have "group_bytes (map b64_value (?four @ core)) = a # b # c # rest"
    using unpacked(1) [OF s] sextets [OF s] c(5) by (simp add: b64_value_nth del: group_bytes.simps)
  moreover have "list_all (\<lambda>u. u \<in> set b64Chars) (?four @ core)" using sextets [OF s] c(2) by (simp add: b64_value_nth)
  moreover have "length ((?four @ core) @ pad) mod 4 = 0" using c(4) by simp
  moreover have "btoa (a # b # c # rest) = (?four @ core) @ pad" using c(1) by simp
  ultimately show ?case
    using c(3) by (intro exI [of _ "?four @ core"] exI [of _ pad] conjI)
next
  case (2 a b)
  then have s: "a < 256" "b < 256" "0 < (256 :: nat)" by simp_all
  then show ?case using sextets [OF s] unpacked(2) [OF s]
    by (intro exI [of _ "[b64Chars ! (a div 4), b64Chars ! (a mod 4 * 16 + b div 16), b64Chars ! (b mod 16 * 4)]"] exI [of _ "[61]"])
      (simp add: b64_value_nth del: group_bytes.simps)
next
  case (3 a)
  then have s: "a < 256" "0 < (256 :: nat)" "0 < (256 :: nat)" by simp_all
  then show ?case using sextets [OF s] unpacked(3) [OF s]
    by (intro exI [of _ "[b64Chars ! (a div 4), b64Chars ! (a mod 4 * 16)]"] exI [of _ "[61, 61]"])
      (simp add: b64_value_nth del: group_bytes.simps)
next
  case 4
  show ?case by (intro exI [of _ "[]"]) simp
qed

lemma binary_chunks_all: "binary_chunks bytes i binary = binary @ drop i bytes"
proof (induction bytes i binary rule: binary_chunks.induct)
  case (1 bytes i binary)
  have "drop i bytes = take 0x8000 (drop i bytes) @ drop (i + 0x8000) bytes"
    by (metis append_take_drop_id drop_drop add.commute)
  with 1 show ?case by (subst binary_chunks.simps) auto
qed


subsection \<open>The codec\<close>

definition native_ok :: "(units \<Rightarrow> byte_array option) option \<Rightarrow> bool" where
  \<comment> \<open>\<open>Uint8Array.fromBase64\<close> answers what \<open>atob\<close> does, or throws\<close>
  "native_ok native \<longleftrightarrow> (\<forall>f s bytes. native = Some f \<and> f s = Some bytes \<longrightarrow> atob s = Some bytes)"

lemma atob_Nil: "atob [] = Some []"
  by (simp add: atob_def drop_pad_def)

lemma decode_standard:
  assumes "native_ok native"
  shows "base64ToBytes native s = (case atob s of Some bytes \<Rightarrow> bytes | None \<Rightarrow> [])"
proof (cases "Option.bind native (\<lambda>f. f s)")
  case None
  then show ?thesis using fast_is_atob [of s]
    by (cases "fast_decode s") (auto simp: base64ToBytes_def atob_Nil)
next
  case (Some bytes)
  then obtain f where "native = Some f" "f s = Some bytes" by (cases native) auto
  with assms have "atob s = Some bytes" by (auto simp: native_ok_def)
  with Some show ?thesis by (auto simp: base64ToBytes_def atob_Nil)
qed

text \<open>
  C30: whatever text it is given, the decoder computes what the standard says, the empty array for a text that
  is not Base64: the fast path, with its table, its missing checks for the last group and its
  typed array, never differs from the standard.
\<close>

theorem base64_is_standard:
  assumes "native_ok native"
  shows "base64ToBytes native s = (case atob s of Some bytes \<Rightarrow> bytes | None \<Rightarrow> [])"
  using assms by (rule decode_standard)

theorem base64_is_standard_witness:
  "base64ToBytes (Some atob) (map of_char ''QUI='') = (case atob (map of_char ''QUI='') of Some bytes \<Rightarrow> bytes | None \<Rightarrow> [])"
  by (rule base64_is_standard) (simp add: native_ok_def)

lemma decode_encode:
  assumes "list_all (\<lambda>b. b < 256) bs" "native_ok native"
  shows "base64ToBytes native (bytesToBase64 bs) = bs"
proof -
  from btoa_core [OF assms(1)] obtain core pad where c: "btoa bs = core @ pad" "list_all (\<lambda>u. u \<in> set b64Chars) core"
      "pad \<in> {[], [61], [61, 61]}" "length (core @ pad) mod 4 = 0" "group_bytes (map b64_value core) = bs"
    by (elim exE conjE) (rule that, assumption+)
  from atob_core [OF c(2,3,4)] c(1,5) show ?thesis
    by (simp add: decode_standard [OF assms(2)] bytesToBase64_def binary_chunks_all)
qed

text \<open>C28: every sequence of bytes that is encoded, in chunks as long files are, decodes to itself.\<close>

theorem base64_round_trip:
  assumes "list_all (\<lambda>b. b < 256) bs" and "native_ok native"
  shows "base64ToBytes native (bytesToBase64 bs) = bs"
  using assms by (rule decode_encode)

theorem base64_round_trip_witness:
  "base64ToBytes None (bytesToBase64 [0, 255, 27, 91]) = [0, 255, 27, 91]"
  by (rule base64_round_trip) (simp_all add: native_ok_def)

subsection \<open>Paths\<close>

lemma strip_slashes_none: "p \<noteq> [] \<Longrightarrow> last p \<noteq> CHR ''/'' \<Longrightarrow> strip_slashes p = p"
  by (cases p rule: rev_cases) (simp_all add: strip_slashes_def)

lemma last_slash: "CHR ''/'' \<notin> set n \<Longrightarrow> find_last_index (\<lambda>c. c = CHR ''/'') (d @ CHR ''/'' # n) = Some (length d)"
proof -
  assume n: "CHR ''/'' \<notin> set n"
  have "find_index (\<lambda>c. c = CHR ''/'') (rev n @ CHR ''/'' # rev d) = Some (length n)"
    by (rule find_index_nth_eqI) (use n in \<open>auto simp: nth_append rev_nth in_set_conv_nth\<close>)
  then show ?thesis by (simp add: find_last_index_def)
qed

text \<open>The parent of a file in a directory is the directory.\<close>

theorem parent_of_joined:
  assumes "name \<noteq> []" "CHR ''/'' \<notin> set name" and "dir = ''/'' \<or> (dir \<noteq> [] \<and> last dir \<noteq> CHR ''/'')"
  shows "parentRemote (joinRemote dir name) = dir"
proof -
  have l: "last (xs @ CHR ''/'' # name) \<noteq> CHR ''/''" for xs
    using assms(1,2) last_in_set [of name] by (metis last_ConsR last_appendR list.discI)
  show ?thesis
  proof (cases "dir = ''/''")
    case True
    then show ?thesis using assms l [of "[]"] last_slash [of name "[]"]
      by (simp add: joinRemote_def parentRemote_def strip_slashes_none)
  next
    case False
    then show ?thesis using assms l [of dir] last_slash [of name dir]
      by (auto simp: joinRemote_def parentRemote_def strip_slashes_none append_eq_Cons_conv)
  qed
qed

theorem parent_of_joined_witness: "parentRemote (joinRemote ''/home/a'' ''b.txt'') = ''/home/a''"
  by (rule parent_of_joined) simp_all

end
