(* ===== verification/Terminal.thy ===== *)
theory Terminal
  imports Base64
begin

section \<open>The terminal\<close>

text \<open>
  \<open>pages/ssh/terminal/TerminalView.tsx\<close>, the view of one session while it is mounted: the queue between the events of the
  backend and the terminal emulator, resizing, the clipboard, the search and the keys. The emulator (xterm.js) is a
  library: the state keeps the calls that were made to it, in order, and those to the backend. An animation frame that
  was requested and has not been cancelled may run at any time; so may a timer. The colours of the theme and the
  addons for rendering, which only decide how the emulator draws, are left out.
\<close>

subsection \<open>State\<close>

datatype term_call =
    Write byte_array
  | Writeln units
  | ClearTerm
  | PasteText string
  | FocusTerm
  | FitTerm
  | FindNext string bool
  | FindPrevious string bool

datatype term_api =
    TerminalAttach int int
  | SendInput string
  | Resize int int

record terminal =
  tv_active :: bool
  tv_chunks :: "byte_array list"
  tv_bytes :: nat
  tv_raf :: "nat option"
  tv_frames :: "nat list" \<comment> \<open>frames that were requested and have neither run nor been cancelled\<close>
  tv_nextFrame :: nat
  tv_bgTimer :: bool
  tv_fitTimer :: bool
  tv_resize :: "(int \<times> int) option"
  tv_lastPaste :: int
  tv_searchOpen :: bool
  tv_searchQuery :: string
  tv_caseSensitive :: bool
  tv_searchTimer :: "(string \<times> bool) option"
  tv_calls :: "term_call list"
  tv_api :: "term_api list"

definition term_do :: "term_call list \<Rightarrow> terminal \<Rightarrow> terminal" where
  "term_do cs s = s\<lparr>tv_calls := tv_calls s @ cs\<rparr>"

definition mount :: "bool \<Rightarrow> int \<Rightarrow> int \<Rightarrow> terminal" where
  "mount active cols rows =
     \<lparr>tv_active = active, tv_chunks = [], tv_bytes = 0, tv_raf = None, tv_frames = [], tv_nextFrame = 0, tv_bgTimer = False,
      tv_fitTimer = active, tv_resize = None, tv_lastPaste = 0, tv_searchOpen = False, tv_searchQuery = [],
      tv_caseSensitive = False, tv_searchTimer = None, tv_calls = [FitTerm, FocusTerm], tv_api = [TerminalAttach cols rows]\<rparr>"

subsection \<open>The queue of output\<close>

fun set_chunks :: "byte_array list \<Rightarrow> nat \<Rightarrow> byte_array \<Rightarrow> byte_array option" where
  \<comment> \<open>\<open>merged.set(chunk, offset)\<close> for each chunk; it throws where a chunk does not fit\<close>
  "set_chunks [] offset merged = Some merged"
| "set_chunks (c # cs) offset merged =
     (if offset + length c > length merged then None
      else set_chunks cs (offset + length c) (take offset merged @ c @ drop (offset + length c) merged))"

definition flushOutput :: "terminal \<Rightarrow> terminal" where
  "flushOutput s =
     (let s1 = s\<lparr>tv_raf := None, tv_bgTimer := False\<rparr> in
      case tv_chunks s of
        [] \<Rightarrow> s1
      | [c] \<Rightarrow> (term_do [Write c] s1)\<lparr>tv_chunks := [], tv_bytes := 0\<rparr>
      | cs \<Rightarrow> (case set_chunks cs 0 (replicate (tv_bytes s) 0) of
            None \<Rightarrow> s1
          | Some merged \<Rightarrow> (term_do [Write merged] s1)\<lparr>tv_chunks := [], tv_bytes := 0\<rparr>))"

definition cancel_frame :: "terminal \<Rightarrow> terminal" where
  "cancel_frame s =
     (case tv_raf s of None \<Rightarrow> s | Some i \<Rightarrow> s\<lparr>tv_frames := removeAll i (tv_frames s), tv_raf := None\<rparr>)"

definition request_frame :: "terminal \<Rightarrow> terminal" where
  "request_frame s =
     (if tv_raf s = None
      then s\<lparr>tv_raf := Some (tv_nextFrame s), tv_frames := tv_frames s @ [tv_nextFrame s], tv_nextFrame := Suc (tv_nextFrame s)\<rparr>
      else s)"

definition data_received :: "(units \<Rightarrow> byte_array option) option \<Rightarrow> units \<Rightarrow> terminal \<Rightarrow> terminal" where
  "data_received native payload s =
     (let bytes = base64ToBytes native payload in
      if bytes = [] then s
      else
        let s1 = s\<lparr>tv_chunks := tv_chunks s @ [bytes], tv_bytes := tv_bytes s + length bytes\<rparr> in
        if tv_active s1 then
          if tv_bytes s1 \<ge> 65536 then flushOutput (cancel_frame s1) else request_frame s1
        else if tv_bytes s1 \<ge> 131072 then flushOutput s1
        else s1\<lparr>tv_bgTimer := True\<rparr>)"

definition frame_fires :: "nat \<Rightarrow> terminal \<Rightarrow> terminal" where
  "frame_fires i s =
     (if i \<in> set (tv_frames s) then flushOutput (s\<lparr>tv_frames := removeAll i (tv_frames s)\<rparr>) else s)"

definition timer_fires :: "terminal \<Rightarrow> terminal" where
  "timer_fires s = (if tv_bgTimer s then flushOutput s else s)"

definition closed_line :: "units \<Rightarrow> units \<Rightarrow> units" where
  \<comment> \<open>\<open>reason || tr('ssh:terminal.disconnected')\<close> between the codes for yellow and back\<close>
  "closed_line text reason =
     [13, 10, 27] @ map of_char ''[33m['' @ (if reason = [] then text else reason) @ map of_char '']'' @ [27] @ map of_char ''[0m''"

definition closed_received :: "units \<Rightarrow> units \<Rightarrow> terminal \<Rightarrow> terminal" where
  "closed_received text reason s = term_do [Writeln (closed_line text reason)] (flushOutput s)"

definition render_active :: "bool \<Rightarrow> terminal \<Rightarrow> terminal" where
  "render_active b s = s\<lparr>tv_active := b\<rparr>"

definition active_effect :: "terminal \<Rightarrow> terminal" where
  \<comment> \<open>after a render that changed \<open>active\<close>; the clean-up of the effect before stops its timer\<close>
  "active_effect s =
     (if tv_active s then (flushOutput (s\<lparr>tv_fitTimer := False\<rparr>))\<lparr>tv_fitTimer := True\<rparr> else s\<lparr>tv_fitTimer := False\<rparr>)"

definition fit_timer :: "terminal \<Rightarrow> terminal" where
  "fit_timer s = (if tv_fitTimer s then term_do [FitTerm, FocusTerm] (s\<lparr>tv_fitTimer := False\<rparr>) else s)"

definition unmount :: "terminal \<Rightarrow> terminal" where
  \<comment> \<open>the clean-up of all effects; a frame that was forgotten by an early flush stays requested\<close>
  "unmount s =
     (cancel_frame s)\<lparr>tv_bgTimer := False, tv_searchTimer := None, tv_chunks := [], tv_bytes := 0, tv_resize := None,
       tv_fitTimer := False\<rparr>"

subsection \<open>Input, size and clipboard\<close>

definition term_backend :: "term_api \<Rightarrow> terminal \<Rightarrow> terminal" where
  "term_backend c s = s\<lparr>tv_api := tv_api s @ [c]\<rparr>"

definition onData :: "string \<Rightarrow> terminal \<Rightarrow> terminal" where
  "onData data s = term_backend (SendInput data) s"

definition debouncedResize :: "int \<Rightarrow> int \<Rightarrow> terminal \<Rightarrow> terminal" where
  "debouncedResize cols rows s = s\<lparr>tv_resize := Some (cols, rows)\<rparr>"

definition resize_timer :: "terminal \<Rightarrow> terminal" where
  "resize_timer s =
     (case tv_resize s of None \<Rightarrow> s | Some (cols, rows) \<Rightarrow> term_backend (Resize cols rows) (s\<lparr>tv_resize := None\<rparr>))"

definition copySelection :: "string \<Rightarrow> string option" where
  \<comment> \<open>what is written to the clipboard; then the terminal gets the focus\<close>
  "copySelection text = (if text = [] then None else Some text)"

definition copy_done :: "terminal \<Rightarrow> terminal" where
  "copy_done s = term_do [FocusTerm] s"

definition paste_begin :: "int \<Rightarrow> terminal \<Rightarrow> terminal \<times> bool" where
  \<comment> \<open>whether the clipboard is read\<close>
  "paste_begin now s = (if now - tv_lastPaste s < 200 then (s, False) else (s\<lparr>tv_lastPaste := now\<rparr>, True))"

definition paste_done :: "string option \<Rightarrow> terminal \<Rightarrow> terminal" where
  \<comment> \<open>\<open>None\<close> where reading fails\<close>
  "paste_done text s = term_do (if truthy text then [PasteText (the text), FocusTerm] else [FocusTerm]) s"

subsection \<open>Search\<close>

definition handleSearchNext :: "terminal \<Rightarrow> terminal" where
  "handleSearchNext s =
     (if tv_searchQuery s = [] then s else term_do [FindNext (tv_searchQuery s) (tv_caseSensitive s)] s)"

definition handleSearchPrev :: "terminal \<Rightarrow> terminal" where
  "handleSearchPrev s =
     (if tv_searchQuery s = [] then s else term_do [FindPrevious (tv_searchQuery s) (tv_caseSensitive s)] s)"

definition setSearchOpen :: "bool \<Rightarrow> terminal \<Rightarrow> terminal" where
  \<comment> \<open>with the effect that follows: the input or the terminal gets the focus\<close>
  "setSearchOpen b s =
     (if b = tv_searchOpen s then s
      else let s1 = s\<lparr>tv_searchOpen := b\<rparr> in if b then s1 else term_do [FocusTerm] s1)"

definition handleSearchKeyDown :: "string \<Rightarrow> bool \<Rightarrow> terminal \<Rightarrow> terminal" where
  "handleSearchKeyDown key shift s =
     (if key = ''Enter'' then (if shift then handleSearchPrev s else handleSearchNext s)
      else if key = ''Escape'' then setSearchOpen False s
      else s)"

definition handleSearchChange :: "string \<Rightarrow> terminal \<Rightarrow> terminal" where
  "handleSearchChange q s =
     s\<lparr>tv_searchQuery := q, tv_searchTimer := (if q = [] then None else Some (q, tv_caseSensitive s))\<rparr>"

definition search_timer :: "terminal \<Rightarrow> terminal" where
  "search_timer s =
     (case tv_searchTimer s of
        None \<Rightarrow> s
      | Some (q, cs) \<Rightarrow> term_do [FindNext q cs] (s\<lparr>tv_searchTimer := None\<rparr>))"

definition toggle_case :: "terminal \<Rightarrow> terminal" where
  "toggle_case s =
     (let next = \<not> tv_caseSensitive s; s1 = s\<lparr>tv_caseSensitive := next\<rparr> in
      if tv_searchQuery s = [] then s1 else term_do [FindNext (tv_searchQuery s) next] s1)"

definition clear_terminal :: "terminal \<Rightarrow> terminal" where
  "clear_terminal s = term_do [ClearTerm, FocusTerm] s"

subsection \<open>Keys\<close>

record key_event =
  ke_down :: bool
  ke_ctrl :: bool
  ke_meta :: bool
  ke_shift :: bool
  ke_key :: string

datatype key_action = PassKey | Swallow | CopyKey | PasteKey | SearchKey | ClearKey

definition custom_key :: "bool \<Rightarrow> bool \<Rightarrow> key_event \<Rightarrow> key_action" where
  \<comment> \<open>\<open>attachCustomKeyEventHandler\<close>: whether it is a Mac, whether something is selected; only \<open>PassKey\<close> returns true\<close>
  "custom_key isMac hasSelection e =
     (if \<not> ke_down e then PassKey
      else
        let ctrlOrCmd = (if isMac then ke_meta e else ke_ctrl e) in
        if ctrlOrCmd \<and> (ke_key e = ''c'' \<or> ke_key e = ''C'') \<and> hasSelection then CopyKey
        else if ctrlOrCmd \<and> (ke_key e = ''c'' \<or> ke_key e = ''C'') \<and> ke_shift e then Swallow
        else if ctrlOrCmd \<and> (ke_key e = ''v'' \<or> ke_key e = ''V'') then PasteKey
        else if ctrlOrCmd \<and> (ke_key e = ''f'' \<or> ke_key e = ''F'') then SearchKey
        else if ctrlOrCmd \<and> \<not> ke_shift e \<and> (ke_key e = ''l'' \<or> ke_key e = ''L'') then ClearKey
        else PassKey)"

definition key_pressed :: "bool \<Rightarrow> bool \<Rightarrow> int \<Rightarrow> key_event \<Rightarrow> terminal \<Rightarrow> terminal \<times> bool" where
  \<comment> \<open>whether the emulator handles the key itself; the clipboard is read and written in steps of their own\<close>
  "key_pressed isMac hasSelection now e s =
     (case custom_key isMac hasSelection e of
        PassKey \<Rightarrow> (s, True)
      | PasteKey \<Rightarrow> (fst (paste_begin now s), False)
      | SearchKey \<Rightarrow> (setSearchOpen (\<not> tv_searchOpen s) s, False)
      | ClearKey \<Rightarrow> (clear_terminal s, False)
      | _ \<Rightarrow> (s, False))"

subsection \<open>Runs\<close>

datatype term_event =
    DataIn units
  | ClosedIn units units
  | FrameFires nat
  | BgTimerFires
  | RenderActive bool
  | ActiveEffect
  | FitTimerFires
  | UserInput string
  | Resized int int
  | ResizeTimerFires
  | CopyDone
  | PasteClick int
  | PasteDone "string option"
  | KeyDown bool bool int key_event
  | SearchNext
  | SearchPrev
  | SearchKey string bool
  | SearchEdit string
  | SearchTimerFires
  | ToggleCase
  | OpenSearch bool
  | ClearClick

fun term_step :: "(units \<Rightarrow> byte_array option) option \<Rightarrow> terminal \<Rightarrow> term_event \<Rightarrow> terminal" where
  "term_step native s (DataIn p) = data_received native p s"
| "term_step native s (ClosedIn text reason) = closed_received text reason s"
| "term_step native s (FrameFires i) = frame_fires i s"
| "term_step native s BgTimerFires = timer_fires s"
| "term_step native s (RenderActive b) = render_active b s"
| "term_step native s ActiveEffect = active_effect s"
| "term_step native s FitTimerFires = fit_timer s"
| "term_step native s (UserInput d) = onData d s"
| "term_step native s (Resized cols rows) = debouncedResize cols rows s"
| "term_step native s ResizeTimerFires = resize_timer s"
| "term_step native s CopyDone = copy_done s"
| "term_step native s (PasteClick now) = fst (paste_begin now s)"
| "term_step native s (PasteDone text) = paste_done text s"
| "term_step native s (KeyDown isMac sel now e) = fst (key_pressed isMac sel now e s)"
| "term_step native s SearchNext = handleSearchNext s"
| "term_step native s SearchPrev = handleSearchPrev s"
| "term_step native s (SearchKey key shift) = handleSearchKeyDown key shift s"
| "term_step native s (SearchEdit q) = handleSearchChange q s"
| "term_step native s SearchTimerFires = search_timer s"
| "term_step native s ToggleCase = toggle_case s"
| "term_step native s (OpenSearch b) = setSearchOpen b s"
| "term_step native s ClearClick = clear_terminal s"

fun call_bytes :: "term_call \<Rightarrow> byte_array" where
  \<comment> \<open>what a call hands to the emulator's parser\<close>
  "call_bytes (Write b) = b"
| "call_bytes (Writeln l) = l @ [13, 10]"
| "call_bytes _ = []"

definition written :: "terminal \<Rightarrow> byte_array" where
  "written s = concat (map call_bytes (tv_calls s))"

fun sent :: "(units \<Rightarrow> byte_array option) option \<Rightarrow> term_event \<Rightarrow> byte_array" where
  "sent native (DataIn p) = base64ToBytes native p"
| "sent native (ClosedIn text reason) = closed_line text reason @ [13, 10]"
| "sent native _ = []"

definition logged_term :: "(units \<Rightarrow> byte_array option) option \<Rightarrow> terminal \<times> byte_array \<Rightarrow> term_event \<Rightarrow> terminal \<times> byte_array" where
  "logged_term native sg e = (term_step native (fst sg) e, snd sg @ sent native e)"

subsection \<open>The invariant\<close>

definition flush_due :: "terminal \<Rightarrow> bool" where
  "flush_due s \<longleftrightarrow> tv_bgTimer s \<or> (\<exists>i\<in>set (tv_frames s). tv_raf s = Some i)"

definition queue_ok :: "terminal \<Rightarrow> bool" where
  "queue_ok s \<longleftrightarrow>
     tv_bytes s = length (concat (tv_chunks s)) \<and> tv_bytes s < 131072 \<and>
     (\<forall>i. tv_raf s = Some i \<longrightarrow> i \<in> set (tv_frames s)) \<and> (tv_chunks s = [] \<or> flush_due s)"

definition queue_part :: "terminal \<Rightarrow> byte_array list \<times> nat \<times> nat option \<times> nat list \<times> bool" where
  "queue_part s = (tv_chunks s, tv_bytes s, tv_raf s, tv_frames s, tv_bgTimer s)"

definition term_inv :: "terminal \<times> byte_array \<Rightarrow> bool" where
  "term_inv sg \<longleftrightarrow> queue_ok (fst sg) \<and> written (fst sg) @ concat (tv_chunks (fst sg)) = snd sg"

lemma set_chunks_concat:
  "offset + length (concat cs) = length merged \<Longrightarrow> set_chunks cs offset merged = Some (take offset merged @ concat cs)"
proof (induction cs arbitrary: offset merged)
  case (Cons c cs)
  let ?m = "take offset merged @ c @ drop (offset + length c) merged"
  have "offset + length c + length (concat cs) = length ?m" using Cons.prems by simp
  from Cons.IH [OF this] Cons.prems show ?case by simp
qed simp

lemma written_do [simp]: "written (term_do cs s) = written s @ concat (map call_bytes cs)"
  by (simp add: written_def term_do_def)

lemma queue_do [simp]: "queue_part (term_do cs s) = queue_part s"
  by (simp add: queue_part_def term_do_def)

lemma flush_spec:
  assumes "tv_bytes s = length (concat (tv_chunks s))"
  shows "tv_chunks (flushOutput s) = [] \<and> tv_bytes (flushOutput s) = 0 \<and> tv_raf (flushOutput s) = None \<and>
    tv_bgTimer (flushOutput s) = False \<and> tv_frames (flushOutput s) = tv_frames s \<and> tv_active (flushOutput s) = tv_active s \<and>
    written (flushOutput s) = written s @ concat (tv_chunks s)"
proof -
  have "set_chunks (tv_chunks s) 0 (replicate (tv_bytes s) 0) = Some (concat (tv_chunks s))"
    using assms by (simp add: set_chunks_concat)
  then show ?thesis using assms
    by (cases "tv_chunks s" rule: remdups_adj.cases) (auto simp: flushOutput_def term_do_def written_def Let_def)
qed

lemma flush_inv:
  assumes "tv_bytes s = length (concat (tv_chunks s))" "written s @ concat (tv_chunks s) = log"
  shows "term_inv (flushOutput s, log)"
  using flush_spec [OF assms(1)] assms(2) by (simp add: term_inv_def queue_ok_def)

lemma inv_frame:
  assumes "term_inv (s, log)" "queue_part s' = queue_part s" "written s' = written s"
  shows "term_inv (s', log)"
  using assms by (simp add: term_inv_def queue_ok_def queue_part_def flush_due_def)

lemma data_inv:
  assumes "term_inv (s, log)"
  shows "term_inv (data_received native p s, log @ base64ToBytes native p)"
proof (cases "base64ToBytes native p = []")
  case True
  with assms show ?thesis by (simp add: data_received_def)
next
  case False
  let ?b = "base64ToBytes native p"
  let ?s = "s\<lparr>tv_chunks := tv_chunks s @ [?b], tv_bytes := tv_bytes s + length ?b\<rparr>"
  have inv: "tv_bytes s = length (concat (tv_chunks s))" "written s @ concat (tv_chunks s) = log"
      "\<forall>i. tv_raf s = Some i \<longrightarrow> i \<in> set (tv_frames s)"
    using assms by (auto simp: term_inv_def queue_ok_def)
  then have s: "tv_bytes ?s = length (concat (tv_chunks ?s))" "written ?s @ concat (tv_chunks ?s) = log @ ?b"
    by (auto simp: written_def)
  moreover have "tv_bytes (cancel_frame ?s) = length (concat (tv_chunks (cancel_frame ?s)))"
      "written (cancel_frame ?s) @ concat (tv_chunks (cancel_frame ?s)) = log @ ?b"
    using s by (auto simp: cancel_frame_def written_def split: option.split)
  moreover have "term_inv (request_frame ?s, log @ ?b)" if "tv_bytes ?s < 65536"
    using that s inv(3) by (auto simp: request_frame_def term_inv_def queue_ok_def flush_due_def written_def)
  moreover have "term_inv (?s\<lparr>tv_bgTimer := True\<rparr>, log @ ?b)" if "tv_bytes ?s < 131072"
    using that s inv(3) by (auto simp: term_inv_def queue_ok_def flush_due_def written_def)
  ultimately show ?thesis using False flush_inv by (simp add: data_received_def Let_def)
qed

lemmas plain_steps = render_active_def fit_timer_def onData_def term_backend_def debouncedResize_def resize_timer_def copy_done_def
  paste_begin_def paste_done_def key_pressed_def handleSearchNext_def handleSearchPrev_def handleSearchKeyDown_def
  handleSearchChange_def search_timer_def toggle_case_def setSearchOpen_def clear_terminal_def

lemma plain_step:
  assumes "case e of DataIn _ \<Rightarrow> False | ClosedIn _ _ \<Rightarrow> False | FrameFires _ \<Rightarrow> False | BgTimerFires \<Rightarrow> False
    | ActiveEffect \<Rightarrow> False | _ \<Rightarrow> True"
  shows "queue_part (term_step native s e) = queue_part s \<and> written (term_step native s e) = written s \<and> sent native e = []"
  using assms
  by (cases e) (auto simp: plain_steps queue_part_def term_do_def written_def Let_def split: option.split key_action.split prod.split)

lemma term_step_inv:
  assumes "term_inv (s, log)"
  shows "term_inv (term_step native s e, log @ sent native e)"
proof -
  have b: "tv_bytes s = length (concat (tv_chunks s))" and w: "written s @ concat (tv_chunks s) = log"
    using assms by (auto simp: term_inv_def queue_ok_def)
  have closed: "term_inv (closed_received t r s, log @ closed_line t r @ [13, 10])" for t r
    using flush_spec [OF b] w by (simp add: closed_received_def term_inv_def queue_ok_def term_do_def written_def)
  have frame: "term_inv (frame_fires i s, log)" for i
    using flush_inv [of "s\<lparr>tv_frames := removeAll i (tv_frames s)\<rparr>" log] b w assms by (simp add: frame_fires_def written_def)
  have timer: "term_inv (timer_fires s, log)"
    using flush_inv [OF b w] assms by (simp add: timer_fires_def)
  have "term_inv (flushOutput (s\<lparr>tv_fitTimer := False\<rparr>), log)"
    by (rule flush_inv) (use b w in \<open>simp_all add: written_def\<close>)
  from inv_frame [OF this, of "(flushOutput (s\<lparr>tv_fitTimer := False\<rparr>))\<lparr>tv_fitTimer := True\<rparr>"]
      inv_frame [OF assms, of "s\<lparr>tv_fitTimer := False\<rparr>"]
  have eff: "term_inv (active_effect s, log)"
    by (simp add: active_effect_def queue_part_def written_def)
  show ?thesis
  proof (cases "case e of DataIn _ \<Rightarrow> False | ClosedIn _ _ \<Rightarrow> False | FrameFires _ \<Rightarrow> False | BgTimerFires \<Rightarrow> False
      | ActiveEffect \<Rightarrow> False | _ \<Rightarrow> True")
    case True
    with plain_step [OF this, of native s] assms show ?thesis by (auto intro: inv_frame)
  next
    case False
    with data_inv [OF assms] closed frame timer eff show ?thesis by (cases e) simp_all
  qed
qed

interpretation term_view: transition_system "\<lambda>_ _. True" "logged_term native" term_inv for native
  by unfold_locales (auto simp: logged_term_def intro: term_step_inv)

lemma mount_inv: "term_inv (mount b c r, [])"
  by (simp add: term_inv_def queue_ok_def mount_def written_def)

lemma logged_run: "foldl (logged_term native) (s, log) es = (foldl (term_step native) s es, log @ concat (map (sent native) es))"
  by (induction es arbitrary: s log) (simp_all add: logged_term_def)

lemma term_run: "term_inv (foldl (term_step native) (mount b c r) es, concat (map (sent native) es))"
proof -
  have "run_steps (\<lambda>_ _. True) (logged_term native) (mount b c r, []) es =
      Some (foldl (term_step native) (mount b c r) es, concat (map (sent native) es))"
    by (simp add: run_total logged_run)
  from term_view.run_inv [OF mount_inv this] show ?thesis .
qed

subsection \<open>What reaches the emulator\<close>

text \<open>
  C11: whatever bytes the backend encodes and sends, and whatever else happens in between, the emulator has been handed
  exactly these bytes and the lines of a closed session, in order, up to what is still in the queue.
\<close>

theorem terminal_shows_what_was_sent:
  fixes ds :: "(byte_array + term_event) list"
  assumes "native_ok native" and "list_all (\<lambda>d. case d of Inl bs \<Rightarrow> list_all (\<lambda>b. b < 256) bs | Inr e \<Rightarrow> True) ds"
  shows "let s = foldl (term_step native) (mount active cols rows) (map (case_sum (\<lambda>bs. DataIn (bytesToBase64 bs)) id) ds)
    in written s @ concat (tv_chunks s) = concat (map (case_sum id (sent native)) ds)"
proof -
  have "map (sent native) (map (case_sum (\<lambda>bs. DataIn (bytesToBase64 bs)) id) ds) = map (case_sum id (sent native)) ds"
    using assms(1,2) by (auto simp: list_all_iff decode_encode split: sum.split)
  then show ?thesis
    using term_run [of native active cols rows "map (case_sum (\<lambda>bs. DataIn (bytesToBase64 bs)) id) ds"]
    by (simp only: term_inv_def Let_def fst_conv snd_conv)
qed

theorem terminal_shows_what_was_sent_witness:
  "let s = foldl (term_step None) (mount True 80 24)
     (map (case_sum (\<lambda>bs. DataIn (bytesToBase64 bs)) id) [Inl [104, 105], Inr (FrameFires 0), Inl [33], Inr (UserInput ''x'')])
   in written s @ concat (tv_chunks s) = [104, 105, 33]"
  using terminal_shows_what_was_sent [of None "[Inl [104, 105], Inr (FrameFires 0), Inl [33], Inr (UserInput ''x'')]" True 80 24]
  by (simp add: native_ok_def)

text \<open>
  C12: bytes in the queue are on their way: a frame or a timer that was requested and is still to come hands all of them over,
  and the queue never holds 128 KiB.
\<close>

theorem queue_drains:
  assumes "s = foldl (term_step native) (mount active cols rows) es"
  shows "(tv_chunks s = [] \<or> tv_bgTimer s \<or> (\<exists>i. tv_raf s = Some i \<and> i \<in> set (tv_frames s))) \<and>
    (tv_bgTimer s \<longrightarrow> written (timer_fires s) = written s @ concat (tv_chunks s)) \<and>
    (\<forall>i. i \<in> set (tv_frames s) \<longrightarrow> written (frame_fires i s) = written s @ concat (tv_chunks s)) \<and>
    length (concat (tv_chunks s)) < 131072"
proof -
  have q: "queue_ok s" using term_run [of native active cols rows es] unfolding assms by (simp add: term_inv_def)
  then have b: "tv_bytes s = length (concat (tv_chunks s))" by (simp add: queue_ok_def)
  have "written (frame_fires i s) = written s @ concat (tv_chunks s)" if "i \<in> set (tv_frames s)" for i
    using flush_spec [of "s\<lparr>tv_frames := removeAll i (tv_frames s)\<rparr>"] b that by (simp add: frame_fires_def written_def)
  moreover have "written (timer_fires s) = written s @ concat (tv_chunks s)" if "tv_bgTimer s"
    using flush_spec [OF b] that by (simp add: timer_fires_def)
  ultimately show ?thesis using q b by (auto simp: queue_ok_def flush_due_def)
qed

theorem queue_drains_witness:
  "let s = foldl (term_step None) (mount True 80 24) [DataIn (bytesToBase64 [104, 105])]
   in tv_chunks s = [[104, 105]] \<and> written (frame_fires 0 s) = written s @ concat (tv_chunks s)"
proof -
  have run: "foldl (term_step None) (mount True 80 24) [DataIn (bytesToBase64 [104, 105])] =
      (mount True 80 24)\<lparr>tv_chunks := [[104, 105]], tv_bytes := 2, tv_raf := Some 0, tv_frames := [0], tv_nextFrame := 1\<rparr>"
    by (simp add: data_received_def decode_encode native_ok_def mount_def request_frame_def Let_def)
  from queue_drains [OF refl, of None True 80 24 "[DataIn (bytesToBase64 [104, 105])]", unfolded run] show ?thesis
    unfolding Let_def run by simp
qed

text \<open>After the view is gone no frame and no timer that is still to come calls the emulator.\<close>

lemma unmounted_stays_quiet:
  "tv_calls (frame_fires i (unmount s)) = tv_calls s" "timer_fires (unmount s) = unmount s"
  "resize_timer (unmount s) = unmount s" "search_timer (unmount s) = unmount s" "fit_timer (unmount s) = unmount s"
  by (auto simp: unmount_def frame_fires_def timer_fires_def resize_timer_def search_timer_def fit_timer_def cancel_frame_def
      flushOutput_def Let_def split: option.split)

text \<open>
  The keys: the interrupt reaches the shell exactly when nothing is selected, and no key is both sent to the shell and
  taken for an action of the view.
\<close>

theorem interrupt_reaches_shell:
  assumes "ke_down e" "ke_key e = ''c''" "ke_ctrl e" "\<not> ke_shift e" "\<not> isMac"
  shows "snd (key_pressed isMac hasSelection now e s) \<longleftrightarrow> \<not> hasSelection"
  using assms by (simp add: key_pressed_def custom_key_def)

theorem interrupt_reaches_shell_witness:
  "snd (key_pressed False False 0 \<lparr>ke_down = True, ke_ctrl = True, ke_meta = False, ke_shift = False, ke_key = ''c''\<rparr> (mount True 80 24))"
  by (subst interrupt_reaches_shell) simp_all

end
