(* ===== verification/FileEditor.thy ===== *)
theory FileEditor
  imports JsError
begin

section \<open>The editor for remote files\<close>

text \<open>
  \<open>pages/ssh/file/FileEditorModal.tsx\<close>: the dialog that the file panel shows for a file. The component stays mounted;
  which file is open is a property it gets from the panel, with the function that closes it. Reading is an effect
  of these properties, and the panel hands down a new function with each of its renders. Each run of the effect has a
  number; the answer of a run that was cleaned up is dropped.
\<close>

subsection \<open>State\<close>

record file_editor =
  fe_file :: string \<comment> \<open>the property \<open>filePath\<close>; the dialog is open when it is not empty\<close>
  fe_content :: string
  fe_original :: string
  fe_loading :: bool
  fe_saving :: bool
  fe_run :: nat \<comment> \<open>the number of the latest run of the effect\<close>
  fe_mounted :: bool \<comment> \<open>its flag \<open>mounted\<close>\<close>
  fe_messages :: "(bool \<times> string) list" \<comment> \<open>whether it tells of a success, and the text\<close>

definition init_editor :: file_editor where
  "init_editor =
     \<lparr>fe_file = [], fe_content = [], fe_original = [], fe_loading = False, fe_saving = False, fe_run = 0,
      fe_mounted = False, fe_messages = []\<rparr>"

datatype file_editor_call =
    ReadRemoteFile nat string \<comment> \<open>with the number of the run\<close>
  | WriteRemoteFile string string

definition editor_modified :: "file_editor \<Rightarrow> bool" where
  "editor_modified s \<longleftrightarrow> fe_content s \<noteq> fe_original s"

definition base_name :: "string \<Rightarrow> string" where
  \<comment> \<open>\<open>filePath.split('/').pop()\<close>\<close>
  "base_name p = last (split_on ''/'' p)"

definition fileName :: "file_editor \<Rightarrow> string" where
  "fileName s = str_or (base_name (fe_file s)) (fe_file s)"

subsection \<open>Reading\<close>

definition read_effect :: "file_editor \<Rightarrow> file_editor \<times> file_editor_call list" where
  \<comment> \<open>the clean-up of the run before, and the effect\<close>
  "read_effect s =
     (if fe_file s = [] then (s\<lparr>fe_mounted := False\<rparr>, [])
      else let n = Suc (fe_run s) in
        (s\<lparr>fe_run := n, fe_mounted := True, fe_loading := True\<rparr>, [ReadRemoteFile n (fe_file s)]))"

definition render_editor :: "string \<Rightarrow> file_editor \<Rightarrow> file_editor \<times> file_editor_call list" where
  \<comment> \<open>the panel renders: with the file it has chosen, and with a new \<open>onClose\<close>\<close>
  "render_editor file s = read_effect (s\<lparr>fe_file := file\<rparr>)"

definition is_current :: "nat \<Rightarrow> file_editor \<Rightarrow> bool" where
  "is_current n s \<longleftrightarrow> fe_mounted s \<and> n = fe_run s"

definition read_done :: "nat \<Rightarrow> string \<Rightarrow> file_editor \<Rightarrow> file_editor" where
  "read_done n text s =
     (if is_current n s then s\<lparr>fe_content := text, fe_original := text, fe_loading := False\<rparr> else s)"

definition read_failed :: "translator \<Rightarrow> nat \<Rightarrow> js_error \<Rightarrow> file_editor \<Rightarrow> file_editor \<times> bool" where
  \<comment> \<open>whether \<open>onClose\<close> is called\<close>
  "read_failed t n e s =
     (if is_current n s
      then (s\<lparr>fe_messages := fe_messages s @
               [(False, t ''file:editor.readFileFailed'' [(''error'', errorMessage t e)])], fe_loading := False\<rparr>, True)
      else (s, False))"

subsection \<open>Editing and saving\<close>

definition edit_content :: "string \<Rightarrow> file_editor \<Rightarrow> file_editor" where
  "edit_content text s = (if fe_loading s then s else s\<lparr>fe_content := text\<rparr>)"

definition save_enabled :: "file_editor \<Rightarrow> bool" where
  \<comment> \<open>the button\<close>
  "save_enabled s \<longleftrightarrow> fe_file s \<noteq> [] \<and> \<not> fe_saving s \<and> editor_modified s"

definition handleSave_begin :: "file_editor \<Rightarrow> file_editor \<times> file_editor_call list" where
  "handleSave_begin s =
     (if fe_file s = [] \<or> fe_saving s then (s, [])
      else (s\<lparr>fe_saving := True\<rparr>, [WriteRemoteFile (fe_file s) (fe_content s)]))"

definition handleSave_done :: "translator \<Rightarrow> file_editor \<Rightarrow> file_editor \<Rightarrow> file_editor" where
  \<comment> \<open>\<open>c\<close> is the state in which the handler was made\<close>
  "handleSave_done t c s =
     s\<lparr>fe_original := fe_content c, fe_saving := False,
       fe_messages := fe_messages s @ [(True, t ''file:editor.savedFile'' [(''name'', base_name (fe_file c))])]\<rparr>"

definition handleSave_failed :: "translator \<Rightarrow> js_error \<Rightarrow> file_editor \<Rightarrow> file_editor" where
  "handleSave_failed t e s =
     s\<lparr>fe_saving := False,
       fe_messages := fe_messages s @ [(False, t ''file:editor.saveFileFailed'' [(''error'', errorMessage t e)])]\<rparr>"

end
