(* ===== verification/FilePanel.thy ===== *)
theory FilePanel
  imports FileEditor Base64
begin

section \<open>The file panel\<close>

text \<open>
  \<open>pages/ssh/file/FilePanel.tsx\<close>: the listing of a remote directory with its selection, the dialogs, uploads
  and downloads, and the list of transfers. Handlers are split at their awaits; an upload and a drop are
  machines of their own that are told what the backend answered. A dialog holds the path that was on screen when it was
  opened. The editor is that of \<open>FileEditor\<close>; every change of the panel's state renders the panel, and so the
  editor. The translated labels, the column layout and the drop from outside the browser are left out.
\<close>

subsection \<open>Data\<close>

record file_item =
  fi_name :: string
  fi_path :: string
  fi_isDir :: bool
  fi_isLink :: bool
  fi_size :: int
  fi_mode :: string
  fi_modTime :: int

record dir_listing =
  dl_path :: string
  dl_items :: "file_item list"

datatype transfer_status = Running | Done | Failed | Canceled

record transfer =
  tr_id :: string
  tr_sessionId :: string
  tr_upload :: bool \<comment> \<open>\<open>kind\<close>\<close>
  tr_name :: string
  tr_localPath :: string
  tr_remotePath :: string
  tr_size :: int
  tr_transferred :: int
  tr_status :: transfer_status
  tr_error :: string
  tr_startedAt :: int
  tr_updatedAt :: int

datatype file_prompt = \<comment> \<open>each with the path at the time\<close>
    NoPrompt
  | NewFile string
  | NewFolder string
  | Rename file_item string

record local_file = \<comment> \<open>a file dropped from the browser\<close>
  lf_name :: string
  lf_bytes :: byte_array

datatype file_confirm =
    NoConfirm
  | ConfirmDelete "string list" string
  | ConfirmUpload string "string list"
  | ConfirmDrop string local_file

datatype file_menu =
    ClosedMenu
  | ItemMenu file_item "string list" string \<comment> \<open>the item, the targets, and the path at the time\<close>
  | BlankMenu string

record file_panel =
  fp_session :: string
  fp_path :: string
  fp_pathInput :: string
  fp_items :: "file_item list"
  fp_selected :: "string list"
  fp_loading :: bool
  fp_showHidden :: bool
  fp_showTime :: bool
  fp_showMode :: bool
  fp_filter :: string
  fp_menu :: file_menu
  fp_prompt :: file_prompt
  fp_confirm :: file_confirm
  fp_editFilePath :: string
  fp_dragOver :: bool
  fp_lastIndex :: int
  fp_transfers :: "transfer list"
  fp_messages :: "string list" \<comment> \<open>\<open>message.error\<close>\<close>

datatype file_call =
    ListDir string
  | DownloadPaths "string list"
  | EstimateUpload string "string list"
  | UploadPaths string "string list"
  | EstimateUploadData string nat
  | UploadData string string units
  | WriteFile string string
  | MakeDir string string
  | RenameFile string string
  | RemovePaths "string list"
  | CancelTransfer string
  | ClearFinished

definition init_panel :: "string \<Rightarrow> string \<Rightarrow> file_panel" where
  "init_panel session homeDir =
     \<lparr>fp_session = session, fp_path = str_or homeDir ''/'', fp_pathInput = str_or homeDir ''/'', fp_items = [],
      fp_selected = [], fp_loading = False, fp_showHidden = False, fp_showTime = False, fp_showMode = False, fp_filter = [],
      fp_menu = ClosedMenu, fp_prompt = NoPrompt, fp_confirm = NoConfirm, fp_editFilePath = [], fp_dragOver = False,
      fp_lastIndex = -1, fp_transfers = [], fp_messages = []\<rparr>"

definition report :: "translator \<Rightarrow> js_error \<Rightarrow> file_panel \<Rightarrow> file_panel" where
  "report t e s = s\<lparr>fp_messages := fp_messages s @ [errorMessage t e]\<rparr>"

subsection \<open>Listing\<close>

definition load_begin :: "string \<Rightarrow> bool \<Rightarrow> file_panel \<Rightarrow> file_panel \<times> file_call list" where
  "load_begin target quiet s = (if quiet then s else s\<lparr>fp_loading := True\<rparr>, [ListDir target])"

definition load_done :: "dir_listing \<Rightarrow> file_panel \<Rightarrow> file_panel" where
  "load_done l s =
     s\<lparr>fp_items := dl_items l, fp_path := dl_path l, fp_pathInput := dl_path l, fp_selected := [], fp_loading := False\<rparr>"

definition load_failed :: "translator \<Rightarrow> js_error \<Rightarrow> file_panel \<Rightarrow> file_panel" where
  "load_failed t e s = (report t e s)\<lparr>fp_loading := False\<rparr>"

definition sftp_changed :: "string \<Rightarrow> string \<Rightarrow> file_panel \<Rightarrow> file_panel \<times> file_call list" where
  "sftp_changed session path s =
     (if session = fp_session s \<and> path = fp_path s then load_begin path True s else (s, []))"

definition parent_click :: "file_panel \<Rightarrow> file_panel \<times> file_call list" where
  "parent_click s = load_begin (parentRemote (fp_path s)) False s"

definition visible :: "file_panel \<Rightarrow> file_item list" where
  "visible s =
     (let kw = to_lower (trim (fp_filter s)) in
      filter (\<lambda>item. \<not> (\<not> fp_showHidden s \<and> starts_with (fi_name item) ''.'') \<and>
                \<not> (kw \<noteq> [] \<and> \<not> includes_str (to_lower (fi_name item)) kw)) (fp_items s))"

subsection \<open>Transfers\<close>

definition handleTransfer :: "transfer \<Rightarrow> file_panel \<Rightarrow> file_panel" where
  "handleTransfer t s =
     (if tr_id t = [] \<or> tr_sessionId t \<noteq> fp_session s then s
      else case find_index (\<lambda>x. tr_id x = tr_id t) (fp_transfers s) of
          Some i \<Rightarrow> s\<lparr>fp_transfers := (fp_transfers s)[i := t]\<rparr>
        | None \<Rightarrow> s\<lparr>fp_transfers := fp_transfers s @ [t]\<rparr>)"

definition transfers_listed :: "transfer list \<Rightarrow> file_panel \<Rightarrow> file_panel" where
  "transfers_listed l s = s\<lparr>fp_transfers := filter (\<lambda>x. tr_sessionId x = fp_session s) l\<rparr>"

definition clear_done :: "file_panel \<Rightarrow> file_panel" where
  "clear_done s = s\<lparr>fp_transfers := filter (\<lambda>t. tr_status t = Running) (fp_transfers s)\<rparr>"

subsection \<open>Selection\<close>

definition onRowClick :: "bool \<Rightarrow> bool \<Rightarrow> file_item \<Rightarrow> nat \<Rightarrow> file_panel \<Rightarrow> file_panel" where
  \<comment> \<open>whether Shift is held, and whether Ctrl or Meta is\<close>
  "onRowClick shift ctrl item index s =
     (if shift \<and> fp_lastIndex s \<ge> 0 then
        let last = nat (fp_lastIndex s); from = min last index; to = max last index in
        s\<lparr>fp_selected := map fi_path (take (to + 1 - from) (drop from (visible s)))\<rparr>
      else if ctrl then
        s\<lparr>fp_selected := (if fi_path item \<in> set (fp_selected s) then filter (\<lambda>p. p \<noteq> fi_path item) (fp_selected s)
                          else fp_selected s @ [fi_path item]), fp_lastIndex := int index\<rparr>
      else s\<lparr>fp_selected := [fi_path item], fp_lastIndex := int index\<rparr>)"

definition askEdit :: "file_item \<Rightarrow> file_panel \<Rightarrow> file_panel" where
  "askEdit item s = (if fi_isDir item then s else s\<lparr>fp_editFilePath := fi_path item\<rparr>)"

definition open_item :: "file_item \<Rightarrow> file_panel \<Rightarrow> file_panel \<times> file_call list" where
  "open_item item s = (if fi_isDir item then load_begin (fi_path item) False s else (askEdit item s, []))"

definition clear_selection :: "file_panel \<Rightarrow> file_panel" where
  "clear_selection s = s\<lparr>fp_selected := []\<rparr>"

definition row_menu :: "file_item \<Rightarrow> file_panel \<Rightarrow> file_panel" where
  "row_menu item s =
     (let inside = fi_path item \<in> set (fp_selected s);
          targets = (if inside then fp_selected s else [fi_path item])
      in (if inside then s else s\<lparr>fp_selected := [fi_path item]\<rparr>)\<lparr>fp_menu := ItemMenu item targets (fp_path s)\<rparr>)"

definition blank_menu :: "file_panel \<Rightarrow> file_panel" where
  "blank_menu s = s\<lparr>fp_selected := [], fp_menu := BlankMenu (fp_path s)\<rparr>"

subsection \<open>Dialogs\<close>

definition prompt_value :: "file_prompt \<Rightarrow> string" where
  "prompt_value p =
     (case p of NewFile _ \<Rightarrow> ''new-file.txt'' | NewFolder _ \<Rightarrow> ''new-folder'' | Rename item _ \<Rightarrow> fi_name item | NoPrompt \<Rightarrow> [])"

definition submit_prompt :: "string \<Rightarrow> file_panel \<Rightarrow> file_panel \<times> (file_call \<times> string) option" where
  \<comment> \<open>the submit of \<open>PromptModal\<close> and \<open>onConfirm\<close>: the call, and the path that is listed after it\<close>
  "submit_prompt input s =
     (let value = trim input; s1 = s\<lparr>fp_prompt := NoPrompt\<rparr> in
      if value = [] then (s, None)
      else case fp_prompt s of
          NoPrompt \<Rightarrow> (s, None)
        | NewFile path \<Rightarrow>
            (s1, Some (WriteFile (if ends_with path ''/'' then path @ value else path @ ''/'' @ value) [], path))
        | NewFolder path \<Rightarrow> (s1, Some (MakeDir path value, path))
        | Rename item path \<Rightarrow> (s1, Some (RenameFile (fi_path item) value, path)))"

definition askDelete :: "string list \<Rightarrow> string \<Rightarrow> file_panel \<Rightarrow> file_panel" where
  "askDelete paths path s = (if paths = [] then s else s\<lparr>fp_confirm := ConfirmDelete paths path\<rparr>)"

definition change_done :: "string \<Rightarrow> file_panel \<Rightarrow> file_panel \<times> file_call list" where
  \<comment> \<open>after the call of a dialog: \<open>load(path, true)\<close>\<close>
  "change_done path s = load_begin path True s"

definition menu_delete :: "file_panel \<Rightarrow> file_panel" where
  \<comment> \<open>the entry of the menu, which closes it\<close>
  "menu_delete s =
     (case fp_menu s of ItemMenu item targets path \<Rightarrow> (askDelete targets path s)\<lparr>fp_menu := ClosedMenu\<rparr> | _ \<Rightarrow> s)"

definition menu_download :: "file_panel \<Rightarrow> file_panel \<times> file_call list" where
  "menu_download s =
     (case fp_menu s of
        ItemMenu item targets path \<Rightarrow> (s\<lparr>fp_menu := ClosedMenu\<rparr>, if targets = [] then [] else [DownloadPaths targets])
      | _ \<Rightarrow> (s, []))"

definition menu_rename :: "file_panel \<Rightarrow> file_panel" where
  "menu_rename s =
     (case fp_menu s of
        ItemMenu item targets path \<Rightarrow>
          if length targets > 1 then s else s\<lparr>fp_menu := ClosedMenu, fp_prompt := Rename item path\<rparr>
      | _ \<Rightarrow> s)"

definition menu_new :: "bool \<Rightarrow> file_panel \<Rightarrow> file_panel" where
  \<comment> \<open>a new folder or a new file\<close>
  "menu_new folder s =
     (let new = (\<lambda>path. s\<lparr>fp_menu := ClosedMenu, fp_prompt := if folder then NewFolder path else NewFile path\<rparr>) in
      case fp_menu s of ItemMenu _ _ path \<Rightarrow> new path | BlankMenu path \<Rightarrow> new path | ClosedMenu \<Rightarrow> s)"

subsection \<open>Uploads\<close>

datatype upload_phase = Estimating | Uploading | Retrying

datatype backend_answer =
    Estimate bool \<comment> \<open>\<open>isInsufficient\<close>\<close>
  | Okay
  | Fails js_error

record upload_run =
  up_dir :: string
  up_paths :: "string list"
  up_phase :: upload_phase

definition safeUploadPaths :: "string \<Rightarrow> string list \<Rightarrow> upload_run option \<times> file_call list" where
  "safeUploadPaths dir paths =
     (if paths = [] then (None, [])
      else (Some \<lparr>up_dir = dir, up_paths = paths, up_phase = Estimating\<rparr>, [EstimateUpload dir paths]))"

fun upload_step :: "translator \<Rightarrow> upload_run \<Rightarrow> backend_answer \<Rightarrow> file_panel \<Rightarrow> upload_run option \<times> file_call list \<times> file_panel" where
  \<comment> \<open>the first upload is inside the \<open>try\<close>, whose \<open>catch\<close> uploads again\<close>
  "upload_step t u ans s =
     (case (up_phase u, ans) of
        (Estimating, Estimate True) \<Rightarrow> (None, [], s\<lparr>fp_confirm := ConfirmUpload (up_dir u) (up_paths u)\<rparr>)
      | (Estimating, Estimate False) \<Rightarrow> (Some (u\<lparr>up_phase := Uploading\<rparr>), [UploadPaths (up_dir u) (up_paths u)], s)
      | (Retrying, Fails e) \<Rightarrow> (None, [], report t e s)
      | (_, Fails e) \<Rightarrow> (Some (u\<lparr>up_phase := Retrying\<rparr>), [UploadPaths (up_dir u) (up_paths u)], s)
      | _ \<Rightarrow> (None, [], s))"

fun run_upload :: "translator \<Rightarrow> upload_run option \<times> file_call list \<Rightarrow> backend_answer list \<Rightarrow> file_panel \<Rightarrow>
    (upload_run option \<times> file_call list) \<times> file_panel" where
  "run_upload t (Some u, cs) (a # as) s =
     (let (u', cs', s') = upload_step t u a s in run_upload t (u', cs @ cs') as s')"
| "run_upload t r _ s = (r, s)"

definition upload_dialog :: "string list option \<Rightarrow> string \<Rightarrow> upload_run option \<times> file_call list" where
  \<comment> \<open>what the dialog for files or for a folder answered, and the path when it was opened\<close>
  "upload_dialog files path = (case files of None \<Rightarrow> (None, []) | Some fs \<Rightarrow> safeUploadPaths path fs)"

definition confirm_click :: "file_panel \<Rightarrow> file_panel \<times> file_call list" where
  "confirm_click s =
     (case fp_confirm s of
        NoConfirm \<Rightarrow> (s, [])
      | ConfirmDelete paths path \<Rightarrow> (s\<lparr>fp_confirm := NoConfirm\<rparr>, [RemovePaths paths])
      | ConfirmUpload dir paths \<Rightarrow> (s\<lparr>fp_confirm := NoConfirm\<rparr>, [UploadPaths dir paths])
      | ConfirmDrop path f \<Rightarrow> (s\<lparr>fp_confirm := NoConfirm\<rparr>, [UploadData path (lf_name f) (bytesToBase64 (lf_bytes f))]))"

subsection \<open>Files dropped from the browser\<close>

record drop_run =
  dp_path :: string
  dp_files :: "local_file list" \<comment> \<open>the one in hand and those after it\<close>
  dp_phase :: upload_phase

definition next_drop :: "string \<Rightarrow> local_file list \<Rightarrow> drop_run option \<times> file_call list" where
  "next_drop path files =
     (case files of
        [] \<Rightarrow> (None, [])
      | f # _ \<Rightarrow> (Some \<lparr>dp_path = path, dp_files = files, dp_phase = Estimating\<rparr>, [EstimateUploadData path (length (lf_bytes f))]))"

definition onDrop :: "bool \<Rightarrow> local_file list \<Rightarrow> file_panel \<Rightarrow> (drop_run option \<times> file_call list) \<times> file_panel" where
  "onDrop nativeDrop files s =
     (if nativeDrop then ((None, []), s) else (next_drop (fp_path s) files, s\<lparr>fp_dragOver := False\<rparr>))"

fun drop_step :: "translator \<Rightarrow> drop_run \<Rightarrow> backend_answer \<Rightarrow> file_panel \<Rightarrow> (drop_run option \<times> file_call list) \<times> file_panel" where
  "drop_step t d ans s =
     (case dp_files d of
        [] \<Rightarrow> ((None, []), s)
      | f # rest \<Rightarrow>
          (let after = next_drop (dp_path d) rest;
               data = UploadData (dp_path d) (lf_name f) (bytesToBase64 (lf_bytes f)) in
           case (dp_phase d, ans) of
             (Estimating, Estimate True) \<Rightarrow> (after, s\<lparr>fp_confirm := ConfirmDrop (dp_path d) f\<rparr>)
           | (Estimating, Estimate False) \<Rightarrow> ((Some (d\<lparr>dp_phase := Uploading\<rparr>), [data]), s)
           | (Retrying, Fails e) \<Rightarrow> (after, report t e s)
           | (_, Fails e) \<Rightarrow> ((Some (d\<lparr>dp_phase := Retrying\<rparr>), [data]), s)
           | _ \<Rightarrow> (after, s)))"

fun run_drop :: "translator \<Rightarrow> drop_run option \<times> file_call list \<Rightarrow> backend_answer list \<Rightarrow> file_panel \<Rightarrow>
    (drop_run option \<times> file_call list) \<times> file_panel" where
  "run_drop t (Some d, cs) (a # as) s =
     (let ((d', cs'), s') = drop_step t d a s in run_drop t (d', cs @ cs') as s')"
| "run_drop t r _ s = (r, s)"

subsection \<open>The panel and its editor\<close>

definition with_editor :: "(file_panel \<Rightarrow> file_panel) \<Rightarrow> file_panel \<times> file_editor \<Rightarrow> (file_panel \<times> file_editor) \<times> file_editor_call list" where
  \<comment> \<open>a change of the panel renders it, and with it the editor\<close>
  "with_editor f = (\<lambda>(p, e).
     let p' = f p in
     if p' = p then ((p, e), [])
     else let (e', cs) = render_editor (fp_editFilePath p') e in ((p', e'), cs))"

definition close_file_editor :: "file_panel \<Rightarrow> file_panel" where
  \<comment> \<open>the \<open>onClose\<close> that is handed to the editor\<close>
  "close_file_editor p = p\<lparr>fp_editFilePath := []\<rparr>"

subsection \<open>Transfers: the latest state of each\<close>

definition own_transfers :: "string \<Rightarrow> transfer list \<Rightarrow> transfer list" where
  "own_transfers session us = filter (\<lambda>t. tr_id t \<noteq> [] \<and> tr_sessionId t = session) us"

definition latest_states :: "transfer list \<Rightarrow> transfer list" where
  \<comment> \<open>one entry for each id, in the order in which the ids came up, with the last thing that was said of it\<close>
  "latest_states us = map (\<lambda>i. last (filter (\<lambda>t. tr_id t = i) us)) (rev (remdups (rev (map tr_id us))))"

lemma latest_states_snoc:
  "latest_states (us @ [t]) =
     (case find_index (\<lambda>x. tr_id x = tr_id t) (latest_states us) of
        Some i \<Rightarrow> (latest_states us)[i := t]
      | None \<Rightarrow> latest_states us @ [t])"
proof -
  let ?ids = "rev (remdups (rev (map tr_id us)))"
  let ?f = "\<lambda>i. last (filter (\<lambda>t. tr_id t = i) us)"
  let ?g = "\<lambda>i. last (filter (\<lambda>t. tr_id t = i) (us @ [t]))"
  have id: "tr_id (?f i) = i" if "i \<in> set ?ids" for i
  proof -
    have "filter (\<lambda>t. tr_id t = i) us \<noteq> []" using that by (auto simp: filter_empty_conv)
    from last_in_set [OF this] show ?thesis by simp
  qed
  have g: "?g i = (if i = tr_id t then t else ?f i)" for i by simp
  show ?thesis
  proof (cases "tr_id t \<in> set (map tr_id us)")
    case False
    then have "find_index (\<lambda>x. tr_id x = tr_id t) (latest_states us) = None"
      using id by (auto simp: find_index_None latest_states_def) (metis image_eqI)
    moreover have "latest_states (us @ [t]) = map ?g (?ids @ [tr_id t])"
      using False by (auto simp: latest_states_def)
    moreover have "map ?g ?ids = map ?f ?ids" using False by (intro map_cong) (auto simp: g)
    ultimately show ?thesis by (simp add: latest_states_def)
  next
    case True
    then obtain i where i: "i < length ?ids" "?ids ! i = tr_id t" by (metis in_set_conv_nth set_remdups set_rev)
    have "find_index (\<lambda>x. tr_id x = tr_id t) (latest_states us) = Some i"
    proof (rule find_index_nth_eqI)
      show "i < length (latest_states us)" using i by (simp add: latest_states_def)
      show "tr_id (latest_states us ! i) = tr_id t" using i id nth_mem [OF i(1)] by (simp add: latest_states_def)
      fix j assume "j < i"
      then have "?ids ! j \<noteq> ?ids ! i" using i(1) by (simp add: nth_eq_iff_index_eq)
      with i \<open>j < i\<close> id [OF nth_mem, of j] show "tr_id (latest_states us ! j) \<noteq> tr_id t"
        by (simp add: latest_states_def)
    qed
    moreover have "latest_states (us @ [t]) = map ?g ?ids" using True by (auto simp: latest_states_def)
    moreover have "map ?g ?ids = (map ?f ?ids)[i := t]"
      by (rule nth_equalityI) (use i in \<open>auto simp: g nth_list_update nth_eq_iff_index_eq [of ?ids, symmetric]\<close>)
    ultimately show ?thesis by (simp add: latest_states_def)
  qed
qed

lemma own_snoc:
  "own_transfers session (us @ [t]) =
     (if tr_id t \<noteq> [] \<and> tr_sessionId t = session then own_transfers session us @ [t] else own_transfers session us)"
  by (simp add: own_transfers_def)

lemma transfers_session: "fp_session (foldl (\<lambda>s t. handleTransfer t s) s us) = fp_session s"
  by (induction us arbitrary: s) (simp_all add: handleTransfer_def split: option.split)

lemma handle_transfers:
  "fp_transfers (handleTransfer t s) =
     (if tr_id t = [] \<or> tr_sessionId t \<noteq> fp_session s then fp_transfers s
      else case find_index (\<lambda>x. tr_id x = tr_id t) (fp_transfers s) of
          Some i \<Rightarrow> (fp_transfers s)[i := t]
        | None \<Rightarrow> fp_transfers s @ [t])"
  by (simp add: handleTransfer_def split: option.split)

text \<open>
  After any sequence of progress and update events the list has one entry for each transfer of the session, in the order in
  which they came up, with the latest state of each.
\<close>

theorem transfer_list_is_latest:
  assumes "fp_transfers s = []"
  shows "fp_transfers (foldl (\<lambda>s t. handleTransfer t s) s us) = latest_states (own_transfers (fp_session s) us)"
proof (induction us rule: rev_induct)
  case Nil
  show ?case using assms by (simp add: latest_states_def own_transfers_def)
next
  case (snoc t us)
  then show ?case
    by (simp add: own_snoc latest_states_snoc handle_transfers transfers_session split: option.split)
qed

subsection \<open>Selection\<close>

definition wf_selection :: "file_panel \<Rightarrow> bool" where
  "wf_selection s \<longleftrightarrow> set (fp_selected s) \<subseteq> fi_path ` set (fp_items s)"

lemma visible_items: "set (visible s) \<subseteq> set (fp_items s)"
  by (auto simp: visible_def Let_def)

lemma click_selects:
  assumes "wf_selection s" "item \<in> set (visible s)"
  shows "wf_selection (onRowClick shift ctrl item index s)"
proof -
  have "set (take n (drop m (visible s))) \<subseteq> set (fp_items s)" for n m
    using visible_items [of s] by (meson in_set_dropD in_set_takeD subset_iff)
  then show ?thesis using assms visible_items [of s]
    by (auto simp: wf_selection_def onRowClick_def Let_def)
qed

text \<open>
  The targets of the menu of a row, and with them what is deleted after the confirmation, are the whole selection, also
  what the filter or the switch for hidden files has taken off the screen since.
\<close>

theorem hidden_selection_deleted:
  assumes "p \<in> set (fp_selected s)" and "fi_path item \<in> set (fp_selected s)"
    and "p \<notin> fi_path ` set (visible (s\<lparr>fp_filter := kw\<rparr>))"
  shows "\<exists>paths. snd (confirm_click (menu_delete (row_menu item (s\<lparr>fp_filter := kw\<rparr>)))) = [RemovePaths paths] \<and> p \<in> set paths"
  using assms by (auto simp: row_menu_def menu_delete_def askDelete_def confirm_click_def Let_def)

theorem anchor_survives_navigation:
  assumes "fp_lastIndex s = int i" "i \<le> k"
  shows "fp_selected (onRowClick True ctrl item k (load_done l s)) = map fi_path (take (k + 1 - i) (drop i (visible (load_done l s))))"
  using assms by (simp add: onRowClick_def load_done_def Let_def)

subsection \<open>Uploads\<close>

text \<open>An upload that fails is started a second time, since the \<open>catch\<close> that is meant for the estimate covers it too.\<close>

theorem failed_upload_repeated:
  assumes "paths \<noteq> []"
  shows "snd (fst (run_upload t (safeUploadPaths dir paths) [Estimate False, Fails e, Okay] s)) =
    [EstimateUpload dir paths, UploadPaths dir paths, UploadPaths dir paths]"
  using assms by (simp add: safeUploadPaths_def)

lemma drops_ask:
  "run_drop t (fst (next_drop path files), cs) (replicate (length files) (Estimate True)) s =
     ((None, cs @ map (\<lambda>f. EstimateUploadData path (length (lf_bytes f))) (tl files)),
      if files = [] then s else s\<lparr>fp_confirm := ConfirmDrop path (last files)\<rparr>)"
proof (induction files arbitrary: s cs)
  case Nil
  show ?case by (simp add: next_drop_def)
next
  case (Cons f files)
  have "run_drop t (fst (next_drop path (f # files)), cs) (replicate (length (f # files)) (Estimate True)) s =
      run_drop t (fst (next_drop path files), cs @ snd (next_drop path files)) (replicate (length files) (Estimate True))
        (s\<lparr>fp_confirm := ConfirmDrop path f\<rparr>)"
    by (cases files) (simp_all add: next_drop_def)
  then show ?case unfolding Cons.IH by (cases files) (simp_all add: next_drop_def)
qed

text \<open>
  When several files are dropped for which there is no room, only the last one is asked about, and nothing is left
  that would upload the others.
\<close>

theorem only_last_drop_asked:
  assumes "files \<noteq> []"
  shows "run_drop t (next_drop path files) (replicate (length files) (Estimate True)) s =
    ((None, map (\<lambda>f. EstimateUploadData path (length (lf_bytes f))) files), s\<lparr>fp_confirm := ConfirmDrop path (last files)\<rparr>)"
  using assms drops_ask [of t path files "snd (next_drop path files)" s] by (cases files) (simp_all add: next_drop_def)

subsection \<open>The editor in the panel\<close>

text \<open>
  An edit in the editor is lost when anything else in the panel changes, the progress of a transfer for example: the
  panel renders, the editor reads the file again, and the answer takes the place of the text.
\<close>

theorem transfer_progress_discards_edit:
  assumes "fp_editFilePath p = f" "f \<noteq> []" "fe_file e = f" "\<not> fe_loading e" and "handleTransfer u p \<noteq> p"
  shows "\<exists>e' n. with_editor (handleTransfer u) (p, edit_content typed e) = ((handleTransfer u p, e'), [ReadRemoteFile n f]) \<and>
    fe_content e' = typed \<and> fe_content (read_done n text e') = text \<and> fe_original (read_done n text e') = text"
proof -
  have "fp_editFilePath (handleTransfer u p) = f" using assms(1) by (simp add: handleTransfer_def split: option.split)
  then show ?thesis using assms
    by (auto simp: with_editor_def render_editor_def read_effect_def edit_content_def read_done_def is_current_def Let_def)
qed

text \<open>
  C34: while a file is being read the editor still holds the file before. With unsaved edits in it the button is enabled, and
  saving writes the text of the one file into the other.
\<close>

theorem save_while_loading_writes_other_file:
  assumes "fe_file e = f" "f \<noteq> g" "g \<noteq> []" "fp_editFilePath p = f" "f \<noteq> []" "editor_modified e" "\<not> fe_saving e"
    and "with_editor close_file_editor (p, e) = ((p1, e1), cs1)"
    and "with_editor (\<lambda>p. p\<lparr>fp_editFilePath := g\<rparr>) (p1, e1) = ((p2, e2), cs2)"
  shows "save_enabled e2 \<and> fe_loading e2 \<and> snd (handleSave_begin e2) = [WriteRemoteFile g (fe_content e)]"
proof -
  have "close_file_editor p \<noteq> p" using assms(4,5) by (cases p) (auto simp: close_file_editor_def)
  then have e1: "p1 = close_file_editor p" "e1 = fst (render_editor [] e)"
    using assms(8) by (auto simp: with_editor_def Let_def close_file_editor_def split: prod.splits)
  then have "p1\<lparr>fp_editFilePath := g\<rparr> \<noteq> p1" using assms(3) by (cases p) (auto simp: close_file_editor_def)
  then have "e2 = fst (render_editor g e1)" using assms(9) by (auto simp: with_editor_def Let_def split: prod.splits)
  then show ?thesis using assms e1
    by (simp add: render_editor_def read_effect_def save_enabled_def editor_modified_def handleSave_begin_def Let_def)
qed

text \<open>
  A file that is opened, read and edited without such a disturbance is saved with exactly the text on screen, and is then
  unmodified.
\<close>

theorem open_edit_save:
  assumes "f \<noteq> []" "\<not> fe_saving e" and "render_editor f e = (e1, [ReadRemoteFile n f])"
    and "e2 = foldl (\<lambda>e typed. edit_content typed e) (read_done n text e1) edits"
  shows "fe_content e2 = last (text # edits) \<and> snd (handleSave_begin e2) = [WriteRemoteFile f (fe_content e2)] \<and>
    \<not> editor_modified (handleSave_done t e2 (fst (handleSave_begin e2)))"
proof -
  have e1: "fe_file e1 = f" "fe_run e1 = n" "fe_mounted e1" "\<not> fe_saving e1"
    using assms(1-3) by (auto simp: render_editor_def read_effect_def Let_def)
  have "fe_file e2 = f \<and> \<not> fe_saving e2 \<and> \<not> fe_loading e2 \<and> fe_content e2 = last (text # edits)"
    unfolding assms(4) using e1
    by (induction edits rule: rev_induct) (auto simp: read_done_def is_current_def edit_content_def)
  then show ?thesis using assms(1) by (auto simp: handleSave_begin_def handleSave_done_def editor_modified_def)
qed

subsection \<open>Runs of the panel\<close>

datatype panel_event =
    Load string bool
  | Loaded dir_listing
  | LoadFailed js_error
  | SftpChanged string string
  | ParentClick
  | TransferEvent transfer
  | TransfersListed "transfer list"
  | TransfersCleared
  | RowClick bool bool nat
  | RowOpen nat
  | RowMenu nat
  | BlankMenuOpen
  | BlankClick
  | MenuDelete
  | MenuDownload
  | MenuRename
  | MenuNew bool
  | PromptSubmit string
  | ConfirmClick
  | UploadAnswer upload_run backend_answer
  | DropAnswer drop_run backend_answer
  | DropFiles bool "local_file list"
  | CloseEditor
  | CallFailed js_error
  | SetView "file_panel \<Rightarrow> file_panel" \<comment> \<open>the path and the filter that are typed, the switches, and closing a dialog\<close>

fun panel_step :: "translator \<Rightarrow> file_panel \<Rightarrow> panel_event \<Rightarrow> file_panel" where
  "panel_step t s (Load target quiet) = fst (load_begin target quiet s)"
| "panel_step t s (Loaded l) = load_done l s"
| "panel_step t s (LoadFailed e) = load_failed t e s"
| "panel_step t s (SftpChanged session path) = fst (sftp_changed session path s)"
| "panel_step t s ParentClick = fst (parent_click s)"
| "panel_step t s (TransferEvent u) = handleTransfer u s"
| "panel_step t s (TransfersListed l) = transfers_listed l s"
| "panel_step t s TransfersCleared = clear_done s"
| "panel_step t s (RowClick shift ctrl i) = onRowClick shift ctrl (visible s ! i) i s"
| "panel_step t s (RowOpen i) = fst (open_item (visible s ! i) s)"
| "panel_step t s (RowMenu i) = row_menu (visible s ! i) s"
| "panel_step t s BlankMenuOpen = blank_menu s"
| "panel_step t s BlankClick = clear_selection s"
| "panel_step t s MenuDelete = menu_delete s"
| "panel_step t s MenuDownload = fst (menu_download s)"
| "panel_step t s MenuRename = menu_rename s"
| "panel_step t s (MenuNew folder) = menu_new folder s"
| "panel_step t s (PromptSubmit input) = fst (submit_prompt input s)"
| "panel_step t s ConfirmClick = fst (confirm_click s)"
| "panel_step t s (UploadAnswer u a) = snd (snd (upload_step t u a s))"
| "panel_step t s (DropAnswer d a) = snd (drop_step t d a s)"
| "panel_step t s (DropFiles native files) = snd (onDrop native files s)"
| "panel_step t s CloseEditor = close_file_editor s"
| "panel_step t s (CallFailed e) = report t e s"
| "panel_step t s (SetView f) = f s"

definition data_part :: "file_panel \<Rightarrow> string \<times> file_item list \<times> string list \<times> transfer list \<times> string" where
  "data_part s = (fp_session s, fp_items s, fp_selected s, fp_transfers s, fp_path s)"

definition panel_enabled :: "file_panel \<Rightarrow> panel_event \<Rightarrow> bool" where
  \<comment> \<open>only rows on screen can be clicked; the backend lists a transfer once\<close>
  "panel_enabled s e \<longleftrightarrow>
     (case e of
        RowClick _ _ i \<Rightarrow> i < length (visible s) | RowOpen i \<Rightarrow> i < length (visible s) | RowMenu i \<Rightarrow> i < length (visible s)
      | TransfersListed l \<Rightarrow> distinct (map tr_id l)
      | SetView f \<Rightarrow> data_part (f s) = data_part s
      | _ \<Rightarrow> True)"

definition panel_inv :: "file_panel \<Rightarrow> bool" where
  "panel_inv s \<longleftrightarrow>
     wf_selection s \<and> distinct (map tr_id (fp_transfers s)) \<and> list_all (\<lambda>t. tr_sessionId t = fp_session s) (fp_transfers s)"

lemma transfer_frame: "data_part (handleTransfer u s) = data_part (s\<lparr>fp_transfers := fp_transfers (handleTransfer u s)\<rparr>)"
  by (simp add: handleTransfer_def data_part_def split: option.split)

lemma inv_data: "data_part s = data_part s' \<Longrightarrow> panel_inv s = panel_inv s'"
  by (simp add: data_part_def panel_inv_def wf_selection_def)

lemma transfer_inv:
  assumes "panel_inv s"
  shows "panel_inv (handleTransfer u s)"
proof -
  let ?l = "fp_transfers (handleTransfer u s)"
  have "distinct (map tr_id ?l) \<and> list_all (\<lambda>t. tr_sessionId t = fp_session s) ?l"
  proof (cases "find_index (\<lambda>x. tr_id x = tr_id u) (fp_transfers s)")
    case None
    then have "tr_id u \<notin> set (map tr_id (fp_transfers s))" by (auto simp: find_index_None)
    with None assms show ?thesis by (simp add: panel_inv_def handle_transfers)
  next
    case (Some i)
    then have "i < length (fp_transfers s)" "tr_id (fp_transfers s ! i) = tr_id u" by (auto dest: find_index_SomeD)
    then have "map tr_id ((fp_transfers s)[i := u]) = map tr_id (fp_transfers s)"
      by (metis list_update_id map_update nth_map)
    moreover have "list_all (\<lambda>t. tr_sessionId t = fp_session s) ((fp_transfers s)[i := u])" if "tr_sessionId u = fp_session s"
      using that assms set_update_subset_insert [of "fp_transfers s" i u] by (auto simp: panel_inv_def list_all_iff)
    ultimately show ?thesis using Some assms by (simp add: panel_inv_def handle_transfers del: map_update)
  qed
  with assms have "panel_inv (s\<lparr>fp_transfers := ?l\<rparr>)" by (simp add: panel_inv_def wf_selection_def)
  then show ?thesis using inv_data [OF transfer_frame] by blast
qed

lemma upload_frame: "data_part (snd (snd (upload_step t u a s))) = data_part s"
  by (auto simp: data_part_def report_def split: upload_phase.split backend_answer.split bool.split)

lemma drop_frame: "data_part (snd (drop_step t d a s)) = data_part s"
  by (auto simp: data_part_def report_def Let_def split: list.split upload_phase.split backend_answer.split bool.split)

lemmas panel_defs = load_begin_def load_failed_def sftp_changed_def parent_click_def menu_delete_def askDelete_def
  menu_download_def menu_rename_def menu_new_def submit_prompt_def confirm_click_def onDrop_def close_file_editor_def
  report_def open_item_def askEdit_def Let_def

lemma panel_frame:
  assumes "panel_enabled s e"
    and "case e of Loaded _ \<Rightarrow> False | TransferEvent _ \<Rightarrow> False | TransfersListed _ \<Rightarrow> False | TransfersCleared \<Rightarrow> False
      | RowClick _ _ _ \<Rightarrow> False | RowMenu _ \<Rightarrow> False | BlankMenuOpen \<Rightarrow> False | BlankClick \<Rightarrow> False | _ \<Rightarrow> True"
  shows "data_part (panel_step t s e) = data_part s"
  using assms
  by (cases e) (auto simp: panel_enabled_def upload_frame drop_frame simp del: upload_step.simps drop_step.simps,
      auto simp: data_part_def panel_defs split: file_menu.split file_confirm.split file_prompt.split)

lemma panel_step_inv:
  assumes "panel_inv s" "panel_enabled s e"
  shows "panel_inv (panel_step t s e)"
proof (cases "case e of Loaded _ \<Rightarrow> False | TransferEvent _ \<Rightarrow> False | TransfersListed _ \<Rightarrow> False | TransfersCleared \<Rightarrow> False
      | RowClick _ _ _ \<Rightarrow> False | RowMenu _ \<Rightarrow> False | BlankMenuOpen \<Rightarrow> False | BlankClick \<Rightarrow> False | _ \<Rightarrow> True")
  case True
  from inv_data [OF panel_frame [OF assms(2) this, of t]] assms(1) show ?thesis by simp
next
  case False
  have vis: "visible s ! i \<in> set (visible s)" if "i < length (visible s)" for i using that by simp
  have row: "panel_inv (onRowClick shift ctrl (visible s ! i) i s)" if "i < length (visible s)" for shift ctrl i
    using click_selects [OF _ vis [OF that], of shift ctrl i] assms(1)
    by (auto simp: panel_inv_def onRowClick_def Let_def)
  have menu: "panel_inv (row_menu (visible s ! i) s)" if "i < length (visible s)" for i
    using vis [OF that] visible_items [of s] assms(1) by (auto simp: panel_inv_def wf_selection_def row_menu_def Let_def)
  have other: "panel_inv (load_done l s)" "panel_inv (clear_done s)" "panel_inv (blank_menu s)" "panel_inv (clear_selection s)" for l
    using assms(1)
    by (auto simp: panel_inv_def wf_selection_def load_done_def clear_done_def blank_menu_def clear_selection_def
        list_all_iff distinct_map_filter)
  have listed: "panel_inv (transfers_listed l s)" if "distinct (map tr_id l)" for l
    using that assms(1) by (auto simp: panel_inv_def wf_selection_def transfers_listed_def list_all_iff distinct_map_filter)
  from False assms(2) show ?thesis
    by (cases e) (auto simp: panel_enabled_def transfer_inv [OF assms(1)] row menu other listed)
qed

interpretation file_list: transition_system panel_enabled "panel_step t" panel_inv for t
  by unfold_locales (rule panel_step_inv)

text \<open>
  C13: in every run the selection is part of the listing on screen, and the list of transfers has one entry for each and
  only those of this session.
\<close>

theorem panel_invariant:
  assumes "run_steps panel_enabled (panel_step t) (init_panel session home) es = Some s"
  shows "set (fp_selected s) \<subseteq> fi_path ` set (fp_items s) \<and> distinct (map tr_id (fp_transfers s)) \<and>
    list_all (\<lambda>u. tr_sessionId u = fp_session s) (fp_transfers s)"
proof -
  have "panel_inv (init_panel session home)" by (simp add: panel_inv_def wf_selection_def init_panel_def)
  from file_list.run_inv [OF this assms] show ?thesis by (simp add: panel_inv_def wf_selection_def)
qed

subsection \<open>Concrete inputs\<close>

definition demo_item :: "string \<Rightarrow> file_item" where
  "demo_item n = \<lparr>fi_name = n, fi_path = ''/d/'' @ n, fi_isDir = False, fi_isLink = False, fi_size = 1, fi_mode = [], fi_modTime = 0\<rparr>"

definition demo_files :: file_panel where
  "demo_files = (init_panel ''s'' ''/d'')\<lparr>fp_items := [demo_item ''a'', demo_item ''b'', demo_item ''c''],
     fp_selected := [''/d/a'', ''/d/b''], fp_lastIndex := 0, fp_editFilePath := ''/d/a''\<rparr>"

definition demo_transfer :: "string \<Rightarrow> int \<Rightarrow> transfer" where
  "demo_transfer i n = \<lparr>tr_id = i, tr_sessionId = ''s'', tr_upload = True, tr_name = [], tr_localPath = [], tr_remotePath = [],
     tr_size = 9, tr_transferred = n, tr_status = Running, tr_error = [], tr_startedAt = 0, tr_updatedAt = n\<rparr>"

definition demo_editor :: file_editor where
  "demo_editor = init_editor\<lparr>fe_file := ''/d/a'', fe_content := ''new'', fe_original := ''old'', fe_run := 1, fe_mounted := True\<rparr>"

lemmas demo_defs = demo_files_def demo_item_def demo_transfer_def demo_editor_def init_panel_def init_editor_def

theorem transfer_list_is_latest_witness:
  "fp_transfers (foldl (\<lambda>s t. handleTransfer t s) demo_files [demo_transfer ''x'' 1, demo_transfer ''y'' 1, demo_transfer ''x'' 2]) =
     [demo_transfer ''x'' 2, demo_transfer ''y'' 1]"
  by (subst transfer_list_is_latest) (simp_all add: demo_defs own_transfers_def latest_states_def)

theorem hidden_selection_deleted_witness:
  "\<exists>paths. snd (confirm_click (menu_delete (row_menu (demo_item ''a'') (demo_files\<lparr>fp_filter := ''a''\<rparr>)))) = [RemovePaths paths] \<and>
     ''/d/b'' \<in> set paths"
  by (rule hidden_selection_deleted) (simp_all add: demo_defs, code_simp)

theorem anchor_survives_navigation_witness:
  "fp_selected (onRowClick True False (demo_item ''q'') 1 (load_done \<lparr>dl_path = ''/e'', dl_items = [demo_item ''p'', demo_item ''q'']\<rparr> demo_files)) =
     [''/d/p'', ''/d/q'']"
proof -
  let ?s = "load_done \<lparr>dl_path = ''/e'', dl_items = [demo_item ''p'', demo_item ''q'']\<rparr> demo_files"
  have "fp_selected (onRowClick True False (demo_item ''q'') 1 ?s) = map fi_path (take (1 + 1 - 0) (drop 0 (visible ?s)))"
    by (rule anchor_survives_navigation) (simp_all add: demo_defs)
  then show ?thesis by (simp, code_simp)
qed

theorem failed_upload_repeated_witness:
  "snd (fst (run_upload (\<lambda>k _. k) (safeUploadPaths ''/d'' [''x'']) [Estimate False, Fails (ErrText ''full''), Okay] demo_files)) =
     [EstimateUpload ''/d'' [''x''], UploadPaths ''/d'' [''x''], UploadPaths ''/d'' [''x'']]"
  by (rule failed_upload_repeated) simp

theorem only_last_drop_asked_witness:
  "fp_confirm (snd (run_drop (\<lambda>k _. k) (next_drop ''/d'' [\<lparr>lf_name = ''x'', lf_bytes = [1]\<rparr>, \<lparr>lf_name = ''y'', lf_bytes = [2]\<rparr>])
     (replicate 2 (Estimate True)) demo_files)) = ConfirmDrop ''/d'' \<lparr>lf_name = ''y'', lf_bytes = [2]\<rparr>"
  using only_last_drop_asked [of "[\<lparr>lf_name = ''x'', lf_bytes = [1]\<rparr>, \<lparr>lf_name = ''y'', lf_bytes = [2]\<rparr>]" "\<lambda>k _. k" "''/d''" demo_files]
  by (simp only: list.size last.simps) (simp add: numeral_2_eq_2)

theorem transfer_progress_discards_edit_witness:
  "\<exists>e' n. with_editor (handleTransfer (demo_transfer ''x'' 1)) (demo_files, edit_content ''typed'' demo_editor) =
       ((handleTransfer (demo_transfer ''x'' 1) demo_files, e'), [ReadRemoteFile n ''/d/a'']) \<and>
     fe_content e' = ''typed'' \<and> fe_content (read_done n ''old'' e') = ''old'' \<and> fe_original (read_done n ''old'' e') = ''old''"
  by (rule transfer_progress_discards_edit) (simp_all add: demo_defs handleTransfer_def)

theorem save_while_loading_writes_other_file_witness:
  "let ((p1, e1), _) = with_editor close_file_editor (demo_files, demo_editor);
       ((p2, e2), _) = with_editor (\<lambda>p. p\<lparr>fp_editFilePath := ''/d/b''\<rparr>) (p1, e1)
   in snd (handleSave_begin e2) = [WriteRemoteFile ''/d/b'' ''new'']"
proof -
  obtain p1 e1 cs1 where r1: "with_editor close_file_editor (demo_files, demo_editor) = ((p1, e1), cs1)" by (metis surj_pair)
  obtain p2 e2 cs2 where r2: "with_editor (\<lambda>p. p\<lparr>fp_editFilePath := ''/d/b''\<rparr>) (p1, e1) = ((p2, e2), cs2)" by (metis surj_pair)
  have "snd (handleSave_begin e2) = [WriteRemoteFile ''/d/b'' (fe_content demo_editor)]"
    using save_while_loading_writes_other_file [OF _ _ _ _ _ _ _ r1 r2, of "''/d/a''"] by (simp add: demo_defs editor_modified_def)
  then show ?thesis by (simp add: r1 r2) (simp add: demo_defs)
qed

theorem open_edit_save_witness:
  "let e2 = foldl (\<lambda>e typed. edit_content typed e) (read_done 1 ''old'' (fst (render_editor ''/d/a'' init_editor))) [''n'', ''new'']
   in snd (handleSave_begin e2) = [WriteRemoteFile ''/d/a'' ''new'']"
proof -
  let ?e2 = "foldl (\<lambda>e typed. edit_content typed e) (read_done 1 ''old'' (fst (render_editor ''/d/a'' init_editor))) [''n'', ''new'']"
  have "render_editor ''/d/a'' init_editor = (fst (render_editor ''/d/a'' init_editor), [ReadRemoteFile 1 ''/d/a''])"
    by (simp add: render_editor_def read_effect_def init_editor_def Let_def)
  from open_edit_save [OF _ _ this refl, of "''old''" "[''n'', ''new'']"] show ?thesis
    by (simp add: init_editor_def Let_def)
qed

theorem panel_invariant_witness:
  "\<exists>s. run_steps panel_enabled (panel_step (\<lambda>k _. k)) (init_panel ''s'' ''/d'')
       [Loaded \<lparr>dl_path = ''/d'', dl_items = [demo_item ''a'', demo_item ''b'']\<rparr>, RowClick False False 1,
        TransferEvent (demo_transfer ''x'' 1)] = Some s \<and>
     set (fp_selected s) \<subseteq> fi_path ` set (fp_items s) \<and> distinct (map tr_id (fp_transfers s))"
proof -
  let ?es = "[Loaded \<lparr>dl_path = ''/d'', dl_items = [demo_item ''a'', demo_item ''b'']\<rparr>, RowClick False False 1,
        TransferEvent (demo_transfer ''x'' 1)]"
  let ?run = "run_steps panel_enabled (panel_step (\<lambda>k _. k)) (init_panel ''s'' ''/d'') ?es"
  have "?run \<noteq> None"
    by (simp add: panel_enabled_def load_done_def visible_def init_panel_def demo_item_def starts_with_def trim_Nil to_lower_def)
  then obtain s where "?run = Some s" by auto
  with panel_invariant [OF this] show ?thesis by blast
qed

end
