(* ===== verification/PageTabs.thy ===== *)
theory PageTabs
  imports Prelude "HOL-Library.Sublist"
begin

section \<open>Strips of tabs\<close>

text \<open>
  The handlers for tabs that the pages of the databases have in common, on the list of tabs and the key of the active one. What a
  handler captured in its render is an argument beside the strip that it changes. \<open>key\<close> and \<open>closable\<close> are fields of a tab.
\<close>

subsection \<open>Operations\<close>

type_synonym 't strip = "'t list \<times> string"

definition find_tab :: "('t \<Rightarrow> string) \<Rightarrow> string \<Rightarrow> 't list \<Rightarrow> 't option" where
  "find_tab key k tabs = find (\<lambda>t. key t = k) tabs"

definition strip_open :: "('t \<Rightarrow> string) \<Rightarrow> 't list \<Rightarrow> 't \<Rightarrow> 't strip \<Rightarrow> 't strip" where
  "strip_open key captured new st =
     (case find_tab key (key new) captured of
        Some _ \<Rightarrow> (fst st, key new)
      | None \<Rightarrow> (fst st @ [new], key new))"

definition next_active :: "('t \<Rightarrow> string) \<Rightarrow> 't list \<Rightarrow> 't list \<Rightarrow> string \<Rightarrow> string \<Rightarrow> string \<Rightarrow> string" where
  \<comment> \<open>\<open>active\<close> was captured, \<open>cur\<close> is that of the state; the index of a tab that is not there is -1, and there is no element at it\<close>
  "next_active key captured nextTabs active k cur =
     (if active = k \<and> nextTabs \<noteq> []
      then (case find_index (\<lambda>t. key t = k) captured of
              Some closedIdx \<Rightarrow> key (nextTabs ! min closedIdx (length nextTabs - 1))
            | None \<Rightarrow> cur)
      else cur)"

definition strip_close :: "('t \<Rightarrow> string) \<Rightarrow> ('t \<Rightarrow> bool) \<Rightarrow> 't list \<Rightarrow> string \<Rightarrow> string \<Rightarrow> 't strip \<Rightarrow> 't strip" where
  "strip_close key closable captured active k st =
     (case find_tab key k captured of
        Some target \<Rightarrow>
          if \<not> closable target then st
          else let nextTabs = filter (\<lambda>t. key t \<noteq> k \<or> \<not> closable t) captured in
            (nextTabs, next_active key captured nextTabs active k (snd st))
      | None \<Rightarrow> (let nextTabs = filter (\<lambda>t. key t \<noteq> k \<or> \<not> closable t) captured in
            (nextTabs, next_active key captured nextTabs active k (snd st))))"

definition strip_close_all :: "('t \<Rightarrow> string) \<Rightarrow> ('t \<Rightarrow> bool) \<Rightarrow> 't strip \<Rightarrow> 't strip" where
  "strip_close_all key closable st =
     (let nextTabs = filter (\<lambda>t. \<not> closable t) (fst st) in
      (nextTabs, if nextTabs = [] then snd st else key (hd nextTabs)))"

definition keep_tabs :: "('t \<Rightarrow> bool) \<Rightarrow> (nat \<Rightarrow> bool) \<Rightarrow> 't list \<Rightarrow> 't list" where
  \<comment> \<open>\<open>tabs.filter((t, i) => p(i) || !t.closable)\<close>\<close>
  "keep_tabs closable p tabs = map snd (filter (\<lambda>(i, t). p i \<or> \<not> closable t) (enumerate 0 tabs))"

definition with_kept :: "('t \<Rightarrow> string) \<Rightarrow> 't list \<Rightarrow> string \<Rightarrow> 't strip \<Rightarrow> 't strip" where
  "with_kept key nextTabs targetKey st =
     (nextTabs, if snd st \<notin> key ` set nextTabs \<and> nextTabs \<noteq> [] then targetKey else snd st)"

definition strip_close_left :: "('t \<Rightarrow> string) \<Rightarrow> ('t \<Rightarrow> bool) \<Rightarrow> string \<Rightarrow> 't strip \<Rightarrow> 't strip" where
  "strip_close_left key closable targetKey st =
     (case find_index (\<lambda>t. key t = targetKey) (fst st) of
        None \<Rightarrow> st
      | Some idx \<Rightarrow> if idx = 0 then st else with_kept key (keep_tabs closable (\<lambda>i. i \<ge> idx) (fst st)) targetKey st)"

definition strip_close_right :: "('t \<Rightarrow> string) \<Rightarrow> ('t \<Rightarrow> bool) \<Rightarrow> string \<Rightarrow> 't strip \<Rightarrow> 't strip" where
  "strip_close_right key closable targetKey st =
     (case find_index (\<lambda>t. key t = targetKey) (fst st) of
        None \<Rightarrow> st
      | Some idx \<Rightarrow>
          if idx \<ge> length (fst st) - 1 then st else with_kept key (keep_tabs closable (\<lambda>i. i \<le> idx) (fst st)) targetKey st)"

text \<open>The handlers of the SQLite page and of the SQL editor, which do not look at \<open>closable\<close>.\<close>

definition any_close :: "('t \<Rightarrow> string) \<Rightarrow> 't list \<Rightarrow> string \<Rightarrow> string \<Rightarrow> 't strip \<Rightarrow> 't strip" where
  "any_close key captured active k st =
     (if length captured \<le> 1 then st
      else let nextTabs = filter (\<lambda>t. key t \<noteq> k) captured in
        (nextTabs, next_active key captured nextTabs active k (snd st)))"

definition any_close_all :: "('t \<Rightarrow> string) \<Rightarrow> 't strip \<Rightarrow> 't strip" where
  "any_close_all key st = (if length (fst st) \<le> 1 then st else ([hd (fst st)], key (hd (fst st))))"

definition any_close_left :: "('t \<Rightarrow> string) \<Rightarrow> string \<Rightarrow> 't strip \<Rightarrow> 't strip" where
  "any_close_left key targetKey st =
     (case find_index (\<lambda>t. key t = targetKey) (fst st) of
        None \<Rightarrow> st
      | Some idx \<Rightarrow> if idx = 0 then st else (drop idx (fst st), targetKey))"

definition any_close_right :: "('t \<Rightarrow> string) \<Rightarrow> string \<Rightarrow> 't strip \<Rightarrow> 't strip" where
  "any_close_right key targetKey st =
     (case find_index (\<lambda>t. key t = targetKey) (fst st) of
        None \<Rightarrow> st
      | Some idx \<Rightarrow> if idx \<ge> length (fst st) - 1 then st else (take (Suc idx) (fst st), targetKey))"

subsection \<open>The active tab is open\<close>

definition strip_ok :: "('t \<Rightarrow> string) \<Rightarrow> 't strip \<Rightarrow> bool" where
  "strip_ok key st \<longleftrightarrow> distinct (map key (fst st)) \<and> snd st \<in> key ` set (fst st)"

lemma find_tab_None: "find_tab key k tabs = None \<longleftrightarrow> k \<notin> key ` set tabs"
  by (auto simp: find_tab_def find_None_iff)

lemma find_tab_Some: "find_tab key k tabs = Some t \<Longrightarrow> t \<in> set tabs \<and> key t = k"
  by (auto simp: find_tab_def find_Some_iff)

lemma find_tab_mem: "find_tab key k tabs = Some t \<Longrightarrow> k \<in> key ` set tabs"
  using find_tab_Some by fastforce

lemma strip_open_ok:
  assumes "strip_ok key st"
  shows "strip_ok key (strip_open key (fst st) new st)"
proof (cases "find_tab key (key new) (fst st)")
  case None
  then have "key new \<notin> key ` set (fst st)" by (simp add: find_tab_None)
  with None assms show ?thesis by (auto simp: strip_open_def strip_ok_def)
next
  case (Some t)
  with assms find_tab_mem [OF Some] show ?thesis by (simp add: strip_open_def strip_ok_def)
qed

lemma next_ok:
  assumes "strip_ok key (tabs, cur)" "filter P tabs \<noteq> []" "\<And>t. t \<in> set tabs \<Longrightarrow> key t \<noteq> k \<Longrightarrow> P t"
  shows "strip_ok key (filter P tabs, next_active key tabs (filter P tabs) cur k cur)"
proof -
  have "filter P tabs ! min i (length (filter P tabs) - 1) \<in> set (filter P tabs)" for i
    using assms(2) by (intro nth_mem) (cases "filter P tabs", auto)
  then have "key (filter P tabs ! min i (length (filter P tabs) - 1)) \<in> key ` set (filter P tabs)" for i by blast
  moreover have "cur \<in> key ` set (filter P tabs)" if "cur \<noteq> k" using assms(1,3) that by (auto simp: strip_ok_def)
  moreover have "find_index (\<lambda>t. key t = k) tabs \<noteq> None" if "cur = k"
    using assms(1) that by (auto simp: strip_ok_def find_index_None)
  ultimately show ?thesis
    using assms(1,2) by (auto simp: strip_ok_def next_active_def distinct_map_filter split: option.split simp del: set_filter)
qed

lemma strip_close_ok:
  assumes "strip_ok key st" "filter (\<lambda>t. \<not> closable t) (fst st) \<noteq> []"
  shows "strip_ok key (strip_close key closable (fst st) (snd st) k st)"
proof -
  have "filter (\<lambda>t. key t \<noteq> k \<or> \<not> closable t) (fst st) \<noteq> []" using assms(2) by (auto simp: filter_empty_conv)
  from next_ok [OF _ this, of key "snd st" k] assms(1) show ?thesis
    by (cases st) (simp add: strip_close_def Let_def split: option.split)
qed

lemma any_close_ok:
  assumes "strip_ok key st"
  shows "strip_ok key (any_close key (fst st) (snd st) k st)"
proof (cases "length (fst st) \<le> 1")
  case False
  then obtain x y ts where st: "fst st = x # y # ts" by (cases "fst st"; cases "tl (fst st)") auto
  with assms have "key x \<noteq> key y" by (auto simp: strip_ok_def)
  then have "filter (\<lambda>t. key t \<noteq> k) (fst st) \<noteq> []" using st by auto
  from next_ok [OF _ this, of key "snd st" k] assms False show ?thesis by (cases st) (simp add: any_close_def Let_def)
qed (use assms in \<open>simp add: any_close_def\<close>)

lemma strip_close_all_ok:
  assumes "strip_ok key st" "filter (\<lambda>t. \<not> closable t) (fst st) \<noteq> []"
  shows "strip_ok key (strip_close_all key closable st)"
proof -
  have "key (hd (filter (\<lambda>t. \<not> closable t) (fst st))) \<in> key ` set (filter (\<lambda>t. \<not> closable t) (fst st))"
    using assms(2) by (intro imageI hd_in_set)
  then show ?thesis using assms by (simp add: strip_close_all_def strip_ok_def Let_def distinct_map_filter)
qed

lemma any_close_all_ok: "strip_ok key st \<Longrightarrow> strip_ok key (any_close_all key st)"
  by (simp add: any_close_all_def strip_ok_def)

lemma kept_filter:
  "keep_tabs closable p tabs = map (\<lambda>i. tabs ! i) (filter (\<lambda>i. p i \<or> \<not> closable (tabs ! i)) [0..<length tabs])"
proof -
  have "enumerate 0 tabs = map (\<lambda>i. (i, tabs ! i)) [0..<length tabs]"
    by (rule nth_equalityI) (simp_all add: nth_enumerate_eq)
  then show ?thesis by (simp add: keep_tabs_def filter_map comp_def)
qed

lemma kept_mem: "i < length tabs \<Longrightarrow> p i \<Longrightarrow> tabs ! i \<in> set (keep_tabs closable p tabs)"
  by (auto simp: kept_filter)

lemma kept_subseq: "subseq (keep_tabs closable p tabs) tabs"
proof -
  have "subseq (map (\<lambda>i. tabs ! i) (filter (\<lambda>i. p i \<or> \<not> closable (tabs ! i)) [0..<length tabs])) (map (\<lambda>i. tabs ! i) [0..<length tabs])"
    by (rule subseq_map) simp
  then show ?thesis by (simp add: kept_filter map_nth)
qed

lemma kept_fixed: "filter (\<lambda>t. \<not> closable t) (keep_tabs closable p tabs) = filter (\<lambda>t. \<not> closable t) tabs"
proof -
  have "filter (\<lambda>t. \<not> closable t) tabs = map (\<lambda>i. tabs ! i) (filter (\<lambda>i. \<not> closable (tabs ! i)) [0..<length tabs])"
    by (subst map_nth [of tabs, symmetric], subst filter_map) (simp add: comp_def)
  then show ?thesis by (simp add: kept_filter filter_map comp_def) (metis (no_types, lifting) filter_cong)
qed

lemma subseq_distinct: "subseq xs ys \<Longrightarrow> distinct ys \<Longrightarrow> distinct xs"
proof (induction rule: list_emb.induct)
  case (list_emb_Cons2 x y xs ys)
  then show ?case using list_emb_set [of "(=)" xs ys x] by auto
qed auto

lemma subseq_distinct_keys: "subseq xs ys \<Longrightarrow> distinct (map f ys) \<Longrightarrow> distinct (map f xs)"
  by (metis subseq_map subseq_distinct)

lemma with_kept_ok:
  assumes "strip_ok key st" and idx: "find_index (\<lambda>t. key t = k) (fst st) = Some idx" and "p idx"
  shows "strip_ok key (with_kept key (keep_tabs closable p (fst st)) k st)"
proof -
  have i: "idx < length (fst st)" "key (fst st ! idx) = k" using find_index_SomeD [OF idx] by auto
  then have "k \<in> key ` set (keep_tabs closable p (fst st))" using kept_mem [of idx _ p] assms(3) by force
  then show ?thesis using assms(1) subseq_distinct_keys [OF kept_subseq, of key "fst st" closable p]
    by (auto simp: strip_ok_def with_kept_def)
qed

lemma strip_close_sides_ok:
  assumes "strip_ok key st"
  shows "strip_ok key (strip_close_left key closable k st)" "strip_ok key (strip_close_right key closable k st)"
  using assms with_kept_ok [OF assms]
  by (auto simp: strip_close_left_def strip_close_right_def split: option.split)

lemma any_close_sides_ok:
  assumes "strip_ok key st"
  shows "strip_ok key (any_close_left key k st)" "strip_ok key (any_close_right key k st)"
proof -
  have "key (fst st ! i) \<in> key ` set (drop i (fst st)) \<and> key (fst st ! i) \<in> key ` set (take (Suc i) (fst st))"
    if "i < length (fst st)" for i
    using that by (simp add: Cons_nth_drop_Suc [symmetric] take_Suc_conv_app_nth)
  then show "strip_ok key (any_close_left key k st)" "strip_ok key (any_close_right key k st)"
    using assms by (auto simp: any_close_left_def any_close_right_def strip_ok_def distinct_map distinct_drop
        dest!: find_index_SomeD split: option.split dest: inj_on_subset [OF _ set_take_subset] inj_on_subset [OF _ set_drop_subset])
qed

lemma strip_fixed:
  "filter (\<lambda>t. \<not> closable t) (fst (strip_close key closable (fst st) a k st)) = filter (\<lambda>t. \<not> closable t) (fst st)"
  "filter (\<lambda>t. \<not> closable t) (fst (strip_close_all key closable st)) = filter (\<lambda>t. \<not> closable t) (fst st)"
  "filter (\<lambda>t. \<not> closable t) (fst (strip_close_left key closable k st)) = filter (\<lambda>t. \<not> closable t) (fst st)"
  "filter (\<lambda>t. \<not> closable t) (fst (strip_close_right key closable k st)) = filter (\<lambda>t. \<not> closable t) (fst st)"
  "closable new \<Longrightarrow> filter (\<lambda>t. \<not> closable t) (fst (strip_open key c new st)) = filter (\<lambda>t. \<not> closable t) (fst st)"
  by (auto simp: strip_close_def strip_close_all_def strip_close_left_def strip_close_right_def strip_open_def with_kept_def
      kept_fixed Let_def conj_commute cong: conj_cong split: option.split)

end
