(* ===== verification/MysqlPage.thy ===== *)
theory MysqlPage
  imports JsValue PageTabs
begin

section \<open>The MySQL page\<close>

text \<open>
  \<open>pages/mysql/MysqlClient.tsx\<close>: the tree of databases and tables, the tabs, the dialogs and the panels for status and
  users. Handlers are split at their awaits; what a handler captured and uses after an await is an argument of the later
  step. Each tab has a component of its own that exists while the tab is visible; its state is the type parameter of
  \<open>mysql_page\<close>, so that the table view and the SQL editor both fit. The pages of PostgreSQL, SQLite and MongoDB have the same
  handlers for tabs. Labels and icons, and the backup, whose result is only shown, are left out.
\<close>

subsection \<open>State\<close>

datatype mysql_tab_type = StatusTab | SqlTab | DataTabType | UsersTab | ErTab

record mysql_tab =
  mt_key :: string
  mt_label :: string
  mt_type :: mysql_tab_type
  mt_dbName :: string
  mt_table :: "string option"
  mt_closable :: bool

record table_status =
  ts_name :: string
  ts_rows :: js_value
  ts_dataSize :: string
  ts_isView :: bool

datatype mysql_dialog = CreateDb | CreateTable

datatype io_kind = ExportIo | ImportIo

datatype mysql_confirm =
    NoMysqlConfirm
  | DropDb string
  | DropTable string string
  | TruncateTable string string

record 'c mysql_page =
  my_currentDb :: string
  my_databases :: "string list"
  my_tablesMap :: "string \<Rightarrow> table_status list option"
  my_expandedKeys :: "string list"
  my_loadingTree :: bool
  my_loadingDbs :: "string \<Rightarrow> bool"
  my_isReady :: bool
  my_tabs :: "mysql_tab list"
  my_activeTabKey :: string
  my_mounted :: "(string \<times> 'c) option" \<comment> \<open>the component of the visible tab, with the key of its tab\<close>
  my_status :: "js_value \<times> js_value \<times> js_value list \<times> js_value list"
  my_statusBusy :: bool
  my_users :: "js_value list"
  my_selUser :: "(string \<times> string) option"
  my_grants :: string
  my_objModal :: "mysql_dialog option"
  my_objName :: string
  my_objExtra :: string
  my_objBusy :: bool
  my_objMsg :: string
  my_ioModal :: "io_kind option"
  my_ioTable :: string
  my_ioBusy :: bool
  my_ioMsg :: string
  my_confirm :: mysql_confirm
  my_schemaMap :: "string \<Rightarrow> js_value option"
  my_messages :: "string list"

datatype mysql_page_call =
    MysqlConnect
  | MysqlDatabases
  | MysqlTables string
  | MysqlSchema string
  | MysqlDropDatabase string
  | MysqlDropTable string string
  | MysqlTruncateTable string string
  | MysqlCreateDatabase string
  | MysqlCreateTable string string string
  | MysqlStatus
  | MysqlUsers
  | MysqlGrants string string
  | MysqlExport string
  | MysqlImport string

definition init_mysql_page :: "string \<Rightarrow> 'c mysql_page" where
  "init_mysql_page database =
     \<lparr>my_currentDb = database, my_databases = [], my_tablesMap = (\<lambda>_. None), my_expandedKeys = [], my_loadingTree = False,
      my_loadingDbs = (\<lambda>_. False), my_isReady = False,
      my_tabs = [\<lparr>mt_key = ''status'', mt_label = ''dashboard'', mt_type = StatusTab, mt_dbName = database, mt_table = None, mt_closable = False\<rparr>,
                 \<lparr>mt_key = ''sql_1'', mt_label = ''sqlEditor'', mt_type = SqlTab, mt_dbName = database, mt_table = None, mt_closable = False\<rparr>],
      my_activeTabKey = ''status'', my_mounted = None, my_status = (JObj [], JObj [], [], []), my_statusBusy = False,
      my_users = [], my_selUser = None, my_grants = [], my_objModal = None, my_objName = [], my_objExtra = [], my_objBusy = False,
      my_objMsg = [], my_ioModal = None, my_ioTable = [], my_ioBusy = False, my_ioMsg = [], my_confirm = NoMysqlConfirm,
      my_schemaMap = (\<lambda>_. None), my_messages = []\<rparr>"

subsection \<open>Tabs\<close>

definition table_key :: "string \<Rightarrow> string \<Rightarrow> string" where
  "table_key dbName table = ''tbl_'' @ dbName @ ''_'' @ table"

definition er_key :: "string \<Rightarrow> string" where
  "er_key dbName = ''er_'' @ dbName"

definition set_strip :: "mysql_tab strip \<Rightarrow> 'c mysql_page \<Rightarrow> 'c mysql_page" where
  "set_strip st s = s\<lparr>my_tabs := fst st, my_activeTabKey := snd st\<rparr>"

definition strip_of :: "'c mysql_page \<Rightarrow> mysql_tab strip" where
  "strip_of s = (my_tabs s, my_activeTabKey s)"

definition open_tab :: "mysql_tab \<Rightarrow> mysql_tab list \<Rightarrow> 'c mysql_page \<Rightarrow> 'c mysql_page" where
  \<comment> \<open>\<open>tabs\<close> are those of the render in which the handler was made\<close>
  "open_tab new tabs s = set_strip (strip_open mt_key tabs new (strip_of s)) s"

definition table_tab :: "string \<Rightarrow> string \<Rightarrow> mysql_tab" where
  "table_tab dbName table =
     \<lparr>mt_key = table_key dbName table, mt_label = dbName @ ''.'' @ table, mt_type = DataTabType, mt_dbName = dbName,
      mt_table = Some table, mt_closable = True\<rparr>"

definition openTableTab :: "string \<Rightarrow> string \<Rightarrow> 'c mysql_page \<Rightarrow> 'c mysql_page" where
  "openTableTab dbName table s = open_tab (table_tab dbName table) (my_tabs s) s"

definition er_tab :: "translator \<Rightarrow> string \<Rightarrow> mysql_tab" where
  "er_tab t dbName =
     \<lparr>mt_key = er_key dbName, mt_label = t ''db:mysql.erDiagram'' [(''dbName'', dbName)], mt_type = ErTab, mt_dbName = dbName,
      mt_table = None, mt_closable = True\<rparr>"

definition openErTab_begin :: "string \<Rightarrow> 'c mysql_page \<Rightarrow> 'c mysql_page \<times> mysql_page_call list \<times> bool" where
  \<comment> \<open>whether a tab is still to be opened; without a call it is opened at once\<close>
  "openErTab_begin dbName s =
     (case find_tab mt_key (er_key dbName) (my_tabs s) of
        Some _ \<Rightarrow> (s\<lparr>my_activeTabKey := er_key dbName\<rparr>, [], False)
      | None \<Rightarrow> (s, if my_schemaMap s dbName = None then [MysqlSchema dbName] else [], True))"

definition openErTab_done :: "translator \<Rightarrow> string \<Rightarrow> js_value option \<Rightarrow> 'c mysql_page \<Rightarrow> 'c mysql_page" where
  \<comment> \<open>\<open>None\<close> where there was no call or it failed\<close>
  "openErTab_done t dbName schema s =
     (let s1 = (case schema of Some v \<Rightarrow> if js_truthy v then s\<lparr>my_schemaMap := (my_schemaMap s)(dbName \<mapsto> v)\<rparr> else s | None \<Rightarrow> s)
      in s1\<lparr>my_tabs := my_tabs s1 @ [er_tab t dbName], my_activeTabKey := er_key dbName\<rparr>)"

definition openUsersTab :: "translator \<Rightarrow> 'c mysql_page \<Rightarrow> 'c mysql_page" where
  "openUsersTab t s =
     open_tab \<lparr>mt_key = ''users'', mt_label = t ''db:mysql.usersGrants'' [], mt_type = UsersTab, mt_dbName = my_currentDb s,
        mt_table = None, mt_closable = True\<rparr> (my_tabs s) s"

definition closeTab_from :: "mysql_tab list \<Rightarrow> string \<Rightarrow> string \<Rightarrow> 'c mysql_page \<Rightarrow> 'c mysql_page" where
  \<comment> \<open>\<open>handleCloseTab\<close> with the tabs and the active key it has captured\<close>
  "closeTab_from tabs active key s = set_strip (strip_close mt_key mt_closable tabs active key (strip_of s)) s"

definition handleCloseTab :: "string \<Rightarrow> 'c mysql_page \<Rightarrow> 'c mysql_page" where
  "handleCloseTab key s = closeTab_from (my_tabs s) (my_activeTabKey s) key s"

definition handleCloseAllTabs :: "'c mysql_page \<Rightarrow> 'c mysql_page" where
  "handleCloseAllTabs s = set_strip (strip_close_all mt_key mt_closable (strip_of s)) s"

definition handleCloseLeftTabs :: "string \<Rightarrow> 'c mysql_page \<Rightarrow> 'c mysql_page" where
  "handleCloseLeftTabs targetKey s = set_strip (strip_close_left mt_key mt_closable targetKey (strip_of s)) s"

definition handleCloseRightTabs :: "string \<Rightarrow> 'c mysql_page \<Rightarrow> 'c mysql_page" where
  "handleCloseRightTabs targetKey s = set_strip (strip_close_right mt_key mt_closable targetKey (strip_of s)) s"

definition render_tabs :: "(mysql_tab \<Rightarrow> 'c) \<Rightarrow> 'c mysql_page \<Rightarrow> 'c mysql_page" where
  \<comment> \<open>only the visible tab has a component; one that becomes visible is mounted afresh\<close>
  "render_tabs init s =
     (case find_tab mt_key (my_activeTabKey s) (my_tabs s) of
        None \<Rightarrow> s\<lparr>my_mounted := None\<rparr>
      | Some tab \<Rightarrow>
          (case my_mounted s of
             Some (key, c) \<Rightarrow> if key = mt_key tab then s else s\<lparr>my_mounted := Some (mt_key tab, init tab)\<rparr>
           | None \<Rightarrow> s\<lparr>my_mounted := Some (mt_key tab, init tab)\<rparr>))"

subsection \<open>Loading\<close>

definition js_text_or :: "js_value list \<Rightarrow> string \<Rightarrow> string" where
  \<comment> \<open>\<open>a || b || d\<close>, where a field that is set holds a text\<close>
  "js_text_or vs d = (case find js_truthy vs of Some v \<Rightarrow> js_string v | None \<Rightarrow> d)"

definition obj_field :: "js_value \<Rightarrow> string \<Rightarrow> js_value" where
  "obj_field v name = nullish (js_field v name) JUndef"

definition table_entry :: "js_value \<Rightarrow> table_status" where
  "table_entry v =
     (case v of
        JStr name \<Rightarrow> \<lparr>ts_name = name, ts_rows = JNum ''0'', ts_dataSize = ''-'', ts_isView = False\<rparr>
      | _ \<Rightarrow> \<lparr>ts_name = js_text_or [obj_field v ''name'', obj_field v ''Name''] [],
             ts_rows = (case find js_truthy [obj_field v ''rows'', obj_field v ''Rows''] of Some r \<Rightarrow> r | None \<Rightarrow> JNum ''0''),
             ts_dataSize = js_text_or [obj_field v ''dataSize'', obj_field v ''DataSize''] ''-'',
             ts_isView = js_truthy (obj_field v ''isView'') \<or> js_truthy (obj_field v ''IsView'')\<rparr>)"

definition loadTables_begin :: "string \<Rightarrow> 'c mysql_page \<Rightarrow> 'c mysql_page \<times> mysql_page_call list" where
  "loadTables_begin dbName s =
     (if dbName = [] then (s, []) else (s\<lparr>my_loadingDbs := (my_loadingDbs s)(dbName := True)\<rparr>, [MysqlTables dbName]))"

definition loadTables_done :: "string \<Rightarrow> js_value list option \<Rightarrow> 'c mysql_page \<Rightarrow> 'c mysql_page" where
  \<comment> \<open>\<open>None\<close> where the call fails\<close>
  "loadTables_done dbName raw s =
     (case raw of
        None \<Rightarrow> s\<lparr>my_loadingDbs := (my_loadingDbs s)(dbName := False)\<rparr>
      | Some vs \<Rightarrow> s\<lparr>my_tablesMap := (my_tablesMap s)(dbName \<mapsto> map table_entry vs),
                   my_loadingDbs := (my_loadingDbs s)(dbName := False)\<rparr>)"

definition initConnection_begin :: "'c mysql_page \<Rightarrow> 'c mysql_page \<times> mysql_page_call list" where
  "initConnection_begin s = (s\<lparr>my_loadingTree := True, my_isReady := False\<rparr>, [MysqlConnect])"

definition initConnection_connected :: "'c mysql_page \<Rightarrow> 'c mysql_page \<times> mysql_page_call list" where
  "initConnection_connected s = (s, [MysqlDatabases])"

definition target_db :: "string \<Rightarrow> string list \<Rightarrow> string" where
  "target_db session dbs = (if session \<noteq> [] \<and> session \<in> set dbs then session else hd dbs)"

definition initConnection_databases :: "string \<Rightarrow> string list \<Rightarrow> 'c mysql_page \<Rightarrow> 'c mysql_page \<times> mysql_page_call list" where
  \<comment> \<open>with databases it goes on when the tables of the first have been loaded, else at once\<close>
  "initConnection_databases session dbs s =
     (let s1 = s\<lparr>my_databases := dbs\<rparr> in
      if dbs = [] then (s1\<lparr>my_isReady := True, my_loadingTree := False\<rparr>, [])
      else loadTables_begin (target_db session dbs) (s1\<lparr>my_currentDb := target_db session dbs\<rparr>))"

definition initConnection_done :: "string \<Rightarrow> string list \<Rightarrow> js_value list option \<Rightarrow> 'c mysql_page \<Rightarrow> 'c mysql_page" where
  \<comment> \<open>the tables have been loaded, or not\<close>
  "initConnection_done session dbs raw s =
     (loadTables_done (target_db session dbs) raw s)
       \<lparr>my_expandedKeys := [''db_'' @ target_db session dbs, ''tbls_'' @ target_db session dbs], my_isReady := True,
        my_loadingTree := False\<rparr>"

definition initConnection_failed :: "translator \<Rightarrow> string \<Rightarrow> 'c mysql_page \<Rightarrow> 'c mysql_page" where
  "initConnection_failed t err s =
     s\<lparr>my_messages := my_messages s @ [t ''db:mysql.connectFailed'' [(''error'', err)]], my_loadingTree := False\<rparr>"

subsection \<open>Tree\<close>

datatype mysql_node = \<comment> \<open>\<open>raw\<close> of a node\<close>
    DbNode string
  | TableNode string string
  | ViewNode string string
  | ErNode string
  | TablesFolder string
  | ViewsFolder string

fun node_key :: "mysql_node \<Rightarrow> string" where
  "node_key (DbNode d) = ''db_'' @ d"
| "node_key (TableNode d t) = ''table_'' @ d @ ''_'' @ t"
| "node_key (ViewNode d t) = ''view_'' @ d @ ''_'' @ t"
| "node_key (ErNode d) = ''er_node_'' @ d"
| "node_key (TablesFolder d) = ''tbls_'' @ d"
| "node_key (ViewsFolder d) = ''views_'' @ d"

definition db_children :: "'c mysql_page \<Rightarrow> string \<Rightarrow> (mysql_node \<times> mysql_node list) list" where
  "db_children s dbName =
     (let rawTables = nullish (my_tablesMap s dbName) [];
          tbls = filter (\<lambda>t. \<not> ts_isView t) rawTables; views = filter ts_isView rawTables in
      [(TablesFolder dbName, map (\<lambda>t. TableNode dbName (ts_name t)) tbls)] @
      (if views \<noteq> [] then [(ViewsFolder dbName, map (\<lambda>v. ViewNode dbName (ts_name v)) views)] else []) @
      [(ErNode dbName, [])])"

definition treeData :: "'c mysql_page \<Rightarrow> (mysql_node \<times> (mysql_node \<times> mysql_node list) list) list" where
  "treeData s = map (\<lambda>d. (DbNode d, db_children s d)) (my_databases s)"

definition selectedTreeKeys :: "'c mysql_page \<Rightarrow> string list" where
  "selectedTreeKeys s =
     (case find_tab mt_key (my_activeTabKey s) (my_tabs s) of
        None \<Rightarrow> []
      | Some tab \<Rightarrow>
          if mt_type tab = DataTabType \<and> mt_dbName tab \<noteq> [] \<and> truthy (mt_table tab)
          then [node_key (TableNode (mt_dbName tab) (the (mt_table tab))), node_key (ViewNode (mt_dbName tab) (the (mt_table tab)))]
          else if mt_type tab = ErTab \<and> mt_dbName tab \<noteq> [] then [node_key (ErNode (mt_dbName tab))]
          else [])"

definition toggle_key :: "string \<Rightarrow> 'c mysql_page \<Rightarrow> 'c mysql_page" where
  "toggle_key k s =
     s\<lparr>my_expandedKeys := (if k \<in> set (my_expandedKeys s) then filter (\<lambda>x. x \<noteq> k) (my_expandedKeys s) else my_expandedKeys s @ [k])\<rparr>"

definition tree_select :: "mysql_node \<Rightarrow> 'c mysql_page \<Rightarrow> 'c mysql_page \<times> mysql_page_call list \<times> bool" where
  \<comment> \<open>up to the first await: whether the node is still to be toggled after it, or a diagram to be opened\<close>
  "tree_select node s =
     (case node of
        TableNode d t \<Rightarrow> (openTableTab d t s, [], False)
      | ViewNode d t \<Rightarrow> (openTableTab d t s, [], False)
      | ErNode d \<Rightarrow> openErTab_begin d s
      | DbNode d \<Rightarrow>
          (let s1 = s\<lparr>my_currentDb := d\<rparr> in
           if node_key node \<notin> set (my_expandedKeys s) \<and> my_tablesMap s d = None
           then (let (s2, cs) = loadTables_begin d s1 in (s2, cs, True))
           else (toggle_key (node_key node) s1, [], False))
      | _ \<Rightarrow> (toggle_key (node_key node) s, [], False))"

definition tree_expand :: "string list \<Rightarrow> mysql_node option \<Rightarrow> 'c mysql_page \<Rightarrow> 'c mysql_page \<times> mysql_page_call list" where
  \<comment> \<open>the keys, and the node where one was expanded\<close>
  "tree_expand keys node s =
     (let s1 = s\<lparr>my_expandedKeys := keys\<rparr> in
      case node of
        Some (DbNode d) \<Rightarrow> if my_tablesMap s d = None then loadTables_begin d s1 else (s1, [])
      | _ \<Rightarrow> (s1, []))"

subsection \<open>Confirmations and dialogs\<close>

definition ask_confirm :: "mysql_confirm \<Rightarrow> 'c mysql_page \<Rightarrow> 'c mysql_page" where
  \<comment> \<open>\<open>handleDropDb\<close>, \<open>handleDropTable\<close> and \<open>handleTruncateTable\<close>\<close>
  "ask_confirm c s = s\<lparr>my_confirm := c\<rparr>"

definition confirm_begin :: "'c mysql_page \<Rightarrow> 'c mysql_page \<times> mysql_page_call list" where
  "confirm_begin s =
     (let s1 = s\<lparr>my_confirm := NoMysqlConfirm\<rparr> in
      case my_confirm s of
        NoMysqlConfirm \<Rightarrow> (s, [])
      | DropDb d \<Rightarrow> (s1, [MysqlDropDatabase d])
      | DropTable d t \<Rightarrow> (s1, [MysqlDropTable d t])
      | TruncateTable d t \<Rightarrow> (s1, [MysqlTruncateTable d t]))"

definition confirm_done :: "'c mysql_page \<Rightarrow> mysql_confirm \<Rightarrow> 'c mysql_page \<Rightarrow> 'c mysql_page \<times> mysql_page_call list" where
  \<comment> \<open>\<open>c\<close> is the state of the render in which the question was put: its tabs are the ones that are closed from\<close>
  "confirm_done c q s =
     (case q of
        NoMysqlConfirm \<Rightarrow> (s, [])
      | DropDb d \<Rightarrow> initConnection_begin s
      | DropTable d t \<Rightarrow>
          (let (s1, cs) = loadTables_begin d s in (closeTab_from (my_tabs c) (my_activeTabKey c) (table_key d t) s1, cs))
      | TruncateTable d t \<Rightarrow> loadTables_begin d s)"

definition confirm_failed :: "translator \<Rightarrow> mysql_confirm \<Rightarrow> string \<Rightarrow> 'c mysql_page \<Rightarrow> 'c mysql_page" where
  "confirm_failed t q err s =
     s\<lparr>my_messages := my_messages s @
        [t (case q of DropTable _ _ \<Rightarrow> ''db:mysql.deleteTableFailed'' | TruncateTable _ _ \<Rightarrow> ''db:mysql.truncateTableFailed''
                    | _ \<Rightarrow> ''db:mysql.deleteDbFailed'') [(''error'', err)]]\<rparr>"

definition doObjAction_begin :: "'c mysql_page \<Rightarrow> 'c mysql_page \<times> mysql_page_call list" where
  "doObjAction_begin s =
     (case my_objModal s of
        None \<Rightarrow> (s, [])
      | Some CreateDb \<Rightarrow> (s\<lparr>my_objBusy := True, my_objMsg := []\<rparr>, [MysqlCreateDatabase (my_objName s)])
      | Some CreateTable \<Rightarrow>
          (s\<lparr>my_objBusy := True, my_objMsg := []\<rparr>, [MysqlCreateTable (my_currentDb s) (my_objName s) (my_objExtra s)]))"

definition doObjAction_created :: "'c mysql_page \<Rightarrow> mysql_dialog \<Rightarrow> 'c mysql_page \<Rightarrow> 'c mysql_page \<times> mysql_page_call list" where
  \<comment> \<open>the reload that is awaited next; \<open>c\<close> is the state of the render in which the handler was made\<close>
  "doObjAction_created c k s =
     (case k of CreateDb \<Rightarrow> initConnection_begin s | CreateTable \<Rightarrow> loadTables_begin (my_currentDb c) s)"

definition doObjAction_done :: "'c mysql_page \<Rightarrow> mysql_dialog \<Rightarrow> 'c mysql_page \<Rightarrow> 'c mysql_page" where
  "doObjAction_done c k s =
     (case k of
        CreateDb \<Rightarrow> s
      | CreateTable \<Rightarrow> open_tab (table_tab (my_currentDb c) (my_objName c)) (my_tabs c) s)\<lparr>my_objModal := None, my_objBusy := False\<rparr>"

definition doObjAction_failed :: "string \<Rightarrow> 'c mysql_page \<Rightarrow> 'c mysql_page" where
  "doObjAction_failed err s = s\<lparr>my_objMsg := err, my_objBusy := False\<rparr>"

definition open_dialog :: "mysql_dialog \<Rightarrow> string \<Rightarrow> string \<Rightarrow> 'c mysql_page \<Rightarrow> 'c mysql_page" where
  \<comment> \<open>from a menu: for a new table with its database and the columns that are proposed\<close>
  "open_dialog k dbName extra s =
     (case k of
        CreateDb \<Rightarrow> s\<lparr>my_objName := [], my_objModal := Some CreateDb\<rparr>
      | CreateTable \<Rightarrow> s\<lparr>my_currentDb := dbName, my_objName := [], my_objExtra := extra, my_objModal := Some CreateTable\<rparr>)"

definition open_io :: "io_kind \<Rightarrow> string \<Rightarrow> string \<Rightarrow> 'c mysql_page \<Rightarrow> 'c mysql_page" where
  "open_io k dbName table s = s\<lparr>my_currentDb := dbName, my_ioTable := table, my_ioModal := Some k\<rparr>"

definition io_begin :: "io_kind \<Rightarrow> 'c mysql_page \<Rightarrow> 'c mysql_page \<times> mysql_page_call list" where
  "io_begin k s =
     (s\<lparr>my_ioBusy := True, my_ioMsg := []\<rparr>,
      [case k of ExportIo \<Rightarrow> MysqlExport (my_currentDb s) | ImportIo \<Rightarrow> MysqlImport (my_currentDb s)])"

definition doExport_done :: "translator \<Rightarrow> string \<Rightarrow> 'c mysql_page \<Rightarrow> 'c mysql_page" where
  \<comment> \<open>the path, empty where the dialog for it was cancelled\<close>
  "doExport_done t path s =
     (if path = [] then s
      else s\<lparr>my_messages := my_messages s @ [t ''db:mysql.exportSuccess'' [(''path'', path)]], my_ioModal := None\<rparr>)\<lparr>my_ioBusy := False\<rparr>"

definition doImport_done :: "translator \<Rightarrow> 'c mysql_page \<Rightarrow> string \<Rightarrow> 'c mysql_page \<Rightarrow> 'c mysql_page \<times> mysql_page_call list" where
  "doImport_done t c res s =
     (let s1 = s\<lparr>my_messages := my_messages s @ [str_or res (t ''db:mysql.importSuccess'' [])], my_ioModal := None, my_ioBusy := False\<rparr>
      in if my_currentDb c = [] then (s1, []) else loadTables_begin (my_currentDb c) s1)"

definition io_failed :: "string \<Rightarrow> 'c mysql_page \<Rightarrow> 'c mysql_page" where
  "io_failed err s = s\<lparr>my_ioMsg := err, my_ioBusy := False\<rparr>"

subsection \<open>Status and users\<close>

definition loadStatus_begin :: "'c mysql_page \<Rightarrow> 'c mysql_page \<times> mysql_page_call list" where
  "loadStatus_begin s = (s\<lparr>my_statusBusy := True\<rparr>, [MysqlStatus])"

definition loadStatus_done :: "js_value \<times> js_value \<times> js_value list \<times> js_value list \<Rightarrow> 'c mysql_page \<Rightarrow> 'c mysql_page" where
  \<comment> \<open>the four answers, each empty where its call fails\<close>
  "loadStatus_done st s = s\<lparr>my_status := st, my_statusBusy := False\<rparr>"

definition loadUsers_done :: "js_value list option \<Rightarrow> 'c mysql_page \<Rightarrow> 'c mysql_page" where
  "loadUsers_done r s = (case r of None \<Rightarrow> s | Some l \<Rightarrow> s\<lparr>my_users := l\<rparr>)"

definition viewGrants_begin :: "string \<Rightarrow> string \<Rightarrow> 'c mysql_page \<Rightarrow> 'c mysql_page \<times> mysql_page_call list" where
  "viewGrants_begin user host s = (s\<lparr>my_selUser := Some (user, host)\<rparr>, [MysqlGrants user host])"

definition viewGrants_done :: "string \<Rightarrow> 'c mysql_page \<Rightarrow> 'c mysql_page" where
  "viewGrants_done gr s = s\<lparr>my_grants := gr\<rparr>"

definition viewGrants_failed :: "translator \<Rightarrow> string \<Rightarrow> 'c mysql_page \<Rightarrow> 'c mysql_page" where
  "viewGrants_failed t err s = s\<lparr>my_grants := t ''db:mysql.queryGrantsFailed'' [(''error'', err)]\<rparr>"

definition panel_effect :: "'c mysql_page \<Rightarrow> 'c mysql_page \<times> mysql_page_call list" where
  \<comment> \<open>after a change of \<open>isReady\<close> or of the active tab\<close>
  "panel_effect s =
     (if \<not> my_isReady s then (s, [])
      else if my_activeTabKey s = ''status'' then loadStatus_begin s
      else if my_activeTabKey s = ''users'' then (s, [MysqlUsers])
      else (s, []))"

subsection \<open>The tabs\<close>

datatype tab_event =
    OpenTable string string
  | OpenEr string
  | ErLoaded string "js_value option"
  | OpenUsers
  | CloseTab string
  | CloseAll
  | CloseLeft string
  | CloseRight string
  | ActivateTab string
  | TableDropped string string "mysql_tab list" string \<comment> \<open>with the tabs and the active key that were captured\<close>
  | RenderTabs

fun tab_step :: "translator \<Rightarrow> (mysql_tab \<Rightarrow> 'c) \<Rightarrow> 'c mysql_page \<Rightarrow> tab_event \<Rightarrow> 'c mysql_page" where
  "tab_step t init s (OpenTable d table) = openTableTab d table s"
| "tab_step t init s (OpenEr d) = fst (openErTab_begin d s)"
| "tab_step t init s (ErLoaded d v) = openErTab_done t d v s"
| "tab_step t init s OpenUsers = openUsersTab t s"
| "tab_step t init s (CloseTab key) = handleCloseTab key s"
| "tab_step t init s CloseAll = handleCloseAllTabs s"
| "tab_step t init s (CloseLeft key) = handleCloseLeftTabs key s"
| "tab_step t init s (CloseRight key) = handleCloseRightTabs key s"
| "tab_step t init s (ActivateTab key) = s\<lparr>my_activeTabKey := key\<rparr>"
| "tab_step t init s (TableDropped d table tabs active) = closeTab_from tabs active (table_key d table) s"
| "tab_step t init s RenderTabs = render_tabs init s"

definition tab_enabled :: "'c mysql_page \<Rightarrow> tab_event \<Rightarrow> bool" where
  \<comment> \<open>nothing has changed while a diagram was loaded or a table dropped; only an open tab can be clicked\<close>
  "tab_enabled s e \<longleftrightarrow>
     (case e of
        ErLoaded d _ \<Rightarrow> find_tab mt_key (er_key d) (my_tabs s) = None
      | TableDropped _ _ tabs active \<Rightarrow> tabs = my_tabs s \<and> active = my_activeTabKey s
      | ActivateTab key \<Rightarrow> key \<in> mt_key ` set (my_tabs s)
      | _ \<Rightarrow> True)"

definition page_tabs_inv :: "'c mysql_page \<Rightarrow> bool" where
  "page_tabs_inv s \<longleftrightarrow>
     distinct (map mt_key (my_tabs s)) \<and> my_activeTabKey s \<in> mt_key ` set (my_tabs s) \<and>
     map mt_key (filter (\<lambda>t. \<not> mt_closable t) (my_tabs s)) = [''status'', ''sql_1'']"

lemma page_tabs_inv_strip:
  "page_tabs_inv s \<longleftrightarrow> strip_ok mt_key (strip_of s) \<and>
     map mt_key (filter (\<lambda>t. \<not> mt_closable t) (fst (strip_of s))) = [''status'', ''sql_1'']"
  by (auto simp: page_tabs_inv_def strip_ok_def strip_of_def)

lemma strip_of_set [simp]: "strip_of (set_strip st s) = st" "my_tabs (set_strip st s) = fst st" "my_activeTabKey (set_strip st s) = snd st"
  by (simp_all add: strip_of_def set_strip_def)

lemma strip_of_fields: "my_tabs s = fst (strip_of s)" "my_activeTabKey s = snd (strip_of s)"
  by (simp_all add: strip_of_def)

lemmas open_tab_simps = openTableTab_def open_tab_def table_tab_def strip_open_def strip_of_def

lemma fixed_tabs: "page_tabs_inv s \<Longrightarrow> filter (\<lambda>t. \<not> mt_closable t) (fst (strip_of s)) \<noteq> []"
  by (auto simp: page_tabs_inv_strip)

lemma open_tab_inv:
  assumes "page_tabs_inv s" "mt_closable new" "tabs = my_tabs s"
  shows "page_tabs_inv (open_tab new tabs s)"
  using assms by (simp add: open_tab_def page_tabs_inv_strip strip_of_fields strip_open_ok strip_fixed)

lemma close_inv: "page_tabs_inv s \<Longrightarrow> page_tabs_inv (closeTab_from (my_tabs s) (my_activeTabKey s) key s)"
  using fixed_tabs [of s] by (simp add: closeTab_from_def page_tabs_inv_strip strip_of_fields strip_close_ok strip_fixed)

lemma close_many_inv:
  assumes "page_tabs_inv s"
  shows "page_tabs_inv (handleCloseAllTabs s)" "page_tabs_inv (handleCloseLeftTabs key s)" "page_tabs_inv (handleCloseRightTabs key s)"
  using assms fixed_tabs [OF assms]
  by (simp_all add: handleCloseAllTabs_def handleCloseLeftTabs_def handleCloseRightTabs_def page_tabs_inv_strip
      strip_close_all_ok strip_close_sides_ok strip_fixed)

lemma tab_step_inv:
  fixes init :: "mysql_tab \<Rightarrow> 'c"
  assumes inv: "page_tabs_inv s" and en: "tab_enabled s e"
  shows "page_tabs_inv (tab_step t init s e)"
proof (cases e)
  case (OpenTable d table)
  then show ?thesis using open_tab_inv [OF inv _ refl, of "table_tab d table"] by (simp add: openTableTab_def table_tab_def)
next
  case (OpenEr d)
  then show ?thesis using inv
    by (cases "find_tab mt_key (er_key d) (my_tabs s)") (auto simp: openErTab_begin_def page_tabs_inv_def dest: find_tab_mem)
next
  case (ErLoaded d v)
  let ?s = "case v of Some w \<Rightarrow> if js_truthy w then s\<lparr>my_schemaMap := (my_schemaMap s)(d \<mapsto> w)\<rparr> else s | None \<Rightarrow> s"
  have "openErTab_done t d v s = open_tab (er_tab t d) (my_tabs s) ?s"
    using en ErLoaded by (auto simp: openErTab_done_def open_tab_def strip_open_def set_strip_def strip_of_def tab_enabled_def er_tab_def Let_def
        split: option.split)
  moreover have "page_tabs_inv ?s" "my_tabs s = my_tabs ?s" using inv by (auto simp: page_tabs_inv_def split: option.split)
  ultimately show ?thesis using open_tab_inv [of ?s "er_tab t d" "my_tabs s"] ErLoaded by (simp add: er_tab_def)
next
  case OpenUsers
  then show ?thesis using open_tab_inv [OF inv _ refl] by (simp add: openUsersTab_def)
next
  case (CloseTab key)
  then show ?thesis using close_inv [OF inv] by (simp add: handleCloseTab_def)
next
  case CloseAll
  then show ?thesis using close_many_inv [OF inv] by simp
next
  case (CloseLeft key)
  then show ?thesis using close_many_inv [OF inv] by simp
next
  case (CloseRight key)
  then show ?thesis using close_many_inv [OF inv] by simp
next
  case (ActivateTab key)
  then show ?thesis using inv en by (simp add: page_tabs_inv_def tab_enabled_def)
next
  case (TableDropped d table tabs active)
  then show ?thesis using close_inv [OF inv] en by (simp add: tab_enabled_def)
next
  case RenderTabs
  then show ?thesis using inv by (auto simp: render_tabs_def page_tabs_inv_def split: option.split)
qed

interpretation page_tabs: transition_system tab_enabled "tab_step t (init :: mysql_tab \<Rightarrow> 'c)" page_tabs_inv for t init
  by unfold_locales (rule tab_step_inv)

text \<open>
  C18: in every run in which no other tab is opened or closed while a diagram loads or a table is dropped (\<open>er_tab_twice\<close> and
  \<open>drop_forgets_tab\<close> are the other cases), the keys of the tabs are distinct, the active tab is open, and the two fixed tabs stay
  where they are.
\<close>

theorem page_tabs_stay_open:
  assumes "run_steps tab_enabled (tab_step t (init :: mysql_tab \<Rightarrow> 'c)) (init_mysql_page db) es = Some s"
  shows "distinct (map mt_key (my_tabs s)) \<and> my_activeTabKey s \<in> mt_key ` set (my_tabs s) \<and>
    map mt_key (filter (\<lambda>t. \<not> mt_closable t) (my_tabs s)) = [''status'', ''sql_1'']"
proof -
  have "page_tabs_inv (init_mysql_page db :: 'c mysql_page)" by (simp add: page_tabs_inv_def init_mysql_page_def)
  from page_tabs.run_inv [OF this assms] show ?thesis by (simp add: page_tabs_inv_def)
qed

theorem page_tabs_stay_open_witness:
  "\<exists>s. run_steps tab_enabled (tab_step (\<lambda>k _. k) (\<lambda>_. ())) (init_mysql_page ''d'')
       [OpenTable ''d'' ''a'', OpenTable ''d'' ''b'', CloseLeft (table_key ''d'' ''b''), RenderTabs, CloseTab (table_key ''d'' ''b'')] = Some s \<and>
     my_activeTabKey s \<in> mt_key ` set (my_tabs s)"
proof -
  let ?run = "run_steps tab_enabled (tab_step (\<lambda>k _. k) (\<lambda>_. ())) (init_mysql_page ''d'')
       [OpenTable ''d'' ''a'', OpenTable ''d'' ''b'', CloseLeft (table_key ''d'' ''b''), RenderTabs, CloseTab (table_key ''d'' ''b'')]"
  have "?run \<noteq> None" by (simp add: tab_enabled_def)
  then obtain s where "?run = Some s" by auto
  with page_tabs_stay_open [OF this] show ?thesis by blast
qed

subsection \<open>Where the tabs go wrong\<close>

text \<open>
  Two tables whose databases and names run together to the same text have the same tab: opening the one shows the
  rows of the other, in which they can be edited.
\<close>

theorem table_keys_collide:
  assumes "find_tab mt_key (table_key (x @ ''_'' @ y) z) (my_tabs s) = Some (table_tab (x @ ''_'' @ y) z)"
  shows "find_tab mt_key (my_activeTabKey (openTableTab x (y @ ''_'' @ z) s)) (my_tabs (openTableTab x (y @ ''_'' @ z) s)) =
    Some (table_tab (x @ ''_'' @ y) z)"
proof -
  have "table_key x (y @ ''_'' @ z) = table_key (x @ ''_'' @ y) z" by (simp add: table_key_def)
  then show ?thesis using assms by (simp add: open_tab_simps)
qed

theorem table_keys_collide_witness:
  "let s = openTableTab ''shop'' ''eu_orders'' (openTableTab ''shop_eu'' ''orders'' (init_mysql_page ''shop'' :: unit mysql_page))
   in find_tab mt_key (my_activeTabKey s) (my_tabs s) = Some (table_tab ''shop_eu'' ''orders'')"
  using table_keys_collide [of "''shop''" "''eu''" "''orders''" "openTableTab ''shop_eu'' ''orders'' (init_mysql_page ''shop'' :: unit mysql_page)"]
  by (simp add: open_tab_simps table_key_def init_mysql_page_def find_tab_def Let_def)

text \<open>
  When the tab of a diagram is asked for twice before its data has arrived, there are two tabs with the same key.
\<close>

theorem er_tab_twice:
  assumes "find_tab mt_key (er_key d) (my_tabs s) = None" "my_schemaMap s d = None"
  shows "snd (openErTab_begin d s) = ([MysqlSchema d], True) \<and> snd (openErTab_begin d (fst (openErTab_begin d s))) = ([MysqlSchema d], True) \<and>
    \<not> distinct (map mt_key (my_tabs (openErTab_done t d v (openErTab_done t d v (fst (openErTab_begin d (fst (openErTab_begin d s))))))))"
  using assms by (auto simp: openErTab_begin_def openErTab_done_def er_tab_def Let_def split: option.split)

theorem er_tab_twice_witness:
  "\<not> distinct (map mt_key (my_tabs (openErTab_done (\<lambda>k _. k) ''d'' None (openErTab_done (\<lambda>k _. k) ''d'' None
     (fst (openErTab_begin ''d'' (fst (openErTab_begin ''d'' (init_mysql_page ''d'' :: unit mysql_page)))))))))"
  using er_tab_twice [of "''d''" "init_mysql_page ''d'' :: unit mysql_page" "\<lambda>k _. k" None]
  by (simp add: init_mysql_page_def find_tab_def er_key_def)

text \<open>A table that is opened while another one, whose tab is open, is being dropped loses its tab at the end of it.\<close>

theorem drop_forgets_tab:
  fixes c :: "'c mysql_page"
  assumes "table_key d t \<in> mt_key ` set (my_tabs c)" and "table_key d' t' \<notin> mt_key ` set (my_tabs c)"
    and "list_all (\<lambda>tab. mt_key tab = table_key d t \<longrightarrow> mt_closable tab) (my_tabs c)"
  shows "table_key d' t' \<in> mt_key ` set (my_tabs (openTableTab d' t' c)) \<and>
    table_key d' t' \<notin> mt_key ` set (my_tabs (fst (confirm_done c (DropTable d t) (openTableTab d' t' c))))"
proof -
  obtain target where target: "find_tab mt_key (table_key d t) (my_tabs c) = Some target"
    using assms(1) find_tab_None by fastforce
  then have "mt_closable target" using assms(3) find_tab_Some [OF target] by (auto simp: list_all_iff)
  then have "my_tabs (closeTab_from (my_tabs c) active (table_key d t) s) =
      filter (\<lambda>tab. mt_key tab \<noteq> table_key d t \<or> \<not> mt_closable tab) (my_tabs c)" for active and s :: "'c mysql_page"
    using target by (simp add: closeTab_from_def strip_close_def Let_def)
  then have closed: "my_tabs (fst (confirm_done c (DropTable d t) s)) =
      filter (\<lambda>tab. mt_key tab \<noteq> table_key d t \<or> \<not> mt_closable tab) (my_tabs c)" for s :: "'c mysql_page"
    by (simp add: confirm_done_def split: prod.split)
  have "find_tab mt_key (table_key d' t') (my_tabs c) = None" using assms(2) by (simp add: find_tab_None)
  then have "my_tabs (openTableTab d' t' c) = my_tabs c @ [table_tab d' t']"
    by (simp add: open_tab_simps)
  then show ?thesis using assms(2) by (auto simp: closed table_tab_def)
qed

theorem drop_forgets_tab_witness:
  "table_key ''d'' ''b'' \<notin> mt_key ` set (my_tabs (fst (confirm_done (openTableTab ''d'' ''a'' (init_mysql_page ''d''))
     (DropTable ''d'' ''a'') (openTableTab ''d'' ''b'' (openTableTab ''d'' ''a'' (init_mysql_page ''d'' :: unit mysql_page))))))"
  using drop_forgets_tab [of "''d''" "''a''" "openTableTab ''d'' ''a'' (init_mysql_page ''d'' :: unit mysql_page)" "''d''" "''b''"]
  by (simp add: open_tab_simps table_key_def init_mysql_page_def find_tab_def)

text \<open>The grants of a user that arrive after another one was selected are shown as those of the other.\<close>

theorem late_grants_under_other_user:
  "let s1 = fst (viewGrants_begin u h s); s2 = fst (viewGrants_begin u' h' s1);
       s3 = viewGrants_done g (viewGrants_done g' s2)
   in my_selUser s3 = Some (u', h') \<and> my_grants s3 = g"
  by (simp add: viewGrants_begin_def viewGrants_done_def)

text \<open>
  Going to another tab and back starts the tab afresh: whatever its component held, edits that were not saved or the text of a
  query, is gone.
\<close>

theorem switch_discards_tab_state:
  assumes "find_tab mt_key a (my_tabs s) = Some ta" "find_tab mt_key b (my_tabs s) = Some tb" "a \<noteq> b"
    and "my_activeTabKey s = a" "my_mounted s = Some (a, c)"
  shows "my_mounted (foldl (tab_step t init) s [ActivateTab b, RenderTabs, ActivateTab a, RenderTabs]) = Some (a, init ta)"
proof -
  have "mt_key ta = a" "mt_key tb = b" using find_tab_Some [OF assms(1)] find_tab_Some [OF assms(2)] by blast+
  then show ?thesis using assms by (simp add: render_tabs_def)
qed

theorem switch_discards_tab_state_witness:
  "my_mounted (foldl (tab_step (\<lambda>k _. k) (\<lambda>_. ''empty'')) ((init_mysql_page ''d'')\<lparr>my_activeTabKey := ''sql_1'', my_mounted := Some (''sql_1'', ''SELECT 1'')\<rparr>)
     [ActivateTab ''status'', RenderTabs, ActivateTab ''sql_1'', RenderTabs]) = Some (''sql_1'', ''empty'')"
  by (rule switch_discards_tab_state [where c = "''SELECT 1''"]) (simp_all add: init_mysql_page_def find_tab_def)

end
