(* ===== verification/Wiki.thy ===== *)
theory Wiki
  imports JsValue
begin

section \<open>The wiki\<close>

text \<open>
  \<open>pages/wiki/WikiClient.tsx\<close>: the tree of documents, the document that is open with its editor, saving, and the dialogs for
  new, renamed and deleted nodes. Handlers are split at their awaits; \<open>selectDoc\<close> has the number of its
  request, and what a handler captured is an argument of its later steps. The deferred values of React are the values
  themselves. The messages of a session that is compiled into the wiki are an argument.
\<close>

subsection \<open>State\<close>

datatype wiki_node =
  WikiNode (wn_id: string) (wn_name: string) (wn_rel_path: string) (wn_is_folder: bool) (wn_size: "int option")
    (wn_updated_at: int) (wn_children: "wiki_node list option")

datatype wiki_view = Preview | EditView | SplitView

datatype name_kind = CreateFile | CreateFolder | RenameNode

record wiki_name_modal =
  nm_open :: bool
  nm_type :: name_kind
  nm_parentPath :: string
  nm_targetPath :: string
  nm_initialValue :: string

record wiki =
  wk_mounted :: bool
  wk_reqId :: nat
  wk_tree :: "wiki_node list"
  wk_dir :: string
  wk_loading :: bool
  wk_keyword :: string
  wk_selectedPath :: "string option"
  wk_selectedNode :: "wiki_node option"
  wk_content :: string
  wk_original :: string
  wk_saving :: bool
  wk_viewMode :: wiki_view
  wk_selectedRef :: "string option"
  wk_expandedKeys :: "string list"
  wk_nameModal :: wiki_name_modal
  wk_nameInput :: string
  wk_submitting :: bool
  wk_deleteTarget :: "(string \<times> bool) option"
  wk_deleting :: bool
  wk_compileOpen :: bool
  wk_compiling :: bool
  wk_sessionId :: string
  wk_messages :: "string list"

record formatted_message =
  fm_role :: js_value
  fm_content :: js_value
  fm_reasoningContent :: js_value

datatype wiki_call =
    WikiReadPage nat string
  | WikiListTree
  | WikiSavePage string string
  | WikiCreateNode string string bool
  | WikiRenameNode string string
  | WikiDeleteNode string
  | AgentMessages string
  | WikiCompileSession string "formatted_message list"

definition init_wiki :: wiki where
  "init_wiki =
     \<lparr>wk_mounted = True, wk_reqId = 0, wk_tree = [], wk_dir = [], wk_loading = False, wk_keyword = [], wk_selectedPath = None,
      wk_selectedNode = None, wk_content = [], wk_original = [], wk_saving = False, wk_viewMode = Preview, wk_selectedRef = None,
      wk_expandedKeys = [], wk_nameModal = \<lparr>nm_open = False, nm_type = CreateFile, nm_parentPath = [], nm_targetPath = [],
        nm_initialValue = []\<rparr>, wk_nameInput = [], wk_submitting = False, wk_deleteTarget = None, wk_deleting = False,
      wk_compileOpen = False, wk_compiling = False, wk_sessionId = ''agent_history'', wk_messages = []\<rparr>"

definition say :: "string \<Rightarrow> wiki \<Rightarrow> wiki" where
  "say m s = s\<lparr>wk_messages := wk_messages s @ [m]\<rparr>"

definition isDirty :: "wiki \<Rightarrow> bool" where
  "isDirty s \<longleftrightarrow> truthy (wk_selectedPath s) \<and> wk_content s \<noteq> wk_original s"

definition unmount_wiki :: "wiki \<Rightarrow> wiki" where
  "unmount_wiki s = s\<lparr>wk_mounted := False, wk_reqId := wk_reqId s + 1\<rparr>"


subsection \<open>Opening a document\<close>

definition start_read :: "wiki_node \<Rightarrow> wiki \<Rightarrow> wiki \<times> wiki_call list" where
  "start_read node s = (s\<lparr>wk_reqId := wk_reqId s + 1\<rparr>, [WikiReadPage (wk_reqId s + 1) (wn_rel_path node)])"

definition selectDoc_begin :: "bool \<Rightarrow> wiki_node \<Rightarrow> wiki \<Rightarrow> wiki \<times> wiki_call list \<times> bool" where
  \<comment> \<open>\<open>dirty\<close> is what the handler captured; whether the question about unsaved changes is put\<close>
  "selectDoc_begin dirty node s =
     (if wn_is_folder node then (s, [], False)
      else if dirty then (s, [], True)
      else let (s1, cs) = start_read node s in (s1, cs, False))"

definition selectDoc_answer :: "bool \<Rightarrow> wiki_node \<Rightarrow> wiki \<Rightarrow> wiki \<times> wiki_call list" where
  "selectDoc_answer proceed node s = (if proceed then start_read node s else (s, []))"

definition selectDoc_done :: "nat \<Rightarrow> wiki_node \<Rightarrow> string \<Rightarrow> wiki \<Rightarrow> wiki" where
  "selectDoc_done n node text s =
     (if \<not> wk_mounted s \<or> n \<noteq> wk_reqId s then s
      else s\<lparr>wk_selectedPath := Some (wn_rel_path node), wk_selectedNode := Some node, wk_content := text, wk_original := text\<rparr>)"


subsection \<open>The tree\<close>



definition loadTree_begin :: "wiki \<Rightarrow> wiki \<times> wiki_call list" where
  "loadTree_begin s = (s\<lparr>wk_loading := True\<rparr>, [WikiListTree])"



datatype doc_tree = DocTree (dt_node: wiki_node) (dt_sub: "doc_tree list option")

fun filterAndConvert :: "string \<Rightarrow> wiki_node list \<Rightarrow> doc_tree list" where
  "filterAndConvert kw [] = []"
| "filterAndConvert kw (WikiNode i n r folder sz u ch # rest) =
     (let matchSelf = (kw = [] \<or> includes_str (to_lower n) kw \<or> includes_str (to_lower r) kw);
          sub = (case ch of Some cs \<Rightarrow> if folder then filterAndConvert kw cs else [] | None \<Rightarrow> []) in
      (if matchSelf \<or> sub \<noteq> [] then [DocTree (WikiNode i n r folder sz u ch) (if folder then Some sub else None)] else []) @
      filterAndConvert kw rest)"

definition treeNodes :: "wiki \<Rightarrow> doc_tree list" where
  "treeNodes s = filterAndConvert (to_lower (trim (wk_keyword s))) (wk_tree s)"

fun count_docs :: "wiki_node list \<Rightarrow> nat" where
  "count_docs [] = 0"
| "count_docs (WikiNode i n r folder sz u ch # rest) =
     (if folder then (case ch of Some cs \<Rightarrow> count_docs cs | None \<Rightarrow> 0) else 1) + count_docs rest"

subsection \<open>Saving\<close>

definition edit_doc :: "string \<Rightarrow> wiki \<Rightarrow> wiki" where
  "edit_doc text s = s\<lparr>wk_content := text\<rparr>"

definition saveDoc_begin :: "wiki \<Rightarrow> wiki \<times> wiki_call list" where
  "saveDoc_begin s =
     (if \<not> isDirty s then (s, [])
      else (s\<lparr>wk_saving := True\<rparr>, [WikiSavePage (the (wk_selectedPath s)) (wk_content s)]))"

definition saveDoc_done :: "translator \<Rightarrow> wiki \<Rightarrow> wiki \<Rightarrow> wiki \<times> wiki_call list" where
  \<comment> \<open>\<open>c\<close> is the state of the render in which the handler was made\<close>
  "saveDoc_done t c s =
     (if \<not> wk_mounted s then (s, [])
      else loadTree_begin ((say (t ''wiki:savedToLocal'' []) (s\<lparr>wk_original := wk_content c\<rparr>))\<lparr>wk_saving := False\<rparr>))"


subsection \<open>New, renamed and deleted nodes\<close>





definition created_node :: "string \<Rightarrow> string \<Rightarrow> int \<Rightarrow> wiki_node" where
  \<comment> \<open>the new document, which is then opened with \<open>selectDoc\<close>\<close>
  "created_node path name now = WikiNode path name path False None (now div 1000) None"










subsection \<open>Compiling a session\<close>







subsection \<open>Runs, with the files on disk\<close>









lemma mounted_say [simp]: "wk_mounted (say m s) = wk_mounted s" "wk_selectedPath (say m s) = wk_selectedPath s"
  "wk_original (say m s) = wk_original s" "wk_content (say m s) = wk_content s"
  by (simp_all add: say_def)









definition demo_doc :: "string \<Rightarrow> wiki_node" where
  "demo_doc p = WikiNode p p p False None 0 None"


subsection \<open>Where text is lost\<close>

text \<open>
  What is typed while another document is on its way is replaced without a question: the question comes only at the
  click.
\<close>

theorem typed_while_reading_lost:
  assumes "wk_mounted s" "\<not> isDirty s" "\<not> wn_is_folder node" "truthy (wk_selectedPath s)" "typed \<noteq> wk_original s"
  shows "\<exists>s1 n. selectDoc_begin (isDirty s) node s = (s1, [WikiReadPage n (wn_rel_path node)], False) \<and>
    isDirty (edit_doc typed s1) \<and> wk_content (selectDoc_done n node text (edit_doc typed s1)) = text \<and>
    \<not> isDirty (selectDoc_done n node text (edit_doc typed s1))"
  using assms by (auto simp: selectDoc_begin_def start_read_def edit_doc_def selectDoc_done_def isDirty_def Let_def)

definition demo_wiki :: wiki where
  "demo_wiki = init_wiki\<lparr>wk_selectedPath := Some ''a.md'', wk_content := ''x'', wk_original := ''x''\<rparr>"

theorem typed_while_reading_lost_witness:
  "\<exists>s1 n. selectDoc_begin (isDirty demo_wiki) (demo_doc ''b.md'') demo_wiki = (s1, [WikiReadPage n (wn_rel_path (demo_doc ''b.md''))], False) \<and>
    isDirty (edit_doc ''xy'' s1) \<and> wk_content (selectDoc_done n (demo_doc ''b.md'') ''z'' (edit_doc ''xy'' s1)) = ''z'' \<and>
    \<not> isDirty (selectDoc_done n (demo_doc ''b.md'') ''z'' (edit_doc ''xy'' s1))"
  by (rule typed_while_reading_lost) (simp_all add: demo_wiki_def init_wiki_def isDirty_def demo_doc_def)

text \<open>
  The end of a save that finds another document open marks that one as changed, though its text is the one on disk.
\<close>

theorem save_end_marks_other_document:
  assumes "wk_mounted s" "isDirty s" "rel \<noteq> []" "text \<noteq> wk_content s" "wn_rel_path node = rel" "\<not> wn_is_folder node"
  shows "let (s1, _) = saveDoc_begin s; (s2, _) = selectDoc_answer True node s1; s3 = selectDoc_done (wk_reqId s2) node text s2
    in \<not> isDirty s3 \<and> isDirty (fst (saveDoc_done t s s3))"
  using assms by (simp add: saveDoc_begin_def selectDoc_answer_def start_read_def selectDoc_done_def saveDoc_done_def isDirty_def
      loadTree_begin_def Let_def)

theorem save_end_marks_other_document_witness:
  "let s = demo_wiki\<lparr>wk_content := ''xy''\<rparr>; (s1, _) = saveDoc_begin s; (s2, _) = selectDoc_answer True (demo_doc ''b.md'') s1;
       s3 = selectDoc_done (wk_reqId s2) (demo_doc ''b.md'') ''z'' s2
    in \<not> isDirty s3 \<and> isDirty (fst (saveDoc_done (\<lambda>k _. k) s s3))"
  using save_end_marks_other_document [of "demo_wiki\<lparr>wk_content := ''xy''\<rparr>" "''b.md''" "''z''" "demo_doc ''b.md''" "\<lambda>k _. k"]
  by (simp add: demo_wiki_def init_wiki_def isDirty_def demo_doc_def Let_def)

end
