(* ===== verification/Json.thy ===== *)
theory Json
  imports DbCell
begin

section \<open>JSON\<close>

text \<open>
  \<open>JSON.stringify\<close> and \<open>JSON.parse\<close>, as far as the program uses them: one argument each. A number literal is what
  \<open>String\<close> prints of its value (\<open>number_text_of\<close>, whose parameter prints the doubles that are no small integers). The entries of an
  object come in the order in which \<open>Object.entries\<close> gives them, array indices first.
\<close>

subsection \<open>Writing\<close>

definition json_hex_char :: "nat \<Rightarrow> char" where
  "json_hex_char n = (if n < 10 then char_of (48 + n) else char_of (87 + n))"

definition json_char :: "char \<Rightarrow> string" where
  "json_char c =
     (if c = CHR 0x22 then [CHR 0x5C, CHR 0x22]
      else if c = CHR 0x5C then [CHR 0x5C, CHR 0x5C]
      else if c = CHR 0x08 then [CHR 0x5C, CHR ''b'']
      else if c = CHR 0x09 then [CHR 0x5C, CHR ''t'']
      else if c = CHR 0x0A then [CHR 0x5C, CHR ''n'']
      else if c = CHR 0x0C then [CHR 0x5C, CHR ''f'']
      else if c = CHR 0x0D then [CHR 0x5C, CHR ''r'']
      else if of_char c < (32 :: nat)
      then [CHR 0x5C, CHR ''u'', CHR ''0'', CHR ''0'', json_hex_char (of_char c div 16), json_hex_char (of_char c mod 16)]
      else [c])"

definition json_quote :: "string \<Rightarrow> string" where
  "json_quote s = CHR 0x22 # concat (map json_char s) @ [CHR 0x22]"

fun json_text :: "js_value \<Rightarrow> string" where
  \<comment> \<open>of a value inside an array, where undefined is null\<close>
  "json_text JUndef = ''null''"
| "json_text JNull = ''null''"
| "json_text (JBool b) = (if b then ''true'' else ''false'')"
| "json_text (JNum t) = (if t \<in> {''NaN'', ''Infinity'', ''-Infinity''} then ''null'' else if t = ''-0'' then ''0'' else t)"
| "json_text (JStr s) = json_quote s"
| "json_text (JArr vs) = ''['' @ join '','' (map json_text vs) @ '']''"
| "json_text (JObj es) =
     ''{'' @ join '','' (concat (map (\<lambda>(k, v). if v = JUndef then [] else [json_quote k @ '':'' @ json_text v]) es)) @ ''}''"

definition json_stringify :: "js_value \<Rightarrow> string option" where
  "json_stringify v = (if v = JUndef then None else Some (json_text v))"

text \<open>
  \<open>JSON.stringify(v, null, gap)\<close>: nothing is broken where the gap is 0. \<open>n\<close> is the indentation of the line that \<open>v\<close> begins on.
\<close>

definition json_break :: "nat \<Rightarrow> nat \<Rightarrow> string" where
  "json_break gap n = (if gap = 0 then [] else CHR 0x0A # replicate n (CHR 0x20))"

definition json_colon :: "nat \<Rightarrow> string" where
  "json_colon gap = (if gap = 0 then '':'' else '': '')"

fun json_indent :: "nat \<Rightarrow> nat \<Rightarrow> js_value \<Rightarrow> string" where
  "json_indent gap n (JArr vs) =
     (if vs = [] then ''[]''
      else ''['' @ json_break gap (n + gap) @ join ('','' @ json_break gap (n + gap)) (map (json_indent gap (n + gap)) vs) @
        json_break gap n @ '']'')"
| "json_indent gap n (JObj es) =
     (let ms = concat (map (\<lambda>(k, v). if v = JUndef then [] else [json_quote k @ json_colon gap @ json_indent gap (n + gap) v]) es) in
      if ms = [] then ''{}''
      else ''{'' @ json_break gap (n + gap) @ join ('','' @ json_break gap (n + gap)) ms @ json_break gap n @ ''}'')"
| "json_indent gap n v = json_text v"

lemma json_indent_0: "json_indent 0 n v = json_text v"
proof (induction v)
  case (JArr vs)
  then have "map (json_indent 0 n) vs = map json_text vs" by simp
  then show ?case by (auto simp: json_break_def cong: map_cong)
next
  case (JObj es)
  define ms where "ms = concat (map (\<lambda>(k, v). if v = JUndef then [] else [json_quote k @ '':'' @ json_text v]) es)"
  have "concat (map (\<lambda>(k, v). if v = JUndef then [] else [json_quote k @ json_colon 0 @ json_indent 0 (n + 0) v]) es) = ms"
    unfolding ms_def by (rule arg_cong [where f = concat], rule map_cong [OF refl]) (use JObj in \<open>auto simp: snds.simps json_colon_def\<close>)
  then show ?case by (simp only: json_indent.simps json_text.simps Let_def flip: ms_def) (cases "ms = []", simp_all add: json_break_def)
qed simp_all

subsection \<open>Reading\<close>

definition json_hex_value :: "char \<Rightarrow> nat option" where
  "json_hex_value c =
     (let n = of_char c :: nat in
      if 48 \<le> n \<and> n \<le> 57 then Some (n - 48)
      else if 97 \<le> n \<and> n \<le> 102 then Some (n - 87)
      else if 65 \<le> n \<and> n \<le> 70 then Some (n - 55)
      else None)"

fun hex4 :: "string \<Rightarrow> (nat \<times> string) option" where
  "hex4 (a # b # c # d # r) =
     (case (json_hex_value a, json_hex_value b, json_hex_value c, json_hex_value d) of
        (Some i, Some j, Some k, Some l) \<Rightarrow> Some (((i * 16 + j) * 16 + k) * 16 + l, r)
      | _ \<Rightarrow> None)"
| "hex4 _ = None"

definition utf8_bytes :: "nat \<Rightarrow> string" where
  \<comment> \<open>a surrogate without its other half in three bytes\<close>
  "utf8_bytes cp = map char_of
     (if cp < 0x80 then [cp]
      else if cp < 0x800 then [0xC0 + cp div 64, 0x80 + cp mod 64]
      else if cp < 0x10000 then [0xE0 + cp div 4096, 0x80 + cp div 64 mod 64, 0x80 + cp mod 64]
      else [0xF0 + cp div 262144, 0x80 + cp div 4096 mod 64, 0x80 + cp div 64 mod 64, 0x80 + cp mod 64])"

definition simple_escape :: "char \<Rightarrow> char option" where
  "simple_escape c =
     (if c = CHR 0x22 \<or> c = CHR 0x5C \<or> c = CHR ''/'' then Some c
      else if c = CHR ''b'' then Some (CHR 0x08)
      else if c = CHR ''t'' then Some (CHR 0x09)
      else if c = CHR ''n'' then Some (CHR 0x0A)
      else if c = CHR ''f'' then Some (CHR 0x0C)
      else if c = CHR ''r'' then Some (CHR 0x0D)
      else None)"

definition low_surrogate :: "string \<Rightarrow> (nat \<times> string) option" where
  \<comment> \<open>\<open>\uDC00\<close> to \<open>\uDFFF\<close> at the head of the text\<close>
  "low_surrogate s =
     (case s of
        b # u # r \<Rightarrow>
          if b = CHR 0x5C \<and> u = CHR ''u''
          then (case hex4 r of Some (n, r') \<Rightarrow> if 0xDC00 \<le> n \<and> n < 0xE000 then Some (n, r') else None | None \<Rightarrow> None)
          else None
      | _ \<Rightarrow> None)"

definition unicode_escape :: "string \<Rightarrow> (string \<times> string) option" where
  "unicode_escape s =
     (case hex4 s of
        None \<Rightarrow> None
      | Some (n, r) \<Rightarrow>
          if 0xD800 \<le> n \<and> n < 0xDC00
          then (case low_surrogate r of
                  Some (m, r') \<Rightarrow> Some (utf8_bytes (0x10000 + (n - 0xD800) * 0x400 + (m - 0xDC00)), r')
                | None \<Rightarrow> Some (utf8_bytes n, r))
          else Some (utf8_bytes n, r))"

fun parse_str :: "nat \<Rightarrow> string \<Rightarrow> (string \<times> string) option" where
  \<comment> \<open>after the opening quote; each round takes a character\<close>
  "parse_str 0 s = None"
| "parse_str (Suc n) s =
     (case s of
        [] \<Rightarrow> None
      | c # r \<Rightarrow>
          if c = CHR 0x22 then Some ([], r)
          else if c = CHR 0x5C then
            (case r of
               [] \<Rightarrow> None
             | e # r1 \<Rightarrow>
                 (case (if e = CHR ''u'' then unicode_escape r1 else map_option (\<lambda>x. ([x], r1)) (simple_escape e)) of
                    None \<Rightarrow> None
                  | Some (t, r2) \<Rightarrow> map_option (\<lambda>(u, q). (t @ u, q)) (parse_str n r2)))
          else if of_char c < (32 :: nat) then None
          else map_option (\<lambda>(u, q). (c # u, q)) (parse_str n r))"

definition json_white :: "char \<Rightarrow> bool" where
  "json_white c \<longleftrightarrow> c \<in> {CHR 0x20, CHR 0x09, CHR 0x0A, CHR 0x0D}"

definition skip :: "string \<Rightarrow> string" where
  "skip = dropWhile json_white"

definition json_digits :: "string \<Rightarrow> (string \<times> string) option" where
  "json_digits s = (let d = takeWhile is_digit s in if d = [] then None else Some (d, dropWhile is_digit s))"

definition scan_int :: "string \<Rightarrow> (string \<times> string) option" where
  "scan_int s =
     (case s of
        c # r \<Rightarrow> if c = CHR ''0'' then Some ([c], r) else json_digits s
      | [] \<Rightarrow> None)"

definition scan_frac :: "string \<Rightarrow> (string \<times> string) option" where
  "scan_frac s =
     (case s of
        c # r \<Rightarrow> if c = CHR ''.'' then map_option (\<lambda>(d, q). (c # d, q)) (json_digits r) else Some ([], s)
      | [] \<Rightarrow> Some ([], s))"

definition scan_exp :: "string \<Rightarrow> (string \<times> string) option" where
  "scan_exp s =
     (case s of
        c # r \<Rightarrow>
          if c = CHR ''e'' \<or> c = CHR ''E''
          then (case r of
                  g # q \<Rightarrow> if g = CHR ''+'' \<or> g = CHR ''-'' then map_option (\<lambda>(d, q'). (c # g # d, q')) (json_digits q)
                           else map_option (\<lambda>(d, q'). (c # d, q')) (json_digits r)
                | [] \<Rightarrow> None)
          else Some ([], s)
      | [] \<Rightarrow> Some ([], s))"

definition scan_number :: "string \<Rightarrow> (string \<times> string) option" where
  "scan_number s =
     (let (sign, s0) = (if prefix ''-'' s then (''-'', tl s) else ([], s)) in
      case scan_int s0 of
        None \<Rightarrow> None
      | Some (i, s1) \<Rightarrow>
          (case scan_frac s1 of
             None \<Rightarrow> None
           | Some (f, s2) \<Rightarrow> map_option (\<lambda>(e, s3). (sign @ i @ f @ e, s3)) (scan_exp s2)))"

definition array_index :: "string \<Rightarrow> nat option" where
  \<comment> \<open>a key that is an array index: objects list these first, in ascending order\<close>
  "array_index k =
     (if k \<noteq> [] \<and> list_all is_digit k \<and> show_nat (read_digits k) = k \<and> read_digits k < 2 ^ 32 - 1 then Some (read_digits k) else None)"

fun insert_entry :: "nat \<Rightarrow> string \<times> js_value \<Rightarrow> (string \<times> js_value) list \<Rightarrow> (string \<times> js_value) list" where
  "insert_entry n e [] = [e]"
| "insert_entry n e (x # xs) =
     (case array_index (fst x) of
        Some m \<Rightarrow> if m < n then x # insert_entry n e xs else e # x # xs
      | None \<Rightarrow> e # x # xs)"

definition put_entry :: "(string \<times> js_value) list \<Rightarrow> string \<times> js_value \<Rightarrow> (string \<times> js_value) list" where
  \<comment> \<open>\<open>obj[k] = v\<close>\<close>
  "put_entry es e =
     (if fst e \<in> fst ` set es then map (\<lambda>x. if fst x = fst e then e else x) es
      else case array_index (fst e) of Some n \<Rightarrow> insert_entry n e es | None \<Rightarrow> es @ [e])"

fun parse_value :: "(js_double \<Rightarrow> string) \<Rightarrow> nat \<Rightarrow> string \<Rightarrow> (js_value \<times> string) option"
  and parse_elems :: "(js_double \<Rightarrow> string) \<Rightarrow> nat \<Rightarrow> string \<Rightarrow> (js_value list \<times> string) option"
  and parse_members :: "(js_double \<Rightarrow> string) \<Rightarrow> nat \<Rightarrow> string \<Rightarrow> ((string \<times> js_value) list \<times> string) option" where
  "parse_value pr 0 s = None"
| "parse_value pr (Suc n) s =
     (case skip s of
        [] \<Rightarrow> None
      | c # r \<Rightarrow>
          if c = CHR 0x22 then map_option (\<lambda>(t, q). (JStr t, q)) (parse_str (Suc (length r)) r)
          else if c = CHR ''['' then
            (if prefix '']'' (skip r) then Some (JArr [], tl (skip r))
             else map_option (\<lambda>(vs, q). (JArr vs, q)) (parse_elems pr n r))
          else if c = CHR 0x7B then
            (if prefix ''}'' (skip r) then Some (JObj [], tl (skip r))
             else map_option (\<lambda>(es, q). (JObj (foldl put_entry [] es), q)) (parse_members pr n r))
          else if prefix ''true'' (c # r) then Some (JBool True, drop 4 (c # r))
          else if prefix ''false'' (c # r) then Some (JBool False, drop 5 (c # r))
          else if prefix ''null'' (c # r) then Some (JNull, drop 4 (c # r))
          else map_option (\<lambda>(t, q). (JNum (number_text_of pr (number_of_text t)), q)) (scan_number (c # r)))"
| "parse_elems pr 0 s = None"
| "parse_elems pr (Suc n) s =
     (case parse_value pr n s of
        None \<Rightarrow> None
      | Some (v, r) \<Rightarrow>
          if prefix '']'' (skip r) then Some ([v], tl (skip r))
          else if prefix '','' (skip r) then map_option (\<lambda>(vs, q). (v # vs, q)) (parse_elems pr n (tl (skip r)))
          else None)"
| "parse_members pr 0 s = None"
| "parse_members pr (Suc n) s =
     (if \<not> prefix [CHR 0x22] (skip s) then None
      else case parse_str (length (skip s)) (tl (skip s)) of
        None \<Rightarrow> None
      | Some (k, r) \<Rightarrow>
          if \<not> prefix '':'' (skip r) then None
          else (case parse_value pr n (tl (skip r)) of
                  None \<Rightarrow> None
                | Some (v, q) \<Rightarrow>
                    if prefix ''}'' (skip q) then Some ([(k, v)], tl (skip q))
                    else if prefix '','' (skip q) then map_option (\<lambda>(es, q'). ((k, v) # es, q')) (parse_members pr n (tl (skip q)))
                    else None))"

definition json_parse :: "(js_double \<Rightarrow> string) \<Rightarrow> string \<Rightarrow> js_value option" where
  \<comment> \<open>None when it throws; twice the length is enough rounds, since every second one takes a character\<close>
  "json_parse pr s =
     (case parse_value pr (2 * length s + 1) s of
        Some (v, r) \<Rightarrow> if skip r = [] then Some v else None
      | None \<Rightarrow> None)"

subsection \<open>Entries of an object\<close>

lemma put_entry_first [simp]: "put_entry [] e = [e]"
  by (simp add: put_entry_def split: option.split)

lemma map_of_insert_entry: "fst e \<notin> fst ` set es \<Longrightarrow> map_of (insert_entry n e es) = (map_of es)(fst e \<mapsto> snd e)"
  by (induction n e es rule: insert_entry.induct) (auto split: option.split intro!: ext)

lemma map_of_replace: "fst e \<in> fst ` set es \<Longrightarrow> map_of (map (\<lambda>x. if fst x = fst e then e else x) es) = (map_of es)(fst e \<mapsto> snd e)"
proof (induction es)
  case (Cons x es)
  show ?case
  proof (cases "fst e \<in> fst ` set es")
    case True
    with Cons.IH show ?thesis by (auto simp: fun_eq_iff)
  next
    case False
    then have "fst x \<noteq> fst e" if "x \<in> set es" for x using that by (metis image_eqI)
    then have "map (\<lambda>x. if fst x = fst e then e else x) es = es" by (intro map_idI) simp
    with Cons.prems False show ?thesis by (auto simp: fun_eq_iff)
  qed
qed simp

lemma map_of_put_entry: "map_of (put_entry es e) = (map_of es)(fst e \<mapsto> snd e)"
proof (cases "fst e \<in> fst ` set es")
  case True
  then show ?thesis by (simp add: put_entry_def map_of_replace)
next
  case False
  then have "map_of es (fst e) = None" by (simp add: map_of_eq_None_iff)
  then have "map_of (es @ [e]) = (map_of es)(fst e \<mapsto> snd e)"
    by (auto simp: fun_eq_iff map_add_def split: option.split)
  with False show ?thesis by (auto simp: put_entry_def map_of_insert_entry split: option.split)
qed

lemma map_of_puts: "map_of (foldl put_entry base es) = map_of base ++ map_of (rev es)"
proof (induction es rule: rev_induct)
  case (snoc e es)
  then show ?case by (cases e) (auto simp: map_of_put_entry fun_eq_iff map_add_def)
qed simp

subsection \<open>Small integers\<close>

lemma ilog2_bounds: "0 < n \<Longrightarrow> 2 ^ ilog2 n \<le> n \<and> n < 2 ^ Suc (ilog2 n)"
proof (induction n rule: ilog2.induct)
  case (1 n)
  show ?case
  proof (cases "n < 2")
    case True
    with 1 have "n = 1" by simp
    then show ?thesis by (simp_all add: ilog2.simps)
  next
    case False
    then have "2 ^ ilog2 (n div 2) \<le> n div 2 \<and> n div 2 < 2 ^ Suc (ilog2 (n div 2))" using 1 by simp
    moreover have "ilog2 n = Suc (ilog2 (n div 2))" using False by (simp add: ilog2.simps [of n])
    ultimately show ?thesis by (auto simp: less_mult_imp_div_less)
  qed
qed

lemma half_even_whole: "half_even n 1 = n"
  by (simp add: half_even_def)

lemma small_int_exact:
  assumes "n < 2 ^ 53"
  shows "integer_value (double_of_ratio False n 1) = Some (int n)"
proof (cases "n = 0")
  case True
  then show ?thesis by (simp add: double_of_ratio_def integer_value_def)
next
  case False
  define L where "L = ilog2 n"
  have L: "2 ^ L \<le> n" "n < 2 ^ Suc L" using ilog2_bounds [of n] False by (simp_all add: L_def)
  have "(2::nat) ^ L < 2 ^ 53" using L(1) assms by (rule le_less_trans)
  then have "L < 53" by (rule power_less_imp_less_exp [rotated]) simp
  then have "L \<le> 52" by simp
  then have scale: "(2::nat) ^ 52 = 2 ^ L * 2 ^ (52 - L)" "(2::nat) ^ 53 = 2 ^ Suc L * 2 ^ (52 - L)"
    by (simp_all flip: power_add)
  have lo: "2 ^ 52 \<le> n * 2 ^ (52 - L)" unfolding scale(1) using L(1) by simp
  have hi: "n * 2 ^ (52 - L) < 2 ^ 53" unfolding scale(2) using L(2) by simp
  have zero: "ilog2 (Suc 0) = 0" "half_even m (Suc 0) = m" for m using half_even_whole [of m] by (simp_all add: ilog2.simps)
  have neg: "nat (- (int L - 52)) = 52 - L" "nat (52 - int L) = 52 - L" using \<open>L \<le> 52\<close> by auto
  have "double_of_ratio False n 1 = DFin False (n * 2 ^ (52 - L)) (int L - 52)"
  proof (cases "L = 52")
    case True
    with lo hi False show ?thesis
      by (simp add: double_of_ratio_def zero Let_def flip: L_def)
  next
    case lt: False
    have "(if 0 \<le> int L - 52 then (2::nat) ^ 52 * 2 ^ nat (int L - 52) \<le> n else 2 ^ 52 \<le> n * 2 ^ nat (- (int L - 52)))"
      using lo \<open>L \<le> 52\<close> lt by (simp add: neg)
    moreover have "\<not> 0 \<le> int L - 52" using \<open>L \<le> 52\<close> lt by simp
    moreover have "n * 2 ^ (52 - L) \<noteq> 2 ^ 53" "n * 2 ^ (52 - L) \<noteq> 0" using hi False by simp_all
    ultimately show ?thesis
      using lo \<open>L \<le> 52\<close> False
      by (simp add: double_of_ratio_def zero neg Let_def flip: L_def)
  qed
  then show ?thesis using \<open>L \<le> 52\<close> by (auto simp: integer_value_def neg)
qed

lemma digit_char_digit: "d < 10 \<Longrightarrow> is_digit (digit_char d)"
proof -
  have "\<forall>d\<in>set [0..<10]. is_digit (digit_char d)" by code_simp
  then show "d < 10 \<Longrightarrow> is_digit (digit_char d)" by simp
qed

lemma show_nat_digit_list: "list_all is_digit (show_nat n)"
proof (induction n rule: show_nat.induct)
  case (1 n)
  then show ?case by (simp add: show_nat.simps [of n] digit_char_digit)
qed

lemma show_nat_not_Nil: "show_nat n \<noteq> []"
  by (subst show_nat.simps) simp

lemma show_nat_head: "show_nat n = c # r \<Longrightarrow> c = CHR ''0'' \<Longrightarrow> r = []"
proof (induction n arbitrary: c r rule: show_nat.induct)
  case (1 n)
  show ?case
  proof (cases "n < 10")
    case True
    with 1 show ?thesis by (simp add: show_nat.simps [of n])
  next
    case False
    obtain d q where d: "show_nat (n div 10) = d # q" using show_nat_not_Nil by (meson neq_Nil_conv)
    with 1 False have "d = CHR ''0''" by (simp add: show_nat.simps [of n])
    with 1 False d have "q = []" by simp
    with d \<open>d = CHR ''0''\<close> have "read_digits (show_nat (n div 10)) = 0" by (simp add: read_digits_def)
    then show ?thesis using False by (simp add: read_show_nat)
  qed
qed

lemma nat_text_canonical: "n < 2 ^ 53 \<Longrightarrow> number_text_of pr (number_of_text (show_nat n)) = show_nat n"
  using small_int_exact [of n]
  by (simp add: number_of_digits show_nat_digit_list show_nat_not_Nil read_show_nat number_text_of_def show_int_def)

subsection \<open>What is written is read back\<close>

definition json_num :: "string \<Rightarrow> bool" where
  "json_num t \<longleftrightarrow> scan_number t = Some (t, [])"

fun json_ok :: "(js_double \<Rightarrow> string) \<Rightarrow> js_value \<Rightarrow> bool" where
  \<comment> \<open>a value that JSON can hold, with its numbers and its objects the way the language presents them\<close>
  "json_ok pr JUndef = False"
| "json_ok pr JNull = True"
| "json_ok pr (JBool b) = True"
| "json_ok pr (JNum t) = (json_num t \<and> t \<noteq> ''-0'' \<and> number_text_of pr (number_of_text t) = t)"
| "json_ok pr (JStr s) = True"
| "json_ok pr (JArr vs) = (\<forall>v\<in>set vs. json_ok pr v)"
| "json_ok pr (JObj es) = ((\<forall>e\<in>set es. json_ok pr (snd e)) \<and> foldl put_entry [] es = es)"

definition stops :: "string \<Rightarrow> bool" where
  "stops rest \<longleftrightarrow> (case rest of [] \<Rightarrow> True | c # _ \<Rightarrow> \<not> is_digit c \<and> c \<notin> {CHR ''.'', CHR ''e'', CHR ''E''})"

lemma stops_simps [simp]: "stops []" "stops (CHR '','' # r)" "stops (CHR '']'' # r)" "stops (CHR 0x7D # r)"
  by (simp_all add: stops_def is_digit_def)

lemma skip_head: "\<not> json_white c \<Longrightarrow> skip (c # r) = c # r"
  by (simp add: skip_def)

lemma skip_marks [simp]:
  "skip (CHR '','' # r) = CHR '','' # r" "skip (CHR '']'' # r) = CHR '']'' # r" "skip (CHR '':'' # r) = CHR '':'' # r"
  "skip (CHR 0x7D # r) = CHR 0x7D # r" "skip (CHR 0x22 # r) = CHR 0x22 # r" "skip [] = []"
  by (simp_all add: skip_def json_white_def)

lemma json_hex_value_char: "n < 16 \<Longrightarrow> json_hex_value (json_hex_char n) = Some n"
  by (auto simp: json_hex_value_def json_hex_char_def)

lemma parse_control:
  assumes "of_char c < (32 :: nat)"
  shows "unicode_escape (CHR ''0'' # CHR ''0'' # json_hex_char (of_char c div 16) # json_hex_char (of_char c mod 16) # r) = Some ([c], r)"
proof -
  have zero: "json_hex_value (CHR ''0'') = Some 0" by (simp add: json_hex_value_def)
  have "of_char c div 16 < (16 :: nat)" "of_char c mod 16 < (16 :: nat)" using assms by auto
  then show ?thesis using assms
    by (simp add: unicode_escape_def json_hex_value_char zero utf8_bytes_def)
qed

lemma parse_json_char: "parse_str (Suc n) (json_char c @ r) = map_option (\<lambda>(u, q). (c # u, q)) (parse_str n r)"
  using parse_control [of c r]
  by (auto simp: json_char_def simple_escape_def split: option.split)

lemma parse_json_quote:
  "length s < n \<Longrightarrow> parse_str n (concat (map json_char s) @ CHR 0x22 # r) = Some (s, r)"
proof (induction s arbitrary: n)
  case Nil
  then show ?case by (cases n) simp_all
next
  case (Cons c s)
  then obtain m where m: "n = Suc m" "length s < m" by (cases n) auto
  with Cons.IH [OF m(2)] show ?case by (simp add: parse_json_char del: parse_str.simps)
qed

lemma length_json_quote: "length s \<le> length (concat (map json_char s))"
proof (induction s)
  case (Cons c s)
  have "1 \<le> length (json_char c)" by (simp add: json_char_def)
  with Cons show ?case by simp
qed simp

lemma json_digits_append:
  assumes "json_digits s = Some (d, r)" "stops rest"
  shows "json_digits (s @ rest) = Some (d, r @ rest)"
proof (cases "\<forall>c\<in>set s. is_digit c")
  case True
  then have "takeWhile is_digit (s @ rest) = s" "dropWhile is_digit (s @ rest) = rest"
    using assms(2) by (auto simp: stops_def takeWhile_append dropWhile_append split: list.splits)
  moreover have all: "takeWhile is_digit s = s" "dropWhile is_digit s = []" using True by simp_all
  moreover have "d = s \<and> r = [] \<and> s \<noteq> []" using assms(1) unfolding json_digits_def all Let_def by (simp split: if_splits)
  ultimately show ?thesis unfolding json_digits_def Let_def by simp
next
  case False
  with assms show ?thesis
    by (auto simp: json_digits_def Let_def takeWhile_append1 dropWhile_append1 split: if_splits)
qed

lemma scan_int_append: "scan_int s = Some (d, r) \<Longrightarrow> stops rest \<Longrightarrow> scan_int (s @ rest) = Some (d, r @ rest)"
  using json_digits_append [of s d r rest] by (cases s) (auto simp: scan_int_def split: if_splits)

lemma scan_frac_append:
  assumes "scan_frac s = Some (d, r)" "stops rest"
  shows "scan_frac (s @ rest) = Some (d, r @ rest)"
proof (cases s)
  case Nil
  with assms show ?thesis by (auto simp: scan_frac_def stops_def split: list.splits)
next
  case (Cons c t)
  with assms show ?thesis
    using json_digits_append [of t _ r rest] by (auto simp: scan_frac_def split: if_splits)
qed

lemma scan_exp_append:
  assumes "scan_exp s = Some (d, r)" "stops rest"
  shows "scan_exp (s @ rest) = Some (d, r @ rest)"
proof (cases s)
  case Nil
  with assms show ?thesis by (auto simp: scan_exp_def stops_def split: list.splits)
next
  case (Cons c t)
  show ?thesis
  proof (cases t)
    case Nil
    with assms Cons show ?thesis by (auto simp: scan_exp_def split: if_splits)
  next
    case (Cons g q)
    with \<open>s = c # t\<close> assms show ?thesis
      using json_digits_append [of q _ r rest] json_digits_append [of t _ r rest]
      by (auto simp: scan_exp_def split: if_splits)
  qed
qed

lemma scan_number_append:
  assumes "json_num t" "stops rest"
  shows "scan_number (t @ rest) = Some (t, rest)"
proof -
  have "t \<noteq> []" using assms(1) by (auto simp: json_num_def scan_number_def scan_int_def)
  define sign s0 where "sign = (if prefix ''-'' t then ''-'' else [])" and "s0 = (if prefix ''-'' t then tl t else t)"
  have heads: "(if prefix ''-'' (t @ rest) then (''-'', tl (t @ rest)) else ([], t @ rest)) = (sign, s0 @ rest)"
    "(if prefix ''-'' t then (''-'', tl t) else ([], t)) = (sign, s0)"
    using \<open>t \<noteq> []\<close> by (cases t; simp add: sign_def s0_def)+
  from assms(1) obtain i s1 f s2 e where parts: "scan_int s0 = Some (i, s1)" "scan_frac s1 = Some (f, s2)"
      "scan_exp s2 = Some (e, [])" "sign @ i @ f @ e = t"
    unfolding json_num_def scan_number_def heads by (auto split: option.splits)
  show ?thesis
    unfolding scan_number_def heads
    by (simp add: scan_int_append [OF parts(1) assms(2)] scan_frac_append [OF parts(2) assms(2)]
        scan_exp_append [OF parts(3) assms(2), simplified] parts(4))
qed

lemma json_num_head:
  assumes "json_num t"
  obtains c r where "t = c # r" "c = CHR ''-'' \<or> is_digit c"
  using assms that
  by (cases t) (auto simp: json_num_def scan_number_def scan_int_def json_digits_def is_digit_def Let_def split: option.splits if_splits list.splits)

lemma json_num_not_white: "json_num (c # r) \<Longrightarrow> \<not> json_white c \<and> c \<notin> {CHR '']'', CHR '','', CHR 0x22, CHR ''['', CHR 0x7B, CHR ''t'', CHR ''f'', CHR ''n''}"
  by (erule json_num_head) (auto simp: json_white_def is_digit_def)

lemma json_indent_head:
  assumes "json_ok pr v"
  shows "\<exists>c r. json_indent gap k v = c # r \<and> \<not> json_white c \<and> c \<noteq> CHR '']''"
proof (cases v)
  case (JNum t)
  with assms have num: "json_num t" "t \<noteq> ''-0''" by simp_all
  then obtain c r where t: "t = c # r" by (elim json_num_head)
  have "json_indent gap k v = c # r" using JNum num t by (auto simp: json_num_def scan_number_def scan_int_def json_digits_def is_digit_def)
  with json_num_not_white [of c r] num t show ?thesis by blast
qed (use assms in \<open>auto simp: json_white_def json_quote_def Let_def\<close>)

lemma skip_break [simp]: "skip (json_break gap n @ r) = skip r"
proof -
  have "skip (replicate n (CHR 0x20) @ r) = skip r" by (induction n) (simp_all add: skip_def json_white_def)
  then show ?thesis by (simp add: json_break_def) (simp add: skip_def json_white_def)
qed

lemma break_stops: "stops (json_break gap n @ r)" if "stops r"
  using that by (simp add: json_break_def stops_def is_digit_def)

lemma parse_value_break: "parse_value pr n (json_break gap k @ r) = parse_value pr n r"
  by (cases n) simp_all

lemma parse_elems_break: "parse_elems pr n (json_break gap k @ r) = parse_elems pr n r"
  by (cases n) (simp_all add: parse_value_break)

lemma parse_members_break: "parse_members pr n (json_break gap k @ r) = parse_members pr n r"
  by (cases n) simp_all

lemma elems_read_back:
  assumes "\<And>v n rest. v \<in> set vs \<Longrightarrow> stops rest \<Longrightarrow> 2 * length (f v) \<le> n \<Longrightarrow> parse_value pr n (f v @ rest) = Some (v, rest)"
    and "vs \<noteq> []" "2 * length (join ('','' @ json_break gap k) (map f vs)) + 1 \<le> n"
  shows "parse_elems pr n (join ('','' @ json_break gap k) (map f vs) @ json_break gap l @ CHR '']'' # rest) = Some (vs, rest)"
  using assms
proof (induction vs arbitrary: n)
  case (Cons v vs)
  then obtain m where n: "n = Suc m" by (cases n) auto
  note first = Cons.prems(1) [OF list.set_intros(1)]
  show ?case
  proof (cases "vs = []")
    case True
    with Cons.prems(3) n have "2 * length (f v) \<le> m" by simp
    with first [of "json_break gap l @ CHR '']'' # rest" m] True n show ?thesis by (simp add: break_stops)
  next
    case False
    with Cons.prems(3) n have len: "2 * length (f v) \<le> m" "2 * length (join ('','' @ json_break gap k) (map f vs)) + 1 \<le> m"
      by (auto simp: join_Cons)
    have "parse_elems pr m (join ('','' @ json_break gap k) (map f vs) @ json_break gap l @ CHR '']'' # rest) = Some (vs, rest)"
      using Cons.IH [OF Cons.prems(1) False len(2)] by simp
    with first [of "CHR '','' # json_break gap k @ join ('','' @ json_break gap k) (map f vs) @ json_break gap l @ CHR '']'' # rest" m] len(1) False n
    show ?thesis by (simp add: join_Cons parse_elems_break)
  qed
qed simp

definition member_text :: "nat \<Rightarrow> (js_value \<Rightarrow> string) \<Rightarrow> string \<times> js_value \<Rightarrow> string" where
  "member_text gap f e = json_quote (fst e) @ json_colon gap @ f (snd e)"

lemma member_head:
  "member_text gap f e @ r = CHR 0x22 # concat (map json_char (fst e)) @ CHR 0x22 # CHR '':'' # tl (json_colon gap) @ f (snd e) @ r"
  by (simp add: member_text_def json_quote_def json_colon_def)

lemma member_longer: "length (f (snd e)) \<le> length (member_text gap f e)"
  by (simp add: member_text_def)

lemma parse_value_colon: "parse_value pr n (tl (json_colon gap) @ r) = parse_value pr n r"
  by (cases n) (simp_all add: json_colon_def skip_def json_white_def)

lemma members_read_back:
  assumes "\<And>e n rest. e \<in> set es \<Longrightarrow> stops rest \<Longrightarrow> 2 * length (f (snd e)) \<le> n \<Longrightarrow> parse_value pr n (f (snd e) @ rest) = Some (snd e, rest)"
    and "es \<noteq> []" "2 * length (join ('','' @ json_break gap k) (map (member_text gap f) es)) + 1 \<le> n"
  shows "parse_members pr n (join ('','' @ json_break gap k) (map (member_text gap f) es) @ json_break gap l @ CHR 0x7D # rest) = Some (es, rest)"
  using assms
proof (induction es arbitrary: n)
  case (Cons e es)
  then obtain m where n: "n = Suc m" by (cases n) auto
  note first = Cons.prems(1) [OF list.set_intros(1)]
  have key: "parse_str j (concat (map json_char (fst e)) @ CHR 0x22 # q) = Some (fst e, q)"
    if "j = length (CHR 0x22 # concat (map json_char (fst e)) @ CHR 0x22 # q)" for j q
    using that length_json_quote [of "fst e"] by (intro parse_json_quote) simp
  show ?case
  proof (cases "es = []")
    case True
    with Cons.prems(3) n have "2 * length (f (snd e)) \<le> m" using member_longer [of f e gap] by simp
    with first [of "json_break gap l @ CHR 0x7D # rest" m] True n show ?thesis
      by (simp add: member_head key parse_value_colon break_stops del: parse_str.simps)
  next
    case False
    with Cons.prems(3) n have len: "2 * length (f (snd e)) \<le> m"
        "2 * length (join ('','' @ json_break gap k) (map (member_text gap f) es)) + 1 \<le> m"
      using member_longer [of f e gap] by (auto simp: join_Cons)
    let ?rest = "join ('','' @ json_break gap k) (map (member_text gap f) es) @ json_break gap l @ CHR 0x7D # rest"
    have "parse_members pr m ?rest = Some (es, rest)" using Cons.IH [OF Cons.prems(1) False len(2)] by simp
    with first [of "CHR '','' # json_break gap k @ ?rest" m] len(1) False n
    show ?thesis by (simp add: join_Cons member_head key parse_value_colon parse_members_break del: parse_str.simps)
  qed
qed simp

lemma members_text:
  assumes "\<And>e. e \<in> set es \<Longrightarrow> json_ok pr (snd e)"
  shows "concat (map (\<lambda>(k, v). if v = JUndef then [] else [json_quote k @ json_colon gap @ f v]) es) = map (member_text gap f) es"
  using assms
proof (induction es)
  case (Cons e es)
  have "snd e \<noteq> JUndef" using Cons.prems [of e] by auto
  with Cons show ?case by (auto simp: member_text_def split: prod.split)
qed simp

lemma value_read_back:
  "json_ok pr v \<Longrightarrow> stops rest \<Longrightarrow> 2 * length (json_indent gap k v) \<le> n \<Longrightarrow>
    parse_value pr n (json_indent gap k v @ rest) = Some (v, rest)"
proof (induction v arbitrary: k n rest)
  case JUndef
  then show ?case by simp
next
  case JNull
  then obtain m where "n = Suc m" by (cases n) auto
  then show ?case by (simp add: skip_head json_white_def)
next
  case (JBool b)
  then obtain m where "n = Suc m" by (cases n) (auto split: if_splits)
  then show ?case by (cases b) (simp_all add: skip_head json_white_def)
next
  case (JNum t)
  then have num: "json_num t" "t \<noteq> ''-0''" "number_text_of pr (number_of_text t) = t" by simp_all
  then obtain c r where t: "t = c # r" by (elim json_num_head)
  have plain: "json_indent gap k (JNum t) = t"
    using num t by (auto simp: json_num_def scan_number_def scan_int_def json_digits_def is_digit_def)
  then obtain m where "n = Suc m" using JNum.prems(3) t by (cases n) auto
  moreover have "skip (t @ rest) = c # (r @ rest)" "\<not> json_white c" "c \<notin> {CHR 0x22, CHR ''['', CHR 0x7B, CHR ''t'', CHR ''f'', CHR ''n''}"
    using json_num_not_white [of c r] num t by (auto simp: skip_head)
  ultimately show ?case
    using scan_number_append [OF num(1) JNum.prems(2)] num(3) t unfolding plain by auto
next
  case (JStr x)
  then obtain m where "n = Suc m" by (cases n) (auto simp: json_quote_def)
  moreover have "parse_str (Suc (length (concat (map json_char x) @ CHR 0x22 # rest))) (concat (map json_char x) @ CHR 0x22 # rest) = Some (x, rest)"
    using length_json_quote [of x] by (intro parse_json_quote) simp
  ultimately show ?case by (simp add: json_quote_def del: parse_str.simps)
next
  case (JArr vs)
  have brace: "skip (CHR ''['' # r) = CHR ''['' # r" for r by (simp add: skip_head json_white_def)
  show ?case
  proof (cases "vs = []")
    case True
    with JArr.prems(3) obtain m where "n = Suc m" by (cases n) auto
    with True show ?thesis by (simp add: brace)
  next
    case False
    with JArr.prems(3) obtain m where n: "n = Suc m" by (cases n) auto
    let ?f = "json_indent gap (k + gap)" and ?sep = "'','' @ json_break gap (k + gap)"
    obtain v ws where vs: "vs = v # ws" using False by (cases vs) auto
    obtain c r where head: "?f v = c # r" "\<not> json_white c" "c \<noteq> CHR '']''"
      using json_indent_head [of pr v gap "k + gap"] JArr.prems(1) vs by auto
    have "parse_elems pr m (join ?sep (map ?f vs) @ json_break gap k @ CHR '']'' # rest) = Some (vs, rest)"
      by (rule elems_read_back) (use JArr False n in auto)
    moreover have "\<not> prefix '']'' (skip (join ?sep (map ?f vs) @ json_break gap k @ CHR '']'' # rest))"
      using head by (simp add: vs join_Cons skip_head)
    ultimately show ?thesis using n False by (simp add: brace parse_elems_break)
  qed
next
  case (JObj es)
  have brace: "skip (CHR 0x7B # r) = CHR 0x7B # r" for r by (simp add: skip_head json_white_def)
  have ok: "\<And>e. e \<in> set es \<Longrightarrow> json_ok pr (snd e)" using JObj.prems(1) by simp
  let ?f = "json_indent gap (k + gap)" and ?sep = "'','' @ json_break gap (k + gap)"
  have ms: "concat (map (\<lambda>(k, v). if v = JUndef then [] else [json_quote k @ json_colon gap @ ?f v]) es) = map (member_text gap ?f) es"
    by (rule members_text [OF ok])
  show ?case
  proof (cases "es = []")
    case True
    with JObj.prems(3) obtain m where "n = Suc m" by (cases n) auto
    with True show ?thesis by (simp add: brace)
  next
    case False
    have shape: "json_indent gap k (JObj es) =
        ''{'' @ json_break gap (k + gap) @ join ?sep (map (member_text gap ?f) es) @ json_break gap k @ ''}''"
      using False by (simp only: json_indent.simps ms Let_def) simp
    obtain m where n: "n = Suc m" using JObj.prems(3) unfolding shape by (cases n) auto
    have each: "parse_value pr j (?f (snd e) @ q) = Some (snd e, q)"
      if "e \<in> set es" "stops q" "2 * length (?f (snd e)) \<le> j" for e j q
      using JObj.IH [of e "snd e"] that ok by (cases e) (auto simp: snds.simps)
    have "parse_members pr m (join ?sep (map (member_text gap ?f) es) @ json_break gap k @ CHR 0x7D # rest) = Some (es, rest)"
      using JObj.prems(3) n unfolding shape by (intro members_read_back [OF each False]) simp_all
    moreover obtain e fs where "es = e # fs" using False by (cases es) auto
    then have "\<not> prefix ''}'' (skip (join ?sep (map (member_text gap ?f) es) @ json_break gap k @ CHR 0x7D # rest))"
      by (simp add: join_Cons member_head)
    ultimately show ?thesis using n JObj.prems(1) unfolding shape by (simp add: brace parse_members_break)
  qed
qed

lemma json_parse_indent:
  assumes "json_ok pr v"
  shows "json_parse pr (json_indent gap k v) = Some v"
proof -
  have "parse_value pr (2 * length (json_indent gap k v) + 1) (json_indent gap k v @ []) = Some (v, [])"
    by (rule value_read_back [OF assms]) simp_all
  then show ?thesis by (simp add: json_parse_def)
qed

lemma json_parse_text: "json_ok pr v \<Longrightarrow> json_parse pr (json_text v) = Some v"
  using json_parse_indent [of pr v 0 0] by (simp add: json_indent_0)

text \<open>
  What \<open>JSON.stringify\<close> writes of a value, \<open>JSON.parse\<close> reads back to the same value: every escape, every nesting, every order of
  entries. The value has no undefined in it, and its numbers are printed as the language prints them.
\<close>

theorem json_round_trip:
  assumes "json_ok pr v"
  shows "Option.bind (json_stringify v) (json_parse pr) = Some v"
proof -
  have "v \<noteq> JUndef" using assms by auto
  then show ?thesis by (simp add: json_stringify_def json_parse_text [OF assms])
qed

lemma json_num_nat: "json_num (show_nat n)"
proof -
  obtain c r where s: "show_nat n = c # r" using show_nat_not_Nil by (meson neq_Nil_conv)
  have all: "\<forall>x\<in>set (show_nat n). is_digit x" using show_nat_digit_list by (simp add: list_all_iff)
  then have "is_digit c" using s by simp
  then have no_sign: "c \<noteq> CHR ''-''" by (auto simp: is_digit_def)
  have runs: "takeWhile is_digit (show_nat n) = show_nat n" "dropWhile is_digit (show_nat n) = []" using all by simp_all
  have "json_digits (show_nat n) = Some (show_nat n, [])" unfolding json_digits_def Let_def runs by (simp add: show_nat_not_Nil)
  then have "scan_int (show_nat n) = Some (show_nat n, [])"
    using show_nat_head [OF s] by (auto simp: scan_int_def s)
  then show ?thesis using no_sign by (simp add: json_num_def scan_number_def scan_frac_def scan_exp_def s)
qed

lemma json_text_nat: "json_text (JNum (show_nat n)) = show_nat n" "show_nat n \<noteq> ''-0''"
proof -
  have other: "show_nat n \<noteq> c # r" if "\<not> is_digit c" for c r
    using show_nat_digit_list [of n] that by (metis list_all_iff list.set_intros(1))
  show "show_nat n \<noteq> ''-0''" by (rule other) (simp add: is_digit_def)
  moreover have "show_nat n \<noteq> ''-Infinity''" "show_nat n \<noteq> ''NaN''" "show_nat n \<noteq> ''Infinity''"
    by (rule other, simp add: is_digit_def)+
  ultimately show "json_text (JNum (show_nat n)) = show_nat n" by simp
qed

lemma json_nat_ok: "n < 2 ^ 53 \<Longrightarrow> json_ok pr (JNum (show_nat n))"
  using nat_text_canonical [of n pr] json_num_nat [of n] json_text_nat(2) [of n] by simp

theorem json_round_trip_witness:
  "let v = JObj [(''1'', JNum (show_nat 12)), (''a'', JArr [JStr [CHR 0x22, CHR 0x0A, CHR 0x01], JNull]), (''b'', JObj [])]
   in Option.bind (json_stringify v) (json_parse (\<lambda>_. [])) = Some v"
proof -
  have "char_of (49 :: nat) = CHR ''1''" by code_simp
  then have "array_index ''1'' = Some 1" "array_index ''a'' = None" "array_index ''b'' = None"
    by (simp_all add: array_index_def is_digit_def read_digits_def show_nat.simps [of "Suc 0"] digit_char_def)
  then show ?thesis
    unfolding Let_def by (intro json_round_trip) (simp add: json_nat_ok put_entry_def del: json_ok.simps(4))
qed

subsection \<open>The rounds are enough\<close>

lemma skip_shorter: "length (skip s) \<le> length s"
  by (simp add: skip_def length_dropWhile_le)

lemma hex4_shorter: "hex4 s = Some (n, r) \<Longrightarrow> length r < length s"
  by (cases s rule: hex4.cases) (auto split: option.splits)

lemma unicode_shorter:
  assumes "unicode_escape s = Some (t, r)"
  shows "length r < length s"
proof -
  obtain n q where q: "hex4 s = Some (n, q)" using assms by (auto simp: unicode_escape_def split: option.splits)
  have "length r \<le> length q"
    using assms q hex4_shorter
    by (fastforce simp: unicode_escape_def low_surrogate_def split: option.splits if_splits list.splits)
  with hex4_shorter [OF q] show ?thesis by simp
qed

lemma str_shorter: "parse_str n s = Some (t, r) \<Longrightarrow> length r < length s"
proof (induction n arbitrary: s t r)
  case (Suc n)
  then show ?case
    by (fastforce split: list.splits if_splits option.splits dest: unicode_shorter)
qed simp

lemma digits_shorter: "json_digits s = Some (d, r) \<Longrightarrow> length r < length s"
  by (cases s) (auto simp: json_digits_def Let_def less_Suc_eq_le length_dropWhile_le split: if_splits)

lemma int_shorter: "scan_int s = Some (d, r) \<Longrightarrow> length r < length s"
  by (auto simp: scan_int_def split: list.splits if_splits dest: digits_shorter)

lemma frac_shorter: "scan_frac s = Some (d, r) \<Longrightarrow> length r \<le> length s"
  by (fastforce simp: scan_frac_def split: list.splits if_splits dest: digits_shorter)

lemma exp_shorter: "scan_exp s = Some (d, r) \<Longrightarrow> length r \<le> length s"
  by (fastforce simp: scan_exp_def split: list.splits if_splits dest: digits_shorter)

lemma number_shorter: "scan_number s = Some (d, r) \<Longrightarrow> length r < length s"
  by (fastforce simp: scan_number_def Let_def split: option.splits if_splits
      dest: int_shorter frac_shorter exp_shorter)

lemma tl_skip_shorter: "length (tl (skip s)) \<le> length s - 1"
  using skip_shorter [of s] by simp

lemma value_cases:
  assumes "parse_value pr (Suc n) s = Some (v, r)"
  obtains c q where "skip s = c # q" "length r \<le> length q"
    | c q vs where "skip s = c # q" "parse_elems pr n q = Some (vs, r)"
    | c q es where "skip s = c # q" "parse_members pr n q = Some (es, r)"
proof (cases "skip s")
  case (Cons c q)
  note kinds = that(1) [OF Cons] that(2) [OF Cons] that(3) [OF Cons]
  consider "c = CHR 0x22" | "c = CHR ''[''" | "c = CHR 0x7B" | "c \<notin> {CHR 0x22, CHR ''['', CHR 0x7B}" by blast
  then show thesis
  proof cases
    case 1
    then obtain t where "parse_str (Suc (length q)) q = Some (t, r)" using assms Cons by (simp del: parse_str.simps) blast
    then show thesis by (intro kinds(1)) (drule str_shorter, simp)
  next
    case 2
    show thesis
    proof (cases "length r \<le> length q")
      case False
      then show thesis using 2 assms Cons kinds(2) tl_skip_shorter [of q] by (simp split: if_splits) (auto, blast?)
    qed (rule kinds(1))
  next
    case 3
    show thesis
    proof (cases "length r \<le> length q")
      case False
      then show thesis using 3 assms Cons kinds(3) tl_skip_shorter [of q] by (simp split: if_splits) (auto, blast?)
    qed (rule kinds(1))
  next
    case 4
    have "r \<in> {drop 3 q, drop 4 q} \<or> (\<exists>t. scan_number (c # q) = Some (t, r))"
      using assms Cons 4 by (simp split: if_splits) blast?
    then have "length r < length (c # q)" by (auto dest: number_shorter)
    then show thesis by (intro kinds(1)) simp
  qed
qed (use assms in simp)

lemma parse_shorter:
  "(\<forall>s v r. parse_value pr n s = Some (v, r) \<longrightarrow> length r < length s) \<and>
   (\<forall>s vs r. parse_elems pr n s = Some (vs, r) \<longrightarrow> length r < length s) \<and>
   (\<forall>s es r. parse_members pr n s = Some (es, r) \<longrightarrow> length r < length s)"
proof (induction n)
  case (Suc n)
  then have IH: "\<And>s v r. parse_value pr n s = Some (v, r) \<Longrightarrow> length r < length s"
    "\<And>s vs r. parse_elems pr n s = Some (vs, r) \<Longrightarrow> length r < length s"
    "\<And>s es r. parse_members pr n s = Some (es, r) \<Longrightarrow> length r < length s" by blast+
  have "length r < length s" if "parse_value pr (Suc n) s = Some (v, r)" for s v r
    using that
  proof (cases rule: value_cases)
    case (1 c q)
    with skip_shorter [of s] show ?thesis by simp
  next
    case (2 c q vs)
    with skip_shorter [of s] IH(2) [OF 2(2)] show ?thesis by simp
  next
    case (3 c q es)
    with skip_shorter [of s] IH(3) [OF 3(2)] show ?thesis by simp
  qed
  moreover have "length r < length s" if e: "parse_elems pr (Suc n) s = Some (vs, r)" for s vs r
  proof -
    obtain v q where v: "parse_value pr n s = Some (v, q)" using e by (auto split: option.splits)
    have "length r \<le> length (tl (skip q))"
      using e v by (auto split: if_splits dest: IH(2))
    with IH(1) [OF v] tl_skip_shorter [of q] show ?thesis by simp
  qed
  moreover have "length r < length s" if e: "parse_members pr (Suc n) s = Some (es, r)" for s es r
  proof -
    obtain k q where k: "parse_str (length (skip s)) (tl (skip s)) = Some (k, q)"
      using e by (auto split: option.splits if_splits)
    obtain v q' where v: "parse_value pr n (tl (skip q)) = Some (v, q')"
      using e k by (auto split: option.splits if_splits)
    have "length r \<le> length (tl (skip q'))"
      using e k v by (auto split: if_splits dest: IH(3))
    with IH(1) [OF v] str_shorter [OF k] tl_skip_shorter [of s] tl_skip_shorter [of q] tl_skip_shorter [of q'] show ?thesis by simp
  qed
  ultimately show ?case by blast
qed simp

lemma rounds_enough:
  "(\<forall>s k. 2 * length s + 1 \<le> n \<longrightarrow> n \<le> k \<longrightarrow> parse_value pr k s = parse_value pr n s) \<and>
   (\<forall>s k. 2 * length s + 2 \<le> n \<longrightarrow> n \<le> k \<longrightarrow> parse_elems pr k s = parse_elems pr n s) \<and>
   (\<forall>s k. 2 * length s + 2 \<le> n \<longrightarrow> n \<le> k \<longrightarrow> parse_members pr k s = parse_members pr n s)"
proof (induction n)
  case (Suc n)
  then have IH: "\<And>s k. 2 * length s + 1 \<le> n \<Longrightarrow> n \<le> k \<Longrightarrow> parse_value pr k s = parse_value pr n s"
    "\<And>s k. 2 * length s + 2 \<le> n \<Longrightarrow> n \<le> k \<Longrightarrow> parse_elems pr k s = parse_elems pr n s"
    "\<And>s k. 2 * length s + 2 \<le> n \<Longrightarrow> n \<le> k \<Longrightarrow> parse_members pr k s = parse_members pr n s" by blast+
  have short: "length r < length s" if "parse_value pr m s = Some (v, r)" for m s v r
    using that parse_shorter [where n = m] by blast
  have "parse_value pr k s = parse_value pr (Suc n) s" if len: "2 * length s + 1 \<le> Suc n" "Suc n \<le> k" for s k
  proof -
    obtain m where k: "k = Suc m" "n \<le> m" using len(2) by (cases k) auto
    have "parse_elems pr m q = parse_elems pr n q \<and> parse_members pr m q = parse_members pr n q" if "skip s = c # q" for c q
      using IH(2,3) [of q m] len(1) k(2) that skip_shorter [of s] by simp
    then show ?thesis unfolding k by (auto split: list.split)
  qed
  moreover have "parse_elems pr k s = parse_elems pr (Suc n) s" if len: "2 * length s + 2 \<le> Suc n" "Suc n \<le> k" for s k
  proof -
    obtain m where k: "k = Suc m" "n \<le> m" using len(2) by (cases k) auto
    have v: "parse_value pr m s = parse_value pr n s" using IH(1) [of s m] len(1) k(2) by simp
    have "parse_elems pr m (tl (skip r)) = parse_elems pr n (tl (skip r))" if "parse_value pr n s = Some (v, r)" for v r
      using IH(2) [of "tl (skip r)" m] len(1) k(2) short [OF that] tl_skip_shorter [of r] by simp
    then show ?thesis unfolding k by (auto simp: v split: option.split)
  qed
  moreover have "parse_members pr k s = parse_members pr (Suc n) s" if len: "2 * length s + 2 \<le> Suc n" "Suc n \<le> k" for s k
  proof -
    obtain m where k: "k = Suc m" "n \<le> m" using len(2) by (cases k) auto
    have v: "parse_value pr m (tl (skip r)) = parse_value pr n (tl (skip r))"
      and v': "parse_value pr n (tl (skip r)) = Some (x, q) \<longrightarrow> parse_members pr m (tl (skip q)) = parse_members pr n (tl (skip q))"
      if key: "parse_str (length (skip s)) (tl (skip s)) = Some (t, r)" for t r x q
    proof -
      have r: "length r < length s" using str_shorter [OF key] tl_skip_shorter [of s] by simp
      then show "parse_value pr m (tl (skip r)) = parse_value pr n (tl (skip r))"
        using IH(1) [of "tl (skip r)" m] len(1) k(2) tl_skip_shorter [of r] by simp
      show "parse_value pr n (tl (skip r)) = Some (x, q) \<longrightarrow> parse_members pr m (tl (skip q)) = parse_members pr n (tl (skip q))"
        using IH(3) [of "tl (skip q)" m] len(1) k(2) r short [of n "tl (skip r)" x q] tl_skip_shorter [of r] tl_skip_shorter [of q]
        by auto
    qed
    show ?thesis
    proof (cases "parse_str (length (skip s)) (tl (skip s))")
      case (Some tr)
      obtain t r where tr: "tr = (t, r)" by (cases tr)
      with Some have key: "parse_str (length (skip s)) (tl (skip s)) = Some (t, r)" by simp
      then show ?thesis
        using v' [OF key] by (cases "parse_value pr n (tl (skip r))") (auto simp: k(1) v [OF key])
    qed (simp add: k)
  qed
  ultimately show ?case by blast
qed simp

text \<open>The bound on the rounds of the reader loses nothing: with any larger number it reads the same.\<close>

theorem rounds_do_not_matter:
  "parse_value pr (2 * length s + 1 + k) s = parse_value pr (2 * length s + 1) s"
  by (rule conjunct1 [OF rounds_enough, rule_format]) simp_all

end
