(* ===== verification/Storage.thy ===== *)
theory Storage
  imports Json
begin

section \<open>Settings that persist, and small texts\<close>

text \<open>
  \<open>utils/storage.ts\<close> over the browser's \<open>localStorage\<close>, \<open>utils/theme.ts\<close> and \<open>utils/format.ts\<close>. The storage is a map from keys
  to texts; \<open>fits\<close> says whether an item still has room, since \<open>setItem\<close> throws when it has not. A number is the text it
  prints as. What is logged is left out. Sizes are whole numbers of bytes, whose division by 1024 is exact in doubles.
\<close>

type_synonym storage_items = "string \<Rightarrow> string option"

datatype StorageKey = AppSettings | SshFilePanelWidth | RedisSidebarWidth | ActiveAgentSessionId | AiSidebarWidth

fun key_text :: "StorageKey \<Rightarrow> string" where
  "key_text AppSettings = ''app_settings''"
| "key_text SshFilePanelWidth = ''ssh_file_panel_width''"
| "key_text RedisSidebarWidth = ''redis_sidebar_width''"
| "key_text ActiveAgentSessionId = ''active_agent_session_id''"
| "key_text AiSidebarWidth = ''ai_sidebar_width''"

definition STORAGE_PREFIX :: string where
  "STORAGE_PREFIX = ''xterminal:''"

definition LEGACY_KEY_MAP :: "(string \<times> string) list" where
  "LEGACY_KEY_MAP =
     [(key_text AppSettings, ''xterminal_app_settings''), (key_text SshFilePanelWidth, ''ssh_file_panel_width''),
      (key_text RedisSidebarWidth, ''redis_sidebar_width''), (key_text ActiveAgentSessionId, ''active_agent_session_id''),
      (key_text AiSidebarWidth, ''ai_agent_sidebar_width'')]"

definition resolvePrefixedKey :: "string \<Rightarrow> string" where
  "resolvePrefixedKey key = (if starts_with key STORAGE_PREFIX then key else STORAGE_PREFIX @ key)"

definition legacy_key :: "string \<Rightarrow> string" where
  "legacy_key key = (case map_of LEGACY_KEY_MAP key of Some l \<Rightarrow> str_or l key | None \<Rightarrow> key)"

definition parse_or_text :: "(js_double \<Rightarrow> string) \<Rightarrow> string \<Rightarrow> js_value" where
  "parse_or_text pr raw = (case json_parse pr raw of Some v \<Rightarrow> v | None \<Rightarrow> JStr raw)"

definition storage_get ::
  "(js_double \<Rightarrow> string) \<Rightarrow> (storage_items \<Rightarrow> string \<Rightarrow> string \<Rightarrow> bool) \<Rightarrow> string \<Rightarrow> js_value \<Rightarrow> storage_items \<Rightarrow> js_value \<times> storage_items" where
  "storage_get pr fits key fallback st =
     (case st (resolvePrefixedKey key) of
        Some raw \<Rightarrow> (parse_or_text pr raw, st)
      | None \<Rightarrow>
          (case st (legacy_key key) of
             None \<Rightarrow> (fallback, st)
           | Some raw \<Rightarrow>
               if fits st (resolvePrefixedKey key) raw then (parse_or_text pr raw, st(resolvePrefixedKey key \<mapsto> raw))
               else (fallback, st)))"

definition storage_text :: "js_value \<Rightarrow> string" where
  \<comment> \<open>\<open>setItem\<close> makes a text of undefined\<close>
  "storage_text v = (case v of JStr s \<Rightarrow> s | _ \<Rightarrow> (case json_stringify v of Some t \<Rightarrow> t | None \<Rightarrow> ''undefined''))"

definition storage_set :: "(storage_items \<Rightarrow> string \<Rightarrow> string \<Rightarrow> bool) \<Rightarrow> string \<Rightarrow> js_value \<Rightarrow> storage_items \<Rightarrow> storage_items" where
  "storage_set fits key v st =
     (if fits st (resolvePrefixedKey key) (storage_text v) then st(resolvePrefixedKey key \<mapsto> storage_text v) else st)"

definition storage_remove :: "string \<Rightarrow> storage_items \<Rightarrow> storage_items" where
  "storage_remove key st =
     (let st1 = st(resolvePrefixedKey key := None) in
      case map_of LEGACY_KEY_MAP key of Some l \<Rightarrow> if l \<noteq> [] then st1(l := None) else st1 | None \<Rightarrow> st1)"

definition getNumber ::
  "(js_double \<Rightarrow> string) \<Rightarrow> (storage_items \<Rightarrow> string \<Rightarrow> string \<Rightarrow> bool) \<Rightarrow> string \<Rightarrow> string \<Rightarrow> storage_items \<Rightarrow> string \<times> storage_items" where
  "getNumber pr fits key fallback st =
     (let (val, st1) = storage_get pr fits key (JNum fallback) st; parsed = js_number val in
      (if parsed = DNaN then fallback else number_text_of pr parsed, st1))"

definition getString ::
  "(js_double \<Rightarrow> string) \<Rightarrow> (storage_items \<Rightarrow> string \<Rightarrow> string \<Rightarrow> bool) \<Rightarrow> string \<Rightarrow> string \<Rightarrow> storage_items \<Rightarrow> string \<times> storage_items" where
  "getString pr fits key fallback st =
     (let (val, st1) = storage_get pr fits key (JStr fallback) st in (case val of JStr s \<Rightarrow> s | _ \<Rightarrow> fallback, st1))"

definition getBoolean ::
  "(js_double \<Rightarrow> string) \<Rightarrow> (storage_items \<Rightarrow> string \<Rightarrow> string \<Rightarrow> bool) \<Rightarrow> string \<Rightarrow> bool \<Rightarrow> storage_items \<Rightarrow> bool \<times> storage_items" where
  "getBoolean pr fits key fallback st =
     (let (val, st1) = storage_get pr fits key (JBool fallback) st in
      (case val of JBool b \<Rightarrow> b | JStr s \<Rightarrow> s = ''true'' | _ \<Rightarrow> fallback, st1))"

subsection \<open>Settings and theme\<close>

datatype ThemeMode = LightMode | DarkMode | SystemMode

definition DEFAULT_SETTINGS :: "(string \<times> js_value) list" where
  "DEFAULT_SETTINGS =
     [(''themeMode'', JStr ''light''), (''fontFamily'', JStr ''Consolas''), (''fontSize'', JStr ''13''),
      (''autoConnect'', JBool False), (''dbDefaultLimit'', JStr ''50''), (''globalFontFamily'', JStr ''system''),
      (''closeAction'', JStr ''ask''), (''language'', JStr ''system'')]"

fun code_units :: "string \<Rightarrow> string list" where
  \<comment> \<open>the text by UTF-16 units; a character outside the basic plane is two surrogates\<close>
  "code_units [] = []"
| "code_units (b # s) =
     (let n = of_char b :: nat in
      if n < 0xC0 \<or> s = [] then [b] # code_units s
      else if n < 0xE0 then (b # take 1 s) # code_units (drop 1 s)
      else if n < 0xF0 then (b # take 2 s) # code_units (drop 2 s)
      else let low = foldl (\<lambda>v c. v * 64 + of_char c mod 64) (n mod 8) (take 3 s) - 0x10000 in
        utf8_bytes (0xD800 + low div 0x400) # utf8_bytes (0xDC00 + low mod 0x400) # code_units (drop 3 s))"

definition spread_entries :: "js_value \<Rightarrow> (string \<times> js_value) list" where
  \<comment> \<open>what \<open>...v\<close> puts into an object\<close>
  "spread_entries v =
     (case v of JStr s \<Rightarrow> zip (map show_nat [0..<length (code_units s)]) (map JStr (code_units s)) | _ \<Rightarrow> js_entries v)"

definition getCachedSettings :: "(js_double \<Rightarrow> string) \<Rightarrow> (storage_items \<Rightarrow> string \<Rightarrow> string \<Rightarrow> bool) \<Rightarrow> storage_items \<Rightarrow> (string \<times> js_value) list \<times> storage_items" where
  "getCachedSettings pr fits st =
     (let (cached, st1) = storage_get pr fits (key_text AppSettings) (JObj DEFAULT_SETTINGS) st in
      (foldl put_entry DEFAULT_SETTINGS (spread_entries cached), st1))"

definition setCachedSettings :: "(storage_items \<Rightarrow> string \<Rightarrow> string \<Rightarrow> bool) \<Rightarrow> (string \<times> js_value) list \<Rightarrow> storage_items \<Rightarrow> storage_items" where
  "setCachedSettings fits settings st = storage_set fits (key_text AppSettings) (JObj settings) st"

definition GLOBAL_FONT_MAP :: "(string \<times> string) list" where
  "GLOBAL_FONT_MAP =
     [(''system'', ''\"Microsoft YaHei UI\", \"Segoe UI\", system-ui, -apple-system, sans-serif''),
      (''msyh'', ''\"Microsoft YaHei UI\", sans-serif''),
      (''segoe'', ''\"Segoe UI\", \"Microsoft YaHei UI\", sans-serif''),
      (''inter'', ''\"Inter\", system-ui, -apple-system, sans-serif''),
      (''harmony'', ''\"HarmonyOS Sans SC\", \"Microsoft YaHei UI\", sans-serif''),
      (''mono'', ''ui-monospace, SFMono-Regular, Menlo, Consolas, \"Courier New\", monospace'')]"

definition applyGlobalFont :: "string option \<Rightarrow> string" where
  \<comment> \<open>the value of \<open>--font-family\<close>\<close>
  "applyGlobalFont fontKey =
     (case map_of GLOBAL_FONT_MAP (opt_or fontKey ''system'') of
        Some f \<Rightarrow> str_or f (the (map_of GLOBAL_FONT_MAP ''system'')) | None \<Rightarrow> the (map_of GLOBAL_FONT_MAP ''system''))"

definition applyThemeMode :: "bool \<Rightarrow> ThemeMode \<Rightarrow> string" where
  \<comment> \<open>the value of \<open>data-theme\<close>; \<open>prefersDark\<close> is the answer of \<open>matchMedia\<close>\<close>
  "applyThemeMode prefersDark mode =
     (case mode of
        SystemMode \<Rightarrow> if prefersDark then ''dark'' else ''light''
      | DarkMode \<Rightarrow> ''dark''
      | LightMode \<Rightarrow> ''light'')"

subsection \<open>Sizes and times\<close>

definition size_units :: "string list" where
  "size_units = [''KB'', ''MB'', ''GB'', ''TB'']"

fun size_loop :: "nat \<Rightarrow> nat \<Rightarrow> nat \<Rightarrow> nat \<Rightarrow> nat \<times> nat" where
  \<comment> \<open>the value is \<open>bytes / d\<close>; the first argument counts the units that are left\<close>
  "size_loop 0 bytes d i = (d, i)"
| "size_loop (Suc left) bytes d i = (if 1024 * d \<le> bytes then size_loop left bytes (d * 1024) (Suc i) else (d, i))"

definition to_fixed :: "nat \<Rightarrow> nat \<Rightarrow> nat \<Rightarrow> string" where
  \<comment> \<open>\<open>(n / d).toFixed(digits)\<close> for 0 or 1 digits, a tie rounded up\<close>
  "to_fixed digits n d =
     (let m = (2 * n * 10 ^ digits + d) div (2 * d) in
      if digits = 0 then show_nat m else show_nat (m div 10) @ ''.'' @ show_nat (m mod 10))"

definition formatSize :: "int \<Rightarrow> string" where
  "formatSize bytes =
     (if bytes < 0 then ''-''
      else if bytes < 1024 then show_int bytes @ '' B''
      else
        let n = nat bytes; (d, i) = size_loop (length size_units - 1) n 1024 0 in
        to_fixed (if 100 * d \<le> n then 0 else 1) n d @ '' '' @ size_units ! i)"

definition formatBytes :: "int \<Rightarrow> string" where
  "formatBytes bytes = (if bytes \<le> 0 then ''0 B'' else formatSize bytes)"

definition pad2 :: "nat \<Rightarrow> string" where
  "pad2 n = (let s = show_nat n in replicate (2 - length s) (CHR ''0'') @ s)"

definition formatTime :: "(int \<Rightarrow> int \<times> nat \<times> nat \<times> nat \<times> nat) \<Rightarrow> int \<Rightarrow> string" where
  \<comment> \<open>\<open>local\<close> gives year, month from 0, day, hour and minute in the time zone of the user\<close>
  "formatTime local unixSeconds =
     (if unixSeconds = 0 then ''-''
      else case local (unixSeconds * 1000) of
        (y, mo, d, h, mi) \<Rightarrow> show_int y @ ''-'' @ pad2 (mo + 1) @ ''-'' @ pad2 d @ '' '' @ pad2 h @ '':'' @ pad2 mi)"

subsection \<open>What is stored\<close>

lemma legacy_not_prefixed: "map_of LEGACY_KEY_MAP key = Some l \<Longrightarrow> resolvePrefixedKey key = STORAGE_PREFIX @ key \<and> l \<noteq> []"
  by (auto simp: LEGACY_KEY_MAP_def resolvePrefixedKey_def STORAGE_PREFIX_def starts_with_def split: if_splits)

lemma get_after_set:
  assumes "fits st (resolvePrefixedKey key) (storage_text v)"
  shows "storage_get pr fits key fallback (storage_set fits key v st) = (parse_or_text pr (storage_text v), storage_set fits key v st)"
  using assms by (simp add: storage_get_def storage_set_def)

text \<open>
  Whatever value of JSON is stored, it is read back unchanged under the same key, whatever was there before; and reading
  does not change the storage.
\<close>

theorem stored_value_read_back:
  assumes "json_ok pr v" "\<forall>s. v \<noteq> JStr s" "fits st (resolvePrefixedKey key) (storage_text v)"
  shows "storage_get pr fits key fallback (storage_set fits key v st) = (v, storage_set fits key v st)"
proof -
  have "v \<noteq> JUndef" using assms(1) by auto
  then have "storage_text v = json_text v"
    using assms(2) by (cases v) (simp_all add: storage_text_def json_stringify_def)
  then show ?thesis using assms(3) by (simp add: get_after_set parse_or_text_def json_parse_text [OF assms(1)])
qed

theorem stored_value_read_back_witness:
  "storage_get (\<lambda>_. []) (\<lambda>_ _ _. True) (key_text AiSidebarWidth) JNull (storage_set (\<lambda>_ _ _. True) (key_text AiSidebarWidth) (JNum (show_nat 420)) Map.empty) =
    (JNum (show_nat 420), storage_set (\<lambda>_ _ _. True) (key_text AiSidebarWidth) (JNum (show_nat 420)) Map.empty)"
  by (rule stored_value_read_back) (simp_all add: json_nat_ok del: json_ok.simps(4))

text \<open>
  C24: settings that were written are read back, each with its value, and the default stands in for those that are missing.
\<close>

theorem settings_read_back:
  assumes "json_ok pr (JObj settings)" "fits st (resolvePrefixedKey (key_text AppSettings)) (storage_text (JObj settings))"
  shows "map_of (fst (getCachedSettings pr fits (setCachedSettings fits settings st))) = map_of DEFAULT_SETTINGS ++ map_of settings"
proof -
  have "map_of settings = map_of (foldl put_entry [] settings)" using assms(1) by simp
  also have "\<dots> = map_of (rev settings)" by (simp add: map_of_puts)
  finally have same: "map_of settings = map_of (rev settings)" .
  have "parse_or_text pr (storage_text (JObj settings)) = JObj settings"
    using json_parse_text [OF assms(1)] by (simp add: parse_or_text_def storage_text_def json_stringify_def del: json_text.simps)
  then show ?thesis
    using get_after_set [where fits = fits and v = "JObj settings", OF assms(2), of pr "JObj DEFAULT_SETTINGS"]
    by (simp add: getCachedSettings_def setCachedSettings_def spread_entries_def js_entries_def map_of_puts same)
qed

theorem settings_read_back_witness:
  "map_of (fst (getCachedSettings (\<lambda>_. []) (\<lambda>_ _ _. True) (setCachedSettings (\<lambda>_ _ _. True) [(''themeMode'', JStr ''dark'')] Map.empty))) =
    map_of DEFAULT_SETTINGS ++ map_of [(''themeMode'', JStr ''dark'')]"
proof (rule settings_read_back)
  have "array_index ''themeMode'' = None" by (simp add: array_index_def is_digit_def)
  then show "json_ok (\<lambda>_. []) (JObj [(''themeMode'', JStr ''dark'')])" by (simp add: put_entry_def)
qed simp

text \<open>Each of the keys of the program is gone after it was removed, also what an older version left under another name.\<close>

theorem remove_forgets:
  "storage_get pr fits (key_text k) fallback (storage_remove (key_text k) st) = (fallback, storage_remove (key_text k) st)"
proof -
  have "map_of LEGACY_KEY_MAP (key_text k) = Some (legacy_key (key_text k)) \<and> legacy_key (key_text k) \<noteq> []"
    by (cases k) (simp_all add: LEGACY_KEY_MAP_def legacy_key_def str_or_def)
  then show ?thesis by (simp add: storage_get_def storage_remove_def Let_def)
qed

text \<open>
  A text that happens to be JSON does not come back: where a text is asked for, one that reads as a number gives the fallback.
\<close>

theorem string_reads_back:
  assumes "fits st (resolvePrefixedKey key) s"
  shows "fst (getString pr fits key fallback (storage_set fits key (JStr s) st)) =
    (case json_parse pr s of None \<Rightarrow> s | Some (JStr t) \<Rightarrow> t | Some _ \<Rightarrow> fallback)"
  using assms get_after_set [of fits st key "JStr s" pr "JStr fallback"]
  by (simp add: storage_text_def getString_def parse_or_text_def split: option.split js_value.split)

lemma nat_text_parsed: "n < 2 ^ 53 \<Longrightarrow> json_parse pr (show_nat n) = Some (JNum (show_nat n))"
proof -
  assume n: "n < 2 ^ 53"
  have ok: "json_ok pr (JNum (show_nat n))" by (rule json_nat_ok [OF n])
  have "list_all is_digit (show_nat n)" by (rule show_nat_digit_list)
  then have "json_text (JNum (show_nat n)) = show_nat n" by (auto simp: is_digit_def)
  with json_parse_text [OF ok] show ?thesis by simp
qed

theorem string_reads_back_witness:
  "fst (getString (\<lambda>_. []) (\<lambda>_ _ _. True) ''k'' ''none'' (storage_set (\<lambda>_ _ _. True) ''k'' (JStr (show_nat 1700000000000)) Map.empty)) = ''none''"
  using string_reads_back [of "\<lambda>_ _ _. True" Map.empty "''k''" "show_nat 1700000000000" "\<lambda>_. []" "''none''"]
  by (simp add: nat_text_parsed)

subsection \<open>How sizes are shown\<close>

lemma size_loop_range:
  "size_loop left n d i = (d', i') \<Longrightarrow> d \<le> n \<Longrightarrow>
    \<exists>k\<le>left. d' = d * 1024 ^ k \<and> i' = i + k \<and> d' \<le> n \<and> (k < left \<longrightarrow> n < 1024 * d')"
proof (induction left n d i rule: size_loop.induct)
  case (2 left n d i)
  show ?case
  proof (cases "1024 * d \<le> n")
    case True
    with 2 obtain k where "k \<le> left" "d' = d * 1024 * 1024 ^ k" "i' = Suc i + k" "d' \<le> n" "k < left \<longrightarrow> n < 1024 * d'"
      by (auto simp: mult.commute)
    then show ?thesis by (intro exI [of _ "Suc k"]) auto
  next
    case False
    with 2 show ?thesis by (intro exI [of _ 0]) auto
  qed
qed simp

lemma rounded_near:
  assumes "0 < (d :: nat)"
  shows "2 * ((2 * x + d) div (2 * d) * d) \<le> 2 * x + d" "2 * x \<le> 2 * ((2 * x + d) div (2 * d) * d) + d"
proof -
  have "2 * x + d = 2 * d * ((2 * x + d) div (2 * d)) + (2 * x + d) mod (2 * d)" by simp
  moreover have "(2 * x + d) mod (2 * d) < 2 * d" using assms by simp
  moreover have "2 * d * ((2 * x + d) div (2 * d)) = 2 * ((2 * x + d) div (2 * d) * d)" by simp
  ultimately show "2 * ((2 * x + d) div (2 * d) * d) \<le> 2 * x + d" "2 * x \<le> 2 * ((2 * x + d) div (2 * d) * d) + d"
    by linarith+
qed

text \<open>
  C32: a size from a kilobyte on is shown in the unit whose multiple it is, and the number shown, with at most one decimal, is at most half of
  its last digit away from the size.
\<close>

theorem size_shown_exactly:
  assumes "1024 \<le> n"
  shows "\<exists>k m dec. k < 4 \<and> 1024 ^ Suc k \<le> n \<and> (k < 3 \<longrightarrow> n < 1024 ^ Suc (Suc k)) \<and>
    formatSize (int n) = (if dec then show_nat (m div 10) @ ''.'' @ show_nat (m mod 10) else show_nat m) @ '' '' @ size_units ! k \<and>
    2 * (m * 1024 ^ Suc k) \<le> (if dec then 20 else 2) * n + 1024 ^ Suc k \<and>
    (if dec then 20 else 2) * n \<le> 2 * (m * 1024 ^ Suc k) + 1024 ^ Suc k"
proof -
  obtain d i where loop: "size_loop 3 n 1024 0 = (d, i)" by (cases "size_loop 3 n 1024 0")
  from size_loop_range [OF this assms] have i: "i \<le> 3" "d = 1024 ^ Suc i" "d \<le> n" "i < 3 \<longrightarrow> n < 1024 * d" by auto
  define dec where "dec = (\<not> 100 * d \<le> n)"
  define m where "m = (2 * (n * (if dec then 10 else 1)) + d) div (2 * d)"
  have "0 < d" using i(2) by simp
  from rounded_near [OF this, of "n * (if dec then 10 else 1)"]
  have "2 * (m * d) \<le> (if dec then 20 else 2) * n + d" "(if dec then 20 else 2) * n \<le> 2 * (m * d) + d"
    unfolding m_def by (cases dec; simp add: mult.commute)+
  moreover have "formatSize (int n) = (if dec then show_nat (m div 10) @ ''.'' @ show_nat (m mod 10) else show_nat m) @ '' '' @ size_units ! i"
  proof -
    have "length size_units - 1 = 3" "\<not> int n < 0" "\<not> int n < 1024" "nat (int n) = n" using assms by (simp_all add: size_units_def)
    then have "formatSize (int n) = to_fixed (if dec then 1 else 0) n d @ '' '' @ size_units ! i"
      unfolding formatSize_def Let_def using loop by (simp add: dec_def del: size_loop.simps)
    then show ?thesis by (cases dec) (simp_all add: to_fixed_def m_def Let_def mult.assoc)
  qed
  moreover have "i < 4" using i(1) by simp
  ultimately show ?thesis using i by (intro exI [of _ i] exI [of _ m] exI [of _ dec]) simp
qed

theorem size_shown_exactly_witness:
  "\<exists>k m dec. formatSize (int 1536) = (if dec then show_nat (m div 10) @ ''.'' @ show_nat (m mod 10) else show_nat m) @ '' '' @ size_units ! k"
proof -
  have "(1024 :: nat) \<le> 1536" by simp
  from size_shown_exactly [OF this] show ?thesis by blast
qed

text \<open>Just below the next unit the number is rounded up to 1024, which the next unit would have shown as 1.0.\<close>

theorem size_shows_1024: "formatSize 1048575 = show_nat 1024 @ '' KB''"
  by (simp add: formatSize_def size_units_def to_fixed_def Let_def numeral_3_eq_3)

end
