(* ===== verification/PostgresPage.thy ===== *)
theory PostgresPage
  imports PageTabs
begin

section \<open>The PostgreSQL page\<close>

text \<open>
  \<open>pages/postgres/PostgresClient.tsx\<close> with the dialogs for export and import of \<open>IoModal.tsx\<close>: the tree of databases, schemas and tables, the
  tabs, the menus and what they call. Handlers are split at their awaits. Of a database, a schema and a table only the name is
  kept; labels are those the tabs are made with.
\<close>

subsection \<open>State\<close>

datatype pg_tab_type = PgData | PgSql | PgStatus | PgRoles | PgFunctions | PgEr

record pg_tab =
  pt_key :: string
  pt_label :: string
  pt_type :: pg_tab_type
  pt_dbName :: string
  pt_schema :: "string option"
  pt_table :: "string option"
  pt_closable :: bool

record pg_page =
  pp_currentDb :: string
  pp_currentSchema :: string
  pp_databases :: "string list"
  pp_schemasMap :: "string \<Rightarrow> string list option"
  pp_tablesMap :: "string \<Rightarrow> string list option"
  pp_expandedKeys :: "string list"
  pp_loadingTree :: bool
  pp_loadingDbs :: "string \<Rightarrow> bool"
  pp_loadingSchemas :: "string \<Rightarrow> bool"
  pp_tabs :: "pg_tab list"
  pp_activeTabKey :: string
  pp_createDbOpen :: bool
  pp_createSchemaOpen :: bool
  pp_createTableOpen :: bool
  pp_exportModal :: "string option"
  pp_importModal :: "string option"
  pp_messages :: "string list"

datatype pg_call =
    PgConnect
  | PgDatabases
  | PgSchemas string
  | PgTables string string
  | PgDropDatabase string
  | PgDropSchema string string bool
  | PgDropTable string string string bool
  | PgTruncateTable string string string bool bool
  | PgExportToFile string string string string string string int
  | PgImportFromFile string string string string

definition fixed_tab :: "translator \<Rightarrow> string \<Rightarrow> string \<Rightarrow> pg_tab_type \<Rightarrow> string \<Rightarrow> pg_tab" where
  "fixed_tab t key label type db =
     \<lparr>pt_key = key, pt_label = t label [], pt_type = type, pt_dbName = db, pt_schema = None, pt_table = None, pt_closable = False\<rparr>"

definition init_pg_page :: "translator \<Rightarrow> string option \<Rightarrow> string option \<Rightarrow> pg_page" where
  \<comment> \<open>the database and the schema of the session\<close>
  "init_pg_page t database schema =
     (let db = opt_or database ''postgres'' in
      \<lparr>pp_currentDb = db, pp_currentSchema = opt_or schema ''public'', pp_databases = [], pp_schemasMap = (\<lambda>_. None),
       pp_tablesMap = (\<lambda>_. None), pp_expandedKeys = [], pp_loadingTree = False, pp_loadingDbs = (\<lambda>_. False),
       pp_loadingSchemas = (\<lambda>_. False),
       pp_tabs = [fixed_tab t ''status'' ''postgres.tabStatus'' PgStatus db, fixed_tab t ''sql_1'' ''postgres.tabSql'' PgSql db],
       pp_activeTabKey = ''status'', pp_createDbOpen = False, pp_createSchemaOpen = False, pp_createTableOpen = False,
       pp_exportModal = None, pp_importModal = None, pp_messages = []\<rparr>)"

subsection \<open>Loading\<close>

definition schema_key :: "string \<Rightarrow> string \<Rightarrow> string" where
  \<comment> \<open>the key of \<open>tablesMap\<close>\<close>
  "schema_key db schema = db @ '':'' @ schema"

definition pg_loadTables_begin :: "string \<Rightarrow> string \<Rightarrow> pg_page \<Rightarrow> pg_page \<times> pg_call list" where
  "pg_loadTables_begin db schema s =
     (s\<lparr>pp_loadingSchemas := (pp_loadingSchemas s)(schema_key db schema := True)\<rparr>, [PgTables db schema])"

definition pg_loadTables_done :: "string \<Rightarrow> string \<Rightarrow> string list option \<Rightarrow> pg_page \<Rightarrow> pg_page" where
  \<comment> \<open>\<open>None\<close> where the call fails\<close>
  "pg_loadTables_done db schema res s =
     (let s1 = (case res of Some names \<Rightarrow> s\<lparr>pp_tablesMap := (pp_tablesMap s)(schema_key db schema \<mapsto> names)\<rparr> | None \<Rightarrow> s) in
      s1\<lparr>pp_loadingSchemas := (pp_loadingSchemas s1)(schema_key db schema := False)\<rparr>)"

definition loadSchemas_begin :: "string \<Rightarrow> pg_page \<Rightarrow> pg_page \<times> pg_call list" where
  "loadSchemas_begin db s = (s\<lparr>pp_loadingDbs := (pp_loadingDbs s)(db := True)\<rparr>, [PgSchemas db])"

definition loadSchemas_listed :: "string \<Rightarrow> string list \<Rightarrow> pg_page \<Rightarrow> pg_page \<times> pg_call list" where
  "loadSchemas_listed db schemas s =
     pg_loadTables_begin db ''public'' (s\<lparr>pp_schemasMap := (pp_schemasMap s)(db \<mapsto> schemas)\<rparr>)"

definition loadSchemas_end :: "string \<Rightarrow> pg_page \<Rightarrow> pg_page" where
  \<comment> \<open>after the tables of public have been loaded, or the schemas could not be\<close>
  "loadSchemas_end db s = s\<lparr>pp_loadingDbs := (pp_loadingDbs s)(db := False)\<rparr>"

definition pg_init_begin :: "pg_page \<Rightarrow> pg_page \<times> pg_call list" where
  "pg_init_begin s = (s\<lparr>pp_loadingTree := True\<rparr>, [PgConnect])"

definition pg_init_connected :: "pg_page \<Rightarrow> pg_page \<times> pg_call list" where
  "pg_init_connected s = (s, [PgDatabases])"

definition pg_init_databases :: "string option \<Rightarrow> string list \<Rightarrow> pg_page \<Rightarrow> pg_page \<times> pg_call list" where
  "pg_init_databases session dbs s =
     (let s1 = s\<lparr>pp_databases := dbs\<rparr> in
      if dbs = [] then (s1\<lparr>pp_loadingTree := False\<rparr>, [])
      else loadSchemas_begin (opt_or session (hd dbs)) (s1\<lparr>pp_currentDb := opt_or session (hd dbs)\<rparr>))"

definition pg_init_done :: "string \<Rightarrow> pg_page \<Rightarrow> pg_page" where
  "pg_init_done targetDb s =
     s\<lparr>pp_expandedKeys := [''db_'' @ targetDb, ''schema_'' @ targetDb @ ''_public''], pp_loadingTree := False\<rparr>"

definition pg_init_failed :: "translator \<Rightarrow> string \<Rightarrow> pg_page \<Rightarrow> pg_page" where
  "pg_init_failed t err s =
     s\<lparr>pp_messages := pp_messages s @ [t ''postgres.connectFailed'' [(''error'', err)]], pp_loadingTree := False\<rparr>"

subsection \<open>Tabs\<close>

definition pg_strip :: "pg_page \<Rightarrow> pg_tab strip" where
  "pg_strip s = (pp_tabs s, pp_activeTabKey s)"

definition set_pg_strip :: "pg_tab strip \<Rightarrow> pg_page \<Rightarrow> pg_page" where
  "set_pg_strip st s = s\<lparr>pp_tabs := fst st, pp_activeTabKey := snd st\<rparr>"

definition pg_table_key :: "string \<Rightarrow> string \<Rightarrow> string \<Rightarrow> string" where
  "pg_table_key db schema table = ''tbl_'' @ db @ ''_'' @ schema @ ''_'' @ table"

definition pg_table_tab :: "string \<Rightarrow> string \<Rightarrow> string \<Rightarrow> pg_tab" where
  "pg_table_tab db schema table =
     \<lparr>pt_key = pg_table_key db schema table, pt_label = table, pt_type = PgData, pt_dbName = db, pt_schema = Some schema,
      pt_table = Some table, pt_closable = True\<rparr>"

definition pg_openTableTab :: "string \<Rightarrow> string \<Rightarrow> string \<Rightarrow> pg_page \<Rightarrow> pg_page" where
  "pg_openTableTab db schema table s = set_pg_strip (strip_open pt_key (pp_tabs s) (pg_table_tab db schema table) (pg_strip s)) s"

definition pg_openErTab :: "translator \<Rightarrow> string \<Rightarrow> string \<Rightarrow> pg_page \<Rightarrow> pg_page" where
  "pg_openErTab t db schema s =
     set_pg_strip (strip_open pt_key (pp_tabs s)
       \<lparr>pt_key = ''er_'' @ db @ ''_'' @ schema, pt_label = t ''postgres.tabEr'' [(''schema'', schema)], pt_type = PgEr, pt_dbName = db,
        pt_schema = Some schema, pt_table = None, pt_closable = True\<rparr> (pg_strip s)) s"

definition openFunctionsTab :: "translator \<Rightarrow> string \<Rightarrow> string \<Rightarrow> pg_page \<Rightarrow> pg_page" where
  "openFunctionsTab t db schema s =
     set_pg_strip (strip_open pt_key (pp_tabs s)
       \<lparr>pt_key = ''func_'' @ db @ ''_'' @ schema, pt_label = t ''postgres.tabFuncs'' [(''schema'', schema)], pt_type = PgFunctions,
        pt_dbName = db, pt_schema = Some schema, pt_table = None, pt_closable = True\<rparr> (pg_strip s)) s"

definition openRolesTab :: "translator \<Rightarrow> pg_page \<Rightarrow> pg_page" where
  "openRolesTab t s =
     set_pg_strip (strip_open pt_key (pp_tabs s)
       \<lparr>pt_key = ''roles'', pt_label = t ''postgres.tabRoles'' [], pt_type = PgRoles, pt_dbName = pp_currentDb s, pt_schema = None,
        pt_table = None, pt_closable = True\<rparr> (pg_strip s)) s"

definition pg_handleCloseTab :: "string \<Rightarrow> pg_page \<Rightarrow> pg_page" where
  "pg_handleCloseTab key s =
     set_pg_strip (strip_close pt_key pt_closable (pp_tabs s) (pp_activeTabKey s) key (pg_strip s)) s"

definition pg_handleCloseAllTabs :: "pg_page \<Rightarrow> pg_page" where
  "pg_handleCloseAllTabs s = set_pg_strip (strip_close_all pt_key pt_closable (pg_strip s)) s"

definition pg_handleCloseLeftTabs :: "string \<Rightarrow> pg_page \<Rightarrow> pg_page" where
  "pg_handleCloseLeftTabs key s = set_pg_strip (strip_close_left pt_key pt_closable key (pg_strip s)) s"

definition pg_handleCloseRightTabs :: "string \<Rightarrow> pg_page \<Rightarrow> pg_page" where
  "pg_handleCloseRightTabs key s = set_pg_strip (strip_close_right pt_key pt_closable key (pg_strip s)) s"

subsection \<open>Dropping and truncating\<close>

datatype pg_drop = DropDb string | DropSchemaOf string string | DropTableOf string string string | TruncateTableOf string string string

fun drop_begin :: "pg_drop \<Rightarrow> pg_call list" where
  \<comment> \<open>a click in the menu\<close>
  "drop_begin (DropDb db) = [PgDropDatabase db]"
| "drop_begin (DropSchemaOf db schema) = [PgDropSchema db schema True]"
| "drop_begin (DropTableOf db schema table) = [PgDropTable db schema table True]"
| "drop_begin (TruncateTableOf db schema table) = [PgTruncateTable db schema table True False]"

fun drop_done :: "pg_drop \<Rightarrow> pg_page \<Rightarrow> pg_page \<times> pg_call list" where
  "drop_done (DropDb db) s = pg_init_begin s"
| "drop_done (DropSchemaOf db schema) s = loadSchemas_begin db s"
| "drop_done (DropTableOf db schema table) s = pg_loadTables_begin db schema s"
| "drop_done (TruncateTableOf db schema table) s = pg_loadTables_begin db schema s"

definition drop_failed :: "translator \<Rightarrow> string \<Rightarrow> pg_drop \<Rightarrow> pg_page \<Rightarrow> pg_page" where
  "drop_failed t err d s =
     s\<lparr>pp_messages := pp_messages s @
         [t (case d of TruncateTableOf _ _ _ \<Rightarrow> ''postgres.roles.opFail'' | _ \<Rightarrow> ''postgres.roles.dropFail'') [(''error'', err)]]\<rparr>"

subsection \<open>Tree\<close>

datatype pg_node = PgDbNode string | PgSchemaNode string string | PgTableNode string string string

fun pg_node_key :: "pg_node \<Rightarrow> string" where
  "pg_node_key (PgDbNode d) = ''db_'' @ d"
| "pg_node_key (PgSchemaNode d sc) = ''schema_'' @ d @ ''_'' @ sc"
| "pg_node_key (PgTableNode d sc tb) = ''table_'' @ d @ ''_'' @ sc @ ''_'' @ tb"

definition pg_treeData :: "pg_page \<Rightarrow> (pg_node \<times> (pg_node \<times> pg_node list) list) list" where
  "pg_treeData s =
     map (\<lambda>d. (PgDbNode d,
            map (\<lambda>sc. (PgSchemaNode d sc, map (PgTableNode d sc) (nullish (pp_tablesMap s (schema_key d sc)) [])))
              (nullish (pp_schemasMap s d) [])))
       (pp_databases s)"

definition pg_selectedTreeKeys :: "pg_page \<Rightarrow> string list" where
  "pg_selectedTreeKeys s =
     (case find_tab pt_key (pp_activeTabKey s) (pp_tabs s) of
        None \<Rightarrow> []
      | Some tab \<Rightarrow>
          if pt_type tab = PgData \<and> pt_dbName tab \<noteq> [] \<and> truthy (pt_schema tab) \<and> truthy (pt_table tab)
          then [pg_node_key (PgTableNode (pt_dbName tab) (the (pt_schema tab)) (the (pt_table tab)))]
          else if pt_type tab \<in> {PgEr, PgFunctions} \<and> pt_dbName tab \<noteq> [] \<and> truthy (pt_schema tab)
          then [pg_node_key (PgSchemaNode (pt_dbName tab) (the (pt_schema tab)))]
          else [])"

definition load_node :: "pg_node \<Rightarrow> pg_page \<Rightarrow> pg_page \<times> pg_call list" where
  \<comment> \<open>what a node that is opened still has to load\<close>
  "load_node node s =
     (case node of
        PgDbNode d \<Rightarrow> if pp_schemasMap s d = None then loadSchemas_begin d s else (s, [])
      | PgSchemaNode d sc \<Rightarrow> if pp_tablesMap s (schema_key d sc) = None then pg_loadTables_begin d sc s else (s, [])
      | PgTableNode _ _ _ \<Rightarrow> (s, []))"

definition pg_onExpand :: "string list \<Rightarrow> pg_node option \<Rightarrow> pg_page \<Rightarrow> pg_page \<times> pg_call list" where
  \<comment> \<open>the keys, and the node where one was expanded\<close>
  "pg_onExpand keys node s =
     (let s1 = s\<lparr>pp_expandedKeys := keys\<rparr> in case node of Some n \<Rightarrow> load_node n s1 | None \<Rightarrow> (s1, []))"

definition pg_toggle :: "string \<Rightarrow> pg_page \<Rightarrow> pg_page" where
  "pg_toggle k s =
     s\<lparr>pp_expandedKeys := (if k \<in> set (pp_expandedKeys s) then filter (\<lambda>x. x \<noteq> k) (pp_expandedKeys s) else pp_expandedKeys s @ [k])\<rparr>"

definition pg_onSelect :: "pg_node \<Rightarrow> pg_page \<Rightarrow> pg_page \<times> pg_call list" where
  \<comment> \<open>up to the await, after which \<open>pg_toggle\<close> follows for a database or a schema\<close>
  "pg_onSelect node s =
     (case node of
        PgTableNode d sc tb \<Rightarrow> (pg_openTableTab d sc tb s, [])
      | PgDbNode d \<Rightarrow>
          (let s1 = s\<lparr>pp_currentDb := d\<rparr> in
           if pg_node_key node \<notin> set (pp_expandedKeys s) then load_node node s1 else (s1, []))
      | PgSchemaNode d sc \<Rightarrow>
          (let s1 = s\<lparr>pp_currentDb := d, pp_currentSchema := sc\<rparr> in
           if pg_node_key node \<notin> set (pp_expandedKeys s) then load_node node s1 else (s1, [])))"

subsection \<open>Menus and dialogs\<close>

definition menu_new_schema :: "string \<Rightarrow> pg_page \<Rightarrow> pg_page" where
  "menu_new_schema db s = s\<lparr>pp_currentDb := db, pp_createSchemaOpen := True\<rparr>"

definition menu_new_table :: "string \<Rightarrow> string \<Rightarrow> pg_page \<Rightarrow> pg_page" where
  "menu_new_table db schema s = s\<lparr>pp_currentDb := db, pp_currentSchema := schema, pp_createTableOpen := True\<rparr>"

definition menu_export :: "string \<Rightarrow> string \<Rightarrow> string \<Rightarrow> pg_page \<Rightarrow> pg_page" where
  \<comment> \<open>the menu of the table of this database and schema\<close>
  "menu_export db schema table s = s\<lparr>pp_exportModal := Some table\<rparr>"

definition menu_import :: "string \<Rightarrow> string \<Rightarrow> string \<Rightarrow> pg_page \<Rightarrow> pg_page" where
  "menu_import db schema table s = s\<lparr>pp_importModal := Some table\<rparr>"

definition handleExport_begin :: "string \<Rightarrow> string \<Rightarrow> string \<Rightarrow> int \<Rightarrow> pg_page \<Rightarrow> pg_call list" where
  "handleExport_begin mode source customSql limit s =
     (case pp_exportModal s of
        Some table \<Rightarrow> [PgExportToFile (pp_currentDb s) (pp_currentSchema s) mode source table customSql limit]
      | None \<Rightarrow> [])"

definition handleExport_done :: "translator \<Rightarrow> string \<Rightarrow> pg_page \<Rightarrow> pg_page" where
  "handleExport_done t savedPath s =
     (if savedPath = [] then s
      else s\<lparr>pp_messages := pp_messages s @ [t ''postgres.io.exportSuccess'' [(''path'', savedPath)]], pp_exportModal := None\<rparr>)"

definition handleImportFile_begin :: "string \<Rightarrow> pg_page \<Rightarrow> pg_call list" where
  "handleImportFile_begin mode s =
     (case pp_importModal s of
        Some table \<Rightarrow> [PgImportFromFile (pp_currentDb s) (pp_currentSchema s) mode table]
      | None \<Rightarrow> [])"

definition handleImportFile_done :: "string \<Rightarrow> pg_page \<Rightarrow> pg_page \<times> pg_call list" where
  "handleImportFile_done res s =
     (if res = [] then (s, [])
      else pg_loadTables_begin (pp_currentDb s) (pp_currentSchema s)
             (s\<lparr>pp_messages := pp_messages s @ [res], pp_importModal := None\<rparr>))"

definition pg_io_failed :: "translator \<Rightarrow> string \<Rightarrow> string \<Rightarrow> pg_page \<Rightarrow> pg_page" where
  \<comment> \<open>the text is that of the export or of the import\<close>
  "pg_io_failed t key err s = s\<lparr>pp_messages := pp_messages s @ [t key [(''error'', err)]]\<rparr>"

subsection \<open>Runs\<close>

datatype pg_event =
    PgInit | PgConnected | PgDatabasesLoaded "string option" "string list" | PgInitDone string | PgInitFailed string
  | PgLoadTables string string | PgTablesLoaded string string "string list option"
  | PgLoadSchemas string | PgSchemasLoaded string "string list" | PgSchemasEnd string
  | PgOpenTable string string string | PgOpenEr string string | PgOpenFunctions string string | PgOpenRoles
  | PgClose string | PgCloseAll | PgCloseLeft string | PgCloseRight string | PgActivate string
  | PgDropped pg_drop | PgDropFailed string pg_drop
  | PgExpand "string list" "pg_node option" | PgSelect pg_node | PgToggle string
  | PgNewSchema string | PgNewTable string string | PgExport string string string | PgImport string string string
  | PgExportDone string | PgImportDone string | PgIoFailed string string

fun pg_step :: "translator \<Rightarrow> pg_page \<Rightarrow> pg_event \<Rightarrow> pg_page" where
  "pg_step t s PgInit = fst (pg_init_begin s)"
| "pg_step t s PgConnected = fst (pg_init_connected s)"
| "pg_step t s (PgDatabasesLoaded session dbs) = fst (pg_init_databases session dbs s)"
| "pg_step t s (PgInitDone db) = pg_init_done db s"
| "pg_step t s (PgInitFailed err) = pg_init_failed t err s"
| "pg_step t s (PgLoadTables db schema) = fst (pg_loadTables_begin db schema s)"
| "pg_step t s (PgTablesLoaded db schema res) = pg_loadTables_done db schema res s"
| "pg_step t s (PgLoadSchemas db) = fst (loadSchemas_begin db s)"
| "pg_step t s (PgSchemasLoaded db names) = fst (loadSchemas_listed db names s)"
| "pg_step t s (PgSchemasEnd db) = loadSchemas_end db s"
| "pg_step t s (PgOpenTable db schema table) = pg_openTableTab db schema table s"
| "pg_step t s (PgOpenEr db schema) = pg_openErTab t db schema s"
| "pg_step t s (PgOpenFunctions db schema) = openFunctionsTab t db schema s"
| "pg_step t s PgOpenRoles = openRolesTab t s"
| "pg_step t s (PgClose key) = pg_handleCloseTab key s"
| "pg_step t s PgCloseAll = pg_handleCloseAllTabs s"
| "pg_step t s (PgCloseLeft key) = pg_handleCloseLeftTabs key s"
| "pg_step t s (PgCloseRight key) = pg_handleCloseRightTabs key s"
| "pg_step t s (PgActivate key) = s\<lparr>pp_activeTabKey := key\<rparr>"
| "pg_step t s (PgDropped d) = fst (drop_done d s)"
| "pg_step t s (PgDropFailed err d) = drop_failed t err d s"
| "pg_step t s (PgExpand keys node) = fst (pg_onExpand keys node s)"
| "pg_step t s (PgSelect node) = fst (pg_onSelect node s)"
| "pg_step t s (PgToggle key) = pg_toggle key s"
| "pg_step t s (PgNewSchema db) = menu_new_schema db s"
| "pg_step t s (PgNewTable db schema) = menu_new_table db schema s"
| "pg_step t s (PgExport db schema table) = menu_export db schema table s"
| "pg_step t s (PgImport db schema table) = menu_import db schema table s"
| "pg_step t s (PgExportDone path) = handleExport_done t path s"
| "pg_step t s (PgImportDone res) = fst (handleImportFile_done res s)"
| "pg_step t s (PgIoFailed key err) = pg_io_failed t key err s"

definition pg_enabled :: "pg_page \<Rightarrow> pg_event \<Rightarrow> bool" where
  \<comment> \<open>only an open tab can be clicked\<close>
  "pg_enabled s e \<longleftrightarrow> (case e of PgActivate key \<Rightarrow> key \<in> pt_key ` set (pp_tabs s) | _ \<Rightarrow> True)"

definition pg_inv :: "pg_page \<Rightarrow> bool" where
  "pg_inv s \<longleftrightarrow> strip_ok pt_key (pg_strip s) \<and>
     map pt_key (filter (\<lambda>t. \<not> pt_closable t) (fst (pg_strip s))) = [''status'', ''sql_1'']"

lemma pg_strip_set [simp]: "pg_strip (set_pg_strip st s) = st"
  by (simp add: pg_strip_def set_pg_strip_def)

lemma pg_strip_fields: "pp_tabs s = fst (pg_strip s)" "pp_activeTabKey s = snd (pg_strip s)"
  by (simp_all add: pg_strip_def)

lemma pg_same_strip: "pg_strip s' = pg_strip s \<Longrightarrow> pg_inv s \<Longrightarrow> pg_inv s'"
  by (simp add: pg_inv_def)

lemma pg_open_inv:
  "pg_inv s \<Longrightarrow> pt_closable new \<Longrightarrow> pg_inv (set_pg_strip (strip_open pt_key (pp_tabs s) new (pg_strip s)) s)"
  by (simp add: pg_inv_def pg_strip_fields strip_open_ok strip_fixed)

lemma pg_close_inv:
  assumes "pg_inv s"
  shows "pg_inv (pg_handleCloseTab key s)" "pg_inv (pg_handleCloseAllTabs s)" "pg_inv (pg_handleCloseLeftTabs key s)"
    "pg_inv (pg_handleCloseRightTabs key s)"
proof -
  have "filter (\<lambda>t. \<not> pt_closable t) (fst (pg_strip s)) \<noteq> []" using assms by (auto simp: pg_inv_def)
  then show "pg_inv (pg_handleCloseTab key s)" "pg_inv (pg_handleCloseAllTabs s)" "pg_inv (pg_handleCloseLeftTabs key s)"
    "pg_inv (pg_handleCloseRightTabs key s)"
    using assms by (simp_all add: pg_handleCloseTab_def pg_handleCloseAllTabs_def pg_handleCloseLeftTabs_def
        pg_handleCloseRightTabs_def pg_inv_def pg_strip_fields strip_close_ok strip_close_all_ok strip_close_sides_ok strip_fixed)
qed

definition moves_tabs :: "pg_event \<Rightarrow> bool" where
  "moves_tabs e \<longleftrightarrow>
     (case e of PgOpenTable _ _ _ \<Rightarrow> True | PgOpenEr _ _ \<Rightarrow> True | PgOpenFunctions _ _ \<Rightarrow> True | PgOpenRoles \<Rightarrow> True | PgClose _ \<Rightarrow> True
      | PgCloseAll \<Rightarrow> True | PgCloseLeft _ \<Rightarrow> True | PgCloseRight _ \<Rightarrow> True | PgActivate _ \<Rightarrow> True
      | PgSelect n \<Rightarrow> (case n of PgTableNode _ _ _ \<Rightarrow> True | _ \<Rightarrow> False) | _ \<Rightarrow> False)"

lemmas pg_quiet_defs = pg_strip_def pg_init_begin_def pg_init_connected_def pg_init_databases_def pg_init_done_def pg_init_failed_def
  pg_loadTables_begin_def pg_loadTables_done_def loadSchemas_begin_def loadSchemas_listed_def loadSchemas_end_def drop_failed_def
  pg_onExpand_def pg_onSelect_def pg_toggle_def load_node_def menu_new_schema_def menu_new_table_def menu_export_def menu_import_def
  handleExport_done_def handleImportFile_done_def pg_io_failed_def

lemma drop_done_strip: "pg_strip (fst (drop_done d s)) = pg_strip s"
  by (cases d) (simp_all add: pg_quiet_defs)

lemma pg_quiet: "\<not> moves_tabs e \<Longrightarrow> pg_strip (pg_step t s e) = pg_strip s"
  by (cases e) (auto simp: pg_quiet_defs moves_tabs_def Let_def drop_done_strip [unfolded pg_strip_def]
      split: option.split pg_node.splits)

lemma pg_step_inv:
  assumes "pg_inv s" "pg_enabled s e"
  shows "pg_inv (pg_step t s e)"
proof (cases "moves_tabs e")
  case False
  with pg_quiet pg_same_strip assms(1) show ?thesis by blast
next
  case True
  then show ?thesis
    using assms pg_open_inv [OF assms(1)] pg_close_inv [OF assms(1)]
    by (cases e) (auto simp: moves_tabs_def pg_enabled_def pg_openTableTab_def pg_table_tab_def pg_openErTab_def openFunctionsTab_def
        openRolesTab_def pg_onSelect_def pg_inv_def strip_ok_def pg_strip_def split: pg_node.splits)
qed

interpretation pg_tabs: transition_system pg_enabled "pg_step t" pg_inv for t
  by unfold_locales (rule pg_step_inv)

text \<open>
  In every run the keys of the tabs are distinct, the active tab is open, and the two fixed tabs stay.
\<close>

theorem pg_tabs_stay_open:
  assumes "run_steps pg_enabled (pg_step t) (init_pg_page t database schema) es = Some s"
  shows "distinct (map pt_key (pp_tabs s)) \<and> pp_activeTabKey s \<in> pt_key ` set (pp_tabs s) \<and>
    map pt_key (filter (\<lambda>t. \<not> pt_closable t) (pp_tabs s)) = [''status'', ''sql_1'']"
proof -
  have "pg_inv (init_pg_page t database schema)"
    by (simp add: pg_inv_def strip_ok_def pg_strip_def init_pg_page_def fixed_tab_def Let_def)
  from pg_tabs.run_inv [OF this assms] show ?thesis by (simp add: pg_inv_def strip_ok_def pg_strip_def)
qed

theorem pg_tabs_stay_open_witness:
  "\<exists>s. run_steps pg_enabled (pg_step (\<lambda>k _. k)) (init_pg_page (\<lambda>k _. k) None None)
       [PgOpenTable ''d'' ''s'' ''a'', PgOpenRoles, PgCloseLeft ''roles'', PgClose ''roles''] = Some s \<and>
     pp_activeTabKey s \<in> pt_key ` set (pp_tabs s)"
proof -
  let ?run = "run_steps pg_enabled (pg_step (\<lambda>k _. k)) (init_pg_page (\<lambda>k _. k) None None)
       [PgOpenTable ''d'' ''s'' ''a'', PgOpenRoles, PgCloseLeft ''roles'', PgClose ''roles'']"
  have "?run \<noteq> None" by (simp add: pg_enabled_def)
  then obtain s where "?run = Some s" by auto
  with pg_tabs_stay_open [OF this] show ?thesis by blast
qed

subsection \<open>Where the page goes wrong\<close>

text \<open>
  C37: the menu of a table in a schema that was only expanded, not selected: the import writes into, and the export reads, the table of the
  same name in the schema that was selected last, which is another one.
\<close>

theorem import_into_other_schema:
  assumes "(db, schema) \<noteq> (pp_currentDb s, pp_currentSchema s)"
    and "s1 = pg_loadTables_done db schema (Some names) (fst (pg_onExpand keys (Some (PgSchemaNode db schema)) s))"
    and "table \<in> set names"
  shows "nullish (pp_tablesMap s1 (schema_key db schema)) [] = names \<and>
    handleImportFile_begin mode (menu_import db schema table s1) = [PgImportFromFile (pp_currentDb s) (pp_currentSchema s) mode table] \<and>
    handleExport_begin mode ''table'' q l (menu_export db schema table s1) =
      [PgExportToFile (pp_currentDb s) (pp_currentSchema s) mode ''table'' table q l] \<and>
    [PgImportFromFile (pp_currentDb s) (pp_currentSchema s) mode table] \<noteq> [PgImportFromFile db schema mode table]"
proof -
  have "pp_currentDb s1 = pp_currentDb s" "pp_currentSchema s1 = pp_currentSchema s" "pp_tablesMap s1 (schema_key db schema) = Some names"
    unfolding assms(2) by (simp_all add: pg_onExpand_def load_node_def pg_loadTables_begin_def pg_loadTables_done_def Let_def)
  then show ?thesis
    using assms(1) by (auto simp: menu_import_def menu_export_def handleImportFile_begin_def handleExport_begin_def nullish_def)
qed

theorem import_into_other_schema_witness:
  "handleImportFile_begin ''csv'' (menu_import ''shop'' ''archive'' ''orders''
     (pg_loadTables_done ''shop'' ''archive'' (Some [''orders''])
       (fst (pg_onExpand [] (Some (PgSchemaNode ''shop'' ''archive'')) (init_pg_page (\<lambda>k _. k) (Some ''shop'') None))))) =
    [PgImportFromFile ''shop'' ''public'' ''csv'' ''orders'']"
proof -
  have "(''shop'', ''archive'') \<noteq> (pp_currentDb (init_pg_page (\<lambda>k _. k) (Some ''shop'') None), pp_currentSchema (init_pg_page (\<lambda>k _. k) (Some ''shop'') None))"
    by (simp add: init_pg_page_def opt_or_def str_or_def Let_def)
  from import_into_other_schema [OF this refl, of "''orders''" "[''orders'']" "[]" "''csv''"]
  show ?thesis by (simp add: init_pg_page_def opt_or_def str_or_def Let_def)
qed

text \<open>The tab of a table that was dropped stays open, with the table view that goes on asking for its rows.\<close>

theorem dropped_table_tab_stays:
  assumes "find_tab pt_key (pg_table_key db schema table) (pp_tabs s) = Some tab"
  shows "find_tab pt_key (pg_table_key db schema table) (pp_tabs (fst (drop_done (DropTableOf db schema table) s))) = Some tab"
  using assms drop_done_strip [of "DropTableOf db schema table" s] by (simp add: pg_strip_def)

theorem dropped_table_tab_stays_witness:
  "find_tab pt_key (pg_table_key ''d'' ''s'' ''a'') (pp_tabs (fst (drop_done (DropTableOf ''d'' ''s'' ''a'')
     (pg_openTableTab ''d'' ''s'' ''a'' (init_pg_page (\<lambda>k _. k) None None))))) = Some (pg_table_tab ''d'' ''s'' ''a'')"
  by (rule dropped_table_tab_stays)
    (simp add: pg_openTableTab_def set_pg_strip_def strip_open_def pg_strip_def pg_table_tab_def pg_table_key_def init_pg_page_def
      fixed_tab_def find_tab_def Let_def)

text \<open>Two tables of one database whose schema and name run together to the same text have the same tab.\<close>

theorem pg_table_keys_collide:
  assumes "find_tab pt_key (pg_table_key db (x @ ''_'' @ y) z) (pp_tabs s) = Some (pg_table_tab db (x @ ''_'' @ y) z)"
  shows "let s1 = pg_openTableTab db x (y @ ''_'' @ z) s in
    find_tab pt_key (pp_activeTabKey s1) (pp_tabs s1) = Some (pg_table_tab db (x @ ''_'' @ y) z)"
proof -
  have "pg_table_key db x (y @ ''_'' @ z) = pg_table_key db (x @ ''_'' @ y) z" by (simp add: pg_table_key_def)
  then show ?thesis
    using assms by (simp add: pg_openTableTab_def set_pg_strip_def strip_open_def pg_strip_def pg_table_tab_def Let_def)
qed

theorem pg_table_keys_collide_witness:
  "let s1 = pg_openTableTab ''d'' ''app'' ''user_orders'' (pg_openTableTab ''d'' ''app_user'' ''orders'' (init_pg_page (\<lambda>k _. k) None None)) in
    find_tab pt_key (pp_activeTabKey s1) (pp_tabs s1) = Some (pg_table_tab ''d'' ''app_user'' ''orders'')"
  using pg_table_keys_collide [of "''d''" "''app''" "''user''" "''orders''" "pg_openTableTab ''d'' ''app_user'' ''orders'' (init_pg_page (\<lambda>k _. k) None None)"]
  by (simp add: pg_openTableTab_def set_pg_strip_def strip_open_def pg_strip_def pg_table_tab_def pg_table_key_def init_pg_page_def
      fixed_tab_def find_tab_def Let_def)

end
