(* ===== verification/SqlitePage.thy ===== *)
theory SqlitePage
  imports PageTabs JsError SqlText Storage
begin

section \<open>The SQLite page\<close>

text \<open>
  \<open>pages/sqlite/SqliteClient.tsx\<close>: the list of tables, the tabs, the dialogs for a new table and for confirmations, and the statements
  that are sent. Handlers are split at their awaits; what a handler captured and uses after an await is an argument of the
  later step. Labels of confirmations are left out.
\<close>

subsection \<open>State\<close>

datatype sqlite_tab_type = SqData | SqSql

record sqlite_tab =
  st_key :: string
  st_label :: string
  st_type :: sqlite_tab_type
  st_table :: "string option"
  st_sqlText :: "string option"
  st_closable :: bool

record sqlite_table =
  sqt_name :: string
  sqt_type :: string

datatype sqlite_confirm = NoSqConfirm | ConfirmDrop sqlite_table | ConfirmTruncate sqlite_table

record sqlite_page =
  sq_tables :: "sqlite_table list"
  sq_filterText :: string
  sq_busy :: bool
  sq_path :: string
  sq_size :: int
  sq_confirm :: sqlite_confirm
  sq_createModalOpen :: bool
  sq_createTableName :: string
  sq_createColDefs :: string
  sq_createBusy :: bool
  sq_createMsg :: string
  sq_tabs :: "sqlite_tab list"
  sq_activeTabKey :: string
  sq_messages :: "string list"

datatype sqlite_call = SqliteTables | SqliteInfo | SqliteRun string | SqliteClipboard string

definition sql_main :: "translator \<Rightarrow> string option \<Rightarrow> bool \<Rightarrow> sqlite_tab" where
  "sql_main t sqlText closable =
     \<lparr>st_key = ''sql_main'', st_label = t ''sqlite.sqlEditor'' [], st_type = SqSql, st_table = None, st_sqlText = sqlText,
      st_closable = closable\<rparr>"

definition init_sqlite_page :: "translator \<Rightarrow> string \<Rightarrow> int \<Rightarrow> sqlite_page" where
  \<comment> \<open>the path and the size of the session\<close>
  "init_sqlite_page t path bytes =
     \<lparr>sq_tables = [], sq_filterText = [], sq_busy = False, sq_path = path, sq_size = bytes, sq_confirm = NoSqConfirm,
      sq_createModalOpen = False, sq_createTableName = [], sq_createColDefs = [], sq_createBusy = False, sq_createMsg = [],
      sq_tabs = [sql_main t None False], sq_activeTabKey = ''sql_main'', sq_messages = []\<rparr>"

definition sq_say :: "string \<Rightarrow> sqlite_page \<Rightarrow> sqlite_page" where
  "sq_say m s = s\<lparr>sq_messages := sq_messages s @ [m]\<rparr>"

subsection \<open>Loading\<close>

definition sq_loadTables_begin :: "sqlite_page \<Rightarrow> sqlite_page \<times> sqlite_call list" where
  "sq_loadTables_begin s = (s\<lparr>sq_busy := True\<rparr>, [SqliteTables])"

definition sq_loadTables_done :: "sqlite_table list \<Rightarrow> sqlite_page \<Rightarrow> sqlite_page" where
  "sq_loadTables_done list s = s\<lparr>sq_tables := list, sq_busy := False\<rparr>"

definition sq_loadTables_failed :: "translator \<Rightarrow> js_error \<Rightarrow> sqlite_page \<Rightarrow> sqlite_page" where
  "sq_loadTables_failed t e s =
     (sq_say (t ''sqlite.loadTableFailed'' [(''error'', errorMessage t e)]) s)\<lparr>sq_busy := False\<rparr>"

definition loadInfo_done :: "(string \<times> int) option \<Rightarrow> sqlite_page \<Rightarrow> sqlite_page" where
  \<comment> \<open>path and size; a size that is no number comes as 0, and a failure changes nothing\<close>
  "loadInfo_done info s = (case info of Some (path, bytes) \<Rightarrow> s\<lparr>sq_path := path, sq_size := bytes\<rparr> | None \<Rightarrow> s)"

definition copyPath :: "translator \<Rightarrow> sqlite_page \<Rightarrow> sqlite_page \<times> sqlite_call list" where
  "copyPath t s =
     (if sq_path s = [] then (sq_say (t ''sqlite.noFilePath'' []) s, [])
      else (sq_say (t ''sqlite.filePathCopied'' []) s, [SqliteClipboard (sq_path s)]))"

definition filteredTables :: "sqlite_page \<Rightarrow> sqlite_table list" where
  "filteredTables s =
     (if trim (sq_filterText s) = [] then sq_tables s
      else filter (\<lambda>t. includes_str (to_lower (sqt_name t)) (to_lower (sq_filterText s))) (sq_tables s))"

definition activeTableName :: "sqlite_page \<Rightarrow> string option" where
  "activeTableName s =
     (case find_tab st_key (sq_activeTabKey s) (sq_tabs s) of
        Some tab \<Rightarrow> if st_type tab = SqData then st_table tab else None
      | None \<Rightarrow> None)"

definition fmtSize :: "nat \<Rightarrow> string" where
  "fmtSize n =
     (if n = 0 then ''0 B''
      else let (d, i) = size_loop 3 n 1 0 in
        to_fixed (if 10 * d \<le> n \<or> i = 0 then 0 else 1) n d @ '' '' @ [''B'', ''KB'', ''MB'', ''GB''] ! i)"

subsection \<open>Tabs\<close>

definition sq_strip :: "sqlite_page \<Rightarrow> sqlite_tab strip" where
  "sq_strip s = (sq_tabs s, sq_activeTabKey s)"

definition set_sq_strip :: "sqlite_tab strip \<Rightarrow> sqlite_page \<Rightarrow> sqlite_page" where
  "set_sq_strip st s = s\<lparr>sq_tabs := fst st, sq_activeTabKey := snd st\<rparr>"

definition sq_table_tab :: "string \<Rightarrow> sqlite_tab" where
  "sq_table_tab name =
     \<lparr>st_key = ''tbl_'' @ name, st_label = name, st_type = SqData, st_table = Some name, st_sqlText = None, st_closable = True\<rparr>"

definition sq_openTableTab :: "sqlite_tab list \<Rightarrow> string \<Rightarrow> sqlite_page \<Rightarrow> sqlite_page" where
  \<comment> \<open>with the tabs that were captured\<close>
  "sq_openTableTab tabs name s = set_sq_strip (strip_open st_key tabs (sq_table_tab name) (sq_strip s)) s"

definition openSqlEditor :: "translator \<Rightarrow> string option \<Rightarrow> sqlite_page \<Rightarrow> sqlite_page" where
  "openSqlEditor t initialSql s =
     (case find (\<lambda>tab. st_type tab = SqSql) (sq_tabs s) of
        Some existing \<Rightarrow> s\<lparr>sq_activeTabKey := st_key existing\<rparr>
      | None \<Rightarrow> s\<lparr>sq_tabs := sq_tabs s @ [sql_main t initialSql True], sq_activeTabKey := ''sql_main''\<rparr>)"

definition sq_handleCloseTab :: "sqlite_tab list \<Rightarrow> string \<Rightarrow> string \<Rightarrow> sqlite_page \<Rightarrow> sqlite_page" where
  \<comment> \<open>with the tabs and the active key that were captured\<close>
  "sq_handleCloseTab tabs active key s = set_sq_strip (any_close st_key tabs active key (sq_strip s)) s"

definition sq_handleCloseAllTabs :: "sqlite_page \<Rightarrow> sqlite_page" where
  "sq_handleCloseAllTabs s = set_sq_strip (any_close_all st_key (sq_strip s)) s"

definition sq_handleCloseLeftTabs :: "string \<Rightarrow> sqlite_page \<Rightarrow> sqlite_page" where
  "sq_handleCloseLeftTabs key s = set_sq_strip (any_close_left st_key key (sq_strip s)) s"

definition sq_handleCloseRightTabs :: "string \<Rightarrow> sqlite_page \<Rightarrow> sqlite_page" where
  "sq_handleCloseRightTabs key s = set_sq_strip (any_close_right st_key key (sq_strip s)) s"

definition tab_closable :: "sqlite_page \<Rightarrow> sqlite_tab \<Rightarrow> bool" where
  \<comment> \<open>\<open>closable\<close> of the item in the tab bar\<close>
  "tab_closable s tab \<longleftrightarrow> st_closable tab \<and> 1 < length (sq_tabs s)"

subsection \<open>Statements\<close>

definition sq_quoteIdent :: "string \<Rightarrow> string" where
  "sq_quoteIdent s = [CHR 0x22] @ replace_char (CHR 0x22) [CHR 0x22, CHR 0x22] s @ [CHR 0x22]"

definition menu_new_query :: "translator \<Rightarrow> sqlite_table \<Rightarrow> sqlite_page \<Rightarrow> sqlite_page" where
  "menu_new_query t tbl s = openSqlEditor t (Some (''SELECT * FROM '' @ sq_quoteIdent (sqt_name tbl) @ '' LIMIT 50;'')) s"

definition handleOpenCreateModal :: "sqlite_page \<Rightarrow> sqlite_page" where
  "handleOpenCreateModal s =
     s\<lparr>sq_createTableName := [],
       sq_createColDefs := sq_quoteIdent ''id'' @ '' INTEGER PRIMARY KEY AUTOINCREMENT, '' @ sq_quoteIdent ''name'' @ '' TEXT'',
       sq_createMsg := [], sq_createModalOpen := True\<rparr>"

definition handleConfirmCreateTable_begin :: "translator \<Rightarrow> sqlite_page \<Rightarrow> sqlite_page \<times> sqlite_call list" where
  "handleConfirmCreateTable_begin t s =
     (let tName = trim (sq_createTableName s); cols = trim (sq_createColDefs s) in
      if tName = [] \<or> cols = [] then (s\<lparr>sq_createMsg := t ''sqlite.createReq'' []\<rparr>, [])
      else (s\<lparr>sq_createBusy := True, sq_createMsg := []\<rparr>,
            [SqliteRun (''CREATE TABLE '' @ sq_quoteIdent tName @ '' ('' @ cols @ '')'')]))"

definition handleConfirmCreateTable_created :: "translator \<Rightarrow> sqlite_page \<Rightarrow> sqlite_page \<Rightarrow> sqlite_page \<times> sqlite_call list" where
  \<comment> \<open>\<open>c\<close> is the state of the render in which the handler was made\<close>
  "handleConfirmCreateTable_created t c s =
     sq_loadTables_begin (s\<lparr>sq_createMsg := t ''sqlite.createSuccess'' [(''name'', trim (sq_createTableName c))]\<rparr>)"

definition handleConfirmCreateTable_done :: "sqlite_page \<Rightarrow> sqlite_page \<Rightarrow> sqlite_page" where
  "handleConfirmCreateTable_done c s = sq_openTableTab (sq_tabs c) (trim (sq_createTableName c)) s"

definition create_timer :: "sqlite_page \<Rightarrow> sqlite_page" where
  "create_timer s = s\<lparr>sq_createModalOpen := False, sq_createBusy := False\<rparr>"

definition handleConfirmCreateTable_failed :: "translator \<Rightarrow> js_error \<Rightarrow> sqlite_page \<Rightarrow> sqlite_page" where
  "handleConfirmCreateTable_failed t e s =
     s\<lparr>sq_createMsg := t ''sqlite.createFail'' [(''error'', errorMessage t e)], sq_createBusy := False\<rparr>"

definition sq_handleDropTable :: "sqlite_table \<Rightarrow> sqlite_page \<Rightarrow> sqlite_page" where
  "sq_handleDropTable tbl s = s\<lparr>sq_confirm := ConfirmDrop tbl\<rparr>"

definition sq_handleTruncateTable :: "sqlite_table \<Rightarrow> sqlite_page \<Rightarrow> sqlite_page" where
  "sq_handleTruncateTable tbl s = s\<lparr>sq_confirm := ConfirmTruncate tbl\<rparr>"

definition sq_confirm_begin :: "sqlite_page \<Rightarrow> sqlite_page \<times> sqlite_call list" where
  "sq_confirm_begin s =
     (let s1 = s\<lparr>sq_confirm := NoSqConfirm\<rparr> in
      case sq_confirm s of
        NoSqConfirm \<Rightarrow> (s, [])
      | ConfirmDrop tbl \<Rightarrow>
          (s1, [SqliteRun ((if sqt_type tbl = ''view'' then ''DROP VIEW '' else ''DROP TABLE '') @ sq_quoteIdent (sqt_name tbl))])
      | ConfirmTruncate tbl \<Rightarrow> (s1, [SqliteRun (''DELETE FROM '' @ sq_quoteIdent (sqt_name tbl))]))"

definition sq_confirm_done :: "translator \<Rightarrow> sqlite_page \<Rightarrow> sqlite_confirm \<Rightarrow> sqlite_page \<Rightarrow> sqlite_page \<times> sqlite_call list" where
  \<comment> \<open>\<open>c\<close> is the state of the render in which the question was put\<close>
  "sq_confirm_done t c q s =
     (case q of
        NoSqConfirm \<Rightarrow> (s, [])
      | ConfirmDrop tbl \<Rightarrow>
          sq_loadTables_begin (sq_handleCloseTab (sq_tabs c) (sq_activeTabKey c) (''tbl_'' @ sqt_name tbl)
            (sq_say (t ''sqlite.dropSuccess'' [(''name'', sqt_name tbl)]) s))
      | ConfirmTruncate tbl \<Rightarrow> sq_loadTables_begin (sq_say (t ''sqlite.truncateSuccess'' [(''name'', sqt_name tbl)]) s))"

definition sq_confirm_failed :: "translator \<Rightarrow> js_error \<Rightarrow> sqlite_confirm \<Rightarrow> sqlite_page \<Rightarrow> sqlite_page" where
  "sq_confirm_failed t e q s =
     (case q of
        NoSqConfirm \<Rightarrow> s
      | ConfirmDrop _ \<Rightarrow> sq_say (t ''sqlite.dropFail'' [(''error'', errorMessage t e)]) s
      | ConfirmTruncate _ \<Rightarrow> sq_say (t ''sqlite.truncateFail'' [(''error'', errorMessage t e)]) s)"

subsection \<open>Runs\<close>

datatype sq_event =
    SqLoadTables | SqTablesLoaded "sqlite_table list" | SqTablesFailed js_error | SqInfo "(string \<times> int) option" | SqCopyPath
  | SqFilter string | SqOpenTable string | SqOpenEditor "string option" | SqNewQuery sqlite_table
  | SqClose string | SqCloseAll | SqCloseLeft string | SqCloseRight string | SqActivate string
  | SqOpenCreate | SqTypeName string | SqTypeCols string | SqCreate | SqCreated sqlite_page | SqCreateListed sqlite_page | SqTimer
  | SqCreateFailed js_error
  | SqAskDrop sqlite_table | SqAskTruncate sqlite_table | SqCancel | SqConfirm | SqConfirmed sqlite_page sqlite_confirm
  | SqConfirmFailed js_error sqlite_confirm

fun sq_step :: "translator \<Rightarrow> sqlite_page \<Rightarrow> sq_event \<Rightarrow> sqlite_page" where
  "sq_step t s SqLoadTables = fst (sq_loadTables_begin s)"
| "sq_step t s (SqTablesLoaded ts) = sq_loadTables_done ts s"
| "sq_step t s (SqTablesFailed e) = sq_loadTables_failed t e s"
| "sq_step t s (SqInfo i) = loadInfo_done i s"
| "sq_step t s SqCopyPath = fst (copyPath t s)"
| "sq_step t s (SqFilter x) = s\<lparr>sq_filterText := x\<rparr>"
| "sq_step t s (SqOpenTable name) = sq_openTableTab (sq_tabs s) name s"
| "sq_step t s (SqOpenEditor x) = openSqlEditor t x s"
| "sq_step t s (SqNewQuery tbl) = menu_new_query t tbl s"
| "sq_step t s (SqClose key) = sq_handleCloseTab (sq_tabs s) (sq_activeTabKey s) key s"
| "sq_step t s SqCloseAll = sq_handleCloseAllTabs s"
| "sq_step t s (SqCloseLeft key) = sq_handleCloseLeftTabs key s"
| "sq_step t s (SqCloseRight key) = sq_handleCloseRightTabs key s"
| "sq_step t s (SqActivate key) = s\<lparr>sq_activeTabKey := key\<rparr>"
| "sq_step t s SqOpenCreate = handleOpenCreateModal s"
| "sq_step t s (SqTypeName x) = s\<lparr>sq_createTableName := x\<rparr>"
| "sq_step t s (SqTypeCols x) = s\<lparr>sq_createColDefs := x\<rparr>"
| "sq_step t s SqCreate = fst (handleConfirmCreateTable_begin t s)"
| "sq_step t s (SqCreated c) = fst (handleConfirmCreateTable_created t c s)"
| "sq_step t s (SqCreateListed c) = handleConfirmCreateTable_done c s"
| "sq_step t s SqTimer = create_timer s"
| "sq_step t s (SqCreateFailed e) = handleConfirmCreateTable_failed t e s"
| "sq_step t s (SqAskDrop tbl) = sq_handleDropTable tbl s"
| "sq_step t s (SqAskTruncate tbl) = sq_handleTruncateTable tbl s"
| "sq_step t s SqCancel = s\<lparr>sq_confirm := NoSqConfirm\<rparr>"
| "sq_step t s SqConfirm = fst (sq_confirm_begin s)"
| "sq_step t s (SqConfirmed c q) = fst (sq_confirm_done t c q s)"
| "sq_step t s (SqConfirmFailed e q) = sq_confirm_failed t e q s"

definition sq_enabled :: "sqlite_page \<Rightarrow> sq_event \<Rightarrow> bool" where
  \<comment> \<open>only an open tab can be clicked; no tab is opened or closed while a table is created or dropped\<close>
  "sq_enabled s e \<longleftrightarrow>
     (case e of
        SqActivate key \<Rightarrow> key \<in> st_key ` set (sq_tabs s)
      | SqCreateListed c \<Rightarrow> sq_strip c = sq_strip s
      | SqConfirmed c q \<Rightarrow> sq_strip c = sq_strip s
      | _ \<Rightarrow> True)"

definition sq_inv :: "sqlite_page \<Rightarrow> bool" where
  \<comment> \<open>and the keys are those of their tabs\<close>
  "sq_inv s \<longleftrightarrow> strip_ok st_key (sq_strip s) \<and>
     (\<forall>tab\<in>set (fst (sq_strip s)). (st_type tab = SqSql) = (st_key tab = ''sql_main''))"

lemma sq_strip_set [simp]: "sq_strip (set_sq_strip st s) = st"
  by (simp add: sq_strip_def set_sq_strip_def)

lemma sq_strip_fields: "sq_tabs s = fst (sq_strip s)" "sq_activeTabKey s = snd (sq_strip s)"
  by (simp_all add: sq_strip_def)

lemma any_subset:
  "set (fst (any_close key (fst st) a k st)) \<subseteq> set (fst st)" "set (fst (any_close_all key st)) \<subseteq> set (fst st)"
  "set (fst (any_close_left key k st)) \<subseteq> set (fst st)" "set (fst (any_close_right key k st)) \<subseteq> set (fst st)"
  by (auto simp: any_close_def any_close_all_def any_close_left_def any_close_right_def Let_def dest: in_set_dropD in_set_takeD
      split: option.splits if_splits) (metis hd_in_set le_numeral_extra(1) length_0_conv One_nat_def list.size(3))

lemma sq_fewer_inv: "sq_inv s \<Longrightarrow> strip_ok st_key st \<Longrightarrow> set (fst st) \<subseteq> set (fst (sq_strip s)) \<Longrightarrow> sq_inv (set_sq_strip st s)"
  by (auto simp: sq_inv_def)

lemma sq_close_inv:
  assumes "sq_inv s"
  shows "sq_inv (sq_handleCloseTab (sq_tabs s) (sq_activeTabKey s) key s)" "sq_inv (sq_handleCloseAllTabs s)"
    "sq_inv (sq_handleCloseLeftTabs key s)" "sq_inv (sq_handleCloseRightTabs key s)"
proof -
  have ok: "strip_ok st_key (sq_strip s)" using assms by (simp add: sq_inv_def)
  show "sq_inv (sq_handleCloseTab (sq_tabs s) (sq_activeTabKey s) key s)" "sq_inv (sq_handleCloseAllTabs s)"
    "sq_inv (sq_handleCloseLeftTabs key s)" "sq_inv (sq_handleCloseRightTabs key s)"
    unfolding sq_handleCloseTab_def sq_handleCloseAllTabs_def sq_handleCloseLeftTabs_def sq_handleCloseRightTabs_def sq_strip_fields
    by (intro sq_fewer_inv [OF assms] any_subset any_close_ok [OF ok] any_close_all_ok [OF ok] any_close_sides_ok [OF ok])+
qed

lemma sq_open_inv: "sq_inv s \<Longrightarrow> sq_inv (sq_openTableTab (sq_tabs s) name s)"
  using strip_open_ok [of st_key "sq_strip s" "sq_table_tab name"]
  by (auto simp: sq_inv_def sq_openTableTab_def sq_strip_fields strip_open_def sq_table_tab_def split: option.splits)

lemma sq_editor_inv:
  assumes "sq_inv s"
  shows "sq_inv (openSqlEditor t x s)"
proof (cases "find (\<lambda>tab. st_type tab = SqSql) (sq_tabs s)")
  case None
  then have "\<forall>tab\<in>set (sq_tabs s). st_type tab \<noteq> SqSql" by (auto simp: find_None_iff)
  with None assms show ?thesis
    by (auto simp: openSqlEditor_def sq_inv_def strip_ok_def sq_strip_def sql_main_def)
next
  case (Some tab)
  then have "tab \<in> set (sq_tabs s)" by (auto simp: find_Some_iff)
  with Some assms show ?thesis by (auto simp: openSqlEditor_def sq_inv_def strip_ok_def sq_strip_def)
qed

lemma sq_same: "sq_strip s' = sq_strip s \<Longrightarrow> sq_inv s \<Longrightarrow> sq_inv s'"
  by (simp add: sq_inv_def)

lemma sq_confirmed_inv:
  assumes "sq_inv s" "sq_strip c = sq_strip s"
  shows "sq_inv (fst (sq_confirm_done t c q s))"
proof (cases q)
  case (ConfirmDrop tbl)
  let ?s = "sq_say (t ''sqlite.dropSuccess'' [(''name'', sqt_name tbl)]) s"
  have same: "sq_strip ?s = sq_strip s" by (simp add: sq_say_def sq_strip_def)
  then have "sq_tabs c = sq_tabs ?s" "sq_activeTabKey c = sq_activeTabKey ?s" using assms(2) by (simp_all add: sq_strip_def)
  moreover have "sq_inv ?s" using sq_same [OF same assms(1)] .
  ultimately have "sq_inv (sq_handleCloseTab (sq_tabs c) (sq_activeTabKey c) (''tbl_'' @ sqt_name tbl) ?s)"
    using sq_close_inv(1) [of ?s] by simp
  then show ?thesis
    by (rule sq_same [rotated]) (simp add: ConfirmDrop sq_confirm_done_def sq_loadTables_begin_def sq_strip_def)
qed (use sq_same [OF _ assms(1)] in \<open>simp_all add: sq_confirm_done_def sq_loadTables_begin_def sq_say_def sq_strip_def\<close>)

lemma sq_step_inv:
  assumes "sq_inv s" "sq_enabled s e"
  shows "sq_inv (sq_step t s e)"
proof (cases e)
  case (SqConfirmed c q)
  with sq_confirmed_inv assms show ?thesis by (simp add: sq_enabled_def)
next
  case (SqCreateListed c)
  then have "sq_tabs c = sq_tabs s" using assms(2) by (simp add: sq_enabled_def sq_strip_def)
  with sq_open_inv [OF assms(1)] SqCreateListed show ?thesis by (simp add: handleConfirmCreateTable_done_def)
next
  case (SqActivate key)
  with assms show ?thesis by (auto simp: sq_enabled_def sq_inv_def strip_ok_def sq_strip_def)
qed (use assms(1) sq_close_inv [OF assms(1)] sq_open_inv [OF assms(1)] sq_editor_inv [OF assms(1)] sq_same [OF _ assms(1)] in
    \<open>simp_all add: menu_new_query_def sq_loadTables_begin_def sq_loadTables_done_def sq_loadTables_failed_def loadInfo_done_def
       copyPath_def sq_say_def handleOpenCreateModal_def handleConfirmCreateTable_begin_def handleConfirmCreateTable_created_def
       create_timer_def handleConfirmCreateTable_failed_def sq_handleDropTable_def sq_handleTruncateTable_def sq_confirm_begin_def
       sq_confirm_failed_def sq_strip_def Let_def split: option.split prod.split sqlite_confirm.split\<close>)

interpretation sqlite_tabs: transition_system sq_enabled "sq_step t" sq_inv for t
  by unfold_locales (rule sq_step_inv)

text \<open>
  In every run in which no tab is opened or closed while a table is created or dropped, the keys of the tabs are distinct, the active
  tab is open, and there is at most one SQL editor.
\<close>

theorem sqlite_tabs_stay_open:
  assumes "run_steps sq_enabled (sq_step t) (init_sqlite_page t path bytes) es = Some s"
  shows "distinct (map st_key (sq_tabs s)) \<and> sq_activeTabKey s \<in> st_key ` set (sq_tabs s) \<and>
    length (filter (\<lambda>tab. st_type tab = SqSql) (sq_tabs s)) \<le> 1"
proof -
  have "sq_inv (init_sqlite_page t path bytes)"
    by (simp add: sq_inv_def strip_ok_def sq_strip_def init_sqlite_page_def sql_main_def)
  from sqlite_tabs.run_inv [OF this assms]
  have ok: "distinct (map st_key (sq_tabs s))" "sq_activeTabKey s \<in> st_key ` set (sq_tabs s)"
    and kind: "\<forall>tab\<in>set (sq_tabs s). (st_type tab = SqSql) = (st_key tab = ''sql_main'')"
    by (simp_all add: sq_inv_def strip_ok_def sq_strip_def)
  have "filter (\<lambda>tab. st_type tab = SqSql) (sq_tabs s) = filter (\<lambda>tab. st_key tab = ''sql_main'') (sq_tabs s)"
    using kind by (intro filter_cong) auto
  moreover have "length (filter (\<lambda>tab. st_key tab = k) ts) \<le> 1" if "distinct (map st_key ts)" for k ts
    using that
  proof (induction ts)
    case (Cons tab ts)
    have "filter (\<lambda>tab. st_key tab = k) ts = []" if "st_key tab = k"
      using Cons.prems that by (simp add: filter_empty_conv) (metis image_eqI)
    with Cons show ?case by auto
  qed simp
  ultimately show ?thesis using ok by simp
qed

theorem sqlite_tabs_stay_open_witness:
  "\<exists>s. run_steps sq_enabled (sq_step (\<lambda>k _. k)) (init_sqlite_page (\<lambda>k _. k) ''f.db'' 10)
       [SqOpenTable ''a'', SqOpenTable ''b'', SqCloseLeft ''tbl_b'', SqOpenEditor None, SqClose ''tbl_b''] = Some s \<and>
     sq_activeTabKey s \<in> st_key ` set (sq_tabs s)"
proof -
  let ?run = "run_steps sq_enabled (sq_step (\<lambda>k _. k)) (init_sqlite_page (\<lambda>k _. k) ''f.db'' 10)
       [SqOpenTable ''a'', SqOpenTable ''b'', SqCloseLeft ''tbl_b'', SqOpenEditor None, SqClose ''tbl_b'']"
  have "?run \<noteq> None" by (simp add: sq_enabled_def)
  then obtain s where "?run = Some s" by auto
  with sqlite_tabs_stay_open [OF this] show ?thesis by blast
qed

subsection \<open>The statements\<close>

definition read_statement :: "string \<Rightarrow> string \<Rightarrow> string option" where
  \<comment> \<open>the identifier after the words, when it is all there is\<close>
  "read_statement words sql =
     (case expect words sql of
        Some r \<Rightarrow> (case lex_ident SqliteD r of Some (name, rest) \<Rightarrow> if rest = [] then Some name else None | None \<Rightarrow> None)
      | None \<Rightarrow> None)"

lemma sq_quoteIdent_reads: "name \<noteq> [] \<Longrightarrow> lex_ident SqliteD (sq_quoteIdent name) = Some (name, [])"
  using lex_ident_escape [of name SqliteD "[]"] by (simp add: escapeSqlIdentifier_def sq_quoteIdent_def)

text \<open>
  C16: whatever the name of a table is made of, quotes and statements included, the confirmed statement drops, or empties, exactly this
  table.
\<close>

theorem statement_hits_the_table:
  assumes "sqt_name tbl \<noteq> []"
  shows "(\<exists>sql. snd (sq_confirm_begin (sq_handleDropTable tbl s)) = [SqliteRun sql] \<and>
      read_statement (if sqt_type tbl = ''view'' then ''DROP VIEW '' else ''DROP TABLE '') sql = Some (sqt_name tbl)) \<and>
    (\<exists>sql. snd (sq_confirm_begin (sq_handleTruncateTable tbl s)) = [SqliteRun sql] \<and>
      read_statement ''DELETE FROM '' sql = Some (sqt_name tbl))"
  using sq_quoteIdent_reads [OF assms]
  by (simp_all add: sq_confirm_begin_def sq_handleDropTable_def sq_handleTruncateTable_def read_statement_def)

theorem statement_hits_the_table_witness:
  "\<exists>sql. snd (sq_confirm_begin (sq_handleDropTable \<lparr>sqt_name = ''a'' @ [CHR 0x22] @ ''; DROP TABLE b'', sqt_type = ''table''\<rparr>
      (init_sqlite_page (\<lambda>k _. k) ''f.db'' 10))) = [SqliteRun sql] \<and>
    read_statement ''DROP TABLE '' sql = Some (''a'' @ [CHR 0x22] @ ''; DROP TABLE b'')"
  using statement_hits_the_table [of "\<lparr>sqt_name = ''a'' @ [CHR 0x22] @ ''; DROP TABLE b'', sqt_type = ''table''\<rparr>"
      "init_sqlite_page (\<lambda>k _. k) ''f.db'' 10"] by simp

subsection \<open>Where the page goes wrong\<close>

text \<open>
  Closing the tabs to the left of one, or all, takes the SQL editor with them, which has no button to be closed; with it goes the
  text in it.
\<close>

theorem close_left_takes_editor:
  assumes "find_index (\<lambda>tab. st_key tab = key) (sq_tabs s) = Some (Suc i)" "sq_tabs s = editor # rest"
    and "st_type editor = SqSql" "\<not> st_closable editor" "\<forall>tab\<in>set rest. st_type tab \<noteq> SqSql"
  shows "\<not> tab_closable s editor \<and> (\<forall>tab\<in>set (sq_tabs (sq_handleCloseLeftTabs key s)). st_type tab \<noteq> SqSql)"
  using assms by (auto simp: tab_closable_def sq_handleCloseLeftTabs_def set_sq_strip_def any_close_left_def sq_strip_def
      dest: in_set_dropD)

theorem close_left_takes_editor_witness:
  "\<forall>tab\<in>set (sq_tabs (sq_handleCloseLeftTabs ''tbl_a''
     ((init_sqlite_page (\<lambda>k _. k) ''f.db'' 10)\<lparr>sq_tabs := [sql_main (\<lambda>k _. k) None False, sq_table_tab ''a'']\<rparr>))). st_type tab \<noteq> SqSql"
  using close_left_takes_editor [of "''tbl_a''" "(init_sqlite_page (\<lambda>k _. k) ''f.db'' 10)\<lparr>sq_tabs := [sql_main (\<lambda>k _. k) None False, sq_table_tab ''a'']\<rparr>"
      0 "sql_main (\<lambda>k _. k) None False" "[sq_table_tab ''a'']"]
  by (simp add: sql_main_def sq_table_tab_def)

text \<open>
  The menu of a table offers a query on it; while an SQL editor is open, and one is from the start, it only goes to the editor, and
  the query is nowhere.
\<close>

theorem new_query_is_dropped:
  assumes "editor \<in> set (sq_tabs s)" "st_type editor = SqSql"
  shows "sq_tabs (menu_new_query t tbl s) = sq_tabs s \<and> menu_new_query t tbl s = openSqlEditor t None s"
proof -
  have "find (\<lambda>tab. st_type tab = SqSql) (sq_tabs s) \<noteq> None" using assms by (auto simp: find_None_iff)
  then show ?thesis by (auto simp: menu_new_query_def openSqlEditor_def split: option.split)
qed

theorem new_query_is_dropped_witness:
  "sq_tabs (menu_new_query (\<lambda>k _. k) \<lparr>sqt_name = ''a'', sqt_type = ''table''\<rparr> (init_sqlite_page (\<lambda>k _. k) ''f.db'' 10)) = [sql_main (\<lambda>k _. k) None False]"
proof -
  have tabs: "sq_tabs (init_sqlite_page (\<lambda>k _. k) ''f.db'' 10) = [sql_main (\<lambda>k _. k) None False]" by (simp add: init_sqlite_page_def)
  have "sql_main (\<lambda>k _. k) None False \<in> set (sq_tabs (init_sqlite_page (\<lambda>k _. k) ''f.db'' 10))" "st_type (sql_main (\<lambda>k _. k) None False) = SqSql"
    unfolding tabs by (simp_all add: sql_main_def)
  from new_query_is_dropped [OF this] show ?thesis unfolding tabs by blast
qed

end
