(* ===== verification/Csv.thy ===== *)
theory Csv
  imports Json
begin

section \<open>Reading CSV\<close>

text \<open>
  A reader of comma-separated values after RFC 4180, to compare the exports of the program with. A writer of fields that the reader
  takes for the intended text is an instance of the locale \<open>csv_field\<close>, which carries this over to records and files.
\<close>

datatype csv_mode = CsvPlain | CsvQuoted | CsvAfter

fun csv_read :: "csv_mode \<Rightarrow> string \<Rightarrow> string list \<Rightarrow> string list list \<Rightarrow> string \<Rightarrow> string list list option" where
  \<comment> \<open>RFC 4180, lines ended by a line feed; the field, the record and the records so far in reverse\<close>
  "csv_read CsvQuoted f r rs [] = None"
| "csv_read m f r rs [] = Some (rev (rev (rev f # r) # rs))"
| "csv_read CsvQuoted f r rs (c # s) =
     (if c = CHR 0x22 then csv_read CsvAfter f r rs s else csv_read CsvQuoted (c # f) r rs s)"
| "csv_read CsvAfter f r rs (c # s) =
     (if c = CHR 0x22 then csv_read CsvQuoted (c # f) r rs s
      else if c = CHR '','' then csv_read CsvPlain [] (rev f # r) rs s
      else if c = CHR 0x0A then csv_read CsvPlain [] [] (rev (rev f # r) # rs) s
      else None)"
| "csv_read CsvPlain f r rs (c # s) =
     (if c = CHR 0x22 then (if f = [] then csv_read CsvQuoted [] r rs s else None)
      else if c = CHR '','' then csv_read CsvPlain [] (rev f # r) rs s
      else if c = CHR 0x0A then csv_read CsvPlain [] [] (rev (rev f # r) # rs) s
      else csv_read CsvPlain (c # f) r rs s)"

definition plain_field :: "string \<Rightarrow> bool" where
  "plain_field w \<longleftrightarrow> (\<forall>c\<in>set w. c \<notin> {CHR 0x22, CHR '','', CHR 0x0A})"

definition csv_next :: "string list \<Rightarrow> string list list \<Rightarrow> string \<Rightarrow> string list list option" where
  \<comment> \<open>after a field\<close>
  "csv_next r rs s =
     (case s of
        [] \<Rightarrow> Some (rev (rev r # rs))
      | c # s' \<Rightarrow> if c = CHR '','' then csv_read CsvPlain [] r rs s' else csv_read CsvPlain [] [] (rev r # rs) s')"

definition csv_end :: "string \<Rightarrow> bool" where
  "csv_end s \<longleftrightarrow> s = [] \<or> hd s \<in> {CHR '','', CHR 0x0A}"

lemma csv_end_simps [simp]: "csv_end []" "csv_end (CHR '','' # s)" "csv_end (CHR 0x0A # s)"
  by (simp_all add: csv_end_def)

lemma csv_plain: "plain_field w \<Longrightarrow> csv_read CsvPlain f r rs (w @ s) = csv_read CsvPlain (rev w @ f) r rs s"
  by (induction w arbitrary: f) (simp_all add: plain_field_def)

lemma csv_quoted: "CHR 0x22 \<notin> set w \<Longrightarrow> csv_read CsvQuoted f r rs (w @ CHR 0x22 # s) = csv_read CsvAfter (rev w @ f) r rs s"
  by (induction w arbitrary: f) auto

locale csv_field =
  fixes enc :: "'x \<Rightarrow> string" and val :: "'x \<Rightarrow> string" and wf :: "'x \<Rightarrow> bool"
  assumes field_read: "wf x \<Longrightarrow> csv_end s \<Longrightarrow> csv_read CsvPlain [] r rs (enc x @ s) = csv_next (val x # r) rs s"
begin

lemma record_read:
  assumes "xs \<noteq> []" "\<forall>x\<in>set xs. wf x" "s = [] \<or> hd s = CHR 0x0A"
  shows "csv_read CsvPlain [] r rs (join '','' (map enc xs) @ s) = csv_next (rev (map val xs) @ r) rs s"
  using assms
proof (induction xs arbitrary: r)
  case (Cons x xs)
  show ?case
  proof (cases "xs = []")
    case True
    with Cons.prems show ?thesis using field_read [of x s r rs] by (auto simp: csv_end_def)
  next
    case False
    with Cons show ?thesis by (simp add: join_Cons field_read csv_next_def)
  qed
qed simp

lemma lines_read:
  assumes "xss \<noteq> []" "\<forall>xs\<in>set xss. xs \<noteq> [] \<and> (\<forall>x\<in>set xs. wf x)"
  shows "csv_read CsvPlain [] [] rs (join [CHR 0x0A] (map (\<lambda>xs. join '','' (map enc xs)) xss)) = Some (rev rs @ map (map val) xss)"
  using assms
proof (induction xss arbitrary: rs)
  case (Cons xs xss)
  show ?case
  proof (cases "xss = []")
    case True
    with Cons.prems record_read [of xs "[]" "[]" rs] show ?thesis by (simp add: csv_next_def)
  next
    case False
    with Cons record_read [of xs "CHR 0x0A # join [CHR 0x0A] (map (\<lambda>xs. join '','' (map enc xs)) xss)" "[]" rs]
    show ?thesis by (simp add: join_Cons csv_next_def)
  qed
qed simp

end

interpretation csv_header: csv_field "\<lambda>w. w" "\<lambda>w. w" plain_field
proof
  fix x s r rs
  assume "plain_field x" "csv_end s"
  then show "csv_read CsvPlain [] r rs (x @ s) = csv_next (x # r) rs s"
    using csv_plain [of x "[]" r rs s] by (cases s) (auto simp: csv_next_def csv_end_def)
qed

end
