(* ===== verification/SqlEditor.thy ===== *)
theory SqlEditor
  imports PageTabs Csv
begin

section \<open>The SQL editor\<close>

text \<open>
  \<open>components/db/SqlEditor/DbSqlEditor.tsx\<close>: queries in tabs, running and explaining them, and the copy of a result as CSV. Running is
  split at its await; what it captured is an argument of the later step. The adapter is what gives the answers. A reader of CSV after RFC
  4180 says what the copy means.
\<close>

subsection \<open>State\<close>

record query_result =
  qr_columns :: "string list"
  qr_rows :: "(string \<Rightarrow> js_value) list" \<comment> \<open>a field that is missing is undefined\<close>
  qr_affected :: "int option"
  qr_rowCount :: "int option"
  qr_durationMs :: "int option"
  qr_error :: "string option"

record explain_result =
  xr_raw :: js_value
  xr_treeData :: "js_value list option"
  xr_tableResult :: "query_result option"

datatype result_mode = TableMode | ExplainMode | JsonMode

record query_tab =
  qt_id :: string
  qt_title :: string
  qt_sql :: string
  qt_result :: "query_result option"
  qt_durationMs :: "int option"
  qt_error :: string
  qt_explainResult :: "explain_result option"
  qt_resultMode :: result_mode

record sql_editor =
  ed_tabs :: "query_tab list"
  ed_activeTabId :: string
  ed_running :: bool
  ed_messages :: "string list"

datatype sql_editor_call = RunSql string | ExplainSql string | CopyCsv string

definition empty_query :: "string \<Rightarrow> string \<Rightarrow> string \<Rightarrow> query_tab" where
  "empty_query i title sql =
     \<lparr>qt_id = i, qt_title = title, qt_sql = sql, qt_result = None, qt_durationMs = None, qt_error = [], qt_explainResult = None,
      qt_resultMode = TableMode\<rparr>"

definition query_title :: "translator \<Rightarrow> nat \<Rightarrow> string" where
  "query_title t n = t ''db:sql.queryTitle'' [(''index'', show_nat n)]"

definition init_sql_editor :: "translator \<Rightarrow> string option \<Rightarrow> string \<Rightarrow> sql_editor" where
  \<comment> \<open>the text the page gives, and the default of the adapter\<close>
  "init_sql_editor t initialSql defaultSql =
     \<lparr>ed_tabs = [empty_query ''tab_1'' (query_title t 1) (opt_or initialSql defaultSql)], ed_activeTabId = ''tab_1'', ed_running = False,
      ed_messages = []\<rparr>"

definition activeTab :: "sql_editor \<Rightarrow> query_tab" where
  "activeTab s = (case find_tab qt_id (ed_activeTabId s) (ed_tabs s) of Some tab \<Rightarrow> tab | None \<Rightarrow> hd (ed_tabs s))"

definition updateActiveTab :: "string \<Rightarrow> (query_tab \<Rightarrow> query_tab) \<Rightarrow> sql_editor \<Rightarrow> sql_editor" where
  \<comment> \<open>with the id of the active tab that was captured\<close>
  "updateActiveTab active patch s = s\<lparr>ed_tabs := map (\<lambda>tab. if qt_id tab = active then patch tab else tab) (ed_tabs s)\<rparr>"

definition ed_say :: "string \<Rightarrow> sql_editor \<Rightarrow> sql_editor" where
  "ed_say m s = s\<lparr>ed_messages := ed_messages s @ [m]\<rparr>"

subsection \<open>Tabs\<close>

definition ed_strip :: "sql_editor \<Rightarrow> query_tab strip" where
  "ed_strip s = (ed_tabs s, ed_activeTabId s)"

definition set_ed_strip :: "query_tab strip \<Rightarrow> sql_editor \<Rightarrow> sql_editor" where
  "set_ed_strip st s = s\<lparr>ed_tabs := fst st, ed_activeTabId := snd st\<rparr>"

definition handleAddTab :: "translator \<Rightarrow> nat \<Rightarrow> sql_editor \<Rightarrow> sql_editor" where
  "handleAddTab t now s =
     (let i = ''tab_'' @ show_nat now in
      s\<lparr>ed_tabs := ed_tabs s @ [empty_query i (query_title t (length (ed_tabs s) + 1)) []], ed_activeTabId := i\<rparr>)"

definition ed_handleCloseTab :: "string \<Rightarrow> sql_editor \<Rightarrow> sql_editor" where
  "ed_handleCloseTab i s = set_ed_strip (any_close qt_id (ed_tabs s) (ed_activeTabId s) i (ed_strip s)) s"

definition ed_handleCloseAllTabs :: "sql_editor \<Rightarrow> sql_editor" where
  "ed_handleCloseAllTabs s = set_ed_strip (any_close_all qt_id (ed_strip s)) s"

definition ed_handleCloseLeftTabs :: "string \<Rightarrow> sql_editor \<Rightarrow> sql_editor" where
  "ed_handleCloseLeftTabs i s = set_ed_strip (any_close_left qt_id i (ed_strip s)) s"

definition ed_handleCloseRightTabs :: "string \<Rightarrow> sql_editor \<Rightarrow> sql_editor" where
  "ed_handleCloseRightTabs i s = set_ed_strip (any_close_right qt_id i (ed_strip s)) s"

definition ed_typed :: "string \<Rightarrow> sql_editor \<Rightarrow> sql_editor" where
  "ed_typed sql s = updateActiveTab (ed_activeTabId s) (qt_sql_update (\<lambda>_. sql)) s"

definition ed_setMode :: "result_mode \<Rightarrow> sql_editor \<Rightarrow> sql_editor" where
  "ed_setMode m s = updateActiveTab (ed_activeTabId s) (qt_resultMode_update (\<lambda>_. m)) s"

subsection \<open>Running\<close>

definition handleRunSql_begin :: "translator \<Rightarrow> sql_editor \<Rightarrow> sql_editor \<times> sql_editor_call list" where
  "handleRunSql_begin t s =
     (let sqlText = trim (qt_sql (activeTab s)) in
      if sqlText = [] then (ed_say (t ''db:sql.inputSqlPlaceholder'' []) s, [])
      else (s\<lparr>ed_running := True\<rparr>, [RunSql sqlText]))"

definition handleRunSql_done :: "translator \<Rightarrow> string \<Rightarrow> int \<Rightarrow> query_result \<Rightarrow> sql_editor \<Rightarrow> sql_editor" where
  \<comment> \<open>the active tab that was captured, and the time that was measured\<close>
  "handleRunSql_done t active elapsed res s =
     (let err = opt_or (qr_error res) [];
          s1 = updateActiveTab active (\<lambda>tab. tab\<lparr>qt_result := Some res, qt_durationMs := Some (nullish (qr_durationMs res) elapsed),
                 qt_error := err, qt_resultMode := TableMode\<rparr>) s;
          s2 = (if err \<noteq> [] then ed_say (t ''db:sql.execError'' [(''error'', err)]) s1 else s1)
      in s2\<lparr>ed_running := False\<rparr>)"

definition handleRunSql_failed :: "translator \<Rightarrow> string \<Rightarrow> int \<Rightarrow> string \<Rightarrow> sql_editor \<Rightarrow> sql_editor" where
  "handleRunSql_failed t active elapsed err s =
     (ed_say (t ''db:sql.execFail'' [(''error'', err)])
       (updateActiveTab active (\<lambda>tab. tab\<lparr>qt_result := Some \<lparr>qr_columns = [], qr_rows = [], qr_affected = Some 0, qr_rowCount = Some 0,
            qr_durationMs = None, qr_error = None\<rparr>, qt_durationMs := Some elapsed, qt_error := err, qt_resultMode := TableMode\<rparr>) s))
     \<lparr>ed_running := False\<rparr>"

definition handleExplain_begin :: "translator \<Rightarrow> bool \<Rightarrow> sql_editor \<Rightarrow> sql_editor \<times> sql_editor_call list" where
  \<comment> \<open>whether the adapter can explain\<close>
  "handleExplain_begin t can s =
     (let sqlText = trim (qt_sql (activeTab s)) in
      if sqlText = [] then (ed_say (t ''db:sql.inputExplainPlaceholder'' []) s, [])
      else if \<not> can then (ed_say (t ''db:sql.noExplainSupport'' []) s, [])
      else (s\<lparr>ed_running := True\<rparr>, [ExplainSql sqlText]))"

definition handleExplain_done :: "string \<Rightarrow> explain_result \<Rightarrow> sql_editor \<Rightarrow> sql_editor" where
  "handleExplain_done active res s =
     (updateActiveTab active (\<lambda>tab. tab\<lparr>qt_explainResult := Some res, qt_resultMode := ExplainMode\<rparr>) s)\<lparr>ed_running := False\<rparr>"

definition handleExplain_failed :: "translator \<Rightarrow> string \<Rightarrow> sql_editor \<Rightarrow> sql_editor" where
  "handleExplain_failed t err s = (ed_say (t ''db:sql.explainFail'' [(''error'', err)]) s)\<lparr>ed_running := False\<rparr>"

subsection \<open>CSV\<close>

definition csv_cell :: "js_value \<Rightarrow> string" where
  \<comment> \<open>\<open>JSON.stringify(v ?? '')\<close>\<close>
  "csv_cell v = json_text (if is_nullish v then JStr [] else v)"

definition csv_text :: "query_result \<Rightarrow> string" where
  "csv_text res =
     join [CHR 0x0A] (join '','' (qr_columns res) # map (\<lambda>r. join '','' (map (\<lambda>c. csv_cell (r c)) (qr_columns res))) (qr_rows res))"

definition handleExportCsv :: "translator \<Rightarrow> sql_editor \<Rightarrow> sql_editor \<times> sql_editor_call list" where
  "handleExportCsv t s =
     (case qt_result (activeTab s) of
        Some res \<Rightarrow>
          if qr_rows res = [] then (ed_say (t ''db:sql.noResultToExport'' []) s, [])
          else (ed_say (t ''db:sql.copiedCsv'' []) s, [CopyCsv (csv_text res)])
      | None \<Rightarrow> (ed_say (t ''db:sql.noResultToExport'' []) s, []))"

definition planTreeData :: "sql_editor \<Rightarrow> js_value list" where
  "planTreeData s = (case qt_explainResult (activeTab s) of Some x \<Rightarrow> nullish (xr_treeData x) [] | None \<Rightarrow> [])"

subsection \<open>Runs\<close>

datatype ed_event =
    EdAdd nat | EdClose string | EdCloseAll | EdCloseLeft string | EdCloseRight string | EdActivate string | EdType string | EdMode result_mode
  | EdRun | EdRunDone string int query_result | EdRunFailed string int string
  | EdExplain bool | EdExplainDone string explain_result | EdExplainFailed string | EdCsv

fun ed_step :: "translator \<Rightarrow> sql_editor \<Rightarrow> ed_event \<Rightarrow> sql_editor" where
  "ed_step t s (EdAdd now) = handleAddTab t now s"
| "ed_step t s (EdClose i) = ed_handleCloseTab i s"
| "ed_step t s EdCloseAll = ed_handleCloseAllTabs s"
| "ed_step t s (EdCloseLeft i) = ed_handleCloseLeftTabs i s"
| "ed_step t s (EdCloseRight i) = ed_handleCloseRightTabs i s"
| "ed_step t s (EdActivate i) = s\<lparr>ed_activeTabId := i\<rparr>"
| "ed_step t s (EdType sql) = ed_typed sql s"
| "ed_step t s (EdMode m) = ed_setMode m s"
| "ed_step t s EdRun = fst (handleRunSql_begin t s)"
| "ed_step t s (EdRunDone active n res) = handleRunSql_done t active n res s"
| "ed_step t s (EdRunFailed active n err) = handleRunSql_failed t active n err s"
| "ed_step t s (EdExplain can) = fst (handleExplain_begin t can s)"
| "ed_step t s (EdExplainDone active res) = handleExplain_done active res s"
| "ed_step t s (EdExplainFailed err) = handleExplain_failed t err s"
| "ed_step t s EdCsv = fst (handleExportCsv t s)"

definition ed_enabled :: "sql_editor \<Rightarrow> ed_event \<Rightarrow> bool" where
  \<comment> \<open>a tab is added at a time of its own; only an open tab can be clicked\<close>
  "ed_enabled s e \<longleftrightarrow>
     (case e of
        EdAdd now \<Rightarrow> ''tab_'' @ show_nat now \<notin> qt_id ` set (ed_tabs s)
      | EdActivate i \<Rightarrow> i \<in> qt_id ` set (ed_tabs s)
      | _ \<Rightarrow> True)"

lemma ed_strip_set [simp]: "ed_strip (set_ed_strip st s) = st"
  by (simp add: ed_strip_def set_ed_strip_def)

lemma ed_strip_fields: "ed_tabs s = fst (ed_strip s)" "ed_activeTabId s = snd (ed_strip s)"
  by (simp_all add: ed_strip_def)

definition ed_inv :: "sql_editor \<Rightarrow> bool" where
  "ed_inv s \<longleftrightarrow> strip_ok qt_id (ed_strip s)"

lemma ed_ids_inv: "map qt_id (ed_tabs s') = map qt_id (ed_tabs s) \<Longrightarrow> ed_activeTabId s' = ed_activeTabId s \<Longrightarrow> ed_inv s \<Longrightarrow> ed_inv s'"
  unfolding ed_inv_def strip_ok_def ed_strip_def by (metis fst_conv set_map snd_conv)

lemma updated_ids [simp]:
  assumes "\<And>tab. qt_id (patch tab) = qt_id tab"
  shows "map qt_id (ed_tabs (updateActiveTab active patch s)) = map qt_id (ed_tabs s)"
    "ed_activeTabId (updateActiveTab active patch s) = ed_activeTabId s"
  using assms by (simp_all add: updateActiveTab_def)

lemma said [simp]: "ed_tabs (ed_say m s) = ed_tabs s" "ed_activeTabId (ed_say m s) = ed_activeTabId s"
  by (simp_all add: ed_say_def)

lemma ed_close_inv:
  assumes "ed_inv s"
  shows "ed_inv (ed_handleCloseTab i s)" "ed_inv (ed_handleCloseAllTabs s)" "ed_inv (ed_handleCloseLeftTabs i s)"
    "ed_inv (ed_handleCloseRightTabs i s)"
  using assms by (simp_all add: ed_inv_def ed_handleCloseTab_def ed_handleCloseAllTabs_def ed_handleCloseLeftTabs_def
      ed_handleCloseRightTabs_def ed_strip_fields any_close_ok any_close_all_ok any_close_sides_ok)

lemma ed_step_inv:
  assumes inv: "ed_inv s" and en: "ed_enabled s e"
  shows "ed_inv (ed_step t s e)"
proof (cases e)
  case (EdAdd now)
  with assms show ?thesis by (simp add: ed_enabled_def ed_inv_def strip_ok_def ed_strip_def handleAddTab_def empty_query_def Let_def)
next
  case (EdActivate i)
  with assms show ?thesis by (simp add: ed_enabled_def ed_inv_def strip_ok_def ed_strip_def)
next
  case (EdClose i)
  then show ?thesis using ed_close_inv [OF inv] by simp
next
  case EdCloseAll
  then show ?thesis using ed_close_inv [OF inv] by simp
next
  case (EdCloseLeft i)
  then show ?thesis using ed_close_inv [OF inv] by simp
next
  case (EdCloseRight i)
  then show ?thesis using ed_close_inv [OF inv] by simp
qed (rule ed_ids_inv [OF _ _ inv]; simp add: ed_typed_def ed_setMode_def handleRunSql_begin_def handleRunSql_done_def
       handleRunSql_failed_def handleExplain_begin_def handleExplain_done_def handleExplain_failed_def handleExportCsv_def
       Let_def split: option.split)+

interpretation sql_editor_runs: transition_system ed_enabled "ed_step t" ed_inv for t
  by unfold_locales (rule ed_step_inv)

text \<open>
  In every run the ids of the tabs are distinct and the active one is open, so that what is typed and what is run is always that of the tab
  on screen.
\<close>

theorem sql_tabs_stay_open:
  assumes "run_steps ed_enabled (ed_step t) (init_sql_editor t initialSql defaultSql) es = Some s"
  shows "distinct (map qt_id (ed_tabs s)) \<and> ed_activeTabId s \<in> qt_id ` set (ed_tabs s) \<and>
    qt_sql (activeTab (ed_step t s (EdType sql))) = sql"
proof -
  have "ed_inv (init_sql_editor t initialSql defaultSql)"
    by (simp add: ed_inv_def strip_ok_def ed_strip_def init_sql_editor_def empty_query_def)
  from sql_editor_runs.run_inv [OF this assms]
  have ok: "distinct (map qt_id (ed_tabs s))" "ed_activeTabId s \<in> qt_id ` set (ed_tabs s)"
    by (simp_all add: ed_inv_def strip_ok_def ed_strip_def)
  let ?s = "ed_typed sql s"
  have "map qt_id (ed_tabs ?s) = map qt_id (ed_tabs s)" and same: "ed_activeTabId ?s = ed_activeTabId s"
    by (simp_all add: ed_typed_def)
  then have "qt_id ` set (ed_tabs ?s) = qt_id ` set (ed_tabs s)" by (metis set_map)
  then obtain tab where tab: "find_tab qt_id (ed_activeTabId ?s) (ed_tabs ?s) = Some tab"
    using ok(2) same find_tab_None [of qt_id "ed_activeTabId ?s" "ed_tabs ?s"] by auto
  from find_tab_Some [OF tab] same have "qt_sql tab = sql" by (auto simp: ed_typed_def updateActiveTab_def split: if_splits)
  with tab ok show ?thesis by (simp add: activeTab_def)
qed

theorem sql_tabs_stay_open_witness:
  "\<exists>s. run_steps ed_enabled (ed_step (\<lambda>k _. k)) (init_sql_editor (\<lambda>k _. k) None ''SELECT 1'')
       [EdAdd 5, EdType ''x'', EdCloseLeft (''tab_'' @ show_nat 5), EdMode JsonMode] = Some s \<and>
     qt_sql (activeTab (ed_step (\<lambda>k _. k) s (EdType ''y''))) = ''y''"
proof -
  let ?run = "run_steps ed_enabled (ed_step (\<lambda>k _. k)) (init_sql_editor (\<lambda>k _. k) None ''SELECT 1'')
       [EdAdd 5, EdType ''x'', EdCloseLeft (''tab_'' @ show_nat 5), EdMode JsonMode]"
  have "show_nat 5 \<noteq> ''1''" using show_nat_inject [of 5 1] by (simp add: show_nat.simps [of 5] digit_char_def char_of_def)
  then have "?run \<noteq> None" by (simp add: ed_enabled_def init_sql_editor_def empty_query_def)
  then obtain s where "?run = Some s" by auto
  with sql_tabs_stay_open [OF this] show ?thesis by blast
qed

lemma find_updated:
  assumes "\<And>tab. qt_id (patch tab) = qt_id tab"
  shows "find_tab qt_id i (map (\<lambda>tab. if qt_id tab = i then patch tab else tab) ts) = map_option patch (find_tab qt_id i ts)"
  using assms by (induction ts) (auto simp: find_tab_def)

lemma activeTab_updated:
  assumes "\<And>tab. qt_id (patch tab) = qt_id tab" "ed_activeTabId s \<in> qt_id ` set (ed_tabs s)"
  shows "activeTab (updateActiveTab (ed_activeTabId s) patch s) = patch (activeTab s)"
proof -
  obtain tab where "find_tab qt_id (ed_activeTabId s) (ed_tabs s) = Some tab"
    using assms(2) find_tab_None [of qt_id "ed_activeTabId s" "ed_tabs s"] by auto
  then show ?thesis using find_updated [OF assms(1)] by (simp add: activeTab_def updateActiveTab_def)
qed

lemma activeTab_frame: "ed_tabs s' = ed_tabs s \<Longrightarrow> ed_activeTabId s' = ed_activeTabId s \<Longrightarrow> activeTab s' = activeTab s"
  by (simp add: activeTab_def split: option.split)

text \<open>
  Ctrl+Enter runs a query also while one is running; the answer of the earlier one, when it comes last, replaces that of the later, and the
  first that comes ends the display of running.
\<close>

theorem older_result_wins:
  assumes "trim (qt_sql (activeTab s)) \<noteq> []" "ed_activeTabId s \<in> qt_id ` set (ed_tabs s)"
    and "s1 = handleRunSql_done t (ed_activeTabId s) m later (fst (handleRunSql_begin t (s\<lparr>ed_running := True\<rparr>)))"
  shows "snd (handleRunSql_begin t (s\<lparr>ed_running := True\<rparr>)) = [RunSql (trim (qt_sql (activeTab s)))] \<and> \<not> ed_running s1 \<and>
    qt_result (activeTab (handleRunSql_done t (ed_activeTabId s) n older s1)) = Some older"
proof -
  let ?r = "s\<lparr>ed_running := True\<rparr>"
  have "activeTab ?r = activeTab s" by (rule activeTab_frame) simp_all
  then have run: "handleRunSql_begin t ?r = (?r, [RunSql (trim (qt_sql (activeTab s)))])"
    using assms(1) by (simp add: handleRunSql_begin_def Let_def)
  have "map qt_id (ed_tabs s1) = map qt_id (ed_tabs s)" and same: "ed_activeTabId s1 = ed_activeTabId s"
    unfolding assms(3) run by (simp_all add: handleRunSql_done_def Let_def)
  then have ids: "ed_activeTabId s1 = ed_activeTabId s" "qt_id ` set (ed_tabs s1) = qt_id ` set (ed_tabs s)"
    by (metis set_map)+
  have "qt_result (activeTab (handleRunSql_done t (ed_activeTabId s1) n older s1)) = Some older"
  proof -
    let ?p = "\<lambda>tab. tab\<lparr>qt_result := Some older, qt_durationMs := Some (nullish (qr_durationMs older) n),
                 qt_error := opt_or (qr_error older) [], qt_resultMode := TableMode\<rparr>"
    have "activeTab (handleRunSql_done t (ed_activeTabId s1) n older s1) = activeTab (updateActiveTab (ed_activeTabId s1) ?p s1)"
      by (rule activeTab_frame) (simp_all add: handleRunSql_done_def Let_def)
    then show ?thesis using activeTab_updated [of ?p s1] assms(2) ids by simp
  qed
  moreover have "\<not> ed_running s1" unfolding assms(3) by (simp add: handleRunSql_done_def Let_def)
  ultimately show ?thesis using ids(1) run by simp
qed

theorem older_result_wins_witness:
  "\<exists>s1. qt_result (activeTab (handleRunSql_done (\<lambda>k _. k) ''tab_1'' 5 \<lparr>qr_columns = [''a''], qr_rows = [], qr_affected = None, qr_rowCount = None,
      qr_durationMs = None, qr_error = None\<rparr> s1)) = Some \<lparr>qr_columns = [''a''], qr_rows = [], qr_affected = None, qr_rowCount = None,
      qr_durationMs = None, qr_error = None\<rparr>"
proof -
  let ?s = "init_sql_editor (\<lambda>k _. k) None ''S''"
  have "activeTab ?s = empty_query ''tab_1'' (query_title (\<lambda>k _. k) 1) ''S''"
    by (simp add: init_sql_editor_def activeTab_def find_tab_def empty_query_def opt_or_def)
  then have some: "trim (qt_sql (activeTab ?s)) \<noteq> []"
    using trim_no_white [of "''S''"] by (simp add: empty_query_def white_bytes_def js_white_def)
  have ids: "ed_activeTabId ?s \<in> qt_id ` set (ed_tabs ?s)" "ed_activeTabId ?s = ''tab_1''" by (simp_all add: init_sql_editor_def empty_query_def)
  from older_result_wins [OF some ids(1) refl] show ?thesis unfolding ids(2) by blast
qed

subsection \<open>What the copy as CSV means\<close>



lemma json_plain: "\<forall>c\<in>set w. json_char c = [c] \<Longrightarrow> concat (map json_char w) = w"
  by (induction w) simp_all



text \<open>
  A text that ends with a quote gives a file that is no CSV: JSON escapes the quote with a backslash, CSV by doubling it.
\<close>

theorem csv_quote_breaks:
  assumes "qr_columns res = [col]" "plain_field col" "qr_rows res = [row]" "row col = JStr (w @ [CHR 0x22])"
    and "\<forall>c\<in>set w. json_char c = [c]"
  shows "csv_read CsvPlain [] [] [] (csv_text res) = None"
proof -
  have shape: "csv_text res = col @ CHR 0x0A # CHR 0x22 # (w @ [CHR 0x5C]) @ CHR 0x22 # [CHR 0x22]"
    using assms json_plain [OF assms(5)]
    by (simp add: csv_text_def csv_cell_def is_nullish_def json_quote_def) (simp add: json_char_def)
  have "CHR 0x22 \<notin> set (w @ [CHR 0x5C])" using assms(5) by (auto simp: json_char_def)
  then show ?thesis
    unfolding shape csv_header.field_read [OF assms(2) csv_end_simps(3)]
    by (simp add: csv_next_def csv_quoted del: append_assoc)
qed

definition demo_result :: "js_value \<Rightarrow> query_result" where
  "demo_result v = \<lparr>qr_columns = [''a'', ''b''], qr_rows = [\<lambda>c. if c = ''a'' then v else JNull], qr_affected = None, qr_rowCount = None,
     qr_durationMs = None, qr_error = None\<rparr>"


theorem csv_quote_breaks_witness:
  "csv_read CsvPlain [] [] [] (csv_text ((demo_result (JStr ''x''))\<lparr>qr_columns := [''a''], qr_rows := [\<lambda>_. JStr (''5'' @ [CHR 0x22])]\<rparr>)) = None"
  by (rule csv_quote_breaks [of _ "''a''" "\<lambda>_. JStr (''5'' @ [CHR 0x22])" "''5''"]) (simp_all add: plain_field_def json_char_def)

end
