(* ===== verification/MongoPage.thy ===== *)
theory MongoPage
  imports PageTabs
begin

section \<open>The MongoDB page\<close>

text \<open>
  \<open>pages/mongo/MongoClient.tsx\<close> with its dialog \<open>ObjModal.tsx\<close>: the tree of databases and collections, the tabs, the menus and the seven
  operations of the dialog. Handlers are split at their awaits; the page that a handler captured is the argument \<open>c\<close> of its later
  steps.
\<close>

subsection \<open>State\<close>

datatype mongo_tab_type = MongoStatus | MongoQuery | MongoData | MongoUsers

datatype mongo_sub_tab = SubDocuments | SubIndexes | SubSchema | SubStream

record mongo_tab =
  mt_key :: string
  mt_label :: string
  mt_type :: mongo_tab_type
  mt_dbName :: string
  mt_collection :: "string option"
  mt_subTab :: "mongo_sub_tab option"
  mt_closable :: bool

record mongo_collection =
  mc_name :: string
  mc_type :: string
  mc_hasValidator :: bool
  mc_capped :: bool

datatype obj_kind = CreateDb | CreateColl | DropDbKind | DropColl | TruncateColl | RenameColl | CloneColl

record mongo_page =
  mg_initialDb :: string
  mg_currentDb :: string
  mg_databases :: "string list"
  mg_collectionsMap :: "string \<Rightarrow> mongo_collection list option"
  mg_expandedKeys :: "string list"
  mg_loadingTree :: bool
  mg_loadingDbs :: "string \<Rightarrow> bool"
  mg_tabs :: "mongo_tab list"
  mg_activeTabKey :: string
  mg_objModal :: "obj_kind option"
  mg_objDb :: string
  mg_objColl :: string
  mg_objName :: string
  mg_objBusy :: bool
  mg_objMsg :: string
  mg_exportModal :: "(string \<times> string) option"
  mg_messages :: "string list"

record obj_extra =
  \<comment> \<open>the options of a confirmed dialog\<close>
  ox_capped :: bool
  ox_size :: "int option"
  ox_max :: "int option"
  ox_firstColl :: "string option"
  ox_isTimeseries :: bool
  ox_timeField :: "string option"
  ox_metaField :: "string option"
  ox_granularity :: "string option"
  ox_targetDb :: "string option"
  ox_copyData :: "bool option"

datatype mongo_call =
    MgDatabases
  | MgCollections string
  | MgCreateDatabase string string
  | MgCreateCollection string string
  | MgCreateCollectionAdvanced string string obj_extra
  | MgCloneCollection string string string string bool
  | MgRenameCollection string string string
  | MgDeleteMany string string string
  | MgDropCollection string string
  | MgDropDatabase string
  | MgOnChange string

definition mongo_fixed_tab :: "translator \<Rightarrow> string \<Rightarrow> string \<Rightarrow> mongo_tab_type \<Rightarrow> string \<Rightarrow> mongo_tab" where
  "mongo_fixed_tab t key label type db =
     \<lparr>mt_key = key, mt_label = t label [], mt_type = type, mt_dbName = db, mt_collection = None, mt_subTab = None, mt_closable = False\<rparr>"

definition init_mongo_page :: "translator \<Rightarrow> string \<Rightarrow> mongo_page" where
  \<comment> \<open>the database of the session, empty when there is none\<close>
  "init_mongo_page t database =
     \<lparr>mg_initialDb = database, mg_currentDb = database, mg_databases = [], mg_collectionsMap = (\<lambda>_. None), mg_expandedKeys = [],
      mg_loadingTree = False, mg_loadingDbs = (\<lambda>_. False),
      mg_tabs = [mongo_fixed_tab t ''status'' ''mongo.client.statusTab'' MongoStatus database,
                 mongo_fixed_tab t ''users'' ''mongo.client.usersTab'' MongoUsers database,
                 mongo_fixed_tab t ''mql_1'' ''mongo.client.mqlTab'' MongoQuery database],
      mg_activeTabKey = ''status'', mg_objModal = None, mg_objDb = [], mg_objColl = [], mg_objName = [], mg_objBusy = False,
      mg_objMsg = [], mg_exportModal = None, mg_messages = []\<rparr>"

subsection \<open>Loading\<close>

definition loadCollections_begin :: "string \<Rightarrow> mongo_page \<Rightarrow> mongo_page \<times> mongo_call list" where
  "loadCollections_begin db s =
     (if db = [] then (s, []) else (s\<lparr>mg_loadingDbs := (mg_loadingDbs s)(db := True)\<rparr>, [MgCollections db]))"

definition loadCollections_done :: "string \<Rightarrow> mongo_collection list option option \<Rightarrow> mongo_page \<Rightarrow> mongo_page" where
  \<comment> \<open>\<open>None\<close> where the call fails, \<open>Some None\<close> where it answers null\<close>
  "loadCollections_done db res s =
     (let s1 = (case res of Some cs \<Rightarrow> s\<lparr>mg_collectionsMap := (mg_collectionsMap s)(db \<mapsto> nullish cs [])\<rparr> | None \<Rightarrow> s) in
      s1\<lparr>mg_loadingDbs := (mg_loadingDbs s1)(db := False)\<rparr>)"

definition mongo_init_begin :: "mongo_page \<Rightarrow> mongo_page \<times> mongo_call list" where
  "mongo_init_begin s = (s\<lparr>mg_loadingTree := True\<rparr>, [MgDatabases])"

definition targetDb_of :: "string list \<Rightarrow> mongo_page \<Rightarrow> string" where
  "targetDb_of dbNames s =
     (if mg_initialDb s \<noteq> [] \<and> mg_initialDb s \<in> set dbNames then mg_initialDb s
      else opt_or (case dbNames of [] \<Rightarrow> None | n # _ \<Rightarrow> Some n) ''admin'')"

definition mongo_init_databases :: "string list option \<Rightarrow> mongo_page \<Rightarrow> mongo_page \<times> mongo_call list" where
  "mongo_init_databases dbs s =
     (let dbNames = nullish dbs [] in
      loadCollections_begin (targetDb_of dbNames s) (s\<lparr>mg_databases := dbNames, mg_currentDb := targetDb_of dbNames s\<rparr>))"

definition mongo_init_done :: "string \<Rightarrow> mongo_page \<Rightarrow> mongo_page" where
  "mongo_init_done targetDb s = s\<lparr>mg_expandedKeys := [''db_'' @ targetDb], mg_loadingTree := False\<rparr>"

definition mongo_init_failed :: "translator \<Rightarrow> string \<Rightarrow> mongo_page \<Rightarrow> mongo_page" where
  "mongo_init_failed t err s =
     s\<lparr>mg_messages := mg_messages s @ [t ''mongo.client.connectFail'' [(''error'', err)]], mg_loadingTree := False\<rparr>"

subsection \<open>Tabs\<close>

definition mongo_strip :: "mongo_page \<Rightarrow> mongo_tab strip" where
  "mongo_strip s = (mg_tabs s, mg_activeTabKey s)"

definition set_mongo_strip :: "mongo_tab strip \<Rightarrow> mongo_page \<Rightarrow> mongo_page" where
  "set_mongo_strip st s = s\<lparr>mg_tabs := fst st, mg_activeTabKey := snd st\<rparr>"

definition coll_key :: "string \<Rightarrow> string \<Rightarrow> string" where
  "coll_key db coll = ''data:'' @ db @ ''.'' @ coll"

definition collection_tab :: "string \<Rightarrow> string \<Rightarrow> mongo_sub_tab option \<Rightarrow> mongo_tab" where
  "collection_tab db coll sub =
     \<lparr>mt_key = coll_key db coll, mt_label = coll, mt_type = MongoData, mt_dbName = db, mt_collection = Some coll,
      mt_subTab = Some (nullish sub SubDocuments), mt_closable = True\<rparr>"

definition openCollectionTab :: "mongo_page \<Rightarrow> string \<Rightarrow> string \<Rightarrow> mongo_sub_tab option \<Rightarrow> mongo_page \<Rightarrow> mongo_page" where
  "openCollectionTab c db coll sub s =
     (let tabKey = coll_key db coll in
      case find_index (\<lambda>t. mt_key t = tabKey) (mg_tabs c) of
        Some i \<Rightarrow>
          (let s1 = (if sub \<noteq> None \<and> mt_subTab (mg_tabs c ! i) \<noteq> sub
                     then s\<lparr>mg_tabs := (mg_tabs c)[i := (mg_tabs c ! i)\<lparr>mt_subTab := sub\<rparr>]\<rparr> else s) in
           s1\<lparr>mg_activeTabKey := tabKey\<rparr>)
      | None \<Rightarrow> s\<lparr>mg_tabs := mg_tabs s @ [collection_tab db coll sub], mg_activeTabKey := tabKey\<rparr>)"

definition handleNewMqlTab :: "nat \<Rightarrow> mongo_page \<Rightarrow> mongo_page" where
  \<comment> \<open>at the time \<open>now\<close>\<close>
  "handleNewMqlTab now s =
     (let nextId = length (filter (\<lambda>t. mt_type t = MongoQuery) (mg_tabs s)) + 1; key = ''mql_'' @ show_nat now in
      s\<lparr>mg_tabs := mg_tabs s @ [\<lparr>mt_key = key, mt_label = ''MQL '' @ show_nat nextId, mt_type = MongoQuery, mt_dbName = mg_currentDb s,
                                 mt_collection = None, mt_subTab = None, mt_closable = True\<rparr>],
        mg_activeTabKey := key\<rparr>)"

definition mongo_handleCloseTab :: "mongo_page \<Rightarrow> string \<Rightarrow> mongo_page \<Rightarrow> mongo_page" where
  "mongo_handleCloseTab c key s =
     (case find_index (\<lambda>t. mt_key t = key) (mg_tabs c) of
        None \<Rightarrow> s
      | Some idx \<Rightarrow>
          (let nextTabs = filter (\<lambda>t. mt_key t \<noteq> key) (mg_tabs c); s1 = s\<lparr>mg_tabs := nextTabs\<rparr> in
           if mg_activeTabKey c = key \<and> idx - 1 < length nextTabs then s1\<lparr>mg_activeTabKey := mt_key (nextTabs ! (idx - 1))\<rparr> else s1))"

definition mongo_handleCloseAllTabs :: "mongo_page \<Rightarrow> mongo_page" where
  "mongo_handleCloseAllTabs s = set_mongo_strip (strip_close_all mt_key mt_closable (mongo_strip s)) s"

definition mongo_handleCloseLeftTabs :: "string \<Rightarrow> mongo_page \<Rightarrow> mongo_page" where
  "mongo_handleCloseLeftTabs key s = set_mongo_strip (strip_close_left mt_key mt_closable key (mongo_strip s)) s"

definition mongo_handleCloseRightTabs :: "string \<Rightarrow> mongo_page \<Rightarrow> mongo_page" where
  "mongo_handleCloseRightTabs key s = set_mongo_strip (strip_close_right mt_key mt_closable key (mongo_strip s)) s"

subsection \<open>The dialog\<close>

record obj_form =
  of_firstColl :: string
  of_isCapped :: bool
  of_cappedSize :: int
  of_cappedMax :: "int option"
  of_isTimeseries :: bool
  of_timeField :: string
  of_metaField :: string
  of_granularity :: string
  of_cloneTargetDb :: string
  of_cloneCopyData :: bool

definition init_obj_form :: "string \<Rightarrow> obj_form" where
  "init_obj_form db =
     \<lparr>of_firstColl = ''default'', of_isCapped = False, of_cappedSize = 10485760, of_cappedMax = None, of_isTimeseries = False,
      of_timeField = ''timestamp'', of_metaField = [], of_granularity = ''seconds'', of_cloneTargetDb = str_or db ''admin'',
      of_cloneCopyData = True\<rparr>"

definition set_capped :: "bool \<Rightarrow> obj_form \<Rightarrow> obj_form" where
  "set_capped v f = (let f1 = f\<lparr>of_isCapped := v\<rparr> in if v then f1\<lparr>of_isTimeseries := False\<rparr> else f1)"

definition set_timeseries :: "bool \<Rightarrow> obj_form \<Rightarrow> obj_form" where
  "set_timeseries v f = (let f1 = f\<lparr>of_isTimeseries := v\<rparr> in if v then f1\<lparr>of_isCapped := False\<rparr> else f1)"

definition no_extra :: obj_extra where
  "no_extra = \<lparr>ox_capped = False, ox_size = None, ox_max = None, ox_firstColl = None, ox_isTimeseries = False, ox_timeField = None,
     ox_metaField = None, ox_granularity = None, ox_targetDb = None, ox_copyData = None\<rparr>"

definition handleOk :: "obj_kind \<Rightarrow> obj_form \<Rightarrow> obj_extra" where
  \<comment> \<open>\<open>no_extra\<close> also where the code passes nothing: every option is read with \<open>extra?.\<close>\<close>
  "handleOk kind f =
     (case kind of
        CreateDb \<Rightarrow> no_extra\<lparr>ox_firstColl := Some (str_or (trim (of_firstColl f)) ''default'')\<rparr>
      | CreateColl \<Rightarrow>
          no_extra\<lparr>ox_capped := of_isCapped f,
            ox_size := (if of_isCapped f then Some (of_cappedSize f) else None),
            ox_max := (if of_isCapped f \<and> of_cappedMax f \<noteq> Some 0 then of_cappedMax f else None),
            ox_isTimeseries := of_isTimeseries f,
            ox_timeField := (if of_isTimeseries f then Some (trim (of_timeField f)) else None),
            ox_metaField := (if of_isTimeseries f \<and> trim (of_metaField f) \<noteq> [] then Some (trim (of_metaField f)) else None),
            ox_granularity := (if of_isTimeseries f then Some (of_granularity f) else None)\<rparr>
      | CloneColl \<Rightarrow> no_extra\<lparr>ox_targetDb := Some (of_cloneTargetDb f), ox_copyData := Some (of_cloneCopyData f)\<rparr>
      | _ \<Rightarrow> no_extra)"

definition ok_enabled :: "mongo_page \<Rightarrow> bool" where
  "ok_enabled s \<longleftrightarrow>
     (case mg_objModal s of
        None \<Rightarrow> False
      | Some kind \<Rightarrow> \<not> (mg_objBusy s \<or> (kind \<in> {CreateDb, CreateColl, RenameColl, CloneColl} \<and> trim (mg_objName s) = [])))"

definition obj_cancel :: "mongo_page \<Rightarrow> mongo_page" where
  "obj_cancel s = (if mg_objBusy s then s else s\<lparr>mg_objModal := None\<rparr>)"

definition clone_target :: "mongo_page \<Rightarrow> obj_extra \<Rightarrow> string" where
  "clone_target c x = opt_or (ox_targetDb x) (mg_objDb c)"

definition obj_call :: "obj_kind \<Rightarrow> obj_extra \<Rightarrow> mongo_page \<Rightarrow> mongo_call" where
  "obj_call kind x c =
     (case kind of
        CreateDb \<Rightarrow> MgCreateDatabase (mg_objName c) (opt_or (ox_firstColl x) ''default'')
      | CreateColl \<Rightarrow>
          if ox_capped x \<or> ox_isTimeseries x then MgCreateCollectionAdvanced (mg_objDb c) (mg_objName c) x
          else MgCreateCollection (mg_objDb c) (mg_objName c)
      | CloneColl \<Rightarrow> MgCloneCollection (mg_objDb c) (mg_objColl c) (clone_target c x) (mg_objName c) (nullish (ox_copyData x) True)
      | RenameColl \<Rightarrow> MgRenameCollection (mg_objDb c) (mg_objColl c) (mg_objName c)
      | TruncateColl \<Rightarrow> MgDeleteMany (mg_objDb c) (mg_objColl c) ''{}''
      | DropColl \<Rightarrow> MgDropCollection (mg_objDb c) (mg_objColl c)
      | DropDbKind \<Rightarrow> MgDropDatabase (mg_objDb c))"

definition handleObjConfirm_begin :: "obj_extra \<Rightarrow> mongo_page \<Rightarrow> mongo_page \<times> mongo_call list" where
  "handleObjConfirm_begin x s =
     (case mg_objModal s of
        None \<Rightarrow> (s, [])
      | Some kind \<Rightarrow> (s\<lparr>mg_objBusy := True, mg_objMsg := []\<rparr>, [obj_call kind x s]))"

definition copied_info :: "translator \<Rightarrow> obj_extra \<Rightarrow> int \<Rightarrow> string" where
  "copied_info t x count = (if nullish (ox_copyData x) True then t ''mongo.client.copiedDocs'' [(''count'', show_int count)] else [])"

definition obj_text :: "translator \<Rightarrow> obj_kind \<Rightarrow> obj_extra \<Rightarrow> int \<Rightarrow> mongo_page \<Rightarrow> string" where
  \<comment> \<open>what is said after the call; \<open>count\<close> is the answer of those that count\<close>
  "obj_text t kind x count c =
     (case kind of
        CreateDb \<Rightarrow> t ''mongo.client.dbCreated'' [(''name'', mg_objName c)]
      | CreateColl \<Rightarrow> t ''mongo.client.collCreated'' [(''name'', mg_objName c)]
      | CloneColl \<Rightarrow> t ''mongo.client.collCloned''
          [(''targetDb'', clone_target c x), (''name'', mg_objName c), (''copiedInfo'', copied_info t x count)]
      | RenameColl \<Rightarrow> t ''mongo.client.collRenamed'' [(''name'', mg_objName c)]
      | TruncateColl \<Rightarrow> t ''mongo.client.collTruncated'' [(''coll'', mg_objColl c), (''count'', show_int count)]
      | DropColl \<Rightarrow> t ''mongo.client.collDropped'' [(''coll'', mg_objColl c)]
      | DropDbKind \<Rightarrow> t ''mongo.client.dbDropped'' [(''db'', mg_objDb c)])"

definition obj_end :: "mongo_page \<Rightarrow> mongo_page" where
  "obj_end s = s\<lparr>mg_objModal := None, mg_objBusy := False\<rparr>"

definition obj_failed :: "string \<Rightarrow> mongo_page \<Rightarrow> mongo_page" where
  "obj_failed err s = s\<lparr>mg_objMsg := err, mg_objBusy := False\<rparr>"

definition obj_answered :: "translator \<Rightarrow> obj_kind \<Rightarrow> obj_extra \<Rightarrow> int \<Rightarrow> mongo_page \<Rightarrow> mongo_page \<Rightarrow> mongo_page \<times> mongo_call list" where
  \<comment> \<open>up to the next await; \<open>obj_loaded\<close> follows it, except for the truncation, which ends here\<close>
  "obj_answered t kind x count c s =
     (let s1 = s\<lparr>mg_messages := mg_messages s @ [obj_text t kind x count c]\<rparr>; key = coll_key (mg_objDb c) (mg_objColl c) in
      case kind of
        CreateDb \<Rightarrow> mongo_init_begin s1
      | CreateColl \<Rightarrow> loadCollections_begin (mg_objDb c) s1
      | CloneColl \<Rightarrow> loadCollections_begin (clone_target c x) s1
      | RenameColl \<Rightarrow> loadCollections_begin (mg_objDb c) s1
      | TruncateColl \<Rightarrow> (obj_end (if key \<in> mt_key ` set (mg_tabs c) then mongo_handleCloseTab c key s1 else s1), [])
      | DropColl \<Rightarrow> loadCollections_begin (mg_objDb c) (mongo_handleCloseTab c key s1)
      | DropDbKind \<Rightarrow> mongo_init_begin s1)"

definition truncate_timer :: "mongo_page \<Rightarrow> mongo_page \<Rightarrow> mongo_page" where
  \<comment> \<open>50 ms after the truncation of a collection whose tab was open\<close>
  "truncate_timer c s = openCollectionTab c (mg_objDb c) (mg_objColl c) None s"

definition obj_loaded :: "obj_kind \<Rightarrow> obj_extra \<Rightarrow> mongo_page \<Rightarrow> mongo_page \<Rightarrow> mongo_page" where
  "obj_loaded kind x c s =
     obj_end
       (case kind of
          CreateColl \<Rightarrow> openCollectionTab c (mg_objDb c) (mg_objName c) None s
        | CloneColl \<Rightarrow> openCollectionTab c (clone_target c x) (mg_objName c) None s
        | RenameColl \<Rightarrow>
            openCollectionTab c (mg_objDb c) (mg_objName c) None
              (mongo_handleCloseTab c (coll_key (mg_objDb c) (mg_objColl c)) s)
        | _ \<Rightarrow> s)"

subsection \<open>Tree and menus\<close>

datatype mongo_node = MongoDbNode string | MongoCollNode string mongo_collection

fun mongo_node_key :: "mongo_node \<Rightarrow> string" where
  "mongo_node_key (MongoDbNode db) = ''db_'' @ db"
| "mongo_node_key (MongoCollNode db coll) = ''coll_'' @ db @ ''_'' @ mc_name coll"

definition mongo_treeData :: "mongo_page \<Rightarrow> (mongo_node \<times> mongo_node list) list" where
  "mongo_treeData s =
     map (\<lambda>db. (MongoDbNode db, map (MongoCollNode db) (nullish (mg_collectionsMap s db) []))) (mg_databases s)"

definition collectionsMapStrings :: "mongo_page \<Rightarrow> string \<Rightarrow> string list option" where
  "collectionsMapStrings s db = map_option (map mc_name) (mg_collectionsMap s db)"

definition mongo_selectedTreeKeys :: "mongo_page \<Rightarrow> string list" where
  "mongo_selectedTreeKeys s =
     (case find_tab mt_key (mg_activeTabKey s) (mg_tabs s) of
        None \<Rightarrow> []
      | Some tab \<Rightarrow>
          if mt_type tab = MongoData \<and> mt_dbName tab \<noteq> [] \<and> truthy (mt_collection tab)
          then [''coll_'' @ mt_dbName tab @ ''_'' @ the (mt_collection tab)] else [])"

definition mongo_onExpand :: "string list \<Rightarrow> mongo_page \<Rightarrow> mongo_page \<times> mongo_call list" where
  \<comment> \<open>\<open>collectionsMap\<close> is that of the render, so each database that is not loaded is asked for, once per key\<close>
  "mongo_onExpand keys s =
     foldl (\<lambda>(s1, calls) k.
         if prefix ''db_'' k \<and> mg_collectionsMap s (drop 3 k) = None
         then (let (s2, more) = loadCollections_begin (drop 3 k) s1 in (s2, calls @ more)) else (s1, calls))
       (s\<lparr>mg_expandedKeys := keys\<rparr>, []) keys"

definition mongo_toggle :: "string \<Rightarrow> mongo_page \<Rightarrow> mongo_page" where
  "mongo_toggle k s =
     s\<lparr>mg_expandedKeys := (if k \<in> set (mg_expandedKeys s) then filter (\<lambda>x. x \<noteq> k) (mg_expandedKeys s) else mg_expandedKeys s @ [k])\<rparr>"

definition mongo_onSelect :: "mongo_node \<Rightarrow> mongo_page \<Rightarrow> mongo_page \<times> mongo_call list" where
  \<comment> \<open>up to the await, after which \<open>mongo_toggle\<close> follows for a database\<close>
  "mongo_onSelect node s =
     (case node of
        MongoCollNode db coll \<Rightarrow> (openCollectionTab s db (mc_name coll) None s, [])
      | MongoDbNode db \<Rightarrow>
          (let s1 = s\<lparr>mg_currentDb := db\<rparr>;
               (s2, calls) = (if mongo_node_key node \<notin> set (mg_expandedKeys s) \<and> mg_collectionsMap s db = None
                              then loadCollections_begin db s1 else (s1, [])) in
           (s2, MgOnChange db # calls)))"

definition open_create_db :: "mongo_page \<Rightarrow> mongo_page" where
  "open_create_db s = s\<lparr>mg_objName := [], mg_objModal := Some CreateDb\<rparr>"

definition open_create_coll :: "string \<Rightarrow> mongo_page \<Rightarrow> mongo_page" where
  "open_create_coll db s = s\<lparr>mg_objDb := db, mg_objName := [], mg_objModal := Some CreateColl\<rparr>"

definition open_drop_db :: "string \<Rightarrow> mongo_page \<Rightarrow> mongo_page" where
  "open_drop_db db s = s\<lparr>mg_objDb := db, mg_objName := db, mg_objModal := Some DropDbKind\<rparr>"

definition open_coll_dialog :: "obj_kind \<Rightarrow> string \<Rightarrow> string \<Rightarrow> mongo_page \<Rightarrow> mongo_page" where
  "open_coll_dialog kind db coll s =
     s\<lparr>mg_objDb := db, mg_objColl := coll, mg_objName := (if kind = CloneColl then coll @ ''_copy'' else coll), mg_objModal := Some kind\<rparr>"

definition mongo_menu_export :: "string \<Rightarrow> string \<Rightarrow> mongo_page \<Rightarrow> mongo_page" where
  "mongo_menu_export db coll s = s\<lparr>mg_exportModal := Some (db, coll)\<rparr>"

definition editor_changes_db :: "string \<Rightarrow> mongo_page \<Rightarrow> mongo_page \<times> mongo_call list" where
  "editor_changes_db db s = (s\<lparr>mg_currentDb := db\<rparr>, [MgOnChange db])"

subsection \<open>Runs\<close>

datatype mongo_event =
    MgInit | MgDatabasesLoaded "string list option" | MgInitDone string | MgInitFailed string
  | MgLoadCollections string | MgCollectionsLoaded string "mongo_collection list option option"
  | MgOpen string string "mongo_sub_tab option" | MgNewMql nat
  | MgClose string | MgCloseAll | MgCloseLeft string | MgCloseRight string | MgActivate string
  | MgExpand "string list" | MgSelect mongo_node | MgToggle string
  | MgCreateDbDialog | MgCreateCollDialog string | MgDropDbDialog string | MgCollDialog obj_kind string string
  | MgName string | MgConfirm obj_extra | MgCancel
  | MgAnswered obj_kind obj_extra int mongo_page | MgLoaded obj_kind obj_extra mongo_page | MgFailed string
  | MgExport string string | MgEditorDb string

fun mongo_step :: "translator \<Rightarrow> mongo_page \<Rightarrow> mongo_event \<Rightarrow> mongo_page" where
  "mongo_step t s MgInit = fst (mongo_init_begin s)"
| "mongo_step t s (MgDatabasesLoaded dbs) = fst (mongo_init_databases dbs s)"
| "mongo_step t s (MgInitDone db) = mongo_init_done db s"
| "mongo_step t s (MgInitFailed err) = mongo_init_failed t err s"
| "mongo_step t s (MgLoadCollections db) = fst (loadCollections_begin db s)"
| "mongo_step t s (MgCollectionsLoaded db res) = loadCollections_done db res s"
| "mongo_step t s (MgOpen db coll sub) = openCollectionTab s db coll sub s"
| "mongo_step t s (MgNewMql now) = handleNewMqlTab now s"
| "mongo_step t s (MgClose key) = mongo_handleCloseTab s key s"
| "mongo_step t s MgCloseAll = mongo_handleCloseAllTabs s"
| "mongo_step t s (MgCloseLeft key) = mongo_handleCloseLeftTabs key s"
| "mongo_step t s (MgCloseRight key) = mongo_handleCloseRightTabs key s"
| "mongo_step t s (MgActivate key) = s\<lparr>mg_activeTabKey := key\<rparr>"
| "mongo_step t s (MgExpand keys) = fst (mongo_onExpand keys s)"
| "mongo_step t s (MgSelect node) = fst (mongo_onSelect node s)"
| "mongo_step t s (MgToggle k) = mongo_toggle k s"
| "mongo_step t s MgCreateDbDialog = open_create_db s"
| "mongo_step t s (MgCreateCollDialog db) = open_create_coll db s"
| "mongo_step t s (MgDropDbDialog db) = open_drop_db db s"
| "mongo_step t s (MgCollDialog kind db coll) = open_coll_dialog kind db coll s"
| "mongo_step t s (MgName name) = s\<lparr>mg_objName := name\<rparr>"
| "mongo_step t s (MgConfirm x) = fst (handleObjConfirm_begin x s)"
| "mongo_step t s MgCancel = obj_cancel s"
| "mongo_step t s (MgAnswered kind x count c) = fst (obj_answered t kind x count c s)"
| "mongo_step t s (MgLoaded kind x c) = obj_loaded kind x c s"
| "mongo_step t s (MgFailed err) = obj_failed err s"
| "mongo_step t s (MgExport db coll) = mongo_menu_export db coll s"
| "mongo_step t s (MgEditorDb db) = fst (editor_changes_db db s)"

definition db_name :: "string \<Rightarrow> bool" where
  \<comment> \<open>MongoDB allows no dot in the name of a database\<close>
  "db_name db \<longleftrightarrow> CHR ''.'' \<notin> set db"

definition mongo_enabled :: "mongo_page \<Rightarrow> mongo_event \<Rightarrow> bool" where
  \<comment> \<open>The dialog covers the page until it is done, so that its steps find the tabs they captured. The server refuses to give a
    collection the name it has. Two new queries come in different milliseconds.\<close>
  "mongo_enabled s e \<longleftrightarrow>
     (case e of
        MgActivate key \<Rightarrow> key \<in> mt_key ` set (mg_tabs s)
      | MgClose key \<Rightarrow> \<forall>t\<in>set (mg_tabs s). mt_key t = key \<longrightarrow> mt_closable t
      | MgNewMql now \<Rightarrow> ''mql_'' @ show_nat now \<notin> mt_key ` set (mg_tabs s)
      | MgOpen db coll sub \<Rightarrow> db_name db
      | MgSelect (MongoCollNode db coll) \<Rightarrow> db_name db
      | MgAnswered kind x count c \<Rightarrow> mg_tabs c = mg_tabs s \<and> mg_activeTabKey c = mg_activeTabKey s \<and> db_name (mg_objDb c)
      | MgLoaded kind x c \<Rightarrow>
          mg_tabs c = mg_tabs s \<and> mg_activeTabKey c = mg_activeTabKey s \<and> db_name (mg_objDb c) \<and> db_name (clone_target c x) \<and>
          (kind = RenameColl \<longrightarrow> mg_objName c \<noteq> mg_objColl c)
      | _ \<Rightarrow> True)"

subsection \<open>The tabs in every run\<close>

definition data_tab_ok :: "mongo_tab \<Rightarrow> bool" where
  \<comment> \<open>a tab of a collection is the one its key names; the other tabs have other keys\<close>
  "data_tab_ok tab \<longleftrightarrow>
     (if mt_type tab = MongoData
      then mt_collection tab \<noteq> None \<and> db_name (mt_dbName tab) \<and> mt_key tab = coll_key (mt_dbName tab) (the (mt_collection tab)) \<and>
        mt_closable tab
      else \<not> prefix ''data:'' (mt_key tab))"

definition mongo_inv :: "mongo_page \<Rightarrow> bool" where
  "mongo_inv s \<longleftrightarrow> strip_ok mt_key (mongo_strip s) \<and> list_all data_tab_ok (mg_tabs s) \<and>
     map mt_key (filter (\<lambda>t. \<not> mt_closable t) (mg_tabs s)) = [''status'', ''users'', ''mql_1'']"

lemma mongo_strip_set [simp]: "mongo_strip (set_mongo_strip st s) = st" "mg_tabs (set_mongo_strip st s) = fst st"
  by (simp_all add: mongo_strip_def set_mongo_strip_def)

lemma mongo_tabs_fst: "mg_tabs s = fst (mongo_strip s)"
  by (simp add: mongo_strip_def)

lemma coll_key_inj:
  assumes "db_name db" "db_name db'" "coll_key db coll = coll_key db' coll'"
  shows "db = db' \<and> coll = coll'"
proof -
  have *: "takeWhile (\<lambda>c. c \<noteq> CHR ''.'') (d @ CHR ''.'' # c) = d" if "db_name d" for d c
    using that by (simp add: db_name_def takeWhile_append)
  have "db @ CHR ''.'' # coll = db' @ CHR ''.'' # coll'" using assms(3) by (simp add: coll_key_def)
  then have "db = db'" using * [OF assms(1), of coll] * [OF assms(2), of coll'] by simp
  with assms(3) show ?thesis by (simp add: coll_key_def)
qed

lemma mongo_same_strip:
  "mg_tabs s' = mg_tabs s \<Longrightarrow> mg_activeTabKey s' = mg_activeTabKey s \<Longrightarrow> mongo_inv s' = mongo_inv s"
  by (simp add: mongo_inv_def mongo_strip_def)

lemma mongo_quietI: "mongo_inv s \<Longrightarrow> mg_tabs s' = mg_tabs s \<Longrightarrow> mg_activeTabKey s' = mg_activeTabKey s \<Longrightarrow> mongo_inv s'"
  by (simp add: mongo_inv_def mongo_strip_def)

lemma data_tab_closable: "mongo_inv s \<Longrightarrow> tab \<in> set (mg_tabs s) \<Longrightarrow> mt_key tab = coll_key db coll \<Longrightarrow> mt_closable tab \<and> mt_type tab = MongoData"
  by (auto simp: mongo_inv_def data_tab_ok_def coll_key_def list_all_iff split: if_splits)

lemma coll_tab_ok: "db_name db \<Longrightarrow> data_tab_ok (collection_tab db coll sub)"
  by (simp add: data_tab_ok_def collection_tab_def)

lemma sub_tab_ok: "data_tab_ok tab \<Longrightarrow> data_tab_ok (tab\<lparr>mt_subTab := sub\<rparr>)"
  by (simp add: data_tab_ok_def)

lemma set_sub_tab:
  assumes "i < length tabs"
  shows "map mt_key (tabs[i := (tabs ! i)\<lparr>mt_subTab := sub\<rparr>]) = map mt_key tabs"
    "map mt_key (filter (\<lambda>t. \<not> mt_closable t) (tabs[i := (tabs ! i)\<lparr>mt_subTab := sub\<rparr>])) = map mt_key (filter (\<lambda>t. \<not> mt_closable t) tabs)"
    "list_all data_tab_ok tabs \<Longrightarrow> list_all data_tab_ok (tabs[i := (tabs ! i)\<lparr>mt_subTab := sub\<rparr>])"
proof -
  show "map mt_key (tabs[i := (tabs ! i)\<lparr>mt_subTab := sub\<rparr>]) = map mt_key tabs"
    using assms by (simp add: map_update list_update_same_conv)
  show "list_all data_tab_ok tabs \<Longrightarrow> list_all data_tab_ok (tabs[i := (tabs ! i)\<lparr>mt_subTab := sub\<rparr>])"
    using assms sub_tab_ok by (auto simp: list_all_iff dest!: set_update_subset_insert [THEN subsetD])
  show "map mt_key (filter (\<lambda>t. \<not> mt_closable t) (tabs[i := (tabs ! i)\<lparr>mt_subTab := sub\<rparr>])) = map mt_key (filter (\<lambda>t. \<not> mt_closable t) tabs)"
    using assms
  proof (induction tabs arbitrary: i)
    case (Cons x xs)
    then show ?case by (cases i) auto
  qed simp
qed

lemma openCollectionTab_inv:
  assumes "mongo_inv s" "db_name db" "mg_tabs c = mg_tabs s"
  shows "mongo_inv (openCollectionTab c db coll sub s)"
proof (cases "find_index (\<lambda>t. mt_key t = coll_key db coll) (mg_tabs s)")
  case None
  then have "coll_key db coll \<notin> mt_key ` set (mg_tabs s)" by (auto simp: find_index_None)
  moreover have "mt_key (collection_tab db coll sub) = coll_key db coll" "mt_closable (collection_tab db coll sub)"
    by (simp_all add: collection_tab_def)
  ultimately show ?thesis using None assms coll_tab_ok [OF assms(2), of coll sub]
    by (simp add: openCollectionTab_def mongo_inv_def mongo_strip_def strip_ok_def)
next
  case (Some i)
  then have i: "i < length (mg_tabs s)" "mt_key (mg_tabs s ! i) = coll_key db coll" using find_index_SomeD [OF Some] by auto
  then have "coll_key db coll \<in> mt_key ` set (mg_tabs s)" by (metis image_eqI nth_mem)
  moreover have "coll_key db coll \<in> mt_key ` set ((mg_tabs s)[i := (mg_tabs s ! i)\<lparr>mt_subTab := sub\<rparr>])"
    by (metis calculation list.set_map set_sub_tab(1) [OF i(1)])
  ultimately show ?thesis using Some assms set_sub_tab [OF i(1), of sub]
    by (auto simp: openCollectionTab_def mongo_inv_def mongo_strip_def strip_ok_def Let_def)
qed

lemma without_key:
  "distinct (map f xs) \<Longrightarrow> i < length xs \<Longrightarrow> filter (\<lambda>x. f x \<noteq> f (xs ! i)) xs = take i xs @ drop (Suc i) xs"
proof (induction xs arbitrary: i)
  case (Cons x xs)
  show ?case
  proof (cases i)
    case 0
    with Cons show ?thesis by (auto simp: filter_id_conv image_iff)
  next
    case (Suc j)
    with Cons have "f x \<noteq> f (xs ! j)" by (auto simp: image_iff)
    with Suc Cons show ?thesis by simp
  qed
qed simp

lemma mongo_close_inv:
  assumes "mongo_inv s" "\<forall>t\<in>set (mg_tabs s). mt_key t = key \<longrightarrow> mt_closable t"
    and "mg_tabs c = mg_tabs s" "mg_activeTabKey c = mg_activeTabKey s"
  shows "mongo_inv (mongo_handleCloseTab c key s)"
proof (cases "find_index (\<lambda>t. mt_key t = key) (mg_tabs s)")
  case None
  with assms show ?thesis by (simp add: mongo_handleCloseTab_def)
next
  case (Some i)
  let ?next = "filter (\<lambda>t. mt_key t \<noteq> key) (mg_tabs s)"
  have open_: "strip_ok mt_key (mg_tabs s, mg_activeTabKey s)" using assms(1) by (simp add: mongo_inv_def mongo_strip_def)
  then have "distinct (map mt_key ?next)" by (simp add: strip_ok_def distinct_map_filter)
  have fixed: "filter (\<lambda>t. \<not> mt_closable t) ?next = filter (\<lambda>t. \<not> mt_closable t) (mg_tabs s)"
    using assms(2) by (auto intro!: filter_cong)
  moreover have "filter (\<lambda>t. \<not> mt_closable t) (mg_tabs s) \<noteq> []" using assms(1) by (auto simp: mongo_inv_def)
  ultimately have "?next \<noteq> []" by fastforce
  have i: "i < length (mg_tabs s)" "mt_key (mg_tabs s ! i) = key" using find_index_SomeD [OF Some] by auto
  have "?next = take i (mg_tabs s) @ drop (Suc i) (mg_tabs s)"
    using without_key [of mt_key "mg_tabs s" i] open_ i by (simp add: strip_ok_def)
  then have "length ?next = length (mg_tabs s) - 1" using i(1) by simp
  then have "i - 1 < length ?next" using i(1) \<open>?next \<noteq> []\<close> by (cases ?next) auto
  then have "mt_key (?next ! (i - 1)) \<in> mt_key ` set ?next" by (rule imageI [OF nth_mem])
  moreover have "mg_activeTabKey s \<in> mt_key ` set ?next" if "mg_activeTabKey s \<noteq> key" using open_ that by (auto simp: strip_ok_def)
  moreover have "list_all data_tab_ok ?next" using assms(1) by (auto simp: mongo_inv_def list_all_iff)
  ultimately show ?thesis
    using Some assms fixed \<open>distinct (map mt_key ?next)\<close> \<open>i - 1 < length ?next\<close>
    by (simp add: mongo_handleCloseTab_def mongo_inv_def mongo_strip_def strip_ok_def Let_def del: set_filter)
qed

lemma mongo_close_rest_inv:
  assumes "mongo_inv s"
  shows "mongo_inv (mongo_handleCloseAllTabs s)" "mongo_inv (mongo_handleCloseLeftTabs key s)" "mongo_inv (mongo_handleCloseRightTabs key s)"
proof -
  have fixed: "filter (\<lambda>t. \<not> mt_closable t) (fst (mongo_strip s)) \<noteq> []" using assms by (auto simp: mongo_inv_def mongo_strip_def)
  have ok: "strip_ok mt_key (mongo_strip s)" using assms by (simp add: mongo_inv_def)
  have sub: "list_all data_tab_ok ts" if "set ts \<subseteq> set (mg_tabs s)" for ts
    using assms that by (auto simp: mongo_inv_def list_all_iff)
  have kept: "set (keep_tabs mt_closable p (mg_tabs s)) \<subseteq> set (mg_tabs s)" for p
    by (auto simp: kept_filter)
  have sides: "set (fst (strip_close_left mt_key mt_closable key (mongo_strip s))) \<subseteq> set (mg_tabs s)"
    "set (fst (strip_close_right mt_key mt_closable key (mongo_strip s))) \<subseteq> set (mg_tabs s)"
    "set (fst (strip_close_all mt_key mt_closable (mongo_strip s))) \<subseteq> set (mg_tabs s)"
    using kept by (auto simp: strip_close_left_def strip_close_right_def strip_close_all_def with_kept_def mongo_strip_def Let_def
        split: option.split)
  show "mongo_inv (mongo_handleCloseAllTabs s)" "mongo_inv (mongo_handleCloseLeftTabs key s)" "mongo_inv (mongo_handleCloseRightTabs key s)"
    using assms strip_close_all_ok [OF ok fixed] strip_close_sides_ok [OF ok] sides [THEN sub] strip_fixed [where closable = mt_closable and key = mt_key and st = "mongo_strip s"]
    by (simp_all add: mongo_handleCloseAllTabs_def mongo_handleCloseLeftTabs_def mongo_handleCloseRightTabs_def mongo_inv_def mongo_tabs_fst)
qed

lemma mongo_new_query_inv:
  assumes "mongo_inv s" "''mql_'' @ show_nat now \<notin> mt_key ` set (mg_tabs s)"
  shows "mongo_inv (handleNewMqlTab now s)"
  using assms by (auto simp: handleNewMqlTab_def mongo_inv_def mongo_strip_def strip_ok_def data_tab_ok_def Let_def)

lemma loadCollections_tabs [simp]:
  "mg_tabs (fst (loadCollections_begin db s)) = mg_tabs s" "mg_activeTabKey (fst (loadCollections_begin db s)) = mg_activeTabKey s"
  by (simp_all add: loadCollections_begin_def)

lemma onExpand_tabs:
  "mg_tabs (fst (mongo_onExpand keys s)) = mg_tabs s \<and> mg_activeTabKey (fst (mongo_onExpand keys s)) = mg_activeTabKey s"
proof -
  have "mg_tabs (fst (foldl (\<lambda>(s1, calls) k. if P k then (let (s2, more) = loadCollections_begin (drop 3 k) s1 in (s2, calls @ more)) else (s1, calls))
      sc ks)) = mg_tabs (fst sc) \<and>
    mg_activeTabKey (fst (foldl (\<lambda>(s1, calls) k. if P k then (let (s2, more) = loadCollections_begin (drop 3 k) s1 in (s2, calls @ more)) else (s1, calls))
      sc ks)) = mg_activeTabKey (fst sc)" for P sc ks
  proof (induction ks arbitrary: sc)
    case (Cons k ks)
    show ?case
      by (simp only: foldl_Cons Cons.IH) (auto simp: loadCollections_begin_def Let_def split: prod.split)
  qed simp
  from this [of "\<lambda>k. prefix ''db_'' k \<and> mg_collectionsMap s (drop 3 k) = None" "(s\<lparr>mg_expandedKeys := keys\<rparr>, [])" keys]
  show ?thesis by (simp add: mongo_onExpand_def)
qed

lemmas mongo_quiet_defs = mongo_init_begin_def mongo_init_databases_def mongo_init_done_def mongo_init_failed_def loadCollections_done_def
  mongo_toggle_def open_create_db_def open_create_coll_def open_drop_db_def open_coll_dialog_def handleObjConfirm_begin_def obj_cancel_def
  obj_failed_def mongo_menu_export_def editor_changes_db_def

lemma obj_end_inv [simp]: "mongo_inv (obj_end s) = mongo_inv s"
  by (rule mongo_same_strip) (simp_all add: obj_end_def)

lemma obj_answered_inv:
  assumes "mongo_inv s" "mg_tabs c = mg_tabs s" "mg_activeTabKey c = mg_activeTabKey s"
  shows "mongo_inv (fst (obj_answered t kind x count c s))"
proof -
  let ?s1 = "s\<lparr>mg_messages := mg_messages s @ [obj_text t kind x count c]\<rparr>" and ?key = "coll_key (mg_objDb c) (mg_objColl c)"
  have s1: "mongo_inv ?s1" by (rule mongo_quietI [OF assms(1)]) simp_all
  have "mongo_inv (mongo_handleCloseTab c ?key ?s1)"
    by (rule mongo_close_inv [OF s1]) (use assms data_tab_closable [OF assms(1)] in auto)
  then have "mongo_inv (fst (loadCollections_begin db (mongo_handleCloseTab c ?key ?s1)))" for db
    by (rule mongo_quietI) simp_all
  moreover have "mongo_inv (fst (loadCollections_begin db ?s1))" for db by (rule mongo_quietI [OF assms(1)]) simp_all
  moreover have "mongo_inv (fst (mongo_init_begin ?s1))" by (rule mongo_quietI [OF assms(1)]) (simp_all add: mongo_init_begin_def)
  ultimately show ?thesis using s1 \<open>mongo_inv (mongo_handleCloseTab c ?key ?s1)\<close>
    by (cases kind) (simp_all add: obj_answered_def Let_def)
qed

lemma obj_loaded_inv:
  assumes "mongo_inv s" "mg_tabs c = mg_tabs s" "mg_activeTabKey c = mg_activeTabKey s" "db_name (mg_objDb c)" "db_name (clone_target c x)"
    and "kind = RenameColl \<longrightarrow> mg_objName c \<noteq> mg_objColl c"
  shows "mongo_inv (obj_loaded kind x c s)"
proof (cases "kind = RenameColl")
  case False
  then show ?thesis using assms openCollectionTab_inv [OF assms(1) _ assms(2)] by (cases kind) (simp_all add: obj_loaded_def)
next
  case True
  let ?old = "coll_key (mg_objDb c) (mg_objColl c)" and ?new = "coll_key (mg_objDb c) (mg_objName c)"
  let ?s1 = "mongo_handleCloseTab c ?old s"
  have s1: "mongo_inv ?s1"
    by (rule mongo_close_inv [OF assms(1)]) (use assms data_tab_closable [OF assms(1)] in auto)
  have other: "?new \<noteq> ?old" using assms(6) True by (simp add: coll_key_def)
  have tabs: "mg_tabs ?s1 = filter (\<lambda>t. mt_key t \<noteq> ?old) (mg_tabs s)"
    using assms(2) by (auto simp: mongo_handleCloseTab_def find_index_None Let_def filter_id_conv split: option.split)
  have "mongo_inv (openCollectionTab c (mg_objDb c) (mg_objName c) None ?s1)"
  proof (cases "find_index (\<lambda>t. mt_key t = ?new) (mg_tabs s)")
    case None
    then have "?new \<notin> mt_key ` set (mg_tabs s)" by (auto simp: find_index_None)
    with tabs have "?new \<notin> mt_key ` set (mg_tabs ?s1)" by auto
    moreover have "mt_key (collection_tab db coll sub) = coll_key db coll" "mt_closable (collection_tab db coll sub)" for db coll sub
      by (simp_all add: collection_tab_def)
    ultimately show ?thesis using None s1 coll_tab_ok [OF assms(4), of "mg_objName c" None] assms(2)
      by (simp add: openCollectionTab_def mongo_inv_def mongo_strip_def strip_ok_def)
  next
    case (Some i)
    then have "mt_key (mg_tabs s ! i) = ?new" "i < length (mg_tabs s)" using find_index_SomeD by blast+
    with other have "?new \<in> mt_key ` set (mg_tabs ?s1)" unfolding tabs
      by (auto intro!: image_eqI [of _ _ "mg_tabs s ! i"])
    with Some s1 assms(2) show ?thesis
      by (simp add: openCollectionTab_def mongo_inv_def mongo_strip_def strip_ok_def)
  qed
  with True show ?thesis by (simp add: obj_loaded_def)
qed

lemma mongo_step_inv:
  assumes "mongo_inv s" "mongo_enabled s e"
  shows "mongo_inv (mongo_step t s e)"
proof -
  note quiet = mongo_quietI [OF assms(1)]
  show ?thesis
  proof (cases e)
    case (MgSelect node)
    show ?thesis
    proof (cases node)
      case (MongoDbNode db)
      have "mg_tabs (mongo_step t s e) = mg_tabs s \<and> mg_activeTabKey (mongo_step t s e) = mg_activeTabKey s"
        unfolding MgSelect MongoDbNode by (auto simp: mongo_onSelect_def loadCollections_begin_def Let_def split: prod.split)
      then show ?thesis using quiet by blast
    next
      case (MongoCollNode db coll)
      with MgSelect assms show ?thesis by (simp add: mongo_onSelect_def mongo_enabled_def openCollectionTab_inv)
    qed
  next
    case (MgActivate key)
    with assms show ?thesis by (simp add: mongo_enabled_def mongo_inv_def mongo_strip_def strip_ok_def)
  next
    case (MgExpand keys)
    with onExpand_tabs [of keys s] quiet show ?thesis by simp
  next
    case (MgAnswered kind x count c)
    with assms show ?thesis by (simp add: mongo_enabled_def obj_answered_inv)
  next
    case (MgLoaded kind x c)
    with assms show ?thesis by (simp add: mongo_enabled_def obj_loaded_inv)
  next
    case (MgClose key)
    with assms show ?thesis by (simp add: mongo_enabled_def mongo_close_inv)
  qed (use assms openCollectionTab_inv [OF assms(1)] mongo_new_query_inv [OF assms(1)] mongo_close_rest_inv [OF assms(1)] in
      \<open>auto simp: mongo_enabled_def mongo_quiet_defs Let_def intro!: quiet split: option.split\<close>)
qed

interpretation mongo_run: transition_system mongo_enabled "mongo_step t" mongo_inv for t
  by unfold_locales (rule mongo_step_inv)

lemma mongo_init_inv: "mongo_inv (init_mongo_page t database)"
  by (simp add: mongo_inv_def mongo_strip_def strip_ok_def data_tab_ok_def init_mongo_page_def mongo_fixed_tab_def)

text \<open>
  C15: in every run without the timer of a truncation, in which the dialog covers the page until it is done, the keys of the tabs are
  distinct, the active tab is open, the three fixed tabs stay, and opening a collection from the tree or a menu shows the tab of this
  collection, with the part that was asked for. Keys do not collide here, since a database has no dot in its name. The timer of a
  truncation can blank the page: the next theorem is about it.
\<close>

theorem mongo_opens_what_was_clicked:
  assumes "run_steps mongo_enabled (mongo_step t) (init_mongo_page t database) es = Some s" "db_name db"
  shows "distinct (map mt_key (mg_tabs s)) \<and> mg_activeTabKey s \<in> mt_key ` set (mg_tabs s) \<and>
    map mt_key (filter (\<lambda>t. \<not> mt_closable t) (mg_tabs s)) = [''status'', ''users'', ''mql_1''] \<and>
    (let s1 = openCollectionTab s db coll sub s in
     \<exists>tab. find_tab mt_key (mg_activeTabKey s1) (mg_tabs s1) = Some tab \<and> mt_type tab = MongoData \<and> mt_dbName tab = db \<and>
       mt_collection tab = Some coll \<and> (sub = None \<or> mt_subTab tab = sub))"
proof -
  have inv: "mongo_inv s" by (rule mongo_run.run_inv [OF mongo_init_inv assms(1)])
  let ?s1 = "openCollectionTab s db coll sub s"
  have inv1: "mongo_inv ?s1" by (rule openCollectionTab_inv [OF inv assms(2) refl])
  have key: "mg_activeTabKey ?s1 = coll_key db coll" by (simp add: openCollectionTab_def Let_def split: option.split)
  obtain tab where tab: "find_tab mt_key (mg_activeTabKey ?s1) (mg_tabs ?s1) = Some tab"
    using inv1 find_tab_None [of mt_key "mg_activeTabKey ?s1" "mg_tabs ?s1"] by (auto simp: mongo_inv_def mongo_strip_def strip_ok_def)
  then have mem: "tab \<in> set (mg_tabs ?s1)" "mt_key tab = coll_key db coll" using find_tab_Some [OF tab] key by auto
  then have "data_tab_ok tab" "mt_type tab = MongoData"
    using inv1 data_tab_closable [OF inv1] by (auto simp: mongo_inv_def list_all_iff)
  then have data: "mt_dbName tab = db" "mt_collection tab = Some coll"
    using mem(2) coll_key_inj [OF assms(2), of "mt_dbName tab" coll "the (mt_collection tab)"] by (auto simp: data_tab_ok_def)
  have "sub = None \<or> mt_subTab tab = sub"
  proof (rule ccontr)
    assume wrong: "\<not> (sub = None \<or> mt_subTab tab = sub)"
    have dist: "distinct (map mt_key (mg_tabs ?s1))" using inv1 by (simp add: mongo_inv_def mongo_strip_def strip_ok_def)
    obtain tab' where tab': "tab' \<in> set (mg_tabs ?s1)" "mt_key tab' = coll_key db coll" "mt_subTab tab' = sub"
    proof (cases "find_index (\<lambda>t. mt_key t = coll_key db coll) (mg_tabs s)")
      case None
      then show ?thesis using that [of "collection_tab db coll sub"] wrong
        by (auto simp: openCollectionTab_def collection_tab_def nullish_def Let_def)
    next
      case (Some i)
      then have i: "i < length (mg_tabs s)" "mt_key (mg_tabs s ! i) = coll_key db coll" using find_index_SomeD by blast+
      show ?thesis using that [of "mg_tabs ?s1 ! i"] i wrong Some
        by (auto simp: openCollectionTab_def Let_def split: if_splits)
    qed
    then have "tab' = tab" using dist mem by (simp add: distinct_map inj_on_def)
    with tab' wrong show False by simp
  qed
  with tab data \<open>mt_type tab = MongoData\<close> inv show ?thesis
    by (simp add: mongo_inv_def mongo_strip_def strip_ok_def Let_def)
qed

theorem mongo_opens_what_was_clicked_witness:
  "\<exists>s. run_steps mongo_enabled (mongo_step (\<lambda>k _. k)) (init_mongo_page (\<lambda>k _. k) ''shop'')
       [MgOpen ''shop'' ''a'' None, MgNewMql 7, MgActivate ''users'', MgCloseLeft (''mql_'' @ show_nat 7), MgClose (''mql_'' @ show_nat 7)] = Some s \<and>
     (let s1 = openCollectionTab s ''shop'' ''a'' (Some SubIndexes) s in
      \<exists>tab. find_tab mt_key (mg_activeTabKey s1) (mg_tabs s1) = Some tab \<and> mt_collection tab = Some ''a'' \<and> mt_subTab tab = Some SubIndexes)"
proof -
  let ?es = "[MgOpen ''shop'' ''a'' None, MgNewMql 7, MgActivate ''users'', MgCloseLeft (''mql_'' @ show_nat 7), MgClose (''mql_'' @ show_nat 7)]"
  let ?run = "run_steps mongo_enabled (mongo_step (\<lambda>k _. k)) (init_mongo_page (\<lambda>k _. k) ''shop'') ?es"
  have "?run \<noteq> None" by code_simp
  then obtain s where s: "?run = Some s" by blast
  have "db_name ''shop''" by (simp add: db_name_def)
  from mongo_opens_what_was_clicked [OF s this, of "''a''" "Some SubIndexes"] s show ?thesis by (auto simp: Let_def)
qed

text \<open>
  Emptying a collection whose tab is open leaves the page without a visible tab: the tab is closed, and 50 ms later a handler that was
  captured before, for which the tab is still open, only makes it the active one.
\<close>

theorem emptied_collection_blanks_page:
  assumes "coll_key (mg_objDb s) (mg_objColl s) \<in> mt_key ` set (mg_tabs s)"
    and "s1 = fst (obj_answered t TruncateColl x count s s)"
  shows "mg_activeTabKey (truncate_timer s s1) \<notin> mt_key ` set (mg_tabs (truncate_timer s s1))"
proof -
  let ?key = "coll_key (mg_objDb s) (mg_objColl s)"
  have "find_index (\<lambda>t. mt_key t = ?key) (mg_tabs s) \<noteq> None" using assms(1) by (auto simp: find_index_None)
  then obtain i where i: "find_index (\<lambda>t. mt_key t = ?key) (mg_tabs s) = Some i" by blast
  then have "mg_tabs s1 = filter (\<lambda>t. mt_key t \<noteq> ?key) (mg_tabs s)"
    using assms by (simp add: obj_answered_def mongo_handleCloseTab_def obj_end_def Let_def)
  with i show ?thesis by (auto simp: truncate_timer_def openCollectionTab_def)
qed

theorem emptied_collection_blanks_page_witness:
  "\<exists>s1. mg_activeTabKey (truncate_timer (open_coll_dialog TruncateColl ''d'' ''a'' (openCollectionTab (init_mongo_page (\<lambda>k _. k) ''d'') ''d'' ''a'' None
       (init_mongo_page (\<lambda>k _. k) ''d''))) s1) \<notin> mt_key ` set (mg_tabs s1)"
proof -
  let ?s = "open_coll_dialog TruncateColl ''d'' ''a'' (openCollectionTab (init_mongo_page (\<lambda>k _. k) ''d'') ''d'' ''a'' None (init_mongo_page (\<lambda>k _. k) ''d''))"
  let ?s1 = "fst (obj_answered (\<lambda>k _. k) TruncateColl no_extra 3 ?s ?s)"
  have "coll_key (mg_objDb ?s) (mg_objColl ?s) \<in> mt_key ` set (mg_tabs ?s)" by code_simp
  from emptied_collection_blanks_page [OF this refl, of "\<lambda>k _. k" no_extra 3]
  have "mg_activeTabKey (truncate_timer ?s ?s1) \<notin> mt_key ` set (mg_tabs (truncate_timer ?s ?s1))" .
  moreover have "mg_tabs (truncate_timer ?s ?s1) = mg_tabs ?s1" by code_simp
  ultimately show ?thesis by (intro exI [of _ ?s1]) simp
qed

text \<open>The tabs of a database that was dropped stay open.\<close>

theorem dropped_database_tabs_stay:
  "mg_tabs (fst (obj_answered t DropDbKind x count c s)) = mg_tabs s \<and> mg_activeTabKey (fst (obj_answered t DropDbKind x count c s)) = mg_activeTabKey s"
  by (simp add: obj_answered_def mongo_init_begin_def Let_def)

end
