(* ===== verification/MongoData.thy ===== *)
theory MongoData
  imports Json JsError
begin

section \<open>The documents of a MongoDB collection\<close>

text \<open>
  \<open>pages/mongo/DataTab.tsx\<close>: the query with its filters, the documents on screen, the editors for a document and for a cell, and the
  menu of a row. Documents are texts of Extended JSON, which the code parses and writes with \<open>JSON\<close>; \<open>pr\<close> prints the doubles that
  are no small integers. Handlers are split at their awaits; the tab that a handler captured is the argument \<open>c\<close> of its later steps.
\<close>

subsection \<open>State\<close>

datatype doc_sub_tab = DocDocuments | DocIndexes | DocSchema | DocStream

datatype doc_view = TableView | JsonView

datatype edit_mode = EditInsert | EditUpdate | EditReplace

type_synonym js_entry = "string \<times> js_value"

record cell_modal =
  cm_colKey :: string
  cm_docId :: js_value
  cm_rawRow :: "js_entry list"
  cm_text :: string

record mongo_stats =
  ms_count :: int
  ms_size :: int
  ms_avgObjSize :: int
  ms_storageSize :: int
  ms_totalIndexSize :: int
  ms_nindexes :: int

datatype doc_confirm = DeleteDocument string string | TruncateAll

record mongo_data =
  md_db :: string
  md_collection :: string
  md_subTab :: doc_sub_tab
  md_viewMode :: doc_view
  md_docs :: "string list"
  md_total :: int
  md_duration :: int
  md_page :: int
  md_pageSize :: int
  md_busy :: bool
  md_error :: string
  md_selectedIdx :: "nat option"
  md_colWidths :: "string \<Rightarrow> int option"
  md_filters :: "(string \<times> column_filter) list"
  md_showBuilder :: bool
  md_filterText :: string
  md_projectionText :: string
  md_sortText :: string
  md_skip :: int
  md_reqId :: nat
  md_contextMenu :: "(nat \<times> string option) option"
  md_editOpen :: "(edit_mode \<times> string option) option"
  md_editorText :: string
  md_editorBusy :: bool
  md_editorError :: string
  md_cellModal :: "cell_modal option"
  md_cellModalBusy :: bool
  md_cellModalError :: string
  md_ioExportOpen :: bool
  md_statsModalOpen :: bool
  md_stats :: "mongo_stats option"
  md_statsBusy :: bool
  md_confirm :: "doc_confirm option"
  md_messages :: "string list"

definition init_mongo_data :: "string \<Rightarrow> string \<Rightarrow> doc_sub_tab option \<Rightarrow> mongo_data" where
  \<comment> \<open>the sub-tab of the properties is read here only\<close>
  "init_mongo_data db collection sub =
     \<lparr>md_db = db, md_collection = collection, md_subTab = nullish sub DocDocuments, md_viewMode = TableView, md_docs = [], md_total = 0,
      md_duration = 0, md_page = 1, md_pageSize = 50, md_busy = False, md_error = [], md_selectedIdx = None, md_colWidths = (\<lambda>_. None),
      md_filters = [], md_showBuilder = False, md_filterText = ''{}'', md_projectionText = [], md_sortText = ''{}'', md_skip = 0,
      md_reqId = 0, md_contextMenu = None, md_editOpen = None, md_editorText = [], md_editorBusy = False, md_editorError = [],
      md_cellModal = None, md_cellModalBusy = False, md_cellModalError = [], md_ioExportOpen = False, md_statsModalOpen = False,
      md_stats = None, md_statsBusy = False, md_confirm = None, md_messages = []\<rparr>"

record mongo_query_spec =
  mq_database :: string
  mq_collection :: string
  mq_filter :: string
  mq_projection :: string
  mq_sort :: string
  mq_limit :: int
  mq_skip :: int
  mq_hint :: string
  mq_collation :: string

record mongo_find_result =
  mf_documents :: "string list option"
  mf_count :: int
  mf_total :: "int option"
  mf_durationMs :: "int option"

datatype mongo_data_call =
    MdFind mongo_query_spec
  | MdInsertOne string
  | MdUpdateOne string string
  | MdReplaceOne string string
  | MdDeleteOne string
  | MdDeleteMany string
  | MdCollectionStats
  | MdCopyText string

subsection \<open>The filter\<close>

definition number_json :: "(js_double \<Rightarrow> string) \<Rightarrow> string \<Rightarrow> js_value" where
  \<comment> \<open>\<open>Number(val)\<close>\<close>
  "number_json pr val = JNum (number_text_of pr (number_of_text val))"

definition number_or_text :: "(js_double \<Rightarrow> string) \<Rightarrow> string \<Rightarrow> js_value" where
  \<comment> \<open>\<open>isNaN(Number(val)) ? val : Number(val)\<close>\<close>
  "number_or_text pr val = (if number_of_text val = DNaN then JStr val else number_json pr val)"

definition regex_cond :: "string \<Rightarrow> js_value" where
  "regex_cond r = JObj [(''$regex'', JStr r), (''$options'', JStr ''i'')]"

definition filter_cond :: "(js_double \<Rightarrow> string) \<Rightarrow> column_filter \<Rightarrow> js_value" where
  "filter_cond pr f =
     (let val = trim (cf_value f) in
      case cf_op f of
        Equals \<Rightarrow>
          if val = ''true'' then JBool True
          else if val = ''false'' then JBool False
          else if val \<noteq> [] \<and> number_of_text val \<noteq> DNaN then JObj [(''$in'', JArr [JStr val, number_json pr val])]
          else JStr val
      | NotEquals \<Rightarrow> JObj [(''$ne'', if val \<noteq> [] \<and> number_of_text val \<noteq> DNaN then number_json pr val else JStr val)]
      | Contains \<Rightarrow> regex_cond val
      | NotContains \<Rightarrow> JObj [(''$not'', regex_cond val)]
      | StartsWith \<Rightarrow> regex_cond (''^'' @ val)
      | EndsWith \<Rightarrow> regex_cond (val @ ''$'')
      | Gt \<Rightarrow> JObj [(''$gt'', number_or_text pr val)]
      | Gte \<Rightarrow> JObj [(''$gte'', number_or_text pr val)]
      | Lt \<Rightarrow> JObj [(''$lt'', number_or_text pr val)]
      | Lte \<Rightarrow> JObj [(''$lte'', number_or_text pr val)]
      | IsNull \<Rightarrow> JNull
      | IsNotNull \<Rightarrow> JObj [(''$ne'', JNull)])"

definition buildMongoFilter :: "(js_double \<Rightarrow> string) \<Rightarrow> (string \<times> column_filter) list \<Rightarrow> js_entry list" where
  "buildMongoFilter pr filters = foldl put_entry [] (map (\<lambda>(col, f). (col, filter_cond pr f)) filters)"

definition has_keys :: "js_value \<Rightarrow> bool option" where
  \<comment> \<open>\<open>Object.keys(v).length > 0\<close>, a TypeError on null\<close>
  "has_keys v =
     (if is_nullish v then None
      else Some (case v of JObj es \<Rightarrow> es \<noteq> [] | JArr vs \<Rightarrow> vs \<noteq> [] | JStr s \<Rightarrow> s \<noteq> [] | _ \<Rightarrow> False))"

definition base_filter :: "(js_double \<Rightarrow> string) \<Rightarrow> string \<Rightarrow> js_value" where
  "base_filter pr filterText =
     (if trim filterText \<noteq> [] \<and> trim filterText \<noteq> ''{}'' then nullish (json_parse pr filterText) (JObj []) else JObj [])"

definition combinedFilterJSON :: "(js_double \<Rightarrow> string) \<Rightarrow> mongo_data \<Rightarrow> string option" where
  \<comment> \<open>computed while rendering; None when it throws\<close>
  "combinedFilterJSON pr s =
     (let colConds = buildMongoFilter pr (md_filters s); baseObj = base_filter pr (md_filterText s) in
      case has_keys baseObj of
        None \<Rightarrow> None
      | Some hasBaseConds \<Rightarrow>
          Some (if colConds \<noteq> [] \<and> hasBaseConds then json_text (JObj [(''$and'', JArr [baseObj, JObj colConds])])
                else if colConds \<noteq> [] then json_text (JObj colConds)
                else str_or (trim (md_filterText s)) ''{}''))"

definition set_column_filter :: "string \<Rightarrow> column_filter option \<Rightarrow> mongo_data \<Rightarrow> mongo_data" where
  "set_column_filter col f s =
     s\<lparr>md_filters :=
        (case f of
           None \<Rightarrow> filter (\<lambda>x. fst x \<noteq> col) (md_filters s)
         | Some g \<Rightarrow> if col \<in> fst ` set (md_filters s) then map (\<lambda>x. if fst x = col then (col, g) else x) (md_filters s)
                     else md_filters s @ [(col, g)])\<rparr>"

definition reset_query :: "mongo_data \<Rightarrow> mongo_data" where
  "reset_query s = s\<lparr>md_filterText := ''{}'', md_projectionText := [], md_sortText := ''{}'', md_filters := [], md_skip := 0\<rparr>"

subsection \<open>Running the query\<close>

definition query_spec :: "(js_double \<Rightarrow> string) \<Rightarrow> mongo_data \<Rightarrow> int \<Rightarrow> int \<Rightarrow> mongo_query_spec" where
  \<comment> \<open>a tab that could not be rendered has no handlers\<close>
  "query_spec pr c targetPage currentLimit =
     \<lparr>mq_database = md_db c, mq_collection = md_collection c, mq_filter = nullish (combinedFilterJSON pr c) [],
      mq_projection = trim (md_projectionText c), mq_sort = trim (md_sortText c), mq_limit = currentLimit,
      mq_skip = (targetPage - 1) * currentLimit + md_skip c, mq_hint = [], mq_collation = []\<rparr>"

definition runQuery_begin :: "(js_double \<Rightarrow> string) \<Rightarrow> mongo_data \<Rightarrow> int \<Rightarrow> int \<Rightarrow> mongo_data \<Rightarrow> mongo_data \<times> mongo_data_call list" where
  "runQuery_begin pr c targetPage currentLimit s =
     (if md_collection c = [] \<or> md_db c = [] then (s, [])
      else (s\<lparr>md_reqId := md_reqId s + 1, md_busy := True, md_error := []\<rparr>, [MdFind (query_spec pr c targetPage currentLimit)]))"

definition runQuery_done :: "nat \<Rightarrow> int \<Rightarrow> mongo_find_result \<Rightarrow> mongo_data \<Rightarrow> mongo_data" where
  "runQuery_done reqId targetPage res s =
     (if reqId \<noteq> md_reqId s then s
      else s\<lparr>md_docs := nullish (mf_documents res) [], md_total := nullish (mf_total res) 0, md_duration := nullish (mf_durationMs res) 0,
             md_page := targetPage, md_busy := False\<rparr>)"

definition runQuery_fail :: "translator \<Rightarrow> nat \<Rightarrow> js_error \<Rightarrow> mongo_data \<Rightarrow> mongo_data" where
  "runQuery_fail t reqId e s = (if reqId \<noteq> md_reqId s then s else s\<lparr>md_error := errorMessage t e, md_busy := False\<rparr>)"

definition filter_timer :: "(js_double \<Rightarrow> string) \<Rightarrow> mongo_data \<Rightarrow> mongo_data \<Rightarrow> mongo_data \<times> mongo_data_call list" where
  \<comment> \<open>300 ms after the collection or the combined filter has changed, unless it changes again before\<close>
  "filter_timer pr c s = runQuery_begin pr c 1 (md_pageSize c) s"

definition page_change :: "(js_double \<Rightarrow> string) \<Rightarrow> int \<Rightarrow> int \<Rightarrow> mongo_data \<Rightarrow> mongo_data \<times> mongo_data_call list" where
  "page_change pr p n s = runQuery_begin pr s p n (s\<lparr>md_pageSize := n\<rparr>)"

subsection \<open>Rows and columns\<close>

definition parsed_row :: "(js_double \<Rightarrow> string) \<Rightarrow> nat \<Rightarrow> string \<Rightarrow> js_entry list" where
  "parsed_row pr idx raw =
     (let obj = nullish (json_parse pr raw) (JObj [(''_raw'', JStr raw)]) in
      put_entry (put_entry (js_entries obj) (''__idx'', JNum (show_nat idx))) (''__raw'', JStr raw))"

definition parsedRows :: "(js_double \<Rightarrow> string) \<Rightarrow> mongo_data \<Rightarrow> js_entry list list" where
  "parsedRows pr s = map (\<lambda>(i, raw). parsed_row pr i raw) (enumerate 0 (md_docs s))"

definition row_field :: "js_entry list \<Rightarrow> string \<Rightarrow> js_value" where
  "row_field row col = nullish (map_of row col) JUndef"

definition row_raw :: "js_entry list \<Rightarrow> string" where
  \<comment> \<open>\<open>row.__raw\<close>, always a text\<close>
  "row_raw row = js_string (row_field row ''__raw'')"

definition add_new :: "string list \<Rightarrow> string \<Rightarrow> string list" where
  \<comment> \<open>\<open>set.add(k)\<close>\<close>
  "add_new ks k = (if k \<in> set ks then ks else ks @ [k])"

definition dynamicColumns :: "js_entry list list \<Rightarrow> string list" where
  "dynamicColumns rows =
     (let keys = foldl add_new [] (filter (\<lambda>k. k \<noteq> ''__idx'' \<and> k \<noteq> ''__raw'') (concat (map (map fst) rows))) in
      if ''_id'' \<in> set keys then ''_id'' # remove1 ''_id'' keys
      else if keys = [] then [''_id''] else keys)"

datatype cell_view = NullCell | BoolTag bool | NumberCell string | JsonCell string string | TextCell string

definition renderCellContent :: "js_value \<Rightarrow> cell_view" where
  \<comment> \<open>of an object or array the label and the whole text\<close>
  "renderCellContent v =
     (case v of
        JUndef \<Rightarrow> NullCell
      | JNull \<Rightarrow> NullCell
      | JBool b \<Rightarrow> BoolTag b
      | JNum n \<Rightarrow> NumberCell n
      | JStr s \<Rightarrow> TextCell s
      | JArr vs \<Rightarrow> JsonCell (''Array('' @ show_nat (length vs) @ '')'') (json_indent 2 0 v)
      | JObj es \<Rightarrow> JsonCell (if es = [] then ''{}'' else ''{ ... }'') (json_indent 2 0 v))"

definition row_number :: "mongo_data \<Rightarrow> nat \<Rightarrow> int" where
  "row_number s rIdx = (md_page s - 1) * md_pageSize s + int rIdx + 1"

subsection \<open>Which document\<close>

definition id_filter :: "js_value \<Rightarrow> string" where
  \<comment> \<open>\<open>JSON.stringify({ _id: v })\<close>\<close>
  "id_filter v = json_text (JObj [(''_id'', v)])"

definition doc_id :: "(js_double \<Rightarrow> string) \<Rightarrow> string \<Rightarrow> js_value option" where
  \<comment> \<open>\<open>JSON.parse(raw)._id\<close>; None where it throws\<close>
  "doc_id pr raw = Option.bind (json_parse pr raw) (\<lambda>obj. js_field obj ''_id'')"

definition editor_filter :: "(js_double \<Rightarrow> string) \<Rightarrow> string option \<Rightarrow> string" where
  \<comment> \<open>the filter of an update or replacement\<close>
  "editor_filter pr raw =
     (if \<not> truthy raw then ''{}''
      else case doc_id pr (the raw) of
             Some v \<Rightarrow> if v \<noteq> JUndef then id_filter v else ''{}''
           | None \<Rightarrow> ''{}'')"

definition cell_filter :: "(js_double \<Rightarrow> string) \<Rightarrow> cell_modal \<Rightarrow> string" where
  \<comment> \<open>the filter of a change of one field\<close>
  "cell_filter pr m =
     (if cm_docId m \<noteq> JUndef then id_filter (cm_docId m)
      else case doc_id pr (str_or (row_raw (cm_rawRow m)) ''{}'') of
             Some v \<Rightarrow> if v \<noteq> JUndef then id_filter v else row_raw (cm_rawRow m)
           | None \<Rightarrow> ''{}'')"

definition deleteDoc_id :: "(js_double \<Rightarrow> string) \<Rightarrow> string \<Rightarrow> string" where
  \<comment> \<open>\<open>idStr\<close>\<close>
  "deleteDoc_id pr raw = (case doc_id pr raw of Some v \<Rightarrow> if v \<noteq> JUndef then json_text v else [] | None \<Rightarrow> [])"

definition delete_filter :: "string \<Rightarrow> string \<Rightarrow> string" where
  "delete_filter idStr raw = (if idStr \<noteq> [] then ''{'' @ [CHR 0x22] @ ''_id'' @ [CHR 0x22] @ '':'' @ idStr @ ''}'' else raw)"

definition without_id :: "js_value \<Rightarrow> js_value option" where
  \<comment> \<open>\<open>delete obj._id\<close>, a TypeError on null\<close>
  "without_id v =
     (if is_nullish v then None else Some (case v of JObj es \<Rightarrow> JObj (filter (\<lambda>e. fst e \<noteq> ''_id'') es) | _ \<Rightarrow> v))"

definition parse_without_id :: "(js_double \<Rightarrow> string) \<Rightarrow> string \<Rightarrow> js_value option" where
  "parse_without_id pr raw = Option.bind (json_parse pr raw) without_id"

subsection \<open>The editor of a document\<close>

definition open_editor :: "edit_mode \<Rightarrow> string option \<Rightarrow> string \<Rightarrow> mongo_data \<Rightarrow> mongo_data" where
  "open_editor mode raw body s = s\<lparr>md_editorText := body, md_editorError := [], md_editOpen := Some (mode, raw)\<rparr>"

definition openInsert :: "mongo_data \<Rightarrow> mongo_data" where
  "openInsert s = open_editor EditInsert None (''{'' @ [CHR 0x0A] @ ''  '' @ [CHR 0x0A] @ ''}'') s"

definition openUpdate :: "(js_double \<Rightarrow> string) \<Rightarrow> string \<Rightarrow> mongo_data \<Rightarrow> mongo_data" where
  "openUpdate pr raw s =
     open_editor EditUpdate (Some raw)
       (case parse_without_id pr raw of
          Some obj \<Rightarrow> json_indent 2 0 (JObj [(''$set'', obj)])
        | None \<Rightarrow> ''{'' @ [CHR 0x0A] @ ''  '' @ [CHR 0x22] @ ''$set'' @ [CHR 0x22] @ '': {}'' @ [CHR 0x0A] @ ''}'') s"

definition openReplace :: "(js_double \<Rightarrow> string) \<Rightarrow> string \<Rightarrow> mongo_data \<Rightarrow> mongo_data" where
  "openReplace pr raw s =
     open_editor EditReplace (Some raw) (case parse_without_id pr raw of Some obj \<Rightarrow> json_indent 2 0 obj | None \<Rightarrow> raw) s"

definition cancel_editor :: "mongo_data \<Rightarrow> mongo_data" where
  "cancel_editor s = s\<lparr>md_editOpen := None\<rparr>"

definition save_doc_call :: "(js_double \<Rightarrow> string) \<Rightarrow> mongo_data \<Rightarrow> mongo_data_call list" where
  "save_doc_call pr s =
     (case md_editOpen s of
        None \<Rightarrow> []
      | Some (mode, raw) \<Rightarrow>
          (case mode of
             EditInsert \<Rightarrow> [MdInsertOne (md_editorText s)]
           | EditUpdate \<Rightarrow> [MdUpdateOne (editor_filter pr raw) (md_editorText s)]
           | EditReplace \<Rightarrow> [MdReplaceOne (editor_filter pr raw) (md_editorText s)]))"

definition handleSaveDocModal_begin :: "(js_double \<Rightarrow> string) \<Rightarrow> mongo_data \<Rightarrow> mongo_data \<times> mongo_data_call list" where
  "handleSaveDocModal_begin pr s = (s\<lparr>md_editorBusy := True, md_editorError := []\<rparr>, save_doc_call pr s)"

definition saved_text :: "translator \<Rightarrow> edit_mode \<Rightarrow> int option \<Rightarrow> string" where
  \<comment> \<open>with the number of documents that matched\<close>
  "saved_text t mode matched =
     (case mode of
        EditInsert \<Rightarrow> t ''mongo.data.actions.insertSuccess'' []
      | EditUpdate \<Rightarrow> t ''mongo.data.actions.updateSuccess'' [(''matched'', show_int (nullish matched 1))]
      | EditReplace \<Rightarrow> t ''mongo.data.actions.replaceSuccess'' [(''matched'', show_int (nullish matched 1))])"

definition handleSaveDocModal_done ::
  "(js_double \<Rightarrow> string) \<Rightarrow> translator \<Rightarrow> int option \<Rightarrow> mongo_data \<Rightarrow> mongo_data \<Rightarrow> mongo_data \<times> mongo_data_call list" where
  "handleSaveDocModal_done pr t matched c s =
     (let said = (case md_editOpen c of Some (mode, _) \<Rightarrow> [saved_text t mode matched] | None \<Rightarrow> []);
          (s1, calls) = runQuery_begin pr c (md_page c) (md_pageSize c) (s\<lparr>md_messages := md_messages s @ said, md_editOpen := None\<rparr>) in
      (s1\<lparr>md_editorBusy := False\<rparr>, calls))"

definition handleSaveDocModal_failed :: "translator \<Rightarrow> js_error \<Rightarrow> mongo_data \<Rightarrow> mongo_data" where
  "handleSaveDocModal_failed t e s = s\<lparr>md_editorError := errorMessage t e, md_editorBusy := False\<rparr>"

subsection \<open>The editor of a cell\<close>

definition open_cell_modal :: "js_entry list \<Rightarrow> string \<Rightarrow> mongo_data \<Rightarrow> mongo_data" where
  \<comment> \<open>a click on an object or array; a column has a name\<close>
  "open_cell_modal row colKey s =
     (case renderCellContent (row_field row colKey) of
        JsonCell _ fullStr \<Rightarrow>
          if colKey = [] then s
          else s\<lparr>md_cellModal := Some \<lparr>cm_colKey = colKey, cm_docId = row_field row ''_id'', cm_rawRow = row, cm_text = fullStr\<rparr>,
                 md_cellModalError := []\<rparr>
      | _ \<Rightarrow> s)"

definition edit_cell_text :: "string \<Rightarrow> mongo_data \<Rightarrow> mongo_data" where
  "edit_cell_text v s = s\<lparr>md_cellModal := map_option (\<lambda>m. m\<lparr>cm_text := v\<rparr>) (md_cellModal s)\<rparr>"

definition format_cell :: "(js_double \<Rightarrow> string) \<Rightarrow> translator \<Rightarrow> string \<Rightarrow> mongo_data \<Rightarrow> mongo_data" where
  \<comment> \<open>\<open>err\<close> is the message of the exception of \<open>JSON.parse\<close>\<close>
  "format_cell pr t err s =
     (case md_cellModal s of
        None \<Rightarrow> s
      | Some m \<Rightarrow>
          (case json_parse pr (cm_text m) of
             Some v \<Rightarrow> s\<lparr>md_cellModal := Some (m\<lparr>cm_text := json_indent 2 0 v\<rparr>), md_cellModalError := [],
                         md_messages := md_messages s @ [t ''mongo.data.actions.jsonFormatted'' []]\<rparr>
           | None \<Rightarrow> s\<lparr>md_cellModalError := t ''mongo.data.actions.formatFail'' [(''error'', err)]\<rparr>))"

definition cell_update :: "string \<Rightarrow> js_value \<Rightarrow> string" where
  "cell_update colKey v = json_text (JObj [(''$set'', JObj [(colKey, v)])])"

definition handleSaveCellModal_begin ::
  "(js_double \<Rightarrow> string) \<Rightarrow> translator \<Rightarrow> string \<Rightarrow> mongo_data \<Rightarrow> mongo_data \<times> mongo_data_call list" where
  "handleSaveCellModal_begin pr t err s =
     (case md_cellModal s of
        None \<Rightarrow> (s, [])
      | Some m \<Rightarrow>
          (case json_parse pr (cm_text m) of
             None \<Rightarrow> (s\<lparr>md_cellModalError := t ''mongo.data.actions.jsonParseFail'' [(''error'', str_or err ''Syntax Error'')],
                        md_cellModalBusy := False\<rparr>, [])
           | Some v \<Rightarrow> (s\<lparr>md_cellModalBusy := True, md_cellModalError := []\<rparr>, [MdUpdateOne (cell_filter pr m) (cell_update (cm_colKey m) v)])))"

definition handleSaveCellModal_done ::
  "(js_double \<Rightarrow> string) \<Rightarrow> translator \<Rightarrow> int option \<Rightarrow> int option \<Rightarrow> mongo_data \<Rightarrow> mongo_data \<Rightarrow> mongo_data \<times> mongo_data_call list" where
  "handleSaveCellModal_done pr t matched modified c s =
     (let said = (case md_cellModal c of
                    Some m \<Rightarrow> [t ''mongo.data.actions.updatedField''
                      [(''col'', cm_colKey m), (''matched'', show_int (nullish matched 1)), (''modified'', show_int (nullish modified 1))]]
                  | None \<Rightarrow> []);
          (s1, calls) = runQuery_begin pr c (md_page c) (md_pageSize c) (s\<lparr>md_messages := md_messages s @ said, md_cellModal := None\<rparr>) in
      (s1\<lparr>md_cellModalBusy := False\<rparr>, calls))"

definition handleSaveCellModal_failed :: "translator \<Rightarrow> js_error \<Rightarrow> mongo_data \<Rightarrow> mongo_data" where
  "handleSaveCellModal_failed t e s = s\<lparr>md_cellModalError := errorMessage t e, md_cellModalBusy := False\<rparr>"

subsection \<open>Deleting\<close>

definition deleteDoc :: "(js_double \<Rightarrow> string) \<Rightarrow> string \<Rightarrow> mongo_data \<Rightarrow> mongo_data" where
  "deleteDoc pr raw s = s\<lparr>md_confirm := Some (DeleteDocument (deleteDoc_id pr raw) raw)\<rparr>"

definition truncateCollection :: "mongo_data \<Rightarrow> mongo_data" where
  "truncateCollection s = s\<lparr>md_confirm := Some TruncateAll\<rparr>"

definition confirm_text :: "translator \<Rightarrow> string \<Rightarrow> doc_confirm \<Rightarrow> string" where
  "confirm_text t collection d =
     (case d of
        DeleteDocument idStr _ \<Rightarrow>
          if idStr \<noteq> [] then t ''mongo.data.actions.deleteDocConfirmId'' [(''id'', idStr)] else t ''mongo.data.actions.deleteDocConfirm'' []
      | TruncateAll \<Rightarrow> t ''mongo.data.actions.truncateConfirm'' [(''coll'', collection)])"

definition doc_confirm_begin :: "mongo_data \<Rightarrow> mongo_data \<times> mongo_data_call list" where
  "doc_confirm_begin s =
     (s\<lparr>md_confirm := None\<rparr>,
      case md_confirm s of
        None \<Rightarrow> []
      | Some (DeleteDocument idStr raw) \<Rightarrow> [MdDeleteOne (delete_filter idStr raw)]
      | Some TruncateAll \<Rightarrow> [MdDeleteMany ''{}''])"

definition doc_confirm_done ::
  "(js_double \<Rightarrow> string) \<Rightarrow> translator \<Rightarrow> doc_confirm \<Rightarrow> int \<Rightarrow> mongo_data \<Rightarrow> mongo_data \<Rightarrow> mongo_data \<times> mongo_data_call list" where
  "doc_confirm_done pr t d count c s =
     (case d of
        DeleteDocument _ _ \<Rightarrow>
          runQuery_begin pr c (md_page c) (md_pageSize c)
            (s\<lparr>md_messages := md_messages s @ [t ''mongo.data.actions.deletedCount'' [(''count'', show_int count)]]\<rparr>)
      | TruncateAll \<Rightarrow>
          runQuery_begin pr c 1 (md_pageSize c)
            (s\<lparr>md_messages := md_messages s @ [t ''mongo.data.actions.truncatedCount'' [(''count'', show_int count)]]\<rparr>))"

definition doc_call_failed :: "translator \<Rightarrow> js_error \<Rightarrow> mongo_data \<Rightarrow> mongo_data" where
  \<comment> \<open>a deletion, a truncation or a clone that fails\<close>
  "doc_call_failed t e s = s\<lparr>md_messages := md_messages s @ [errorMessage t e]\<rparr>"

subsection \<open>Statistics and the menu of a row\<close>

definition openStats_begin :: "mongo_data \<Rightarrow> mongo_data \<times> mongo_data_call list" where
  "openStats_begin s = (s\<lparr>md_statsBusy := True, md_statsModalOpen := True\<rparr>, [MdCollectionStats])"

definition openStats_done :: "mongo_stats option \<Rightarrow> mongo_data \<Rightarrow> mongo_data" where
  "openStats_done st s = s\<lparr>md_stats := st, md_statsBusy := False\<rparr>"

definition openStats_failed :: "translator \<Rightarrow> js_error \<Rightarrow> mongo_data \<Rightarrow> mongo_data" where
  "openStats_failed t e s = s\<lparr>md_messages := md_messages s @ [errorMessage t e], md_stats := None, md_statsBusy := False\<rparr>"

definition open_row_menu :: "nat \<Rightarrow> string option \<Rightarrow> mongo_data \<Rightarrow> mongo_data" where
  "open_row_menu rIdx col s = s\<lparr>md_selectedIdx := Some rIdx, md_contextMenu := Some (rIdx, col)\<rparr>"

definition menu_row_of :: "(js_double \<Rightarrow> string) \<Rightarrow> mongo_data \<Rightarrow> js_entry list option" where
  "menu_row_of pr s =
     (case md_contextMenu s of
        None \<Rightarrow> None
      | Some (i, _) \<Rightarrow> if i < length (md_docs s) then Some (parsedRows pr s ! i) else None)"

definition menu_copy_cell :: "(js_double \<Rightarrow> string) \<Rightarrow> mongo_data \<Rightarrow> mongo_data_call list" where
  "menu_copy_cell pr s =
     (case (menu_row_of pr s, md_contextMenu s) of
        (Some row, Some (_, Some col)) \<Rightarrow>
          (let v = row_field row col in
           if col = [] \<or> v = JUndef then []
           else [MdCopyText (case v of JNull \<Rightarrow> json_text v | JArr _ \<Rightarrow> json_text v | JObj _ \<Rightarrow> json_text v | _ \<Rightarrow> js_string v)])
      | _ \<Rightarrow> [])"

definition pretty_doc :: "(js_double \<Rightarrow> string) \<Rightarrow> string \<Rightarrow> string" where
  \<comment> \<open>as the view of JSON shows a document, and as the menu copies it\<close>
  "pretty_doc pr raw = (case json_parse pr raw of Some v \<Rightarrow> json_indent 2 0 v | None \<Rightarrow> raw)"

definition menu_copy_json :: "(js_double \<Rightarrow> string) \<Rightarrow> mongo_data \<Rightarrow> mongo_data_call list" where
  "menu_copy_json pr s = (case menu_row_of pr s of Some row \<Rightarrow> [MdCopyText (pretty_doc pr (row_raw row))] | None \<Rightarrow> [])"

definition menu_copy_id :: "(js_double \<Rightarrow> string) \<Rightarrow> mongo_data \<Rightarrow> mongo_data_call list" where
  "menu_copy_id pr s =
     (case menu_row_of pr s of
        Some row \<Rightarrow> if row_field row ''_id'' \<noteq> JUndef then [MdCopyText (json_text (row_field row ''_id''))] else []
      | None \<Rightarrow> [])"

definition clone_doc_begin :: "(js_double \<Rightarrow> string) \<Rightarrow> translator \<Rightarrow> js_error \<Rightarrow> string \<Rightarrow> mongo_data \<Rightarrow> mongo_data \<times> mongo_data_call list" where
  \<comment> \<open>\<open>e\<close> is the exception of \<open>JSON.parse\<close>\<close>
  "clone_doc_begin pr t e raw s =
     (case parse_without_id pr raw of
        Some cloned \<Rightarrow> (s, [MdInsertOne (json_text cloned)])
      | None \<Rightarrow> (doc_call_failed t e s, []))"

definition clone_doc_done :: "(js_double \<Rightarrow> string) \<Rightarrow> translator \<Rightarrow> mongo_data \<Rightarrow> mongo_data \<Rightarrow> mongo_data \<times> mongo_data_call list" where
  "clone_doc_done pr t c s =
     runQuery_begin pr c 1 (md_pageSize c) (s\<lparr>md_messages := md_messages s @ [t ''mongo.data.actions.cloneSuccess'' []]\<rparr>)"

subsection \<open>The statements name the document on screen\<close>

definition names :: "(js_double \<Rightarrow> string) \<Rightarrow> js_value \<Rightarrow> string \<Rightarrow> bool" where
  \<comment> \<open>the filter reads as the equality of \<open>_id\<close> with the value\<close>
  "names pr v f \<longleftrightarrow> json_parse pr f = Some (JObj [(''_id'', v)])"

lemma id_filter_names: "json_ok pr v \<Longrightarrow> names pr v (id_filter v)"
  unfolding names_def id_filter_def by (rule json_parse_text) simp

lemma delete_filter_id: "json_ok pr v \<Longrightarrow> delete_filter (json_text v) raw = id_filter v"
proof -
  assume "json_ok pr v"
  then have "v \<noteq> JUndef" "json_text v \<noteq> []" using json_indent_head [of pr v 0 0] by (auto simp: json_indent_0)
  then show ?thesis by (simp add: delete_filter_def id_filter_def json_quote_def json_char_def)
qed

lemma row_of_doc:
  assumes "json_parse pr raw = Some (JObj es)"
  shows "row_field (parsed_row pr i raw) ''_id'' = nullish (map_of es ''_id'') JUndef" "row_raw (parsed_row pr i raw) = raw"
  using assms by (simp_all add: parsed_row_def row_field_def row_raw_def map_of_put_entry js_entries_def nullish_def Let_def)

lemma doc_id_of: "json_parse pr raw = Some (JObj es) \<Longrightarrow> doc_id pr raw = Some (nullish (map_of es ''_id'') JUndef)"
  by (simp add: doc_id_def js_field_def is_nullish_def)

text \<open>
  C14: deleting, updating and replacing a document, and changing one of its cells, name the document by the \<open>_id\<close> it was shown with.
\<close>

theorem statements_name_the_document:
  assumes "json_parse pr raw = Some (JObj es)" "map_of es ''_id'' = Some v" "json_ok pr v"
  shows "(\<exists>f. snd (doc_confirm_begin (deleteDoc pr raw s)) = [MdDeleteOne f] \<and> names pr v f) \<and>
    (\<exists>f. save_doc_call pr ((openUpdate pr raw s)\<lparr>md_editorText := body\<rparr>) = [MdUpdateOne f body] \<and> names pr v f) \<and>
    (\<exists>f. save_doc_call pr ((openReplace pr raw s)\<lparr>md_editorText := body\<rparr>) = [MdReplaceOne f body] \<and> names pr v f) \<and>
    (\<forall>m. md_cellModal (open_cell_modal (parsed_row pr i raw) col (s\<lparr>md_cellModal := None\<rparr>)) = Some m \<longrightarrow> names pr v (cell_filter pr m))"
proof -
  have "raw \<noteq> []" using assms(1) by (auto simp: json_parse_def skip_def)
  moreover have "v \<noteq> JUndef" using assms(3) by auto
  moreover have id: "doc_id pr raw = Some v" using doc_id_of [OF assms(1)] assms(2) by (simp add: nullish_def)
  ultimately have "editor_filter pr (Some raw) = id_filter v" "deleteDoc_id pr raw = json_text v"
    by (simp_all add: editor_filter_def deleteDoc_id_def truthy_def)
  moreover have "cm_docId m = v" if "md_cellModal (open_cell_modal (parsed_row pr i raw) col (s\<lparr>md_cellModal := None\<rparr>)) = Some m" for m
    using that row_of_doc [OF assms(1)] assms(2) by (auto simp: open_cell_modal_def nullish_def split: cell_view.splits if_splits)
  ultimately show ?thesis
    using id_filter_names [OF assms(3)] delete_filter_id [OF assms(3)] \<open>v \<noteq> JUndef\<close>
    by (simp add: deleteDoc_def doc_confirm_begin_def openUpdate_def openReplace_def open_editor_def save_doc_call_def cell_filter_def)
qed

text \<open>
  C35: a document that is shown without its \<open>_id\<close>, because the projection leaves it out, is updated and replaced with the empty filter: the
  server then changes the first document of the collection. The deletion of the same row uses the whole document as the filter.
\<close>

theorem no_id_changes_first_document:
  assumes "json_parse pr raw = Some (JObj es)" "''_id'' \<notin> fst ` set es"
  shows "save_doc_call pr ((openUpdate pr raw s)\<lparr>md_editorText := body\<rparr>) = [MdUpdateOne ''{}'' body] \<and>
    save_doc_call pr ((openReplace pr raw s)\<lparr>md_editorText := body\<rparr>) = [MdReplaceOne ''{}'' body] \<and>
    snd (doc_confirm_begin (deleteDoc pr raw s)) = [MdDeleteOne raw]"
proof -
  have "map_of es ''_id'' = None" using assms(2) by (simp add: map_of_eq_None_iff)
  then have "doc_id pr raw = Some JUndef" using doc_id_of [OF assms(1)] by (simp add: nullish_def)
  then show ?thesis
    by (simp add: editor_filter_def deleteDoc_id_def delete_filter_def deleteDoc_def doc_confirm_begin_def openUpdate_def
        openReplace_def open_editor_def save_doc_call_def)
qed

text \<open>
  What the editors open with reads back as the document without its \<open>_id\<close>, and formatting the text of a cell does not change its
  value: an edit that is saved without a change writes what is there.
\<close>

theorem editor_text_reads_back:
  assumes "json_parse pr raw = Some (JObj es)" "json_ok pr (JObj (filter (\<lambda>e. fst e \<noteq> ''_id'') es))"
  shows "json_parse pr (md_editorText (openReplace pr raw s)) = Some (JObj (filter (\<lambda>e. fst e \<noteq> ''_id'') es)) \<and>
    json_parse pr (md_editorText (openUpdate pr raw s)) = Some (JObj [(''$set'', JObj (filter (\<lambda>e. fst e \<noteq> ''_id'') es))]) \<and>
    snd (clone_doc_begin pr t e raw s) = [MdInsertOne (json_text (JObj (filter (\<lambda>e. fst e \<noteq> ''_id'') es)))]"
proof -
  let ?doc = "JObj (filter (\<lambda>e. fst e \<noteq> ''_id'') es)"
  have doc: "parse_without_id pr raw = Some ?doc" using assms(1) by (simp add: parse_without_id_def without_id_def is_nullish_def)
  have "json_ok pr (JObj [(''$set'', ?doc)])" using assms(2) by simp
  from json_parse_indent [OF this, of 2 0] json_parse_indent [OF assms(2), of 2 0] doc show ?thesis
    by (simp add: openReplace_def openUpdate_def open_editor_def clone_doc_begin_def del: json_indent.simps json_text.simps json_ok.simps)
qed

subsection \<open>Long integers\<close>

lemma odd_rounded:
  assumes "2 ^ 53 < n" "n < 2 ^ 54"
  shows "\<exists>k. integer_value (double_of_ratio False n 1) = Some (int (2 * k)) \<and> 2 * k \<le> 2 ^ 54"
proof -
  have "0 < n" using assms(1) by simp
  from ilog2_bounds [OF this] have L: "2 ^ ilog2 n \<le> n" "n < 2 ^ Suc (ilog2 n)" by simp_all
  have low: "(2::nat) ^ ilog2 n < 2 ^ 54" and high: "(2::nat) ^ 53 < 2 ^ Suc (ilog2 n)" by (rule le_less_trans [OF L(1) assms(2)], rule less_trans [OF assms(1) L(2)])
  have "ilog2 n < 54" by (rule power_less_imp_less_exp [OF _ low]) simp
  moreover have "53 < Suc (ilog2 n)" by (rule power_less_imp_less_exp [OF _ high]) simp
  ultimately have log: "ilog2 n = 53" by simp
  define m where "m = half_even n 2"
  have m: "n div 2 \<le> m" "m \<le> Suc (n div 2)" by (simp_all add: m_def half_even_def Let_def)
  have "2 ^ 52 \<le> n div 2" using assms(1) by simp
  then have "m \<noteq> 0" using m(1) by auto
  have "2 * m \<le> 2 ^ 54" using m(2) assms(2) by simp
  have "double_of_ratio False n 1 = (if m = 2 ^ 53 then DFin False (2 ^ 52) 2 else DFin False m 1)"
    using assms(1) \<open>0 < n\<close> \<open>m \<noteq> 0\<close> by (simp add: double_of_ratio_def log ilog2.simps [of "Suc 0"] m_def Let_def)
  then have "integer_value (double_of_ratio False n 1) = Some (int (2 * m))"
    by (simp add: integer_value_def)
  with \<open>2 * m \<le> 2 ^ 54\<close> show ?thesis by blast
qed

definition id_doc :: "nat \<Rightarrow> string" where
  \<comment> \<open>the text of a document that has only a long integer as its \<open>_id\<close>\<close>
  "id_doc n = ''{'' @ json_quote ''_id'' @ '':'' @ show_nat n @ ''}''"

lemma id_doc_parsed:
  "json_parse pr (id_doc n) = Some (JObj [(''_id'', JNum (number_text_of pr (number_of_text (show_nat n))))])"
proof -
  let ?v = "JNum (number_text_of pr (number_of_text (show_nat n)))"
  have num: "json_num (show_nat n)" by (rule json_num_nat)
  obtain c r where head: "show_nat n = c # r" "\<not> json_white c" "c \<notin> {CHR 0x22, CHR ''['', CHR 0x7B, CHR ''t'', CHR ''f'', CHR ''n''}"
    using show_nat_not_Nil [of n] json_num_not_white num by (metis insert_iff neq_Nil_conv)
  have num_read: "parse_value pr k (show_nat n @ rest) = Some (?v, rest)" if "stops rest" and k: "2 * length (show_nat n) \<le> k" for k rest
  proof -
    obtain j where "k = Suc j" using k head(1) by (cases k) auto
    then show ?thesis using scan_number_append [OF num that(1)] head by (auto simp: skip_head)
  qed
  obtain m where m: "2 * length (id_doc n) + 1 = Suc m" by simp
  have doc: "id_doc n = ''{'' @ member_text 0 (\<lambda>_. show_nat n) (''_id'', ?v) @ ''}''"
    by (simp add: id_doc_def member_text_def json_colon_def)
  have "parse_members pr m (join ('','' @ json_break 0 0) (map (member_text 0 (\<lambda>_. show_nat n)) [(''_id'', ?v)]) @ json_break 0 0 @ CHR 0x7D # []) =
      Some ([(''_id'', ?v)], [])"
    by (rule members_read_back) (use num_read m doc in auto)
  then have "parse_members pr m (member_text 0 (\<lambda>_. show_nat n) (''_id'', ?v) @ ''}'') = Some ([(''_id'', ?v)], [])"
    by (simp add: json_break_def)
  moreover have "\<not> prefix ''}'' (skip (member_text 0 (\<lambda>_. show_nat n) (''_id'', ?v) @ ''}''))" by (simp add: member_head)
  moreover have "skip (CHR 0x7B # r) = CHR 0x7B # r" for r by (simp add: skip_head json_white_def)
  ultimately show ?thesis unfolding json_parse_def m by (simp add: doc)
qed

text \<open>
  A long integer from \<open>2 ^ 53\<close> on that is odd is no double: the deletion of the document that has it as its \<open>_id\<close> names another number,
  and so, if there is one, another document.
\<close>

theorem long_id_names_other_document:
  assumes "2 ^ 53 < n" "n < 2 ^ 54" "odd n"
  shows "\<exists>m. m \<noteq> n \<and> snd (doc_confirm_begin (deleteDoc pr (id_doc n) s)) = [MdDeleteOne (id_doc m)]"
proof -
  obtain k where k: "integer_value (double_of_ratio False n 1) = Some (int (2 * k))" "2 * k \<le> 2 ^ 54"
    using odd_rounded [OF assms(1,2)] by blast
  have "number_of_text (show_nat n) = double_of_ratio False n 1"
    by (simp add: number_of_digits show_nat_digit_list show_nat_not_Nil read_show_nat)
  then have num: "number_text_of pr (number_of_text (show_nat n)) = show_nat (2 * k)"
    using k by (simp add: number_text_of_def show_int_def nat_mult_distrib)
  have "2 * k \<noteq> n" using assms(3) by auto
  moreover have "deleteDoc_id pr (id_doc n) = show_nat (2 * k)"
  proof -
    have "json_text (JNum (show_nat (2 * k))) = show_nat (2 * k)" by (rule json_text_nat)
    then show ?thesis using doc_id_of [OF id_doc_parsed] num by (simp add: deleteDoc_id_def nullish_def del: json_text.simps)
  qed
  ultimately show ?thesis
    by (intro exI [of _ "2 * k"])
      (simp add: deleteDoc_def doc_confirm_begin_def delete_filter_def show_nat_not_Nil id_doc_def json_quote_def json_char_def)
qed

subsection \<open>Filters and columns\<close>

lemma entries_of_puts: "distinct (map fst es) \<Longrightarrow> map_of (foldl put_entry [] es) = map_of es"
  by (simp add: map_of_puts map_of_inject_set [of "rev es" es, THEN iffD2] rev_map [symmetric])

lemma puts_empty: "foldl put_entry [] es = [] \<longleftrightarrow> es = []"
proof (cases es rule: rev_cases)
  case (snoc xs x)
  have "map_of (put_entry ys x) \<noteq> Map.empty" for ys by (auto simp: map_of_put_entry dest: fun_cong)
  then have "put_entry ys x \<noteq> []" for ys by fastforce
  with snoc show ?thesis by simp
qed simp

text \<open>
  With a filter as text and filters of columns the server gets the conjunction of the two objects, and in the second one exactly one
  condition for each column.
\<close>

theorem combined_filter_reads_back:
  assumes "trim (md_filterText s) \<notin> {[], ''{}''}" "json_parse pr (md_filterText s) = Some (JObj base)" "base \<noteq> []"
    and "md_filters s \<noteq> []" "distinct (map fst (md_filters s))"
    and "json_ok pr (JObj base)" "json_ok pr (JObj (buildMongoFilter pr (md_filters s)))"
  shows "\<exists>sent conds. combinedFilterJSON pr s = Some sent \<and>
    json_parse pr sent = Some (JObj [(''$and'', JArr [JObj base, JObj conds])]) \<and>
    map_of conds = map_option (filter_cond pr) \<circ> map_of (md_filters s)"
proof -
  let ?conds = "buildMongoFilter pr (md_filters s)"
  have keys: "map fst (map (\<lambda>(col, f). (col, filter_cond pr f)) (md_filters s)) = map fst (md_filters s)" by auto
  have conds: "map_of ?conds = map_option (filter_cond pr) \<circ> map_of (md_filters s)"
    unfolding buildMongoFilter_def by (subst entries_of_puts) (simp only: keys assms(5), simp add: map_of_map)
  have "?conds \<noteq> []" using assms(4) by (simp add: buildMongoFilter_def puts_empty)
  then have sent: "combinedFilterJSON pr s = Some (json_text (JObj [(''$and'', JArr [JObj base, JObj ?conds])]))"
    using assms(1-3) by (simp add: combinedFilterJSON_def base_filter_def has_keys_def is_nullish_def nullish_def Let_def)
  have "json_ok pr (JObj [(''$and'', JArr [JObj base, JObj ?conds])])"
    using assms(6,7) by simp
  from json_parse_text [OF this] sent conds show ?thesis by blast
qed

text \<open>
  The filter \<open>null\<close> is JSON, and \<open>Object.keys\<close> throws on it outside the \<open>try\<close>, in the middle of rendering.
\<close>

theorem null_filter_breaks_rendering:
  assumes "trim (md_filterText s) \<notin> {[], ''{}''}" "json_parse pr (md_filterText s) = Some JNull"
  shows "combinedFilterJSON pr s = None"
  using assms by (simp add: combinedFilterJSON_def base_filter_def has_keys_def is_nullish_def nullish_def Let_def)

lemma add_new_keys: "set (foldl add_new acc ks) = set acc \<union> set ks" "distinct acc \<Longrightarrow> distinct (foldl add_new acc ks)"
  by (induction ks arbitrary: acc) (auto simp: add_new_def)

text \<open>The columns are the fields of the documents, each once, with \<open>_id\<close> first; without any field there is the column \<open>_id\<close>.\<close>

theorem columns_are_the_fields:
  assumes "names_of = (\<Union>row\<in>set rows. fst ` set row) - {''__idx'', ''__raw''}"
  shows "distinct (dynamicColumns rows) \<and> set (dynamicColumns rows) = (if names_of = {} then {''_id''} else names_of) \<and>
    (''_id'' \<in> names_of \<longrightarrow> hd (dynamicColumns rows) = ''_id'')"
proof -
  define keys where "keys = foldl add_new [] (filter (\<lambda>k. k \<noteq> ''__idx'' \<and> k \<noteq> ''__raw'') (concat (map (map fst) rows)))"
  have "set keys = names_of" "distinct keys" using assms by (auto simp: keys_def add_new_keys)
  moreover have "dynamicColumns rows = (if ''_id'' \<in> set keys then ''_id'' # remove1 ''_id'' keys else if keys = [] then [''_id''] else keys)"
    by (simp add: dynamicColumns_def keys_def Let_def)
  ultimately show ?thesis by auto
qed

subsection \<open>Answers that come late\<close>

datatype query_event =
    MdBegin mongo_data int int
  | MdDone nat int mongo_find_result
  | MdFail nat js_error

fun query_step :: "(js_double \<Rightarrow> string) \<Rightarrow> translator \<Rightarrow> mongo_data \<Rightarrow> query_event \<Rightarrow> mongo_data" where
  "query_step pr t s (MdBegin c p n) = fst (runQuery_begin pr c p n s)"
| "query_step pr t s (MdDone r p res) = runQuery_done r p res s"
| "query_step pr t s (MdFail r e) = runQuery_fail t r e s"

definition about_query :: "nat \<Rightarrow> query_event \<Rightarrow> bool" where
  \<comment> \<open>the event begins a query or ends this one\<close>
  "about_query r e \<longleftrightarrow> (case e of MdBegin _ _ _ \<Rightarrow> True | MdDone q _ _ \<Rightarrow> q = r | MdFail q _ \<Rightarrow> q = r)"

lemma other_answers:
  "list_all (\<lambda>e. \<not> about_query (md_reqId s) e) es \<Longrightarrow> foldl (query_step pr t) s es = s"
proof (induction es)
  case (Cons e es)
  then have "query_step pr t s e = s" by (cases e) (auto simp: about_query_def runQuery_done_def runQuery_fail_def)
  with Cons show ?case by simp
qed simp

text \<open>
  The documents on screen, the page and the end of the waiting are those of the last query, whatever answers and failures of earlier
  ones come before or after its own.
\<close>

theorem latest_documents_shown:
  assumes "md_db c \<noteq> []" "md_collection c \<noteq> []" "s1 = query_step pr t s (MdBegin c p n)" "r = md_reqId s1"
    and "list_all (\<lambda>e. \<not> about_query r e) (es @ es')"
  shows "md_busy s1 \<and> md_busy (foldl (query_step pr t) s1 es) \<and>
    foldl (query_step pr t) s1 (es @ MdDone r p res # es') =
      s1\<lparr>md_docs := nullish (mf_documents res) [], md_total := nullish (mf_total res) 0, md_duration := nullish (mf_durationMs res) 0,
         md_page := p, md_busy := False\<rparr>"
proof -
  have before: "foldl (query_step pr t) s1 es = s1" using assms(4,5) by (intro other_answers) simp
  let ?s2 = "runQuery_done r p res s1"
  have "md_reqId ?s2 = r" using assms(4) by (simp add: runQuery_done_def)
  then have after: "foldl (query_step pr t) ?s2 es' = ?s2" using assms(5) by (intro other_answers) simp
  show ?thesis using assms(1-4) before after by (simp add: runQuery_begin_def runQuery_done_def)
qed

text \<open>
  The query at the end of a deletion is the one of the moment at which the deletion was asked for. Its answer is the latest, so with a
  filter that was changed meanwhile the documents of the old filter are shown under the new one.
\<close>

theorem late_deletion_shows_old_filter:
  assumes "md_db c \<noteq> []" "md_collection c \<noteq> []" "doc_confirm_done pr t (DeleteDocument i raw) count c s = (s1, calls)"
    and "s2 = runQuery_done (md_reqId s1) (md_page c) res s1"
  shows "calls = [MdFind (query_spec pr c (md_page c) (md_pageSize c))] \<and> md_docs s2 = nullish (mf_documents res) [] \<and>
    md_filters s2 = md_filters s \<and> md_filterText s2 = md_filterText s \<and>
    (\<forall>r p' res'. r \<le> md_reqId s \<longrightarrow> runQuery_done r p' res' s2 = s2)"
  using assms by (auto simp: doc_confirm_done_def runQuery_begin_def runQuery_done_def)

text \<open>A document that is opened while the save of another one is under way is closed by its end, with all that was typed.\<close>

theorem late_save_closes_other_editor:
  "md_editOpen (fst (handleSaveDocModal_done pr t matched c ((openReplace pr raw s)\<lparr>md_editorText := body\<rparr>))) = None"
  by (simp add: handleSaveDocModal_done_def runQuery_begin_def Let_def)

subsection \<open>The properties at a concrete document\<close>

definition demo_mongo_doc :: js_value where
  "demo_mongo_doc = JObj [(''_id'', JStr ''a''), (''tags'', JArr [JStr ''x'', JNull])]"

definition demo_data :: mongo_data where
  "demo_data = (init_mongo_data ''d'' ''c'' None)\<lparr>md_filterText := json_text (JObj [(''tags'', JStr ''x'')]),
     md_filters := [(''_id'', \<lparr>cf_op = StartsWith, cf_value = '' a ''\<rparr>)]\<rparr>"

lemma demo_mongo_doc_ok: "json_ok pr demo_mongo_doc" "json_ok pr (JObj [(''tags'', JArr [JStr ''x'', JNull])])"
  by (simp_all add: demo_mongo_doc_def put_entry_def array_index_def is_digit_def)

lemma demo_mongo_doc_parsed: "json_parse pr (json_text demo_mongo_doc) = Some (JObj [(''_id'', JStr ''a''), (''tags'', JArr [JStr ''x'', JNull])])"
  using json_parse_text [OF demo_mongo_doc_ok(1)] by (simp only: demo_mongo_doc_def)

theorem statements_name_the_document_witness:
  "\<exists>f. snd (doc_confirm_begin (deleteDoc (\<lambda>_. []) (json_text demo_mongo_doc) demo_data)) = [MdDeleteOne f] \<and> names (\<lambda>_. []) (JStr ''a'') f"
  using statements_name_the_document [OF demo_mongo_doc_parsed, of "JStr ''a''" "\<lambda>_. []"] by simp

theorem no_id_changes_first_document_witness:
  "save_doc_call (\<lambda>_. []) ((openUpdate (\<lambda>_. []) (json_text (JObj [(''n'', JNull)])) demo_data)\<lparr>md_editorText := ''{}''\<rparr>) = [MdUpdateOne ''{}'' ''{}'']"
proof -
  have "json_parse (\<lambda>_. []) (json_text (JObj [(''n'', JNull)])) = Some (JObj [(''n'', JNull)])" by (rule json_parse_text) simp
  from no_id_changes_first_document [OF this] show ?thesis by simp
qed

theorem editor_text_reads_back_witness:
  "json_parse (\<lambda>_. []) (md_editorText (openReplace (\<lambda>_. []) (json_text demo_mongo_doc) demo_data)) = Some (JObj [(''tags'', JArr [JStr ''x'', JNull])])"
  using editor_text_reads_back [OF demo_mongo_doc_parsed, of "\<lambda>_. []"] demo_mongo_doc_ok(2) [of "\<lambda>_. []"] by simp

theorem long_id_names_other_document_witness:
  "\<exists>m. m \<noteq> 2 ^ 53 + 1 \<and> snd (doc_confirm_begin (deleteDoc (\<lambda>_. []) (id_doc (2 ^ 53 + 1)) demo_data)) = [MdDeleteOne (id_doc m)]"
  by (rule long_id_names_other_document) simp_all

theorem combined_filter_reads_back_witness:
  "\<exists>sent conds. combinedFilterJSON (\<lambda>_. []) demo_data = Some sent \<and>
    json_parse (\<lambda>_. []) sent = Some (JObj [(''$and'', JArr [JObj [(''tags'', JStr ''x'')], JObj conds])]) \<and>
    map_of conds ''_id'' = Some (JObj [(''$regex'', JStr ''^a''), (''$options'', JStr ''i'')])"
proof -
  have body: "md_filterText demo_data = json_text (JObj [(''tags'', JStr ''x'')])" by (simp add: demo_data_def del: json_text.simps)
  have "json_parse (\<lambda>_. []) (md_filterText demo_data) = Some (JObj [(''tags'', JStr ''x'')])"
    unfolding body by (rule json_parse_text) simp
  moreover have "trim (md_filterText demo_data) \<notin> {[], ''{}''}" by code_simp
  moreover have "json_ok (\<lambda>_. []) (JObj (buildMongoFilter (\<lambda>_. []) (md_filters demo_data)))"
    by (simp add: demo_data_def buildMongoFilter_def filter_cond_def regex_cond_def put_entry_def array_index_def is_digit_def Let_def)
  moreover have "md_filters demo_data = [(''_id'', \<lparr>cf_op = StartsWith, cf_value = '' a ''\<rparr>)]" by (simp add: demo_data_def)
  moreover have "filter_cond (\<lambda>_. []) \<lparr>cf_op = StartsWith, cf_value = '' a ''\<rparr> = JObj [(''$regex'', JStr ''^a''), (''$options'', JStr ''i'')]"
    by code_simp
  ultimately show ?thesis using combined_filter_reads_back [of demo_data "\<lambda>_. []" "[(''tags'', JStr ''x'')]"] by auto
qed

theorem null_filter_breaks_rendering_witness: "combinedFilterJSON (\<lambda>_. []) (demo_data\<lparr>md_filterText := json_text JNull\<rparr>) = None"
proof (rule null_filter_breaks_rendering)
  show "trim (md_filterText (demo_data\<lparr>md_filterText := json_text JNull\<rparr>)) \<notin> {[], ''{}''}" by code_simp
  show "json_parse (\<lambda>_. []) (md_filterText (demo_data\<lparr>md_filterText := json_text JNull\<rparr>)) = Some JNull"
    using json_parse_text [of "\<lambda>_. []" JNull] by (simp del: json_text.simps)
qed

theorem columns_are_the_fields_witness:
  "hd (dynamicColumns [[(''n'', JNull), (''_id'', JNull), (''__idx'', JNull)]]) = ''_id''"
  using columns_are_the_fields [OF refl, of "[[(''n'', JNull), (''_id'', JNull), (''__idx'', JNull)]]"] by simp

theorem latest_documents_shown_witness:
  "md_docs (foldl (query_step (\<lambda>_. []) (\<lambda>k _. k)) (query_step (\<lambda>_. []) (\<lambda>k _. k) demo_data (MdBegin demo_data 1 50))
     ([MdFail 0 NoError] @ MdDone 1 1 \<lparr>mf_documents = Some [''x''], mf_count = 1, mf_total = Some 1, mf_durationMs = None\<rparr> #
      [MdDone 0 1 \<lparr>mf_documents = None, mf_count = 0, mf_total = None, mf_durationMs = None\<rparr>])) = [''x'']"
proof -
  have one: "md_reqId (query_step (\<lambda>_. []) (\<lambda>k _. k) demo_data (MdBegin demo_data 1 50)) = 1"
    by (simp add: runQuery_begin_def demo_data_def init_mongo_data_def)
  have "list_all (\<lambda>e. \<not> about_query 1 e) ([MdFail 0 NoError] @
      [MdDone 0 1 \<lparr>mf_documents = None, mf_count = 0, mf_total = None, mf_durationMs = None\<rparr>])"
    by (simp add: about_query_def)
  from latest_documents_shown [OF _ _ refl one [symmetric] this, THEN conjunct2, THEN conjunct2,
      of "\<lparr>mf_documents = Some [''x''], mf_count = 1, mf_total = Some 1, mf_durationMs = None\<rparr>"]
  show ?thesis by (simp add: demo_data_def init_mongo_data_def nullish_def)
qed

theorem late_deletion_shows_old_filter_witness:
  "\<exists>s2 :: mongo_data. md_docs s2 = [''x''] \<and> md_filters s2 = [] \<and> (\<exists>calls. snd (doc_confirm_done (\<lambda>_. []) (\<lambda>k _. k) (DeleteDocument [] []) 1 demo_data
       (demo_data\<lparr>md_filters := []\<rparr>)) = [MdFind (query_spec (\<lambda>_. []) demo_data (md_page demo_data) (md_pageSize demo_data))])"
proof -
  let ?after = "doc_confirm_done (\<lambda>_. []) (\<lambda>k _. k) (DeleteDocument [] []) 1 demo_data (demo_data\<lparr>md_filters := []\<rparr>)"
  have db: "md_db demo_data \<noteq> []" "md_collection demo_data \<noteq> []" by (simp_all add: demo_data_def init_mongo_data_def)
  obtain s1 calls where e: "?after = (s1, calls)" by fastforce
  let ?res = "\<lparr>mf_documents = Some [''x''], mf_count = 1, mf_total = Some 1, mf_durationMs = None\<rparr>"
  have r: "calls = [MdFind (query_spec (\<lambda>_. []) demo_data (md_page demo_data) (md_pageSize demo_data))] \<and>
      md_docs (runQuery_done (md_reqId s1) (md_page demo_data) ?res s1) = [''x''] \<and>
      md_filters (runQuery_done (md_reqId s1) (md_page demo_data) ?res s1) = []"
    using late_deletion_shows_old_filter [OF db e refl, of ?res] by (simp add: nullish_def)
  show ?thesis unfolding e
    by (rule exI [of _ "runQuery_done (md_reqId s1) (md_page demo_data) ?res s1"]) (use r in simp)
qed

end
