(* ===== verification/MongoQuery.thy ===== *)
theory MongoQuery
  imports MongoData Csv
begin

section \<open>Commands and exports of MongoDB\<close>

text \<open>
  \<open>pages/mongo/MqlEditor.tsx\<close>: the editor of commands, what it makes of the text before it sends it, and the table of a result; and
  \<open>pages/mongo/IoModal.tsx\<close>: the export of documents as JSON and CSV, against the reader of \<open>Csv\<close>.
\<close>

subsection \<open>The editor\<close>

datatype mql_view = MqlTable | MqlJson | MqlExplain

record mql_editor =
  ml_db :: string
  ml_selectedColl :: string
  ml_code :: string
  ml_busy :: bool
  ml_error :: string
  ml_duration :: int
  ml_rawResult :: string
  ml_parsedResult :: js_value
  ml_resultMode :: mql_view
  ml_explainText :: string
  ml_messages :: "string list"

datatype mql_call = MqlRunCommand string string | MqlChangeDb string

datatype mql_template = FindTpl | AggregateTpl | CountTpl | DistinctTpl | ServerStatusTpl

definition text_lines :: "string list \<Rightarrow> string" where
  "text_lines = join [CHR 0x0A]"

definition key_text_of :: "string \<Rightarrow> string" where
  \<comment> \<open>a name in double quotes\<close>
  "key_text_of s = [CHR 0x22] @ s @ [CHR 0x22]"

definition template_text :: "mql_template \<Rightarrow> string \<Rightarrow> string" where
  \<comment> \<open>the one occurrence of users in a template is \<open>coll\<close>\<close>
  "template_text k coll =
     (case k of
        FindTpl \<Rightarrow> text_lines [''{'', ''  '' @ key_text_of ''find'' @ '': '' @ key_text_of coll @ '','', ''  '' @ key_text_of ''filter'' @ '': {},'',
          ''  '' @ key_text_of ''sort'' @ '': { '' @ key_text_of ''_id'' @ '': -1 },'', ''  '' @ key_text_of ''limit'' @ '': 50'', ''}'']
      | AggregateTpl \<Rightarrow> text_lines [''{'', ''  '' @ key_text_of ''aggregate'' @ '': '' @ key_text_of coll @ '','', ''  '' @ key_text_of ''pipeline'' @ '': ['',
          ''    { '' @ key_text_of ''$match'' @ '': {} },'', ''    { '' @ key_text_of ''$limit'' @ '': 50 }'', ''  ],'',
          ''  '' @ key_text_of ''cursor'' @ '': {}'', ''}'']
      | CountTpl \<Rightarrow> text_lines [''{'', ''  '' @ key_text_of ''count'' @ '': '' @ key_text_of coll @ '','', ''  '' @ key_text_of ''query'' @ '': {}'', ''}'']
      | DistinctTpl \<Rightarrow> text_lines [''{'', ''  '' @ key_text_of ''distinct'' @ '': '' @ key_text_of coll @ '','',
          ''  '' @ key_text_of ''key'' @ '': '' @ key_text_of ''status'' @ '','', ''  '' @ key_text_of ''query'' @ '': {}'', ''}'']
      | ServerStatusTpl \<Rightarrow> text_lines [''{'', ''  '' @ key_text_of ''serverStatus'' @ '': 1'', ''}''])"

definition choose_template :: "mql_template \<Rightarrow> mql_editor \<Rightarrow> mql_editor" where
  "choose_template k s = s\<lparr>ml_code := template_text k (str_or (ml_selectedColl s) ''users'')\<rparr>"

definition init_mql_editor :: "string \<Rightarrow> string list \<Rightarrow> mql_editor" where
  "init_mql_editor currentDb databases =
     \<lparr>ml_db = str_or currentDb (opt_or (case databases of [] \<Rightarrow> None | d # _ \<Rightarrow> Some d) ''admin''), ml_selectedColl = [],
      ml_code = template_text FindTpl ''users'', ml_busy = False, ml_error = [], ml_duration = 0, ml_rawResult = [],
      ml_parsedResult = JNull, ml_resultMode = MqlJson, ml_explainText = [], ml_messages = []\<rparr>"

definition mql_collections :: "(string \<Rightarrow> string list option) \<Rightarrow> mql_editor \<Rightarrow> string list" where
  "mql_collections collectionsMap s = nullish (collectionsMap (ml_db s)) []"

definition db_effect :: "string \<Rightarrow> mql_editor \<Rightarrow> mql_editor" where
  \<comment> \<open>when \<open>currentDb\<close> of the page has changed\<close>
  "db_effect currentDb s = (if currentDb \<noteq> [] \<and> currentDb \<noteq> ml_db s then s\<lparr>ml_db := currentDb\<rparr> else s)"

definition coll_effect :: "(string \<Rightarrow> string list option) \<Rightarrow> mql_editor \<Rightarrow> mql_editor" where
  "coll_effect collectionsMap s =
     (case mql_collections collectionsMap s of
        [] \<Rightarrow> s
      | c # _ \<Rightarrow> if ml_selectedColl s = [] then s\<lparr>ml_selectedColl := c\<rparr> else s)"

definition choose_db :: "string \<Rightarrow> mql_editor \<Rightarrow> mql_editor \<times> mql_call list" where
  "choose_db db s = (s\<lparr>ml_db := db\<rparr>, [MqlChangeDb db])"

definition formatCode :: "(js_double \<Rightarrow> string) \<Rightarrow> translator \<Rightarrow> mql_editor \<Rightarrow> mql_editor" where
  "formatCode pr t s =
     (case json_parse pr (ml_code s) of
        Some obj \<Rightarrow> s\<lparr>ml_code := json_indent 2 0 obj, ml_messages := ml_messages s @ [t ''mongo.mql.jsonFormatted'' []]\<rparr>
      | None \<Rightarrow> s\<lparr>ml_messages := ml_messages s @ [t ''mongo.mql.invalidJson'' []]\<rparr>)"

subsection \<open>Running a command\<close>

definition commandKeys :: "string list" where
  "commandKeys = [''find'', ''aggregate'', ''count'', ''distinct'', ''delete'', ''insert'', ''update'', ''serverStatus'', ''ping'',
     ''collStats'', ''buildInfo'', ''drop'']"

definition js_keys :: "js_value \<Rightarrow> string list" where
  \<comment> \<open>\<open>Object.keys(v)\<close>; the keys of a text are numbers, which are no commands\<close>
  "js_keys v = map fst (js_entries v)"

definition wrap_filter :: "string \<Rightarrow> js_value \<Rightarrow> js_value" where
  "wrap_filter coll cmd = JObj [(''find'', JStr coll), (''filter'', cmd), (''limit'', JNum (show_nat 50))]"

definition wrap_pipeline :: "string \<Rightarrow> js_value \<Rightarrow> js_value" where
  "wrap_pipeline coll cmd = JObj [(''aggregate'', JStr coll), (''pipeline'', cmd), (''cursor'', JObj [])]"

definition is_array :: "js_value \<Rightarrow> bool" where
  "is_array v \<longleftrightarrow> (case v of JArr _ \<Rightarrow> True | _ \<Rightarrow> False)"

definition mql_command :: "translator \<Rightarrow> string \<Rightarrow> string \<Rightarrow> js_value option \<Rightarrow> string + js_value" where
  \<comment> \<open>of the parsed text; \<open>err\<close> is the message of the exception where it throws\<close>
  "mql_command t coll err parsed =
     (case parsed of
        None \<Rightarrow> Inl (t ''mongo.mql.syntaxError'' [(''error'', err)])
      | Some cmd \<Rightarrow>
          if is_array cmd then (if coll = [] then Inl (t ''mongo.mql.pipelineNeedColl'' []) else Inr (wrap_pipeline coll cmd))
          else if is_nullish cmd then Inl err
          else if set (js_keys cmd) \<inter> set commandKeys = {} \<and> coll \<noteq> [] then Inr (wrap_filter coll cmd)
          else Inr cmd)"

definition handleRun_begin :: "(js_double \<Rightarrow> string) \<Rightarrow> translator \<Rightarrow> string \<Rightarrow> mql_editor \<Rightarrow> mql_editor \<times> mql_call list" where
  "handleRun_begin pr t err s =
     (if ml_db s = [] then (s\<lparr>ml_messages := ml_messages s @ [t ''mongo.mql.selectDbWarn'' []]\<rparr>, [])
      else case mql_command t (ml_selectedColl s) err (json_parse pr (trim (ml_code s))) of
             Inl e \<Rightarrow> (s\<lparr>ml_explainText := [], ml_error := errorMessage t (ErrObject e), ml_busy := False\<rparr>, [])
           | Inr cmd \<Rightarrow> (s\<lparr>ml_busy := True, ml_error := [], ml_explainText := []\<rparr>, [MqlRunCommand (ml_db s) (json_text cmd)]))"

definition opt_field :: "js_value \<Rightarrow> string \<Rightarrow> js_value" where
  \<comment> \<open>\<open>v?.name\<close>\<close>
  "opt_field v name = nullish (js_field v name) JUndef"

definition parsed_result :: "(js_double \<Rightarrow> string) \<Rightarrow> string \<Rightarrow> js_value" where
  "parsed_result pr resStr = nullish (json_parse pr resStr) (JStr resStr)"

definition first_batch :: "js_value \<Rightarrow> js_value" where
  "first_batch v = opt_field (opt_field v ''cursor'') ''firstBatch''"

definition handleRun_done :: "(js_double \<Rightarrow> string) \<Rightarrow> int \<Rightarrow> string \<Rightarrow> mql_editor \<Rightarrow> mql_editor" where
  \<comment> \<open>after \<open>cost\<close> milliseconds\<close>
  "handleRun_done pr cost resStr s =
     s\<lparr>ml_duration := cost, ml_rawResult := resStr, ml_parsedResult := parsed_result pr resStr,
       ml_resultMode := (if array_or_empty (first_batch (parsed_result pr resStr)) \<noteq> [] then MqlTable else MqlJson), ml_busy := False\<rparr>"

definition mql_failed :: "translator \<Rightarrow> js_error \<Rightarrow> mql_editor \<Rightarrow> mql_editor" where
  "mql_failed t e s = s\<lparr>ml_error := errorMessage t e, ml_busy := False\<rparr>"

definition mql_explain_begin :: "(js_double \<Rightarrow> string) \<Rightarrow> translator \<Rightarrow> js_error \<Rightarrow> mql_editor \<Rightarrow> mql_editor \<times> mql_call list" where
  \<comment> \<open>\<open>e\<close> is the exception where the text is no JSON\<close>
  "mql_explain_begin pr t e s =
     (if ml_db s = [] then (s, [])
      else case json_parse pr (trim (ml_code s)) of
             None \<Rightarrow> (mql_failed t e s, [])
           | Some cmd \<Rightarrow> (s\<lparr>ml_busy := True, ml_error := []\<rparr>,
               [MqlRunCommand (ml_db s) (json_text (JObj [(''explain'', cmd), (''verbosity'', JStr ''executionStats'')]))]))"

definition mql_explain_done :: "(js_double \<Rightarrow> string) \<Rightarrow> int \<Rightarrow> string \<Rightarrow> mql_editor \<Rightarrow> mql_editor" where
  "mql_explain_done pr cost resStr s =
     s\<lparr>ml_duration := cost, ml_explainText := pretty_doc pr resStr, ml_resultMode := MqlExplain, ml_busy := False\<rparr>"

subsection \<open>The table of a result\<close>

definition resultRows :: "mql_editor \<Rightarrow> js_value list" where
  "resultRows s =
     (let v = ml_parsedResult s in
      if \<not> js_truthy v then []
      else if is_array v then array_or_empty v
      else if is_array (first_batch v) then array_or_empty (first_batch v)
      else array_or_empty (opt_field v ''documents''))"

definition id_first :: "string list \<Rightarrow> string list" where
  "id_first keys = (if ''_id'' \<in> set keys then ''_id'' # remove1 ''_id'' keys else keys)"

definition object_keys :: "js_value list \<Rightarrow> string list" where
  \<comment> \<open>of the values that are objects, each key once\<close>
  "object_keys vs = foldl add_new [] (concat (map js_keys vs))"

definition resultCols :: "js_value list \<Rightarrow> string list" where
  \<comment> \<open>the keys of the columns, after that of the number\<close>
  "resultCols rows = (if rows = [] then [] else ''__idx'' # id_first (object_keys rows))"

definition result_cell :: "js_value \<Rightarrow> string" where
  "result_cell v =
     (case v of JUndef \<Rightarrow> ''null'' | JNull \<Rightarrow> ''null'' | JArr _ \<Rightarrow> json_text v | JObj _ \<Rightarrow> json_text v | _ \<Rightarrow> js_string v)"

subsection \<open>Export\<close>

datatype export_format = ExportJson | ExportExtended | ExportCsv

datatype export_scope = ScopeCurrent | ScopeAll

datatype export_action = ExportDownload | ExportCopy

record mongo_export =
  me_coll :: string
  me_format :: export_format
  me_scope :: export_scope
  me_filename :: string
  me_busy :: bool
  me_error :: string
  me_open :: bool
  me_messages :: "string list"

datatype export_call = ExportFind mongo_query_spec | DownloadText string string string | CopyExport string

definition init_mongo_export :: "string \<Rightarrow> mongo_export" where
  "init_mongo_export coll =
     \<lparr>me_coll = coll, me_format = ExportJson, me_scope = ScopeCurrent, me_filename = coll @ ''_export'', me_busy = False, me_error = [],
      me_open = True, me_messages = []\<rparr>"

definition doc_field :: "js_value \<Rightarrow> string \<Rightarrow> js_value" where
  \<comment> \<open>\<open>doc?.[h]\<close> of a document\<close>
  "doc_field v h = nullish (map_of (js_entries v) h) JUndef"

definition double_quotes :: "string \<Rightarrow> string" where
  "double_quotes s = [CHR 0x22] @ replace_char (CHR 0x22) [CHR 0x22, CHR 0x22] s @ [CHR 0x22]"

definition value_text :: "js_value \<Rightarrow> string" where
  "value_text v = (case v of JUndef \<Rightarrow> [] | JNull \<Rightarrow> [] | JArr _ \<Rightarrow> json_text v | JObj _ \<Rightarrow> json_text v | _ \<Rightarrow> js_string v)"

definition escapeCsv :: "js_value \<Rightarrow> string" where
  "escapeCsv v =
     (let s = value_text v in
      if \<exists>c\<in>{CHR 0x22, CHR '','', CHR 0x0A, CHR 0x0D}. c \<in> set s then double_quotes s else s)"

definition convertDocsToCsv :: "js_value list \<Rightarrow> string" where
  "convertDocsToCsv docs =
     (if docs = [] then []
      else let headers = id_first (object_keys docs) in
        join [CHR 0x0A] (join '','' (map double_quotes headers) #
          map (\<lambda>doc. join '','' (map (\<lambda>h. escapeCsv (doc_field doc h)) headers)) docs))"

definition fetchExportDocs :: "string \<Rightarrow> string \<Rightarrow> string list \<Rightarrow> mongo_export \<Rightarrow> string list + export_call" where
  \<comment> \<open>the documents on screen, or the query that answers them\<close>
  "fetchExportDocs db filterText currentDocs s =
     (case me_scope s of
        ScopeCurrent \<Rightarrow> Inl currentDocs
      | ScopeAll \<Rightarrow> Inr (ExportFind \<lparr>mq_database = db, mq_collection = me_coll s, mq_filter = str_or (trim filterText) ''{}'',
          mq_projection = [], mq_sort = [], mq_limit = 10000, mq_skip = 0, mq_hint = [], mq_collation = []\<rparr>))"

definition handleExport_start :: "mongo_export \<Rightarrow> mongo_export" where
  "handleExport_start s = s\<lparr>me_busy := True, me_error := []\<rparr>"

definition export_text :: "(js_double \<Rightarrow> string) \<Rightarrow> export_format \<Rightarrow> string list \<Rightarrow> string" where
  "export_text pr f rawDocs =
     (let parsed = map (\<lambda>s. nullish (json_parse pr s) (JStr s)) rawDocs in
      case f of
        ExportJson \<Rightarrow> json_indent 2 0 (JArr parsed)
      | ExportExtended \<Rightarrow> join [CHR 0x0A] (map json_text parsed)
      | ExportCsv \<Rightarrow> convertDocsToCsv parsed)"

definition handleExport_docs ::
  "(js_double \<Rightarrow> string) \<Rightarrow> translator \<Rightarrow> export_action \<Rightarrow> bool \<Rightarrow> string list \<Rightarrow> mongo_export \<Rightarrow> mongo_export \<times> export_call list" where
  \<comment> \<open>\<open>copied\<close> is what \<open>copyText\<close> answers; the dialog closes by \<open>onClose\<close>\<close>
  "handleExport_docs pr t action copied rawDocs s =
     (if rawDocs = [] then (s\<lparr>me_messages := me_messages s @ [t ''mongo.io.noData'' []], me_busy := False\<rparr>, [])
      else
        let body = export_text pr (me_format s) rawDocs; count = [(''count'', show_nat (length rawDocs))];
            ext = (if me_format s = ExportCsv then ''csv'' else ''json'');
            mime = (if me_format s = ExportCsv then ''text/csv;charset=utf-8;'' else ''application/json;charset=utf-8;'') in
        case action of
          ExportDownload \<Rightarrow> (s\<lparr>me_messages := me_messages s @ [t ''mongo.io.exportedDocs'' count], me_open := False, me_busy := False\<rparr>,
            [DownloadText (str_or (me_filename s) (me_coll s) @ ''.'' @ ext) body mime])
        | ExportCopy \<Rightarrow> (s\<lparr>me_messages := me_messages s @ (if copied then [t ''mongo.io.copiedDocs'' count] else []), me_open := False,
            me_busy := False\<rparr>, [CopyExport body]))"

definition handleExport_failed :: "translator \<Rightarrow> js_error \<Rightarrow> mongo_export \<Rightarrow> mongo_export" where
  "handleExport_failed t e s = s\<lparr>me_error := errorMessage t e, me_busy := False\<rparr>"

subsection \<open>What the server is sent\<close>

text \<open>
  The command that is sent reads as what the editor made of the text: an object with a command in it is sent as it is, whatever else it
  has; another object becomes the filter of a find, and an array the pipeline of an aggregation, on the collection that is selected.
\<close>

theorem command_reads_back:
  assumes "ml_db s \<noteq> []" "ml_selectedColl s \<noteq> []" "json_parse pr (trim (ml_code s)) = Some v" "json_ok pr v" "v \<noteq> JNull"
  shows "\<exists>sent. snd (handleRun_begin pr t err s) = [MqlRunCommand (ml_db s) sent] \<and>
    json_parse pr sent = Some
      (if is_array v then wrap_pipeline (ml_selectedColl s) v
       else if set (js_keys v) \<inter> set commandKeys = {} then wrap_filter (ml_selectedColl s) v else v)"
proof -
  let ?cmd = "if is_array v then wrap_pipeline (ml_selectedColl s) v
     else if set (js_keys v) \<inter> set commandKeys = {} then wrap_filter (ml_selectedColl s) v else v"
  have "v \<noteq> JUndef" using assms(4) by auto
  then have "mql_command t (ml_selectedColl s) err (Some v) = Inr ?cmd"
    using assms(2,5) by (simp add: mql_command_def is_nullish_def)
  moreover have "json_ok pr (wrap_filter (ml_selectedColl s) v)" "json_ok pr (wrap_pipeline (ml_selectedColl s) v)"
    using assms(4) json_nat_ok [of 50 pr]
    by (simp_all add: wrap_filter_def wrap_pipeline_def put_entry_def array_index_def is_digit_def del: json_ok.simps(4))
  then have "json_ok pr ?cmd" using assms(4) by simp
  then have "json_parse pr (json_text ?cmd) = Some ?cmd" by (rule json_parse_text)
  ultimately show ?thesis using assms(1,3) by (simp add: handleRun_begin_def)
qed

text \<open>
  The collection that was selected stays selected when the database changes, also when the new database has no such collection, so the
  next filter is looked for in a collection of the other database.
\<close>

theorem collection_of_other_database:
  assumes "ml_selectedColl s \<noteq> []"
  shows "ml_selectedColl (coll_effect collectionsMap (fst (choose_db db s))) = ml_selectedColl s \<and>
    ml_db (coll_effect collectionsMap (fst (choose_db db s))) = db"
  using assms by (simp add: coll_effect_def choose_db_def split: list.split)

subsection \<open>The CSV reads back\<close>

lemma csv_doubled:
  assumes "csv_end s"
  shows "csv_read CsvQuoted f r rs (replace_char (CHR 0x22) [CHR 0x22, CHR 0x22] w @ CHR 0x22 # s) = csv_read CsvAfter (rev w @ f) r rs s"
proof (induction w arbitrary: f)
  case (Cons c w)
  then show ?case by (cases "c = CHR 0x22") simp_all
qed simp

lemma double_quotes_read: "csv_end s \<Longrightarrow> csv_read CsvPlain [] r rs (double_quotes w @ s) = csv_next (w # r) rs s"
  using csv_doubled [of s "[]" r rs w] by (cases s) (auto simp: double_quotes_def csv_next_def csv_end_def)

interpretation mongo_header: csv_field double_quotes "\<lambda>h. h" "\<lambda>_. True"
  by unfold_locales (simp add: double_quotes_read)

interpretation mongo_cells: csv_field escapeCsv value_text "\<lambda>_. True"
proof
  fix v s r rs
  assume s: "csv_end s"
  show "csv_read CsvPlain [] r rs (escapeCsv v @ s) = csv_next (value_text v # r) rs s"
  proof (cases "\<exists>c\<in>{CHR 0x22, CHR '','', CHR 0x0A, CHR 0x0D}. c \<in> set (value_text v)")
    case True
    then have "escapeCsv v = double_quotes (value_text v)" by (simp only: escapeCsv_def Let_def if_True)
    then show ?thesis by (simp add: double_quotes_read [OF s])
  next
    case False
    then have "escapeCsv v = value_text v" by (simp only: escapeCsv_def Let_def if_False)
    moreover have "plain_field (value_text v)" using False by (auto simp: plain_field_def)
    ultimately show ?thesis by (simp add: csv_header.field_read s)
  qed
qed

text \<open>
  The CSV of any documents reads back as their fields, \<open>_id\<close> first, and for each document the texts of its values: quotes, commas and
  line breaks in names and values included.
\<close>

theorem documents_csv_reads_back:
  assumes "docs \<noteq> []" "object_keys docs \<noteq> []"
  shows "csv_read CsvPlain [] [] [] (convertDocsToCsv docs) =
    Some (id_first (object_keys docs) # map (\<lambda>doc. map (\<lambda>h. value_text (doc_field doc h)) (id_first (object_keys docs))) docs)"
proof -
  let ?hs = "id_first (object_keys docs)"
  have "?hs \<noteq> []" using assms(2) by (simp add: id_first_def)
  have shape: "convertDocsToCsv docs = join '','' (map double_quotes ?hs) @
      CHR 0x0A # join [CHR 0x0A] (map (\<lambda>xs. join '','' (map escapeCsv xs)) (map (\<lambda>doc. map (doc_field doc) ?hs) docs))"
    using assms(1) by (simp add: convertDocsToCsv_def join_Cons Let_def comp_def)
  show ?thesis
    unfolding shape
    using mongo_header.record_read [of ?hs "CHR 0x0A # _" "[]" "[]"] \<open>?hs \<noteq> []\<close> assms(1)
      mongo_cells.lines_read [of "map (\<lambda>doc. map (doc_field doc) ?hs) docs" "[?hs]"]
    by (simp add: csv_next_def comp_def)
qed

theorem documents_csv_reads_back_witness:
  "csv_read CsvPlain [] [] [] (convertDocsToCsv [JObj [(''n'', JStr (''5'' @ [CHR 0x22] @ '', 6''))], JObj [(''_id'', JNull)]]) =
    Some [[''_id'', ''n''], [[], ''5'' @ [CHR 0x22] @ '', 6''], [[], []]]"
  using documents_csv_reads_back [of "[JObj [(''n'', JStr (''5'' @ [CHR 0x22] @ '', 6''))], JObj [(''_id'', JNull)]]"]
  by (simp add: object_keys_def js_keys_def js_entries_def add_new_def id_first_def doc_field_def value_text_def nullish_def)

definition demo_mql :: mql_editor where
  "demo_mql = (init_mql_editor ''shop'' [])\<lparr>ml_selectedColl := ''users'', ml_code := json_text (JObj [(''dbStats'', JBool True)])\<rparr>"

text \<open>
  A command that is not in the list, such as \<open>dbStats\<close>, is taken for a filter.
\<close>

theorem command_reads_back_witness:
  "\<exists>sent. snd (handleRun_begin (\<lambda>_. []) (\<lambda>k _. k) [] demo_mql) = [MqlRunCommand ''shop'' sent] \<and>
    json_parse (\<lambda>_. []) sent = Some (wrap_filter ''users'' (JObj [(''dbStats'', JBool True)]))"
proof -
  have code: "trim (ml_code demo_mql) = json_text (JObj [(''dbStats'', JBool True)])" by code_simp
  have "json_parse (\<lambda>_. []) (trim (ml_code demo_mql)) = Some (JObj [(''dbStats'', JBool True)])"
    unfolding code by (rule json_parse_text) simp
  from command_reads_back [OF _ _ this, of "\<lambda>k _. k" "[]"] show ?thesis
    by (simp add: demo_mql_def init_mql_editor_def is_array_def js_keys_def js_entries_def commandKeys_def str_or_def)
qed

theorem collection_of_other_database_witness:
  "ml_selectedColl (coll_effect (\<lambda>_. Some [''a'']) (fst (choose_db ''other'' demo_mql))) = ''users''"
  using collection_of_other_database [of demo_mql "\<lambda>_. Some [''a'']" "''other''"] by (simp add: demo_mql_def)

end
