(* ===== verification/MongoUsers.thy ===== *)
theory MongoUsers
  imports JsError "HOL-Library.Sublist"
begin

section \<open>Users of a MongoDB server\<close>

text \<open>
  \<open>pages/mongo/UsersTab.tsx\<close>: the list of users of a database, a new user, the password and the roles of a user. Handlers are split at
  their awaits; one that loads the users again at its end does so for the database it has captured.
\<close>

record mongo_role =
  rl_role :: string
  rl_db :: string

record mongo_user =
  us_user :: string
  us_db :: string
  us_roles :: "mongo_role list option"

record mongo_users =
  mu_selectedDb :: string
  mu_searchQuery :: string
  mu_users :: "mongo_user list"
  mu_loading :: bool
  mu_error :: string
  mu_createOpen :: bool
  mu_newUsername :: string
  mu_newPassword :: string
  mu_newUserDb :: string
  mu_newRoles :: "mongo_role list"
  mu_createBusy :: bool
  mu_createMsg :: string
  mu_pwdUser :: "mongo_user option" \<comment> \<open>the dialog is open when it has a user\<close>
  mu_newPwd :: string
  mu_pwdBusy :: bool
  mu_rolesUser :: "mongo_user option"
  mu_roles :: "mongo_role list"
  mu_rolesBusy :: bool
  mu_messages :: "string list"

datatype users_call =
    UsersOf string
  | CreateUser string string string "mongo_role list"
  | UpdatePassword string string string
  | UpdateRoles string string "mongo_role list"
  | DropUser string string
  | CopyUri string

definition read_write :: "string \<Rightarrow> mongo_role" where
  "read_write db = \<lparr>rl_role = ''readWrite'', rl_db = str_or db ''admin''\<rparr>"

definition init_mongo_users :: "string \<Rightarrow> mongo_users" where
  "init_mongo_users currentDb =
     (let db = str_or currentDb ''admin'' in
      \<lparr>mu_selectedDb = db, mu_searchQuery = [], mu_users = [], mu_loading = False, mu_error = [], mu_createOpen = False,
       mu_newUsername = [], mu_newPassword = [], mu_newUserDb = db, mu_newRoles = [read_write db], mu_createBusy = False,
       mu_createMsg = [], mu_pwdUser = None, mu_newPwd = [], mu_pwdBusy = False, mu_rolesUser = None, mu_roles = [],
       mu_rolesBusy = False, mu_messages = []\<rparr>)"

definition users_say :: "string \<Rightarrow> mongo_users \<Rightarrow> mongo_users" where
  "users_say m s = s\<lparr>mu_messages := mu_messages s @ [m]\<rparr>"

definition loadUsers_of :: "string \<Rightarrow> mongo_users \<Rightarrow> mongo_users \<times> users_call list" where
  \<comment> \<open>\<open>loadUsers\<close> of the render in which \<open>db\<close> was selected\<close>
  "loadUsers_of db s = (s\<lparr>mu_loading := True, mu_error := []\<rparr>, [UsersOf db])"

definition loadUsers_begin :: "mongo_users \<Rightarrow> mongo_users \<times> users_call list" where
  "loadUsers_begin s = loadUsers_of (mu_selectedDb s) s"

definition loadUsers_listed :: "mongo_user list option \<Rightarrow> mongo_users \<Rightarrow> mongo_users" where
  "loadUsers_listed res s = s\<lparr>mu_users := nullish res [], mu_loading := False\<rparr>"

definition loadUsers_failed :: "translator \<Rightarrow> js_error \<Rightarrow> mongo_users \<Rightarrow> mongo_users" where
  "loadUsers_failed t e s = s\<lparr>mu_error := errorMessage t e, mu_loading := False\<rparr>"

definition select_users_db :: "string \<Rightarrow> mongo_users \<Rightarrow> mongo_users \<times> users_call list" where
  \<comment> \<open>with the effect that follows it\<close>
  "select_users_db db s = loadUsers_begin (s\<lparr>mu_selectedDb := db\<rparr>)"

definition user_matches :: "string \<Rightarrow> mongo_user \<Rightarrow> bool" where
  "user_matches q u \<longleftrightarrow>
     includes_str (to_lower (us_user u)) q \<or> includes_str (to_lower (us_db u)) q \<or>
     (case us_roles u of
        Some rs \<Rightarrow> \<exists>r\<in>set rs. includes_str (to_lower (rl_role r)) q \<or> includes_str (to_lower (rl_db r)) q
      | None \<Rightarrow> False)"

definition filteredUsers :: "mongo_users \<Rightarrow> mongo_user list" where
  "filteredUsers s =
     (if trim (mu_searchQuery s) = [] then mu_users s else filter (user_matches (to_lower (mu_searchQuery s))) (mu_users s))"

definition open_create_user :: "mongo_users \<Rightarrow> mongo_users" where
  "open_create_user s =
     s\<lparr>mu_newUserDb := str_or (mu_selectedDb s) ''admin'', mu_newRoles := [read_write (mu_selectedDb s)], mu_createOpen := True,
       mu_createMsg := []\<rparr>"

definition open_first_user :: "mongo_users \<Rightarrow> mongo_users" where
  \<comment> \<open>the button that is shown when there are no users\<close>
  "open_first_user s = s\<lparr>mu_newUserDb := str_or (mu_selectedDb s) ''admin'', mu_createOpen := True\<rparr>"

definition cancel_create_user :: "mongo_users \<Rightarrow> mongo_users" where
  "cancel_create_user s = (if mu_createBusy s then s else s\<lparr>mu_createOpen := False\<rparr>)"

definition handleCreateUser_begin :: "translator \<Rightarrow> mongo_users \<Rightarrow> mongo_users \<times> users_call list" where
  "handleCreateUser_begin t s =
     (if trim (mu_newUsername s) = [] \<or> trim (mu_newPassword s) = [] then (s\<lparr>mu_createMsg := t ''mongo.users.reqUserPwd'' []\<rparr>, [])
      else if mu_newRoles s = [] then (s\<lparr>mu_createMsg := t ''mongo.users.reqRole'' []\<rparr>, [])
      else (s\<lparr>mu_createBusy := True, mu_createMsg := []\<rparr>,
            [CreateUser (trim (mu_newUsername s)) (trim (mu_newPassword s)) (str_or (mu_newUserDb s) ''admin'') (mu_newRoles s)]))"

definition handleCreateUser_done :: "translator \<Rightarrow> string \<Rightarrow> string \<Rightarrow> mongo_users \<Rightarrow> mongo_users \<times> users_call list" where
  \<comment> \<open>\<open>name\<close> and \<open>db\<close> were captured\<close>
  "handleCreateUser_done t name db s =
     (let (s1, calls) = loadUsers_of db (users_say (t ''mongo.users.userCreated'' [(''name'', name)])
            (s\<lparr>mu_createOpen := False, mu_newUsername := [], mu_newPassword := []\<rparr>)) in
      (s1\<lparr>mu_createBusy := False\<rparr>, calls))"

definition handleCreateUser_failed :: "translator \<Rightarrow> js_error \<Rightarrow> mongo_users \<Rightarrow> mongo_users" where
  "handleCreateUser_failed t e s = s\<lparr>mu_createMsg := errorMessage t e, mu_createBusy := False\<rparr>"

definition open_pwd :: "mongo_user \<Rightarrow> mongo_users \<Rightarrow> mongo_users" where
  "open_pwd u s = s\<lparr>mu_pwdUser := Some u, mu_newPwd := []\<rparr>"

definition close_pwd :: "mongo_users \<Rightarrow> mongo_users" where
  "close_pwd s = s\<lparr>mu_pwdUser := None, mu_newPwd := []\<rparr>"

definition cancel_pwd :: "mongo_users \<Rightarrow> mongo_users" where
  "cancel_pwd s = (if mu_pwdBusy s then s else close_pwd s)"

definition handleUpdatePassword_begin :: "translator \<Rightarrow> mongo_users \<Rightarrow> mongo_users \<times> users_call list" where
  "handleUpdatePassword_begin t s =
     (case mu_pwdUser s of
        Some u \<Rightarrow>
          if trim (mu_newPwd s) = [] then (users_say (t ''mongo.users.reqNewPwd'' []) s, [])
          else (s\<lparr>mu_pwdBusy := True\<rparr>, [UpdatePassword (us_user u) (us_db u) (trim (mu_newPwd s))])
      | None \<Rightarrow> (users_say (t ''mongo.users.reqNewPwd'' []) s, []))"

definition handleUpdatePassword_done :: "translator \<Rightarrow> mongo_user \<Rightarrow> mongo_users \<Rightarrow> mongo_users" where
  "handleUpdatePassword_done t u s =
     (close_pwd (users_say (t ''mongo.users.pwdUpdated'' [(''name'', us_user u)]) s))\<lparr>mu_pwdBusy := False\<rparr>"

definition handleUpdatePassword_failed :: "translator \<Rightarrow> js_error \<Rightarrow> mongo_users \<Rightarrow> mongo_users" where
  "handleUpdatePassword_failed t e s = (users_say (errorMessage t e) s)\<lparr>mu_pwdBusy := False\<rparr>"

definition open_roles :: "mongo_user \<Rightarrow> mongo_users \<Rightarrow> mongo_users" where
  "open_roles u s = s\<lparr>mu_rolesUser := Some u, mu_roles := nullish (us_roles u) []\<rparr>"

definition cancel_roles :: "mongo_users \<Rightarrow> mongo_users" where
  "cancel_roles s = (if mu_rolesBusy s then s else s\<lparr>mu_rolesUser := None, mu_roles := []\<rparr>)"

definition handleUpdateRoles_begin :: "mongo_users \<Rightarrow> mongo_users \<times> users_call list" where
  "handleUpdateRoles_begin s =
     (case mu_rolesUser s of
        None \<Rightarrow> (s, [])
      | Some u \<Rightarrow> (s\<lparr>mu_rolesBusy := True\<rparr>, [UpdateRoles (us_user u) (us_db u) (mu_roles s)]))"

definition handleUpdateRoles_done :: "translator \<Rightarrow> mongo_user \<Rightarrow> string \<Rightarrow> mongo_users \<Rightarrow> mongo_users \<times> users_call list" where
  "handleUpdateRoles_done t u db s =
     (let (s1, calls) = loadUsers_of db (users_say (t ''mongo.users.rolesUpdated'' [(''name'', us_user u)])
            (s\<lparr>mu_rolesUser := None, mu_roles := []\<rparr>)) in
      (s1\<lparr>mu_rolesBusy := False\<rparr>, calls))"

definition handleUpdateRoles_failed :: "translator \<Rightarrow> js_error \<Rightarrow> mongo_users \<Rightarrow> mongo_users" where
  "handleUpdateRoles_failed t e s = (users_say (errorMessage t e) s)\<lparr>mu_rolesBusy := False\<rparr>"

definition handleDeleteUser_begin :: "mongo_user \<Rightarrow> users_call list" where
  "handleDeleteUser_begin u = [DropUser (us_db u) (us_user u)]"

definition handleDeleteUser_done :: "translator \<Rightarrow> mongo_user \<Rightarrow> string \<Rightarrow> mongo_users \<Rightarrow> mongo_users \<times> users_call list" where
  "handleDeleteUser_done t u db s = loadUsers_of db (users_say (t ''mongo.users.userDropped'' [(''name'', us_user u)]) s)"

definition handleDeleteUser_failed :: "translator \<Rightarrow> js_error \<Rightarrow> mongo_users \<Rightarrow> mongo_users" where
  "handleDeleteUser_failed t e s = users_say (errorMessage t e) s"

definition handleCopyUri :: "translator \<Rightarrow> string \<Rightarrow> int \<Rightarrow> mongo_user \<Rightarrow> users_call list" where
  \<comment> \<open>with host and port of the session\<close>
  "handleCopyUri t host port u =
     [CopyUri (''mongodb://'' @ us_user u @ '':'' @ t ''mongo.users.uriPwdPlaceholder'' [] @ ''@'' @ str_or host ''localhost'' @
       (if port \<noteq> 0 then '':'' @ show_int port else []) @ ''/'' @ us_db u @ ''?authSource='' @ us_db u)]"

definition togglePresetRole :: "string \<Rightarrow> string \<Rightarrow> mongo_role list \<Rightarrow> mongo_role list" where
  "togglePresetRole roleName targetDb currentRoles =
     (if \<exists>r\<in>set currentRoles. rl_role r = roleName \<and> rl_db r = targetDb
      then filter (\<lambda>r. \<not> (rl_role r = roleName \<and> rl_db r = targetDb)) currentRoles
      else currentRoles @ [\<lparr>rl_role = roleName, rl_db = targetDb\<rparr>])"

definition toggle_new_role :: "string \<Rightarrow> mongo_users \<Rightarrow> mongo_users" where
  "toggle_new_role roleName s = s\<lparr>mu_newRoles := togglePresetRole roleName (mu_newUserDb s) (mu_newRoles s)\<rparr>"

definition toggle_user_role :: "string \<Rightarrow> mongo_users \<Rightarrow> mongo_users" where
  "toggle_user_role roleName s =
     s\<lparr>mu_roles := togglePresetRole roleName (opt_or (map_option us_db (mu_rolesUser s)) ''admin'') (mu_roles s)\<rparr>"

definition without_index :: "nat \<Rightarrow> 'a list \<Rightarrow> 'a list" where
  \<comment> \<open>\<open>filter((_, idx) => idx !== i)\<close>\<close>
  "without_index i xs = take i xs @ drop (Suc i) xs"

definition remove_new_role :: "nat \<Rightarrow> mongo_users \<Rightarrow> mongo_users" where
  "remove_new_role i s = s\<lparr>mu_newRoles := without_index i (mu_newRoles s)\<rparr>"

definition remove_user_role :: "nat \<Rightarrow> mongo_users \<Rightarrow> mongo_users" where
  "remove_user_role i s = s\<lparr>mu_roles := without_index i (mu_roles s)\<rparr>"

text \<open>Ticking a role adds or removes exactly this role in this database, and ticking it again restores the roles.\<close>

theorem toggle_is_one_role:
  "set (togglePresetRole r db rs) =
     (if \<lparr>rl_role = r, rl_db = db\<rparr> \<in> set rs then set rs - {\<lparr>rl_role = r, rl_db = db\<rparr>} else insert \<lparr>rl_role = r, rl_db = db\<rparr> (set rs)) \<and>
   set (togglePresetRole r db (togglePresetRole r db rs)) = set rs"
proof -
  have one: "rl_role x = r \<and> rl_db x = db \<longleftrightarrow> x = \<lparr>rl_role = r, rl_db = db\<rparr>" for x :: mongo_role by auto
  show ?thesis unfolding togglePresetRole_def one by auto
qed

text \<open>
  The button for the first user of a database does not set the roles: the user gets the role that was prepared for the database
  shown when the panel was opened.
\<close>

theorem first_user_gets_foreign_role:
  assumes "trim name \<noteq> []" "trim pwd \<noteq> []" "db \<noteq> []" "db0 \<noteq> []"
    and "s = open_first_user (loadUsers_listed (Some []) (fst (select_users_db db (init_mongo_users db0))))"
  shows "snd (handleCreateUser_begin t (s\<lparr>mu_newUsername := name, mu_newPassword := pwd\<rparr>)) =
    [CreateUser (trim name) (trim pwd) db [\<lparr>rl_role = ''readWrite'', rl_db = db0\<rparr>]]"
  using assms
  by (simp add: handleCreateUser_begin_def open_first_user_def loadUsers_listed_def select_users_db_def loadUsers_begin_def loadUsers_of_def
      init_mongo_users_def read_write_def str_or_def Let_def)

theorem first_user_gets_foreign_role_witness:
  "snd (handleCreateUser_begin (\<lambda>k _. k) ((open_first_user (loadUsers_listed (Some []) (fst (select_users_db ''shop'' (init_mongo_users ''admin'')))))
     \<lparr>mu_newUsername := ''bo'', mu_newPassword := ''pw''\<rparr>)) = [CreateUser ''bo'' ''pw'' ''shop'' [\<lparr>rl_role = ''readWrite'', rl_db = ''admin''\<rparr>]]"
proof -
  have t: "trim ''bo'' = ''bo''" "trim ''pw'' = ''pw''" by code_simp+
  from first_user_gets_foreign_role [OF _ _ _ _ refl, of "''bo''" "''pw''" "''shop''" "''admin''"] show ?thesis by (simp add: t)
qed

text \<open>
  The end of a deletion loads the users of the database that was selected when it began, which are then shown under the one that is
  selected by now; the same holds for a new user and for the roles of a user.
\<close>

theorem deletion_shows_users_of_captured_database:
  "snd (handleDeleteUser_done t u (mu_selectedDb s) (fst (select_users_db db2 s))) = [UsersOf (mu_selectedDb s)] \<and>
   mu_selectedDb (loadUsers_listed (Some us) (fst (handleDeleteUser_done t u (mu_selectedDb s) (fst (select_users_db db2 s))))) = db2 \<and>
   mu_users (loadUsers_listed (Some us) (fst (handleDeleteUser_done t u (mu_selectedDb s) (fst (select_users_db db2 s))))) = us"
  by (simp add: handleDeleteUser_done_def loadUsers_of_def loadUsers_begin_def loadUsers_listed_def select_users_db_def users_say_def nullish_def)

text \<open>The answer for the database selected before is shown as the users of the one that is selected when it arrives.\<close>

theorem late_users_of_other_database:
  "mu_users (loadUsers_listed (Some us) (fst (select_users_db db2 (fst (select_users_db db1 s))))) = us \<and>
   mu_selectedDb (loadUsers_listed (Some us) (fst (select_users_db db2 (fst (select_users_db db1 s))))) = db2"
  by (simp add: loadUsers_listed_def select_users_db_def loadUsers_begin_def loadUsers_of_def nullish_def)

end
