(* ===== verification/Compose.thy ===== *)
theory Compose
  imports Prelude
begin

section \<open>Docker Compose projects\<close>

text \<open>
  \<open>pages/docker/ComposeTab.tsx\<close> and \<open>DockerComposeGenerateModal.tsx\<close>: the variables that a Compose file refers to, the table that
  joins the saved projects with those the server runs, the editor, and the logs of a container. Handlers are split at their
  awaits. The patterns of the scanner are written as matchers: a name is taken as far as it goes, which is the only way in which
  either pattern can match, because what may follow it is no part of a name.
\<close>

subsection \<open>The variables of a file\<close>

record env_var =
  ev_name :: string
  ev_defaultValue :: string
  ev_hasDefault :: bool
  ev_occurrences :: nat

definition digit_code :: "char \<Rightarrow> bool" where
  "digit_code c \<longleftrightarrow> (let n = of_char c :: nat in 48 \<le> n \<and> n \<le> 57)"

definition name_char :: "char \<Rightarrow> bool" where
  "name_char c \<longleftrightarrow> (let n = of_char c :: nat in 97 \<le> n \<and> n \<le> 122 \<or> 65 \<le> n \<and> n \<le> 90) \<or> digit_code c \<or> c = CHR ''_''"

definition default_part :: "string \<Rightarrow> (string \<times> string) option" where
  \<comment> \<open>\<open>:?[-?]([^}]*)}\<close>: the text after the sign and the rest after the brace\<close>
  "default_part s =
     (case (case s of c # r \<Rightarrow> if c = CHR '':'' then r else s | [] \<Rightarrow> []) of
        [] \<Rightarrow> None
      | d # u \<Rightarrow>
          if d \<in> {CHR ''-'', CHR ''?''}
          then case dropWhile (\<lambda>c. c \<noteq> CHR ''}'') u of [] \<Rightarrow> None | _ # r \<Rightarrow> Some (takeWhile (\<lambda>c. c \<noteq> CHR ''}'') u, r)
          else None)"

definition braced_at :: "bool \<Rightarrow> string \<Rightarrow> ((string \<times> string option) \<times> string) option" where
  \<comment> \<open>\<open>bracketRegex\<close> here, after a dollar sign or not: the name, the text of the default and the rest\<close>
  "braced_at after_dollar s =
     (if after_dollar \<or> take 2 s \<noteq> ''${'' then None
      else let n = takeWhile name_char (drop 2 s); u = dropWhile name_char (drop 2 s) in
           if n = [] then None
           else case u of
                  c # r \<Rightarrow> if c = CHR ''}'' then Some ((n, None), r) else map_option (\<lambda>(v, r). ((n, Some v), r)) (default_part u)
                | [] \<Rightarrow> None)"

definition simple_at :: "bool \<Rightarrow> string \<Rightarrow> (string \<times> string) option" where
  \<comment> \<open>\<open>simpleRegex\<close> here\<close>
  "simple_at after_dollar s =
     (case s of
        d # c # u \<Rightarrow>
          if \<not> after_dollar \<and> d = CHR ''$'' \<and> name_char c \<and> \<not> digit_code c \<and> \<not> prefix ''{'' (dropWhile name_char u)
          then Some (c # takeWhile name_char u, dropWhile name_char u) else None
      | _ \<Rightarrow> None)"

lemma default_part_shorter: "default_part s = Some (v, r) \<Longrightarrow> length r < length s"
  using length_dropWhile_le [of "\<lambda>c. c \<noteq> CHR ''}''" "tl (tl s)"] length_dropWhile_le [of "\<lambda>c. c \<noteq> CHR ''}''" "tl s"]
  by (auto simp: default_part_def split: list.splits if_splits)

lemma braced_at_shorter: "braced_at b s = Some (m, r) \<Longrightarrow> length r < length s"
  using length_dropWhile_le [of name_char "drop 2 s"]
  by (auto simp: braced_at_def Let_def split: list.splits if_splits dest!: default_part_shorter)

lemma simple_at_shorter: "simple_at b s = Some (m, r) \<Longrightarrow> length r < length s"
  using length_dropWhile_le [of name_char "tl (tl s)"]
  by (auto simp: simple_at_def split: list.splits if_splits)

function braced_refs :: "bool \<Rightarrow> string \<Rightarrow> (string \<times> string option) list" where
  \<comment> \<open>all matches, from left to right; the last character of a match is no dollar sign\<close>
  "braced_refs b s =
     (case s of
        [] \<Rightarrow> []
      | c # u \<Rightarrow> (case braced_at b s of Some (m, r) \<Rightarrow> m # braced_refs False r | None \<Rightarrow> braced_refs (c = CHR ''$'') u))"
  by pat_completeness auto
termination by (relation "measure (\<lambda>(b, s). length s)") (auto dest: braced_at_shorter)

function simple_refs :: "bool \<Rightarrow> string \<Rightarrow> string list" where
  "simple_refs b s =
     (case s of
        [] \<Rightarrow> []
      | c # u \<Rightarrow> (case simple_at b s of Some (m, r) \<Rightarrow> m # simple_refs False r | None \<Rightarrow> simple_refs (c = CHR ''$'') u))"
  by pat_completeness auto
termination by (relation "measure (\<lambda>(b, s). length s)") (auto dest: simple_at_shorter)

declare braced_refs.simps [simp del] simple_refs.simps [simp del]

definition add_braced :: "string \<times> string option \<Rightarrow> env_var list \<Rightarrow> env_var list" where
  \<comment> \<open>one match of \<open>bracketRegex\<close>; the map is the list of its values in the order of insertion\<close>
  "add_braced m vs =
     (let n = fst m; hasDefault = (snd m \<noteq> None); defaultValue = nullish (snd m) [] in
      if list_all digit_code n then vs
      else if n \<in> ev_name ` set vs
      then map (\<lambda>v. if ev_name v = n
                    then let w = v\<lparr>ev_occurrences := ev_occurrences v + 1\<rparr> in
                         if \<not> ev_hasDefault v \<and> hasDefault then w\<lparr>ev_defaultValue := defaultValue, ev_hasDefault := True\<rparr> else w
                    else v) vs
      else vs @ [\<lparr>ev_name = n, ev_defaultValue = defaultValue, ev_hasDefault = hasDefault, ev_occurrences = 1\<rparr>])"

definition add_simple :: "string \<Rightarrow> env_var list \<Rightarrow> env_var list" where
  "add_simple n vs =
     (if n \<in> ev_name ` set vs
      then map (\<lambda>v. if ev_name v = n then v\<lparr>ev_occurrences := ev_occurrences v + 1\<rparr> else v) vs
      else vs @ [\<lparr>ev_name = n, ev_defaultValue = [], ev_hasDefault = False, ev_occurrences = 1\<rparr>])"

definition scanEnvVarsFromYaml :: "string \<Rightarrow> env_var list" where
  "scanEnvVarsFromYaml content =
     (if content = [] then [] else fold add_simple (simple_refs False content) (fold add_braced (braced_refs False content) []))"

subsection \<open>What the scanner finds\<close>




definition word_char :: "char \<Rightarrow> bool" where
  "word_char c \<longleftrightarrow> c \<in> set ''abcdefghijklmnopqrstuvwxyzABCDEFGHIJKLMNOPQRSTUVWXYZ0123456789_''"

definition number_char :: "char \<Rightarrow> bool" where
  "number_char c \<longleftrightarrow> c \<in> set ''0123456789''"

definition no_dollar :: "string \<Rightarrow> bool" where
  "no_dollar w \<longleftrightarrow> CHR ''$'' \<notin> set w"








lemma spec_chars [simp]: "word_char = name_char" "number_char = digit_code"
proof -
  have code: "c \<in> set s \<longleftrightarrow> of_char c \<in> set (map of_char s :: nat list)" for c s
    by (auto simp: of_char_eq_iff)
  have digits: "map of_char ''0123456789'' = [48..<58 :: nat]" by code_simp
  have letters: "map of_char ''abcdefghijklmnopqrstuvwxyzABCDEFGHIJKLMNOPQRSTUVWXYZ0123456789_'' = [97..<123 :: nat] @ [65..<91] @ [48..<58] @ [95]"
    by code_simp
  have underscore: "c = CHR ''_'' \<longleftrightarrow> of_char c = (95 :: nat)" for c
    using of_char_eq_iff [of c "CHR ''_''", where ?'a = nat] by simp
  show "number_char = digit_code"
    by (rule ext) (simp only: number_char_def code digits set_upt atLeastLessThan_iff digit_code_def Let_def, linarith)
  show "word_char = name_char"
    by (rule ext) (simp only: word_char_def code letters set_append set_upt Un_iff atLeastLessThan_iff name_char_def digit_code_def underscore
        Let_def, auto)
qed

lemma dollar_no_name [simp]: "\<not> name_char (CHR ''$'')" "\<not> name_char (CHR ''{'')" "\<not> name_char (CHR ''}'')" "\<not> name_char (CHR '':'')"
  "\<not> name_char (CHR ''-'')" "\<not> name_char (CHR ''?'')"
  by (simp_all add: name_char_def digit_code_def)

lemma no_dollar_Cons [simp]: "no_dollar (c # w) \<longleftrightarrow> c \<noteq> CHR ''$'' \<and> no_dollar w"
  by (auto simp: no_dollar_def)

lemma no_dollar_append [simp]: "no_dollar (v @ w) \<longleftrightarrow> no_dollar v \<and> no_dollar w"
  by (auto simp: no_dollar_def)

lemma no_dollar_Nil [simp]: "no_dollar []"
  by (simp add: no_dollar_def)










lemma refs_Nil [simp]: "braced_refs b [] = []" "simple_refs b [] = []"
  by (simp_all add: braced_refs.simps simple_refs.simps)
























text \<open>
  What the restriction leaves out. In \<open>${A:-${B}}\<close>, which Compose accepts, the default of \<open>A\<close> ends at the first brace and \<open>B\<close> is not listed;
  in \<open>$$$A\<close>, an escaped sign and a reference, nothing is.
\<close>

theorem nested_reference_is_missed:
  "scanEnvVarsFromYaml ''${A:-${B}}'' = [\<lparr>ev_name = ''A'', ev_defaultValue = ''${B'', ev_hasDefault = True, ev_occurrences = 1\<rparr>] \<and>
   scanEnvVarsFromYaml ''$$$A'' = []"
  by code_simp

subsection \<open>Projects\<close>

record compose_service =
  sv_serviceName :: string
  sv_containerId :: string
  sv_shortId :: string
  sv_containerName :: string
  sv_image :: string
  sv_state :: string
  sv_ports :: string

record compose_stack =
  cs_uuid :: "string option"
  cs_name :: string
  cs_status :: string
  cs_runningServices :: int
  cs_totalServices :: int
  cs_services :: "compose_service list option"
  cs_configFiles :: string
  cs_createdAt :: string

record compose_record =
  cr_id :: string
  cr_serverId :: string
  cr_projectName :: string
  cr_yamlContent :: string
  cr_envVars :: "(string \<rightharpoonup> string) option"
  cr_createdAt :: string
  cr_updatedAt :: string

record compose_item =
  ci_id :: string
  ci_name :: string
  ci_localRecord :: "compose_record option" \<comment> \<open>\<open>isLocal\<close> tells whether there is one\<close>
  ci_status :: string
  ci_runningServices :: int
  ci_totalServices :: int
  ci_services :: "compose_service list"
  ci_configFiles :: string
  ci_createdAt :: string
  ci_updatedAt :: string

definition stack_matches :: "compose_record \<Rightarrow> compose_stack \<Rightarrow> bool" where
  "stack_matches r s \<longleftrightarrow>
     (truthy (cs_uuid s) \<and> cs_uuid s = Some (cr_id r)) \<or> to_lower (cs_name s) = to_lower (cr_projectName r)"

definition matchedStack :: "compose_record \<Rightarrow> compose_stack list \<Rightarrow> compose_stack option" where
  "matchedStack r stacks = find (stack_matches r) stacks"

definition local_item :: "translator \<Rightarrow> compose_stack list \<Rightarrow> compose_record \<Rightarrow> compose_item" where
  "local_item t stacks r =
     (case matchedStack r stacks of
        Some s \<Rightarrow>
          \<lparr>ci_id = cr_id r, ci_name = cr_projectName r, ci_localRecord = Some r, ci_status = str_or (cs_status s) ''running'',
           ci_runningServices = cs_runningServices s, ci_totalServices = cs_totalServices s, ci_services = nullish (cs_services s) [],
           ci_configFiles = str_or (cs_configFiles s) (t ''compose.tagLocalRecord'' []),
           ci_createdAt = str_or (cr_createdAt r) (cs_createdAt s), ci_updatedAt = str_or (cr_updatedAt r) (cr_createdAt r)\<rparr>
      | None \<Rightarrow>
          \<lparr>ci_id = cr_id r, ci_name = cr_projectName r, ci_localRecord = Some r, ci_status = ''not_deployed'',
           ci_runningServices = 0, ci_totalServices = 0, ci_services = [], ci_configFiles = t ''compose.tagLocalYaml'' [],
           ci_createdAt = cr_createdAt r, ci_updatedAt = str_or (cr_updatedAt r) (cr_createdAt r)\<rparr>)"

definition external_item :: "translator \<Rightarrow> compose_stack \<Rightarrow> compose_item" where
  "external_item t s =
     \<lparr>ci_id = opt_or (cs_uuid s) [], ci_name = cs_name s, ci_localRecord = None, ci_status = str_or (cs_status s) ''running'',
      ci_runningServices = cs_runningServices s, ci_totalServices = cs_totalServices s, ci_services = nullish (cs_services s) [],
      ci_configFiles = str_or (cs_configFiles s) (t ''compose.tagExternalProject'' []),
      ci_createdAt = cs_createdAt s, ci_updatedAt = cs_createdAt s\<rparr>"

definition matchedRemoteNames :: "compose_record list \<Rightarrow> compose_stack list \<Rightarrow> string set" where
  "matchedRemoteNames recs stacks = set (List.map_filter (\<lambda>r. map_option cs_name (matchedStack r stacks)) recs)"

definition merge_items :: "translator \<Rightarrow> compose_record list \<Rightarrow> compose_stack list \<Rightarrow> compose_item list" where
  "merge_items t recs stacks =
     map (local_item t stacks) recs @
     map (external_item t) (filter (\<lambda>s. cs_name s \<notin> matchedRemoteNames recs stacks) stacks)"

definition shows_stack :: "compose_stack \<Rightarrow> compose_item \<Rightarrow> bool" where
  \<comment> \<open>the row has the state and the services of the stack\<close>
  "shows_stack s i \<longleftrightarrow>
     ci_status i = str_or (cs_status s) ''running'' \<and> ci_runningServices i = cs_runningServices s \<and>
     ci_totalServices i = cs_totalServices s \<and> ci_services i = nullish (cs_services s) []"

lemma local_item_shows: "matchedStack r stacks = Some s \<Longrightarrow> shows_stack s (local_item t stacks r)"
  by (simp add: shows_stack_def local_item_def)

lemma external_item_shows: "shows_stack s (external_item t s)"
  by (simp add: shows_stack_def external_item_def)

lemma matchedRemoteNames_iff: "n \<in> matchedRemoteNames recs stacks \<longleftrightarrow> (\<exists>r\<in>set recs. \<exists>s. matchedStack r stacks = Some s \<and> cs_name s = n)"
  by (force simp: matchedRemoteNames_def map_filter_def image_iff)

lemma matchedStack_in: "matchedStack r stacks = Some s \<Longrightarrow> s \<in> set stacks \<and> stack_matches r s"
  by (auto simp: matchedStack_def find_Some_iff)

text \<open>
  No project of the server is left out of the table: with names that differ, every stack has a row with its state and services,
  which is an external one exactly where no saved project was joined with the stack; and every saved project has its one row.
\<close>

theorem every_project_has_a_row:
  assumes "distinct (map cs_name stacks)" "s \<in> set stacks"
  shows "(\<exists>i\<in>set (merge_items t recs stacks). shows_stack s i \<and>
            (case ci_localRecord i of
               Some r \<Rightarrow> r \<in> set recs \<and> matchedStack r stacks = Some s
             | None \<Rightarrow> ci_name i = cs_name s \<and> (\<forall>r\<in>set recs. matchedStack r stacks \<noteq> Some s))) \<and>
         map ci_id (filter (\<lambda>i. ci_localRecord i \<noteq> None) (merge_items t recs stacks)) = map cr_id recs"
proof
  have "filter (\<lambda>i. ci_localRecord i \<noteq> None) (map (local_item t stacks) recs) = map (local_item t stacks) recs"
    by (auto simp: filter_id_conv local_item_def split: option.splits)
  moreover have "map ci_id (map (local_item t stacks) recs) = map cr_id recs"
    by (simp add: local_item_def split: option.splits)
  moreover have "filter (\<lambda>i. ci_localRecord i \<noteq> None) (map (external_item t) ss) = []" for ss
    by (simp add: filter_empty_conv external_item_def)
  ultimately show "map ci_id (filter (\<lambda>i. ci_localRecord i \<noteq> None) (merge_items t recs stacks)) = map cr_id recs"
    by (simp add: merge_items_def del: map_map)
  show "\<exists>i\<in>set (merge_items t recs stacks). shows_stack s i \<and>
          (case ci_localRecord i of
             Some r \<Rightarrow> r \<in> set recs \<and> matchedStack r stacks = Some s
           | None \<Rightarrow> ci_name i = cs_name s \<and> (\<forall>r\<in>set recs. matchedStack r stacks \<noteq> Some s))"
  proof (cases "\<exists>r\<in>set recs. matchedStack r stacks = Some s")
    case True
    then obtain r where r: "r \<in> set recs" "matchedStack r stacks = Some s" by blast
    then have "ci_localRecord (local_item t stacks r) = Some r" by (simp add: local_item_def)
    with r local_item_shows [OF r(2)] show ?thesis
      by (intro bexI [of _ "local_item t stacks r"]) (simp_all add: merge_items_def)
  next
    case False
    have "cs_name s \<notin> matchedRemoteNames recs stacks"
    proof
      assume "cs_name s \<in> matchedRemoteNames recs stacks"
      then obtain r u where u: "r \<in> set recs" "matchedStack r stacks = Some u" "cs_name u = cs_name s"
        unfolding matchedRemoteNames_iff by blast
      with matchedStack_in [OF u(2)] assms have "u = s" by (auto simp: distinct_map inj_on_def)
      with u False show False by blast
    qed
    with assms(2) False external_item_shows [of s t] show ?thesis
      by (intro bexI [of _ "external_item t s"]) (simp_all add: merge_items_def, simp add: external_item_def)
  qed
qed

definition demo_stack :: "string \<Rightarrow> string \<Rightarrow> compose_stack" where
  "demo_stack uuid n =
     \<lparr>cs_uuid = Some uuid, cs_name = n, cs_status = ''running'', cs_runningServices = 1, cs_totalServices = 1, cs_services = None,
      cs_configFiles = ''f'', cs_createdAt = ''c''\<rparr>"

definition demo_record :: compose_record where
  "demo_record =
     \<lparr>cr_id = ''u1'', cr_serverId = ''s'', cr_projectName = ''web'', cr_yamlContent = ''services:'', cr_envVars = Some [''A'' \<mapsto> ''1''],
      cr_createdAt = ''c'', cr_updatedAt = ''d''\<rparr>"

lemma demo_stack_fields [simp]: "cs_name (demo_stack u n) = n" "cs_uuid (demo_stack u n) = Some u"
  by (simp_all add: demo_stack_def)

lemma demo_record_fields [simp]: "cr_id demo_record = ''u1''" "cr_projectName demo_record = ''web''"
  by (simp_all add: demo_record_def)

theorem every_project_has_a_row_witness:
  "\<exists>i\<in>set (merge_items (\<lambda>k _. k) [demo_record] [demo_stack ''u2'' ''web'', demo_stack ''u1'' ''old'']).
     shows_stack (demo_stack ''u1'' ''old'') i"
proof -
  have "distinct (map cs_name [demo_stack ''u2'' ''web'', demo_stack ''u1'' ''old''])" by (simp add: demo_stack_def)
  from every_project_has_a_row [OF this, of "demo_stack ''u1'' ''old''" "\<lambda>k _. k" "[demo_record]"] show ?thesis by auto
qed

definition row_key :: "compose_item \<Rightarrow> string" where
  \<comment> \<open>\<open>rowKey\<close> of the table\<close>
  "row_key i = str_or (ci_id i) (ci_name i)"

text \<open>
  The identifier of a saved project does not take precedence over its name. Where the server lists a stack of the same name before the
  one that carries the identifier, the saved project is joined with the former; the latter becomes an external row with the identifier, so the
  key, of the saved project.
\<close>

theorem name_beats_uuid:
  assumes "to_lower (cs_name s1) = to_lower (cr_projectName r)" "cs_uuid s2 = Some (cr_id r)" "cr_id r \<noteq> []"
    and "cs_name s2 \<noteq> cs_name s1"
  shows "merge_items t [r] [s1, s2] = [local_item t [s1] r, external_item t s2] \<and> stack_matches r s2 \<and>
         shows_stack s1 (local_item t [s1] r) \<and> row_key (local_item t [s1] r) = row_key (external_item t s2)"
proof -
  have m: "matchedStack r [s1, s2] = Some s1" "matchedStack r [s1] = Some s1"
    using assms(1) by (simp_all add: matchedStack_def stack_matches_def)
  then have "matchedRemoteNames [r] [s1, s2] = {cs_name s1}" by (auto simp: matchedRemoteNames_def map_filter_def)
  with m assms show ?thesis
    by (simp add: merge_items_def local_item_shows, simp add: local_item_def external_item_def row_key_def stack_matches_def truthy_def opt_or_def str_or_def)
qed

theorem name_beats_uuid_witness:
  "map ci_id (merge_items (\<lambda>k _. k) [demo_record] [demo_stack ''u2'' ''web'', demo_stack ''u1'' ''old'']) = [''u1'', ''u1'']"
proof -
  have m: "merge_items (\<lambda>k _. k) [demo_record] [demo_stack ''u2'' ''web'', demo_stack ''u1'' ''old''] =
      [local_item (\<lambda>k _. k) [demo_stack ''u2'' ''web''] demo_record, external_item (\<lambda>k _. k) (demo_stack ''u1'' ''old'')]"
    using name_beats_uuid [of "demo_stack ''u2'' ''web''" demo_record "demo_stack ''u1'' ''old''" "\<lambda>k _. k"] by simp
  show ?thesis unfolding m
    by (simp add: local_item_def external_item_def matchedStack_def stack_matches_def opt_or_def str_or_def)
qed

subsection \<open>The tab\<close>

record log_drawer =
  ld_open :: bool
  ld_containerId :: string
  ld_containerName :: string

record exec_target =
  et_serverId :: string
  et_containerId :: string
  et_title :: string
  et_image :: string

record compose_tab =
  co_items :: "compose_item list"
  co_loading :: bool
  co_filterState :: string
  co_searchKw :: string
  co_page :: int
  co_pageSize :: int
  co_copiedId :: "string option"
  co_editorOpen :: bool
  co_currentRecordId :: "string option"
  co_projectName :: string
  co_yamlContent :: string
  co_envVars :: "string \<rightharpoonup> string"
  co_forcePull :: bool
  co_recreate :: bool
  co_updating :: bool
  co_aiModalOpen :: bool
  co_logDrawer :: log_drawer
  co_logContent :: string
  co_logTail :: nat
  co_logTimestamps :: bool
  co_logLoading :: bool
  co_execTarget :: "exec_target option"
  co_failure :: "string option"
  co_messages :: "string list"

datatype compose_call =
    ListComposeRecords string
  | ListComposeStacks string
  | UpComposeStack string compose_record bool bool
  | DeleteComposeRecord string string
  | ControlComposeStack string string string
  | ControlContainer string string string
  | GetContainerLogs string string nat bool

definition compose_lines :: "string list \<Rightarrow> string" where
  "compose_lines ls = concat (map (\<lambda>l. l @ [CHR 0x0A]) ls)"

definition DEFAULT_COMPOSE_NAME :: string where
  "DEFAULT_COMPOSE_NAME = ''nginx-web''"

definition DEFAULT_COMPOSE_YAML :: string where
  "DEFAULT_COMPOSE_YAML = compose_lines
     [''services:'', ''  web:'', ''    image: nginx:alpine'', ''    container_name: nginx-web'', ''    restart: always'', ''    ports:'',
      ''      - '' @ [CHR 0x22] @ ''8080:80'' @ [CHR 0x22]]"

definition closed_drawer :: log_drawer where
  "closed_drawer = \<lparr>ld_open = False, ld_containerId = [], ld_containerName = []\<rparr>"

definition init_compose :: compose_tab where
  "init_compose =
     \<lparr>co_items = [], co_loading = False, co_filterState = ''all'', co_searchKw = [], co_page = 1, co_pageSize = 10, co_copiedId = None,
      co_editorOpen = False, co_currentRecordId = None, co_projectName = DEFAULT_COMPOSE_NAME, co_yamlContent = DEFAULT_COMPOSE_YAML,
      co_envVars = (\<lambda>_. None), co_forcePull = False, co_recreate = False, co_updating = False, co_aiModalOpen = False,
      co_logDrawer = closed_drawer, co_logContent = [], co_logTail = 200, co_logTimestamps = False, co_logLoading = False,
      co_execTarget = None, co_failure = None, co_messages = []\<rparr>"

definition co_say :: "string \<Rightarrow> compose_tab \<Rightarrow> compose_tab" where
  "co_say m s = s\<lparr>co_messages := co_messages s @ [m]\<rparr>"

definition fetchData_begin :: "string \<Rightarrow> compose_tab \<Rightarrow> compose_tab \<times> compose_call list" where
  "fetchData_begin serverId s =
     (if serverId = [] then (s, []) else (s\<lparr>co_loading := True\<rparr>, [ListComposeRecords serverId, ListComposeStacks serverId]))"

definition fetchData_done ::
    "translator \<Rightarrow> compose_record list option \<Rightarrow> compose_stack list option \<Rightarrow> compose_tab \<Rightarrow> compose_tab" where
  \<comment> \<open>\<open>None\<close> where a call fails\<close>
  "fetchData_done t localRecords remoteStacks s =
     s\<lparr>co_items := merge_items t (nullish localRecords []) (nullish remoteStacks []), co_loading := False\<rparr>"

definition openCreateDrawer :: "compose_tab \<Rightarrow> compose_tab" where
  "openCreateDrawer s =
     s\<lparr>co_currentRecordId := None, co_projectName := DEFAULT_COMPOSE_NAME, co_yamlContent := DEFAULT_COMPOSE_YAML,
       co_envVars := (\<lambda>_. None), co_forcePull := False, co_recreate := False, co_editorOpen := True\<rparr>"

definition external_yaml :: "compose_item \<Rightarrow> string" where
  "external_yaml i =
     compose_lines [''# External Project: '' @ ci_name i, ''services:''] @
     (if ci_services i = [] then compose_lines [''  app:'', ''    image: alpine'']
      else concat (map (\<lambda>v. compose_lines [''  '' @ sv_serviceName v @ '':'', ''    image: '' @ sv_image v]) (ci_services i)))"

definition openEditDrawer :: "compose_item \<Rightarrow> compose_tab \<Rightarrow> compose_tab" where
  "openEditDrawer i s =
     s\<lparr>co_currentRecordId := (if ci_id i = [] then None else Some (ci_id i)), co_projectName := ci_name i,
       co_yamlContent :=
         (case ci_localRecord i of
            Some r \<Rightarrow> if cr_yamlContent r \<noteq> [] then cr_yamlContent r else external_yaml i
          | None \<Rightarrow> external_yaml i),
       co_envVars := nullish (Option.bind (ci_localRecord i) cr_envVars) (\<lambda>_. None),
       co_forcePull := False, co_recreate := False, co_editorOpen := True\<rparr>"

definition project_char :: "char \<Rightarrow> bool" where
  "project_char c \<longleftrightarrow> (let n = of_char c :: nat in 97 \<le> n \<and> n \<le> 122) \<or> digit_code c \<or> c = CHR ''-'' \<or> c = CHR ''_''"

definition typed_name :: "string \<Rightarrow> string" where
  "typed_name v = filter project_char (to_lower v)"

definition type_projectName :: "string \<Rightarrow> compose_tab \<Rightarrow> compose_tab" where
  "type_projectName v s = s\<lparr>co_projectName := typed_name v\<rparr>"

definition type_env :: "string \<Rightarrow> string \<Rightarrow> compose_tab \<Rightarrow> compose_tab" where
  "type_env n v s = s\<lparr>co_envVars := (co_envVars s)(n \<mapsto> v)\<rparr>"

definition final_env :: "(string \<rightharpoonup> string) \<Rightarrow> string \<rightharpoonup> string" where
  "final_env env k = (case env k of Some v \<Rightarrow> if v = [] then None else Some v | None \<Rightarrow> None)"

definition up_record :: "string \<Rightarrow> compose_tab \<Rightarrow> compose_record" where
  "up_record serverId s =
     \<lparr>cr_id = opt_or (co_currentRecordId s) [], cr_serverId = serverId, cr_projectName = typed_name (trim (co_projectName s)),
      cr_yamlContent = trim (co_yamlContent s), cr_envVars = Some (final_env (co_envVars s)), cr_createdAt = [], cr_updatedAt = []\<rparr>"

definition handleUpAndUpdate_begin :: "translator \<Rightarrow> string \<Rightarrow> compose_tab \<Rightarrow> compose_tab \<times> compose_call list" where
  "handleUpAndUpdate_begin t serverId s =
     (if typed_name (trim (co_projectName s)) = [] then (co_say (t ''compose.reqProjectName'' []) s, [])
      else if trim (co_yamlContent s) = [] then (co_say (t ''compose.reqYaml'' []) s, [])
      else (s\<lparr>co_updating := True\<rparr>, [UpComposeStack serverId (up_record serverId s) (co_forcePull s) (co_recreate s)]))"

definition handleUpAndUpdate_done :: "translator \<Rightarrow> string \<Rightarrow> string \<Rightarrow> compose_tab \<Rightarrow> compose_tab \<times> compose_call list" where
  "handleUpAndUpdate_done t serverId cleanName s =
     (let (s1, calls) = fetchData_begin serverId (co_say (t ''compose.upSuccess'' [(''name'', cleanName)]) s\<lparr>co_editorOpen := False\<rparr>) in
      (s1\<lparr>co_updating := False\<rparr>, calls))"

definition handleUpAndUpdate_failed :: "string \<Rightarrow> compose_tab \<Rightarrow> compose_tab" where
  \<comment> \<open>a dialog with the message of the error\<close>
  "handleUpAndUpdate_failed err s = s\<lparr>co_failure := Some err, co_updating := False\<rparr>"

definition close_compose_editor :: "compose_tab \<Rightarrow> compose_tab" where
  "close_compose_editor s = (if co_updating s then s else s\<lparr>co_editorOpen := False\<rparr>)"

definition handleDelete_begin :: "string \<Rightarrow> compose_item \<Rightarrow> compose_call list" where
  "handleDelete_begin serverId i =
     (if ci_localRecord i \<noteq> None \<and> ci_id i \<noteq> [] then [DeleteComposeRecord serverId (ci_id i)]
      else [ControlComposeStack serverId (ci_name i) ''down''])"

definition action_done :: "translator \<Rightarrow> string \<Rightarrow> string \<Rightarrow> (string \<times> string) list \<Rightarrow> compose_tab \<Rightarrow> compose_tab \<times> compose_call list" where
  \<comment> \<open>the message of a deletion or of an action on a project or a container, and the table is loaded again\<close>
  "action_done t serverId key args s = fetchData_begin serverId (co_say (t key args) s)"

definition action_failed :: "translator \<Rightarrow> string \<Rightarrow> string \<Rightarrow> compose_tab \<Rightarrow> compose_tab" where
  "action_failed t key err s = co_say (t key [(''error'', err)]) s"

definition handleControl_begin :: "string \<Rightarrow> string \<Rightarrow> string \<Rightarrow> compose_call list" where
  "handleControl_begin serverId n action = [ControlComposeStack serverId n action]"

definition handleContainerControl_begin :: "string \<Rightarrow> string \<Rightarrow> string \<Rightarrow> compose_call list" where
  "handleContainerControl_begin serverId containerId action = [ControlContainer serverId containerId action]"

definition fetchContainerLogs_begin :: "string \<Rightarrow> string \<Rightarrow> nat \<Rightarrow> bool \<Rightarrow> compose_tab \<Rightarrow> compose_tab \<times> compose_call list" where
  "fetchContainerLogs_begin serverId containerId lines timestamps s =
     (s\<lparr>co_logLoading := True\<rparr>, [GetContainerLogs serverId containerId lines timestamps])"

definition fetchContainerLogs_done :: "translator \<Rightarrow> string \<Rightarrow> compose_tab \<Rightarrow> compose_tab" where
  "fetchContainerLogs_done t content s = s\<lparr>co_logContent := str_or content (t ''compose.noLogOutput'' []), co_logLoading := False\<rparr>"

definition fetchContainerLogs_failed :: "translator \<Rightarrow> string \<Rightarrow> compose_tab \<Rightarrow> compose_tab" where
  "fetchContainerLogs_failed t err s = (co_say (t ''compose.fetchContainerLogFail'' [(''error'', err)]) s)\<lparr>co_logLoading := False\<rparr>"

definition openContainerLogs :: "string \<Rightarrow> compose_service \<Rightarrow> compose_tab \<Rightarrow> compose_tab \<times> compose_call list" where
  "openContainerLogs serverId v s =
     fetchContainerLogs_begin serverId (sv_containerId v) (co_logTail s) (co_logTimestamps s)
       (s\<lparr>co_logDrawer := \<lparr>ld_open = True, ld_containerId = sv_containerId v, ld_containerName = str_or (sv_containerName v) (sv_serviceName v)\<rparr>,
          co_logContent := []\<rparr>)"

definition choose_logTail :: "string \<Rightarrow> nat \<Rightarrow> compose_tab \<Rightarrow> compose_tab \<times> compose_call list" where
  "choose_logTail serverId n s =
     fetchContainerLogs_begin serverId (ld_containerId (co_logDrawer s)) n (co_logTimestamps s) (s\<lparr>co_logTail := n\<rparr>)"

definition choose_logTimestamps :: "string \<Rightarrow> bool \<Rightarrow> compose_tab \<Rightarrow> compose_tab \<times> compose_call list" where
  "choose_logTimestamps serverId b s =
     fetchContainerLogs_begin serverId (ld_containerId (co_logDrawer s)) (co_logTail s) b (s\<lparr>co_logTimestamps := b\<rparr>)"

definition refresh_logs :: "string \<Rightarrow> compose_tab \<Rightarrow> compose_tab \<times> compose_call list" where
  "refresh_logs serverId s =
     fetchContainerLogs_begin serverId (ld_containerId (co_logDrawer s)) (co_logTail s) (co_logTimestamps s) s"

definition close_logs :: "compose_tab \<Rightarrow> compose_tab" where
  "close_logs s = s\<lparr>co_logDrawer := closed_drawer\<rparr>"

definition open_exec :: "string \<Rightarrow> compose_service \<Rightarrow> compose_tab \<Rightarrow> compose_tab" where
  \<comment> \<open>the button is disabled where the container does not run\<close>
  "open_exec serverId v s =
     (if sv_state v \<noteq> ''running'' then s
      else s\<lparr>co_execTarget := Some
             \<lparr>et_serverId = serverId, et_containerId = sv_containerId v,
              et_title = sv_serviceName v @ '' ('' @ str_or (sv_containerName v) (sv_shortId v) @ '')'', et_image = sv_image v\<rparr>\<rparr>)"

definition copyUUID :: "translator \<Rightarrow> bool \<Rightarrow> string \<Rightarrow> compose_tab \<Rightarrow> compose_tab" where
  \<comment> \<open>\<open>ok\<close>: whether the text could be copied; two seconds later \<open>copiedId\<close> is \<open>null\<close>\<close>
  "copyUUID t ok uuid s = (if ok then co_say (t ''compose.copiedUuid'' []) (s\<lparr>co_copiedId := Some uuid\<rparr>) else s)"

definition compose_matches :: "string \<Rightarrow> compose_item \<Rightarrow> bool" where
  "compose_matches kw i \<longleftrightarrow>
     includes_str (to_lower (ci_name i)) kw \<or> includes_str (to_lower (ci_id i)) kw \<or>
     list_ex (\<lambda>v. includes_str (to_lower (sv_serviceName v)) kw \<or> includes_str (to_lower (sv_image v)) kw) (ci_services i)"

definition compose_filtered :: "compose_tab \<Rightarrow> compose_item list" where
  "compose_filtered s =
     filter (\<lambda>i. \<not> (co_filterState s \<in> {''running'', ''stopped'', ''not_deployed''} \<and> ci_status i \<noteq> co_filterState s) \<and>
                (co_searchKw s = [] \<or> compose_matches (to_lower (co_searchKw s)) i)) (co_items s)"

definition choose_filterState :: "string \<Rightarrow> compose_tab \<Rightarrow> compose_tab" where
  "choose_filterState v s = s\<lparr>co_filterState := v, co_page := 1\<rparr>"

definition type_searchKw :: "string \<Rightarrow> compose_tab \<Rightarrow> compose_tab" where
  "type_searchKw v s = s\<lparr>co_searchKw := v, co_page := 1\<rparr>"

datatype env_state = EnvConfigured | EnvDefault | EnvMissing

definition env_status :: "compose_tab \<Rightarrow> env_var \<Rightarrow> env_state" where
  \<comment> \<open>\<open>isConfigured\<close> and \<open>isUsingDefault\<close> of a row\<close>
  "env_status s v =
     (if nullish (co_envVars s (ev_name v)) [] \<noteq> [] then EnvConfigured else if ev_hasDefault v then EnvDefault else EnvMissing)"

subsection \<open>What is saved\<close>

lemma project_char_lower: "project_char c \<Longrightarrow> to_lower_char c = c"
  by (auto simp: project_char_def digit_code_def to_lower_char_def Let_def)

lemma typed_name_fixed: "list_all project_char n \<Longrightarrow> typed_name n = n"
proof (induction n)
  case (Cons c n)
  then show ?case by (simp add: typed_name_def to_lower_def project_char_lower)
qed (simp add: typed_name_def to_lower_def)

lemma typed_name_chars: "list_all project_char (typed_name v)"
  by (simp add: typed_name_def list_all_iff)

lemma project_char_not_white: "list_all project_char n \<Longrightarrow> trim n = n"
proof (rule trim_no_white)
  assume n: "list_all project_char n"
  have "\<not> project_char c" if "c \<in> white_bytes" for c
    using that unfolding white_bytes_def js_white_def by (auto simp: project_char_def digit_code_def)
  with n show "set n \<inter> white_bytes = {}" by (auto simp: list_all_iff)
qed

lemma final_env_id: "(\<forall>k. env k \<noteq> Some []) \<Longrightarrow> final_env env = env"
  by (auto simp: final_env_def fun_eq_iff split: option.splits)

text \<open>
  A name that is typed is sent as it is shown. A saved project that is opened and saved without a change is sent with its identifier, its
  text and its variables, provided that its text has no white space around it and no variable is empty.
\<close>

theorem unchanged_save_sends_the_record:
  assumes "ci_localRecord i = Some r" "ci_id i = cr_id r" "ci_name i = cr_projectName r" "cr_id r \<noteq> []" "cr_serverId r = serverId"
    and "list_all project_char (cr_projectName r)" "cr_projectName r \<noteq> []"
    and "trim (cr_yamlContent r) = cr_yamlContent r" "cr_yamlContent r \<noteq> []" "cr_envVars r = Some env" "\<forall>k. env k \<noteq> Some []"
  shows "snd (handleUpAndUpdate_begin t serverId (openEditDrawer i s)) =
           [UpComposeStack serverId (r\<lparr>cr_createdAt := [], cr_updatedAt := []\<rparr>) False False] \<and>
         (\<forall>v. typed_name v \<noteq> [] \<longrightarrow> cr_projectName (up_record serverId (type_projectName v s)) = typed_name v)"
proof -
  have "typed_name (trim (typed_name v)) = typed_name v" for v
    using typed_name_fixed project_char_not_white typed_name_chars by metis
  moreover have "typed_name (trim (cr_projectName r)) = cr_projectName r"
    using assms(6) by (simp add: project_char_not_white typed_name_fixed)
  ultimately show ?thesis using assms
    by (simp add: handleUpAndUpdate_begin_def openEditDrawer_def up_record_def type_projectName_def final_env_id nullish_def opt_or_def str_or_def)
qed

theorem unchanged_save_sends_the_record_witness:
  "snd (handleUpAndUpdate_begin (\<lambda>k _. k) ''s'' (openEditDrawer (local_item (\<lambda>k _. k) [] demo_record) init_compose)) =
     [UpComposeStack ''s'' (demo_record\<lparr>cr_createdAt := [], cr_updatedAt := []\<rparr>) False False]"
proof -
  have t: "trim ''services:'' = ''services:''"
    by (rule trim_no_white) (simp add: white_bytes_def js_white_def)
  have "snd (handleUpAndUpdate_begin (\<lambda>k _. k) ''s'' (openEditDrawer (local_item (\<lambda>k _. k) [] demo_record) init_compose)) =
          [UpComposeStack ''s'' (demo_record\<lparr>cr_createdAt := [], cr_updatedAt := []\<rparr>) False False] \<and>
        (\<forall>v. typed_name v \<noteq> [] \<longrightarrow> cr_projectName (up_record ''s'' (type_projectName v init_compose)) = typed_name v)"
    by (rule unchanged_save_sends_the_record [where env = "[''A'' \<mapsto> ''1'']" and r = demo_record])
      (simp_all add: local_item_def demo_record_def matchedStack_def project_char_def digit_code_def t)
  then show ?thesis by blast
qed

text \<open>
  The log on screen is the one that arrives last. A log that was asked for before another container's drawer was opened, and arrives after
  that one's, is shown under the name of the other container.
\<close>

theorem late_log_of_another_container:
  assumes "openContainerLogs serverId v s = (s1, c1)" "openContainerLogs serverId w (close_logs s1) = (s2, c2)" "logV \<noteq> []"
  shows "let s3 = fetchContainerLogs_done t logV (fetchContainerLogs_done t logW s2) in
         co_logContent s3 = logV \<and> ld_open (co_logDrawer s3) \<and> ld_containerId (co_logDrawer s3) = sv_containerId w \<and>
         c1 = [GetContainerLogs serverId (sv_containerId v) (co_logTail s) (co_logTimestamps s)]"
  using assms by (auto simp: openContainerLogs_def fetchContainerLogs_begin_def fetchContainerLogs_done_def close_logs_def str_or_def)

definition demo_service :: "string \<Rightarrow> compose_service" where
  "demo_service n =
     \<lparr>sv_serviceName = n, sv_containerId = n, sv_shortId = n, sv_containerName = n, sv_image = n, sv_state = ''running'', sv_ports = []\<rparr>"

theorem late_log_of_another_container_witness:
  "\<exists>s :: compose_tab. co_logContent s = ''of a'' \<and> ld_containerId (co_logDrawer s) = ''b''"
proof -
  obtain s1 c1 where 1: "openContainerLogs ''s'' (demo_service ''a'') init_compose = (s1, c1)" by fastforce
  obtain s2 c2 where 2: "openContainerLogs ''s'' (demo_service ''b'') (close_logs s1) = (s2, c2)" by fastforce
  from late_log_of_another_container [OF 1 2, of "''of a''" "\<lambda>k _. k" "''of b''"]
  have "co_logContent (fetchContainerLogs_done (\<lambda>k _. k) ''of a'' (fetchContainerLogs_done (\<lambda>k _. k) ''of b'' s2)) = ''of a'' \<and>
        ld_containerId (co_logDrawer (fetchContainerLogs_done (\<lambda>k _. k) ''of a'' (fetchContainerLogs_done (\<lambda>k _. k) ''of b'' s2))) = ''b''"
    by (simp add: Let_def demo_service_def)
  then show ?thesis by blast
qed

text \<open>
  A failure to list the stacks is no message. The saved projects are shown as not deployed, and the external ones vanish.
\<close>

theorem unlisted_stacks_look_undeployed:
  "let s' = fetchData_done t (Some recs) None s in
   map ci_status (co_items s') = replicate (length recs) ''not_deployed'' \<and> co_messages s' = co_messages s"
  by (simp add: Let_def fetchData_done_def merge_items_def nullish_def map_replicate_const [symmetric] local_item_def matchedStack_def)

text \<open>
  An external project that is taken over is not saved with its file, which is not read, but with a text of the names and the images of its
  services.
\<close>

theorem takeover_keeps_the_images_only:
  "co_yamlContent (openEditDrawer (external_item t s) c) = external_yaml (external_item t s) \<and>
   co_currentRecordId (openEditDrawer (external_item t s) c) = (if opt_or (cs_uuid s) [] = [] then None else cs_uuid s)"
  by (cases "cs_uuid s") (simp_all add: openEditDrawer_def external_item_def opt_or_def str_or_def)

subsection \<open>Generating a file\<close>

record generate_modal =
  gm_selectedImages :: "string list"
  gm_prompt :: string
  gm_loading :: bool
  gm_open :: bool
  gm_messages :: "string list"

datatype generate_call = GenerateCompose "string list" string

definition wide_semicolon :: string where
  "wide_semicolon = [CHR 0xEF, CHR 0xBC, CHR 0x9B]"

definition wide_comma :: string where
  "wide_comma = [CHR 0xEF, CHR 0xBC, CHR 0x8C]"

definition handleAddChip :: "string \<Rightarrow> generate_modal \<Rightarrow> generate_modal" where
  "handleAddChip chipText s =
     (let trimmed = trim (gm_prompt s) in
      s\<lparr>gm_prompt :=
          (if trimmed = [] then chipText
           else if ends_with trimmed wide_semicolon \<or> ends_with trimmed '';'' \<or> ends_with trimmed wide_comma \<or> ends_with trimmed '',''
                then trimmed @ '' '' @ chipText
           else trimmed @ wide_semicolon @ chipText)\<rparr>)"

definition handleGenerate_begin :: "generate_modal \<Rightarrow> generate_modal \<times> generate_call list" where
  "handleGenerate_begin s = (s\<lparr>gm_loading := True\<rparr>, [GenerateCompose (gm_selectedImages s) (trim (gm_prompt s))])"

definition handleGenerate_done :: "translator \<Rightarrow> string \<Rightarrow> generate_modal \<Rightarrow> compose_tab \<Rightarrow> generate_modal \<times> compose_tab" where
  \<comment> \<open>\<open>onGenerated\<close> of the tab sets the text of its editor\<close>
  "handleGenerate_done t resultYaml g s =
     (if trim resultYaml = []
      then (g\<lparr>gm_messages := gm_messages g @ [t ''compose.genError'' [(''error'', t ''compose.genFail'' [])]], gm_loading := False\<rparr>, s)
      else (g\<lparr>gm_messages := gm_messages g @ [t ''compose.genSuccess'' []], gm_open := False, gm_loading := False\<rparr>,
            s\<lparr>co_yamlContent := resultYaml, co_aiModalOpen := False\<rparr>))"

definition handleGenerate_failed :: "translator \<Rightarrow> string \<Rightarrow> generate_modal \<Rightarrow> generate_modal" where
  "handleGenerate_failed t err g = g\<lparr>gm_messages := gm_messages g @ [t ''compose.genError'' [(''error'', err)]], gm_loading := False\<rparr>"

end
