(* ===== verification/Spec2Isabelle.thy ===== *)
theory Spec2Isabelle
  imports Connect Sessions SqlFilter RedisKeys ApiClient ApiCurl AgentComposer Md5 DbAlterPlans DataTab ApiTreeList Mqtt Terminal FilePanel MysqlPage Wiki
    Storage PostgresPage SqlitePage SqlEditor MongoPage MongoData MongoQuery MongoUsers Compose
begin

text \<open>
  The logic of a desktop client for servers, databases and an AI agent (\<open>frontend/src\<close>, TypeScript
  with React; the backend in Go is reached through \<open>api.ts\<close>). The client keeps saved connections,
  opens sessions on them, shows each session in a tab, and has four tools beside them: an HTTP and
  WebSocket client, developer tools, a wiki and the agent.

  \<^bold>\<open>How the code is represented.\<close> A React hook or provider is a record of its state variables and refs;
  each function it returns is a function on that record. An asynchronous function is split at its
  awaits into steps, and what an await gives is an argument, so that other steps can come between.
  What a handler captured before an await and uses after it is an argument of the later step. Times
  are arguments; texts of \<open>i18next\<close> are a parameter, the translator. Strings are lists of bytes in
  UTF-8. Optional fields are options; \<open>||\<close>, \<open>??\<close> and truthiness have their own functions in
  \<open>Prelude\<close>. Values of type \<open>any\<close> that the code inspects are values of \<open>JsValue\<close>.

  \<^bold>\<open>Theories.\<close>
  \<^item> \<open>Prelude\<close>: falsy values, the string methods that are used, printing of numbers, searching by
    index, and the locale \<open>transition_system\<close> (guarded steps that keep an invariant, interpreted for
    the components with runs, from the sessions to the wiki). \<open>JsValue\<close>: values of type \<open>any\<close>.
  \<^item> \<open>ConnTypes\<close>, \<open>ServerForm\<close>, \<open>Connect\<close>: the connection types and sessions of \<open>types.ts\<close>; the server
    form (\<open>components/server-forms\<close>, \<open>ServerDialog.tsx\<close>): initial values, switch of the type,
    validation; what \<open>contexts/sessionHelpers.ts\<close> makes of a configuration. Shown: which fields
    validation requires, the form is always complete, the switches do not depend on the path.
  \<^item> \<open>Sessions\<close>: \<open>contexts/SessionContext.tsx\<close> and the tabs (\<open>SessionTabs.tsx\<close>): every operation of the
    provider, its effects and refs. Shown: ids stay distinct, the active tab is open in the runs in which
    the effect has brought the refs up to date before a handler reads them (and what happens in the others), closing
    chooses the neighbour, a session is disconnected once.
  \<^item> \<open>SqlText\<close>, \<open>SqlFilter\<close>: INSERT, UPDATE and WHERE as text (\<open>utils/sqlExport.ts\<close>,
    \<open>ColumnFilterPopover.tsx\<close>, the builder of \<open>sqliteAdapter.ts\<close>) against readers written from the
    quoting rules of each dialect, as instances of one locale for quoting: the text reads back as
    exactly the intended table, columns and values. A reader takes the length of its input as fuel;
    each part it reads is not empty, so that is enough, as the theorems show. What a row's values, the columns of SET and
    WHERE and a numeric operand should be is said without the code's own functions.
  \<^item> \<open>RedisKeys\<close>: the key tree of \<open>pages/redis/redisTypes.ts\<close>: its leaves are the keys, its counts are
    right.
  \<^item> \<open>ApiTypes\<close>, \<open>ApiUrl\<close>, \<open>ApiCurl\<close>, \<open>ApiTree\<close>, \<open>ApiClient\<close>: \<open>pages/api\<close>: the request that is sent, the
    address and its parameters, the curl command and what a shell reads of it, the tree of saved
    requests with its moves, and the hook \<open>useApi.ts\<close>. Shown: the request sent is that of the form, the screen always shows the answer
    of its own request, late answers do not leak, moves and deletions lose nothing else, saving and
    opening agree.
  \<^item> \<open>TreeView\<close>, \<open>ApiTreeList\<close>: the tree component (\<open>components/common/Tree\<close>): expansion, selection and the drag
    with its timer; and the list of saved requests (\<open>ApiTreeList.tsx\<close>) that shows it. Shown: what is clicked or
    dragged in the tree loses no request; opening another request asks before a modified one is left; and how its dialog
    for moving does lose one.
  \<^item> \<open>JsError\<close>, \<open>Mqtt\<close>: the texts of errors (\<open>utils/error.ts\<close>) and the MQTT client
    (\<open>pages/mqtt/MqttClient.tsx\<close>). Shown: the stream on screen is the end of a log
    that is kept from the events alone.
  \<^item> \<open>Base64\<close>, \<open>Terminal\<close>: the codec of \<open>utils/file.ts\<close> against the standard, and the terminal
    (\<open>pages/ssh/terminal/TerminalView.tsx\<close>) as the calls made to the emulator. Shown: the decoder never differs from the
    standard, and whatever the backend encodes reaches the emulator byte for byte, in order and within a bounded queue.
  \<^item> \<open>FileEditor\<close>, \<open>FilePanel\<close>: the remote files (\<open>pages/ssh/file\<close>): listing, selection, uploads, transfers and the
    editor. Shown: the selection belongs to the listing, each transfer is listed once with its latest state; and
    two ways in which the editor loses or misplaces text.
  \<^item> \<open>Json\<close>, \<open>Storage\<close>: \<open>JSON.stringify\<close> and \<open>JSON.parse\<close>, with a round trip, and the storage of the browser under
    \<open>utils/storage.ts\<close>, with the presets of \<open>utils/theme.ts\<close> and the sizes of \<open>utils/format.ts\<close>. The printing of doubles that
    are not natural numbers and the quota of the browser are parameters. Shown: what is stored is read back, the size on
    screen is the rounded one.
  \<^item> \<open>PageTabs\<close>, \<open>MysqlPage\<close>, \<open>PostgresPage\<close>, \<open>SqlitePage\<close>: the strip of tabs of a database page, as the pages share it, and
    the three pages (\<open>pages/mysql/MysqlClient.tsx\<close>, \<open>pages/postgres/PostgresClient.tsx\<close> with \<open>IoModal.tsx\<close>,
    \<open>pages/sqlite/SqliteClient.tsx\<close>): the tree of databases, tabs, dialogs, status, users and roles. In \<open>MysqlPage\<close> the component
    of a tab is a type parameter, so that the table view and the SQL editor both fit. Shown: the active tab is open
    and keys are distinct unless an answer comes back to tabs captured before; what SQLite is asked to drop is the table that was confirmed; and how tabs collide, lose their
    state or outlive their table, and how an import reaches another schema.
  \<^item> \<open>MongoPage\<close>, \<open>MongoData\<close>: \<open>pages/mongo/MongoClient.tsx\<close> with its dialog \<open>ObjModal.tsx\<close>, and \<open>DataTab.tsx\<close>: the filter
    made of a text and of columns, the query, the rows, the editors and the menu. Shown: opening a collection shows that
    collection, its statements name the document on screen, the latest query is the one that is shown; and how a document
    without its \<open>_id\<close>, or with a long integer as its \<open>_id\<close>, makes another document change.
  \<^item> \<open>MongoQuery\<close>, \<open>MongoUsers\<close>: the editor of commands \<open>MqlEditor.tsx\<close>, the export \<open>IoModal.tsx\<close> and the users
    \<open>UsersTab.tsx\<close>. Shown: the command that is sent reads as what was typed, or as the find or the aggregation around it, the
    CSV of documents reads back by RFC 4180; and which command is taken for a filter, which user gets a role elsewhere.
  \<^item> \<open>Compose\<close>: \<open>pages/docker/ComposeTab.tsx\<close> with the dialog that generates a file: the variables of a Compose file, the table of
    saved and running projects, the editor and the logs. Shown: the table of variables is that of the references in the file, every
    project has a row; and how a project is joined with the wrong stack.
  \<^item> \<open>SqlEditor\<close>: \<open>components/db/SqlEditor/DbSqlEditor.tsx\<close>: the queries with their results, and the export of a result
    as CSV against a reader of RFC 4180. Shown: the active query is one of the list and what is typed goes into it; the
    file reads back, unless a text has a quote in it.
  \<^item> \<open>Wiki\<close>: \<open>pages/wiki/WikiClient.tsx\<close>, with the files on disk beside it. Shown: the marker for unsaved changes tells
    the truth in every run in which no other document is opened meanwhile, and what happens when one is.
  \<^item> \<open>AgentTypes\<close>, \<open>AgentSessions\<close>, \<open>AgentEvents\<close>, \<open>AgentComposer\<close>: \<open>pages/agent\<close>: paging and the list of
    sessions (\<open>useAgentSessions.ts\<close>), the events of a run (\<open>useAgentEvents.ts\<close>), and sending, plans
    and requests (\<open>useAgentComposer.ts\<close>, \<open>AiAgentPanel.tsx\<close>). Shown: what is on screen refines the
    concatenation of the chunks, no chunk is forgotten, a tool call is one step from start to end,
    every run ends idle, at most one plan is open, and a whole round of conversation leaves the
    question and its answer.
  \<^item> \<open>Md5\<close>: \<open>utils/md5.ts\<close> against the algorithm of RFC 1321: the rounds, the padding and the encoding agree,
    and the sum at the end does not.
  \<^item> \<open>DbTypes\<close>, \<open>DbAlter\<close>, \<open>DbAlterPlans\<close>, \<open>DbRebuild\<close>: \<open>components/db\<close>: the records of a table, the
    structure view of \<open>DbDataTab.tsx\<close> and the plans that \<open>generateAlterTableSql\<close> of the three adapters makes of
    the edits; \<open>loadStructure\<close>; indexes and constraints. The servers are locales: \<open>alter_server\<close> and
    \<open>sqlite_server\<close> say what a statement does to a table (SQLite with the affinity of the columns, and with an error where a
    value does not fit), \<open>adapter_plan\<close> what an adapter promises for
    each column, and each is interpreted on a server that is computed and on the three adapters. A real server may refuse
    any statement: \<open>server_obeys\<close> and \<open>sqlite_obeys\<close> only say what it does with one that it carries out. Shown:
    when such a server carries out the plan, the table that was loaded has become the table on screen, the rebuild of
    SQLite keeps the rows that fit, and the counter of changes agrees with the plan; and where the plans lose
    something.
  \<^item> \<open>DbCell\<close>, \<open>DataTab\<close>: \<open>utils/db.ts\<close>, with \<open>Number\<close> and the rounding of doubles, and the rest of
    \<open>DbDataTab.tsx\<close> with \<open>CellEditorInline.tsx\<close>: paging, sorting, filters, drafts and saving. Shown: a save
    sends the cells whose value was changed, by a description of that of its own, and late answers do not replace newer rows.

  \<^bold>\<open>How the parts interact.\<close> \<open>ServerForm\<close> makes the configuration that \<open>Connect\<close> turns into a session,
  which \<open>Sessions\<close> shows in a tab. \<open>ApiClient\<close> edits requests of \<open>ApiTypes\<close> and stores them in the tree
  of \<open>ApiTree\<close>; \<open>ApiTreeList\<close> calls its operations from the events of \<open>TreeView\<close>, whose check of the drop target is
  what keeps \<open>moveTreeNode\<close> from losing a folder. The hooks of the agent share the messages: \<open>AgentSessions\<close> loads them, \<open>AgentEvents\<close>
  and \<open>AgentComposer\<close> write to them. React runs an updater passed to a setter at once or later; where
  the code depends on it, the model has a flag \<open>eager\<close>. \<open>Base64\<close> decodes what the backend
  sends the terminal and encodes what the file panel uploads; the panel renders \<open>FileEditor\<close> with each of its own changes.
  \<open>DataTab\<close> builds its WHERE clauses with
  \<open>SqlFilter\<close> and its copies of a row with \<open>SqlText\<close>; the structure that \<open>DbRebuild\<close> loads gives it the
  primary key and gives \<open>DbAlter\<close> the columns to edit. The database pages and the SQL editor all move their tabs with
  the functions of \<open>PageTabs\<close>; the SQLite page shows the size of its file as \<open>Storage\<close> does and its statements are read with
  the lexer of \<open>SqlText\<close>; \<open>SqlEditor\<close> writes values with \<open>Json\<close>.

  \<^bold>\<open>Not modelled.\<close> Rendering and pure user interface; the other panels of the MongoDB page, the other pages of
  containers and the other SSH panels, which mix rendering with calls of the backend; the wrappers in
  \<open>api.ts\<close>; the file dialogs and the clipboard in \<open>utils\<close>; EXPLAIN and its tree; the dialogs
  for a new index or constraint, whose results are arguments here; texts, themes and presets, which are
  data; the backend, another language. Timers are the step that runs when they fire. A save of a request
  or a message that the backend refuses is ignored by the code and has no step.
\<close>

end
